(* ===== verification/Prelude.thy ===== *)
theory Prelude
  imports
    Main
    "HOL-Library.Char_ord"
    "HOL-Library.List_Lexorder"
    "HOL-Library.Finite_Map"
    "HOL-Library.Word"
    "HOL-Library.Multiset"
begin

text \<open>
  Shared vocabulary of the development: Go errors and results, byte strings and machine
  integers, the interfaces (locales) of codecs, and the list lemmas the components use.

  A Go \<^verbatim>\<open>string\<close> or \<^verbatim>\<open>[]byte\<close> is a \<^typ>\<open>string\<close> (a list of 8-bit characters), ordered
  bytewise and lexicographically as Go's string comparison does.  A function that returns
  \<^verbatim>\<open>(T, error)\<close> returns \<open>go_error + 'a\<close> here, \<open>Inl\<close> for a non-nil error.
\<close>

section \<open>Errors and results\<close>

text \<open>
  The sentinel errors of the packages: \<^verbatim>\<open>storage\<close> and \<^verbatim>\<open>cryptobox\<close> have a type of their own
  (wrapped by \<open>StorageErr\<close> and \<open>CryptoErr\<close>), the others are constructors of \<open>go_error\<close>, where
  \<open>ErrEvalMessageNotFound\<close> is \<^verbatim>\<open>gateeval.ErrMessageNotFound\<close>.  \<open>ErrJoin\<close> is \<^verbatim>\<open>errors.Join\<close> of
  two errors and \<open>ErrOther\<close> an error of the standard library that the code never inspects.
\<close>

datatype storage_error =
    ErrInvalidValue
  | ErrAccountConflict
  | ErrAccountNotFound
  | ErrCursorNotFound
  | ErrCursorConflict
  | ErrCursorRegression
  | ErrCredentialNotFound
  | ErrCredentialConflict
  | ErrPersistenceAcquire
  | ErrPersistenceInspect
  | ErrPersistenceUnknown
  | ErrPersistenceNotAllowed
  | ErrLifecycleNotFound
  | ErrLifecycleConflict
  | ErrLifecycleIncomplete
  | ErrLifecycleOverflow
  | ErrResultTooLarge
  | ErrCurrentDiscoveryTooLarge
  | ErrCurrentDiscoveryConflict
  | ErrCurrentDiscoveryRecoveryRequired
  | ErrMessageNotFound
  | ErrMessageIdentityCollision
  | ErrGateDecisionNotFound
  | ErrGateDecisionConflict
  | ErrGateDecisionStaleSource
  | ErrGateDecisionRecoveryRequired
  | ErrReviewInspectionNotFound
  | ErrCandidateContentNotFound
  | ErrCandidateContentConflict
  | ErrCandidateContentStaleSource
  | ErrCandidateContentIneligible
  | ErrCandidateContentRecoveryRequired

datatype cryptobox_error =
    ErrInvalidKeyring
  | ErrClosedKeyring
  | ErrInvalidBinding
  | ErrInvalidPlaintext
  | ErrInvalidEnvelope
  | ErrUnknownKey
  | ErrAuthentication
  | ErrRandomSource

datatype go_error =
    Canceled
  | DeadlineExceeded
  | ErrOther
  | StorageErr storage_error
  | CryptoErr cryptobox_error
  | ErrInvalidMetadata
  | ErrInvalidCandidateContent
  | ErrInvalidClassification
  | ErrTransition
  | ErrRecoveryRequired
  | ErrProviderRevocation
  | ErrInvalidRequest
  | ErrEvalMessageNotFound
  | ErrConflict
  | ErrUnavailable
  | ErrJoin go_error go_error

type_synonym 'a res = "go_error + 'a"

text \<open>\<^verbatim>\<open>errors.Is(err, target)\<close> for a sentinel target.\<close>

fun errors_is :: "go_error \<Rightarrow> go_error \<Rightarrow> bool" where
  "errors_is (ErrJoin a b) t \<longleftrightarrow> ErrJoin a b = t \<or> errors_is a t \<or> errors_is b t"
| "errors_is e t \<longleftrightarrow> e = t"

abbreviation is_ok :: "'a res \<Rightarrow> bool" where
  "is_ok r \<equiv> (case r of Inl _ \<Rightarrow> False | Inr _ \<Rightarrow> True)"

text \<open>What \<^verbatim>\<open>ctx.Err()\<close> returns at the moment of a call: \<open>None\<close> is a live context.\<close>

type_synonym ctx = "go_error option"

definition context_error :: "go_error \<Rightarrow> bool" where
  "context_error e \<longleftrightarrow> errors_is e Canceled \<or> errors_is e DeadlineExceeded"

type_synonym u32 = "32 word"
type_synonym u64 = "64 word"

section \<open>Collections of facts\<close>

named_theorems store_defs \<open>definitions of the operations of the in-memory store\<close>
named_theorems validity \<open>facts saying that a value the code built passes the code's own checks\<close>
named_theorems lengths \<open>lengths of encodings\<close>

section \<open>Bytes\<close>

abbreviation bval :: "char \<Rightarrow> nat" where
  "bval c \<equiv> of_char c"

definition in_range :: "nat \<Rightarrow> nat \<Rightarrow> char \<Rightarrow> bool" where
  "in_range lo hi c \<longleftrightarrow> lo \<le> bval c \<and> bval c \<le> hi"

lemma bval_less_256 [simp]: "bval c < 256"
  using of_char_mod_256 [of c, where 'a = nat] by (metis mod_less_divisor zero_less_numeral)

lemma bval_char_of [simp]: "bval (char_of n) = n mod 256"
  by simp

lemma bval_div_bounds [simp]: "bval c div 16 < 16" "bval c div 4 < 64" "bval c div 64 < 4"
  using bval_less_256 [of c] by linarith+

lemma bval_inj: "bval a = bval b \<longleftrightarrow> a = b"
  by (rule of_char_eq_iff)

lemma char_of_inj_256: "m < 256 \<Longrightarrow> n < 256 \<Longrightarrow> (char_of m = (char_of n :: char)) \<longleftrightarrow> m = (n::nat)"
  by (metis mod_less of_char_of)

section \<open>Interfaces of encoders and decoders\<close>

text \<open>
  A codec is an encoder with a decoder that reads back every encoded value that satisfies
  \<open>ok\<close>; a canonical codec accepts nothing but encodings of such values; a prefix codec
  reads a value off the front of a longer text.
\<close>

locale codec =
  fixes enc :: "'a \<Rightarrow> string" and dec :: "string \<Rightarrow> 'a option" and ok :: "'a \<Rightarrow> bool"
  assumes dec_enc: "ok x \<Longrightarrow> dec (enc x) = Some x"
begin

lemma enc_inject: "ok x \<Longrightarrow> ok y \<Longrightarrow> enc x = enc y \<longleftrightarrow> x = y"
  using dec_enc by (metis option.inject)

end

locale canonical_codec = codec +
  assumes enc_dec: "dec s = Some x \<Longrightarrow> ok x \<and> enc x = s"
begin

lemma dec_iff: "dec s = Some x \<longleftrightarrow> ok x \<and> enc x = s"
  using dec_enc enc_dec by blast

lemma dec_inject: "dec s = Some x \<Longrightarrow> dec t = Some x \<Longrightarrow> s = t"
  using enc_dec by blast

end

locale prefix_codec =
  fixes penc :: "'a \<Rightarrow> string" and pdec :: "string \<Rightarrow> ('a \<times> string) option" and pok :: "'a \<Rightarrow> bool"
  assumes pdec_penc: "pok x \<Longrightarrow> pdec (penc x @ r) = Some (x, r)"
begin

lemma penc_append_inject:
  "pok x \<Longrightarrow> pok y \<Longrightarrow> penc x @ r = penc y @ t \<longleftrightarrow> x = y \<and> r = t"
  using pdec_penc by (metis Pair_inject option.inject)

lemma penc_inject: "pok x \<Longrightarrow> pok y \<Longrightarrow> penc x = penc y \<longleftrightarrow> x = y"
  using penc_append_inject [of x y "[]" "[]"] by simp

text \<open>A sequence of values of known length written one after the other can be told apart.\<close>

lemma concat_inject:
  assumes "list_all pok xs" and "list_all pok ys" and "length xs = length ys"
  shows "concat (map penc xs) @ r = concat (map penc ys) @ t \<longleftrightarrow> xs = ys \<and> r = t"
  using assms(3,1,2)
  by (induction xs ys rule: list_induct2) (auto simp: penc_append_inject)

end

sublocale prefix_codec \<subseteq> codec penc "\<lambda>s. case pdec s of Some (x, []) \<Rightarrow> Some x | _ \<Rightarrow> None" pok
proof unfold_locales
  fix x assume "pok x"
  then show "(case pdec (penc x) of None \<Rightarrow> None | Some (x, []) \<Rightarrow> Some x | Some (x, a # as) \<Rightarrow> None) = Some x"
    using pdec_penc [of x "[]"] by simp
qed

section \<open>Lists\<close>

lemma sort_strict_unique:
  "sorted_wrt (<) xs \<Longrightarrow> sorted_wrt (<) ys \<Longrightarrow> set xs = set ys \<Longrightarrow> xs = (ys :: 'a :: linorder list)"
  by (metis strict_sorted_equal)

lemma sorted_remdups_adj_strict: "sorted xs \<Longrightarrow> sorted_wrt (<) (remdups_adj (xs :: 'a :: linorder list))"
  by (induction xs rule: remdups_adj.induct) (auto simp: le_less)

lemma remdups_adj_strict: "sorted_wrt (<) (xs :: 'a :: linorder list) \<Longrightarrow> remdups_adj xs = xs"
  by (simp add: strict_sorted_iff remdups_adj_distinct)

lemma list_all_mem: "list_all P xs \<Longrightarrow> x \<in> set xs \<Longrightarrow> P x"
  by (simp add: list_all_iff)

end
