(* ===== verification/Go_Strings.thy ===== *)
theory Go_Strings
  imports Prelude
begin

text \<open>
  The parts of Go's \<^verbatim>\<open>strings\<close>, \<^verbatim>\<open>unicode/utf8\<close> and \<^verbatim>\<open>unicode\<close> packages that the code uses, on
  byte strings: UTF-8 decoding with Go's replacement rule for malformed bytes, ranging over
  the runes of a string, trimming, splitting and searching.
\<close>

section \<open>UTF-8\<close>

type_synonym rune = nat

definition rune_error :: rune where
  "rune_error = 0xFFFD"

definition cont :: "char \<Rightarrow> bool" where
  "cont c \<longleftrightarrow> in_range 0x80 0xBF c"

text \<open>
  What the first byte of a multi-byte sequence says (Go's \<^verbatim>\<open>first\<close> and \<^verbatim>\<open>acceptRanges\<close> tables):
  the number of continuation bytes and the range of the first of them; \<open>None\<close> for a byte
  that starts no sequence.
\<close>

definition lead :: "char \<Rightarrow> (nat \<times> nat \<times> nat) option" where
  "lead a = (let x = bval a in
     if x < 0xC2 then None
     else if x < 0xE0 then Some (1, 0x80, 0xBF)
     else if x = 0xE0 then Some (2, 0xA0, 0xBF)
     else if x = 0xED then Some (2, 0x80, 0x9F)
     else if x < 0xF0 then Some (2, 0x80, 0xBF)
     else if x = 0xF0 then Some (3, 0x90, 0xBF)
     else if x < 0xF4 then Some (3, 0x80, 0xBF)
     else if x = 0xF4 then Some (3, 0x80, 0x8F)
     else None)"

definition tail_ok :: "nat \<times> nat \<times> nat \<Rightarrow> string \<Rightarrow> bool" where
  "tail_ok l t = (case l of (n, lo, hi) \<Rightarrow>
     length t = n \<and> list_all cont t \<and> in_range lo hi (hd t))"

definition lead_bits :: "nat \<Rightarrow> nat" where
  "lead_bits n = (if n = 1 then 0xC0 else if n = 2 then 0xE0 else 0xF0)"

definition tail_value :: "nat \<Rightarrow> string \<Rightarrow> nat" where
  "tail_value x t = foldl (\<lambda>v c. v * 64 + (bval c - 0x80)) x t"

text \<open>
  \<^verbatim>\<open>utf8.DecodeRuneInString\<close>: the first rune and the number of bytes it takes.  A malformed
  sequence is the replacement rune of width 1, the empty string has width 0.
\<close>

fun decode_rune :: "string \<Rightarrow> rune \<times> nat" where
  "decode_rune [] = (rune_error, 0)"
| "decode_rune (a # s) =
    (if bval a < 0x80 then (bval a, 1)
     else case lead a of
       None \<Rightarrow> (rune_error, 1)
     | Some l \<Rightarrow>
         if tail_ok l (take (fst l) s)
         then (tail_value (bval a - lead_bits (fst l)) (take (fst l) s), Suc (fst l))
         else (rune_error, 1))"

declare decode_rune.simps(2) [simp del]

definition rune_size :: "string \<Rightarrow> nat" where
  "rune_size s = snd (decode_rune s)"

lemma rune_size_Nil [simp]: "rune_size [] = 0"
  by (simp add: rune_size_def)

lemma rune_size_pos [simp]: "0 < rune_size (a # s)"
  by (simp add: rune_size_def decode_rune.simps(2) split: option.split)

lemma rune_size_le: "rune_size s \<le> length s"
  by (cases s)
    (auto simp: rune_size_def decode_rune.simps(2) tail_ok_def split: option.split prod.split)

lemma lead_size: "lead a = Some l \<Longrightarrow> 1 \<le> fst l \<and> fst l \<le> 3"
  by (auto simp: lead_def Let_def split: if_splits)

lemma rune_size_le_4: "rune_size s \<le> 4"
  by (cases s)
    (auto simp: rune_size_def decode_rune.simps(2) dest: lead_size split: option.split)

text \<open>Cutting a string into the byte sequences of its runes, as a \<^verbatim>\<open>range\<close> loop walks it.\<close>

function chunks :: "string \<Rightarrow> string list" where
  "chunks [] = []"
| "chunks (a # s) = take (rune_size (a # s)) (a # s) # chunks (drop (rune_size (a # s)) (a # s))"
  by pat_completeness auto
termination
proof (relation "measure length")
  fix a s
  show "(drop (rune_size (a # s)) (a # s), a # s) \<in> measure length"
    using rune_size_pos [of a s] by (simp del: rune_size_pos)
qed simp

declare chunks.simps(2) [simp del]

definition runes :: "string \<Rightarrow> rune list" where
  "runes s = map (\<lambda>c. fst (decode_rune c)) (chunks s)"

definition malformed :: "string \<Rightarrow> bool" where
  "malformed s \<longleftrightarrow> s \<noteq> [] \<and> decode_rune s = (rune_error, 1)"

text \<open>\<^verbatim>\<open>utf8.ValidString\<close>: no malformed byte sequence.\<close>

definition valid_utf8 :: "string \<Rightarrow> bool" where
  "valid_utf8 s \<longleftrightarrow> list_all (\<lambda>c. \<not> malformed c) (chunks s)"

text \<open>\<^verbatim>\<open>utf8.RuneStart\<close>: the byte is not a continuation byte.\<close>

definition rune_start :: "char \<Rightarrow> bool" where
  "rune_start c \<longleftrightarrow> \<not> cont c"

text \<open>\<^verbatim>\<open>utf8.RuneLen\<close> and \<^verbatim>\<open>strings.Builder.WriteRune\<close>; surrogates are not runes and are
  written as the replacement rune.\<close>

definition rune_valid :: "rune \<Rightarrow> bool" where
  "rune_valid r \<longleftrightarrow> r < 0xD800 \<or> 0xDFFF < r \<and> r \<le> 0x10FFFF"

definition rune_len :: "rune \<Rightarrow> int" where
  "rune_len r = (if r \<le> 0x7F then 1 else if r \<le> 0x7FF then 2
     else if 0xD800 \<le> r \<and> r \<le> 0xDFFF then -1
     else if r \<le> 0xFFFF then 3 else if r \<le> 0x10FFFF then 4 else -1)"

definition encode_rune :: "rune \<Rightarrow> string" where
  "encode_rune r0 = (let r = (if rune_valid r0 then r0 else rune_error) in
     if r \<le> 0x7F then [char_of r]
     else if r \<le> 0x7FF then [char_of (0xC0 + r div 64), char_of (0x80 + r mod 64)]
     else if r \<le> 0xFFFF then
       [char_of (0xE0 + r div 4096), char_of (0x80 + r div 64 mod 64), char_of (0x80 + r mod 64)]
     else [char_of (0xF0 + r div 262144), char_of (0x80 + r div 4096 mod 64),
           char_of (0x80 + r div 64 mod 64), char_of (0x80 + r mod 64)])"

subsection \<open>Facts about decoding\<close>

lemma concat_chunks [simp]: "concat (chunks s) = s"
  by (induction s rule: chunks.induct) (simp_all add: chunks.simps(2))

lemma chunks_eq_Nil [simp]: "chunks s = [] \<longleftrightarrow> s = []"
  by (cases s) (simp_all add: chunks.simps(2))

text \<open>A malformed sequence has width 1 and every other rune is decided by its own bytes.\<close>

lemma not_malformed_cases:
  assumes "\<not> malformed (a # s)"
  obtains (ascii) "bval a < 0x80" "decode_rune (a # s) = (bval a, 1)"
  | (multi) l where "\<not> bval a < 0x80" "lead a = Some l" "tail_ok l (take (fst l) s)"
      "decode_rune (a # s) = (tail_value (bval a - lead_bits (fst l)) (take (fst l) s), Suc (fst l))"
proof (cases "bval a < 0x80")
  case True
  then show thesis by (rule ascii) (simp add: True decode_rune.simps(2))
next
  case False
  show thesis
  proof (cases "lead a")
    case None
    with False assms show thesis by (simp add: malformed_def decode_rune.simps(2))
  next
    case (Some l)
    show thesis
    proof (cases "tail_ok l (take (fst l) s)")
      case True
      from False Some True show thesis by (rule multi) (simp add: False Some True decode_rune.simps(2))
    qed (use False Some assms in \<open>simp add: malformed_def decode_rune.simps(2)\<close>)
  qed
qed

lemma malformed_size: "malformed s \<Longrightarrow> rune_size s = 1"
  by (auto simp: malformed_def rune_size_def)

text \<open>How the first rune decodes does not depend on what follows it.\<close>

lemma decode_rune_prefix:
  assumes "\<not> malformed (a # s)"
  shows "decode_rune (take (rune_size (a # s)) (a # s) @ t) = decode_rune (a # s)"
  using assms
proof (cases rule: not_malformed_cases)
  case ascii
  then show ?thesis by (simp add: rune_size_def decode_rune.simps(2))
next
  case (multi l)
  then have "length (take (fst l) s) = fst l" by (auto simp: tail_ok_def split: prod.splits)
  with multi show ?thesis by (simp add: rune_size_def decode_rune.simps(2))
qed

lemma malformed_singleton: "malformed (a # s) \<Longrightarrow> malformed [a]"
  by (auto simp: malformed_def decode_rune.simps(2) tail_ok_def split: if_splits option.splits
      dest: lead_size)

lemma decode_rune_take: "s \<noteq> [] \<Longrightarrow> decode_rune (take (rune_size s) s) = decode_rune s"
proof (cases s)
  case (Cons a s')
  show ?thesis
  proof (cases "malformed s")
    case True
    with Cons have "malformed [a]" by (auto intro: malformed_singleton)
    with True Cons show ?thesis by (auto simp: malformed_size malformed_def)
  next
    case False
    with Cons show ?thesis using decode_rune_prefix [of a s' "[]"] by simp
  qed
qed simp

lemma malformed_take: "s \<noteq> [] \<Longrightarrow> malformed (take (rune_size s) s) = malformed s"
  using rune_size_pos [of "hd s" "tl s"]
  by (auto simp: malformed_def decode_rune_take)

lemma ascii_decode: "bval a < 0x80 \<Longrightarrow> decode_rune (a # s) = (bval a, 1)"
  by (simp add: decode_rune.simps(2))

lemma ascii_rune_size [simp]: "bval a < 0x80 \<Longrightarrow> rune_size (a # s) = 1"
  by (simp add: rune_size_def ascii_decode)

lemma ascii_not_malformed: "bval a < 0x80 \<Longrightarrow> \<not> malformed (a # s)"
  by (simp add: malformed_def ascii_decode rune_error_def)

lemma chunks_ascii_Cons: "bval a < 0x80 \<Longrightarrow> chunks (a # s) = [a] # chunks s"
  by (simp add: chunks.simps(2))

lemma chunks_ascii: "list_all (\<lambda>c. bval c < 0x80) s \<Longrightarrow> chunks s = map (\<lambda>c. [c]) s"
  by (induction s) (simp_all add: chunks_ascii_Cons)

lemma runes_ascii: "list_all (\<lambda>c. bval c < 0x80) s \<Longrightarrow> runes s = map bval s"
  by (induction s) (simp_all add: runes_def chunks_ascii_Cons ascii_decode)

lemma valid_utf8_ascii: "list_all (\<lambda>c. bval c < 0x80) s \<Longrightarrow> valid_utf8 s"
  by (induction s) (simp_all add: valid_utf8_def chunks_ascii_Cons ascii_not_malformed)

lemma valid_utf8_Nil [simp]: "valid_utf8 []"
  by (simp add: valid_utf8_def)

lemma valid_utf8_Cons:
  "valid_utf8 (a # s) \<longleftrightarrow> \<not> malformed (a # s) \<and> valid_utf8 (drop (rune_size (a # s)) (a # s))"
  by (simp add: valid_utf8_def chunks.simps(2) malformed_take)

text \<open>A well-formed rune of more than one byte has no byte below \<open>0x80\<close>.\<close>

lemma multibyte_no_ascii:
  assumes "\<not> malformed (a # s)" and "\<not> bval a < 0x80"
    and "c \<in> set (take (rune_size (a # s)) (a # s))"
  shows "\<not> bval c < 0x80"
  using assms(1)
proof (cases rule: not_malformed_cases)
  case (multi l)
  with assms(3) have "c = a \<or> c \<in> set (take (fst l) s)" by (auto simp: rune_size_def)
  moreover have "list_all cont (take (fst l) s)"
    using multi by (auto simp: tail_ok_def split: prod.splits)
  ultimately show ?thesis
    using assms(2) by (auto simp: list_all_iff cont_def in_range_def)
qed (use assms(2) in simp)

text \<open>Writing the decoded rune of a well-formed sequence gives its bytes back.\<close>

lemma tail_value_1: "tail_value x [b] = x * 64 + (bval b - 0x80)"
  by (simp add: tail_value_def)

lemma tail_value_2: "tail_value x [b, c] = (x * 64 + (bval b - 0x80)) * 64 + (bval c - 0x80)"
  by (simp add: tail_value_def)

lemma tail_value_3:
  "tail_value x [b, c, d] = ((x * 64 + (bval b - 0x80)) * 64 + (bval c - 0x80)) * 64 + (bval d - 0x80)"
  by (simp add: tail_value_def)

lemma base64_digits:
  fixes a b c d :: nat
  assumes "b < 64" and "c < 64" and "d < 64"
  shows "(a * 64 + b) div 64 = a" "(a * 64 + b) mod 64 = b"
    "((a * 64 + b) * 64 + c) div 4096 = a" "((a * 64 + b) * 64 + c) div 64 mod 64 = b"
    "((a * 64 + b) * 64 + c) mod 64 = c"
    "(((a * 64 + b) * 64 + c) * 64 + d) div 262144 = a" "(((a * 64 + b) * 64 + c) * 64 + d) div 4096 mod 64 = b"
    "(((a * 64 + b) * 64 + c) * 64 + d) div 64 mod 64 = c" "(((a * 64 + b) * 64 + c) * 64 + d) mod 64 = d"
proof -
  have 1: "(x * 64 + y) div 64 = x" "(x * 64 + y) mod 64 = y" if "y < 64" for x y :: nat
    using that by simp_all
  have 2: "x div 4096 = x div 64 div 64" "x div 262144 = x div 64 div 64 div 64" for x :: nat
    by (simp_all add: div_mult2_eq [symmetric])
  show "(a * 64 + b) div 64 = a" "(a * 64 + b) mod 64 = b"
    "((a * 64 + b) * 64 + c) div 4096 = a" "((a * 64 + b) * 64 + c) div 64 mod 64 = b"
    "((a * 64 + b) * 64 + c) mod 64 = c"
    "(((a * 64 + b) * 64 + c) * 64 + d) div 262144 = a" "(((a * 64 + b) * 64 + c) * 64 + d) div 4096 mod 64 = b"
    "(((a * 64 + b) * 64 + c) * 64 + d) div 64 mod 64 = c" "(((a * 64 + b) * 64 + c) * 64 + d) mod 64 = d"
    by (simp_all only: 2 1 assms)
qed

lemma char_of_bval [simp]: "char_of (bval c) = c"
  by (simp flip: bval_inj)

lemma cont_bounds: "cont c \<Longrightarrow> 0x80 \<le> bval c \<and> bval c - 0x80 < 64"
  by (auto simp: cont_def in_range_def)

lemma encode_decode_2:
  assumes "0xC2 \<le> bval a" and "bval a < 0xE0" and "cont b"
  shows "encode_rune ((bval a - 0xC0) * 64 + (bval b - 0x80)) = [a, b]"
proof -
  define x y where "x = bval a - 0xC0" and "y = bval b - 0x80"
  have xy: "2 \<le> x" "x < 32" "y < 64" "0xC0 + x = bval a" "0x80 + y = bval b"
    using assms cont_bounds [OF assms(3)] by (auto simp: x_def y_def)
  then have "rune_valid (x * 64 + y)" "\<not> x * 64 + y \<le> 0x7F" "x * 64 + y \<le> 0x7FF"
    by (auto simp: rune_valid_def)
  then have "encode_rune (x * 64 + y) = [char_of (0xC0 + x), char_of (0x80 + y)]"
    by (simp only: encode_rune_def Let_def if_True if_False base64_digits [OF xy(3) xy(3) xy(3)])
  then show ?thesis using xy by (simp add: x_def y_def)
qed

lemma encode_decode_3:
  assumes "0xE0 \<le> bval a" and "bval a < 0xF0" and "cont b" and "cont c"
    and "bval a = 0xE0 \<Longrightarrow> 0xA0 \<le> bval b" and "bval a = 0xED \<Longrightarrow> bval b \<le> 0x9F"
  shows "encode_rune (((bval a - 0xE0) * 64 + (bval b - 0x80)) * 64 + (bval c - 0x80)) = [a, b, c]"
proof -
  define x y z where "x = bval a - 0xE0" and "y = bval b - 0x80" and "z = bval c - 0x80"
  have xy: "x < 16" "y < 64" "z < 64" "0xE0 + x = bval a" "0x80 + y = bval b" "0x80 + z = bval c"
    using assms(1,2) cont_bounds [OF assms(3)] cont_bounds [OF assms(4)] by (auto simp: x_def y_def z_def)
  have lo: "x = 0 \<Longrightarrow> 32 \<le> y" and hi: "x = 13 \<Longrightarrow> y \<le> 31"
    using assms(5,6) xy by linarith+
  have "0x800 \<le> (x * 64 + y) * 64 + z" using lo xy by (cases "x = 0") auto
  moreover have "rune_valid ((x * 64 + y) * 64 + z)"
    using hi xy by (cases "x < 13"; cases "x = 13") (auto simp: rune_valid_def)
  moreover have "(x * 64 + y) * 64 + z \<le> 0xFFFF" using xy(1-3) by (simp add: algebra_simps)
  ultimately have "encode_rune ((x * 64 + y) * 64 + z) = [char_of (0xE0 + x), char_of (0x80 + y), char_of (0x80 + z)]"
    using base64_digits(3-5) [OF xy(2,3) xy(3), of x]
    by (simp only: encode_rune_def Let_def if_True if_False) auto
  then show ?thesis using xy by (simp add: x_def y_def z_def)
qed

lemma encode_decode_4:
  assumes "0xF0 \<le> bval a" and "bval a < 0xF5" and "cont b" and "cont c" and "cont d"
    and "bval a = 0xF0 \<Longrightarrow> 0x90 \<le> bval b" and "bval a = 0xF4 \<Longrightarrow> bval b \<le> 0x8F"
  shows "encode_rune ((((bval a - 0xF0) * 64 + (bval b - 0x80)) * 64 + (bval c - 0x80)) * 64 + (bval d - 0x80)) = [a, b, c, d]"
proof -
  define x y z w where "x = bval a - 0xF0" and "y = bval b - 0x80" and "z = bval c - 0x80" and "w = bval d - 0x80"
  have xy: "x \<le> 4" "y < 64" "z < 64" "w < 64" "0xF0 + x = bval a" "0x80 + y = bval b" "0x80 + z = bval c" "0x80 + w = bval d"
    using assms(1,2) cont_bounds [OF assms(3)] cont_bounds [OF assms(4)] cont_bounds [OF assms(5)]
    by (auto simp: x_def y_def z_def w_def)
  have lo: "x = 0 \<Longrightarrow> 16 \<le> y" and hi: "x = 4 \<Longrightarrow> y \<le> 15"
    using assms(6,7) xy by linarith+
  have "0x10000 \<le> ((x * 64 + y) * 64 + z) * 64 + w" using lo xy by (cases "x = 0") auto
  moreover have "((x * 64 + y) * 64 + z) * 64 + w \<le> 0x10FFFF"
    using hi xy by (cases "x = 4") auto
  ultimately have "encode_rune (((x * 64 + y) * 64 + z) * 64 + w) =
      [char_of (0xF0 + x), char_of (0x80 + y), char_of (0x80 + z), char_of (0x80 + w)]"
    using base64_digits(6-9) [OF xy(2-4), of x]
    by (simp only: encode_rune_def Let_def rune_valid_def) auto
  then show ?thesis using xy by (simp add: x_def y_def z_def w_def)
qed

lemma lead_cases:
  assumes "lead a = Some l" and "tail_ok l t"
  obtains b where "t = [b]" "fst l = 1" "0xC2 \<le> bval a" "bval a < 0xE0" "cont b"
  | b c where "t = [b, c]" "fst l = 2" "0xE0 \<le> bval a" "bval a < 0xF0" "cont b" "cont c"
      "bval a = 0xE0 \<Longrightarrow> 0xA0 \<le> bval b" "bval a = 0xED \<Longrightarrow> bval b \<le> 0x9F"
  | b c d where "t = [b, c, d]" "fst l = 3" "0xF0 \<le> bval a" "bval a < 0xF5" "cont b" "cont c" "cont d"
      "bval a = 0xF0 \<Longrightarrow> 0x90 \<le> bval b" "bval a = 0xF4 \<Longrightarrow> bval b \<le> 0x8F"
proof -
  obtain n lo hi where l: "l = (n, lo, hi)" by (cases l)
  with assms have t: "length t = n" "list_all cont t" "in_range lo hi (hd t)"
    by (simp_all add: tail_ok_def)
  have "n = 1 \<and> 0xC2 \<le> bval a \<and> bval a < 0xE0 \<or>
    n = 2 \<and> 0xE0 \<le> bval a \<and> bval a < 0xF0 \<and> (bval a = 0xE0 \<longrightarrow> lo = 0xA0) \<and> (bval a = 0xED \<longrightarrow> hi = 0x9F) \<or>
    n = 3 \<and> 0xF0 \<le> bval a \<and> bval a < 0xF5 \<and> (bval a = 0xF0 \<longrightarrow> lo = 0x90) \<and> (bval a = 0xF4 \<longrightarrow> hi = 0x8F)"
    using assms(1) l by (auto simp: lead_def Let_def split: if_splits)
  then consider "n = 1" "0xC2 \<le> bval a" "bval a < 0xE0"
    | "n = 2" "0xE0 \<le> bval a" "bval a < 0xF0" "bval a = 0xE0 \<longrightarrow> lo = 0xA0" "bval a = 0xED \<longrightarrow> hi = 0x9F"
    | "n = 3" "0xF0 \<le> bval a" "bval a < 0xF5" "bval a = 0xF0 \<longrightarrow> lo = 0x90" "bval a = 0xF4 \<longrightarrow> hi = 0x8F"
    by blast
  then show thesis
  proof cases
    case 1
    then obtain b where "t = [b]" using t by (auto simp: length_Suc_conv)
    with 1 t l show thesis by (intro that(1)) auto
  next
    case 2
    then obtain b c where "t = [b, c]" using t by (auto simp: length_Suc_conv eval_nat_numeral)
    with 2 t l show thesis by (intro that(2)) (auto simp: in_range_def)
  next
    case 3
    then obtain b c d where "t = [b, c, d]" using t by (auto simp: length_Suc_conv eval_nat_numeral)
    with 3 t l show thesis by (intro that(3)) (auto simp: in_range_def)
  qed
qed

lemma encode_decode_rune:
  assumes "\<not> malformed (a # s)"
  shows "encode_rune (fst (decode_rune (a # s))) = take (rune_size (a # s)) (a # s)"
  using assms
proof (cases rule: not_malformed_cases)
  case ascii
  then show ?thesis by (simp add: rune_size_def encode_rune_def rune_valid_def)
next
  case (multi l)
  have eq: "take (rune_size (a # s)) (a # s) = a # take (fst l) s"
    using multi(4) by (simp add: rune_size_def)
  from multi(2,3) show ?thesis
  proof (cases rule: lead_cases)
    case (1 b)
    then show ?thesis
      using encode_decode_2 [of a b] eq multi(4) by (simp add: lead_bits_def tail_value_1)
  next
    case (2 b c)
    then show ?thesis
      using encode_decode_3 [of a b c] eq multi(4) by (simp add: lead_bits_def tail_value_2)
  next
    case (3 b c d)
    then show ?thesis
      using encode_decode_4 [of a b c d] eq multi(4) by (simp add: lead_bits_def tail_value_3)
  qed
qed

lemma multibyte_rune_ge:
  assumes "\<not> bval a < 0x80"
  shows "0x80 \<le> fst (decode_rune (a # s))"
proof (cases "malformed (a # s)")
  case True
  then show ?thesis by (simp add: malformed_def rune_error_def)
next
  case False
  let ?c = "take (rune_size (a # s)) (a # s)" and ?r = "fst (decode_rune (a # s))"
  show ?thesis
  proof (rule ccontr)
    assume less: "\<not> 0x80 \<le> ?r"
    then have "encode_rune ?r = [char_of ?r]" by (simp add: encode_rune_def rune_valid_def)
    with encode_decode_rune [OF False] have one: "?c = [char_of ?r]" by simp
    obtain m where "rune_size (a # s) = Suc m" using gr0_conv_Suc [of "rune_size (a # s)"] by auto
    with one have "a = char_of ?r" by simp
    then have "bval a = ?r mod 256" by (metis bval_char_of)
    with less assms show False by simp
  qed
qed

text \<open>A test that only ASCII runes can pass is a test of the bytes.\<close>

lemma list_all_runes_ascii:
  assumes "\<And>r. P r \<Longrightarrow> r < 0x80"
  shows "list_all P (runes s) \<longleftrightarrow> list_all (\<lambda>c. P (bval c)) s"
proof (induction s rule: chunks.induct)
  case (2 a s)
  have hd: "fst (decode_rune (take (rune_size (a # s)) (a # s))) = fst (decode_rune (a # s))"
    using decode_rune_take [of "a # s"] by simp
  show ?case
  proof (cases "bval a < 0x80")
    case True
    then show ?thesis using 2 by (simp add: runes_def chunks_ascii_Cons ascii_decode)
  next
    case False
    then have "\<not> P (fst (decode_rune (a # s)))" and "\<not> P (bval a)"
      using assms multibyte_rune_ge [OF False, of s] by fastforce+
    then show ?thesis by (simp add: runes_def chunks.simps(2) hd)
  qed
qed (simp add: runes_def)

text \<open>Validity of a concatenation whose first part is valid.\<close>

lemma valid_utf8_append: "valid_utf8 xs \<Longrightarrow> valid_utf8 (xs @ ys) \<longleftrightarrow> valid_utf8 ys"
proof (induction xs rule: chunks.induct)
  case (2 a s)
  let ?n = "rune_size (a # s)"
  from 2 have nm: "\<not> malformed (a # s)" and v: "valid_utf8 (drop ?n (a # s))"
    by (simp_all add: valid_utf8_Cons)
  have app: "take ?n (a # s) @ (drop ?n (a # s) @ ys) = (a # s) @ ys"
    by (metis append.assoc append_take_drop_id)
  have dec: "decode_rune ((a # s) @ ys) = decode_rune (a # s)"
    using decode_rune_prefix [OF nm, of "drop ?n (a # s) @ ys"] unfolding app .
  then have size: "rune_size ((a # s) @ ys) = ?n" by (simp add: rune_size_def)
  have le: "?n \<le> length (a # s)" by (rule rune_size_le)
  have drop: "drop ?n ((a # s) @ ys) = drop ?n (a # s) @ ys"
    using le by (simp only: drop_append) simp
  have "\<not> malformed ((a # s) @ ys)" using nm dec by (simp add: malformed_def)
  then have "valid_utf8 ((a # s) @ ys) \<longleftrightarrow> valid_utf8 (drop ?n (a # s) @ ys)"
    using valid_utf8_Cons [of a "s @ ys"] size drop by simp
  then show ?case using "2.IH" v by simp
qed simp

lemma valid_utf8_concat: "list_all valid_utf8 xs \<Longrightarrow> valid_utf8 (concat xs)"
  by (induction xs) (simp_all add: valid_utf8_append)

lemma valid_utf8_chunks: "valid_utf8 s \<Longrightarrow> c \<in> set (chunks s) \<Longrightarrow> valid_utf8 c \<and> \<not> malformed c"
proof (induction s rule: chunks.induct)
  case (2 a s)
  let ?n = "rune_size (a # s)"
  from 2 have nm: "\<not> malformed (a # s)" and v: "valid_utf8 (drop ?n (a # s))"
    by (simp_all add: valid_utf8_Cons)
  have nmc: "\<not> malformed (take ?n (a # s))" using nm malformed_take [of "a # s"] by simp
  obtain m where m: "?n = Suc m" using gr0_conv_Suc [of ?n] by auto
  have dec: "decode_rune (take ?n (a # s)) = decode_rune (a # s)"
    using decode_rune_take [of "a # s"] by simp
  have "rune_size (take ?n (a # s)) = ?n"
    using dec by (simp add: rune_size_def)
  then have "valid_utf8 (take ?n (a # s))"
    using nmc valid_utf8_Cons [of a "take m s"] m by simp
  with nmc v 2 show ?case by (auto simp: chunks.simps(2))
qed simp

section \<open>Character classes\<close>

text \<open>\<^verbatim>\<open>unicode.IsControl\<close> (category Cc) and \<^verbatim>\<open>unicode.IsSpace\<close> (property White\_Space).\<close>

definition is_control :: "rune \<Rightarrow> bool" where
  "is_control r \<longleftrightarrow> r \<le> 0x1F \<or> 0x7F \<le> r \<and> r \<le> 0x9F"

definition is_space :: "rune \<Rightarrow> bool" where
  "is_space r \<longleftrightarrow> 0x09 \<le> r \<and> r \<le> 0x0D \<or> r = 0x20 \<or> r = 0x85 \<or> r = 0xA0 \<or> r = 0x1680 \<or>
     0x2000 \<le> r \<and> r \<le> 0x200A \<or> r = 0x2028 \<or> r = 0x2029 \<or> r = 0x202F \<or> r = 0x205F \<or> r = 0x3000"

section \<open>Searching, splitting and trimming\<close>

definition has_prefix :: "string \<Rightarrow> string \<Rightarrow> bool" where
  "has_prefix s p \<longleftrightarrow> take (length p) s = p"

definition has_suffix :: "string \<Rightarrow> string \<Rightarrow> bool" where
  "has_suffix s p \<longleftrightarrow> length p \<le> length s \<and> drop (length s - length p) s = p"

fun contains :: "string \<Rightarrow> string \<Rightarrow> bool" where
  "contains [] p \<longleftrightarrow> p = []"
| "contains (a # s) p \<longleftrightarrow> has_prefix (a # s) p \<or> contains s p"

text \<open>\<^verbatim>\<open>strings.Split(s, sep)\<close> for a separator of one byte.\<close>

fun split_on :: "char \<Rightarrow> string \<Rightarrow> string list" where
  "split_on c [] = [[]]"
| "split_on c (a # s) =
    (if a = c then [] # split_on c s
     else (case split_on c s of [] \<Rightarrow> [[a]] | x # xs \<Rightarrow> (a # x) # xs))"

text \<open>\<^verbatim>\<open>strings.IndexByte\<close> and \<^verbatim>\<open>strings.LastIndexByte\<close>, \<open>None\<close> for -1.\<close>

fun index_byte :: "char \<Rightarrow> string \<Rightarrow> nat option" where
  "index_byte c [] = None"
| "index_byte c (a # s) = (if a = c then Some 0 else map_option Suc (index_byte c s))"

fun last_index_byte :: "char \<Rightarrow> string \<Rightarrow> nat option" where
  "last_index_byte c [] = None"
| "last_index_byte c (a # s) =
    (case last_index_byte c s of Some i \<Rightarrow> Some (Suc i) | None \<Rightarrow> if a = c then Some 0 else None)"

text \<open>\<^verbatim>\<open>strings.TrimSpace\<close> and \<^verbatim>\<open>strings.TrimRight(s, " \t")\<close>.\<close>

definition space_chunk :: "string \<Rightarrow> bool" where
  "space_chunk c \<longleftrightarrow> is_space (fst (decode_rune c))"

definition trim_space :: "string \<Rightarrow> string" where
  "trim_space s = concat (rev (dropWhile space_chunk (rev (dropWhile space_chunk (chunks s)))))"

definition trim_right_blank :: "string \<Rightarrow> string" where
  "trim_right_blank s = rev (dropWhile (\<lambda>c. c = CHR '' '' \<or> c = CHR 0x09) (rev s))"

subsection \<open>Facts\<close>

lemma has_prefix_iff: "has_prefix s p \<longleftrightarrow> (\<exists>r. s = p @ r)"
  by (metis append_eq_conv_conj append_take_drop_id has_prefix_def)

lemma contains_iff: "contains s p \<longleftrightarrow> (\<exists>u v. s = u @ p @ v)"
proof (induction s)
  case (Cons a s)
  show ?case
  proof
    assume "contains (a # s) p"
    then consider "has_prefix (a # s) p" | "contains s p" by auto
    then show "\<exists>u v. a # s = u @ p @ v"
    proof cases
      case 1 then show ?thesis by (metis append_Nil has_prefix_iff)
    next
      case 2 then show ?thesis using Cons.IH by (metis append_Cons)
    qed
  next
    assume "\<exists>u v. a # s = u @ p @ v"
    then obtain u v where eq: "a # s = u @ p @ v" by blast
    show "contains (a # s) p"
    proof (cases u)
      case Nil
      with eq have "has_prefix (a # s) p" by (simp add: has_prefix_def)
      then show ?thesis by (simp only: contains.simps simp_thms)
    next
      case (Cons b u')
      with eq have "s = u' @ p @ v" by simp
      then show ?thesis using Cons.IH by auto
    qed
  qed
qed auto

lemma has_suffix_iff: "has_suffix s p \<longleftrightarrow> (\<exists>r. s = r @ p)"
  by (metis append_eq_conv_conj append_take_drop_id has_suffix_def le_add2 length_append add_diff_cancel_right')

lemma split_on_nonempty [simp]: "split_on c s \<noteq> []"
  by (induction s) (auto split: list.splits)

text \<open>Splitting on a byte and joining with it are inverse; no piece contains the separator.\<close>

fun join_with :: "char \<Rightarrow> string list \<Rightarrow> string" where
  "join_with c [] = []"
| "join_with c [x] = x"
| "join_with c (x # y # xs) = x @ c # join_with c (y # xs)"

lemma join_split: "join_with c (split_on c s) = s"
proof (induction s)
  case (Cons a s)
  obtain x xs where x: "split_on c s = x # xs"
    by (cases "split_on c s") simp_all
  with Cons show ?case by (cases xs) auto
qed simp

lemma split_on_no_sep: "p \<in> set (split_on c s) \<Longrightarrow> c \<notin> set p"
  by (induction s arbitrary: p) (auto split: if_splits list.splits)

lemma split_on_absent: "c \<notin> set s \<Longrightarrow> split_on c s = [s]"
  by (induction s) auto

lemma split_on_append: "c \<notin> set x \<Longrightarrow> split_on c (x @ c # s) = x # split_on c s"
  by (induction x) auto

lemma split_join:
  "xs \<noteq> [] \<Longrightarrow> list_all (\<lambda>x. c \<notin> set x) xs \<Longrightarrow> split_on c (join_with c xs) = xs"
  by (induction c xs rule: join_with.induct) (simp_all add: split_on_absent split_on_append)

lemma index_byte_None: "index_byte c s = None \<longleftrightarrow> c \<notin> set s"
  by (induction s) auto

lemma index_byte_Some:
  "index_byte c s = Some i \<Longrightarrow> i < length s \<and> s ! i = c \<and> c \<notin> set (take i s)"
  by (induction s arbitrary: i) (auto split: if_splits)

lemma last_index_byte_None: "last_index_byte c s = None \<longleftrightarrow> c \<notin> set s"
  by (induction s) (auto split: option.splits)

lemma last_index_byte_Some:
  "last_index_byte c s = Some i \<Longrightarrow> i < length s \<and> s ! i = c \<and> c \<notin> set (drop (Suc i) s)"
  by (induction s arbitrary: i) (auto split: option.splits if_splits simp: last_index_byte_None)

lemma last_index_byte_append:
  "c \<notin> set t \<Longrightarrow> last_index_byte c (s @ c # t) = Some (length s)"
proof (induction s)
  case Nil
  then have "last_index_byte c t = None" by (simp add: last_index_byte_None)
  then show ?case by simp
qed simp

end
