(* ===== verification/Go_Encoding.thy ===== *)
theory Go_Encoding
  imports Go_Strings
begin

text \<open>
  The encodings the code uses from Go's standard library: \<^verbatim>\<open>encoding/hex\<close>, unpadded URL-safe
  \<^verbatim>\<open>encoding/base64\<close> (strict and lenient), \<^verbatim>\<open>strconv\<close> decimals and \<^verbatim>\<open>encoding/binary\<close> big-endian
  words with the length prefixes built from them.  Each is an instance of a codec interface.
\<close>

section \<open>Hexadecimal\<close>

definition hex_digit :: "nat \<Rightarrow> char" where
  "hex_digit n = (if n < 10 then char_of (48 + n) else char_of (87 + n))"

definition hex_val :: "char \<Rightarrow> nat option" where
  "hex_val c = (let x = bval c in
     if 48 \<le> x \<and> x \<le> 57 then Some (x - 48)
     else if 97 \<le> x \<and> x \<le> 102 then Some (x - 87)
     else if 65 \<le> x \<and> x \<le> 70 then Some (x - 55)
     else None)"

text \<open>\<^verbatim>\<open>hex.EncodeToString\<close> and \<^verbatim>\<open>hex.DecodeString\<close>.\<close>

fun hex_encode :: "string \<Rightarrow> string" where
  "hex_encode [] = []"
| "hex_encode (c # s) = hex_digit (bval c div 16) # hex_digit (bval c mod 16) # hex_encode s"

fun hex_decode :: "string \<Rightarrow> string option" where
  "hex_decode [] = Some []"
| "hex_decode [c] = None"
| "hex_decode (a # b # s) =
    (case (hex_val a, hex_val b, hex_decode s) of
       (Some x, Some y, Some r) \<Rightarrow> Some (char_of (16 * x + y) # r)
     | _ \<Rightarrow> None)"

definition lower_hex_char :: "char \<Rightarrow> bool" where
  "lower_hex_char c \<longleftrightarrow> CHR ''0'' \<le> c \<and> c \<le> CHR ''9'' \<or> CHR ''a'' \<le> c \<and> c \<le> CHR ''f''"

lemma hex_val_digit [simp]: "n < 16 \<Longrightarrow> hex_val (hex_digit n) = Some n"
  by (simp add: hex_val_def hex_digit_def Let_def)

lemma bval_hex_digit: "n < 16 \<Longrightarrow> bval (hex_digit n) = (if n < 10 then 48 + n else 87 + n)"
  by (simp add: hex_digit_def)

lemma lower_hex_digit: "n < 16 \<Longrightarrow> lower_hex_char (hex_digit n)"
  by (auto simp: lower_hex_char_def less_eq_char_def bval_hex_digit)

lemma hex_digit_val: "lower_hex_char c \<Longrightarrow> hex_val c = Some n \<Longrightarrow> n < 16 \<and> hex_digit n = c"
  by (auto simp: lower_hex_char_def less_eq_char_def hex_val_def hex_digit_def Let_def split: if_splits)

lemma length_hex_encode [simp, lengths]: "length (hex_encode s) = 2 * length s"
  by (induction s) simp_all

lemma hex_encode_chars: "list_all lower_hex_char (hex_encode s)"
  by (induction s) (simp_all add: lower_hex_digit)

lemma hex_decode_encode [simp]: "hex_decode (hex_encode s) = Some s"
proof (induction s)
  case (Cons c s)
  then show ?case by simp
qed simp

lemma hex_encode_decode:
  "hex_decode t = Some s \<Longrightarrow> list_all lower_hex_char t \<Longrightarrow> hex_encode s = t"
proof (induction t arbitrary: s rule: hex_decode.induct)
  case (3 a b t)
  from "3.prems"(1) obtain x y r where
    x: "hex_val a = Some x" and y: "hex_val b = Some y" and r: "hex_decode t = Some r"
    and s: "s = char_of (16 * x + y) # r"
    by (auto split: option.splits)
  have "x < 16 \<and> hex_digit x = a" and "y < 16 \<and> hex_digit y = b"
    using hex_digit_val x y "3.prems"(2) by auto
  moreover have "hex_encode r = t" using 3 x y r by simp
  ultimately show ?case using s by simp
qed simp_all

lemma hex_decode_length: "hex_decode t = Some s \<Longrightarrow> length t = 2 * length s"
  by (induction t arbitrary: s rule: hex_decode.induct) (auto split: option.splits)

lemma hex_decode_total:
  "list_all lower_hex_char t \<Longrightarrow> even (length t) \<Longrightarrow> \<exists>s. hex_decode t = Some s"
proof (induction t rule: hex_decode.induct)
  case (3 a b t)
  have "hex_val c \<noteq> None" if "lower_hex_char c" for c
    using that by (auto simp: lower_hex_char_def less_eq_char_def hex_val_def Let_def)
  then obtain x y where "hex_val a = Some x" and "hex_val b = Some y"
    using "3.prems"(1) by fastforce
  then show ?case using 3 by auto
qed simp_all

interpretation hex: canonical_codec hex_encode
  "\<lambda>t. if list_all lower_hex_char t then hex_decode t else None" "\<lambda>s. True"
  by unfold_locales (auto simp: hex_encode_chars hex_encode_decode split: if_splits)

section \<open>Unpadded URL-safe base64\<close>

definition b64_char :: "nat \<Rightarrow> char" where
  "b64_char n = (if n < 26 then char_of (65 + n) else if n < 52 then char_of (71 + n)
     else if n < 62 then char_of (n - 4) else if n = 62 then CHR ''-'' else CHR ''_'')"

definition b64_val :: "char \<Rightarrow> nat option" where
  "b64_val c = (let x = bval c in
     if 65 \<le> x \<and> x \<le> 90 then Some (x - 65)
     else if 97 \<le> x \<and> x \<le> 122 then Some (x - 71)
     else if 48 \<le> x \<and> x \<le> 57 then Some (x + 4)
     else if x = 45 then Some 62 else if x = 95 then Some 63 else None)"

text \<open>\<^verbatim>\<open>base64.RawURLEncoding.EncodeToString\<close>.\<close>

fun b64_encode :: "string \<Rightarrow> string" where
  "b64_encode [] = []"
| "b64_encode [a] = [b64_char (bval a div 4), b64_char (bval a mod 4 * 16)]"
| "b64_encode [a, b] =
    [b64_char (bval a div 4), b64_char (bval a mod 4 * 16 + bval b div 16), b64_char (bval b mod 16 * 4)]"
| "b64_encode (a # b # c # s) =
    b64_char (bval a div 4) # b64_char (bval a mod 4 * 16 + bval b div 16) #
    b64_char (bval b mod 16 * 4 + bval c div 64) # b64_char (bval c mod 64) # b64_encode s"

text \<open>Decoding of the 6-bit values; \<open>strict\<close> is \<^verbatim>\<open>Strict()\<close>: unused trailing bits must be zero.\<close>

fun b64_sextets :: "bool \<Rightarrow> nat list \<Rightarrow> string option" where
  "b64_sextets strict [] = Some []"
| "b64_sextets strict [p] = None"
| "b64_sextets strict [p, q] =
    (if strict \<and> q mod 16 \<noteq> 0 then None else Some [char_of (p * 4 + q div 16)])"
| "b64_sextets strict [p, q, r] =
    (if strict \<and> r mod 4 \<noteq> 0 then None
     else Some [char_of (p * 4 + q div 16), char_of (q mod 16 * 16 + r div 4)])"
| "b64_sextets strict (p # q # r # t # s) =
    map_option (\<lambda>z. char_of (p * 4 + q div 16) # char_of (q mod 16 * 16 + r div 4) #
      char_of (r mod 4 * 64 + t) # z) (b64_sextets strict s)"

text \<open>\<^verbatim>\<open>DecodeString\<close>: carriage returns and line feeds are skipped, any other byte outside the
  alphabet is an error.\<close>

definition b64_decode :: "bool \<Rightarrow> string \<Rightarrow> string option" where
  "b64_decode strict s =
    (case those (map b64_val (filter (\<lambda>c. c \<noteq> CHR 0x0A \<and> c \<noteq> CHR 0x0D) s)) of
       None \<Rightarrow> None
     | Some vs \<Rightarrow> b64_sextets strict vs)"

definition b64_text_char :: "char \<Rightarrow> bool" where
  "b64_text_char c \<longleftrightarrow> CHR ''A'' \<le> c \<and> c \<le> CHR ''Z'' \<or> CHR ''a'' \<le> c \<and> c \<le> CHR ''z'' \<or>
     CHR ''0'' \<le> c \<and> c \<le> CHR ''9'' \<or> c = CHR ''_'' \<or> c = CHR ''-''"

lemma bval_b64_char:
  "n < 64 \<Longrightarrow> bval (b64_char n) = (if n < 26 then 65 + n else if n < 52 then 71 + n
     else if n < 62 then n - 4 else if n = 62 then 45 else 95)"
  by (simp add: b64_char_def)

lemma b64_val_char [simp]: "n < 64 \<Longrightarrow> b64_val (b64_char n) = Some n"
  by (auto simp: b64_val_def bval_b64_char Let_def)

lemma b64_text_char_iff: "b64_text_char c \<longleftrightarrow> b64_val c \<noteq> None"
proof -
  have "c = CHR ''_'' \<longleftrightarrow> bval c = 95" and "c = CHR ''-'' \<longleftrightarrow> bval c = 45"
    by (auto simp: bval_inj [symmetric])
  then show ?thesis
    by (auto simp: b64_text_char_def b64_val_def less_eq_char_def Let_def)
qed

lemma b64_val_bound: "b64_val c = Some n \<Longrightarrow> n < 64"
  by (auto simp: b64_val_def Let_def split: if_splits)

lemma b64_char_val: "b64_val c = Some n \<Longrightarrow> b64_char n = c"
proof -
  assume v: "b64_val c = Some n"
  then have "bval (b64_char n) = bval c"
    using b64_val_bound [OF v] by (auto simp: bval_b64_char b64_val_def Let_def split: if_splits)
  then show ?thesis by (simp add: bval_inj)
qed

text \<open>The four 6-bit values of three bytes, and back.\<close>

lemma sextet_bounds:
  fixes x y z :: nat
  assumes "x < 256" and "y < 256" and "z < 256"
  shows "x mod 4 * 16 < 64" and "x mod 4 * 16 + y div 16 < 64" and "y mod 16 * 4 < 64"
    and "y mod 16 * 4 + z div 64 < 64"
  using assms by linarith+

lemma split_by:
  fixes a b k :: nat
  assumes "b < k"
  shows "(a * k + b) div k = a" and "(a * k + b) mod k = b"
  using assms by simp_all

lemma sextet_bytes:
  fixes x y z :: nat
  assumes "y < 256" and "z < 256"
  shows "x div 4 * 4 + (x mod 4 * 16 + y div 16) div 16 = x"
    and "(x mod 4 * 16 + y div 16) mod 16 * 16 + (y mod 16 * 4 + z div 64) div 4 = y"
    and "(y mod 16 * 4 + z div 64) mod 4 * 64 + z mod 64 = z"
proof -
  have "y div 16 < 16" and "z div 64 < 4" using assms by linarith+
  then show "x div 4 * 4 + (x mod 4 * 16 + y div 16) div 16 = x"
    and "(x mod 4 * 16 + y div 16) mod 16 * 16 + (y mod 16 * 4 + z div 64) div 4 = y"
    and "(y mod 16 * 4 + z div 64) mod 4 * 64 + z mod 64 = z"
    by (simp_all only: split_by) simp_all
qed

lemma byte_sextets:
  fixes p q r t :: nat
  assumes "p < 64" and "q < 64" and "r < 64" and "t < 64"
  shows "(p * 4 + q div 16) div 4 = p"
    and "(p * 4 + q div 16) mod 4 * 16 + (q mod 16 * 16 + r div 4) div 16 = q"
    and "(q mod 16 * 16 + r div 4) mod 16 * 4 + (r mod 4 * 64 + t) div 64 = r"
    and "(r mod 4 * 64 + t) mod 64 = t"
    and "p * 4 + q div 16 < 256" and "q mod 16 * 16 + r div 4 < 256" and "r mod 4 * 64 + t < 256"
proof -
  have d: "q div 16 < 4" "r div 4 < 16" using assms by linarith+
  from d assms show "(p * 4 + q div 16) div 4 = p"
    and "(p * 4 + q div 16) mod 4 * 16 + (q mod 16 * 16 + r div 4) div 16 = q"
    and "(q mod 16 * 16 + r div 4) mod 16 * 4 + (r mod 4 * 64 + t) div 64 = r"
    and "(r mod 4 * 64 + t) mod 64 = t"
    by (simp_all only: split_by) simp_all
  from d assms show "p * 4 + q div 16 < 256" and "q mod 16 * 16 + r div 4 < 256"
    and "r mod 4 * 64 + t < 256"
    by linarith+
qed

lemma sextets_encode:
  "\<exists>vs. b64_encode s = map b64_char vs \<and> list_all (\<lambda>n. n < 64) vs \<and> b64_sextets strict vs = Some s"
proof (induction s rule: b64_encode.induct)
  case 1
  show ?case by simp
next
  case (2 a)
  show ?case
    using sextet_bounds(1) [of "bval a" 0 0] sextet_bytes(1) [of 0 0 "bval a"]
    by (intro exI [of _ "[bval a div 4, bval a mod 4 * 16]"]) simp
next
  case (3 a b)
  show ?case
    using sextet_bounds(2,3) [of "bval a" "bval b" 0] sextet_bytes(1,2) [of "bval b" 0 "bval a"]
    by (intro exI [of _ "[bval a div 4, bval a mod 4 * 16 + bval b div 16, bval b mod 16 * 4]"]) simp
next
  case (4 a b c s)
  then obtain vs where vs: "b64_encode s = map b64_char vs" "list_all (\<lambda>n. n < 64) vs"
      "b64_sextets strict vs = Some s" by blast
  show ?case
    using vs sextet_bounds(2,4) [of "bval a" "bval b" "bval c"]
      sextet_bytes(1,2) [of "bval b" "bval c" "bval a"] sextet_bytes(3) [of "bval b" "bval c"]
    by (intro exI [of _ "bval a div 4 # (bval a mod 4 * 16 + bval b div 16) #
          (bval b mod 16 * 4 + bval c div 64) # (bval c mod 64) # vs"]) simp
qed

lemma those_b64_val: "list_all (\<lambda>n. n < 64) vs \<Longrightarrow> those (map b64_val (map b64_char vs)) = Some vs"
  by (induction vs) simp_all

lemma b64_val_newline [simp]: "b64_val (CHR 0x0A) = None" "b64_val (CHR 0x0D) = None"
  by (simp_all add: b64_val_def Let_def)

lemma filter_b64_text:
  "list_all (\<lambda>c. b64_val c \<noteq> None) s \<Longrightarrow> filter (\<lambda>c. c \<noteq> CHR 0x0A \<and> c \<noteq> CHR 0x0D) s = s"
  by (induction s) auto

lemma b64_encode_text: "list_all b64_text_char (b64_encode s)"
proof -
  obtain vs where "b64_encode s = map b64_char vs" and "list_all (\<lambda>n. n < 64) vs"
    using sextets_encode [of s True] by blast
  then show ?thesis by (auto simp: list_all_iff b64_text_char_iff)
qed

text \<open>Decoding an encoded string gives it back, strictly or not.\<close>

lemma b64_decode_encode [simp]: "b64_decode strict (b64_encode s) = Some s"
proof -
  obtain vs where vs: "b64_encode s = map b64_char vs" "list_all (\<lambda>n. n < 64) vs"
      "b64_sextets strict vs = Some s"
    using sextets_encode [of s strict] by blast
  then have "filter (\<lambda>c. c \<noteq> CHR 0x0A \<and> c \<noteq> CHR 0x0D) (b64_encode s) = map b64_char vs"
    using filter_b64_text [of "b64_encode s"] by (auto simp: list_all_iff)
  then show ?thesis
    unfolding b64_decode_def using those_b64_val [OF vs(2)] vs(3) by simp
qed

lemma encode_group:
  assumes "p < 64" and "q < 64" and "r < 64" and "t < 64"
  shows "b64_encode (char_of (p * 4 + q div 16) # char_of (q mod 16 * 16 + r div 4) #
      char_of (r mod 4 * 64 + t) # z) = b64_char p # b64_char q # b64_char r # b64_char t # b64_encode z"
proof -
  note fs = byte_sextets [OF assms]
  have "bval (char_of (p * 4 + q div 16)) = p * 4 + q div 16"
    and "bval (char_of (q mod 16 * 16 + r div 4)) = q mod 16 * 16 + r div 4"
    and "bval (char_of (r mod 4 * 64 + t)) = r mod 4 * 64 + t"
    using fs(5-7) by simp_all
  then show ?thesis by (simp only: b64_encode.simps fs(1-4))
qed

text \<open>The strict decoder accepts exactly the encodings among the texts of the alphabet.\<close>

lemma sextets_strict:
  "b64_sextets True vs = Some s \<Longrightarrow> list_all (\<lambda>n. n < 64) vs \<Longrightarrow> b64_encode s = map b64_char vs"
proof (induction "True" vs arbitrary: s rule: b64_sextets.induct)
  case (3 p q)
  then have "q mod 16 = 0" and "s = [char_of (p * 4 + q div 16)]" by (auto split: if_splits)
  then show ?case
    using byte_sextets(1,5) [of p q 0 0] byte_sextets(2) [of p q 0 0] 3 by simp
next
  case (4 p q r)
  then have "r mod 4 = 0" and "s = [char_of (p * 4 + q div 16), char_of (q mod 16 * 16 + r div 4)]"
    by (auto split: if_splits)
  moreover have "bval (char_of (p * 4 + q div 16)) = p * 4 + q div 16"
    and "bval (char_of (q mod 16 * 16 + r div 4)) = q mod 16 * 16 + r div 4"
    using byte_sextets(5,6) [of p q r 0] 4 by simp_all
  moreover have "(q mod 16 * 16 + r div 4) mod 16 * 4 = r"
    using byte_sextets(3) [of p q r 0] 4 \<open>r mod 4 = 0\<close> by simp
  moreover have "(p * 4 + q div 16) div 4 = p"
    and "(p * 4 + q div 16) mod 4 * 16 + (q mod 16 * 16 + r div 4) div 16 = q"
    using 4 by (intro byte_sextets(1) [of p q r 0] byte_sextets(2) [of p q r 0]; simp)+
  ultimately show ?case by (simp only: b64_encode.simps list.map)
next
  case (5 p q r t vs)
  then obtain z where z: "b64_sextets True vs = Some z"
    and s: "s = char_of (p * 4 + q div 16) # char_of (q mod 16 * 16 + r div 4) # char_of (r mod 4 * 64 + t) # z"
    by auto
  have "b64_encode z = map b64_char vs" using 5 z by simp
  moreover have "p < 64" "q < 64" "r < 64" "t < 64" using "5.prems"(2) by simp_all
  ultimately show ?case unfolding s by (simp only: encode_group list.map)
qed simp_all

lemma those_map_Some: "those (map f xs) = Some ys \<Longrightarrow> list_all2 (\<lambda>x y. f x = Some y) xs ys"
  by (induction xs arbitrary: ys) (auto split: option.splits)

lemma b64_strict_canonical:
  assumes "b64_decode True t = Some s" and "list_all b64_text_char t"
  shows "b64_encode s = t"
proof -
  have flt: "filter (\<lambda>c. c \<noteq> CHR 0x0A \<and> c \<noteq> CHR 0x0D) t = t"
    using assms(2) by (intro filter_b64_text) (simp add: b64_text_char_iff list_all_iff)
  with assms(1) obtain vs where vs: "those (map b64_val t) = Some vs" "b64_sextets True vs = Some s"
    by (auto simp: b64_decode_def split: option.splits)
  from those_map_Some [OF vs(1)] have rel: "list_all2 (\<lambda>c n. b64_val c = Some n) t vs" .
  then have "map b64_char vs = t" and "list_all (\<lambda>n. n < 64) vs"
    by (induction rule: list_all2_induct) (auto simp: b64_char_val b64_val_bound)
  then show ?thesis using sextets_strict [OF vs(2)] by simp
qed

lemma length_b64_encode [lengths]: "length (b64_encode s) = (4 * length s + 2) div 3"
  by (induction s rule: b64_encode.induct) simp_all

interpretation b64: canonical_codec b64_encode
  "\<lambda>t. if list_all b64_text_char t then b64_decode True t else None" "\<lambda>s. True"
  by unfold_locales (auto simp: b64_encode_text b64_strict_canonical split: if_splits)

section \<open>Decimals\<close>

text \<open>\<^verbatim>\<open>strconv.FormatUint(n, 10)\<close> and \<^verbatim>\<open>strconv.FormatInt(i, 10)\<close>.\<close>

fun format_uint :: "nat \<Rightarrow> string" where
  "format_uint n = (if n < 10 then [char_of (48 + n)] else format_uint (n div 10) @ [char_of (48 + n mod 10)])"

declare format_uint.simps [simp del]

definition format_int :: "int \<Rightarrow> string" where
  "format_int i = (if i < 0 then CHR ''-'' # format_uint (nat (- i)) else format_uint (nat i))"

definition is_digit :: "char \<Rightarrow> bool" where
  "is_digit c \<longleftrightarrow> CHR ''0'' \<le> c \<and> c \<le> CHR ''9''"

definition digits_value :: "string \<Rightarrow> nat" where
  "digits_value s = foldl (\<lambda>v c. v * 10 + (bval c - 48)) 0 s"

text \<open>\<^verbatim>\<open>strconv.ParseUint(s, 10, bits)\<close> and \<^verbatim>\<open>strconv.ParseInt(s, 10, 64)\<close>: \<open>None\<close> for a syntax or
  range error.\<close>

definition parse_uint :: "nat \<Rightarrow> string \<Rightarrow> nat option" where
  "parse_uint bits s =
    (if s \<noteq> [] \<and> list_all is_digit s \<and> digits_value s < 2 ^ bits then Some (digits_value s) else None)"

definition parse_int64 :: "string \<Rightarrow> int option" where
  "parse_int64 s =
    (let neg = has_prefix s ''-''; body = (if has_prefix s ''-'' \<or> has_prefix s ''+'' then tl s else s) in
     case parse_uint 64 body of
       None \<Rightarrow> None
     | Some n \<Rightarrow> if neg then (if n \<le> 2 ^ 63 then Some (- int n) else None)
         else if n < 2 ^ 63 then Some (int n) else None)"

lemma is_digit_iff: "is_digit c \<longleftrightarrow> 48 \<le> bval c \<and> bval c \<le> 57"
  by (simp add: is_digit_def less_eq_char_def)

lemma format_uint_digits: "list_all is_digit (format_uint n)"
proof (induction n rule: format_uint.induct)
  case (1 n)
  show ?case
    by (subst format_uint.simps) (use 1 in \<open>auto simp: is_digit_iff list_all_iff\<close>)
qed

lemma format_uint_nonempty [simp]: "format_uint n \<noteq> []"
  by (subst format_uint.simps) simp

lemma digits_value_snoc: "digits_value (s @ [c]) = digits_value s * 10 + (bval c - 48)"
  by (simp add: digits_value_def)

lemma digits_value_format [simp]: "digits_value (format_uint n) = n"
proof (induction n rule: format_uint.induct)
  case (1 n)
  show ?case
  proof (cases "n < 10")
    case True
    then show ?thesis by (subst format_uint.simps) (simp add: digits_value_def)
  next
    case False
    with 1 show ?thesis by (subst format_uint.simps) (simp add: digits_value_snoc)
  qed
qed

lemma parse_format_uint: "n < 2 ^ bits \<Longrightarrow> parse_uint bits (format_uint n) = Some n"
  by (simp add: parse_uint_def format_uint_digits)

lemma format_uint_no_sign: "\<not> has_prefix (format_uint n) ''-'' \<and> \<not> has_prefix (format_uint n) ''+''"
  using format_uint_digits [of n]
  by (cases "format_uint n") (auto simp: has_prefix_def is_digit_iff)

lemma parse_format_int: "0 \<le> i \<Longrightarrow> i < 2 ^ 63 \<Longrightarrow> parse_int64 (format_int i) = Some i"
  using format_uint_no_sign [of "nat i"] parse_format_uint [of "nat i" 64]
  by (simp add: parse_int64_def format_int_def Let_def nat_less_iff)

text \<open>No leading zero: the canonical decimals are exactly what \<open>format_uint\<close> writes.\<close>

lemma format_digits_value:
  "s \<noteq> [] \<Longrightarrow> list_all is_digit s \<Longrightarrow> (hd s \<noteq> CHR ''0'' \<or> length s = 1) \<Longrightarrow> format_uint (digits_value s) = s"
proof (induction s rule: rev_induct)
  case (snoc c s)
  have c: "48 \<le> bval c" "bval c \<le> 57" using snoc.prems by (auto simp: is_digit_iff)
  show ?case
  proof (cases "s = []")
    case True
    with c show ?thesis by (subst format_uint.simps) (simp add: digits_value_def)
  next
    case False
    with snoc.prems have s: "list_all is_digit s" "hd s \<noteq> CHR ''0''" by auto
    have IH: "format_uint (digits_value s) = s" using snoc.IH False s by simp
    have pos: "0 < digits_value s"
    proof (rule ccontr)
      assume "\<not> 0 < digits_value s"
      with IH have "s = format_uint 0" by simp
      moreover have "char_of (48 :: nat) = CHR ''0''" by (simp flip: bval_inj)
      ultimately have "hd s = CHR ''0''" by (simp add: format_uint.simps)
      with s(2) show False by simp
    qed
    have "bval c - 48 < 10" using c by simp
    then have "(digits_value s * 10 + (bval c - 48)) div 10 = digits_value s"
      and "(digits_value s * 10 + (bval c - 48)) mod 10 = bval c - 48"
      by (rule split_by)+
    moreover have "\<not> digits_value s * 10 + (bval c - 48) < 10" using pos by simp
    ultimately have "format_uint (digits_value s * 10 + (bval c - 48)) = s @ [char_of (48 + (bval c - 48))]"
      using IH by (subst format_uint.simps) (simp only: if_False)
    then show ?thesis using c by (simp add: digits_value_snoc)
  qed
qed simp

lemma format_uint_zero_head: "format_uint n = CHR ''0'' # t \<Longrightarrow> t = []"
proof (induction n arbitrary: t rule: format_uint.induct)
  case (1 n)
  show ?case
  proof (cases "n < 10")
    case True
    with "1.prems" show ?thesis by (simp add: format_uint.simps [of n])
  next
    case False
    then have eq: "format_uint (n div 10) @ [char_of (48 + n mod 10)] = CHR ''0'' # t"
      using "1.prems" by (simp add: format_uint.simps [of n])
    then obtain u where u: "format_uint (n div 10) = CHR ''0'' # u"
      by (cases "format_uint (n div 10)") auto
    with "1.IH" False have "u = []" by blast
    with u have "digits_value (format_uint (n div 10)) = 0" by (simp add: digits_value_def)
    then show ?thesis using False by simp
  qed
qed

lemma format_uint_length: "0 < k \<Longrightarrow> n < 10 ^ k \<Longrightarrow> length (format_uint n) \<le> k"
proof (induction k arbitrary: n)
  case (Suc k)
  show ?case
  proof (cases "n < 10")
    case True
    then show ?thesis by (simp add: format_uint.simps [of n])
  next
    case False
    with Suc.prems have "0 < k" by (cases k) auto
    moreover have "n div 10 < 10 ^ k" using Suc.prems by (simp add: less_mult_imp_div_less)
    ultimately have "length (format_uint (n div 10)) \<le> k" by (rule Suc.IH)
    then show ?thesis using False by (simp add: format_uint.simps [of n])
  qed
qed simp

section \<open>Big-endian words and length prefixes\<close>

text \<open>\<^verbatim>\<open>binary.BigEndian.PutUint32\<close>.\<close>

definition be32 :: "u32 \<Rightarrow> string" where
  "be32 w = (let n = unat w in
     [char_of (n div 2 ^ 24), char_of (n div 2 ^ 16), char_of (n div 2 ^ 8), char_of n])"

definition read_be32 :: "string \<Rightarrow> (u32 \<times> string) option" where
  "read_be32 s = (case s of
     a # b # c # d # r \<Rightarrow>
       Some (word_of_nat (((bval a * 256 + bval b) * 256 + bval c) * 256 + bval d), r)
   | _ \<Rightarrow> None)"

text \<open>Four length bytes and the bytes themselves; the conversion \<^verbatim>\<open>uint32(len(value))\<close> wraps.\<close>

definition length_prefixed :: "string \<Rightarrow> string" where
  "length_prefixed s = be32 (word_of_nat (length s)) @ s"

definition read_length_prefixed :: "string \<Rightarrow> (string \<times> string) option" where
  "read_length_prefixed s = (case read_be32 s of
     None \<Rightarrow> None
   | Some (w, r) \<Rightarrow> if unat w \<le> length r then Some (take (unat w) r, drop (unat w) r) else None)"

lemma length_be32 [simp, lengths]: "length (be32 w) = 4"
  by (simp add: be32_def Let_def)

lemma bytes_of_nat32: "n < 2 ^ 32 \<Longrightarrow>
  ((n div 2 ^ 24 mod 256 * 256 + n div 2 ^ 16 mod 256) * 256 + n div 2 ^ 8 mod 256) * 256 + n mod 256 = (n::nat)"
proof -
  assume "n < 2 ^ 32"
  then have "n div 2 ^ 24 < 256" by (simp add: less_mult_imp_div_less)
  moreover have "n div 2 ^ 8 = n div 256" "n div 2 ^ 16 = n div 256 div 256"
    "n div 2 ^ 24 = n div 256 div 256 div 256"
    by (simp_all add: div_mult2_eq [symmetric])
  ultimately show ?thesis by simp
qed

lemma read_be32_be32 [simp]: "read_be32 (be32 w @ r) = Some (w, r)"
proof -
  have "unat w < 2 ^ 32" using unsigned_less [of w] by simp
  note bytes = bytes_of_nat32 [OF this]
  have "read_be32 (be32 w @ r) = Some (word_of_nat (unat w), r)"
    by (simp only: be32_def read_be32_def Let_def append_Cons append_Nil list.case bval_char_of bytes)
  then show ?thesis by simp
qed

interpretation be32: prefix_codec be32 read_be32 "\<lambda>w. True"
  by unfold_locales simp

lemma unat_word_of_length: "length s < 2 ^ 32 \<Longrightarrow> unat (word_of_nat (length s) :: u32) = length s"
  by (simp add: unsigned_of_nat take_bit_nat_eq_self)

interpretation lp: prefix_codec length_prefixed read_length_prefixed "\<lambda>s. length s < 2 ^ 32"
  by unfold_locales
    (simp add: length_prefixed_def read_length_prefixed_def unat_word_of_length)

lemma length_length_prefixed [simp, lengths]: "length (length_prefixed s) = 4 + length s"
  by (simp add: length_prefixed_def)

end
