(* ===== verification/Storage_Values.thy ===== *)
theory Storage_Values
  imports Go_Encoding
begin

text \<open>
  The validated value types of \<^verbatim>\<open>internal/storage\<close>: account identifiers, provider subjects and
  history identifiers (\<^verbatim>\<open>account.go\<close>), the account lifecycle with its transition rules
  (\<^verbatim>\<open>lifecycle.go\<close>) and credential envelopes (\<^verbatim>\<open>credential.go\<close>).  A struct with one private
  string field whose values are fixed constants is a datatype with one constructor per
  constant and one (\<open>...Zero\<close>) for the zero value that other packages can write.
\<close>

section \<open>Accounts and cursors\<close>

abbreviation invalid_value :: go_error where
  "invalid_value \<equiv> StorageErr ErrInvalidValue"

definition ProviderGmail :: string where
  "ProviderGmail = ''gmail''"

datatype account_id = AccountID (account_id_string: string)

definition hex_rune :: "rune \<Rightarrow> bool" where
  "hex_rune r \<longleftrightarrow> (48 \<le> r \<and> r \<le> 57) \<or> (97 \<le> r \<and> r \<le> 102)"

definition ParseAccountID :: "string \<Rightarrow> account_id res" where
  "ParseAccountID value =
    (if length value \<noteq> 32 \<or> \<not> list_all hex_rune (runes value) then Inl invalid_value
     else Inr (AccountID value))"

definition account_id_valid :: "account_id \<Rightarrow> bool" where
  "account_id_valid i = is_ok (ParseAccountID (account_id_string i))"

datatype provider_subject = ProviderSubject (provider_subject_string: string)

definition visible_rune :: "rune \<Rightarrow> bool" where
  "visible_rune r \<longleftrightarrow> 0x21 \<le> r \<and> r \<le> 0x7e"

definition ParseProviderSubject :: "string \<Rightarrow> provider_subject res" where
  "ParseProviderSubject value =
    (if length value = 0 \<or> length value > 255 \<or> \<not> list_all visible_rune (runes value) then Inl invalid_value
     else Inr (ProviderSubject value))"

definition provider_subject_valid :: "provider_subject \<Rightarrow> bool" where
  "provider_subject_valid s = is_ok (ParseProviderSubject (provider_subject_string s))"

record history_id =
  hid_text :: string
  hid_value :: u64

definition digit_rune :: "rune \<Rightarrow> bool" where
  "digit_rune r \<longleftrightarrow> 48 \<le> r \<and> r \<le> 57"

definition ParseHistoryID :: "string \<Rightarrow> history_id res" where
  "ParseHistoryID text =
    (if length text = 0 \<or> length text > 20 \<or> hd text = CHR ''0'' \<or> \<not> list_all digit_rune (runes text)
     then Inl invalid_value
     else case parse_uint 64 text of
       None \<Rightarrow> Inl invalid_value
     | Some n \<Rightarrow>
         let value = word_of_nat n :: u64 in
         if value = 0 \<or> format_uint (unat value) \<noteq> text then Inl invalid_value
         else Inr \<lparr>hid_text = text, hid_value = value\<rparr>)"

definition history_id_valid :: "history_id \<Rightarrow> bool" where
  "history_id_valid h = (case ParseHistoryID (hid_text h) of
     Inl _ \<Rightarrow> False | Inr p \<Rightarrow> hid_value p = hid_value h)"

definition history_id_compare :: "history_id \<Rightarrow> history_id \<Rightarrow> int" where
  "history_id_compare a b =
    (if hid_value a < hid_value b then -1 else if hid_value a > hid_value b then 1 else 0)"

record account_seed =
  seed_id :: account_id
  seed_subject :: provider_subject

record account =
  acct_id :: account_id
  acct_subject :: provider_subject

record synchronization_cursor =
  sc_account :: account_id
  sc_history :: history_id

record synchronization_commit =
  sync_account :: account_id
  sync_expected :: "history_id option"
  sync_next :: history_id

definition ValidateAccountSeed :: "account_seed \<Rightarrow> go_error option" where
  "ValidateAccountSeed seed =
    (if \<not> account_id_valid (seed_id seed) \<or> \<not> provider_subject_valid (seed_subject seed)
     then Some invalid_value else None)"

definition ValidateSynchronizationCommit :: "synchronization_commit \<Rightarrow> go_error option" where
  "ValidateSynchronizationCommit c =
    (if \<not> account_id_valid (sync_account c) \<or> \<not> history_id_valid (sync_next c) \<or> sync_expected c \<noteq> None
     then Some invalid_value else None)"

section \<open>Account lifecycle\<close>

definition MaximumAccountList :: nat where
  "MaximumAccountList = 100"

definition MaxInt64 :: int where
  "MaxInt64 = 2 ^ 63 - 1"

text \<open>Addition of \<^verbatim>\<open>int64\<close> values wraps around.\<close>

definition int64_add :: "int \<Rightarrow> int \<Rightarrow> int" where
  "int64_add a b = (a + b + 2 ^ 63) mod 2 ^ 64 - 2 ^ 63"

datatype account_state =
    AccountStateZero
  | AccountStatePending
  | AccountStateActive
  | AccountStatePaused
  | AccountStateReauthorizationRequired
  | AccountStateRevoked

fun account_state_string :: "account_state \<Rightarrow> string" where
  "account_state_string AccountStateZero = ''''"
| "account_state_string AccountStatePending = ''pending''"
| "account_state_string AccountStateActive = ''active''"
| "account_state_string AccountStatePaused = ''paused''"
| "account_state_string AccountStateReauthorizationRequired = ''reauthorization_required''"
| "account_state_string AccountStateRevoked = ''revoked''"

definition ParseAccountState :: "string \<Rightarrow> account_state res" where
  "ParseAccountState value =
    (if value = account_state_string AccountStatePending then Inr AccountStatePending
     else if value = account_state_string AccountStateActive then Inr AccountStateActive
     else if value = account_state_string AccountStatePaused then Inr AccountStatePaused
     else if value = account_state_string AccountStateReauthorizationRequired
       then Inr AccountStateReauthorizationRequired
     else if value = account_state_string AccountStateRevoked then Inr AccountStateRevoked
     else Inl invalid_value)"

definition account_state_valid :: "account_state \<Rightarrow> bool" where
  "account_state_valid s \<longleftrightarrow> ParseAccountState (account_state_string s) = Inr s"

type_synonym lifecycle_version = int

definition ParseLifecycleVersion :: "int \<Rightarrow> lifecycle_version res" where
  "ParseLifecycleVersion value = (if value < 1 then Inl invalid_value else Inr value)"

definition lifecycle_version_valid :: "lifecycle_version \<Rightarrow> bool" where
  "lifecycle_version_valid v \<longleftrightarrow> v \<ge> 1"

datatype reauthorization_reason =
    ReauthorizationReasonZero
  | ReauthorizationReasonRefreshInvalidGrant
  | ReauthorizationReasonRefreshAdminPolicyEnforced
  | ReauthorizationReasonGmailUnauthorizedAfterRefresh
  | ReauthorizationReasonGmailDomainPolicy

fun reauthorization_reason_string :: "reauthorization_reason \<Rightarrow> string" where
  "reauthorization_reason_string ReauthorizationReasonZero = ''''"
| "reauthorization_reason_string ReauthorizationReasonRefreshInvalidGrant = ''refresh_invalid_grant''"
| "reauthorization_reason_string ReauthorizationReasonRefreshAdminPolicyEnforced =
    ''refresh_admin_policy_enforced''"
| "reauthorization_reason_string ReauthorizationReasonGmailUnauthorizedAfterRefresh =
    ''gmail_unauthorized_after_refresh''"
| "reauthorization_reason_string ReauthorizationReasonGmailDomainPolicy = ''gmail_domain_policy''"

definition ParseReauthorizationReason :: "string \<Rightarrow> reauthorization_reason res" where
  "ParseReauthorizationReason value =
    (if value = reauthorization_reason_string ReauthorizationReasonRefreshInvalidGrant
       then Inr ReauthorizationReasonRefreshInvalidGrant
     else if value = reauthorization_reason_string ReauthorizationReasonRefreshAdminPolicyEnforced
       then Inr ReauthorizationReasonRefreshAdminPolicyEnforced
     else if value = reauthorization_reason_string ReauthorizationReasonGmailUnauthorizedAfterRefresh
       then Inr ReauthorizationReasonGmailUnauthorizedAfterRefresh
     else if value = reauthorization_reason_string ReauthorizationReasonGmailDomainPolicy
       then Inr ReauthorizationReasonGmailDomainPolicy
     else Inl invalid_value)"

definition reauthorization_reason_valid :: "reauthorization_reason \<Rightarrow> bool" where
  "reauthorization_reason_valid r \<longleftrightarrow> ParseReauthorizationReason (reauthorization_reason_string r) = Inr r"

datatype revocation_status =
    RevocationStatusZero
  | RevocationStatusNone
  | RevocationStatusPending
  | RevocationStatusAttempting
  | RevocationStatusConfirmed
  | RevocationStatusManualActionRequired

fun revocation_status_string :: "revocation_status \<Rightarrow> string" where
  "revocation_status_string RevocationStatusZero = ''''"
| "revocation_status_string RevocationStatusNone = ''none''"
| "revocation_status_string RevocationStatusPending = ''pending''"
| "revocation_status_string RevocationStatusAttempting = ''attempting''"
| "revocation_status_string RevocationStatusConfirmed = ''confirmed''"
| "revocation_status_string RevocationStatusManualActionRequired = ''manual_action_required''"

definition ParseRevocationStatus :: "string \<Rightarrow> revocation_status res" where
  "ParseRevocationStatus value =
    (if value = revocation_status_string RevocationStatusNone then Inr RevocationStatusNone
     else if value = revocation_status_string RevocationStatusPending then Inr RevocationStatusPending
     else if value = revocation_status_string RevocationStatusAttempting then Inr RevocationStatusAttempting
     else if value = revocation_status_string RevocationStatusConfirmed then Inr RevocationStatusConfirmed
     else if value = revocation_status_string RevocationStatusManualActionRequired
       then Inr RevocationStatusManualActionRequired
     else Inl invalid_value)"

definition revocation_status_valid :: "revocation_status \<Rightarrow> bool" where
  "revocation_status_valid s \<longleftrightarrow> ParseRevocationStatus (revocation_status_string s) = Inr s"

record account_lifecycle =
  lc_account :: account_id
  lc_state :: account_state
  lc_version :: lifecycle_version
  lc_reason :: "reauthorization_reason option"
  lc_revocation :: revocation_status

record account_summary =
  sum_account :: account_id
  sum_provider :: string
  sum_state :: account_state
  sum_version :: lifecycle_version
  sum_reason :: "reauthorization_reason option"
  sum_revocation :: revocation_status
  sum_cursor_present :: bool
  sum_credential_present :: bool

record lifecycle_commit =
  cm_account :: account_id
  cm_expected_state :: account_state
  cm_expected_version :: lifecycle_version
  cm_expected_revocation :: revocation_status
  cm_next_state :: account_state
  cm_reason :: "reauthorization_reason option"
  cm_revocation :: revocation_status

definition revoked_status :: "revocation_status \<Rightarrow> bool" where
  "revoked_status r \<longleftrightarrow> r = RevocationStatusPending \<or> r = RevocationStatusAttempting \<or>
     r = RevocationStatusConfirmed \<or> r = RevocationStatusManualActionRequired"

definition validExpectedLifecycleShape :: "account_state \<Rightarrow> revocation_status \<Rightarrow> bool" where
  "validExpectedLifecycleShape st r =
    (if st = AccountStateRevoked then revoked_status r else r = RevocationStatusNone)"

definition validLifecycleShape ::
  "account_state \<Rightarrow> reauthorization_reason option \<Rightarrow> revocation_status \<Rightarrow> bool" where
  "validLifecycleShape st reason r =
    (if st = AccountStateReauthorizationRequired
     then (case reason of None \<Rightarrow> False | Some x \<Rightarrow> reauthorization_reason_valid x) \<and> r = RevocationStatusNone
     else if reason \<noteq> None then False
     else if st = AccountStateRevoked then revoked_status r
     else r = RevocationStatusNone)"

definition validLifecycleTransition ::
  "account_state \<Rightarrow> revocation_status \<Rightarrow> account_state \<Rightarrow> revocation_status \<Rightarrow> bool" where
  "validLifecycleTransition cur curRev nxt r = (case cur of
     AccountStatePending \<Rightarrow> curRev = RevocationStatusNone \<and>
       (nxt = AccountStateActive \<or> nxt = AccountStateRevoked \<and> r = RevocationStatusPending)
   | AccountStateActive \<Rightarrow> curRev = RevocationStatusNone \<and>
       (nxt = AccountStatePaused \<or> nxt = AccountStateReauthorizationRequired \<or>
        nxt = AccountStateRevoked \<and> r = RevocationStatusPending)
   | AccountStatePaused \<Rightarrow> curRev = RevocationStatusNone \<and>
       (nxt = AccountStateActive \<or> nxt = AccountStateRevoked \<and> r = RevocationStatusPending)
   | AccountStateReauthorizationRequired \<Rightarrow> curRev = RevocationStatusNone \<and>
       nxt = AccountStateRevoked \<and> r = RevocationStatusPending
   | AccountStateRevoked \<Rightarrow> nxt = AccountStateRevoked \<and>
       (curRev = RevocationStatusPending \<and> r = RevocationStatusAttempting \<or>
        curRev = RevocationStatusAttempting \<and>
          (r = RevocationStatusConfirmed \<or> r = RevocationStatusManualActionRequired))
   | _ \<Rightarrow> False)"

definition ValidateLifecycleCommit :: "lifecycle_commit \<Rightarrow> go_error option" where
  "ValidateLifecycleCommit c =
    (if \<not> account_id_valid (cm_account c) \<or> \<not> account_state_valid (cm_expected_state c) \<or>
        \<not> lifecycle_version_valid (cm_expected_version c) \<or>
        \<not> revocation_status_valid (cm_expected_revocation c) \<or>
        \<not> account_state_valid (cm_next_state c) \<or> \<not> revocation_status_valid (cm_revocation c) \<or>
        (case cm_reason c of None \<Rightarrow> False | Some x \<Rightarrow> \<not> reauthorization_reason_valid x)
     then Some invalid_value
     else if cm_expected_version c = MaxInt64 then Some (StorageErr ErrLifecycleOverflow)
     else if \<not> validExpectedLifecycleShape (cm_expected_state c) (cm_expected_revocation c) \<or>
        \<not> validLifecycleShape (cm_next_state c) (cm_reason c) (cm_revocation c) \<or>
        \<not> validLifecycleTransition (cm_expected_state c) (cm_expected_revocation c) (cm_next_state c) (cm_revocation c)
     then Some (StorageErr ErrLifecycleConflict)
     else None)"

definition LifecycleMatchesCommit :: "account_lifecycle \<Rightarrow> lifecycle_commit \<Rightarrow> bool" where
  "LifecycleMatchesCommit cur c =
    (if lc_account cur \<noteq> cm_account c \<or> lc_state cur \<noteq> cm_next_state c \<or> lc_revocation cur \<noteq> cm_revocation c
     then False
     else case (lc_reason cur, cm_reason c) of
       (Some a, Some b) \<Rightarrow> a = b
     | (a, b) \<Rightarrow> a = None \<and> b = None)"

definition LifecycleCommitIsRevocationClaim :: "lifecycle_commit \<Rightarrow> bool" where
  "LifecycleCommitIsRevocationClaim c \<longleftrightarrow>
     cm_expected_state c = AccountStateRevoked \<and> cm_expected_revocation c = RevocationStatusPending \<and>
     cm_next_state c = AccountStateRevoked \<and> cm_revocation c = RevocationStatusAttempting"

section \<open>Credentials\<close>

definition MaximumCredentialPlaintextBytes :: nat where
  "MaximumCredentialPlaintextBytes = 4096"

definition MinimumCredentialEnvelopeBytes :: nat where
  "MinimumCredentialEnvelopeBytes = 55"

definition MaximumCredentialEnvelopeBytes :: nat where
  "MaximumCredentialEnvelopeBytes = 5556"

definition credentialMagic :: string where
  "credentialMagic = ''IGC'' @ [CHR 0x00]"

datatype credential_key_id = CredentialKeyID (credential_key_id_string: string)

definition key_id_head :: "char \<Rightarrow> bool" where
  "key_id_head c \<longleftrightarrow> CHR ''a'' \<le> c \<and> c \<le> CHR ''z''"

definition key_id_char :: "char \<Rightarrow> bool" where
  "key_id_char c \<longleftrightarrow> CHR ''a'' \<le> c \<and> c \<le> CHR ''z'' \<or> CHR ''0'' \<le> c \<and> c \<le> CHR ''9'' \<or> c = CHR ''_'' \<or> c = CHR ''-''"

definition validCredentialKeyID :: "string \<Rightarrow> bool" where
  "validCredentialKeyID value =
    (if length value < 1 \<or> length value > 32 \<or> \<not> key_id_head (hd value) then False
     else list_all key_id_char (tl value))"

definition ParseCredentialKeyID :: "string \<Rightarrow> credential_key_id res" where
  "ParseCredentialKeyID value =
    (if \<not> validCredentialKeyID value then Inl invalid_value else Inr (CredentialKeyID value))"

definition validCredentialBase64URL :: "string \<Rightarrow> bool" where
  "validCredentialBase64URL value = (if value = [] then False else list_all b64_text_char value)"

record credential_envelope =
  env_text :: string
  env_key_id :: credential_key_id

definition ParseCredentialEnvelope :: "string \<Rightarrow> credential_envelope res" where
  "ParseCredentialEnvelope text =
    (if length text < MinimumCredentialEnvelopeBytes \<or> length text > MaximumCredentialEnvelopeBytes \<or>
        length text < 5 \<or> take 5 text \<noteq> ''igc1.''
     then Inl invalid_value
     else
       let encoded = drop 5 text in
       if \<not> validCredentialBase64URL encoded then Inl invalid_value
       else case b64_decode True encoded of
         None \<Rightarrow> Inl invalid_value
       | Some binary \<Rightarrow>
           if length binary < 7 + 1 + 12 + 17 then Inl invalid_value
           else if take 4 binary \<noteq> credentialMagic \<or> bval (binary ! 4) \<noteq> 1 \<or> bval (binary ! 5) \<noteq> 1
           then Inl invalid_value
           else
             let keyLength = bval (binary ! 6); headerLength = 7 + keyLength in
             if keyLength < 1 \<or> keyLength > 32 \<or> headerLength + 12 + 17 > length binary \<or>
                length binary - (headerLength + 12) > MaximumCredentialPlaintextBytes + 16
             then Inl invalid_value
             else case ParseCredentialKeyID (take keyLength (drop 7 binary)) of
               Inl _ \<Rightarrow> Inl invalid_value
             | Inr keyID \<Rightarrow> Inr \<lparr>env_text = text, env_key_id = keyID\<rparr>)"

definition credential_envelope_valid :: "credential_envelope \<Rightarrow> bool" where
  "credential_envelope_valid e \<longleftrightarrow> ParseCredentialEnvelope (env_text e) = Inr e"

record provider_credential =
  cred_account :: account_id
  cred_key_id :: credential_key_id
  cred_envelope :: credential_envelope

record provider_credential_commit =
  pcc_account :: account_id
  pcc_expected :: "credential_envelope option"
  pcc_next :: credential_envelope

record revoked_credential_delete =
  rcd_account :: account_id
  rcd_expected :: credential_envelope

definition ValidateProviderCredentialCommit :: "provider_credential_commit \<Rightarrow> go_error option" where
  "ValidateProviderCredentialCommit c =
    (if \<not> account_id_valid (pcc_account c) \<or> \<not> credential_envelope_valid (pcc_next c) \<or>
        (case pcc_expected c of None \<Rightarrow> False | Some e \<Rightarrow> \<not> credential_envelope_valid e)
     then Some invalid_value else None)"

definition ValidateRevokedCredentialDelete :: "revoked_credential_delete \<Rightarrow> go_error option" where
  "ValidateRevokedCredentialDelete d =
    (if \<not> account_id_valid (rcd_account d) \<or> \<not> credential_envelope_valid (rcd_expected d)
     then Some invalid_value else None)"

section \<open>Order on account identifiers\<close>

instantiation account_id :: linorder
begin

definition less_eq_account_id :: "account_id \<Rightarrow> account_id \<Rightarrow> bool" where
  "less_eq_account_id a b \<longleftrightarrow> account_id_string a \<le> account_id_string b"

definition less_account_id :: "account_id \<Rightarrow> account_id \<Rightarrow> bool" where
  "less_account_id a b \<longleftrightarrow> account_id_string a < account_id_string b"

instance
  by standard
    (auto simp: less_eq_account_id_def less_account_id_def less_le_not_le intro: account_id.expand)

end

section \<open>What the parsers accept\<close>

lemma bval_lower_hex: "lower_hex_char c \<longleftrightarrow> hex_rune (bval c)"
  by (auto simp: lower_hex_char_def hex_rune_def less_eq_char_def)

lemma hex_runes_iff: "list_all hex_rune (runes s) \<longleftrightarrow> list_all lower_hex_char s"
  by (subst list_all_runes_ascii) (auto simp: hex_rune_def list_all_iff bval_lower_hex)

lemma visible_runes_iff: "list_all visible_rune (runes s) \<longleftrightarrow> list_all (in_range 0x21 0x7e) s"
  by (subst list_all_runes_ascii) (auto simp: visible_rune_def list_all_iff in_range_def)

lemma digit_runes_iff: "list_all digit_rune (runes s) \<longleftrightarrow> list_all is_digit s"
  by (subst list_all_runes_ascii) (auto simp: digit_rune_def list_all_iff is_digit_iff)

lemma ParseAccountID_Inr [simp]:
  "ParseAccountID s = Inr i \<longleftrightarrow> i = AccountID s \<and> length s = 32 \<and> list_all lower_hex_char s"
  by (auto simp: ParseAccountID_def hex_runes_iff)

lemma ParseAccountID_error: "ParseAccountID s = Inl e \<Longrightarrow> e = invalid_value"
  by (auto simp: ParseAccountID_def split: if_splits)

lemma account_id_valid_iff:
  "account_id_valid i \<longleftrightarrow> length (account_id_string i) = 32 \<and> list_all lower_hex_char (account_id_string i)"
  by (auto simp: account_id_valid_def ParseAccountID_def hex_runes_iff)

lemma ParseAccountID_valid [simp]: "account_id_valid i \<Longrightarrow> ParseAccountID (account_id_string i) = Inr i"
  by (cases i) (simp add: account_id_valid_iff)

text \<open>A decimal accepted as a history identifier is the one text of its value.\<close>

lemma unat_of_nat64: "n < 2 ^ 64 \<Longrightarrow> unat (word_of_nat n :: u64) = n"
  by (simp add: unsigned_of_nat take_bit_nat_eq_self)

lemma ParseHistoryID_Inr:
  "ParseHistoryID s = Inr h \<longleftrightarrow>
    hid_text h = s \<and> hid_value h \<noteq> 0 \<and> s = format_uint (unat (hid_value h)) \<and> length s \<le> 20"
proof
  assume "ParseHistoryID s = Inr h"
  then show "hid_text h = s \<and> hid_value h \<noteq> 0 \<and> s = format_uint (unat (hid_value h)) \<and> length s \<le> 20"
    by (auto simp: ParseHistoryID_def Let_def split: if_splits option.splits)
next
  assume r: "hid_text h = s \<and> hid_value h \<noteq> 0 \<and> s = format_uint (unat (hid_value h)) \<and> length s \<le> 20"
  let ?n = "unat (hid_value h)"
  have bound: "?n < 2 ^ 64" using unsigned_less [of "hid_value h"] by simp
  have pos: "0 < ?n" using r by (simp add: unat_gt_0)
  have hd: "hd s \<noteq> CHR ''0''"
  proof
    assume "hd s = CHR ''0''"
    with r have eq: "format_uint ?n = CHR ''0'' # tl s" by (metis format_uint_nonempty list.collapse)
    then have "tl s = []" by (rule format_uint_zero_head)
    with eq have "digits_value (format_uint ?n) = 0" by (simp add: digits_value_def)
    with pos show False by simp
  qed
  have "parse_uint 64 s = Some ?n" using r parse_format_uint [OF bound] by metis
  moreover have "list_all digit_rune (runes s)" using r format_uint_digits digit_runes_iff by metis
  moreover have "s \<noteq> []" using r by (metis format_uint_nonempty)
  moreover have "hid_text h = s" "hid_value h \<noteq> 0" "length s \<le> 20" "format_uint ?n = s"
    using r by auto
  ultimately show "ParseHistoryID s = Inr h"
    using hd bound by (simp add: ParseHistoryID_def Let_def)
qed

lemma history_id_valid_iff: "history_id_valid h \<longleftrightarrow> ParseHistoryID (hid_text h) = Inr h"
proof
  assume "history_id_valid h"
  then obtain p where p: "ParseHistoryID (hid_text h) = Inr p" "hid_value p = hid_value h"
    by (auto simp: history_id_valid_def split: sum.splits)
  then have "hid_text p = hid_text h" by (simp add: ParseHistoryID_Inr)
  with p show "ParseHistoryID (hid_text h) = Inr h" by (cases p; cases h) simp
qed (simp add: history_id_valid_def)

definition history_id_of :: "u64 \<Rightarrow> history_id" where
  "history_id_of v = \<lparr>hid_text = format_uint (unat v), hid_value = v\<rparr>"

lemma format_uint_u64_length: "length (format_uint (unat (v :: u64))) \<le> 20"
proof -
  have "unat v < 2 ^ 64" using unsigned_less [of v] by simp
  also have "(2 ^ 64 :: nat) < 10 ^ 20" by simp
  finally show ?thesis by (intro format_uint_length) simp_all
qed

interpretation history: canonical_codec hid_text
  "\<lambda>s. case ParseHistoryID s of Inl _ \<Rightarrow> None | Inr h \<Rightarrow> Some h" history_id_valid
proof unfold_locales
  fix s h assume "(case ParseHistoryID s of Inl _ \<Rightarrow> None | Inr h \<Rightarrow> Some h) = Some h"
  then have p: "ParseHistoryID s = Inr h" by (simp split: sum.splits)
  then have "hid_text h = s" by (simp add: ParseHistoryID_Inr)
  with p show "history_id_valid h \<and> hid_text h = s" by (simp add: history_id_valid_iff)
qed (simp add: history_id_valid_iff)

lemma history_id_of_valid [validity]: "v \<noteq> 0 \<Longrightarrow> history_id_valid (history_id_of v)"
  by (simp add: history_id_valid_iff history_id_of_def ParseHistoryID_Inr format_uint_u64_length)

lemma history_id_valid_of: "history_id_valid h \<Longrightarrow> h = history_id_of (hid_value h) \<and> hid_value h \<noteq> 0"
  by (cases h) (auto simp: history_id_valid_iff history_id_of_def ParseHistoryID_Inr)

lemma history_id_eq_iff:
  "history_id_valid a \<Longrightarrow> history_id_valid b \<Longrightarrow> a = b \<longleftrightarrow> hid_value a = hid_value b"
  using history_id_valid_of by metis

text \<open>The constants are valid and the zero values are not.\<close>

lemma account_state_valid_iff [simp]: "account_state_valid s \<longleftrightarrow> s \<noteq> AccountStateZero"
  by (cases s) (simp_all add: account_state_valid_def ParseAccountState_def)

lemma reauthorization_reason_valid_iff [simp]:
  "reauthorization_reason_valid r \<longleftrightarrow> r \<noteq> ReauthorizationReasonZero"
  by (cases r) (simp_all add: reauthorization_reason_valid_def ParseReauthorizationReason_def)

lemma revocation_status_valid_iff [simp]: "revocation_status_valid s \<longleftrightarrow> s \<noteq> RevocationStatusZero"
  by (cases s) (simp_all add: revocation_status_valid_def ParseRevocationStatus_def)

lemma revoked_status_iff: "revoked_status r \<longleftrightarrow> r \<notin> {RevocationStatusZero, RevocationStatusNone}"
  by (cases r) (simp_all add: revoked_status_def)

lemma int64_add_exact: "- (2 ^ 63) \<le> a + b \<Longrightarrow> a + b < 2 ^ 63 \<Longrightarrow> int64_add a b = a + b"
  by (simp add: int64_add_def)

lemma LifecycleMatchesCommit_iff:
  "LifecycleMatchesCommit l c \<longleftrightarrow> lc_account l = cm_account c \<and> lc_state l = cm_next_state c \<and>
     lc_revocation l = cm_revocation c \<and> lc_reason l = cm_reason c"
  by (auto simp: LifecycleMatchesCommit_def split: option.splits)

text \<open>A commit that passes validation names a legal edge between well-shaped states.\<close>

lemma ValidateLifecycleCommit_None:
  "ValidateLifecycleCommit c = None \<longleftrightarrow>
    account_id_valid (cm_account c) \<and> 1 \<le> cm_expected_version c \<and> cm_expected_version c \<noteq> MaxInt64 \<and>
    validExpectedLifecycleShape (cm_expected_state c) (cm_expected_revocation c) \<and>
    validLifecycleShape (cm_next_state c) (cm_reason c) (cm_revocation c) \<and>
    validLifecycleTransition (cm_expected_state c) (cm_expected_revocation c) (cm_next_state c) (cm_revocation c)"
  by (auto simp: ValidateLifecycleCommit_def lifecycle_version_valid_def validLifecycleTransition_def
      validLifecycleShape_def validExpectedLifecycleShape_def revoked_status_def
      split: account_state.splits option.splits if_splits)

lemma envelope_text: "ParseCredentialEnvelope s = Inr e \<Longrightarrow> env_text e = s"
  by (auto simp: ParseCredentialEnvelope_def Let_def split: if_splits option.splits sum.splits)

text \<open>The parser accepts every envelope with a legal key identifier, a nonce and a bounded ciphertext.\<close>

definition envelope_binary :: "string \<Rightarrow> string \<Rightarrow> string \<Rightarrow> string" where
  "envelope_binary k n ct = credentialMagic @ [CHR 0x01, CHR 0x01, char_of (length k)] @ k @ n @ ct"

definition envelope_string :: "string \<Rightarrow> string \<Rightarrow> string \<Rightarrow> string" where
  "envelope_string k n ct = ''igc1.'' @ b64_encode (envelope_binary k n ct)"

lemma envelope_parse:
  assumes k: "validCredentialKeyID k" and n: "length n = 12" and ct: "17 \<le> length ct" "length ct \<le> 4112"
  shows "ParseCredentialEnvelope (envelope_string k n ct) =
    Inr \<lparr>env_text = envelope_string k n ct, env_key_id = CredentialKeyID k\<rparr>"
proof -
  have klen: "1 \<le> length k" "length k \<le> 32" using k by (auto simp: validCredentialKeyID_def Suc_le_eq split: if_splits)
  let ?b = "envelope_binary k n ct"
  have len: "length ?b = 19 + length k + length ct" using n by (simp add: envelope_binary_def credentialMagic_def)
  have tlen: "length (envelope_string k n ct) = 5 + (4 * (19 + length k + length ct) + 2) div 3"
    by (simp add: envelope_string_def length_b64_encode len)
  have "150 \<le> 4 * (19 + length k + length ct) + 2" "4 * (19 + length k + length ct) + 2 \<le> 16654"
    using klen ct by simp_all
  from div_le_mono [OF this(1), of 3] div_le_mono [OF this(2), of 3]
  have lo: "55 \<le> length (envelope_string k n ct)" and hi: "length (envelope_string k n ct) \<le> 5556"
    unfolding tlen by simp_all
  have parts: "take 4 ?b = credentialMagic" "bval (?b ! 4) = 1" "bval (?b ! 5) = 1" "bval (?b ! 6) = length k"
    "take (length k) (drop 7 ?b) = k"
    using klen by (simp_all add: envelope_binary_def credentialMagic_def)
  have b64_ok: "validCredentialBase64URL (b64_encode ?b)"
  proof -
    have "length (b64_encode ?b) \<noteq> 0" by (simp add: length_b64_encode len)
    then show ?thesis using b64_encode_text [of ?b] by (simp add: validCredentialBase64URL_def)
  qed
  have split: "take 5 (envelope_string k n ct) = ''igc1.''" "drop 5 (envelope_string k n ct) = b64_encode ?b"
    by (simp_all add: envelope_string_def)
  show ?thesis
    unfolding ParseCredentialEnvelope_def Let_def split
    using lo hi b64_ok parts len klen ct k
    by (simp add: MinimumCredentialEnvelopeBytes_def MaximumCredentialEnvelopeBytes_def
        MaximumCredentialPlaintextBytes_def ParseCredentialKeyID_def) auto
qed

end
