(* ===== verification/Go_Json.thy ===== *)
theory Go_Json
  imports Go_Encoding
begin

text \<open>
  The parts of Go's \<^verbatim>\<open>encoding/json\<close> that the code uses: the encoder (with and without HTML
  escaping), the syntax accepted by the decoder, and the name matching used when an object
  is decoded into a struct.  The main fact is that the decoder reads back what the encoder
  wrote for every value whose strings are valid UTF-8.
\<close>

section \<open>Values\<close>

text \<open>Numbers keep their literal text, objects keep the order of their members.\<close>

datatype json =
    JNull
  | JBool bool
  | JNum string
  | JStr string
  | JArr "json list"
  | JObj "(string \<times> json) list"

section \<open>Encoder\<close>

definition u_escape :: "nat \<Rightarrow> string" where
  "u_escape r = [CHR 0x5C, CHR ''u'', hex_digit (r div 4096 mod 16), hex_digit (r div 256 mod 16),
     hex_digit (r div 16 mod 16), hex_digit (r mod 16)]"

text \<open>How one rune of a string is written; \<open>html\<close> is \<^verbatim>\<open>SetEscapeHTML\<close>, on by default.\<close>

definition escape_chunk :: "bool \<Rightarrow> string \<Rightarrow> string" where
  "escape_chunk html ch =
    (let r = fst (decode_rune ch) in
     if malformed ch then u_escape 0xFFFD
     else if r = 0x22 then [CHR 0x5C, CHR 0x22]
     else if r = 0x5C then [CHR 0x5C, CHR 0x5C]
     else if r = 0x08 then [CHR 0x5C, CHR ''b'']
     else if r = 0x0C then [CHR 0x5C, CHR ''f'']
     else if r = 0x0A then [CHR 0x5C, CHR ''n'']
     else if r = 0x0D then [CHR 0x5C, CHR ''r'']
     else if r = 0x09 then [CHR 0x5C, CHR ''t'']
     else if r < 0x20 \<or> html \<and> (r = 0x3C \<or> r = 0x3E \<or> r = 0x26) \<or> r = 0x2028 \<or> r = 0x2029 then u_escape r
     else ch)"

definition json_quote :: "bool \<Rightarrow> string \<Rightarrow> string" where
  "json_quote html s = CHR 0x22 # concat (map (escape_chunk html) (chunks s)) @ [CHR 0x22]"

fun json_print :: "bool \<Rightarrow> json \<Rightarrow> string"
  and json_print_list :: "bool \<Rightarrow> json list \<Rightarrow> string"
  and json_print_members :: "bool \<Rightarrow> (string \<times> json) list \<Rightarrow> string" where
  "json_print html JNull = ''null''"
| "json_print html (JBool b) = (if b then ''true'' else ''false'')"
| "json_print html (JNum n) = n"
| "json_print html (JStr s) = json_quote html s"
| "json_print html (JArr xs) = CHR ''['' # json_print_list html xs @ '']''"
| "json_print html (JObj ms) = CHR ''{'' # json_print_members html ms @ ''}''"
| "json_print_list html [] = []"
| "json_print_list html [x] = json_print html x"
| "json_print_list html (x # y # xs) = json_print html x @ CHR '','' # json_print_list html (y # xs)"
| "json_print_members html [] = []"
| "json_print_members html [(k, x)] = json_quote html k @ CHR '':'' # json_print html x"
| "json_print_members html ((k, x) # m # ms) =
    json_quote html k @ CHR '':'' # json_print html x @ CHR '','' # json_print_members html (m # ms)"

section \<open>Decoder\<close>

definition json_space :: "char \<Rightarrow> bool" where
  "json_space c \<longleftrightarrow> bval c = 0x20 \<or> bval c = 0x09 \<or> bval c = 0x0A \<or> bval c = 0x0D"

abbreviation skip_ws :: "string \<Rightarrow> string" where
  "skip_ws s \<equiv> dropWhile json_space s"

text \<open>Four hexadecimal digits after \<^verbatim>\<open>\u\<close>.\<close>

definition get_u4 :: "string \<Rightarrow> (nat \<times> string) option" where
  "get_u4 s = (case s of
     a # b # c # d # r \<Rightarrow>
       (case (hex_val a, hex_val b, hex_val c, hex_val d) of
          (Some w, Some x, Some y, Some z) \<Rightarrow> Some (((w * 16 + x) * 16 + y) * 16 + z, r)
        | _ \<Rightarrow> None)
   | _ \<Rightarrow> None)"

text \<open>A \<^verbatim>\<open>\u\<close> escape: a surrogate pair is one rune, a lone surrogate is the replacement rune.\<close>

definition unescape_u :: "string \<Rightarrow> (string \<times> string) option" where
  "unescape_u s = (case get_u4 s of
     None \<Rightarrow> None
   | Some (h, r) \<Rightarrow>
       if 0xD800 \<le> h \<and> h \<le> 0xDFFF then
         (case r of
            b # u # r' \<Rightarrow>
              if b = CHR 0x5C \<and> u = CHR ''u'' then
                (case get_u4 r' of
                   Some (l, r'') \<Rightarrow>
                     if h \<le> 0xDBFF \<and> 0xDC00 \<le> l \<and> l \<le> 0xDFFF
                     then Some (encode_rune (0x10000 + (h - 0xD800) * 0x400 + (l - 0xDC00)), r'')
                     else Some (encode_rune rune_error, r)
                 | None \<Rightarrow> Some (encode_rune rune_error, r))
              else Some (encode_rune rune_error, r)
          | _ \<Rightarrow> Some (encode_rune rune_error, r))
       else Some (encode_rune h, r))"

definition unescape_simple :: "char \<Rightarrow> char option" where
  "unescape_simple c =
    (if c = CHR 0x22 \<or> c = CHR 0x5C \<or> c = CHR ''/'' then Some c
     else if c = CHR ''b'' then Some (CHR 0x08)
     else if c = CHR ''f'' then Some (CHR 0x0C)
     else if c = CHR ''n'' then Some (CHR 0x0A)
     else if c = CHR ''r'' then Some (CHR 0x0D)
     else if c = CHR ''t'' then Some (CHR 0x09)
     else None)"

text \<open>One piece of a string body: its decoded bytes and the rest of the input.\<close>

definition string_piece :: "string \<Rightarrow> (string \<times> string) option" where
  "string_piece s = (case s of
     [] \<Rightarrow> None
   | a # r \<Rightarrow>
       if a = CHR 0x5C then
         (case r of
            [] \<Rightarrow> None
          | c # r' \<Rightarrow> if c = CHR ''u'' then unescape_u r'
              else (case unescape_simple c of None \<Rightarrow> None | Some d \<Rightarrow> Some ([d], r')))
       else if bval a < 0x20 then None
       else if malformed s then Some (encode_rune rune_error, r)
       else Some (take (rune_size s) s, drop (rune_size s) s))"

lemma get_u4_length: "get_u4 s = Some (h, r) \<Longrightarrow> length r < length s"
  by (auto simp: get_u4_def split: list.splits option.splits)

lemma unescape_u_length: "unescape_u s = Some (x, r) \<Longrightarrow> length r < length s"
  by (auto simp: unescape_u_def split: option.splits prod.splits if_splits list.splits
      dest!: get_u4_length)

lemma string_piece_length: "string_piece s = Some (x, r) \<Longrightarrow> length r < length s"
proof (cases s)
  case (Cons a t)
  moreover have "0 < rune_size (a # t)" by simp
  ultimately show "string_piece s = Some (x, r) \<Longrightarrow> length r < length s"
    by (auto simp: string_piece_def simp del: rune_size_pos split: if_splits list.splits option.splits
        dest!: unescape_u_length)
qed (simp add: string_piece_def)

text \<open>The body of a string up to its closing quote.\<close>

function json_string :: "string \<Rightarrow> (string \<times> string) option" where
  "json_string s =
    (if has_prefix s [CHR 0x22] then Some ([], tl s)
     else case string_piece s of
       None \<Rightarrow> None
     | Some (x, r) \<Rightarrow> map_option (\<lambda>(y, q). (x @ y, q)) (json_string r))"
  by pat_completeness auto
termination
  by (relation "measure length") (auto dest: string_piece_length)

declare json_string.simps [simp del]

text \<open>A number literal: sign, integer part without superfluous zeros, fraction, exponent.\<close>

definition digits1 :: "string \<Rightarrow> (string \<times> string) option" where
  "digits1 s = (let d = takeWhile is_digit s in if d = [] then None else Some (d, dropWhile is_digit s))"

definition number_int :: "string \<Rightarrow> (string \<times> string) option" where
  "number_int s = (case s of
     [] \<Rightarrow> None
   | c # r \<Rightarrow> if c = CHR ''0'' then Some ([c], r) else digits1 s)"

definition number_frac :: "string \<Rightarrow> (string \<times> string) option" where
  "number_frac s = (case s of
     c # r \<Rightarrow> if c = CHR ''.'' then map_option (\<lambda>(d, q). (c # d, q)) (digits1 r) else Some ([], s)
   | [] \<Rightarrow> Some ([], []))"

definition number_exp :: "string \<Rightarrow> (string \<times> string) option" where
  "number_exp s = (case s of
     c # r \<Rightarrow>
       if c = CHR ''e'' \<or> c = CHR ''E'' then
         (case r of
            g # q \<Rightarrow> if g = CHR ''+'' \<or> g = CHR ''-''
              then map_option (\<lambda>(d, t). (c # g # d, t)) (digits1 q)
              else map_option (\<lambda>(d, t). (c # d, t)) (digits1 r)
          | [] \<Rightarrow> None)
       else Some ([], s)
   | [] \<Rightarrow> Some ([], []))"

definition json_number :: "string \<Rightarrow> (string \<times> string) option" where
  "json_number s = (let neg = has_prefix s ''-''; s1 = (if neg then tl s else s) in
     case number_int s1 of
       None \<Rightarrow> None
     | Some (i, s2) \<Rightarrow> (case number_frac s2 of
         None \<Rightarrow> None
       | Some (f, s3) \<Rightarrow> (case number_exp s3 of
           None \<Rightarrow> None
         | Some (e, s4) \<Rightarrow> Some ((if neg then ''-'' else []) @ i @ f @ e, s4))))"

text \<open>
  The value grammar.  The comparisons of lengths only make the recursion evidently finite:
  every successful parse consumes input, so they never fail.
\<close>

function (sequential) json_value :: "string \<Rightarrow> (json \<times> string) option"
  and json_elems :: "string \<Rightarrow> (json list \<times> string) option"
  and json_members :: "string \<Rightarrow> ((string \<times> json) list \<times> string) option" where
  "json_value s =
    (case skip_ws s of
       [] \<Rightarrow> None
     | c # r \<Rightarrow>
         if c = CHR 0x22 then map_option (\<lambda>(x, q). (JStr x, q)) (json_string r)
         else if c = CHR ''['' then
           (if has_prefix (skip_ws r) '']'' then Some (JArr [], tl (skip_ws r))
            else if length r < length s then map_option (\<lambda>(xs, q). (JArr xs, q)) (json_elems r) else None)
         else if c = CHR ''{'' then
           (if has_prefix (skip_ws r) ''}'' then Some (JObj [], tl (skip_ws r))
            else if length r < length s then map_option (\<lambda>(ms, q). (JObj ms, q)) (json_members r) else None)
         else if has_prefix (c # r) ''true'' then Some (JBool True, drop 3 r)
         else if has_prefix (c # r) ''false'' then Some (JBool False, drop 4 r)
         else if has_prefix (c # r) ''null'' then Some (JNull, drop 3 r)
         else map_option (\<lambda>(n, q). (JNum n, q)) (json_number (c # r)))"
| "json_elems s =
    (case json_value s of
       None \<Rightarrow> None
     | Some (x, q) \<Rightarrow>
         (case skip_ws q of
            [] \<Rightarrow> None
          | c # r \<Rightarrow>
              if c = CHR '']'' then Some ([x], r)
              else if c = CHR '','' \<and> length r < length s
              then map_option (\<lambda>(xs, t). (x # xs, t)) (json_elems r)
              else None))"
| "json_members s =
    (case skip_ws s of
       [] \<Rightarrow> None
     | c0 # s0 \<Rightarrow>
         if c0 \<noteq> CHR 0x22 then None
         else (case json_string s0 of
            None \<Rightarrow> None
          | Some (k, s1) \<Rightarrow>
              (case skip_ws s1 of
                 [] \<Rightarrow> None
               | c1 # s2 \<Rightarrow>
                   if c1 \<noteq> CHR '':'' \<or> \<not> length s2 < length s then None
                   else (case json_value s2 of
                      None \<Rightarrow> None
                    | Some (x, s3) \<Rightarrow>
                        (case skip_ws s3 of
                           [] \<Rightarrow> None
                         | c # r \<Rightarrow>
                             if c = CHR ''}'' then Some ([(k, x)], r)
                             else if c = CHR '','' \<and> length r < length s
                             then map_option (\<lambda>(ms, t). ((k, x) # ms, t)) (json_members r)
                             else None)))))"
  by pat_completeness auto
termination
  by (relation "measure (\<lambda>x. case x of Inl s \<Rightarrow> 2 * length s | Inr (Inl s) \<Rightarrow> 2 * length s + 1
        | Inr (Inr s) \<Rightarrow> 2 * length s + 1)") auto

declare json_value.simps [simp del] json_elems.simps [simp del] json_members.simps [simp del]

text \<open>\<^verbatim>\<open>json.Unmarshal\<close> accepts a value surrounded by white space.\<close>

definition json_unmarshal :: "string \<Rightarrow> json option" where
  "json_unmarshal s = (case json_value s of
     None \<Rightarrow> None
   | Some (x, r) \<Rightarrow> if skip_ws r = [] then Some x else None)"

text \<open>
  Struct fields are matched exactly or, failing that, after case folding.  The only runes
  outside ASCII that fold to an ASCII letter are U+017F and U+212A.
\<close>

definition fold_name_rune :: "rune \<Rightarrow> rune" where
  "fold_name_rune r = (if 97 \<le> r \<and> r \<le> 122 then r - 32 else if r = 0x17F then 83 else if r = 0x212A then 75 else r)"

definition fold_name :: "string \<Rightarrow> rune list" where
  "fold_name s = map fold_name_rune (runes s)"

definition match_field :: "string list \<Rightarrow> string \<Rightarrow> string option" where
  "match_field names key =
    (if key \<in> set names then Some key else List.find (\<lambda>n. fold_name n = fold_name key) names)"

section \<open>Reading back what was written\<close>

lemma hex4_value: "r < 65536 \<Longrightarrow>
  ((r div 4096 mod 16 * 16 + r div 256 mod 16) * 16 + r div 16 mod 16) * 16 + r mod 16 = (r :: nat)"
proof -
  assume "r < 65536"
  then have "r div 4096 < 16" by (simp add: less_mult_imp_div_less)
  moreover have "r div 256 = r div 16 div 16" "r div 4096 = r div 16 div 16 div 16"
    by (simp_all add: div_mult2_eq [symmetric])
  ultimately show ?thesis by simp
qed

lemma get_u4_digits:
  assumes "r < 65536"
  shows "get_u4 (hex_digit (r div 4096 mod 16) # hex_digit (r div 256 mod 16) #
     hex_digit (r div 16 mod 16) # hex_digit (r mod 16) # t) = Some (r, t)"
proof -
  have "x mod 16 < 16" for x :: nat by simp
  then show ?thesis
    unfolding get_u4_def by (simp only: list.case hex_val_digit prod.case option.case hex4_value [OF assms])
qed

lemma piece_u_escape:
  "r < 0xD800 \<Longrightarrow> string_piece (u_escape r @ t) = Some (encode_rune r, t)"
  using get_u4_digits [of r t] by (simp add: string_piece_def u_escape_def unescape_u_def)

lemma piece_verbatim:
  assumes "\<not> malformed (a # s)" and "a \<noteq> CHR 0x5C" and "\<not> bval a < 0x20"
  shows "string_piece (take (rune_size (a # s)) (a # s) @ t) = Some (take (rune_size (a # s)) (a # s), t)"
proof -
  let ?c = "take (rune_size (a # s)) (a # s)"
  have len: "length ?c = rune_size (a # s)" using rune_size_le [of "a # s"] by simp
  have dec: "decode_rune (?c @ t) = decode_rune (a # s)"
    using decode_rune_prefix [OF assms(1)] .
  then have size: "rune_size (?c @ t) = rune_size (a # s)" by (simp add: rune_size_def)
  obtain c' where c: "?c = a # c'"
    using rune_size_pos [of a s] by (cases "rune_size (a # s)") auto
  have nm: "\<not> malformed (?c @ t)" using assms(1) dec by (simp add: malformed_def)
  have "take (rune_size (a # s)) (?c @ t) = ?c" and "drop (rune_size (a # s)) (?c @ t) = t"
    using len by simp_all
  with nm size assms(2,3) show ?thesis
    unfolding string_piece_def by (simp add: c)
qed

lemma bval_eq_char: "bval a = n \<Longrightarrow> a = char_of n"
  by auto

lemma piece_escape_ascii:
  assumes "bval a < 0x80"
  shows "string_piece (escape_chunk html [a] @ t) = Some ([a], t)
    \<and> \<not> has_prefix (escape_chunk html [a] @ t) [CHR 0x22]"
proof -
  have nm: "\<not> malformed [a]" and dec: "fst (decode_rune [a]) = bval a"
    using assms by (simp_all add: ascii_not_malformed ascii_decode)
  have enc: "encode_rune (bval a) = [a]"
    using assms by (simp add: encode_rune_def rune_valid_def)
  have esc: "string_piece (u_escape (bval a) @ t) = Some ([a], t)"
    using piece_u_escape [of "bval a" t] assms enc by simp
  have eqs: "bval a = 0x22 \<longleftrightarrow> a = CHR 0x22" "bval a = 0x5C \<longleftrightarrow> a = CHR 0x5C" "bval a = 0x08 \<longleftrightarrow> a = CHR 0x08"
    "bval a = 0x0C \<longleftrightarrow> a = CHR 0x0C" "bval a = 0x0A \<longleftrightarrow> a = CHR 0x0A" "bval a = 0x0D \<longleftrightarrow> a = CHR 0x0D"
    "bval a = 0x09 \<longleftrightarrow> a = CHR 0x09"
    by (simp_all flip: bval_inj)
  show ?thesis
  proof (cases "a \<in> set [CHR 0x22, CHR 0x5C, CHR 0x08, CHR 0x0C, CHR 0x0A, CHR 0x0D, CHR 0x09]")
    case True
    then show ?thesis
      using nm dec by (auto simp: escape_chunk_def string_piece_def unescape_simple_def has_prefix_def)
  next
    case False
    then have e: "escape_chunk html [a] =
        (if bval a < 0x20 \<or> html \<and> (bval a = 0x3C \<or> bval a = 0x3E \<or> bval a = 0x26) then u_escape (bval a) else [a])"
      using nm dec eqs assms by (auto simp: escape_chunk_def Let_def)
    show ?thesis
    proof (cases "bval a < 0x20 \<or> html \<and> (bval a = 0x3C \<or> bval a = 0x3E \<or> bval a = 0x26)")
      case True
      then show ?thesis using esc by (simp add: e has_prefix_def u_escape_def)
    next
      case nospecial: False
      then show ?thesis
        using piece_verbatim [of a "[]" t] nm False assms
        by (auto simp: e has_prefix_def)
    qed
  qed
qed

lemma piece_escape:
  assumes "\<not> malformed (a # s)"
  shows "string_piece (escape_chunk html (take (rune_size (a # s)) (a # s)) @ t) = Some (take (rune_size (a # s)) (a # s), t)
    \<and> \<not> has_prefix (escape_chunk html (take (rune_size (a # s)) (a # s)) @ t) [CHR 0x22]"
proof (cases "bval a < 0x80")
  case True
  then show ?thesis using piece_escape_ascii [OF True] by simp
next
  case False
  let ?c = "take (rune_size (a # s)) (a # s)" and ?r = "fst (decode_rune (a # s))"
  have dec: "decode_rune ?c = decode_rune (a # s)" and nm: "\<not> malformed ?c"
    using decode_rune_take [of "a # s"] malformed_take [of "a # s"] assms by auto
  have ge: "0x80 \<le> ?r" using multibyte_rune_ge [OF False] .
  then have e: "escape_chunk html ?c = (if ?r = 0x2028 \<or> ?r = 0x2029 then u_escape ?r else ?c)"
    using nm dec by (simp add: escape_chunk_def)
  obtain c' where c: "?c = a # c'"
    using rune_size_pos [of a s] by (cases "rune_size (a # s)") auto
  show ?thesis
  proof (cases "?r = 0x2028 \<or> ?r = 0x2029")
    case True
    then have "string_piece (u_escape ?r @ t) = Some (?c, t)"
      using piece_u_escape [of ?r t] encode_decode_rune [OF assms] by auto
    with True e show ?thesis by (simp add: has_prefix_def u_escape_def)
  next
    case nosep: False
    have "a \<noteq> CHR 0x5C" "a \<noteq> CHR 0x22" using False by auto
    then show ?thesis
      using nosep e piece_verbatim [OF assms, of t] False by (auto simp: c has_prefix_def)
  qed
qed

lemma json_string_quote:
  "valid_utf8 s \<Longrightarrow>
    json_string (concat (map (escape_chunk html) (chunks s)) @ CHR 0x22 # t) = Some (s, t)"
proof (induction s rule: chunks.induct)
  case 1
  show ?case by (subst json_string.simps) (simp add: has_prefix_def)
next
  case (2 a s)
  let ?n = "rune_size (a # s)"
  from 2 have nm: "\<not> malformed (a # s)" and v: "valid_utf8 (drop ?n (a # s))"
    by (simp_all add: valid_utf8_Cons)
  let ?rest = "concat (map (escape_chunk html) (chunks (drop ?n (a # s)))) @ CHR 0x22 # t"
  have "json_string (escape_chunk html (take ?n (a # s)) @ ?rest)
      = Some (take ?n (a # s) @ drop ?n (a # s), t)"
    using piece_escape [OF nm, of html ?rest] "2.IH" [OF v]
    by (subst json_string.simps) simp
  then show ?case by (simp add: chunks.simps(2))
qed

section \<open>Values read back\<close>

text \<open>Well-formed values: valid UTF-8 in every string, unsigned integers as numbers.\<close>

fun json_wf :: "json \<Rightarrow> bool" where
  "json_wf JNull = True"
| "json_wf (JBool b) = True"
| "json_wf (JNum n) = (n = format_uint (digits_value n))"
| "json_wf (JStr s) = valid_utf8 s"
| "json_wf (JArr xs) = list_all json_wf xs"
| "json_wf (JObj ms) = list_all (\<lambda>(k, x). valid_utf8 k \<and> json_wf x) ms"

definition delimited :: "string \<Rightarrow> bool" where
  "delimited r \<longleftrightarrow> r = [] \<or> hd r \<in> {CHR '','', CHR '']'', CHR ''}''}"

lemma not_space [simp]:
  "\<not> json_space (CHR 0x22)" "\<not> json_space (CHR '','')" "\<not> json_space (CHR '']'')" "\<not> json_space (CHR ''}'')"
  "\<not> json_space (CHR ''['')" "\<not> json_space (CHR ''{'')" "\<not> json_space (CHR '':'')" "\<not> json_space (CHR ''t'')"
  "\<not> json_space (CHR ''f'')" "\<not> json_space (CHR ''n'')"
  by (simp_all add: json_space_def)

lemma digit_not_space: "is_digit c \<Longrightarrow> \<not> json_space c"
  by (auto simp: json_space_def is_digit_iff)

lemma delimited_number:
  "delimited r \<Longrightarrow> takeWhile is_digit r = [] \<and> number_frac r = Some ([], r) \<and> number_exp r = Some ([], r)"
  by (cases r) (auto simp: delimited_def number_frac_def number_exp_def is_digit_iff)

lemma takeWhile_digits:
  "list_all is_digit d \<Longrightarrow> delimited r \<Longrightarrow> takeWhile is_digit (d @ r) = d \<and> dropWhile is_digit (d @ r) = r"
proof -
  assume d: "list_all is_digit d" and r: "delimited r"
  have "dropWhile is_digit r = r"
    using takeWhile_dropWhile_id [of is_digit r] delimited_number [OF r] by simp
  with d r delimited_number show ?thesis
    by (simp add: takeWhile_append2 dropWhile_append2 list_all_iff)
qed

lemma json_number_format:
  assumes "delimited r"
  shows "json_number (format_uint n @ r) = Some (format_uint n, r)"
proof -
  obtain c t where c: "format_uint n = c # t" by (cases "format_uint n") auto
  have dig: "list_all is_digit (c # t)" using format_uint_digits [of n] c by simp
  have "number_int (c # t @ r) = Some (c # t, r)"
  proof (cases "c = CHR ''0''")
    case True
    with c format_uint_zero_head [of n t] have "t = []" by simp
    with True show ?thesis by (simp add: number_int_def)
  next
    case False
    with takeWhile_digits [OF dig assms] show ?thesis
      by (simp add: number_int_def digits1_def Let_def)
  qed
  moreover have "\<not> has_prefix (c # t @ r) ''-''"
    using dig by (auto simp: has_prefix_def is_digit_iff)
  ultimately show ?thesis
    using delimited_number [OF assms] by (simp add: c json_number_def Let_def)
qed

lemma json_value_number:
  assumes "delimited r"
  shows "json_value (format_uint n @ r) = Some (JNum (format_uint n), r)"
proof -
  obtain c t where c: "format_uint n = c # t" by (cases "format_uint n") auto
  have dig: "is_digit c" using format_uint_digits [of n] c by simp
  then have "c \<notin> {CHR 0x22, CHR ''['', CHR ''{'', CHR ''t'', CHR ''f'', CHR ''n''}"
    by (auto simp: is_digit_iff)
  then show ?thesis
    using json_number_format [OF assms, of n] digit_not_space [OF dig]
    by (subst json_value.simps) (simp add: c has_prefix_def)
qed

lemma json_value_quote:
  "valid_utf8 s \<Longrightarrow> json_value (json_quote html s @ r) = Some (JStr s, r)"
  using json_string_quote [of s html r]
  by (subst json_value.simps) (simp add: json_quote_def)

lemma json_print_head:
  "json_wf x \<Longrightarrow> \<exists>c t. json_print html x = c # t \<and> \<not> json_space c \<and> c \<noteq> CHR '']'' \<and> c \<noteq> CHR ''}''"
proof (cases x)
  case (JNum n)
  assume "json_wf x"
  with JNum have n: "n = format_uint (digits_value n)" by simp
  then obtain c t where c: "n = c # t" by (metis format_uint_nonempty list.exhaust)
  have "is_digit c" using format_uint_digits [of "digits_value n"] n c by (metis list.pred_inject(2))
  then show ?thesis using JNum c digit_not_space [of c] by (auto simp: is_digit_iff)
qed (auto simp: json_quote_def)

lemma json_value_roundtrip:
  "json_wf x \<Longrightarrow> delimited r \<Longrightarrow> json_value (json_print html x @ r) = Some (x, r)"
  "xs \<noteq> [] \<Longrightarrow> list_all json_wf xs \<Longrightarrow>
    json_elems (json_print_list html xs @ CHR '']'' # r) = Some (xs, r)"
  "ms \<noteq> [] \<Longrightarrow> list_all (\<lambda>(k, x). valid_utf8 k \<and> json_wf x) ms \<Longrightarrow>
    json_members (json_print_members html ms @ CHR ''}'' # r) = Some (ms, r)"
proof (induction html x and html xs and html ms arbitrary: r and r and r
    rule: json_print_json_print_list_json_print_members.induct)
  case (1 html)
  then show ?case by (subst json_value.simps) (simp add: has_prefix_def)
next
  case (2 html b)
  then show ?case by (subst json_value.simps) (simp add: has_prefix_def)
next
  case (3 html n)
  then show ?case using json_value_number [of r "digits_value n"] by simp
next
  case (4 html s)
  then show ?case by (simp add: json_value_quote)
next
  case (5 html xs)
  show ?case
  proof (cases xs)
    case Nil
    then show ?thesis by (subst json_value.simps) (simp add: has_prefix_def)
  next
    case (Cons y ys)
    with "5.prems" obtain c t where c: "json_print_list html xs = c # t" "\<not> json_space c" "c \<noteq> CHR '']''"
      using json_print_head [of y html] by (cases ys) force+
    have "json_elems (json_print_list html xs @ CHR '']'' # r) = Some (xs, r)"
      using 5 Cons by simp
    then show ?thesis
      using c by (subst json_value.simps) (simp add: has_prefix_def)
  qed
next
  case (6 html ms)
  show ?case
  proof (cases ms)
    case Nil
    then show ?thesis by (subst json_value.simps) (simp add: has_prefix_def)
  next
    case (Cons y ys)
    then obtain c t where c: "json_print_members html ms = c # t" "c = CHR 0x22"
      by (cases y; cases ys) (auto simp: json_quote_def)
    have "json_members (json_print_members html ms @ CHR ''}'' # r) = Some (ms, r)"
      using 6 Cons by simp
    then show ?thesis
      using c by (subst json_value.simps) (simp add: has_prefix_def)
  qed
next
  case (8 html x)
  then have "json_value (json_print html x @ CHR '']'' # r) = Some (x, CHR '']'' # r)"
    by (simp add: delimited_def)
  then show ?case by (subst json_elems.simps) simp
next
  case (9 html x y xs)
  then have "json_value (json_print html x @ CHR '','' # json_print_list html (y # xs) @ CHR '']'' # r)
      = Some (x, CHR '','' # json_print_list html (y # xs) @ CHR '']'' # r)"
    by (simp add: delimited_def)
  moreover have "json_elems (json_print_list html (y # xs) @ CHR '']'' # r) = Some (y # xs, r)"
    using 9 by simp
  ultimately show ?case by (subst json_elems.simps) simp
next
  case (11 html k x)
  then have "json_value (json_print html x @ CHR ''}'' # r) = Some (x, CHR ''}'' # r)"
    by (simp add: delimited_def)
  then show ?case
    using 11 json_string_quote [of k html "CHR '':'' # json_print html x @ CHR ''}'' # r"]
    by (subst json_members.simps) (simp add: json_quote_def)
next
  case (12 html k x m ms)
  let ?rest = "json_print_members html (m # ms) @ CHR ''}'' # r"
  have "json_value (json_print html x @ CHR '','' # ?rest) = Some (x, CHR '','' # ?rest)"
    using 12 by (simp add: delimited_def)
  moreover have "json_members ?rest = Some (m # ms, r)"
    using 12 by simp
  ultimately show ?case
    using 12 json_string_quote [of k html "CHR '':'' # json_print html x @ CHR '','' # ?rest"]
    by (subst json_members.simps) (simp add: json_quote_def)
qed simp_all

text \<open>\<^verbatim>\<open>json.Unmarshal\<close> inverts \<^verbatim>\<open>json.Marshal\<close>.\<close>

lemma json_unmarshal_print: "json_wf x \<Longrightarrow> json_unmarshal (json_print html x) = Some x"
  using json_value_roundtrip(1) [of x "[]" html] by (simp add: json_unmarshal_def delimited_def)

interpretation json: codec "json_print html" json_unmarshal json_wf for html
  by unfold_locales (rule json_unmarshal_print)

lemma match_field_exact [simp]: "key \<in> set names \<Longrightarrow> match_field names key = Some key"
  by (simp add: match_field_def)

section \<open>Encoded text is valid UTF-8\<close>

lemma hex_digit_ascii: "n < 16 \<Longrightarrow> bval (hex_digit n) < 0x80"
  by (simp add: bval_hex_digit)

lemma u_escape_ascii: "list_all (\<lambda>c. bval c < 0x80) (u_escape r)"
  by (simp add: u_escape_def hex_digit_ascii)

lemma escape_chunk_utf8: "valid_utf8 c \<Longrightarrow> valid_utf8 (escape_chunk html c)"
  by (simp add: escape_chunk_def Let_def valid_utf8_ascii u_escape_ascii)

lemma valid_utf8_ascii_Cons: "bval a < 0x80 \<Longrightarrow> valid_utf8 (a # s) \<longleftrightarrow> valid_utf8 s"
  using valid_utf8_append [of "[a]" s] by (simp add: valid_utf8_ascii)

lemma json_quote_utf8: "valid_utf8 s \<Longrightarrow> valid_utf8 (json_quote html s)"
proof -
  assume "valid_utf8 s"
  then have "valid_utf8 (concat (map (escape_chunk html) (chunks s)))"
    by (intro valid_utf8_concat) (auto simp: list_all_iff dest: valid_utf8_chunks intro: escape_chunk_utf8)
  then show ?thesis by (simp add: json_quote_def valid_utf8_ascii_Cons valid_utf8_append valid_utf8_ascii)
qed

lemma format_uint_ascii: "list_all (\<lambda>c. bval c < 0x80) (format_uint n)"
  using format_uint_digits [of n] by (auto simp: list_all_iff is_digit_iff)

lemma json_print_utf8:
  "json_wf x \<Longrightarrow> valid_utf8 (json_print html x)"
  "list_all json_wf xs \<Longrightarrow> valid_utf8 (json_print_list html xs)"
  "list_all (\<lambda>(k, x). valid_utf8 k \<and> json_wf x) ms \<Longrightarrow> valid_utf8 (json_print_members html ms)"
proof (induction html x and html xs and html ms
    rule: json_print_json_print_list_json_print_members.induct)
  case (3 html n)
  then show ?case using format_uint_ascii [of "digits_value n"] by (simp add: valid_utf8_ascii)
qed (simp_all add: valid_utf8_ascii_Cons valid_utf8_append json_quote_utf8)

end
