(* ===== verification/Go_Crypto.thy ===== *)
theory Go_Crypto
  imports Go_Encoding
begin

text \<open>
  The hash functions of Go's \<^verbatim>\<open>crypto/sha256\<close> and \<^verbatim>\<open>crypto/hmac\<close> that the code calls: SHA-256
  (FIPS 180-4) on byte strings and HMAC-SHA-256 (RFC 2104), executable.
\<close>

unbundle bit_operations_syntax

section \<open>SHA-256\<close>

definition rotr :: "nat \<Rightarrow> u32 \<Rightarrow> u32" where
  "rotr n w = drop_bit n w OR push_bit (32 - n) w"

definition sha_ch :: "u32 \<Rightarrow> u32 \<Rightarrow> u32 \<Rightarrow> u32" where
  "sha_ch x y z = (x AND y) XOR (NOT x AND z)"

definition sha_maj :: "u32 \<Rightarrow> u32 \<Rightarrow> u32 \<Rightarrow> u32" where
  "sha_maj x y z = (x AND y) XOR (x AND z) XOR (y AND z)"

definition big_sigma0 :: "u32 \<Rightarrow> u32" where
  "big_sigma0 x = rotr 2 x XOR rotr 13 x XOR rotr 22 x"

definition big_sigma1 :: "u32 \<Rightarrow> u32" where
  "big_sigma1 x = rotr 6 x XOR rotr 11 x XOR rotr 25 x"

definition small_sigma0 :: "u32 \<Rightarrow> u32" where
  "small_sigma0 x = rotr 7 x XOR rotr 18 x XOR drop_bit 3 x"

definition small_sigma1 :: "u32 \<Rightarrow> u32" where
  "small_sigma1 x = rotr 17 x XOR rotr 19 x XOR drop_bit 10 x"

definition sha_k :: "u32 list" where
  "sha_k = [
    1116352408, 1899447441, 3049323471, 3921009573, 961987163, 1508970993, 2453635748, 2870763221,
    3624381080, 310598401, 607225278, 1426881987, 1925078388, 2162078206, 2614888103, 3248222580,
    3835390401, 4022224774, 264347078, 604807628, 770255983, 1249150122, 1555081692, 1996064986,
    2554220882, 2821834349, 2952996808, 3210313671, 3336571891, 3584528711, 113926993, 338241895,
    666307205, 773529912, 1294757372, 1396182291, 1695183700, 1986661051, 2177026350, 2456956037,
    2730485921, 2820302411, 3259730800, 3345764771, 3516065817, 3600352804, 4094571909, 275423344,
    430227734, 506948616, 659060556, 883997877, 958139571, 1322822218, 1537002063, 1747873779,
    1955562222, 2024104815, 2227730452, 2361852424, 2428436474, 2756734187, 3204031479, 3329325298]"

definition sha_init :: "u32 list" where
  "sha_init = [1779033703, 3144134277, 1013904242, 2773480762, 1359893119, 2600822924, 528734635, 1541459225]"

text \<open>Padding: a one bit, zeros, and the bit length in eight bytes.\<close>

definition be64 :: "nat \<Rightarrow> string" where
  "be64 n = map (\<lambda>i. char_of (n div 256 ^ i)) [7, 6, 5, 4, 3, 2, 1, 0]"

definition sha_pad :: "string \<Rightarrow> string" where
  "sha_pad s = s @ [CHR 0x80] @ replicate ((119 - length s mod 64) mod 64) (CHR 0x00) @ be64 (8 * length s)"

fun words_of :: "string \<Rightarrow> u32 list" where
  "words_of (a # b # c # d # s) =
    word_of_nat (((bval a * 256 + bval b) * 256 + bval c) * 256 + bval d) # words_of s"
| "words_of _ = []"

text \<open>The message schedule, newest word first, and the 64 rounds.\<close>

fun sha_schedule :: "nat \<Rightarrow> u32 list \<Rightarrow> u32 list" where
  "sha_schedule 0 w = w"
| "sha_schedule (Suc n) w =
    sha_schedule n ((small_sigma1 (w ! 1) + w ! 6 + small_sigma0 (w ! 14) + w ! 15) # w)"

fun sha_rounds :: "(u32 \<times> u32) list \<Rightarrow> u32 list \<Rightarrow> u32 list" where
  "sha_rounds [] st = st"
| "sha_rounds ((k, w) # r) st = (case st of
     [a, b, c, d, e, f, g, h] \<Rightarrow>
       (let t1 = h + big_sigma1 e + sha_ch e f g + k + w; t2 = big_sigma0 a + sha_maj a b c in
        sha_rounds r [t1 + t2, a, b, c, d + t1, e, f, g])
   | _ \<Rightarrow> st)"

definition sha_block :: "u32 list \<Rightarrow> u32 list \<Rightarrow> u32 list" where
  "sha_block st ws = map2 (+) st (sha_rounds (zip sha_k (rev (sha_schedule 48 (rev ws)))) st)"

fun sha_blocks :: "nat \<Rightarrow> u32 list \<Rightarrow> u32 list \<Rightarrow> u32 list" where
  "sha_blocks 0 st ws = st"
| "sha_blocks (Suc n) st ws = sha_blocks n (sha_block st (take 16 ws)) (drop 16 ws)"

definition sha256 :: "string \<Rightarrow> string" where
  "sha256 s = (let p = sha_pad s in
     concat (map be32 (sha_blocks (length p div 64) sha_init (words_of p))))"

section \<open>HMAC\<close>

definition xor_pad :: "nat \<Rightarrow> string \<Rightarrow> string" where
  "xor_pad p k = map (\<lambda>c. char_of (bval c XOR p)) (k @ replicate (64 - length k) (CHR 0x00))"

definition hmac_sha256 :: "string \<Rightarrow> string \<Rightarrow> string" where
  "hmac_sha256 key msg = (let k = (if 64 < length key then sha256 key else key) in
     sha256 (xor_pad 0x5c k @ sha256 (xor_pad 0x36 k @ msg)))"

section \<open>Facts\<close>

lemma length_sha_rounds [simp]: "length (sha_rounds ks st) = length st"
proof (induction ks st rule: sha_rounds.induct)
  case (2 k w r st)
  show ?case
  proof (cases "length st = 8")
    case True
    then obtain a b c d e f g h where "st = [a, b, c, d, e, f, g, h]"
      by (auto simp: length_Suc_conv eval_nat_numeral)
    then show ?thesis using 2 by (simp add: Let_def)
  qed (auto split: list.split)
qed simp

lemma length_sha_blocks [simp]: "length (sha_blocks n st ws) = length st"
  by (induction n st ws rule: sha_blocks.induct) (simp_all add: sha_block_def)

text \<open>A digest has 32 bytes, whatever was hashed.\<close>

lemma length_concat_be32: "length (concat (map be32 ws)) = 4 * length ws"
  by (induction ws) simp_all

lemma length_sha256 [simp, lengths]: "length (sha256 s) = 32"
  by (simp add: sha256_def Let_def length_concat_be32 sha_init_def)

lemma length_hmac [simp, lengths]: "length (hmac_sha256 k m) = 32"
  by (simp add: hmac_sha256_def Let_def)

lemma length_hex_sha256 [simp, lengths]: "length (hex_encode (sha256 s)) = 64"
  by simp

end
