(* ===== verification/Mail_Message.thy ===== *)
theory Mail_Message
  imports Go_Json Go_Crypto
begin

text \<open>
  \<^verbatim>\<open>internal/mail/message.go\<close> and \<^verbatim>\<open>gate_projection.go\<close>: the bounded metadata vocabulary, its
  canonical JSON, the content hash and the record identifier, and the reader that accepts a
  stored record only when it is exactly what the writer would have produced.
\<close>

type_synonym u16 = "16 word"
type_synonym i64 = "64 word"

section \<open>Data\<close>

definition MetadataVersion1 :: u32 where
  "MetadataVersion1 = 1"

definition MaximumCanonicalJSONBytes :: nat where
  "MaximumCanonicalJSONBytes = 65536"

definition DiscoverySourceCurrentSync :: string where
  "DiscoverySourceCurrentSync = ''current_sync''"

definition messageRecordDomain :: string where
  "messageRecordDomain = ''inboxgate/message-record/v1''"

text \<open>A signed 64-bit field is a word read by \<open>sint\<close>.\<close>

record message_input =
  mi_gmail_message_id :: string
  mi_gmail_thread_id :: string
  mi_rfc_message_id :: string
  mi_internal_date :: i64
  mi_sender_display :: string
  mi_sender_address :: string
  mi_to :: "string list"
  mi_cc :: "string list"
  mi_delivered_to :: "string list"
  mi_subject :: string
  mi_labels :: "string list"
  mi_size_estimate :: u32
  mi_attachment_count :: u16
  mi_list_id :: string
  mi_auto_submitted :: string
  mi_precedence :: string
  mi_list_unsubscribe :: bool

record canonical_metadata =
  md_version :: u32
  md_rfc_message_id :: string
  md_internal_date :: string
  md_sender_display :: string
  md_sender_address :: string
  md_to :: "string list"
  md_cc :: "string list"
  md_delivered_to :: "string list"
  md_subject :: string
  md_labels :: "string list"
  md_size_estimate :: u32
  md_attachment_count :: u16
  md_has_attachments :: bool
  md_list_id :: string
  md_auto_submitted :: string
  md_precedence :: string
  md_list_unsubscribe :: bool
  md_discovery_source :: string

record message =
  msg_account :: string
  msg_record_id :: string
  msg_gmail_id :: string
  msg_thread_id :: string
  msg_metadata :: canonical_metadata
  msg_json :: string
  msg_hash :: string

section \<open>Checks on fields\<close>

definition validLowerHex :: "string \<Rightarrow> nat \<Rightarrow> bool" where
  "validLowerHex value n = (if length value \<noteq> n then False else list_all lower_hex_char value)"

definition mail_validAccountID :: "string \<Rightarrow> bool" where
  "mail_validAccountID value = validLowerHex value 32"

definition validVisibleASCII :: "string \<Rightarrow> nat \<Rightarrow> nat \<Rightarrow> bool" where
  "validVisibleASCII value minimum maximum =
    (if length value < minimum \<or> length value > maximum then False else list_all (in_range 0x21 0x7e) value)"

definition validText :: "string \<Rightarrow> nat \<Rightarrow> bool" where
  "validText value maximum =
    (if length value > maximum \<or> \<not> valid_utf8 value then False
     else list_all (\<lambda>r. \<not> is_control r) (runes value))"

text \<open>\<^verbatim>\<open>slices.Sort\<close> followed by \<^verbatim>\<open>slices.Compact\<close>.\<close>

definition sort_compact :: "string list \<Rightarrow> string list" where
  "sort_compact xs = remdups_adj (sort xs)"

definition canonicalTextList :: "string list \<Rightarrow> nat \<Rightarrow> nat \<Rightarrow> string list option" where
  "canonicalTextList values maximumCount maximumBytes =
    (if length values > maximumCount then None
     else if \<not> list_all (\<lambda>v. validText v maximumBytes) values then None
     else Some (sort_compact values))"

definition canonicalLabels :: "string list \<Rightarrow> string list option" where
  "canonicalLabels values =
    (if \<not> list_all (\<lambda>v. validVisibleASCII v 1 128) values then None
     else let result = sort_compact values in
       if length result > 128 then None else Some result)"

section \<open>Canonical JSON\<close>

definition json_strings :: "string list \<Rightarrow> json" where
  "json_strings xs = JArr (map JStr xs)"

definition metadata_json :: "canonical_metadata \<Rightarrow> json" where
  "metadata_json md = JObj
    [(''version'', JNum (format_uint (unat (md_version md)))),
     (''rfc_message_id'', JStr (md_rfc_message_id md)),
     (''internal_date_ms'', JStr (md_internal_date md)),
     (''sender_display'', JStr (md_sender_display md)),
     (''sender_address'', JStr (md_sender_address md)),
     (''to'', json_strings (md_to md)),
     (''cc'', json_strings (md_cc md)),
     (''delivered_to'', json_strings (md_delivered_to md)),
     (''subject'', JStr (md_subject md)),
     (''labels'', json_strings (md_labels md)),
     (''size_estimate'', JNum (format_uint (unat (md_size_estimate md)))),
     (''attachment_count'', JNum (format_uint (unat (md_attachment_count md)))),
     (''has_attachments'', JBool (md_has_attachments md)),
     (''list_id'', JStr (md_list_id md)),
     (''auto_submitted'', JStr (md_auto_submitted md)),
     (''precedence'', JStr (md_precedence md)),
     (''list_unsubscribe'', JBool (md_list_unsubscribe md)),
     (''discovery_source'', JStr (md_discovery_source md))]"

definition encodeCanonical :: "canonical_metadata \<Rightarrow> string" where
  "encodeCanonical md = json_print False (metadata_json md)"

text \<open>
  Decoding of one member into the struct: \<^verbatim>\<open>null\<close> leaves a scalar field as it is and makes a
  slice nil; a value of the wrong kind or out of range is an error.
\<close>

fun decode_str :: "string \<Rightarrow> json \<Rightarrow> string option" where
  "decode_str old (JStr s) = Some s"
| "decode_str old JNull = Some old"
| "decode_str old _ = None"

fun decode_elem :: "json \<Rightarrow> string option" where
  "decode_elem (JStr s) = Some s"
| "decode_elem JNull = Some []"
| "decode_elem _ = None"

fun decode_strs :: "json \<Rightarrow> string list option" where
  "decode_strs (JArr xs) = those (map decode_elem xs)"
| "decode_strs JNull = Some []"
| "decode_strs _ = None"

fun decode_uint :: "nat \<Rightarrow> 'a::len word \<Rightarrow> json \<Rightarrow> 'a word option" where
  "decode_uint bits old (JNum n) = map_option word_of_nat (parse_uint bits n)"
| "decode_uint bits old JNull = Some old"
| "decode_uint bits old _ = None"

fun decode_flag :: "bool \<Rightarrow> json \<Rightarrow> bool option" where
  "decode_flag old (JBool b) = Some b"
| "decode_flag old JNull = Some old"
| "decode_flag old _ = None"

definition metadata_fields :: "string list" where
  "metadata_fields = [''version'', ''rfc_message_id'', ''internal_date_ms'', ''sender_display'', ''sender_address'',
     ''to'', ''cc'', ''delivered_to'', ''subject'', ''labels'', ''size_estimate'', ''attachment_count'',
     ''has_attachments'', ''list_id'', ''auto_submitted'', ''precedence'', ''list_unsubscribe'', ''discovery_source'']"

definition set_field :: "string \<Rightarrow> json \<Rightarrow> canonical_metadata \<Rightarrow> canonical_metadata option" where
  "set_field f v md =
    (if f = ''version'' then map_option (\<lambda>x. md\<lparr>md_version := x\<rparr>) (decode_uint 32 (md_version md) v)
     else if f = ''rfc_message_id'' then map_option (\<lambda>x. md\<lparr>md_rfc_message_id := x\<rparr>) (decode_str (md_rfc_message_id md) v)
     else if f = ''internal_date_ms'' then map_option (\<lambda>x. md\<lparr>md_internal_date := x\<rparr>) (decode_str (md_internal_date md) v)
     else if f = ''sender_display'' then map_option (\<lambda>x. md\<lparr>md_sender_display := x\<rparr>) (decode_str (md_sender_display md) v)
     else if f = ''sender_address'' then map_option (\<lambda>x. md\<lparr>md_sender_address := x\<rparr>) (decode_str (md_sender_address md) v)
     else if f = ''to'' then map_option (\<lambda>x. md\<lparr>md_to := x\<rparr>) (decode_strs v)
     else if f = ''cc'' then map_option (\<lambda>x. md\<lparr>md_cc := x\<rparr>) (decode_strs v)
     else if f = ''delivered_to'' then map_option (\<lambda>x. md\<lparr>md_delivered_to := x\<rparr>) (decode_strs v)
     else if f = ''subject'' then map_option (\<lambda>x. md\<lparr>md_subject := x\<rparr>) (decode_str (md_subject md) v)
     else if f = ''labels'' then map_option (\<lambda>x. md\<lparr>md_labels := x\<rparr>) (decode_strs v)
     else if f = ''size_estimate'' then map_option (\<lambda>x. md\<lparr>md_size_estimate := x\<rparr>) (decode_uint 32 (md_size_estimate md) v)
     else if f = ''attachment_count'' then map_option (\<lambda>x. md\<lparr>md_attachment_count := x\<rparr>) (decode_uint 16 (md_attachment_count md) v)
     else if f = ''has_attachments'' then map_option (\<lambda>x. md\<lparr>md_has_attachments := x\<rparr>) (decode_flag (md_has_attachments md) v)
     else if f = ''list_id'' then map_option (\<lambda>x. md\<lparr>md_list_id := x\<rparr>) (decode_str (md_list_id md) v)
     else if f = ''auto_submitted'' then map_option (\<lambda>x. md\<lparr>md_auto_submitted := x\<rparr>) (decode_str (md_auto_submitted md) v)
     else if f = ''precedence'' then map_option (\<lambda>x. md\<lparr>md_precedence := x\<rparr>) (decode_str (md_precedence md) v)
     else if f = ''list_unsubscribe'' then map_option (\<lambda>x. md\<lparr>md_list_unsubscribe := x\<rparr>) (decode_flag (md_list_unsubscribe md) v)
     else if f = ''discovery_source'' then map_option (\<lambda>x. md\<lparr>md_discovery_source := x\<rparr>) (decode_str (md_discovery_source md) v)
     else None)"

fun decode_members :: "(string \<times> json) list \<Rightarrow> canonical_metadata \<Rightarrow> canonical_metadata option" where
  "decode_members [] md = Some md"
| "decode_members ((k, v) # ms) md =
    (case match_field metadata_fields k of
       None \<Rightarrow> None
     | Some f \<Rightarrow> (case set_field f v md of None \<Rightarrow> None | Some md' \<Rightarrow> decode_members ms md'))"

definition zero_metadata :: canonical_metadata where
  "zero_metadata = \<lparr>md_version = 0, md_rfc_message_id = [], md_internal_date = [], md_sender_display = [],
     md_sender_address = [], md_to = [], md_cc = [], md_delivered_to = [], md_subject = [], md_labels = [],
     md_size_estimate = 0, md_attachment_count = 0, md_has_attachments = False, md_list_id = [],
     md_auto_submitted = [], md_precedence = [], md_list_unsubscribe = False, md_discovery_source = []\<rparr>"

fun decode_metadata :: "json \<Rightarrow> canonical_metadata option" where
  "decode_metadata (JObj ms) = decode_members ms zero_metadata"
| "decode_metadata JNull = Some zero_metadata"
| "decode_metadata _ = None"

section \<open>Writing and reading records\<close>

definition record_preimage :: "string \<Rightarrow> string \<Rightarrow> string" where
  "record_preimage accountID gmailMessageID =
    messageRecordDomain @ [CHR 0x00] @ length_prefixed accountID @ length_prefixed gmailMessageID"

definition deriveRecordID :: "string \<Rightarrow> string \<Rightarrow> string" where
  "deriveRecordID accountID gmailMessageID = hex_encode (sha256 (record_preimage accountID gmailMessageID))"

definition Normalize :: "string \<Rightarrow> message_input \<Rightarrow> message res" where
  "Normalize accountID inp =
    (if \<not> mail_validAccountID accountID \<or> \<not> validVisibleASCII (mi_gmail_message_id inp) 1 255 \<or>
        \<not> validVisibleASCII (mi_gmail_thread_id inp) 1 255 \<or> sint (mi_internal_date inp) < 0
     then Inl ErrInvalidMetadata
     else if \<not> validText (mi_rfc_message_id inp) 998 \<or> \<not> validText (mi_sender_display inp) 512 \<or>
        \<not> validText (mi_sender_address inp) 512 \<or> \<not> validText (mi_subject inp) 4096 \<or>
        \<not> validText (mi_list_id inp) 512 \<or> \<not> validText (mi_auto_submitted inp) 128 \<or>
        \<not> validText (mi_precedence inp) 128
     then Inl ErrInvalidMetadata
     else case canonicalTextList (mi_to inp) 100 512 of
       None \<Rightarrow> Inl ErrInvalidMetadata
     | Some to \<Rightarrow> (case canonicalTextList (mi_cc inp) 100 512 of
         None \<Rightarrow> Inl ErrInvalidMetadata
       | Some cc \<Rightarrow> (case canonicalTextList (mi_delivered_to inp) 10 512 of
           None \<Rightarrow> Inl ErrInvalidMetadata
         | Some deliveredTo \<Rightarrow> (case canonicalLabels (mi_labels inp) of
             None \<Rightarrow> Inl ErrInvalidMetadata
           | Some labels \<Rightarrow>
               if mi_attachment_count inp > 1000 then Inl ErrInvalidMetadata
               else
                 let metadata = \<lparr>md_version = MetadataVersion1, md_rfc_message_id = mi_rfc_message_id inp,
                       md_internal_date = format_int (sint (mi_internal_date inp)),
                       md_sender_display = mi_sender_display inp, md_sender_address = mi_sender_address inp,
                       md_to = to, md_cc = cc, md_delivered_to = deliveredTo, md_subject = mi_subject inp,
                       md_labels = labels, md_size_estimate = mi_size_estimate inp,
                       md_attachment_count = mi_attachment_count inp,
                       md_has_attachments = (mi_attachment_count inp \<noteq> 0), md_list_id = mi_list_id inp,
                       md_auto_submitted = mi_auto_submitted inp, md_precedence = mi_precedence inp,
                       md_list_unsubscribe = mi_list_unsubscribe inp,
                       md_discovery_source = DiscoverySourceCurrentSync\<rparr>;
                     canonical = encodeCanonical metadata in
                 if length canonical > MaximumCanonicalJSONBytes then Inl ErrInvalidMetadata
                 else Inr \<lparr>msg_account = accountID,
                   msg_record_id = deriveRecordID accountID (mi_gmail_message_id inp),
                   msg_gmail_id = mi_gmail_message_id inp, msg_thread_id = mi_gmail_thread_id inp,
                   msg_metadata = metadata, msg_json = canonical,
                   msg_hash = hex_encode (sha256 canonical)\<rparr>))))"

text \<open>\<^verbatim>\<open>decoder.More()\<close> after the first value, and a second value that would decode.\<close>

definition more_input :: "string \<Rightarrow> bool" where
  "more_input r = (case skip_ws r of [] \<Rightarrow> False | c # _ \<Rightarrow> c \<noteq> CHR '']'' \<and> c \<noteq> CHR ''}'')"

definition metadata_input :: "string \<Rightarrow> string \<Rightarrow> int \<Rightarrow> canonical_metadata \<Rightarrow> message_input" where
  "metadata_input gmailMessageID gmailThreadID internalDate md =
    \<lparr>mi_gmail_message_id = gmailMessageID, mi_gmail_thread_id = gmailThreadID,
     mi_rfc_message_id = md_rfc_message_id md, mi_internal_date = word_of_int internalDate,
     mi_sender_display = md_sender_display md, mi_sender_address = md_sender_address md,
     mi_to = md_to md, mi_cc = md_cc md, mi_delivered_to = md_delivered_to md, mi_subject = md_subject md,
     mi_labels = md_labels md, mi_size_estimate = md_size_estimate md,
     mi_attachment_count = md_attachment_count md, mi_list_id = md_list_id md,
     mi_auto_submitted = md_auto_submitted md, mi_precedence = md_precedence md,
     mi_list_unsubscribe = md_list_unsubscribe md\<rparr>"

definition DecodeCanonical :: "string \<Rightarrow> string \<Rightarrow> string \<Rightarrow> u32 \<Rightarrow> string \<Rightarrow> string \<Rightarrow> message res" where
  "DecodeCanonical accountID gmailMessageID gmailThreadID version body hashText =
    (if version \<noteq> MetadataVersion1 \<or> length body = 0 \<or> length body > MaximumCanonicalJSONBytes \<or>
        \<not> valid_utf8 body \<or> \<not> validLowerHex hashText 64
     then Inl ErrInvalidMetadata
     else case json_value body of
       None \<Rightarrow> Inl ErrInvalidMetadata
     | Some (v, rest) \<Rightarrow> (case decode_metadata v of
         None \<Rightarrow> Inl ErrInvalidMetadata
       | Some md \<Rightarrow>
           if more_input rest \<or> json_value rest \<noteq> None then Inl ErrInvalidMetadata
           else (case parse_int64 (md_internal_date md) of
             None \<Rightarrow> Inl ErrInvalidMetadata
           | Some internalDate \<Rightarrow>
               if internalDate < 0 \<or> format_int internalDate \<noteq> md_internal_date md \<or> md_version md \<noteq> version \<or>
                  md_discovery_source md \<noteq> DiscoverySourceCurrentSync \<or>
                  md_has_attachments md \<noteq> (md_attachment_count md \<noteq> 0)
               then Inl ErrInvalidMetadata
               else (case Normalize accountID (metadata_input gmailMessageID gmailThreadID internalDate md) of
                 Inl _ \<Rightarrow> Inl ErrInvalidMetadata
               | Inr m \<Rightarrow> if msg_json m \<noteq> body \<or> msg_hash m \<noteq> hashText then Inl ErrInvalidMetadata else Inr m))))"

definition message_equal :: "message \<Rightarrow> message \<Rightarrow> bool" where
  "message_equal a b \<longleftrightarrow> msg_account a = msg_account b \<and> msg_record_id a = msg_record_id b \<and>
     msg_gmail_id a = msg_gmail_id b \<and> msg_thread_id a = msg_thread_id b \<and> msg_hash a = msg_hash b \<and>
     msg_json a = msg_json b"

definition message_valid :: "message \<Rightarrow> bool" where
  "message_valid m =
    (case DecodeCanonical (msg_account m) (msg_gmail_id m) (msg_thread_id m) (md_version (msg_metadata m))
            (msg_json m) (msg_hash m) of
       Inl _ \<Rightarrow> False
     | Inr d \<Rightarrow> msg_record_id d = msg_record_id m \<and> message_equal m d)"

definition MutableMetadataEqual :: "message \<Rightarrow> message \<Rightarrow> bool" where
  "MutableMetadataEqual a b \<longleftrightarrow> msg_hash a = msg_hash b \<and> msg_json a = msg_json b"

definition InternalDateUnixMS :: "message \<Rightarrow> int" where
  "InternalDateUnixMS m = (case parse_int64 (md_internal_date (msg_metadata m)) of None \<Rightarrow> 0 | Some i \<Rightarrow> i)"

section \<open>Gate projection\<close>

record gate_projection =
  gp_sender_address :: string
  gp_to :: "string list"
  gp_cc :: "string list"
  gp_delivered_to :: "string list"
  gp_subject :: string
  gp_labels :: "string list"
  gp_list_id :: string
  gp_list_unsubscribe :: bool
  gp_auto_submitted :: string
  gp_precedence :: string

definition GateProjection :: "message \<Rightarrow> gate_projection res" where
  "GateProjection m =
    (if \<not> message_valid m then Inl ErrInvalidMetadata
     else let md = msg_metadata m in
       Inr \<lparr>gp_sender_address = md_sender_address md, gp_to = md_to md, gp_cc = md_cc md,
         gp_delivered_to = md_delivered_to md, gp_subject = md_subject md, gp_labels = md_labels md,
         gp_list_id = md_list_id md, gp_list_unsubscribe = md_list_unsubscribe md,
         gp_auto_submitted = md_auto_submitted md, gp_precedence = md_precedence md\<rparr>)"

section \<open>The writer's output is read back\<close>

lemma sort_compact_strict: "sorted_wrt (<) (sort_compact xs)"
  by (simp add: sort_compact_def sorted_remdups_adj_strict)

lemma sort_compact_idem [simp]: "sort_compact (sort_compact xs) = sort_compact xs"
proof -
  have "sorted (sort_compact xs)" using sort_compact_strict strict_sorted_iff by blast
  then have "sort (sort_compact xs) = sort_compact xs" by (rule sorted_sort_id)
  then show ?thesis
    unfolding sort_compact_def [of "sort_compact xs"]
    by (simp add: remdups_adj_strict sort_compact_strict)
qed

lemma set_sort_compact [simp]: "set (sort_compact xs) = set xs"
  by (simp add: sort_compact_def)

lemma sort_compact_cong: "set xs = set ys \<Longrightarrow> sort_compact xs = sort_compact ys"
  by (intro sort_strict_unique) (simp_all add: sort_compact_strict)

lemma length_sort_compact: "length (sort_compact xs) \<le> length xs"
  unfolding sort_compact_def using remdups_adj_length [of "sort xs"] by simp

lemma canonicalTextList_Some:
  "canonicalTextList xs n b = Some ys \<longleftrightarrow> ys = sort_compact xs \<and> length xs \<le> n \<and> list_all (\<lambda>v. validText v b) xs"
  by (auto simp: canonicalTextList_def)

lemma canonicalTextList_again:
  "canonicalTextList xs n b = Some ys \<Longrightarrow> canonicalTextList ys n b = Some ys"
  using length_sort_compact [of xs] by (auto simp: canonicalTextList_Some list_all_iff)

lemma canonicalLabels_Some:
  "canonicalLabels xs = Some ys \<longleftrightarrow> ys = sort_compact xs \<and> length ys \<le> 128 \<and> list_all (\<lambda>v. validVisibleASCII v 1 128) xs"
  by (auto simp: canonicalLabels_def Let_def)

lemma canonicalLabels_again: "canonicalLabels xs = Some ys \<Longrightarrow> canonicalLabels ys = Some ys"
  by (auto simp: canonicalLabels_Some list_all_iff)

lemma validText_utf8: "validText s n \<Longrightarrow> valid_utf8 s"
  by (simp add: validText_def split: if_splits)

lemma visible_utf8: "validVisibleASCII s a b \<Longrightarrow> valid_utf8 s"
  by (rule valid_utf8_ascii) (auto simp: validVisibleASCII_def in_range_def list_all_iff split: if_splits)

text \<open>The checks of \<open>Normalize\<close> and the record it builds, separated.\<close>

definition normal_metadata :: "message_input \<Rightarrow> canonical_metadata" where
  "normal_metadata inp =
    \<lparr>md_version = MetadataVersion1, md_rfc_message_id = mi_rfc_message_id inp,
     md_internal_date = format_int (sint (mi_internal_date inp)),
     md_sender_display = mi_sender_display inp, md_sender_address = mi_sender_address inp,
     md_to = sort_compact (mi_to inp), md_cc = sort_compact (mi_cc inp),
     md_delivered_to = sort_compact (mi_delivered_to inp), md_subject = mi_subject inp,
     md_labels = sort_compact (mi_labels inp), md_size_estimate = mi_size_estimate inp,
     md_attachment_count = mi_attachment_count inp,
     md_has_attachments = (mi_attachment_count inp \<noteq> 0), md_list_id = mi_list_id inp,
     md_auto_submitted = mi_auto_submitted inp, md_precedence = mi_precedence inp,
     md_list_unsubscribe = mi_list_unsubscribe inp, md_discovery_source = DiscoverySourceCurrentSync\<rparr>"

definition normal_message :: "string \<Rightarrow> message_input \<Rightarrow> message" where
  "normal_message a inp = (let json = encodeCanonical (normal_metadata inp) in
    \<lparr>msg_account = a, msg_record_id = deriveRecordID a (mi_gmail_message_id inp),
     msg_gmail_id = mi_gmail_message_id inp, msg_thread_id = mi_gmail_thread_id inp,
     msg_metadata = normal_metadata inp, msg_json = json, msg_hash = hex_encode (sha256 json)\<rparr>)"

definition normal_ok :: "string \<Rightarrow> message_input \<Rightarrow> bool" where
  "normal_ok a inp \<longleftrightarrow>
    mail_validAccountID a \<and> validVisibleASCII (mi_gmail_message_id inp) 1 255 \<and>
    validVisibleASCII (mi_gmail_thread_id inp) 1 255 \<and> 0 \<le> sint (mi_internal_date inp) \<and>
    validText (mi_rfc_message_id inp) 998 \<and> validText (mi_sender_display inp) 512 \<and>
    validText (mi_sender_address inp) 512 \<and> validText (mi_subject inp) 4096 \<and>
    validText (mi_list_id inp) 512 \<and> validText (mi_auto_submitted inp) 128 \<and> validText (mi_precedence inp) 128 \<and>
    canonicalTextList (mi_to inp) 100 512 = Some (sort_compact (mi_to inp)) \<and>
    canonicalTextList (mi_cc inp) 100 512 = Some (sort_compact (mi_cc inp)) \<and>
    canonicalTextList (mi_delivered_to inp) 10 512 = Some (sort_compact (mi_delivered_to inp)) \<and>
    canonicalLabels (mi_labels inp) = Some (sort_compact (mi_labels inp)) \<and>
    mi_attachment_count inp \<le> 1000 \<and>
    length (encodeCanonical (normal_metadata inp)) \<le> MaximumCanonicalJSONBytes"

lemma canonicalTextList_cases:
  "canonicalTextList xs n b = None \<or> canonicalTextList xs n b = Some (sort_compact xs)"
  by (simp add: canonicalTextList_def)

lemma canonicalLabels_cases: "canonicalLabels xs = None \<or> canonicalLabels xs = Some (sort_compact xs)"
  by (simp add: canonicalLabels_def Let_def)

lemma Normalize_eq:
  "Normalize a inp = (if normal_ok a inp then Inr (normal_message a inp) else Inl ErrInvalidMetadata)"
  using canonicalTextList_cases [of "mi_to inp" 100 512] canonicalTextList_cases [of "mi_cc inp" 100 512]
    canonicalTextList_cases [of "mi_delivered_to inp" 10 512] canonicalLabels_cases [of "mi_labels inp"]
  unfolding Normalize_def normal_ok_def normal_message_def normal_metadata_def Let_def
  by (elim disjE; simp add: linorder_not_le linorder_not_less)

lemma Normalize_Inr: "Normalize a inp = Inr m \<longleftrightarrow> normal_ok a inp \<and> m = normal_message a inp"
  by (auto simp: Normalize_eq)

text \<open>Decoding the JSON of a metadata value gives the value.\<close>

lemma those_JStr [simp]: "those (map (decode_elem \<circ> JStr) xs) = Some xs"
  by (induction xs) simp_all

lemma parse_uint_print [simp]:
  "parse_uint 32 (format_uint (unat (w :: u32))) = Some (unat w)"
  "parse_uint 16 (format_uint (unat (v :: u16))) = Some (unat v)"
  using unsigned_less [of w, where 'a = nat] unsigned_less [of v, where 'a = nat]
  by (simp_all add: parse_format_uint)

lemma decode_metadata_json: "decode_metadata (metadata_json md) = Some md"
  by (simp add: metadata_json_def json_strings_def metadata_fields_def set_field_def zero_metadata_def)

lemma json_strings_wf: "list_all valid_utf8 xs \<Longrightarrow> json_wf (json_strings xs)"
  by (simp add: json_strings_def list_all_iff)

definition metadata_utf8 :: "canonical_metadata \<Rightarrow> bool" where
  "metadata_utf8 md \<longleftrightarrow> valid_utf8 (md_rfc_message_id md) \<and> valid_utf8 (md_internal_date md) \<and>
    valid_utf8 (md_sender_display md) \<and> valid_utf8 (md_sender_address md) \<and> list_all valid_utf8 (md_to md) \<and>
    list_all valid_utf8 (md_cc md) \<and> list_all valid_utf8 (md_delivered_to md) \<and> valid_utf8 (md_subject md) \<and>
    list_all valid_utf8 (md_labels md) \<and> valid_utf8 (md_list_id md) \<and> valid_utf8 (md_auto_submitted md) \<and>
    valid_utf8 (md_precedence md) \<and> valid_utf8 (md_discovery_source md)"

lemma metadata_json_wf: "metadata_utf8 md \<Longrightarrow> json_wf (metadata_json md)"
  by (simp add: metadata_json_def metadata_utf8_def json_strings_wf valid_utf8_ascii)

lemma format_int_utf8: "0 \<le> i \<Longrightarrow> valid_utf8 (format_int i)"
  by (simp add: format_int_def format_uint_ascii valid_utf8_ascii)

lemma normal_utf8: "normal_ok a inp \<Longrightarrow> metadata_utf8 (normal_metadata inp)"
  by (auto simp: normal_ok_def normal_metadata_def metadata_utf8_def canonicalTextList_Some
      canonicalLabels_Some list_all_iff valid_utf8_ascii format_int_utf8 DiscoverySourceCurrentSync_def
      dest!: validText_utf8 intro: validText_utf8 visible_utf8)

lemma sint_bound: "sint (w :: i64) < 2 ^ 63"
  using sint_range_size [of w] by (simp add: word_size)

lemma normal_metadata_input:
  "normal_metadata (metadata_input g t (sint (mi_internal_date inp)) (normal_metadata inp)) = normal_metadata inp"
  by (simp add: normal_metadata_def metadata_input_def)

lemma normal_ok_input:
  "normal_ok a inp \<Longrightarrow>
    normal_ok a (metadata_input (mi_gmail_message_id inp) (mi_gmail_thread_id inp)
      (sint (mi_internal_date inp)) (normal_metadata inp))"
  unfolding normal_ok_def normal_metadata_input
  by (auto simp: metadata_input_def normal_metadata_def dest: canonicalTextList_again canonicalLabels_again)

lemma normal_message_input:
  "normal_message a (metadata_input (mi_gmail_message_id inp) (mi_gmail_thread_id inp)
      (sint (mi_internal_date inp)) (normal_metadata inp)) = normal_message a inp"
  unfolding normal_message_def normal_metadata_input by (simp add: metadata_input_def Let_def)

lemma validLowerHex_sha256: "validLowerHex (hex_encode (sha256 s)) 64"
  by (simp add: validLowerHex_def hex_encode_chars)

lemma json_print_JObj_nonempty: "json_print h (JObj ms) \<noteq> []"
  by simp

lemma decode_normal_message:
  assumes ok: "normal_ok a inp"
  shows "DecodeCanonical a (mi_gmail_message_id inp) (mi_gmail_thread_id inp) MetadataVersion1
    (encodeCanonical (normal_metadata inp)) (hex_encode (sha256 (encodeCanonical (normal_metadata inp))))
    = Inr (normal_message a inp)"
proof -
  let ?md = "normal_metadata inp" and ?body = "encodeCanonical (normal_metadata inp)"
  have wf: "json_wf (metadata_json ?md)" using metadata_json_wf normal_utf8 [OF ok] by blast
  have parsed: "json_value ?body = Some (metadata_json ?md, [])"
    using json_value_roundtrip(1) [OF wf, of "[]" False] by (simp add: encodeCanonical_def delimited_def)
  have utf8: "valid_utf8 ?body" using json_print_utf8(1) [OF wf] by (simp add: encodeCanonical_def)
  have ne: "?body \<noteq> []" by (simp add: encodeCanonical_def metadata_json_def)
  have none: "json_value [] = None" by (simp add: json_value.simps)
  have date: "parse_int64 (md_internal_date ?md) = Some (sint (mi_internal_date inp))"
    using ok parse_format_int [of "sint (mi_internal_date inp)"] sint_bound
    by (simp add: normal_metadata_def normal_ok_def)
  have fields: "md_version ?md = MetadataVersion1" "md_discovery_source ?md = DiscoverySourceCurrentSync"
    "md_has_attachments ?md \<longleftrightarrow> md_attachment_count ?md \<noteq> 0"
    "format_int (sint (mi_internal_date inp)) = md_internal_date ?md" "\<not> sint (mi_internal_date inp) < 0"
    "\<not> MaximumCanonicalJSONBytes < length ?body"
    using ok by (simp_all add: normal_metadata_def normal_ok_def)
  have again: "Normalize a (metadata_input (mi_gmail_message_id inp) (mi_gmail_thread_id inp)
      (sint (mi_internal_date inp)) ?md) = Inr (normal_message a inp)"
    using normal_ok_input [OF ok] by (simp add: Normalize_Inr normal_message_input)
  have proj: "msg_json (normal_message a inp) = ?body"
    "msg_hash (normal_message a inp) = hex_encode (sha256 ?body)"
    by (simp_all add: normal_message_def Let_def)
  show ?thesis
    unfolding DecodeCanonical_def
    using ne utf8 parsed fields date again proj none
    by (simp add: validLowerHex_sha256 decode_metadata_json more_input_def)
qed

text \<open>A record accepted by the reader is one the writer produces.\<close>

lemma DecodeCanonical_Inr_Normalize:
  assumes "DecodeCanonical a g t v body h = Inr m"
  shows "\<exists>inp. Normalize a inp = Inr m \<and> mi_gmail_message_id inp = g \<and> mi_gmail_thread_id inp = t \<and>
    msg_json m = body \<and> msg_hash m = h \<and> v = MetadataVersion1"
  using assms
  by (auto simp: DecodeCanonical_def metadata_input_def split: if_splits option.splits prod.splits sum.splits)

lemma DecodeCanonical_iff:
  "DecodeCanonical a g t v body h = Inr m \<longleftrightarrow> v = MetadataVersion1 \<and>
    (\<exists>inp. Normalize a inp = Inr m \<and> mi_gmail_message_id inp = g \<and> mi_gmail_thread_id inp = t \<and>
      msg_json m = body \<and> msg_hash m = h)"
proof
  assume "v = MetadataVersion1 \<and> (\<exists>inp. Normalize a inp = Inr m \<and> mi_gmail_message_id inp = g \<and>
    mi_gmail_thread_id inp = t \<and> msg_json m = body \<and> msg_hash m = h)"
  then obtain inp where "v = MetadataVersion1" "normal_ok a inp" "m = normal_message a inp"
    "mi_gmail_message_id inp = g" "mi_gmail_thread_id inp = t" "msg_json m = body" "msg_hash m = h"
    by (auto simp: Normalize_Inr)
  then show "DecodeCanonical a g t v body h = Inr m"
    using decode_normal_message [of a inp] by (simp add: normal_message_def Let_def)
qed (use DecodeCanonical_Inr_Normalize in blast)

lemma DecodeCanonical_error: "DecodeCanonical a g t v body h = Inl e \<Longrightarrow> e = ErrInvalidMetadata"
  by (auto simp: DecodeCanonical_def split: if_splits option.splits prod.splits sum.splits)

lemma Normalize_fields:
  assumes "Normalize a inp = Inr m"
  shows "msg_account m = a" "msg_record_id m = deriveRecordID a (mi_gmail_message_id inp)"
    "msg_gmail_id m = mi_gmail_message_id inp" "msg_thread_id m = mi_gmail_thread_id inp"
    "msg_hash m = hex_encode (sha256 (msg_json m))" "md_version (msg_metadata m) = MetadataVersion1"
    "msg_json m = encodeCanonical (msg_metadata m)"
  using assms by (auto simp: Normalize_Inr normal_message_def normal_metadata_def Let_def)

lemma Normalize_valid [validity]: "Normalize a inp = Inr m \<Longrightarrow> message_valid m"
proof -
  assume n: "Normalize a inp = Inr m"
  then have "DecodeCanonical (msg_account m) (msg_gmail_id m) (msg_thread_id m) (md_version (msg_metadata m))
      (msg_json m) (msg_hash m) = Inr m"
    by (auto simp: DecodeCanonical_iff Normalize_fields)
  then show ?thesis by (simp add: message_valid_def message_equal_def)
qed

text \<open>A valid message agrees on every durable field with one that \<open>Normalize\<close> built.\<close>

lemma message_valid_normal:
  assumes "message_valid m"
  obtains inp d where "Normalize (msg_account m) inp = Inr d" "mi_gmail_message_id inp = msg_gmail_id m"
    "message_equal m d"
proof -
  obtain d where d: "DecodeCanonical (msg_account m) (msg_gmail_id m) (msg_thread_id m)
      (md_version (msg_metadata m)) (msg_json m) (msg_hash m) = Inr d" "message_equal m d"
    using assms by (auto simp: message_valid_def split: sum.splits)
  then show thesis using that DecodeCanonical_Inr_Normalize [OF d(1)] by blast
qed

lemma message_valid_fields:
  assumes "message_valid m"
  shows "mail_validAccountID (msg_account m)" "validVisibleASCII (msg_gmail_id m) 1 255"
    "validVisibleASCII (msg_thread_id m) 1 255" "msg_record_id m = deriveRecordID (msg_account m) (msg_gmail_id m)"
    "msg_hash m = hex_encode (sha256 (msg_json m))" "length (msg_json m) \<le> MaximumCanonicalJSONBytes"
    "md_version (msg_metadata m) = MetadataVersion1"
proof -
  obtain inp d where n: "Normalize (msg_account m) inp = Inr d" and g: "mi_gmail_message_id inp = msg_gmail_id m"
    and e: "message_equal m d"
    using message_valid_normal [OF assms] by blast
  from n have ok: "normal_ok (msg_account m) inp" and d: "d = normal_message (msg_account m) inp"
    by (simp_all add: Normalize_Inr)
  show "mail_validAccountID (msg_account m)" "validVisibleASCII (msg_gmail_id m) 1 255"
    "length (msg_json m) \<le> MaximumCanonicalJSONBytes" "validVisibleASCII (msg_thread_id m) 1 255"
    using ok g e d by (auto simp: normal_ok_def message_equal_def normal_message_def Let_def)
  show "msg_record_id m = deriveRecordID (msg_account m) (msg_gmail_id m)"
    "msg_hash m = hex_encode (sha256 (msg_json m))"
    using Normalize_fields [OF n] g e by (auto simp: message_equal_def)
  show "md_version (msg_metadata m) = MetadataVersion1"
    using assms by (auto simp: message_valid_def DecodeCanonical_def split: if_splits)
qed

lemma message_equal_refl [simp]: "message_equal m m"
  by (simp add: message_equal_def)

lemma message_equal_sym: "message_equal a b \<Longrightarrow> message_equal b a"
  by (simp add: message_equal_def)

lemma message_equal_trans: "message_equal a b \<Longrightarrow> message_equal b c \<Longrightarrow> message_equal a c"
  by (simp add: message_equal_def)

text \<open>Different accounts or message identifiers give different inputs to the record hash.\<close>

lemma record_preimage_inject:
  assumes "length a < 2 ^ 32" and "length g < 2 ^ 32" and "length a' < 2 ^ 32" and "length g' < 2 ^ 32"
  shows "record_preimage a g = record_preimage a' g' \<longleftrightarrow> a = a' \<and> g = g'"
  using assms lp.penc_inject [of g g'] lp.penc_append_inject [of a a' "length_prefixed g" "length_prefixed g'"]
  by (auto simp: record_preimage_def)

end
