(* ===== verification/Mail_Content.thy ===== *)
theory Mail_Content
  imports Mail_Message
begin

text \<open>
  \<^verbatim>\<open>internal/mail/candidate_content.go\<close>: one sanitized excerpt of a candidate message, bound to
  the metadata and the gate decision it was extracted for, with its content hash and the
  revision used for compare-and-swap.
\<close>

definition CandidateExtractorVersion1 :: u32 where
  "CandidateExtractorVersion1 = 1"

definition MinimumExcerptBytes :: int where
  "MinimumExcerptBytes = 1024"

definition MaximumExcerptBytes :: int where
  "MaximumExcerptBytes = 65536"

definition MaximumContentFetchedAtUnixMS :: int where
  "MaximumContentFetchedAtUnixMS = 253402300799999"

definition candidateContentHashDomain :: string where
  "candidateContentHashDomain = ''inboxgate/candidate-content/v1''"

text \<open>The source kind is a string type with two legal values.\<close>

definition CandidateSourceTextPlain :: string where
  "CandidateSourceTextPlain = ''text_plain''"

definition CandidateSourceTextHTML :: string where
  "CandidateSourceTextHTML = ''text_html''"

definition source_kind_valid :: "string \<Rightarrow> bool" where
  "source_kind_valid k \<longleftrightarrow> k = CandidateSourceTextPlain \<or> k = CandidateSourceTextHTML"

record candidate_content_input =
  ci_record_id :: string
  ci_source_hash :: string
  ci_gate_version :: u32
  ci_gate_input_hash :: string
  ci_source_kind :: string
  ci_excerpt :: string
  ci_excerpt_limit :: int
  ci_truncated :: bool
  ci_fetched_at :: int

record candidate_content =
  cc_extractor_version :: u32
  cc_record_id :: string
  cc_source_hash :: string
  cc_gate_version :: u32
  cc_gate_input_hash :: string
  cc_source_kind :: string
  cc_excerpt :: string
  cc_excerpt_bytes :: int
  cc_excerpt_limit :: int
  cc_truncated :: bool
  cc_content_hash :: string
  cc_fetched_at :: int

record candidate_content_revision =
  cr_extractor_version :: u32
  cr_source_hash :: string
  cr_gate_input_hash :: string
  cr_excerpt_limit :: int
  cr_content_hash :: string

definition unsafeCandidateExcerptRune :: "rune \<Rightarrow> bool" where
  "unsafeCandidateExcerptRune v \<longleftrightarrow>
     v \<in> {0x00ad, 0x061c, 0x200b, 0x200c, 0x200d, 0x200e, 0x200f, 0x2060, 0xfeff} \<or>
     0x202a \<le> v \<and> v \<le> 0x202e \<or> 0x2066 \<le> v \<and> v \<le> 0x2069 \<or> 0xfe00 \<le> v \<and> v \<le> 0xfe0f \<or>
     0xe0100 \<le> v \<and> v \<le> 0xe01ef"

definition canonicalCandidateExcerpt :: "string \<Rightarrow> bool" where
  "canonicalCandidateExcerpt value =
    (if value = [] \<or> \<not> valid_utf8 value \<or> trim_space value \<noteq> value \<or>
        contains value [CHR 0x0A, CHR 0x0A, CHR 0x0A]
     then False
     else if \<not> list_all (\<lambda>line. trim_right_blank line = line) (split_on (CHR 0x0A) value) then False
     else list_all (\<lambda>r. \<not> (r \<noteq> 0x0A \<and> r \<noteq> 0x09 \<and> is_control r \<or> unsafeCandidateExcerptRune r)) (runes value))"

definition validCandidateContentInput :: "candidate_content_input \<Rightarrow> bool" where
  "validCandidateContentInput i \<longleftrightarrow>
     validLowerHex (ci_record_id i) 64 \<and> validLowerHex (ci_source_hash i) 64 \<and> ci_gate_version i > 0 \<and>
     validLowerHex (ci_gate_input_hash i) 64 \<and> source_kind_valid (ci_source_kind i) \<and> ci_excerpt i \<noteq> [] \<and>
     canonicalCandidateExcerpt (ci_excerpt i) \<and>
     ci_excerpt_limit i \<ge> MinimumExcerptBytes \<and> ci_excerpt_limit i \<le> MaximumExcerptBytes \<and>
     int (length (ci_excerpt i)) \<le> ci_excerpt_limit i \<and>
     ci_fetched_at i \<ge> 0 \<and> ci_fetched_at i \<le> MaximumContentFetchedAtUnixMS"

definition content_preimage :: "u32 \<Rightarrow> u32 \<Rightarrow> string \<Rightarrow> int \<Rightarrow> bool \<Rightarrow> string \<Rightarrow> string" where
  "content_preimage extractorVersion gateVersion kind limit truncated excerpt =
    candidateContentHashDomain @ [CHR 0x00] @ be32 extractorVersion @ be32 gateVersion @
    length_prefixed kind @ be32 (word_of_int limit) @ [if truncated then CHR 0x01 else CHR 0x00] @
    length_prefixed excerpt"

definition deriveCandidateContentHash :: "u32 \<Rightarrow> u32 \<Rightarrow> string \<Rightarrow> int \<Rightarrow> bool \<Rightarrow> string \<Rightarrow> string" where
  "deriveCandidateContentHash extractorVersion gateVersion kind limit truncated excerpt =
    hex_encode (sha256 (content_preimage extractorVersion gateVersion kind limit truncated excerpt))"

definition NewCandidateContent :: "candidate_content_input \<Rightarrow> candidate_content res" where
  "NewCandidateContent i =
    (if \<not> validCandidateContentInput i then Inl ErrInvalidCandidateContent
     else Inr \<lparr>cc_extractor_version = CandidateExtractorVersion1, cc_record_id = ci_record_id i,
       cc_source_hash = ci_source_hash i, cc_gate_version = ci_gate_version i,
       cc_gate_input_hash = ci_gate_input_hash i, cc_source_kind = ci_source_kind i, cc_excerpt = ci_excerpt i,
       cc_excerpt_bytes = int (length (ci_excerpt i)), cc_excerpt_limit = ci_excerpt_limit i,
       cc_truncated = ci_truncated i,
       cc_content_hash = deriveCandidateContentHash CandidateExtractorVersion1 (ci_gate_version i)
         (ci_source_kind i) (ci_excerpt_limit i) (ci_truncated i) (ci_excerpt i),
       cc_fetched_at = ci_fetched_at i\<rparr>)"

definition DecodeCandidateContent ::
  "int \<Rightarrow> string \<Rightarrow> string \<Rightarrow> int \<Rightarrow> string \<Rightarrow> string \<Rightarrow> string \<Rightarrow> int \<Rightarrow> int \<Rightarrow> int \<Rightarrow> string \<Rightarrow> int \<Rightarrow> candidate_content res"
  where
  "DecodeCandidateContent extractorVersion recordID sourceHash gateVersion gateInputHash sourceKind excerpt
      excerptBytes excerptLimit truncated contentHash fetchedAt =
    (if extractorVersion \<noteq> uint CandidateExtractorVersion1 \<or> gateVersion < 1 \<or> gateVersion > 2 ^ 32 - 1 \<or>
        excerptBytes < 0 \<or> excerptBytes > MaximumExcerptBytes \<or> excerptLimit < MinimumExcerptBytes \<or>
        excerptLimit > MaximumExcerptBytes \<or> (truncated \<noteq> 0 \<and> truncated \<noteq> 1) \<or> \<not> validLowerHex contentHash 64
     then Inl ErrInvalidCandidateContent
     else case NewCandidateContent
         \<lparr>ci_record_id = recordID, ci_source_hash = sourceHash, ci_gate_version = word_of_int gateVersion,
          ci_gate_input_hash = gateInputHash, ci_source_kind = sourceKind, ci_excerpt = excerpt,
          ci_excerpt_limit = excerptLimit, ci_truncated = (truncated = 1), ci_fetched_at = fetchedAt\<rparr> of
       Inl _ \<Rightarrow> Inl ErrInvalidCandidateContent
     | Inr c \<Rightarrow> if cc_excerpt_bytes c \<noteq> excerptBytes \<or> cc_content_hash c \<noteq> contentHash
         then Inl ErrInvalidCandidateContent else Inr c)"

definition bool_to_integer :: "bool \<Rightarrow> int" where
  "bool_to_integer b = (if b then 1 else 0)"

definition redecode_content :: "candidate_content \<Rightarrow> candidate_content res" where
  "redecode_content c = DecodeCandidateContent (uint (cc_extractor_version c)) (cc_record_id c) (cc_source_hash c)
     (uint (cc_gate_version c)) (cc_gate_input_hash c) (cc_source_kind c) (cc_excerpt c) (cc_excerpt_bytes c)
     (cc_excerpt_limit c) (bool_to_integer (cc_truncated c)) (cc_content_hash c) (cc_fetched_at c)"

text \<open>\<^verbatim>\<open>Equal\<close> compares every field, \<^verbatim>\<open>SemanticEqual\<close> every field but the fetch time.\<close>

definition content_equal :: "candidate_content \<Rightarrow> candidate_content \<Rightarrow> bool" where
  "content_equal a b \<longleftrightarrow> a = b"

definition content_semantic_equal :: "candidate_content \<Rightarrow> candidate_content \<Rightarrow> bool" where
  "content_semantic_equal a b \<longleftrightarrow> a\<lparr>cc_fetched_at := 0\<rparr> = b\<lparr>cc_fetched_at := 0\<rparr>"

definition content_valid :: "candidate_content \<Rightarrow> bool" where
  "content_valid c = (case redecode_content c of Inl _ \<Rightarrow> False | Inr d \<Rightarrow> content_equal c d)"

definition content_revision :: "candidate_content \<Rightarrow> candidate_content_revision" where
  "content_revision c = \<lparr>cr_extractor_version = cc_extractor_version c, cr_source_hash = cc_source_hash c,
     cr_gate_input_hash = cc_gate_input_hash c, cr_excerpt_limit = cc_excerpt_limit c,
     cr_content_hash = cc_content_hash c\<rparr>"

definition content_revision_valid :: "candidate_content_revision \<Rightarrow> bool" where
  "content_revision_valid r \<longleftrightarrow> cr_extractor_version r = CandidateExtractorVersion1 \<and>
     validLowerHex (cr_source_hash r) 64 \<and> validLowerHex (cr_gate_input_hash r) 64 \<and>
     cr_excerpt_limit r \<ge> MinimumExcerptBytes \<and> cr_excerpt_limit r \<le> MaximumExcerptBytes \<and>
     validLowerHex (cr_content_hash r) 64"

section \<open>Facts\<close>

lemma NewCandidateContent_Inr:
  "NewCandidateContent i = Inr c \<Longrightarrow> validCandidateContentInput i"
  by (auto simp: NewCandidateContent_def split: if_splits)

lemma uint_u32_bound: "uint (w :: u32) \<le> 2 ^ 32 - 1"
  using uint_bounded [of w] by simp

lemma uint_u32_pos: "(w :: u32) > 0 \<Longrightarrow> 1 \<le> uint w"
  by (simp add: word_less_def int_one_le_iff_zero_less)

lemma redecode_new: "NewCandidateContent i = Inr c \<Longrightarrow> redecode_content c = Inr c"
proof -
  assume n: "NewCandidateContent i = Inr c"
  note v = NewCandidateContent_Inr [OF n]
  from n v have c: "c = \<lparr>cc_extractor_version = CandidateExtractorVersion1, cc_record_id = ci_record_id i,
       cc_source_hash = ci_source_hash i, cc_gate_version = ci_gate_version i,
       cc_gate_input_hash = ci_gate_input_hash i, cc_source_kind = ci_source_kind i, cc_excerpt = ci_excerpt i,
       cc_excerpt_bytes = int (length (ci_excerpt i)), cc_excerpt_limit = ci_excerpt_limit i,
       cc_truncated = ci_truncated i,
       cc_content_hash = deriveCandidateContentHash CandidateExtractorVersion1 (ci_gate_version i)
         (ci_source_kind i) (ci_excerpt_limit i) (ci_truncated i) (ci_excerpt i),
       cc_fetched_at = ci_fetched_at i\<rparr>"
    by (simp add: NewCandidateContent_def)
  have same: "\<lparr>ci_record_id = ci_record_id i, ci_source_hash = ci_source_hash i, ci_gate_version = ci_gate_version i,
      ci_gate_input_hash = ci_gate_input_hash i, ci_source_kind = ci_source_kind i, ci_excerpt = ci_excerpt i,
      ci_excerpt_limit = ci_excerpt_limit i, ci_truncated = ci_truncated i, ci_fetched_at = ci_fetched_at i\<rparr> = i"
    by simp
  have hash: "validLowerHex (cc_content_hash c) 64"
    by (simp add: c deriveCandidateContentHash_def validLowerHex_sha256)
  have bnds: "1 \<le> uint (ci_gate_version i)" "uint (ci_gate_version i) \<le> 2 ^ 32 - 1"
    "int (length (ci_excerpt i)) \<le> MaximumExcerptBytes" "MinimumExcerptBytes \<le> ci_excerpt_limit i"
    "ci_excerpt_limit i \<le> MaximumExcerptBytes"
    using v uint_u32_pos [of "ci_gate_version i"] uint_u32_bound [of "ci_gate_version i"]
    by (auto simp: validCandidateContentInput_def)
  have flag: "(bool_to_integer (ci_truncated i) = 1) = ci_truncated i"
    "bool_to_integer (ci_truncated i) \<noteq> 0 \<Longrightarrow> bool_to_integer (ci_truncated i) = 1"
    by (auto simp: bool_to_integer_def split: if_splits)
  show ?thesis
    unfolding redecode_content_def DecodeCandidateContent_def
    using bnds hash flag n by (auto simp: c same)
qed

lemma NewCandidateContent_valid [validity]: "NewCandidateContent i = Inr c \<Longrightarrow> content_valid c"
  by (simp add: content_valid_def redecode_new content_equal_def)

lemma DecodeCandidateContent_new:
  "DecodeCandidateContent ev r s gv gi k x xb xl t h f = Inr c \<Longrightarrow>
    \<exists>i. NewCandidateContent i = Inr c \<and> cc_record_id c = r \<and> cc_source_hash c = s \<and> uint (cc_gate_version c) = gv \<and>
      cc_gate_input_hash c = gi \<and> cc_source_kind c = k \<and> cc_excerpt c = x \<and> cc_excerpt_limit c = xl \<and>
      cc_content_hash c = h \<and> cc_fetched_at c = f"
proof -
  assume d: "DecodeCandidateContent ev r s gv gi k x xb xl t h f = Inr c"
  let ?i = "\<lparr>ci_record_id = r, ci_source_hash = s, ci_gate_version = word_of_int gv,
          ci_gate_input_hash = gi, ci_source_kind = k, ci_excerpt = x,
          ci_excerpt_limit = xl, ci_truncated = (t = 1), ci_fetched_at = f\<rparr>"
  from d have n: "NewCandidateContent ?i = Inr c" and g: "1 \<le> gv" "gv \<le> 2 ^ 32 - 1" and h: "cc_content_hash c = h"
    by (auto simp: DecodeCandidateContent_def split: if_splits sum.splits)
  have "uint (word_of_int gv :: u32) = gv" using g by (simp add: uint_word_of_int)
  with n h show ?thesis
    by (intro exI [of _ ?i]) (auto simp: NewCandidateContent_def split: if_splits)
qed

lemma content_valid_new: "content_valid c \<Longrightarrow> \<exists>i. NewCandidateContent i = Inr c"
  by (auto simp: content_valid_def content_equal_def redecode_content_def
      dest!: DecodeCandidateContent_new split: sum.splits)

text \<open>An excerpt never exceeds the limit it was cut for.\<close>

lemma content_valid_bounds:
  assumes "content_valid c"
  shows "cc_excerpt_bytes c = int (length (cc_excerpt c))" "cc_excerpt_bytes c \<le> cc_excerpt_limit c"
    "cc_excerpt c \<noteq> []" "canonicalCandidateExcerpt (cc_excerpt c)"
  using content_valid_new [OF assms]
  by (auto simp: NewCandidateContent_def validCandidateContentInput_def split: if_splits)

text \<open>The hashed text determines every field that is hashed.\<close>

lemma content_preimage_inject:
  assumes "length k < 2 ^ 32" "length k' < 2 ^ 32" "length x < 2 ^ 32" "length x' < 2 ^ 32"
    and "MinimumExcerptBytes \<le> l" "l \<le> MaximumExcerptBytes" "MinimumExcerptBytes \<le> l'" "l' \<le> MaximumExcerptBytes"
  shows "content_preimage e g k l t x = content_preimage e' g' k' l' t' x' \<longleftrightarrow>
    e = e' \<and> g = g' \<and> k = k' \<and> l = l' \<and> t = t' \<and> x = x'"
proof -
  have limit: "(word_of_int l :: u32) = word_of_int l' \<longleftrightarrow> l = l'"
  proof
    assume "(word_of_int l :: u32) = word_of_int l'"
    then have "uint (word_of_int l :: u32) = uint (word_of_int l' :: u32)" by simp
    then show "l = l'"
      using assms(5-8) by (simp add: uint_word_of_int MinimumExcerptBytes_def MaximumExcerptBytes_def)
  qed simp
  show ?thesis
    using lp.penc_append_inject [OF assms(1,2)] lp.penc_inject [OF assms(3,4)]
    by (auto simp: content_preimage_def be32.penc_append_inject be32.penc_inject limit)
qed

end
