(* ===== verification/Gate_Classifier.thy ===== *)
theory Gate_Classifier
  imports Mail_Message
begin

text \<open>
  \<^verbatim>\<open>internal/gate/classifier.go\<close>: the metadata gate. A message and the owner's policy give one
  outcome, the sorted list of reasons for it and a hash of everything that was looked at.

  Two tables of the standard library are parameters, in the record \<open>golib\<close>:
  \<^verbatim>\<open>unicode.SimpleFold\<close> (a table of the Unicode Character Database) and the address of
  \<^verbatim>\<open>net/mail.ParseAddress\<close>. Comparison with \<^verbatim>\<open>strings.EqualFold\<close> is always against an ASCII literal here and
  is exact (\<open>fold_name\<close>). \<^verbatim>\<open>strings.ToLower\<close> is used only for domain names, which must be ASCII
  afterwards; \<open>to_lower\<close> is exact whenever its result is ASCII and leaves every other character
  outside ASCII, as the library does.
\<close>

record golib =
  SimpleFold :: "rune \<Rightarrow> rune"
  ParseAddress :: "string \<Rightarrow> string option"

section \<open>Policy, outcomes and reasons\<close>

record gate_policy =
  g_version :: u64
  g_excluded_labels :: "string list"
  g_suppress_categories :: "string list"
  g_direct_candidate :: bool
  g_list_bulk :: bool
  g_allow_domains :: "string list"
  g_block_domains :: "string list"
  g_candidate_terms :: "string list"
  g_urgent_terms :: "string list"

definition GateVersion1 :: u32 where "GateVersion1 = 1"
definition MaximumReasonCodes :: nat where "MaximumReasonCodes = 10"
definition MaximumReasonCodeBytes :: nat where "MaximumReasonCodeBytes = 32"
definition MaximumReasonJSONBytes :: nat where "MaximumReasonJSONBytes = 512"
definition MaximumFoldedSubjectBytes :: nat where "MaximumFoldedSubjectBytes = 16384"
definition MaximumFoldedTermBytes :: nat where "MaximumFoldedTermBytes = 512"
definition MaximumSubjectTermSearches :: nat where "MaximumSubjectTermSearches = 512"
definition inputHashDomain :: string where "inputHashDomain = ''inboxgate/gate-input/v1''"

type_synonym outcome = string

definition OutcomeIgnore :: outcome where "OutcomeIgnore = ''ignore''"
definition OutcomeMetadataOnly :: outcome where "OutcomeMetadataOnly = ''metadata_only''"
definition OutcomeReviewCandidate :: outcome where "OutcomeReviewCandidate = ''review_candidate''"
definition OutcomeUrgentReviewCandidate :: outcome where
  "OutcomeUrgentReviewCandidate = ''urgent_review_candidate''"

lemmas outcome_defs = OutcomeIgnore_def OutcomeMetadataOnly_def OutcomeReviewCandidate_def
  OutcomeUrgentReviewCandidate_def

definition outcome_valid :: "outcome \<Rightarrow> bool" where
  "outcome_valid v \<longleftrightarrow> v = OutcomeIgnore \<or> v = OutcomeMetadataOnly \<or> v = OutcomeReviewCandidate \<or>
     v = OutcomeUrgentReviewCandidate"

type_synonym reason_code = string

definition ReasonExcludedLabel :: reason_code where "ReasonExcludedLabel = ''excluded_label''"
definition ReasonSenderBlockDomain :: reason_code where "ReasonSenderBlockDomain = ''sender_block_domain''"
definition ReasonSenderAllowDomain :: reason_code where "ReasonSenderAllowDomain = ''sender_allow_domain''"
definition ReasonBulkCategory :: reason_code where "ReasonBulkCategory = ''bulk_category''"
definition ReasonMailingList :: reason_code where "ReasonMailingList = ''mailing_list''"
definition ReasonAutomatedMessage :: reason_code where "ReasonAutomatedMessage = ''automated_message''"
definition ReasonOwnerCandidateTerm :: reason_code where "ReasonOwnerCandidateTerm = ''owner_candidate_term''"
definition ReasonOwnerUrgentTerm :: reason_code where "ReasonOwnerUrgentTerm = ''owner_urgent_term''"
definition ReasonDirectRecipient :: reason_code where "ReasonDirectRecipient = ''direct_recipient''"
definition ReasonNoCandidateSignal :: reason_code where "ReasonNoCandidateSignal = ''no_candidate_signal''"

lemmas reason_defs = ReasonExcludedLabel_def ReasonSenderBlockDomain_def ReasonSenderAllowDomain_def
  ReasonBulkCategory_def ReasonMailingList_def ReasonAutomatedMessage_def ReasonOwnerCandidateTerm_def
  ReasonOwnerUrgentTerm_def ReasonDirectRecipient_def ReasonNoCandidateSignal_def

definition reason_valid :: "reason_code \<Rightarrow> bool" where
  "reason_valid r \<longleftrightarrow> r \<in> {ReasonExcludedLabel, ReasonSenderBlockDomain, ReasonSenderAllowDomain,
     ReasonBulkCategory, ReasonMailingList, ReasonAutomatedMessage, ReasonOwnerCandidateTerm,
     ReasonOwnerUrgentTerm, ReasonDirectRecipient, ReasonNoCandidateSignal}"

record classification =
  cl_version :: u32
  cl_source_hash :: string
  cl_input_hash :: string
  cl_outcome :: outcome
  cl_reasons :: "reason_code list"

section \<open>Folding and searching the subject\<close>

text \<open>
  The loop of \<^verbatim>\<open>canonicalFoldRune\<close> follows the orbit of a character until it comes back. The
  fuel is the number of code points, so a table whose orbits close never exhausts it
  (\<open>canonicalFoldRune_min\<close>).
\<close>

fun fold_orbit :: "(rune \<Rightarrow> rune) \<Rightarrow> nat \<Rightarrow> rune \<Rightarrow> rune \<Rightarrow> rune \<Rightarrow> rune" where
  "fold_orbit sf 0 v folded canonical = canonical"
| "fold_orbit sf (Suc n) v folded canonical =
    (if folded = v then canonical
     else fold_orbit sf n v (sf folded) (if folded < canonical then folded else canonical))"

definition canonicalFoldRune :: "golib \<Rightarrow> rune \<Rightarrow> rune" where
  "canonicalFoldRune lib v = fold_orbit (SimpleFold lib) 0x110000 v (SimpleFold lib v) v"

fun fold_into :: "golib \<Rightarrow> nat \<Rightarrow> string \<Rightarrow> rune list \<Rightarrow> string option" where
  "fold_into lib maximumBytes folded [] = Some folded"
| "fold_into lib maximumBytes folded (r # rs) =
    (let canonical = canonicalFoldRune lib r in
     if int (length folded) + rune_len canonical > int maximumBytes then None
     else fold_into lib maximumBytes (folded @ encode_rune canonical) rs)"

definition foldLiteral :: "golib \<Rightarrow> string \<Rightarrow> nat \<Rightarrow> string option" where
  "foldLiteral lib v maximumBytes = fold_into lib maximumBytes [] (runes v)"

text \<open>The three results: found, number of searches, and whether every fold stayed in bounds.\<close>

fun containsAnyFold_from :: "golib \<Rightarrow> nat \<Rightarrow> string \<Rightarrow> string list \<Rightarrow> bool \<times> nat \<times> bool" where
  "containsAnyFold_from lib index subject [] = (False, index, True)"
| "containsAnyFold_from lib index subject (term # terms) =
    (case foldLiteral lib term MaximumFoldedTermBytes of
       None \<Rightarrow> (False, index, False)
     | Some foldedTerm \<Rightarrow>
         if contains subject foldedTerm then (True, index + 1, True)
         else containsAnyFold_from lib (index + 1) subject terms)"

definition containsAnyFold :: "golib \<Rightarrow> string \<Rightarrow> string list \<Rightarrow> bool \<times> nat \<times> bool" where
  "containsAnyFold lib subject terms = containsAnyFold_from lib 0 subject terms"

section \<open>Domains, labels, categories and terms\<close>

definition lower_chunk :: "string \<Rightarrow> string" where
  "lower_chunk c = (let r = fst (decode_rune c) in
     if 65 \<le> r \<and> r \<le> 90 then encode_rune (r + 32)
     else if r = 0x212A then ''k''
     else if r = 0x0130 then ''i''
     else c)"

definition to_lower :: "string \<Rightarrow> string" where
  "to_lower s = concat (map lower_chunk (chunks s))"

text \<open>
  \<^verbatim>\<open>net.ParseIP\<close> of a text without a colon: four decimal fields of at most 255 without
  leading zeros. A text with a colon is refused by the next test of \<^verbatim>\<open>validDomain\<close> anyway.
\<close>

definition ipv4_field :: "string \<Rightarrow> bool" where
  "ipv4_field f \<longleftrightarrow> f \<noteq> [] \<and> list_all is_digit f \<and> digits_value f \<le> 255 \<and> \<not> (1 < length f \<and> hd f = CHR ''0'')"

definition parse_ipv4 :: "string \<Rightarrow> bool" where
  "parse_ipv4 v \<longleftrightarrow> (let fs = split_on (CHR ''.'') v in length fs = 4 \<and> list_all ipv4_field fs)"

definition domain_char :: "char \<Rightarrow> bool" where
  "domain_char c \<longleftrightarrow> in_range 97 122 c \<or> in_range 48 57 c \<or> c = CHR ''-''"

definition validDomain :: "string \<Rightarrow> bool" where
  "validDomain v =
    (if v = [] \<or> length v > 253 \<or> v \<noteq> to_lower v \<or> parse_ipv4 v \<or>
        list_ex (\<lambda>c. c \<in> set '':/*_@'') v \<or> has_prefix v ''.'' \<or> has_suffix v ''.''
     then False
     else if list_ex (\<lambda>c. bval c > 0x7f) v then False
     else list_all (\<lambda>l. length l \<noteq> 0 \<and> length l \<le> 63 \<and> hd l \<noteq> CHR ''-'' \<and> last l \<noteq> CHR ''-'' \<and>
            list_all domain_char l) (split_on (CHR ''.'') v))"

definition validDomains :: "string list \<Rightarrow> bool" where
  "validDomains vs \<longleftrightarrow> length vs \<le> 256 \<and> list_all validDomain vs \<and> distinct vs"

definition label_char :: "char \<Rightarrow> bool" where
  "label_char c \<longleftrightarrow> in_range 65 90 c \<or> in_range 97 122 c \<or> in_range 48 57 c \<or> c = CHR ''_'' \<or> c = CHR ''-''"

definition validUniqueLabels :: "string list \<Rightarrow> nat \<Rightarrow> bool" where
  "validUniqueLabels vs maximum \<longleftrightarrow> length vs \<le> maximum \<and>
     list_all (\<lambda>v. length v \<noteq> 0 \<and> length v \<le> 128 \<and> list_all label_char v) vs \<and> distinct vs"

definition categories_allowed :: "string list" where
  "categories_allowed = [''CATEGORY_FORUMS'', ''CATEGORY_PERSONAL'', ''CATEGORY_PROMOTIONS'', ''CATEGORY_SOCIAL'',
     ''CATEGORY_UPDATES'']"

definition validCategories :: "string list \<Rightarrow> bool" where
  "validCategories vs \<longleftrightarrow> length vs \<le> 5 \<and> list_all (\<lambda>v. v \<in> set categories_allowed) vs \<and> distinct vs"

fun validTerms_from :: "golib \<Rightarrow> string list \<Rightarrow> string list \<Rightarrow> bool" where
  "validTerms_from lib seen [] = True"
| "validTerms_from lib seen (v # vs) =
    (if v = [] \<or> length v > 128 \<or> v \<noteq> trim_space v \<or> \<not> valid_utf8 v then False
     else if list_ex is_control (runes v) then False
     else case foldLiteral lib v MaximumFoldedTermBytes of
       None \<Rightarrow> False
     | Some folded \<Rightarrow> if folded \<in> set seen then False else validTerms_from lib (folded # seen) vs)"

definition validTerms :: "golib \<Rightarrow> string list \<Rightarrow> bool" where
  "validTerms lib vs = (if length vs > 256 then False else validTerms_from lib [] vs)"

definition ValidatePolicy :: "golib \<Rightarrow> gate_policy \<Rightarrow> go_error option" where
  "ValidatePolicy lib p =
    (if g_version p \<noteq> ucast GateVersion1 \<or> \<not> validUniqueLabels (g_excluded_labels p) 32 \<or>
        \<not> validCategories (g_suppress_categories p) \<or> \<not> validDomains (g_allow_domains p) \<or>
        \<not> validDomains (g_block_domains p) \<or> \<not> validTerms lib (g_candidate_terms p) \<or>
        \<not> validTerms lib (g_urgent_terms p)
     then Some ErrInvalidClassification
     else if list_ex (\<lambda>d. d \<in> set (g_allow_domains p)) (g_block_domains p) then Some ErrInvalidClassification
     else None)"

section \<open>Signals\<close>

definition intersectsExact :: "string list \<Rightarrow> string list \<Rightarrow> bool" where
  "intersectsExact left right = list_ex (\<lambda>v. v \<in> set right) left"

definition senderDomain :: "golib \<Rightarrow> string \<Rightarrow> string" where
  "senderDomain lib v =
    (case ParseAddress lib (trim_space v) of
       None \<Rightarrow> []
     | Some address \<Rightarrow> (case last_index_byte (CHR ''@'') address of
         None \<Rightarrow> []
       | Some separator \<Rightarrow>
           if separator = 0 \<or> separator = length address - 1 then []
           else let domain = to_lower (drop (separator + 1) address) in
             if \<not> validDomain domain then [] else domain))"

definition hasUsableRecipient :: "string list list \<Rightarrow> bool" where
  "hasUsableRecipient vss = list_ex (list_ex (\<lambda>v. trim_space v \<noteq> [])) vss"

definition matchesAnyDomain :: "string \<Rightarrow> string list \<Rightarrow> bool" where
  "matchesAnyDomain domain policies = list_ex (\<lambda>p. domain = p \<or> has_suffix domain (''.'' @ p)) policies"

definition equal_fold_literal :: "string \<Rightarrow> string \<Rightarrow> bool" where
  "equal_fold_literal s literal \<longleftrightarrow> fold_name s = fold_name literal"

definition automated :: "string \<Rightarrow> string \<Rightarrow> bool" where
  "automated autoSubmitted precedence =
    (let a = trim_space autoSubmitted in
     if a \<noteq> [] \<and> \<not> equal_fold_literal a ''no'' then True
     else list_ex (\<lambda>v. equal_fold_literal (trim_space precedence) v) [''bulk'', ''junk'', ''list''])"

section \<open>The input hash\<close>

definition write_bool :: "bool \<Rightarrow> string" where
  "write_bool b = (if b then [CHR 0x01] else [CHR 0x00])"

definition write_list :: "string \<Rightarrow> string list \<Rightarrow> string" where
  "write_list name values = (let ordered = sort values in
     length_prefixed name @ be32 (word_of_nat (length ordered)) @ concat (map length_prefixed ordered))"

definition input_preimage :: "string \<Rightarrow> gate_policy \<Rightarrow> string" where
  "input_preimage source p =
    inputHashDomain @ [CHR 0x00] @ be32 GateVersion1 @ length_prefixed source @
    write_bool (g_direct_candidate p) @ write_bool (g_list_bulk p) @
    write_list ''excluded_labels'' (g_excluded_labels p) @
    write_list ''suppress_gmail_categories'' (g_suppress_categories p) @
    write_list ''sender_allow_domains'' (g_allow_domains p) @
    write_list ''sender_block_domains'' (g_block_domains p) @
    write_list ''subject_candidate_terms'' (g_candidate_terms p) @
    write_list ''subject_urgent_terms'' (g_urgent_terms p)"

definition deriveInputHash :: "string \<Rightarrow> gate_policy \<Rightarrow> string" where
  "deriveInputHash source p = hex_encode (sha256 (input_preimage source p))"

section \<open>Classification\<close>

text \<open>The check of the loop at index \<open>i\<close>: a known, short code above its predecessor.\<close>

fun reasons_ok :: "reason_code option \<Rightarrow> reason_code list \<Rightarrow> bool" where
  "reasons_ok prev [] = True"
| "reasons_ok prev (r # rs) =
    (if \<not> reason_valid r \<or> length r > MaximumReasonCodeBytes \<or> (case prev of None \<Rightarrow> False | Some p \<Rightarrow> r \<le> p)
     then False else reasons_ok (Some r) rs)"

definition DecodeClassification :: "u32 \<Rightarrow> string \<Rightarrow> string \<Rightarrow> outcome \<Rightarrow> reason_code list \<Rightarrow> classification res" where
  "DecodeClassification version source inputHash outcome reasons =
    (if version \<noteq> GateVersion1 \<or> \<not> validLowerHex source 64 \<or> \<not> validLowerHex inputHash 64 \<or>
        \<not> outcome_valid outcome \<or> length reasons = 0 \<or> length reasons > MaximumReasonCodes
     then Inl ErrInvalidClassification
     else if \<not> reasons_ok None reasons then Inl ErrInvalidClassification
     else if ReasonNoCandidateSignal \<in> set reasons \<and> length reasons \<noteq> 1 then Inl ErrInvalidClassification
     else Inr \<lparr>cl_version = version, cl_source_hash = source, cl_input_hash = inputHash,
                cl_outcome = outcome, cl_reasons = reasons\<rparr>)"

definition classification_valid :: "classification \<Rightarrow> bool" where
  "classification_valid c = (case DecodeClassification (cl_version c) (cl_source_hash c) (cl_input_hash c)
      (cl_outcome c) (cl_reasons c) of Inl _ \<Rightarrow> False | Inr d \<Rightarrow> c = d)"

definition push_if :: "bool \<Rightarrow> reason_code \<Rightarrow> reason_code list \<Rightarrow> reason_code list" where
  "push_if b r rs = (if b then rs @ [r] else rs)"

definition Classify :: "golib \<Rightarrow> message \<Rightarrow> gate_policy \<Rightarrow> classification res" where
  "Classify lib m policy =
    (if \<not> message_valid m \<or> ValidatePolicy lib policy \<noteq> None then Inl ErrInvalidClassification
     else case GateProjection m of
       Inl _ \<Rightarrow> Inl ErrInvalidClassification
     | Inr projection \<Rightarrow>
         let hasExcluded = intersectsExact (gp_labels projection) (g_excluded_labels policy);
             domain = senderDomain lib (gp_sender_address projection);
             hasBlock = (domain \<noteq> [] \<and> matchesAnyDomain domain (g_block_domains policy));
             hasAllow = (domain \<noteq> [] \<and> matchesAnyDomain domain (g_allow_domains policy));
             hasBulkCategory = intersectsExact (gp_labels projection) (g_suppress_categories policy);
             hasMailingList = (g_list_bulk policy \<and> (gp_list_id projection \<noteq> [] \<or> gp_list_unsubscribe projection));
             hasAutomated = automated (gp_auto_submitted projection) (gp_precedence projection);
             reasons = push_if hasAutomated ReasonAutomatedMessage (push_if hasMailingList ReasonMailingList
               (push_if hasBulkCategory ReasonBulkCategory (push_if hasAllow ReasonSenderAllowDomain
                 (push_if hasBlock ReasonSenderBlockDomain (push_if hasExcluded ReasonExcludedLabel [])))))
         in case foldLiteral lib (gp_subject projection) MaximumFoldedSubjectBytes of
           None \<Rightarrow> Inl ErrInvalidClassification
         | Some foldedSubject \<Rightarrow>
           (case containsAnyFold lib foldedSubject (g_candidate_terms policy) of
             (hasCandidateTerm, candidateSearches, ok) \<Rightarrow>
             if \<not> ok \<or> candidateSearches > MaximumSubjectTermSearches div 2 then Inl ErrInvalidClassification
             else let reasons = push_if hasCandidateTerm ReasonOwnerCandidateTerm reasons in
             (case containsAnyFold lib foldedSubject (g_urgent_terms policy) of
               (hasUrgentTerm, urgentSearches, ok) \<Rightarrow>
               if \<not> ok \<or> candidateSearches + urgentSearches > MaximumSubjectTermSearches
               then Inl ErrInvalidClassification
               else
                 let reasons = push_if hasUrgentTerm ReasonOwnerUrgentTerm reasons;
                     hasDirect = (g_direct_candidate policy \<and>
                       hasUsableRecipient [gp_to projection, gp_cc projection, gp_delivered_to projection]);
                     reasons = push_if hasDirect ReasonDirectRecipient reasons;
                     reasons = push_if (reasons = []) ReasonNoCandidateSignal reasons;
                     reasons = sort reasons;
                     outcome =
                       (if hasExcluded \<or> hasBlock then OutcomeIgnore
                        else if hasAllow \<and> hasUrgentTerm then OutcomeUrgentReviewCandidate
                        else if hasAllow \<or> hasCandidateTerm then OutcomeReviewCandidate
                        else if hasBulkCategory \<or> hasMailingList \<or> hasAutomated then OutcomeMetadataOnly
                        else if g_direct_candidate policy \<and> hasDirect then OutcomeReviewCandidate
                        else OutcomeMetadataOnly)
                 in DecodeClassification GateVersion1 (msg_hash m) (deriveInputHash (msg_hash m) policy)
                      outcome reasons)))"

section \<open>What the classifier computes\<close>

text \<open>
  The specification: nine signals, each stated without loops, bounds or search counters; the
  outcome as a function of the reasons; the reasons as a set. \<open>Classify_spec\<close> shows that the
  classifier computes exactly this, and never fails, on every message that \<open>Normalize\<close> built.
\<close>

definition fold_text :: "golib \<Rightarrow> string \<Rightarrow> string" where
  "fold_text lib s = concat (map (\<lambda>r. encode_rune (canonicalFoldRune lib r)) (runes s))"

definition mentions :: "golib \<Rightarrow> string \<Rightarrow> string list \<Rightarrow> bool" where
  "mentions lib subject terms \<longleftrightarrow> (\<exists>t\<in>set terms. \<exists>u v. fold_text lib subject = u @ fold_text lib t @ v)"

definition from_domain :: "golib \<Rightarrow> string \<Rightarrow> string list \<Rightarrow> bool" where
  "from_domain lib sender ds \<longleftrightarrow> senderDomain lib sender \<noteq> [] \<and>
     (\<exists>d\<in>set ds. senderDomain lib sender = d \<or> (\<exists>h. senderDomain lib sender = h @ ''.'' @ d))"

definition signal :: "golib \<Rightarrow> canonical_metadata \<Rightarrow> gate_policy \<Rightarrow> reason_code \<Rightarrow> bool" where
  "signal lib md p r \<longleftrightarrow>
    (r = ReasonExcludedLabel \<and> set (md_labels md) \<inter> set (g_excluded_labels p) \<noteq> {} \<or>
     r = ReasonSenderBlockDomain \<and> from_domain lib (md_sender_address md) (g_block_domains p) \<or>
     r = ReasonSenderAllowDomain \<and> from_domain lib (md_sender_address md) (g_allow_domains p) \<or>
     r = ReasonBulkCategory \<and> set (md_labels md) \<inter> set (g_suppress_categories p) \<noteq> {} \<or>
     r = ReasonMailingList \<and> g_list_bulk p \<and> (md_list_id md \<noteq> [] \<or> md_list_unsubscribe md) \<or>
     r = ReasonAutomatedMessage \<and> automated (md_auto_submitted md) (md_precedence md) \<or>
     r = ReasonOwnerCandidateTerm \<and> mentions lib (md_subject md) (g_candidate_terms p) \<or>
     r = ReasonOwnerUrgentTerm \<and> mentions lib (md_subject md) (g_urgent_terms p) \<or>
     r = ReasonDirectRecipient \<and> g_direct_candidate p \<and>
       (\<exists>a \<in> set (md_to md) \<union> set (md_cc md) \<union> set (md_delivered_to md). trim_space a \<noteq> []))"

definition gate_reasons :: "golib \<Rightarrow> canonical_metadata \<Rightarrow> gate_policy \<Rightarrow> reason_code set" where
  "gate_reasons lib md p = (let R = {r. signal lib md p r} in if R = {} then {ReasonNoCandidateSignal} else R)"

text \<open>The decision table, a function of the reasons that are reported.\<close>

definition gate_outcome :: "reason_code set \<Rightarrow> outcome" where
  "gate_outcome R =
    (if ReasonExcludedLabel \<in> R \<or> ReasonSenderBlockDomain \<in> R then OutcomeIgnore
     else if ReasonSenderAllowDomain \<in> R \<and> ReasonOwnerUrgentTerm \<in> R then OutcomeUrgentReviewCandidate
     else if ReasonSenderAllowDomain \<in> R \<or> ReasonOwnerCandidateTerm \<in> R then OutcomeReviewCandidate
     else if ReasonBulkCategory \<in> R \<or> ReasonMailingList \<in> R \<or> ReasonAutomatedMessage \<in> R then OutcomeMetadataOnly
     else if ReasonDirectRecipient \<in> R then OutcomeReviewCandidate
     else OutcomeMetadataOnly)"

lemma reasons_distinct:
  "distinct [ReasonExcludedLabel, ReasonSenderBlockDomain, ReasonSenderAllowDomain, ReasonBulkCategory,
     ReasonMailingList, ReasonAutomatedMessage, ReasonOwnerCandidateTerm, ReasonOwnerUrgentTerm,
     ReasonDirectRecipient, ReasonNoCandidateSignal]"
  by (simp add: reason_defs)

lemma reasons_distinct_rev:
  "distinct [ReasonNoCandidateSignal, ReasonDirectRecipient, ReasonOwnerUrgentTerm, ReasonOwnerCandidateTerm,
     ReasonAutomatedMessage, ReasonMailingList, ReasonBulkCategory, ReasonSenderAllowDomain,
     ReasonSenderBlockDomain, ReasonExcludedLabel]"
  by (simp add: reason_defs)

lemmas reason_neqs [simp] = reasons_distinct [simplified] reasons_distinct_rev [simplified]

lemma reason_length: "reason_valid r \<Longrightarrow> length r \<le> MaximumReasonCodeBytes"
  by (auto simp: reason_valid_def reason_defs MaximumReasonCodeBytes_def)

lemma length_runes: "length (runes s) \<le> length s"
proof (induction s rule: chunks.induct)
  case (2 a s)
  then have "length (chunks (drop (rune_size (a # s)) (a # s))) \<le> length (a # s) - rune_size (a # s)"
    by (simp add: runes_def)
  moreover have "0 < rune_size (a # s)" "rune_size (a # s) \<le> length (a # s)"
    using rune_size_le [of "a # s"] by auto
  ultimately show ?case by (simp add: runes_def chunks.simps del: rune_size_pos)
qed (simp add: runes_def)

lemma length_encode_rune: "length (encode_rune r) \<le> 4" and rune_len_le: "rune_len r \<le> 4"
  by (simp_all add: encode_rune_def rune_len_def Let_def)

lemma fold_into_Some:
  "length acc + 4 * length rs \<le> n \<Longrightarrow>
    fold_into lib n acc rs = Some (acc @ concat (map (\<lambda>r. encode_rune (canonicalFoldRune lib r)) rs))"
proof (induction rs arbitrary: acc)
  case (Cons r rs)
  have "length (acc @ encode_rune (canonicalFoldRune lib r)) + 4 * length rs \<le> n"
    using Cons.prems length_encode_rune [of "canonicalFoldRune lib r"] by simp
  then show ?case
    using Cons.IH Cons.prems rune_len_le [of "canonicalFoldRune lib r"] by (simp add: Let_def)
qed simp

lemma foldLiteral_Some: "4 * length s \<le> n \<Longrightarrow> foldLiteral lib s n = Some (fold_text lib s)"
  using length_runes [of s] fold_into_Some [of "[]" "runes s" n lib]
  by (simp add: foldLiteral_def fold_text_def)

lemma containsAnyFold_from_eq:
  assumes "list_all (\<lambda>t. length t \<le> 128) ts"
  shows "\<exists>k \<le> length ts. containsAnyFold_from lib i subject ts =
    (list_ex (\<lambda>t. contains subject (fold_text lib t)) ts, i + k, True)"
  using assms
proof (induction ts arbitrary: i)
  case (Cons t ts)
  have fold: "foldLiteral lib t MaximumFoldedTermBytes = Some (fold_text lib t)"
    using Cons.prems by (simp add: foldLiteral_Some MaximumFoldedTermBytes_def)
  show ?case
  proof (cases "contains subject (fold_text lib t)")
    case True
    then show ?thesis using fold by (intro exI [of _ 1]) simp
  next
    case False
    obtain k where "k \<le> length ts" "containsAnyFold_from lib (i + 1) subject ts =
        (list_ex (\<lambda>t. contains subject (fold_text lib t)) ts, i + 1 + k, True)"
      using Cons.IH [of "i + 1"] Cons.prems by auto
    then show ?thesis using False fold by (intro exI [of _ "Suc k"]) simp
  qed
qed simp

lemma validTerms_from_lengths: "validTerms_from lib seen ts \<Longrightarrow> list_all (\<lambda>t. length t \<le> 128) ts"
  by (induction lib seen ts rule: validTerms_from.induct) (auto split: if_splits option.splits)

lemma containsAnyFold_eq:
  assumes "validTerms lib ts"
  obtains k where "k \<le> 256"
    "containsAnyFold lib (fold_text lib subject) ts = (mentions lib subject ts, k, True)"
proof -
  have "length ts \<le> 256" "list_all (\<lambda>t. length t \<le> 128) ts"
    using assms by (auto simp: validTerms_def dest: validTerms_from_lengths split: if_splits)
  then show thesis
    using that containsAnyFold_from_eq [of ts lib 0 "fold_text lib subject"]
    by (auto simp: containsAnyFold_def mentions_def contains_iff list_ex_iff)
qed

lemma mem_push_if [simp]: "r \<in> set (push_if b q rs) \<longleftrightarrow> b \<and> r = q \<or> r \<in> set rs"
  by (auto simp: push_if_def)

lemma distinct_push_if [simp]: "distinct (push_if b q rs) \<longleftrightarrow> (b \<longrightarrow> q \<notin> set rs) \<and> distinct rs"
  by (auto simp: push_if_def)

lemma push_if_Nil [simp]: "push_if b q rs = [] \<longleftrightarrow> \<not> b \<and> rs = []"
  by (simp add: push_if_def)

lemma reasons_ok_iff:
  "reasons_ok prev rs \<longleftrightarrow> list_all reason_valid rs \<and> sorted_wrt (<) rs \<and>
    (case prev of None \<Rightarrow> True | Some p \<Rightarrow> list_all (\<lambda>r. p < r) rs)"
proof (induction prev rs rule: reasons_ok.induct)
  case (2 prev r rs)
  then show ?case
    using reason_length [of r] by (auto simp: list_all_iff not_le not_less split: option.splits)
qed (simp split: option.splits)

lemma DecodeClassification_Inr:
  "DecodeClassification v source h out rs = Inr c \<longleftrightarrow>
    v = GateVersion1 \<and> validLowerHex source 64 \<and> validLowerHex h 64 \<and> outcome_valid out \<and>
    rs \<noteq> [] \<and> length rs \<le> MaximumReasonCodes \<and> list_all reason_valid rs \<and> sorted_wrt (<) rs \<and>
    (ReasonNoCandidateSignal \<in> set rs \<longrightarrow> rs = [ReasonNoCandidateSignal]) \<and>
    c = \<lparr>cl_version = v, cl_source_hash = source, cl_input_hash = h, cl_outcome = out, cl_reasons = rs\<rparr>"
proof -
  have "length rs = 1 \<and> ReasonNoCandidateSignal \<in> set rs \<longleftrightarrow> rs = [ReasonNoCandidateSignal]"
    by (auto simp: length_Suc_conv)
  then show ?thesis
    by (auto simp: DecodeClassification_def reasons_ok_iff not_less)
qed

lemma classification_valid_iff:
  "classification_valid c \<longleftrightarrow>
    DecodeClassification (cl_version c) (cl_source_hash c) (cl_input_hash c) (cl_outcome c) (cl_reasons c) = Inr c"
  by (auto simp: classification_valid_def split: sum.splits)

lemma DecodeClassification_valid [validity]:
  "DecodeClassification v source h out rs = Inr c \<Longrightarrow> classification_valid c"
  by (auto simp: classification_valid_iff DecodeClassification_Inr)

lemma sort_distinct_set: "distinct xs \<Longrightarrow> sort xs = sorted_list_of_set (set xs)"
  by (simp add: sorted_list_of_set_sort_remdups distinct_remdups_id)

lemma list_ex_mem_iff: "list_ex (\<lambda>v. v \<in> set ys) xs \<longleftrightarrow> set xs \<inter> set ys \<noteq> {}"
  by (auto simp: list_ex_iff)

lemma from_domain_eq:
  "from_domain lib a ds \<longleftrightarrow> senderDomain lib a \<noteq> [] \<and> matchesAnyDomain (senderDomain lib a) ds"
  by (auto simp: from_domain_def matchesAnyDomain_def list_ex_iff has_suffix_iff)

lemma signal_valid: "signal lib md p r \<Longrightarrow> reason_valid r \<and> r \<noteq> ReasonNoCandidateSignal"
  by (auto simp: signal_def reason_valid_def)

lemma finite_reason_valid: "finite {r. reason_valid r}" "card {r. reason_valid r} \<le> MaximumReasonCodes"
proof -
  let ?all = "[ReasonExcludedLabel, ReasonSenderBlockDomain, ReasonSenderAllowDomain, ReasonBulkCategory,
     ReasonMailingList, ReasonAutomatedMessage, ReasonOwnerCandidateTerm, ReasonOwnerUrgentTerm,
     ReasonDirectRecipient, ReasonNoCandidateSignal]"
  have eq: "{r. reason_valid r} = set ?all" by (auto simp: reason_valid_def)
  show "finite {r. reason_valid r}" unfolding eq by (rule finite_set)
  have "card (set ?all) \<le> length ?all" by (rule card_length)
  then show "card {r. reason_valid r} \<le> MaximumReasonCodes"
    unfolding eq by (simp add: MaximumReasonCodes_def)
qed

lemma gate_reasons_subset: "gate_reasons lib md p \<subseteq> {r. reason_valid r}"
  by (auto simp: gate_reasons_def Let_def dest: signal_valid) (simp add: reason_valid_def)

lemma gate_reasons_finite: "finite (gate_reasons lib md p)"
  using finite_subset [OF gate_reasons_subset finite_reason_valid(1)] .

lemma gate_reasons_nonempty: "gate_reasons lib md p \<noteq> {}"
  by (auto simp: gate_reasons_def Let_def)

lemma gate_reasons_no_signal: "ReasonNoCandidateSignal \<in> gate_reasons lib md p \<Longrightarrow> gate_reasons lib md p = {ReasonNoCandidateSignal}"
  by (auto simp: gate_reasons_def Let_def dest: signal_valid split: if_splits)

lemma gate_outcome_valid: "outcome_valid (gate_outcome R)"
  by (simp add: gate_outcome_def outcome_valid_def)

definition gate_result :: "golib \<Rightarrow> message \<Rightarrow> gate_policy \<Rightarrow> classification" where
  "gate_result lib m p = (let R = gate_reasons lib (msg_metadata m) p in
     \<lparr>cl_version = GateVersion1, cl_source_hash = msg_hash m,
      cl_input_hash = deriveInputHash (msg_hash m) p, cl_outcome = gate_outcome R,
      cl_reasons = sorted_list_of_set R\<rparr>)"

lemma gate_result_valid:
  assumes "validLowerHex (msg_hash m) 64"
  shows "DecodeClassification GateVersion1 (msg_hash m) (deriveInputHash (msg_hash m) p)
    (gate_outcome (gate_reasons lib (msg_metadata m) p)) (sorted_list_of_set (gate_reasons lib (msg_metadata m) p))
    = Inr (gate_result lib m p)"
proof -
  let ?R = "gate_reasons lib (msg_metadata m) p"
  have fin: "finite ?R" by (rule gate_reasons_finite)
  have "card ?R \<le> MaximumReasonCodes"
    using card_mono [OF finite_reason_valid(1) gate_reasons_subset] finite_reason_valid(2) le_trans by blast
  moreover have "sorted_list_of_set ?R = [ReasonNoCandidateSignal]" if "ReasonNoCandidateSignal \<in> ?R"
    using gate_reasons_no_signal [OF that] by simp
  moreover have "list_all reason_valid (sorted_list_of_set ?R)"
    using gate_reasons_subset fin by (auto simp: list_all_iff)
  ultimately show ?thesis
    using assms fin gate_reasons_nonempty [of lib "msg_metadata m" p]
    by (simp add: DecodeClassification_Inr gate_result_def Let_def gate_outcome_valid deriveInputHash_def
        validLowerHex_sha256 sorted_list_of_set_eq_Nil_iff)
qed

text \<open>The appends of the classifier, for any predicate on reasons.\<close>

abbreviation pushed :: "(reason_code \<Rightarrow> bool) \<Rightarrow> reason_code list" where
  "pushed S \<equiv> push_if (S ReasonDirectRecipient) ReasonDirectRecipient
     (push_if (S ReasonOwnerUrgentTerm) ReasonOwnerUrgentTerm
     (push_if (S ReasonOwnerCandidateTerm) ReasonOwnerCandidateTerm
     (push_if (S ReasonAutomatedMessage) ReasonAutomatedMessage
     (push_if (S ReasonMailingList) ReasonMailingList
     (push_if (S ReasonBulkCategory) ReasonBulkCategory
     (push_if (S ReasonSenderAllowDomain) ReasonSenderAllowDomain
     (push_if (S ReasonSenderBlockDomain) ReasonSenderBlockDomain
     (push_if (S ReasonExcludedLabel) ReasonExcludedLabel []))))))))"

lemma mem_pushed:
  "r \<in> set (pushed S) \<longleftrightarrow> S r \<and> reason_valid r \<and> r \<noteq> ReasonNoCandidateSignal"
  unfolding mem_push_if reason_valid_def by auto

lemma set_pushed: "(\<And>r. S r \<Longrightarrow> reason_valid r \<and> r \<noteq> ReasonNoCandidateSignal) \<Longrightarrow> set (pushed S) = Collect S"
  by (intro set_eqI) (auto simp: mem_pushed simp del: mem_push_if)

lemma distinct_pushed: "distinct (pushed S)"
  by simp

lemma signal_simps:
  "signal lib md p ReasonExcludedLabel = intersectsExact (md_labels md) (g_excluded_labels p)"
  "signal lib md p ReasonSenderBlockDomain = (senderDomain lib (md_sender_address md) \<noteq> [] \<and>
     matchesAnyDomain (senderDomain lib (md_sender_address md)) (g_block_domains p))"
  "signal lib md p ReasonSenderAllowDomain = (senderDomain lib (md_sender_address md) \<noteq> [] \<and>
     matchesAnyDomain (senderDomain lib (md_sender_address md)) (g_allow_domains p))"
  "signal lib md p ReasonBulkCategory = intersectsExact (md_labels md) (g_suppress_categories p)"
  "signal lib md p ReasonMailingList = (g_list_bulk p \<and> (md_list_id md \<noteq> [] \<or> md_list_unsubscribe md))"
  "signal lib md p ReasonAutomatedMessage = automated (md_auto_submitted md) (md_precedence md)"
  "signal lib md p ReasonOwnerCandidateTerm = mentions lib (md_subject md) (g_candidate_terms p)"
  "signal lib md p ReasonOwnerUrgentTerm = mentions lib (md_subject md) (g_urgent_terms p)"
  "signal lib md p ReasonDirectRecipient = (g_direct_candidate p \<and>
     hasUsableRecipient [md_to md, md_cc md, md_delivered_to md])"
  by (simp_all add: signal_def intersectsExact_def list_ex_mem_iff from_domain_eq hasUsableRecipient_def
      list_ex_iff bex_Un disj_ac)

lemma mem_gate_reasons: "r \<noteq> ReasonNoCandidateSignal \<Longrightarrow> r \<in> gate_reasons lib md p \<longleftrightarrow> signal lib md p r"
  by (auto simp: gate_reasons_def Let_def)

lemma pushed_reasons:
  "sort (push_if (pushed (signal lib md p) = []) ReasonNoCandidateSignal (pushed (signal lib md p)))
    = sorted_list_of_set (gate_reasons lib md p)"
proof -
  let ?xs = "pushed (signal lib md p)"
  have set: "set ?xs = Collect (signal lib md p)"
    by (rule set_pushed) (rule signal_valid)
  have final: "set (push_if (xs = []) q xs) = (if R = {} then {q} else R)
    \<and> distinct (push_if (xs = []) q xs)" if "set xs = R" "distinct xs" for xs R and q :: reason_code
    using that by (auto simp: push_if_def)
  note ys = final [OF set distinct_pushed, of ReasonNoCandidateSignal]
  show ?thesis
    unfolding gate_reasons_def Let_def conjunct1 [OF ys, symmetric]
    by (rule sort_distinct_set [OF conjunct2 [OF ys]])
qed

lemma Classify_eq:
  assumes m: "Normalize a inp = Inr m" and p: "ValidatePolicy lib p = None"
  shows "Classify lib m p = Inr (gate_result lib m p)"
proof -
  let ?md = "msg_metadata m"
  have subject: "length (md_subject ?md) \<le> 4096" and hash: "validLowerHex (msg_hash m) 64"
    using m by (auto simp: Normalize_Inr normal_ok_def normal_message_def normal_metadata_def Let_def validText_def
        validLowerHex_sha256 split: if_splits)
  have fold: "foldLiteral lib (md_subject ?md) MaximumFoldedSubjectBytes = Some (fold_text lib (md_subject ?md))"
    using subject by (simp add: foldLiteral_Some MaximumFoldedSubjectBytes_def)
  have terms: "validTerms lib (g_candidate_terms p)" "validTerms lib (g_urgent_terms p)"
    using p by (auto simp: ValidatePolicy_def split: if_splits)
  obtain kc where kc: "kc \<le> 256" "containsAnyFold lib (fold_text lib (md_subject ?md)) (g_candidate_terms p) =
      (mentions lib (md_subject ?md) (g_candidate_terms p), kc, True)"
    using containsAnyFold_eq [OF terms(1)] by blast
  obtain ku where ku: "ku \<le> 256" "containsAnyFold lib (fold_text lib (md_subject ?md)) (g_urgent_terms p) =
      (mentions lib (md_subject ?md) (g_urgent_terms p), ku, True)"
    using containsAnyFold_eq [OF terms(2)] by blast
  have bounds: "\<not> kc > MaximumSubjectTermSearches div 2" "\<not> kc + ku > MaximumSubjectTermSearches"
    using kc(1) ku(1) by (simp_all add: MaximumSubjectTermSearches_def)
  have proj: "GateProjection m = Inr \<lparr>gp_sender_address = md_sender_address ?md, gp_to = md_to ?md,
      gp_cc = md_cc ?md, gp_delivered_to = md_delivered_to ?md, gp_subject = md_subject ?md,
      gp_labels = md_labels ?md, gp_list_id = md_list_id ?md, gp_list_unsubscribe = md_list_unsubscribe ?md,
      gp_auto_submitted = md_auto_submitted ?md, gp_precedence = md_precedence ?md\<rparr>"
    using Normalize_valid [OF m] by (simp add: GateProjection_def Let_def)
  have outcome: "gate_outcome (gate_reasons lib ?md p) =
      (if signal lib ?md p ReasonExcludedLabel \<or> signal lib ?md p ReasonSenderBlockDomain then OutcomeIgnore
       else if signal lib ?md p ReasonSenderAllowDomain \<and> signal lib ?md p ReasonOwnerUrgentTerm then OutcomeUrgentReviewCandidate
       else if signal lib ?md p ReasonSenderAllowDomain \<or> signal lib ?md p ReasonOwnerCandidateTerm then OutcomeReviewCandidate
       else if signal lib ?md p ReasonBulkCategory \<or> signal lib ?md p ReasonMailingList \<or> signal lib ?md p ReasonAutomatedMessage then OutcomeMetadataOnly
       else if g_direct_candidate p \<and> signal lib ?md p ReasonDirectRecipient then OutcomeReviewCandidate
       else OutcomeMetadataOnly)"
    by (simp add: gate_outcome_def mem_gate_reasons signal_simps(9))
  have guard: "(\<not> message_valid m \<or> ValidatePolicy lib p \<noteq> None) = False"
    using Normalize_valid [OF m] p by simp
  show ?thesis
    unfolding Classify_def guard if_False proj sum.case Let_def gate_projection.simps fold option.case
      kc(2) ku(2) prod.case
    using bounds gate_result_valid [OF hash, of p lib] pushed_reasons [of lib ?md p, unfolded signal_simps]
      outcome [unfolded signal_simps]
    by (simp only: not_True_eq_False simp_thms if_False)
qed

section \<open>Canonical folding\<close>

text \<open>
  What \<^verbatim>\<open>unicode.SimpleFold\<close> documents: repeated application walks through the characters that
  are equal under simple folding and returns to the start.
\<close>

definition closes :: "(rune \<Rightarrow> rune) \<Rightarrow> rune \<Rightarrow> bool" where
  "closes sf r \<longleftrightarrow> (\<exists>n>0. n \<le> 0x110000 \<and> (sf ^^ n) r = r)"

definition orbit :: "(rune \<Rightarrow> rune) \<Rightarrow> rune \<Rightarrow> rune set" where
  "orbit sf r = range (\<lambda>n. (sf ^^ n) r)"

lemma orbit_self: "r \<in> orbit sf r"
  unfolding orbit_def by (rule range_eqI [of _ _ 0]) simp

lemma funpow_mod_return:
  assumes "(sf ^^ n) r = r"
  shows "(sf ^^ k) r = (sf ^^ (k mod n)) r"
proof -
  have "(sf ^^ (n * q)) r = r" for q
    using assms by (induction q) (simp_all add: funpow_add)
  moreover have "(sf ^^ k) r = (sf ^^ (k mod n)) ((sf ^^ (n * (k div n))) r)"
    using funpow_add [of "k mod n" "n * (k div n)" sf] by simp
  ultimately show ?thesis by simp
qed

lemma orbit_finite: "(sf ^^ n) r = r \<Longrightarrow> 0 < n \<Longrightarrow> orbit sf r = (\<lambda>k. (sf ^^ k) r) ` {..<n}"
proof (rule subset_antisym)
  assume n: "(sf ^^ n) r = r" "0 < n"
  show "orbit sf r \<subseteq> (\<lambda>k. (sf ^^ k) r) ` {..<n}"
  proof
    fix x assume "x \<in> orbit sf r"
    then obtain k where "x = (sf ^^ k) r" by (auto simp: orbit_def)
    then have "x = (sf ^^ (k mod n)) r" using funpow_mod_return [OF n(1)] by simp
    moreover have "k mod n \<in> {..<n}" using n(2) by simp
    ultimately show "x \<in> (\<lambda>k. (sf ^^ k) r) ` {..<n}" by (rule image_eqI)
  qed
qed (auto simp: orbit_def)

lemma orbit_step: "x \<in> orbit sf r \<Longrightarrow> orbit sf x \<subseteq> orbit sf r"
  by (auto simp: orbit_def) (metis funpow_add comp_apply rangeI)

lemma orbit_return:
  assumes "closes sf r" and "x \<in> orbit sf r"
  shows "r \<in> orbit sf x"
proof -
  obtain n where n: "0 < n" "(sf ^^ n) r = r" using assms by (auto simp: closes_def)
  then obtain k where k: "k < n" "x = (sf ^^ k) r" using assms(2) orbit_finite [OF n(2,1)] by auto
  then have "(sf ^^ (n - k)) x = r"
    using n funpow_add [of "n - k" k sf] by simp
  then show ?thesis unfolding orbit_def by (metis rangeI)
qed

lemma orbit_eq: "closes sf r \<Longrightarrow> x \<in> orbit sf r \<Longrightarrow> orbit sf x = orbit sf r"
  using orbit_step orbit_return by (metis subset_antisym)

lemma ivl_head: "(k::nat) < n \<Longrightarrow> {k..<n} = insert k {Suc k..<n}"
  by auto

lemma fold_orbit_min:
  assumes n: "(sf ^^ n) v = v" and least: "\<And>i. 0 < i \<Longrightarrow> i < n \<Longrightarrow> (sf ^^ i) v \<noteq> v"
  shows "0 < k \<Longrightarrow> k \<le> n \<Longrightarrow> n - k < fuel \<Longrightarrow>
    fold_orbit sf fuel v ((sf ^^ k) v) c = Min (insert c ((\<lambda>i. (sf ^^ i) v) ` {k..<n}))"
proof (induction fuel arbitrary: k c)
  case (Suc fuel)
  show ?case
  proof (cases "k = n")
    case False
    then have k: "0 < k" "k < n" using Suc.prems by auto
    let ?x = "(sf ^^ k) v" and ?f = "\<lambda>i. (sf ^^ i) v"
    have "fold_orbit sf (Suc fuel) v ?x c = fold_orbit sf fuel v ((sf ^^ Suc k) v) (min ?x c)"
      using least [OF k] by (simp add: min_def)
    also have "\<dots> = Min (insert (min ?x c) (?f ` {Suc k..<n}))"
      using Suc.prems k by (intro Suc.IH) auto
    also have "\<dots> = Min (insert c (insert ?x (?f ` {Suc k..<n})))"
      by (cases "?f ` {Suc k..<n} = {}") (simp_all add: min.commute min.left_commute)
    also have "insert ?x (?f ` {Suc k..<n}) = ?f ` {k..<n}"
      unfolding ivl_head [OF k(2)] by simp
    finally show ?thesis .
  qed (simp add: n)
qed simp

lemma closes_least:
  assumes "closes sf v"
  obtains n where "0 < n" "n \<le> 0x110000" "(sf ^^ n) v = v" "\<And>i. 0 < i \<Longrightarrow> i < n \<Longrightarrow> (sf ^^ i) v \<noteq> v"
proof -
  let ?P = "\<lambda>n. 0 < n \<and> n \<le> 0x110000 \<and> (sf ^^ n) v = v"
  obtain m where "?P m" using assms by (auto simp: closes_def)
  then have P: "?P (Least ?P)" by (rule LeastI)
  have "(sf ^^ i) v \<noteq> v" if "0 < i" "i < Least ?P" for i
    using not_less_Least [OF that(2)] that P by (meson less_imp_le le_trans)
  then show thesis using that P by blast
qed

lemma canonicalFoldRune_min:
  assumes "closes (SimpleFold lib) v"
  shows "canonicalFoldRune lib v = Min (orbit (SimpleFold lib) v)"
proof -
  let ?sf = "SimpleFold lib"
  obtain n where n: "0 < n" "n \<le> 0x110000" "(?sf ^^ n) v = v"
    "\<And>i. 0 < i \<Longrightarrow> i < n \<Longrightarrow> (?sf ^^ i) v \<noteq> v"
    using closes_least [OF assms] by blast
  have fuel: "n - Suc 0 < 0x110000" using n(1,2) by linarith
  have "canonicalFoldRune lib v = Min (insert v ((\<lambda>i. (?sf ^^ i) v) ` {Suc 0..<n}))"
    unfolding canonicalFoldRune_def
    using fold_orbit_min [OF n(3,4), of "Suc 0" "0x110000" v] n(1) fuel
    by (simp only: funpow.simps comp_id comp_apply id_apply Suc_leI zero_less_Suc)
  also have "insert v ((\<lambda>i. (?sf ^^ i) v) ` {Suc 0..<n}) = (\<lambda>i. (?sf ^^ i) v) ` {0..<n}"
    unfolding ivl_head [OF n(1)] by simp
  also have "\<dots> = orbit ?sf v" using orbit_finite [OF n(3,1)] by (simp only: atLeast0LessThan)
  finally show ?thesis .
qed

lemma canonicalFoldRune_mem:
  assumes "closes (SimpleFold lib) v"
  shows "canonicalFoldRune lib v \<in> orbit (SimpleFold lib) v"
proof -
  obtain n where "0 < n" "(SimpleFold lib ^^ n) v = v" using assms by (auto simp: closes_def)
  then have "finite (orbit (SimpleFold lib) v)" by (simp add: orbit_finite)
  then show ?thesis unfolding canonicalFoldRune_min [OF assms] using Min_in orbit_self by blast
qed

lemma canonicalFoldRune_eq_iff:
  assumes "closes (SimpleFold lib) a" and "closes (SimpleFold lib) b"
  shows "canonicalFoldRune lib a = canonicalFoldRune lib b \<longleftrightarrow> b \<in> orbit (SimpleFold lib) a"
proof
  assume "canonicalFoldRune lib a = canonicalFoldRune lib b"
  then have "orbit (SimpleFold lib) a = orbit (SimpleFold lib) b"
    using orbit_eq canonicalFoldRune_mem assms by metis
  then show "b \<in> orbit (SimpleFold lib) a" using orbit_self by metis
next
  assume "b \<in> orbit (SimpleFold lib) a"
  then show "canonicalFoldRune lib a = canonicalFoldRune lib b"
    using orbit_eq [OF assms(1)] by (simp add: canonicalFoldRune_min assms)
qed

section \<open>What the input hash covers\<close>

lemma sort_mset_cong: "mset xs = mset ys \<Longrightarrow> sort xs = sort ys"
  by (rule properties_for_sort) simp_all

lemma write_list_mset: "mset xs = mset ys \<Longrightarrow> write_list name xs = write_list name ys"
  unfolding write_list_def Let_def by (simp only: sort_mset_cong [of xs ys])

definition small_list :: "string list \<Rightarrow> bool" where
  "small_list xs \<longleftrightarrow> length xs < 2 ^ 32 \<and> list_all (\<lambda>x. length x < 2 ^ 32) xs"

lemma word_of_nat_inject32:
  assumes "m < 2 ^ 32" and "n < 2 ^ 32" and "(word_of_nat m :: u32) = word_of_nat n"
  shows "m = n"
proof -
  have u: "unat (word_of_nat k :: u32) = k" if "k < 2 ^ 32" for k
    using that by (simp add: unsigned_of_nat take_bit_nat_eq_self)
  have "m = unat (word_of_nat m :: u32)" by (rule u [OF assms(1), symmetric])
  also have "\<dots> = n" unfolding assms(3) by (rule u [OF assms(2)])
  finally show ?thesis .
qed

lemma write_list_inject:
  assumes eq: "write_list name xs @ r = write_list name ys @ r'" and s: "small_list xs" "small_list ys"
  shows "mset xs = mset ys \<and> r = r'"
proof -
  have "be32 (word_of_nat (length xs)) @ concat (map length_prefixed (sort xs)) @ r =
      be32 (word_of_nat (length ys)) @ concat (map length_prefixed (sort ys)) @ r'"
    using eq by (simp add: write_list_def Let_def)
  then have "(word_of_nat (length xs) :: u32) = word_of_nat (length ys)"
    and rest: "concat (map length_prefixed (sort xs)) @ r = concat (map length_prefixed (sort ys)) @ r'"
    using be32.penc_append_inject by blast+
  then have "length (sort xs) = length (sort ys)"
    using word_of_nat_inject32 [of "length xs" "length ys"] s by (simp add: small_list_def)
  then have "sort xs = sort ys \<and> r = r'"
    using lp.concat_inject [of "sort xs" "sort ys" r r'] rest s by (simp add: small_list_def list_all_iff)
  then show ?thesis using mset_sort by metis
qed

lemma write_bool_inject: "write_bool a @ r = write_bool b @ r' \<longleftrightarrow> a = b \<and> r = r'"
  by (simp add: write_bool_def)

definition same_policy :: "gate_policy \<Rightarrow> gate_policy \<Rightarrow> bool" where
  "same_policy p q \<longleftrightarrow> g_direct_candidate p = g_direct_candidate q \<and> g_list_bulk p = g_list_bulk q \<and>
    mset (g_excluded_labels p) = mset (g_excluded_labels q) \<and>
    mset (g_suppress_categories p) = mset (g_suppress_categories q) \<and>
    mset (g_allow_domains p) = mset (g_allow_domains q) \<and> mset (g_block_domains p) = mset (g_block_domains q) \<and>
    mset (g_candidate_terms p) = mset (g_candidate_terms q) \<and> mset (g_urgent_terms p) = mset (g_urgent_terms q)"

definition small_policy :: "gate_policy \<Rightarrow> bool" where
  "small_policy p \<longleftrightarrow> small_list (g_excluded_labels p) \<and> small_list (g_suppress_categories p) \<and>
    small_list (g_allow_domains p) \<and> small_list (g_block_domains p) \<and> small_list (g_candidate_terms p) \<and>
    small_list (g_urgent_terms p)"

lemma input_preimage_same: "same_policy p q \<Longrightarrow> input_preimage s p = input_preimage s q"
  using write_list_mset [of "g_excluded_labels p" "g_excluded_labels q"]
    write_list_mset [of "g_suppress_categories p" "g_suppress_categories q"]
    write_list_mset [of "g_allow_domains p" "g_allow_domains q"]
    write_list_mset [of "g_block_domains p" "g_block_domains q"]
    write_list_mset [of "g_candidate_terms p" "g_candidate_terms q"]
    write_list_mset [of "g_urgent_terms p" "g_urgent_terms q"]
  by (simp add: same_policy_def input_preimage_def)

lemma input_preimage_inject:
  assumes eq: "input_preimage s p = input_preimage s' q" and len: "length s < 2 ^ 32" "length s' < 2 ^ 32"
    and small: "small_policy p" "small_policy q"
  shows "s = s' \<and> same_policy p q"
proof -
  have tail: "write_list name xs = write_list name ys \<Longrightarrow> small_list xs \<Longrightarrow> small_list ys \<Longrightarrow> mset xs = mset ys"
    for name xs ys using write_list_inject [of name xs "[]" ys "[]"] by simp
  have "s = s' \<and> write_bool (g_direct_candidate p) @ write_bool (g_list_bulk p) @
      write_list ''excluded_labels'' (g_excluded_labels p) @
      write_list ''suppress_gmail_categories'' (g_suppress_categories p) @
      write_list ''sender_allow_domains'' (g_allow_domains p) @ write_list ''sender_block_domains'' (g_block_domains p) @
      write_list ''subject_candidate_terms'' (g_candidate_terms p) @ write_list ''subject_urgent_terms'' (g_urgent_terms p) =
      write_bool (g_direct_candidate q) @ write_bool (g_list_bulk q) @
      write_list ''excluded_labels'' (g_excluded_labels q) @
      write_list ''suppress_gmail_categories'' (g_suppress_categories q) @
      write_list ''sender_allow_domains'' (g_allow_domains q) @ write_list ''sender_block_domains'' (g_block_domains q) @
      write_list ''subject_candidate_terms'' (g_candidate_terms q) @ write_list ''subject_urgent_terms'' (g_urgent_terms q)"
    using eq lp.penc_append_inject [OF len] by (simp add: input_preimage_def)
  then show ?thesis
    using small unfolding same_policy_def small_policy_def write_bool_inject
    by (auto dest!: write_list_inject tail)
qed

text \<open>A policy that passes validation is far below the 32-bit limits.\<close>

lemma validDomain_length: "validDomain d \<Longrightarrow> length d \<le> 253"
  by (auto simp: validDomain_def split: if_splits)

lemma category_length: "c \<in> set categories_allowed \<Longrightarrow> length c \<le> 128"
  by (auto simp: categories_allowed_def)

lemma small_listI: "length xs \<le> 256 \<Longrightarrow> (\<And>x. x \<in> set xs \<Longrightarrow> length x \<le> 256) \<Longrightarrow> small_list xs"
  by (fastforce simp: small_list_def list_all_iff)

lemma ValidatePolicy_small:
  assumes "ValidatePolicy lib p = None"
  shows "small_policy p"
proof -
  have v: "validUniqueLabels (g_excluded_labels p) 32" "validCategories (g_suppress_categories p)"
    "validDomains (g_allow_domains p)" "validDomains (g_block_domains p)"
    using assms by (simp_all add: ValidatePolicy_def split: if_splits)
  have "small_list (g_excluded_labels p)"
    using v(1) by (intro small_listI) (auto simp: validUniqueLabels_def list_all_iff)
  moreover have "small_list (g_suppress_categories p)"
    using v(2) category_length by (intro small_listI) (fastforce simp: validCategories_def list_all_iff)+
  moreover have "small_list ds" if "validDomains ds" for ds
    using that validDomain_length by (intro small_listI) (fastforce simp: validDomains_def list_all_iff)+
  moreover have "small_list ts" if "validTerms lib ts" for ts
  proof (rule small_listI)
    show "length ts \<le> 256" using that by (simp add: validTerms_def split: if_splits)
    show "length t \<le> 256" if "t \<in> set ts" for t
      using that \<open>validTerms lib ts\<close> validTerms_from_lengths [of lib "[]" ts]
      by (fastforce simp: validTerms_def list_all_iff split: if_splits)
  qed
  ultimately show ?thesis
    using assms v by (simp add: small_policy_def ValidatePolicy_def split: if_splits)
qed

end
