(* ===== verification/Storage_Records.thy ===== *)
theory Storage_Records
  imports Storage_Values Mail_Content Gate_Classifier
begin

text \<open>
  The composite values of \<^verbatim>\<open>internal/storage\<close>: gate decisions (\<^verbatim>\<open>gate_decision.go\<close>), prepared
  discovery commits with their hashes and witnesses (\<^verbatim>\<open>current_discovery.go\<close>), candidate
  content commits (\<^verbatim>\<open>candidate_content.go\<close>) and the review queries (\<^verbatim>\<open>review_inspection.go\<close>).
\<close>

section \<open>Gate decisions\<close>

definition MaximumGateEvaluationUnixMS :: int where
  "MaximumGateEvaluationUnixMS = 253402300799999"

record gate_decision =
  gd_version :: u32
  gd_source_hash :: string
  gd_input_hash :: string
  gd_outcome :: outcome
  gd_reasons :: "reason_code list"
  gd_reason_json :: string
  gd_evaluated_at :: int

record gate_decision_revision =
  gr_version :: u32
  gr_input_hash :: string

record gate_decision_state =
  gs_decision :: gate_decision
  gs_current :: bool

record gate_decision_commit =
  gc_source :: message
  gc_expected :: "gate_decision_revision option"
  gc_next :: gate_decision

definition marshal_reasons :: "reason_code list \<Rightarrow> string" where
  "marshal_reasons rs = json_print True (json_strings rs)"

definition NewGateDecision :: "classification \<Rightarrow> int \<Rightarrow> gate_decision res" where
  "NewGateDecision c evaluatedAt =
    (if \<not> classification_valid c \<or> evaluatedAt < 0 \<or> evaluatedAt > MaximumGateEvaluationUnixMS then Inl invalid_value
     else let reasonBytes = marshal_reasons (cl_reasons c) in
       if length reasonBytes > MaximumReasonJSONBytes then Inl invalid_value
       else Inr \<lparr>gd_version = cl_version c, gd_source_hash = cl_source_hash c, gd_input_hash = cl_input_hash c,
         gd_outcome = cl_outcome c, gd_reasons = cl_reasons c, gd_reason_json = reasonBytes,
         gd_evaluated_at = evaluatedAt\<rparr>)"

text \<open>
  The text \<^verbatim>\<open>null\<close> gives a nil slice, here the empty list; both are refused, at the latest
  because a classification has at least one reason.
\<close>

definition DecodeGateDecision :: "int \<Rightarrow> string \<Rightarrow> string \<Rightarrow> string \<Rightarrow> string \<Rightarrow> int \<Rightarrow> gate_decision res" where
  "DecodeGateDecision version source inputHash outcome reasonJSON evaluatedAt =
    (if version < 0 \<or> version > 2 ^ 32 - 1 \<or> length reasonJSON > MaximumReasonJSONBytes \<or> evaluatedAt < 0 \<or>
        evaluatedAt > MaximumGateEvaluationUnixMS
     then Inl invalid_value
     else case Option.bind (json_unmarshal reasonJSON) decode_strs of
       None \<Rightarrow> Inl invalid_value
     | Some reasons \<Rightarrow>
         if marshal_reasons reasons \<noteq> reasonJSON then Inl invalid_value
         else case DecodeClassification (word_of_int version) source inputHash outcome reasons of
           Inl _ \<Rightarrow> Inl invalid_value
         | Inr c \<Rightarrow> NewGateDecision c evaluatedAt)"

definition gate_decision_revision :: "gate_decision \<Rightarrow> gate_decision_revision" where
  "gate_decision_revision d = \<lparr>gr_version = gd_version d, gr_input_hash = gd_input_hash d\<rparr>"

text \<open>\<^verbatim>\<open>Equal\<close> compares every field, \<^verbatim>\<open>SemanticEqual\<close> every field but the time.\<close>

definition decision_equal :: "gate_decision \<Rightarrow> gate_decision \<Rightarrow> bool" where
  "decision_equal a b \<longleftrightarrow> a = b"

definition decision_semantic_equal :: "gate_decision \<Rightarrow> gate_decision \<Rightarrow> bool" where
  "decision_semantic_equal a b \<longleftrightarrow> gd_version a = gd_version b \<and> gd_source_hash a = gd_source_hash b \<and>
     gd_input_hash a = gd_input_hash b \<and> gd_outcome a = gd_outcome b \<and> gd_reasons a = gd_reasons b \<and>
     gd_reason_json a = gd_reason_json b"

definition redecode_decision :: "gate_decision \<Rightarrow> gate_decision res" where
  "redecode_decision d = DecodeGateDecision (uint (gd_version d)) (gd_source_hash d) (gd_input_hash d)
     (gd_outcome d) (gd_reason_json d) (gd_evaluated_at d)"

definition decision_valid :: "gate_decision \<Rightarrow> bool" where
  "decision_valid d = (case redecode_decision d of Inl _ \<Rightarrow> False | Inr decoded \<Rightarrow> decision_equal d decoded)"

definition decision_revision_valid :: "gate_decision_revision \<Rightarrow> bool" where
  "decision_revision_valid r \<longleftrightarrow> gr_version r = GateVersion1 \<and> validLowerHex (gr_input_hash r) 64"

definition ValidateGmailMessageID :: "string \<Rightarrow> go_error option" where
  "ValidateGmailMessageID value =
    (if length value = 0 \<or> length value > 255 \<or> \<not> list_all visible_rune (runes value)
     then Some invalid_value else None)"

definition SourceAccountID :: "gate_decision_commit \<Rightarrow> account_id" where
  "SourceAccountID c = (case ParseAccountID (msg_account (gc_source c)) of Inl _ \<Rightarrow> AccountID [] | Inr i \<Rightarrow> i)"

definition ValidateGateDecisionCommit :: "gate_decision_commit \<Rightarrow> go_error option" where
  "ValidateGateDecisionCommit c =
    (case ParseAccountID (msg_account (gc_source c)) of
       Inl _ \<Rightarrow> Some invalid_value
     | Inr accountID \<Rightarrow>
         if \<not> account_id_valid accountID \<or> ValidateGmailMessageID (msg_gmail_id (gc_source c)) \<noteq> None \<or>
            \<not> message_valid (gc_source c) \<or> \<not> decision_valid (gc_next c) \<or>
            msg_hash (gc_source c) \<noteq> gd_source_hash (gc_next c)
         then Some invalid_value
         else if (case gc_expected c of None \<Rightarrow> False | Some r \<Rightarrow> \<not> decision_revision_valid r)
         then Some invalid_value else None)"

section \<open>Candidate content commits\<close>

record candidate_content_state =
  cs_content :: candidate_content
  cs_current :: bool

record candidate_content_commit =
  ccm_source :: message
  ccm_gate :: gate_decision
  ccm_version :: lifecycle_version
  ccm_expected :: "candidate_content_revision option"
  ccm_next :: candidate_content

definition ValidateCandidateContentCommit :: "candidate_content_commit \<Rightarrow> go_error option" where
  "ValidateCandidateContentCommit c =
    (case ParseAccountID (msg_account (ccm_source c)) of
       Inl _ \<Rightarrow> Some invalid_value
     | Inr accountID \<Rightarrow>
         if \<not> account_id_valid accountID \<or> \<not> message_valid (ccm_source c) \<or>
            ValidateGmailMessageID (msg_gmail_id (ccm_source c)) \<noteq> None \<or> \<not> decision_valid (ccm_gate c) \<or>
            \<not> lifecycle_version_valid (ccm_version c) \<or> \<not> content_valid (ccm_next c) \<or>
            cc_record_id (ccm_next c) \<noteq> msg_record_id (ccm_source c) \<or>
            cc_source_hash (ccm_next c) \<noteq> msg_hash (ccm_source c) \<or>
            cc_gate_version (ccm_next c) \<noteq> gd_version (ccm_gate c) \<or>
            cc_gate_input_hash (ccm_next c) \<noteq> gd_input_hash (ccm_gate c) \<or>
            gd_source_hash (ccm_gate c) \<noteq> msg_hash (ccm_source c)
         then Some invalid_value
         else if (case ccm_expected c of None \<Rightarrow> False | Some r \<Rightarrow> \<not> content_revision_valid r)
         then Some invalid_value else None)"

definition CandidateOutcome :: "outcome \<Rightarrow> bool" where
  "CandidateOutcome v \<longleftrightarrow> v = OutcomeReviewCandidate \<or> v = OutcomeUrgentReviewCandidate"

section \<open>Discovery commits\<close>

definition MaximumCurrentDiscoveryMessages :: nat where
  "MaximumCurrentDiscoveryMessages = 5000"

definition MaximumCurrentDiscoveryEncodedBytes :: nat where
  "MaximumCurrentDiscoveryEncodedBytes = 16777216"

definition CurrentDiscoveryStageChunkMessages :: nat where
  "CurrentDiscoveryStageChunkMessages = 64"

definition currentDiscoveryAttemptDomain :: string where
  "currentDiscoveryAttemptDomain = ''inboxgate/current-sync/v1''"

definition currentDiscoveryManifestDomain :: string where
  "currentDiscoveryManifestDomain = ''inboxgate/current-sync-manifest/v1''"

record current_discovery_commit =
  dc_account :: account_id
  dc_expected :: history_id
  dc_next :: history_id
  dc_messages :: "message list"

record prepared_current_discovery =
  pd_account :: account_id
  pd_expected :: history_id
  pd_next :: history_id
  pd_messages :: "message list"
  pd_sizes :: "u32 list"
  pd_bytes :: u64
  pd_attempt_id :: string
  pd_manifest_hash :: string
  pd_manifest_witness :: string

definition encodedMessageSize :: "message \<Rightarrow> u32" where
  "encodedMessageSize m = word_of_nat (4 + length (msg_record_id m) + 4 + length (msg_gmail_id m) + 4 +
     length (msg_thread_id m) + 4 + 4 + length (msg_json m) + 4 + length (msg_hash m))"

definition encoded_message :: "message \<Rightarrow> string" where
  "encoded_message m = length_prefixed (msg_record_id m) @ length_prefixed (msg_gmail_id m) @
     length_prefixed (msg_thread_id m) @ be32 (md_version (msg_metadata m)) @ length_prefixed (msg_json m) @
     length_prefixed (msg_hash m)"

definition hash_domain :: "string \<Rightarrow> string" where
  "hash_domain v = v @ [CHR 0x00]"

definition attempt_preimage :: "account_id \<Rightarrow> history_id \<Rightarrow> history_id \<Rightarrow> message list \<Rightarrow> string" where
  "attempt_preimage a e n ms = hash_domain currentDiscoveryAttemptDomain @ length_prefixed (account_id_string a) @
     length_prefixed (hid_text e) @ length_prefixed (hid_text n) @ be32 (word_of_nat (length ms)) @
     concat (map encoded_message ms)"

definition manifest_preimage :: "message list \<Rightarrow> string" where
  "manifest_preimage ms = hash_domain currentDiscoveryManifestDomain @ be32 (word_of_nat (length ms)) @
     concat (map encoded_message ms)"

text \<open>
  The deduplicating loop: \<open>Inl\<close> when two different messages share a Gmail identifier.
  \<^verbatim>\<open>slices.SortFunc\<close> does not fix the order of messages with the same identifier; they have to
  be equal, so the order does not matter, and a stable sort stands for it.
\<close>

fun unique_messages :: "message list \<Rightarrow> message list \<Rightarrow> message list res" where
  "unique_messages unique [] = Inr unique"
| "unique_messages unique (m # ms) =
    (if unique = [] \<or> msg_gmail_id (last unique) \<noteq> msg_gmail_id m then unique_messages (unique @ [m]) ms
     else if \<not> message_equal (last unique) m then Inl (StorageErr ErrCurrentDiscoveryConflict)
     else unique_messages unique ms)"

fun sum_sizes :: "u64 \<Rightarrow> message list \<Rightarrow> u64 option" where
  "sum_sizes n [] = Some n"
| "sum_sizes n (m # ms) =
    (let n = n + ucast (encodedMessageSize m) in
     if n > word_of_nat MaximumCurrentDiscoveryEncodedBytes then None else sum_sizes n ms)"

definition PrepareCurrentDiscoveryCommit :: "current_discovery_commit \<Rightarrow> prepared_current_discovery res" where
  "PrepareCurrentDiscoveryCommit c =
    (if \<not> account_id_valid (dc_account c) \<or> \<not> history_id_valid (dc_expected c) \<or> \<not> history_id_valid (dc_next c) \<or>
        history_id_compare (dc_next c) (dc_expected c) \<le> 0
     then Inl invalid_value
     else if length (dc_messages c) > MaximumCurrentDiscoveryMessages
     then Inl (StorageErr ErrCurrentDiscoveryTooLarge)
     else if \<not> list_all (\<lambda>m. message_valid m \<and> msg_account m = account_id_string (dc_account c)) (dc_messages c)
     then Inl invalid_value
     else case unique_messages [] (sort_key msg_gmail_id (dc_messages c)) of
       Inl e \<Rightarrow> Inl e
     | Inr ms \<Rightarrow> (case sum_sizes 0 ms of
         None \<Rightarrow> Inl (StorageErr ErrCurrentDiscoveryTooLarge)
       | Some bytes \<Rightarrow> Inr \<lparr>pd_account = dc_account c, pd_expected = dc_expected c, pd_next = dc_next c,
           pd_messages = ms, pd_sizes = map encodedMessageSize ms, pd_bytes = bytes,
           pd_attempt_id = hex_encode (sha256 (attempt_preimage (dc_account c) (dc_expected c) (dc_next c) ms)),
           pd_manifest_hash = hex_encode (sha256 (manifest_preimage ms)),
           pd_manifest_witness = hex_encode (manifest_preimage ms)\<rparr>))"

definition StageChunkCount :: "prepared_current_discovery \<Rightarrow> nat" where
  "StageChunkCount p =
    (length (pd_messages p) + CurrentDiscoveryStageChunkMessages - 1) div CurrentDiscoveryStageChunkMessages"

definition EncodedSize :: "prepared_current_discovery \<Rightarrow> int \<Rightarrow> u32" where
  "EncodedSize p i = (if i < 0 \<or> i \<ge> int (length (pd_sizes p)) then 0 else pd_sizes p ! nat i)"

definition RowWitness :: "prepared_current_discovery \<Rightarrow> int \<Rightarrow> string" where
  "RowWitness p i = (if i < 0 \<or> i \<ge> int (length (pd_messages p)) then []
     else hex_encode (encoded_message (pd_messages p ! nat i)))"

definition preparedCurrentDiscoveryValid :: "prepared_current_discovery \<Rightarrow> bool" where
  "preparedCurrentDiscoveryValid p =
    (case PrepareCurrentDiscoveryCommit \<lparr>dc_account = pd_account p, dc_expected = pd_expected p,
         dc_next = pd_next p, dc_messages = pd_messages p\<rparr> of
       Inl _ \<Rightarrow> False
     | Inr r \<Rightarrow> pd_attempt_id r = pd_attempt_id p \<and> pd_manifest_hash r = pd_manifest_hash p \<and>
         pd_manifest_witness r = pd_manifest_witness p \<and> pd_bytes r = pd_bytes p)"

section \<open>Review queries\<close>

definition MaximumReviewAccountSelectors :: nat where "MaximumReviewAccountSelectors = 16"
definition MaximumReviewSourceRows :: int where "MaximumReviewSourceRows = 101"
definition MaximumReviewScanRows :: nat where "MaximumReviewScanRows = 100"

type_synonym review_urgency = string

definition ReviewUrgencyAll :: review_urgency where "ReviewUrgencyAll = ''all''"
definition ReviewUrgencyStandard :: review_urgency where "ReviewUrgencyStandard = ''standard''"
definition ReviewUrgencyUrgent :: review_urgency where "ReviewUrgencyUrgent = ''urgent''"

definition urgency_valid :: "review_urgency \<Rightarrow> bool" where
  "urgency_valid u \<longleftrightarrow> u = ReviewUrgencyAll \<or> u = ReviewUrgencyStandard \<or> u = ReviewUrgencyUrgent"

record review_cursor_key =
  rk_account :: account_id
  rk_thread :: string
  rk_message :: string
  rk_present :: bool

definition zero_cursor_key :: review_cursor_key where
  "zero_cursor_key = \<lparr>rk_account = AccountID [], rk_thread = [], rk_message = [], rk_present = False\<rparr>"

definition NewReviewCursorKey :: "account_id \<Rightarrow> string \<Rightarrow> string \<Rightarrow> review_cursor_key res" where
  "NewReviewCursorKey a t m =
    (if \<not> account_id_valid a \<or> ValidateGmailMessageID t \<noteq> None \<or> ValidateGmailMessageID m \<noteq> None \<or>
        length t + length m > 255
     then Inl invalid_value
     else Inr \<lparr>rk_account = a, rk_thread = t, rk_message = m, rk_present = True\<rparr>)"

definition cursor_key_valid :: "review_cursor_key \<Rightarrow> bool" where
  "cursor_key_valid k =
    (if \<not> rk_present k then k = zero_cursor_key
     else NewReviewCursorKey (rk_account k) (rk_thread k) (rk_message k) = Inr k)"

record review_candidate_query =
  rq_accounts :: "account_id list"
  rq_urgency :: review_urgency
  rq_page_size :: int
  rq_after :: review_cursor_key
  rq_limit :: int

definition NewReviewCandidateQuery ::
  "account_id list \<Rightarrow> review_urgency \<Rightarrow> int \<Rightarrow> review_cursor_key \<Rightarrow> int \<Rightarrow> review_candidate_query res" where
  "NewReviewCandidateQuery ids urgency pageSize after limit =
    (if length ids > MaximumReviewAccountSelectors \<or> \<not> urgency_valid urgency \<or> pageSize < 1 \<or> pageSize > 10 \<or>
        \<not> cursor_key_valid after \<or> limit \<noteq> MaximumReviewSourceRows
     then Inl invalid_value
     else if \<not> (list_all account_id_valid ids \<and>
        successively (\<lambda>a b. account_id_string a < account_id_string b) ids)
     then Inl invalid_value
     else Inr \<lparr>rq_accounts = ids, rq_urgency = urgency, rq_page_size = pageSize, rq_after = after,
       rq_limit = limit\<rparr>)"

record review_candidate_row =
  row_message :: message
  row_decision :: gate_decision

definition row_valid :: "review_candidate_row \<Rightarrow> bool" where
  "row_valid r \<longleftrightarrow> message_valid (row_message r) \<and> decision_valid (row_decision r) \<and>
     msg_hash (row_message r) = gd_source_hash (row_decision r) \<and>
     (gd_outcome (row_decision r) = OutcomeReviewCandidate \<or>
      gd_outcome (row_decision r) = OutcomeUrgentReviewCandidate)"

definition NewReviewCandidateRow :: "message \<Rightarrow> gate_decision \<Rightarrow> review_candidate_row res" where
  "NewReviewCandidateRow m d = (let row = \<lparr>row_message = m, row_decision = d\<rparr> in
     if \<not> row_valid row then Inl invalid_value else Inr row)"

record current_gate_inspection =
  ins_message :: message
  ins_decision :: gate_decision

definition inspection_valid :: "current_gate_inspection \<Rightarrow> bool" where
  "inspection_valid i \<longleftrightarrow> message_valid (ins_message i) \<and> decision_valid (ins_decision i) \<and>
     msg_hash (ins_message i) = gd_source_hash (ins_decision i)"

definition NewCurrentGateInspection :: "message \<Rightarrow> gate_decision \<Rightarrow> current_gate_inspection res" where
  "NewCurrentGateInspection m d = (let i = \<lparr>ins_message = m, ins_decision = d\<rparr> in
     if \<not> inspection_valid i then Inl invalid_value else Inr i)"

definition DecodeReviewCandidateRow ::
  "string \<Rightarrow> string \<Rightarrow> string \<Rightarrow> int \<Rightarrow> string \<Rightarrow> string \<Rightarrow> review_candidate_row res" where
  "DecodeReviewCandidateRow accountID threadID messageID date outcome reasons =
    (if \<not> is_ok (ParseAccountID accountID) \<or> ValidateGmailMessageID threadID \<noteq> None \<or>
        ValidateGmailMessageID messageID \<noteq> None \<or> date < 0 \<or> length outcome = 0
     then Inl invalid_value else Inl invalid_value)"

section \<open>Decisions are read back as they were written\<close>

lemma ValidateGmailMessageID_None: "ValidateGmailMessageID v = None \<longleftrightarrow> validVisibleASCII v 1 255"
  by (auto simp: ValidateGmailMessageID_def validVisibleASCII_def visible_runes_iff Suc_le_eq)

lemma message_valid_gmail_id: "message_valid m \<Longrightarrow> ValidateGmailMessageID (msg_gmail_id m) = None"
  using message_valid_fields(2) [of m] by (simp add: ValidateGmailMessageID_None)

lemma message_valid_account: "message_valid m \<Longrightarrow> ParseAccountID (msg_account m) = Inr (AccountID (msg_account m))"
  using message_valid_fields(1) [of m] by (simp add: mail_validAccountID_def validLowerHex_def split: if_splits)

lemma reason_plain: "reason_valid r \<Longrightarrow> list_all (in_range 95 122) r"
  by (auto simp: reason_valid_def reason_defs in_range_def)

lemma reason_ascii: "reason_valid r \<Longrightarrow> list_all (\<lambda>c. bval c < 0x80) r"
  by (drule reason_plain) (auto simp: in_range_def list_all_iff)

lemma escape_plain: "in_range 95 122 c \<Longrightarrow> escape_chunk True [c] = [c]"
  using ascii_decode [of c "[]"] ascii_not_malformed [of c "[]"]
  by (simp add: escape_chunk_def in_range_def del: decode_rune.simps)

lemma concat_plain: "list_all (in_range 95 122) s \<Longrightarrow> concat (map (escape_chunk True \<circ> (\<lambda>c. [c])) s) = s"
  by (induction s) (simp_all add: escape_plain)

lemma reason_quote_length: "reason_valid r \<Longrightarrow> length (json_quote True r) \<le> 34"
  using reason_length [of r]
  by (simp add: json_quote_def chunks_ascii reason_ascii concat_plain reason_plain MaximumReasonCodeBytes_def)

lemma marshal_reasons_length:
  "list_all reason_valid rs \<Longrightarrow> length (json_print_list True (map JStr rs)) \<le> 35 * length rs"
proof (induction rs)
  case (Cons r rs)
  then show ?case using reason_quote_length [of r] by (cases rs) auto
qed simp

lemma classification_reasons: "classification_valid c \<Longrightarrow> list_all reason_valid (cl_reasons c) \<and> length (cl_reasons c) \<le> 10"
  by (simp add: classification_valid_iff DecodeClassification_Inr MaximumReasonCodes_def)

text \<open>The size check of the constructor never fires on a valid classification.\<close>

lemma NewGateDecision_Inr:
  "NewGateDecision c t = Inr d \<longleftrightarrow> classification_valid c \<and> 0 \<le> t \<and> t \<le> MaximumGateEvaluationUnixMS \<and>
    d = \<lparr>gd_version = cl_version c, gd_source_hash = cl_source_hash c, gd_input_hash = cl_input_hash c,
         gd_outcome = cl_outcome c, gd_reasons = cl_reasons c, gd_reason_json = marshal_reasons (cl_reasons c),
         gd_evaluated_at = t\<rparr>"
proof -
  have "length (marshal_reasons (cl_reasons c)) \<le> MaximumReasonJSONBytes" if "classification_valid c"
    using marshal_reasons_length [of "cl_reasons c"] classification_reasons [OF that]
    by (simp add: marshal_reasons_def json_strings_def MaximumReasonJSONBytes_def)
  then show ?thesis by (auto simp: NewGateDecision_def Let_def)
qed

lemma unmarshal_reasons:
  assumes "list_all reason_valid rs"
  shows "Option.bind (json_unmarshal (marshal_reasons rs)) decode_strs = Some rs"
proof -
  have "json_wf (json_strings rs)"
    using assms by (intro json_strings_wf) (auto simp: list_all_iff intro!: valid_utf8_ascii dest!: reason_ascii)
  then show ?thesis
    by (simp add: marshal_reasons_def json_unmarshal_print) (simp add: json_strings_def)
qed

lemma redecode_new_decision:
  assumes "NewGateDecision c t = Inr d"
  shows "redecode_decision d = Inr d"
proof -
  have c: "classification_valid c" and t: "0 \<le> t" "t \<le> MaximumGateEvaluationUnixMS"
    and d: "d = \<lparr>gd_version = cl_version c, gd_source_hash = cl_source_hash c, gd_input_hash = cl_input_hash c,
         gd_outcome = cl_outcome c, gd_reasons = cl_reasons c, gd_reason_json = marshal_reasons (cl_reasons c),
         gd_evaluated_at = t\<rparr>"
    using assms by (simp_all add: NewGateDecision_Inr)
  have len: "\<not> length (marshal_reasons (cl_reasons c)) > MaximumReasonJSONBytes"
    using assms c t by (auto simp: NewGateDecision_def Let_def split: if_splits)
  have again: "DecodeClassification (cl_version c) (cl_source_hash c) (cl_input_hash c) (cl_outcome c) (cl_reasons c) = Inr c"
    using c by (simp add: classification_valid_iff)
  show ?thesis
    using len again t uint_u32_bound [of "cl_version c"] assms
      unmarshal_reasons [OF conjunct1 [OF classification_reasons [OF c]]]
    by (simp add: redecode_decision_def DecodeGateDecision_def d)
qed

lemma decision_valid_iff: "decision_valid d \<longleftrightarrow> redecode_decision d = Inr d"
  by (auto simp: decision_valid_def decision_equal_def split: sum.splits)

lemma NewGateDecision_valid [validity]: "NewGateDecision c t = Inr d \<Longrightarrow> decision_valid d"
  by (simp add: decision_valid_iff redecode_new_decision)

lemma decision_valid_new: "decision_valid d \<Longrightarrow> \<exists>c. NewGateDecision c (gd_evaluated_at d) = Inr d"
  unfolding decision_valid_iff redecode_decision_def DecodeGateDecision_def
  by (auto split: if_splits option.splits sum.splits)

lemma decision_valid_fields:
  assumes "decision_valid d"
  shows "gd_version d = GateVersion1" "validLowerHex (gd_source_hash d) 64" "validLowerHex (gd_input_hash d) 64"
    "outcome_valid (gd_outcome d)" "gd_reason_json d = marshal_reasons (gd_reasons d)"
    "sorted_wrt (<) (gd_reasons d)" "gd_reasons d \<noteq> []" "list_all reason_valid (gd_reasons d)"
proof -
  obtain c t where "NewGateDecision c t = Inr d" using decision_valid_new [OF assms] by blast
  then show "gd_version d = GateVersion1" "validLowerHex (gd_source_hash d) 64" "validLowerHex (gd_input_hash d) 64"
    "outcome_valid (gd_outcome d)" "gd_reason_json d = marshal_reasons (gd_reasons d)"
    "sorted_wrt (<) (gd_reasons d)" "gd_reasons d \<noteq> []" "list_all reason_valid (gd_reasons d)"
    by (simp_all add: NewGateDecision_Inr classification_valid_iff DecodeClassification_Inr)
qed

lemma decision_revision_of_valid [validity]: "decision_valid d \<Longrightarrow> decision_revision_valid (gate_decision_revision d)"
  by (simp add: decision_revision_valid_def gate_decision_revision_def decision_valid_fields)

section \<open>Prepared discovery\<close>

abbreviation gids :: "message list \<Rightarrow> string list" where
  "gids ms \<equiv> map msg_gmail_id ms"

lemma unique_messages_Inr:
  assumes "unique_messages u ms = Inr r" and "sorted_wrt (<) (gids u)" and "sorted (gids (u @ ms))"
  shows "sorted_wrt (<) (gids r) \<and> set u \<subseteq> set r \<and> set r \<subseteq> set u \<union> set ms \<and>
    (\<forall>m \<in> set ms. \<exists>m' \<in> set r. message_equal m' m)"
  using assms
proof (induction u ms rule: unique_messages.induct)
  case (2 u m ms)
  show ?case
  proof (cases "u = [] \<or> msg_gmail_id (last u) \<noteq> msg_gmail_id m")
    case True
    have "\<forall>x\<in>set u. msg_gmail_id x < msg_gmail_id m"
    proof (cases "u = []")
      case False
      then obtain v x where u: "u = v @ [x]" by (meson rev_exhaust)
      then have "msg_gmail_id x < msg_gmail_id m" using True 2(5) False by (auto simp: sorted_append)
      then show ?thesis using 2(4) u by (auto simp: sorted_wrt_append)
    qed simp
    then have "sorted_wrt (<) (gids (u @ [m]))" using 2(4) by (auto simp: sorted_wrt_append)
    then show ?thesis using 2(1) [OF True] 2(3,5) True message_equal_refl by fastforce
  next
    case False
    then have ne: "u \<noteq> []" by simp
    have eq: "message_equal (last u) m" using 2(3) False by (auto split: if_splits)
    have "unique_messages u ms = Inr r" "sorted (gids (u @ ms))"
      using 2(3,5) False eq by (auto simp: sorted_append)
    then have "sorted_wrt (<) (gids r) \<and> set u \<subseteq> set r \<and> set r \<subseteq> set u \<union> set ms \<and>
        (\<forall>m \<in> set ms. \<exists>m' \<in> set r. message_equal m' m)"
      using 2(2) [OF False] eq 2(4) by simp
    then show ?thesis using eq last_in_set [OF ne] by auto
  qed
qed simp

lemma unique_messages_Inl:
  "unique_messages u ms = Inl e \<Longrightarrow> e = StorageErr ErrCurrentDiscoveryConflict \<and>
    (\<exists>a \<in> set u \<union> set ms. \<exists>b \<in> set ms. msg_gmail_id a = msg_gmail_id b \<and> \<not> message_equal a b)"
proof (induction u ms rule: unique_messages.induct)
  case (2 u m ms)
  then show ?case using last_in_set [of u] by (auto split: if_splits)
qed simp

lemma unique_messages_strict:
  "sorted_wrt (<) (gids (u @ ms)) \<Longrightarrow> unique_messages u ms = Inr (u @ ms)"
proof (induction u ms rule: unique_messages.induct)
  case (2 u m ms)
  have "u = [] \<or> msg_gmail_id (last u) \<noteq> msg_gmail_id m"
    using 2(3) by (cases u rule: rev_cases) (auto simp: sorted_wrt_append)
  then show ?case using 2 by simp
qed simp

text \<open>A valid message is small, so the 32-bit sizes and the 64-bit sum are exact.\<close>

lemma length_deriveRecordID [simp, lengths]: "length (deriveRecordID a g) = 64"
  by (simp add: deriveRecordID_def)

lemma message_valid_lengths:
  assumes "message_valid m"
  shows "length (msg_record_id m) = 64" "length (msg_gmail_id m) \<le> 255" "length (msg_thread_id m) \<le> 255"
    "length (msg_json m) \<le> 65536" "length (msg_hash m) = 64"
  using message_valid_fields [OF assms]
  by (simp_all add: validVisibleASCII_def MaximumCanonicalJSONBytes_def split: if_splits)

lemma encodedMessageSize_exact:
  assumes "message_valid m"
  shows "unat (encodedMessageSize m) = length (encoded_message m)" "length (encoded_message m) \<le> 66198"
proof -
  show le: "length (encoded_message m) \<le> 66198"
    using message_valid_lengths [OF assms] by (simp add: encoded_message_def)
  have "encodedMessageSize m = word_of_nat (length (encoded_message m))"
    unfolding encodedMessageSize_def encoded_message_def
    by (rule arg_cong [where f = word_of_nat]) simp
  then show "unat (encodedMessageSize m) = length (encoded_message m)"
    using le by (simp add: unsigned_of_nat take_bit_nat_eq_self)
qed

lemma unat_add_size:
  assumes "unat n \<le> 16777216" and "message_valid m"
  shows "unat (n + ucast (encodedMessageSize m) :: u64) = unat n + length (encoded_message m)"
proof -
  have u: "unat (ucast (encodedMessageSize m) :: u64) = length (encoded_message m)"
    using encodedMessageSize_exact [OF assms(2)] by (simp add: unsigned_ucast_eq take_bit_nat_eq_self)
  moreover have "length (encoded_message m) \<le> 66198" by (rule encodedMessageSize_exact(2) [OF assms(2)])
  ultimately show ?thesis using assms(1) by (subst unat_add_lem [THEN iffD1]) simp_all
qed

lemma sum_sizes_Some:
  assumes "sum_sizes n ms = Some k" and "unat n \<le> 16777216" and "list_all message_valid ms"
  shows "unat k = unat n + sum_list (map (\<lambda>m. length (encoded_message m)) ms) \<and> unat k \<le> 16777216"
  using assms
proof (induction ms arbitrary: n)
  case (Cons m ms)
  let ?n = "n + ucast (encodedMessageSize m) :: u64"
  have u: "unat ?n = unat n + length (encoded_message m)"
    using Cons.prems unat_add_size by simp
  have le: "\<not> ?n > word_of_nat MaximumCurrentDiscoveryEncodedBytes" and rec: "sum_sizes ?n ms = Some k"
    using Cons.prems(1) by (auto simp: Let_def split: if_splits)
  then have "unat ?n \<le> 16777216" by (simp add: MaximumCurrentDiscoveryEncodedBytes_def word_le_nat_alt not_less)
  then show ?case using Cons.IH [OF rec] Cons.prems(3) u by simp
qed simp

lemma encoded_message_inject:
  assumes "encoded_message m @ r = encoded_message m' @ r'" and "message_valid m" and "message_valid m'"
    and "msg_account m = msg_account m'"
  shows "message_equal m m' \<and> r = r'"
proof -
  note len = message_valid_lengths [OF assms(2)] message_valid_lengths [OF assms(3)]
  have lt: "length (msg_record_id m) < 2 ^ 32" "length (msg_record_id m') < 2 ^ 32"
    "length (msg_gmail_id m) < 2 ^ 32" "length (msg_gmail_id m') < 2 ^ 32"
    "length (msg_thread_id m) < 2 ^ 32" "length (msg_thread_id m') < 2 ^ 32"
    "length (msg_json m) < 2 ^ 32" "length (msg_json m') < 2 ^ 32"
    "length (msg_hash m) < 2 ^ 32" "length (msg_hash m') < 2 ^ 32"
    using len by simp_all
  show ?thesis
    using assms(1,4)
    by (simp only: encoded_message_def append_assoc lp.penc_append_inject [OF lt(1,2)]
        lp.penc_append_inject [OF lt(3,4)] lp.penc_append_inject [OF lt(5,6)]
        be32.penc_append_inject [OF TrueI TrueI] lp.penc_append_inject [OF lt(7,8)]
        lp.penc_append_inject [OF lt(9,10)] message_equal_def)
qed

lemma encoded_messages_inject:
  assumes "length ms = length ms'"
    and "concat (map encoded_message ms) @ r = concat (map encoded_message ms') @ r'"
    and "list_all (\<lambda>m. message_valid m \<and> msg_account m = a) ms" and "list_all (\<lambda>m. message_valid m \<and> msg_account m = a) ms'"
  shows "list_all2 message_equal ms ms' \<and> r = r'"
  using assms
proof (induction ms ms' rule: list_induct2)
  case (Cons m ms m' ms')
  then have "message_equal m m' \<and> concat (map encoded_message ms) @ r = concat (map encoded_message ms') @ r'"
    by (intro encoded_message_inject) simp_all
  then show ?case using Cons by simp
qed simp

text \<open>The attempt hash covers the account, both cursors and every durable field of the messages.\<close>

definition belongs :: "account_id \<Rightarrow> message list \<Rightarrow> bool" where
  "belongs a ms \<longleftrightarrow> length ms \<le> MaximumCurrentDiscoveryMessages \<and>
     list_all (\<lambda>m. message_valid m \<and> msg_account m = account_id_string a) ms"

lemma history_id_valid_length: "history_id_valid h \<Longrightarrow> length (hid_text h) \<le> 20"
  using history_id_valid_of [of h] format_uint_u64_length [of "hid_value h"]
  by (metis history_id.select_convs(1) history_id_of_def)

lemma history_id_text_inject: "history_id_valid g \<Longrightarrow> history_id_valid h \<Longrightarrow> hid_text g = hid_text h \<longleftrightarrow> g = h"
  using history.enc_inject by blast

lemma length_words_inject:
  assumes "length xs \<le> MaximumCurrentDiscoveryMessages" and "length ys \<le> MaximumCurrentDiscoveryMessages"
    and "(word_of_nat (length xs) :: u32) = word_of_nat (length ys)"
  shows "length xs = length ys"
  using assms by (intro word_of_nat_inject32) (simp_all add: MaximumCurrentDiscoveryMessages_def)

lemma attempt_preimage_inject:
  assumes eq: "attempt_preimage a e n ms = attempt_preimage a' e' n' ms'"
    and v: "account_id_valid a" "account_id_valid a'" "history_id_valid e" "history_id_valid e'"
      "history_id_valid n" "history_id_valid n'"
    and b: "belongs a ms" "belongs a' ms'"
  shows "a = a' \<and> e = e' \<and> n = n' \<and> list_all2 message_equal ms ms'"
proof -
  have la: "length (account_id_string a) < 2 ^ 32" "length (account_id_string a') < 2 ^ 32"
    using v(1,2) by (simp_all add: account_id_valid_iff)
  have lh: "length (hid_text e) < 2 ^ 32" "length (hid_text e') < 2 ^ 32" "length (hid_text n) < 2 ^ 32"
    "length (hid_text n') < 2 ^ 32"
    using v(3-6) history_id_valid_length [of e] history_id_valid_length [of e'] history_id_valid_length [of n]
      history_id_valid_length [of n'] by simp_all
  have parts: "account_id_string a = account_id_string a' \<and> hid_text e = hid_text e' \<and> hid_text n = hid_text n' \<and>
      (word_of_nat (length ms) :: u32) = word_of_nat (length ms') \<and>
      concat (map encoded_message ms) @ [] = concat (map encoded_message ms') @ []"
    using eq by (simp only: attempt_preimage_def same_append_eq lp.penc_append_inject [OF la]
        lp.penc_append_inject [OF lh(1,2)] lp.penc_append_inject [OF lh(3,4)]
        be32.penc_append_inject [OF TrueI TrueI])
  then have a: "a = a'" "e = e'" "n = n'"
    using v history_id_text_inject by (auto intro: account_id.expand)
  have "length ms = length ms'"
    using length_words_inject [of ms ms'] parts b by (simp add: belongs_def)
  then show ?thesis
    using a encoded_messages_inject [of ms ms' "[]" "[]" "account_id_string a"] parts b by (simp add: belongs_def)
qed

definition prepared_ok :: "prepared_current_discovery \<Rightarrow> bool" where
  "prepared_ok p \<longleftrightarrow> account_id_valid (pd_account p) \<and> history_id_valid (pd_expected p) \<and> history_id_valid (pd_next p) \<and>
     hid_value (pd_expected p) < hid_value (pd_next p) \<and> belongs (pd_account p) (pd_messages p) \<and>
     sorted_wrt (<) (gids (pd_messages p)) \<and> pd_sizes p = map encodedMessageSize (pd_messages p) \<and>
     sum_sizes 0 (pd_messages p) = Some (pd_bytes p) \<and>
     pd_attempt_id p = hex_encode (sha256 (attempt_preimage (pd_account p) (pd_expected p) (pd_next p) (pd_messages p))) \<and>
     pd_manifest_hash p = hex_encode (sha256 (manifest_preimage (pd_messages p))) \<and>
     pd_manifest_witness p = hex_encode (manifest_preimage (pd_messages p))"

lemma history_id_compare_pos: "history_id_compare a b \<le> 0 \<longleftrightarrow> \<not> hid_value b < hid_value a"
  by (auto simp: history_id_compare_def)

lemma sorted_gids: "sorted (gids (sort_key msg_gmail_id ms))"
  by (rule sorted_sort_key)

lemma strict_gids_length:
  assumes "sorted_wrt (<) (gids r)" and "set r \<subseteq> set ms"
  shows "length r \<le> length ms"
proof -
  have "distinct r" using assms(1) by (metis distinct_map strict_sorted_iff)
  then have "length r = card (set r)" by (simp add: distinct_card)
  also have "\<dots> \<le> length ms" using card_mono [OF finite_set assms(2)] card_length [of ms] by linarith
  finally show ?thesis .
qed

lemma Prepare_Inr:
  assumes "PrepareCurrentDiscoveryCommit c = Inr p"
  shows "prepared_ok p" "pd_account p = dc_account c" "pd_expected p = dc_expected c" "pd_next p = dc_next c"
    "set (pd_messages p) \<subseteq> set (dc_messages c)" "\<forall>m \<in> set (dc_messages c). \<exists>m' \<in> set (pd_messages p). message_equal m' m"
proof -
  obtain ms b where ms: "unique_messages [] (sort_key msg_gmail_id (dc_messages c)) = Inr ms"
    and b: "sum_sizes 0 ms = Some b"
    and guards: "account_id_valid (dc_account c)" "history_id_valid (dc_expected c)" "history_id_valid (dc_next c)"
      "hid_value (dc_expected c) < hid_value (dc_next c)" "length (dc_messages c) \<le> MaximumCurrentDiscoveryMessages"
      "list_all (\<lambda>m. message_valid m \<and> msg_account m = account_id_string (dc_account c)) (dc_messages c)"
    and p: "p = \<lparr>pd_account = dc_account c, pd_expected = dc_expected c, pd_next = dc_next c,
           pd_messages = ms, pd_sizes = map encodedMessageSize ms, pd_bytes = b,
           pd_attempt_id = hex_encode (sha256 (attempt_preimage (dc_account c) (dc_expected c) (dc_next c) ms)),
           pd_manifest_hash = hex_encode (sha256 (manifest_preimage ms)),
           pd_manifest_witness = hex_encode (manifest_preimage ms)\<rparr>"
    using assms
    by (auto simp: PrepareCurrentDiscoveryCommit_def history_id_compare_pos split: if_splits sum.splits option.splits)
  have u: "sorted_wrt (<) (gids ms)" "set ms \<subseteq> set (dc_messages c)"
    "\<forall>m \<in> set (dc_messages c). \<exists>m' \<in> set ms. message_equal m' m"
    using unique_messages_Inr [OF ms] sorted_gids by auto
  have "belongs (dc_account c) ms"
    using guards(5,6) u strict_gids_length [OF u(1,2)] by (auto simp: belongs_def list_all_iff)
  then show "prepared_ok p" using guards u b by (simp add: prepared_ok_def p)
  show "pd_account p = dc_account c" "pd_expected p = dc_expected c" "pd_next p = dc_next c"
    "set (pd_messages p) \<subseteq> set (dc_messages c)" "\<forall>m \<in> set (dc_messages c). \<exists>m' \<in> set (pd_messages p). message_equal m' m"
    using u by (simp_all add: p)
qed

text \<open>Preparing the messages of a prepared commit changes nothing.\<close>

lemma Prepare_again:
  assumes "prepared_ok p"
  shows "PrepareCurrentDiscoveryCommit \<lparr>dc_account = pd_account p, dc_expected = pd_expected p,
    dc_next = pd_next p, dc_messages = pd_messages p\<rparr> = Inr p"
proof -
  have "sorted (gids (pd_messages p))" using assms by (simp add: prepared_ok_def strict_sorted_iff)
  then have "sort_key msg_gmail_id (pd_messages p) = pd_messages p" by (rule sort_key_id_if_sorted)
  moreover have "unique_messages [] (pd_messages p) = Inr (pd_messages p)"
    using unique_messages_strict [of "[]" "pd_messages p"] assms by (simp add: prepared_ok_def)
  ultimately show ?thesis
    using assms
    by (simp add: PrepareCurrentDiscoveryCommit_def prepared_ok_def belongs_def history_id_compare_pos)
qed

lemma Prepare_valid [validity]: "PrepareCurrentDiscoveryCommit c = Inr p \<Longrightarrow> preparedCurrentDiscoveryValid p"
  using Prepare_again [OF Prepare_Inr(1)] by (simp add: preparedCurrentDiscoveryValid_def)

lemma prepared_bytes:
  assumes "prepared_ok p"
  shows "unat (pd_bytes p) = sum_list (map (\<lambda>m. length (encoded_message m)) (pd_messages p))"
    "unat (pd_bytes p) \<le> MaximumCurrentDiscoveryEncodedBytes"
  using sum_sizes_Some [of 0 "pd_messages p" "pd_bytes p"] assms
  by (auto simp: prepared_ok_def belongs_def list_all_iff MaximumCurrentDiscoveryEncodedBytes_def)

end
