(* ===== verification/Fake_Store.thy ===== *)
theory Fake_Store
  imports Storage_Records "HOL-Library.Product_Lexorder"
begin

text \<open>
  \<^verbatim>\<open>internal/storage/fake/fake.go\<close>: the in-memory implementation of \<^verbatim>\<open>storage.Handle\<close>, the
  executable contract that every persistence adapter has to meet. The store is a record of
  finite maps; an operation takes what \<^verbatim>\<open>ctx.Err()\<close> returned, its arguments and the store, and
  returns the error (\<open>None\<close> is success) with the store it leaves. Operations that only read
  return their result. Each operation runs under the mutex from its first access to the last, so one
  operation is one step. A pointer kept in a map and changed in place is an update of the map.
\<close>

section \<open>State\<close>

record message_natural_key =
  nk_account :: account_id
  nk_gmail_id :: string

record discovery_attempt =
  at_prepared :: prepared_current_discovery
  at_state :: string
  at_staged :: "message list"

record store =
  accounts :: "(account_id, account) fmap"
  bySubject :: "(provider_subject, account_id) fmap"
  cursors :: "(account_id, history_id) fmap"
  credentials :: "(account_id, provider_credential) fmap"
  lifecycles :: "(account_id, account_lifecycle) fmap"
  messages :: "(account_id, (string, message) fmap) fmap"
  records :: "(string, message_natural_key) fmap"
  attempts :: "(account_id, discovery_attempt) fmap"
  decisions :: "(string, gate_decision) fmap"
  contents :: "(string, candidate_content) fmap"

record migration_result =
  mr_applied :: "16 word"
  mr_current :: "16 word"

definition New :: store where
  "New = \<lparr>accounts = fmempty, bySubject = fmempty, cursors = fmempty, credentials = fmempty, lifecycles = fmempty,
     messages = fmempty, records = fmempty, attempts = fmempty, decisions = fmempty, contents = fmempty\<rparr>"

definition check_account_id :: "account_id \<Rightarrow> bool" where
  "check_account_id i = (case ParseAccountID (account_id_string i) of Inl _ \<Rightarrow> False | Inr p \<Rightarrow> p = i)"

definition message_at :: "store \<Rightarrow> account_id \<Rightarrow> string \<Rightarrow> message option" where
  "message_at s a g = Option.bind (fmlookup (messages s) a) (\<lambda>m. fmlookup m g)"

section \<open>Accounts, cursors and credentials\<close>

definition Ping :: "ctx \<Rightarrow> go_error option" where
  "Ping ctx = ctx"

definition Migrate :: "ctx \<Rightarrow> migration_result res" where
  "Migrate ctx = (case ctx of Some e \<Rightarrow> Inl e | None \<Rightarrow> Inr \<lparr>mr_applied = 0, mr_current = 7\<rparr>)"

definition EnsureAccount :: "ctx \<Rightarrow> account_seed \<Rightarrow> store \<Rightarrow> account res \<times> store" where
  "EnsureAccount ctx seed s =
    (case ctx of Some e \<Rightarrow> (Inl e, s) | None \<Rightarrow>
     (case ValidateAccountSeed seed of Some e \<Rightarrow> (Inl e, s) | None \<Rightarrow>
      (case fmlookup (bySubject s) (seed_subject seed) of
         Some canonicalID \<Rightarrow>
           (case fmlookup (accounts s) (seed_id seed) of
              Some existing \<Rightarrow>
                if acct_subject existing \<noteq> seed_subject seed then (Inl (StorageErr ErrAccountConflict), s)
                else (Inr (case fmlookup (accounts s) canonicalID of Some a \<Rightarrow> a
                   | None \<Rightarrow> \<lparr>acct_id = AccountID [], acct_subject = ProviderSubject []\<rparr>), s)
            | None \<Rightarrow> (Inr (case fmlookup (accounts s) canonicalID of Some a \<Rightarrow> a
                   | None \<Rightarrow> \<lparr>acct_id = AccountID [], acct_subject = ProviderSubject []\<rparr>), s))
       | None \<Rightarrow>
           if fmlookup (accounts s) (seed_id seed) \<noteq> None then (Inl (StorageErr ErrAccountConflict), s)
           else
             let account = \<lparr>acct_id = seed_id seed, acct_subject = seed_subject seed\<rparr>;
                 version = (case ParseLifecycleVersion 1 of Inl _ \<Rightarrow> 0 | Inr v \<Rightarrow> v)
             in (Inr account,
                 s\<lparr>accounts := fmupd (seed_id seed) account (accounts s),
                   bySubject := fmupd (seed_subject seed) (seed_id seed) (bySubject s),
                   lifecycles := fmupd (seed_id seed)
                     \<lparr>lc_account = seed_id seed, lc_state = AccountStatePending, lc_version = version,
                      lc_reason = None, lc_revocation = RevocationStatusNone\<rparr> (lifecycles s)\<rparr>))))"

definition GetSynchronizationCursor :: "ctx \<Rightarrow> account_id \<Rightarrow> store \<Rightarrow> synchronization_cursor res" where
  "GetSynchronizationCursor ctx i s =
    (case ctx of Some e \<Rightarrow> Inl e | None \<Rightarrow>
     if \<not> check_account_id i then Inl invalid_value
     else if fmlookup (accounts s) i = None then Inl (StorageErr ErrAccountNotFound)
     else case fmlookup (cursors s) i of
       None \<Rightarrow> Inl (StorageErr ErrCursorNotFound)
     | Some h \<Rightarrow> Inr \<lparr>sc_account = i, sc_history = h\<rparr>)"

definition CommitSynchronization :: "ctx \<Rightarrow> synchronization_commit \<Rightarrow> store \<Rightarrow> go_error option \<times> store" where
  "CommitSynchronization ctx c s =
    (case ctx of Some e \<Rightarrow> (Some e, s) | None \<Rightarrow>
     (case ValidateSynchronizationCommit c of Some e \<Rightarrow> (Some e, s) | None \<Rightarrow>
      if fmlookup (accounts s) (sync_account c) = None then (Some (StorageErr ErrAccountNotFound), s)
      else if fmlookup (cursors s) (sync_account c) \<noteq> None \<or> fmlookup (attempts s) (sync_account c) \<noteq> None
      then (Some (StorageErr ErrCursorConflict), s)
      else (None, s\<lparr>cursors := fmupd (sync_account c) (sync_next c) (cursors s)\<rparr>)))"

definition GetProviderCredential :: "ctx \<Rightarrow> account_id \<Rightarrow> store \<Rightarrow> provider_credential res" where
  "GetProviderCredential ctx i s =
    (case ctx of Some e \<Rightarrow> Inl e | None \<Rightarrow>
     if \<not> check_account_id i then Inl invalid_value
     else if fmlookup (accounts s) i = None then Inl (StorageErr ErrAccountNotFound)
     else case fmlookup (credentials s) i of
       None \<Rightarrow> Inl (StorageErr ErrCredentialNotFound)
     | Some c \<Rightarrow> Inr c)"

definition CommitProviderCredential :: "ctx \<Rightarrow> provider_credential_commit \<Rightarrow> store \<Rightarrow> go_error option \<times> store" where
  "CommitProviderCredential ctx c s =
    (case ctx of Some e \<Rightarrow> (Some e, s) | None \<Rightarrow>
     (case ValidateProviderCredentialCommit c of Some e \<Rightarrow> (Some e, s) | None \<Rightarrow>
      if fmlookup (accounts s) (pcc_account c) = None then (Some (StorageErr ErrAccountNotFound), s)
      else if (case fmlookup (lifecycles s) (pcc_account c) of
                 None \<Rightarrow> True | Some l \<Rightarrow> lc_state l = AccountStateRevoked)
      then (Some (StorageErr ErrLifecycleConflict), s)
      else
        let write = s\<lparr>credentials := fmupd (pcc_account c) \<lparr>cred_account = pcc_account c,
              cred_key_id = env_key_id (pcc_next c), cred_envelope = pcc_next c\<rparr> (credentials s)\<rparr>
        in case fmlookup (credentials s) (pcc_account c) of
          None \<Rightarrow>
            if pcc_expected c \<noteq> None then (Some (StorageErr ErrCredentialConflict), s)
            else (None, write)
        | Some current \<Rightarrow>
            if cred_envelope current = pcc_next c then (None, s)
            else if pcc_expected c \<noteq> Some (cred_envelope current)
            then (Some (StorageErr ErrCredentialConflict), s)
            else (None, write)))"

section \<open>Lifecycle\<close>

definition summary_of :: "store \<Rightarrow> account_id \<Rightarrow> account_lifecycle \<Rightarrow> account_summary" where
  "summary_of s i l = \<lparr>sum_account = i, sum_provider = ProviderGmail, sum_state = lc_state l,
     sum_version = lc_version l, sum_reason = lc_reason l, sum_revocation = lc_revocation l,
     sum_cursor_present = (fmlookup (cursors s) i \<noteq> None),
     sum_credential_present = (fmlookup (credentials s) i \<noteq> None)\<rparr>"

definition ListAccounts :: "ctx \<Rightarrow> store \<Rightarrow> account_summary list res" where
  "ListAccounts ctx s =
    (case ctx of Some e \<Rightarrow> Inl e | None \<Rightarrow>
     let ids = sorted_list_of_fset (fmdom (lifecycles s)) in
     if length ids > MaximumAccountList then Inl (StorageErr ErrResultTooLarge)
     else Inr (map (\<lambda>i. summary_of s i (the (fmlookup (lifecycles s) i))) ids))"

definition GetAccountLifecycle :: "ctx \<Rightarrow> account_id \<Rightarrow> store \<Rightarrow> account_lifecycle res" where
  "GetAccountLifecycle ctx i s =
    (case ctx of Some e \<Rightarrow> Inl e | None \<Rightarrow>
     if \<not> check_account_id i then Inl invalid_value
     else case fmlookup (lifecycles s) i of
       None \<Rightarrow> if fmlookup (accounts s) i \<noteq> None then Inl (StorageErr ErrLifecycleNotFound)
               else Inl (StorageErr ErrAccountNotFound)
     | Some l \<Rightarrow> Inr l)"

definition CommitAccountLifecycle :: "ctx \<Rightarrow> lifecycle_commit \<Rightarrow> store \<Rightarrow> go_error option \<times> store" where
  "CommitAccountLifecycle ctx c s =
    (case ctx of Some e \<Rightarrow> (Some e, s) | None \<Rightarrow>
     (case ValidateLifecycleCommit c of Some e \<Rightarrow> (Some e, s) | None \<Rightarrow>
      (case fmlookup (lifecycles s) (cm_account c) of
         None \<Rightarrow> if fmlookup (accounts s) (cm_account c) \<noteq> None then (Some (StorageErr ErrLifecycleNotFound), s)
                 else (Some (StorageErr ErrAccountNotFound), s)
       | Some current \<Rightarrow>
           if LifecycleMatchesCommit current c
           then if LifecycleCommitIsRevocationClaim c then (Some (StorageErr ErrLifecycleConflict), s) else (None, s)
           else if lc_state current \<noteq> cm_expected_state c \<or> lc_version current \<noteq> cm_expected_version c \<or>
                   lc_revocation current \<noteq> cm_expected_revocation c
           then (Some (StorageErr ErrLifecycleConflict), s)
           else if cm_next_state c = AccountStateActive \<and> fmlookup (cursors s) (cm_account c) = None
           then (Some (StorageErr ErrLifecycleIncomplete), s)
           else if cm_next_state c = AccountStateActive \<and> fmlookup (credentials s) (cm_account c) = None
           then (Some (StorageErr ErrLifecycleIncomplete), s)
           else
             let version = (case ParseLifecycleVersion (int64_add (lc_version current) 1) of Inl _ \<Rightarrow> 0 | Inr v \<Rightarrow> v);
                 s' = s\<lparr>lifecycles := fmupd (cm_account c)
                   \<lparr>lc_account = cm_account c, lc_state = cm_next_state c, lc_version = version,
                    lc_reason = cm_reason c, lc_revocation = cm_revocation c\<rparr> (lifecycles s)\<rparr>
             in (None, if cm_next_state c = AccountStateRevoked
                       then s'\<lparr>attempts := fmdrop (cm_account c) (attempts s')\<rparr> else s'))))"

definition DeleteRevokedProviderCredential ::
  "ctx \<Rightarrow> revoked_credential_delete \<Rightarrow> store \<Rightarrow> go_error option \<times> store" where
  "DeleteRevokedProviderCredential ctx d s =
    (case ctx of Some e \<Rightarrow> (Some e, s) | None \<Rightarrow>
     (case ValidateRevokedCredentialDelete d of Some e \<Rightarrow> (Some e, s) | None \<Rightarrow>
      (case fmlookup (lifecycles s) (rcd_account d) of
         None \<Rightarrow> if fmlookup (accounts s) (rcd_account d) \<noteq> None then (Some (StorageErr ErrLifecycleNotFound), s)
                 else (Some (StorageErr ErrAccountNotFound), s)
       | Some l \<Rightarrow>
           if lc_state l \<noteq> AccountStateRevoked then (Some (StorageErr ErrLifecycleConflict), s)
           else case fmlookup (credentials s) (rcd_account d) of
             None \<Rightarrow> (None, s)
           | Some credential \<Rightarrow>
               if cred_envelope credential \<noteq> rcd_expected d then (Some (StorageErr ErrCredentialConflict), s)
               else (None, s\<lparr>credentials := fmdrop (rcd_account d) (credentials s)\<rparr>))))"

section \<open>Discovery\<close>

definition currentDiscoveryDurable :: "store \<Rightarrow> prepared_current_discovery \<Rightarrow> bool" where
  "currentDiscoveryDurable s p =
    (if fmlookup (attempts s) (pd_account p) \<noteq> None then False
     else if fmlookup (cursors s) (pd_account p) \<noteq> Some (pd_next p) then False
     else list_all (\<lambda>m. case message_at s (pd_account p) (msg_gmail_id m) of
            None \<Rightarrow> False | Some stored \<Rightarrow> message_equal stored m) (pd_messages p))"

text \<open>The first loop of \<^verbatim>\<open>finalizeCurrentDiscovery\<close> looks for conflicts, the second stores.\<close>

fun staged_conflict :: "store \<Rightarrow> account_id \<Rightarrow> message list \<Rightarrow> go_error option" where
  "staged_conflict s a [] = None"
| "staged_conflict s a (m # ms) =
    (if (case fmlookup (records s) (msg_record_id m) of
           None \<Rightarrow> False | Some occupied \<Rightarrow> occupied \<noteq> \<lparr>nk_account = a, nk_gmail_id = msg_gmail_id m\<rparr>)
     then Some (StorageErr ErrMessageIdentityCollision)
     else case message_at s a (msg_gmail_id m) of
       None \<Rightarrow> staged_conflict s a ms
     | Some existing \<Rightarrow>
         if msg_record_id existing \<noteq> msg_record_id m then Some (StorageErr ErrCurrentDiscoveryRecoveryRequired)
         else if msg_thread_id existing \<noteq> msg_thread_id m then Some (StorageErr ErrCurrentDiscoveryConflict)
         else staged_conflict s a ms)"

definition put_message :: "account_id \<Rightarrow> message \<Rightarrow> store \<Rightarrow> store" where
  "put_message a m s = s\<lparr>
     messages := fmupd a (fmupd (msg_gmail_id m) m
       (case fmlookup (messages s) a of None \<Rightarrow> fmempty | Some x \<Rightarrow> x)) (messages s),
     records := fmupd (msg_record_id m) \<lparr>nk_account = a, nk_gmail_id = msg_gmail_id m\<rparr> (records s)\<rparr>"

definition ensure_messages :: "account_id \<Rightarrow> store \<Rightarrow> store" where
  "ensure_messages a s = (if fmlookup (messages s) a = None
     then s\<lparr>messages := fmupd a fmempty (messages s)\<rparr> else s)"

definition finalizeCurrentDiscovery :: "prepared_current_discovery \<Rightarrow> store \<Rightarrow> go_error option \<times> store" where
  "finalizeCurrentDiscovery p s =
    (case fmlookup (attempts s) (pd_account p) of
       None \<Rightarrow> (Some (StorageErr ErrCurrentDiscoveryRecoveryRequired), s)
     | Some attempt \<Rightarrow>
         if at_state attempt \<noteq> ''sealed'' \<or> pd_attempt_id (at_prepared attempt) \<noteq> pd_attempt_id p \<or>
            length (at_staged attempt) \<noteq> length (pd_messages p)
         then (Some (StorageErr ErrCurrentDiscoveryRecoveryRequired), s)
         else if (case fmlookup (lifecycles s) (pd_account p) of
                    None \<Rightarrow> True | Some l \<Rightarrow> lc_state l \<noteq> AccountStateActive)
         then (Some (StorageErr ErrLifecycleConflict), s)
         else if fmlookup (cursors s) (pd_account p) \<noteq> Some (pd_expected p)
         then (Some (StorageErr ErrCurrentDiscoveryConflict), s)
         else case staged_conflict s (pd_account p) (at_staged attempt) of
           Some e \<Rightarrow> (Some e, s)
         | None \<Rightarrow>
             let s' = fold (put_message (pd_account p)) (at_staged attempt) (ensure_messages (pd_account p) s)
             in (None, s'\<lparr>cursors := fmupd (pd_account p) (pd_next p) (cursors s'),
                          attempts := fmdrop (pd_account p) (attempts s')\<rparr>))"

definition CommitCurrentDiscovery :: "ctx \<Rightarrow> current_discovery_commit \<Rightarrow> store \<Rightarrow> go_error option \<times> store" where
  "CommitCurrentDiscovery ctx c s =
    (case ctx of Some e \<Rightarrow> (Some e, s) | None \<Rightarrow>
     (case PrepareCurrentDiscoveryCommit c of Inl e \<Rightarrow> (Some e, s) | Inr p \<Rightarrow>
      if currentDiscoveryDurable s p then (None, s)
      else case fmlookup (lifecycles s) (pd_account p) of
        None \<Rightarrow> if fmlookup (accounts s) (pd_account p) \<noteq> None then (Some (StorageErr ErrLifecycleNotFound), s)
                else (Some (StorageErr ErrAccountNotFound), s)
      | Some l \<Rightarrow>
        if lc_state l \<noteq> AccountStateActive then (Some (StorageErr ErrLifecycleConflict), s)
        else (case fmlookup (cursors s) (pd_account p) of
          None \<Rightarrow> (Some (StorageErr ErrCursorNotFound), s)
        | Some cursor \<Rightarrow>
          if cursor \<noteq> pd_expected p then (Some (StorageErr ErrCurrentDiscoveryConflict), s)
          else
            let seal = (\<lambda>attempt. s\<lparr>attempts := fmupd (pd_account p)
                   (attempt\<lparr>at_staged := pd_messages p, at_state := ''sealed''\<rparr>) (attempts s)\<rparr>)
            in case fmlookup (attempts s) (pd_account p) of
              Some existing \<Rightarrow>
                if pd_attempt_id (at_prepared existing) \<noteq> pd_attempt_id p
                then (Some (StorageErr ErrCurrentDiscoveryConflict), s)
                else if at_state existing = ''sealed'' then finalizeCurrentDiscovery (at_prepared existing) s
                else finalizeCurrentDiscovery p (seal existing)
            | None \<Rightarrow>
                finalizeCurrentDiscovery p
                  (seal \<lparr>at_prepared = p, at_state = ''open'', at_staged = []\<rparr>))))"

definition ReconcileCurrentDiscovery :: "ctx \<Rightarrow> account_id \<Rightarrow> store \<Rightarrow> go_error option \<times> store" where
  "ReconcileCurrentDiscovery ctx i s =
    (case ctx of Some e \<Rightarrow> (Some e, s) | None \<Rightarrow>
     if \<not> check_account_id i then (Some invalid_value, s)
     else case fmlookup (attempts s) i of
       None \<Rightarrow> (None, s)
     | Some attempt \<Rightarrow>
       let p = at_prepared attempt; recovery = (Some (StorageErr ErrCurrentDiscoveryRecoveryRequired), s) in
       if at_state attempt = ''open'' then
         if fmlookup (cursors s) i \<noteq> Some (pd_expected p) \<or> length (at_staged attempt) > length (pd_messages p)
         then recovery
         else (case fmlookup (lifecycles s) i of
           None \<Rightarrow> recovery
         | Some l \<Rightarrow> if lc_state l \<noteq> AccountStateActive then (Some (StorageErr ErrLifecycleConflict), s)
             else (None, s\<lparr>attempts := fmdrop i (attempts s)\<rparr>))
       else (case PrepareCurrentDiscoveryCommit \<lparr>dc_account = pd_account p, dc_expected = pd_expected p,
                dc_next = pd_next p, dc_messages = at_staged attempt\<rparr> of
         Inl _ \<Rightarrow> recovery
       | Inr rebuilt \<Rightarrow>
         if pd_attempt_id rebuilt \<noteq> pd_attempt_id p \<or> pd_manifest_hash rebuilt \<noteq> pd_manifest_hash p \<or>
            pd_bytes rebuilt \<noteq> pd_bytes p
         then recovery
         else if fmlookup (cursors s) i \<noteq> Some (pd_expected p) then recovery
         else if at_state attempt \<noteq> ''sealed'' \<or> length (at_staged attempt) \<noteq> length (pd_messages p) then recovery
         else (case fmlookup (lifecycles s) i of
           None \<Rightarrow> recovery
         | Some l \<Rightarrow> if lc_state l \<noteq> AccountStateActive then (Some (StorageErr ErrLifecycleConflict), s)
             else finalizeCurrentDiscovery p s)))"

definition GetDiscoveredMessage :: "ctx \<Rightarrow> account_id \<Rightarrow> string \<Rightarrow> store \<Rightarrow> message res" where
  "GetDiscoveredMessage ctx i g s =
    (case ctx of Some e \<Rightarrow> Inl e | None \<Rightarrow>
     if \<not> check_account_id i \<or> ValidateGmailMessageID g \<noteq> None then Inl invalid_value
     else if fmlookup (accounts s) i = None then Inl (StorageErr ErrAccountNotFound)
     else case message_at s i g of
       None \<Rightarrow> Inl (StorageErr ErrMessageNotFound)
     | Some m \<Rightarrow>
         (case DecodeCanonical (account_id_string i) (msg_gmail_id m) (msg_thread_id m)
                 (md_version (msg_metadata m)) (msg_json m) (msg_hash m) of
            Inl _ \<Rightarrow> Inl (StorageErr ErrCurrentDiscoveryRecoveryRequired)
          | Inr d \<Rightarrow> if msg_record_id d \<noteq> msg_record_id m
              then Inl (StorageErr ErrCurrentDiscoveryRecoveryRequired) else Inr d))"

section \<open>Gate decisions and candidate content\<close>

definition GetGateDecision :: "ctx \<Rightarrow> account_id \<Rightarrow> string \<Rightarrow> store \<Rightarrow> gate_decision_state res" where
  "GetGateDecision ctx i g s =
    (case ctx of Some e \<Rightarrow> Inl e | None \<Rightarrow>
     if \<not> check_account_id i \<or> ValidateGmailMessageID g \<noteq> None then Inl invalid_value
     else if fmlookup (accounts s) i = None then Inl (StorageErr ErrAccountNotFound)
     else case message_at s i g of
       None \<Rightarrow> Inl (StorageErr ErrMessageNotFound)
     | Some m \<Rightarrow> (case fmlookup (decisions s) (msg_record_id m) of
         None \<Rightarrow> Inl (StorageErr ErrGateDecisionNotFound)
       | Some decision \<Rightarrow> (case redecode_decision decision of
           Inl _ \<Rightarrow> Inl (StorageErr ErrGateDecisionRecoveryRequired)
         | Inr decoded \<Rightarrow>
             if \<not> decision_equal decoded decision then Inl (StorageErr ErrGateDecisionRecoveryRequired)
             else Inr \<lparr>gs_decision = decoded, gs_current = (gd_source_hash decoded = msg_hash m)\<rparr>)))"

definition CommitGateDecision :: "ctx \<Rightarrow> gate_decision_commit \<Rightarrow> store \<Rightarrow> go_error option \<times> store" where
  "CommitGateDecision ctx c s =
    (case ctx of Some e \<Rightarrow> (Some e, s) | None \<Rightarrow>
     let accountID = SourceAccountID c in
     if ParseAccountID (msg_account (gc_source c)) \<noteq> Inr accountID \<or>
        ValidateGmailMessageID (msg_gmail_id (gc_source c)) \<noteq> None \<or> \<not> message_valid (gc_source c) \<or>
        \<not> decision_valid (gc_next c) \<or>
        (case gc_expected c of None \<Rightarrow> False | Some r \<Rightarrow> \<not> decision_revision_valid r)
     then (Some invalid_value, s)
     else if fmlookup (accounts s) accountID = None then (Some (StorageErr ErrAccountNotFound), s)
     else case message_at s accountID (msg_gmail_id (gc_source c)) of
       None \<Rightarrow> (Some (StorageErr ErrMessageNotFound), s)
     | Some m \<Rightarrow>
       if msg_record_id m \<noteq> msg_record_id (gc_source c) \<or> \<not> MutableMetadataEqual m (gc_source c)
       then (Some (StorageErr ErrGateDecisionStaleSource), s)
       else if msg_hash m \<noteq> gd_source_hash (gc_next c) then (Some invalid_value, s)
       else
         let write = s\<lparr>decisions := fmupd (msg_record_id m) (gc_next c) (decisions s)\<rparr> in
         case fmlookup (decisions s) (msg_record_id m) of
           None \<Rightarrow> if gc_expected c \<noteq> None then (Some (StorageErr ErrGateDecisionConflict), s) else (None, write)
         | Some current \<Rightarrow>
             if decision_semantic_equal current (gc_next c) then (None, s)
             else if gate_decision_revision current = gate_decision_revision (gc_next c)
             then (Some (StorageErr ErrGateDecisionConflict), s)
             else if gc_expected c \<noteq> Some (gate_decision_revision current)
             then (Some (StorageErr ErrGateDecisionConflict), s)
             else (None, write))"

definition GetCandidateContent :: "ctx \<Rightarrow> account_id \<Rightarrow> string \<Rightarrow> int \<Rightarrow> store \<Rightarrow> candidate_content_state res" where
  "GetCandidateContent ctx i g excerptLimit s =
    (case ctx of Some e \<Rightarrow> Inl e | None \<Rightarrow>
     if \<not> check_account_id i \<or> ValidateGmailMessageID g \<noteq> None \<or> excerptLimit < MinimumExcerptBytes \<or>
        excerptLimit > MaximumExcerptBytes
     then Inl invalid_value
     else if fmlookup (accounts s) i = None then Inl (StorageErr ErrAccountNotFound)
     else case message_at s i g of
       None \<Rightarrow> Inl (StorageErr ErrMessageNotFound)
     | Some m \<Rightarrow> (case fmlookup (contents s) (msg_record_id m) of
         None \<Rightarrow> Inl (StorageErr ErrCandidateContentNotFound)
       | Some content \<Rightarrow> (case redecode_content content of
           Inl _ \<Rightarrow> Inl (StorageErr ErrCandidateContentRecoveryRequired)
         | Inr decoded \<Rightarrow>
             if \<not> content_equal decoded content then Inl (StorageErr ErrCandidateContentRecoveryRequired)
             else Inr \<lparr>cs_content = decoded, cs_current =
               ((case fmlookup (lifecycles s) i of None \<Rightarrow> False | Some l \<Rightarrow> lc_state l = AccountStateActive) \<and>
                cc_source_hash content = msg_hash m \<and> cc_excerpt_limit content = excerptLimit \<and>
                (case fmlookup (decisions s) (msg_record_id m) of
                   None \<Rightarrow> False
                 | Some d \<Rightarrow> CandidateOutcome (gd_outcome d) \<and> gd_source_hash d = msg_hash m \<and>
                     cc_gate_version content = gd_version d \<and> cc_gate_input_hash content = gd_input_hash d))\<rparr>)))"

definition CommitCandidateContent :: "ctx \<Rightarrow> candidate_content_commit \<Rightarrow> store \<Rightarrow> go_error option \<times> store" where
  "CommitCandidateContent ctx c s =
    (case ctx of Some e \<Rightarrow> (Some e, s) | None \<Rightarrow>
     (case ValidateCandidateContentCommit c of Some e \<Rightarrow> (Some e, s) | None \<Rightarrow>
      let accountID = (case ParseAccountID (msg_account (ccm_source c)) of Inl _ \<Rightarrow> AccountID [] | Inr i \<Rightarrow> i) in
      if fmlookup (accounts s) accountID = None then (Some (StorageErr ErrAccountNotFound), s)
      else if (case fmlookup (lifecycles s) accountID of
                 None \<Rightarrow> True
               | Some l \<Rightarrow> lc_state l \<noteq> AccountStateActive \<or> lc_version l \<noteq> ccm_version c)
      then (Some (StorageErr ErrLifecycleConflict), s)
      else case message_at s accountID (msg_gmail_id (ccm_source c)) of
        None \<Rightarrow> (Some (StorageErr ErrMessageNotFound), s)
      | Some m \<Rightarrow>
        if msg_record_id m \<noteq> msg_record_id (ccm_source c) \<or> \<not> MutableMetadataEqual m (ccm_source c)
        then (Some (StorageErr ErrCandidateContentStaleSource), s)
        else if (case fmlookup (decisions s) (msg_record_id m) of
                   None \<Rightarrow> True
                 | Some d \<Rightarrow> \<not> decision_equal d (ccm_gate c) \<or> \<not> CandidateOutcome (gd_outcome d) \<or>
                     gd_source_hash d \<noteq> msg_hash m)
        then (Some (StorageErr ErrCandidateContentIneligible), s)
        else
          let write = s\<lparr>contents := fmupd (msg_record_id m) (ccm_next c) (contents s)\<rparr> in
          case fmlookup (contents s) (msg_record_id m) of
            None \<Rightarrow> if ccm_expected c \<noteq> None then (Some (StorageErr ErrCandidateContentConflict), s)
                    else (None, write)
          | Some current \<Rightarrow>
              if content_semantic_equal current (ccm_next c) then (None, s)
              else if ccm_expected c \<noteq> Some (content_revision current)
              then (Some (StorageErr ErrCandidateContentConflict), s)
              else (None, write)))"

section \<open>Review\<close>

text \<open>
  The rows of \<^verbatim>\<open>ListReviewCandidates\<close> before sorting: \<open>None\<close> when a row is malformed. Go iterates the
  two maps in no fixed order; the rows are sorted afterwards by a key that no two rows share.
\<close>

definition row_key :: "review_candidate_row \<Rightarrow> string \<times> string \<times> string" where
  "row_key r = (msg_account (row_message r), msg_thread_id (row_message r), msg_gmail_id (row_message r))"

definition row_wanted :: "review_candidate_query \<Rightarrow> message \<Rightarrow> gate_decision \<Rightarrow> bool" where
  "row_wanted q m d \<longleftrightarrow> gd_source_hash d = msg_hash m \<and>
     (gd_outcome d = OutcomeReviewCandidate \<or> gd_outcome d = OutcomeUrgentReviewCandidate) \<and>
     \<not> (rq_urgency q = ReviewUrgencyStandard \<and> gd_outcome d \<noteq> OutcomeReviewCandidate \<or>
        rq_urgency q = ReviewUrgencyUrgent \<and> gd_outcome d \<noteq> OutcomeUrgentReviewCandidate)"

definition message_rows :: "review_candidate_query \<Rightarrow> store \<Rightarrow> message \<Rightarrow> review_candidate_row res list" where
  "message_rows q s m = (case fmlookup (decisions s) (msg_record_id m) of
     None \<Rightarrow> []
   | Some d \<Rightarrow> if row_wanted q m d then [NewReviewCandidateRow m d] else [])"

definition account_rows :: "review_candidate_query \<Rightarrow> store \<Rightarrow> account_id \<Rightarrow> review_candidate_row res list" where
  "account_rows q s i =
    (if rq_accounts q \<noteq> [] \<and> i \<notin> set (rq_accounts q) then []
     else if (case fmlookup (lifecycles s) i of None \<Rightarrow> True | Some l \<Rightarrow> lc_state l \<noteq> AccountStateActive) then []
     else case fmlookup (messages s) i of
       None \<Rightarrow> []
     | Some ms \<Rightarrow> concat (map (\<lambda>g. case fmlookup ms g of None \<Rightarrow> [] | Some m \<Rightarrow> message_rows q s m)
         (sorted_list_of_fset (fmdom ms))))"

fun collect_rows :: "review_candidate_row res list \<Rightarrow> review_candidate_row list res" where
  "collect_rows [] = Inr []"
| "collect_rows (Inl _ # rs) = Inl (StorageErr ErrPersistenceInspect)"
| "collect_rows (Inr r # rs) = (case collect_rows rs of Inl e \<Rightarrow> Inl e | Inr xs \<Rightarrow> Inr (r # xs))"

definition row_before :: "review_cursor_key \<Rightarrow> review_candidate_row \<Rightarrow> bool" where
  "row_before k r =
    (if msg_account (row_message r) \<noteq> account_id_string (rk_account k)
     then msg_account (row_message r) < account_id_string (rk_account k)
     else if msg_thread_id (row_message r) \<noteq> rk_thread k then msg_thread_id (row_message r) < rk_thread k
     else msg_gmail_id (row_message r) \<le> rk_message k)"

definition ListReviewCandidates :: "ctx \<Rightarrow> review_candidate_query \<Rightarrow> store \<Rightarrow> review_candidate_row list res" where
  "ListReviewCandidates ctx q s =
    (case ctx of Some e \<Rightarrow> Inl e | None \<Rightarrow>
     (case collect_rows (concat (map (account_rows q s) (sorted_list_of_fset (fmdom (messages s))))) of
        Inl e \<Rightarrow> Inl e
      | Inr rows \<Rightarrow>
          let sorted = sort_key row_key rows;
              later = (if rk_present (rq_after q) then filter (\<lambda>r. \<not> row_before (rq_after q) r) sorted else sorted)
          in Inr (if int (length later) > rq_limit q then take (nat (rq_limit q)) later else later)))"

definition GetCurrentGateInspection :: "ctx \<Rightarrow> account_id \<Rightarrow> string \<Rightarrow> store \<Rightarrow> current_gate_inspection res" where
  "GetCurrentGateInspection ctx i g s =
    (case ctx of Some e \<Rightarrow> Inl e | None \<Rightarrow>
     if \<not> check_account_id i \<or> ValidateGmailMessageID g \<noteq> None then Inl invalid_value
     else if (case fmlookup (lifecycles s) i of None \<Rightarrow> True | Some l \<Rightarrow> lc_state l \<noteq> AccountStateActive)
     then Inl (StorageErr ErrReviewInspectionNotFound)
     else case message_at s i g of
       None \<Rightarrow> Inl (StorageErr ErrReviewInspectionNotFound)
     | Some m \<Rightarrow> (case fmlookup (decisions s) (msg_record_id m) of
         None \<Rightarrow> Inl (StorageErr ErrReviewInspectionNotFound)
       | Some d \<Rightarrow>
           if gd_source_hash d \<noteq> msg_hash m then Inl (StorageErr ErrReviewInspectionNotFound)
           else case NewCurrentGateInspection m d of
             Inl _ \<Rightarrow> Inl (StorageErr ErrPersistenceInspect)
           | Inr x \<Rightarrow> Inr x))"

definition Close :: "go_error option" where
  "Close = None"

end
