(* ===== verification/Store_Invariant.thy ===== *)
theory Store_Invariant
  imports Fake_Store
begin

text \<open>
  The integrity invariant of the store and its preservation by every operation. The invariant
  is a conjunction of predicates on the maps it talks about, so an operation that leaves those
  maps alone keeps it by rewriting. Each operation has one lemma that lists the states it can
  leave (\<open>..._cases\<close>); the preservation proofs and the theorems about histories rest on these.
\<close>

section \<open>Operations and histories\<close>

datatype store_op =
    OpEnsureAccount account_seed
  | OpCommitSynchronization synchronization_commit
  | OpCommitProviderCredential provider_credential_commit
  | OpCommitAccountLifecycle lifecycle_commit
  | OpDeleteRevokedProviderCredential revoked_credential_delete
  | OpCommitCurrentDiscovery current_discovery_commit
  | OpReconcileCurrentDiscovery account_id
  | OpCommitGateDecision gate_decision_commit
  | OpCommitCandidateContent candidate_content_commit

fun run_op :: "ctx \<Rightarrow> store_op \<Rightarrow> store \<Rightarrow> go_error option \<times> store" where
  "run_op ctx (OpEnsureAccount seed) s = (case EnsureAccount ctx seed s of
     (Inl e, s') \<Rightarrow> (Some e, s') | (Inr _, s') \<Rightarrow> (None, s'))"
| "run_op ctx (OpCommitSynchronization c) s = CommitSynchronization ctx c s"
| "run_op ctx (OpCommitProviderCredential c) s = CommitProviderCredential ctx c s"
| "run_op ctx (OpCommitAccountLifecycle c) s = CommitAccountLifecycle ctx c s"
| "run_op ctx (OpDeleteRevokedProviderCredential d) s = DeleteRevokedProviderCredential ctx d s"
| "run_op ctx (OpCommitCurrentDiscovery c) s = CommitCurrentDiscovery ctx c s"
| "run_op ctx (OpReconcileCurrentDiscovery i) s = ReconcileCurrentDiscovery ctx i s"
| "run_op ctx (OpCommitGateDecision c) s = CommitGateDecision ctx c s"
| "run_op ctx (OpCommitCandidateContent c) s = CommitCandidateContent ctx c s"

inductive steps :: "store \<Rightarrow> (ctx \<times> store_op) list \<Rightarrow> store \<Rightarrow> bool" where
  steps_Nil: "steps s [] s"
| steps_Cons: "run_op ctx op s = (r, s') \<Longrightarrow> steps s' h t \<Longrightarrow> steps s ((ctx, op) # h) t"

inductive_cases steps_NilE: "steps s [] t"
inductive_cases steps_ConsE: "steps s (x # h) t"

definition reachable :: "store \<Rightarrow> bool" where
  "reachable s \<longleftrightarrow> (\<exists>h. steps New h s)"

lemma steps_append: "steps s h t \<Longrightarrow> steps t h' u \<Longrightarrow> steps s (h @ h') u"
  by (induction rule: steps.induct) (auto intro: steps.intros)

lemma steps_single: "run_op ctx op s = (r, s') \<Longrightarrow> steps s [(ctx, op)] s'"
  by (blast intro: steps.intros)

lemma steps_rtrans:
  assumes "steps s h t" and refl: "\<And>s. R s s" and trans: "\<And>a b c. R a b \<Longrightarrow> R b c \<Longrightarrow> R a c"
    and inv: "P s" and step: "\<And>ctx op s r s'. P s \<Longrightarrow> run_op ctx op s = (r, s') \<Longrightarrow> P s' \<and> R s s'"
  shows "P t \<and> R s t"
  using assms(1) inv
proof (induction rule: steps.induct)
  case (steps_Cons ctx op s r s' h t)
  then show ?case using step [OF steps_Cons.prems steps_Cons.hyps(1)] trans by blast
qed (simp add: refl)

section \<open>The invariant\<close>

definition lookup2 :: "(account_id, (string, message) fmap) fmap \<Rightarrow> account_id \<Rightarrow> string \<Rightarrow> message option" where
  "lookup2 M a g = Option.bind (fmlookup M a) (\<lambda>m. fmlookup m g)"

lemma message_at_eq: "message_at s a g = lookup2 (messages s) a g"
  by (simp add: message_at_def lookup2_def)

abbreviation nkey :: "account_id \<Rightarrow> string \<Rightarrow> message_natural_key" where
  "nkey a g \<equiv> \<lparr>nk_account = a, nk_gmail_id = g\<rparr>"

definition live_state :: "account_state \<Rightarrow> bool" where
  "live_state st \<longleftrightarrow> st = AccountStateActive \<or> st = AccountStatePaused \<or> st = AccountStateReauthorizationRequired"

definition accounts_inv where
  "accounts_inv A B L \<longleftrightarrow>
    (\<forall>i a. fmlookup A i = Some a \<longrightarrow> acct_id a = i \<and> account_id_valid i \<and> provider_subject_valid (acct_subject a) \<and>
       fmlookup B (acct_subject a) = Some i) \<and>
    (\<forall>p i. fmlookup B p = Some i \<longrightarrow> (\<exists>a. fmlookup A i = Some a \<and> acct_subject a = p)) \<and>
    (\<forall>i. fmlookup L i = None \<longleftrightarrow> fmlookup (A :: (account_id, account) fmap) i = (None :: account option))"

definition cursors_inv where
  "cursors_inv A C \<longleftrightarrow> (\<forall>i h. fmlookup C i = Some h \<longrightarrow>
     fmlookup (A :: (account_id, account) fmap) i \<noteq> None \<and> history_id_valid h)"

definition credentials_inv where
  "credentials_inv A K \<longleftrightarrow> (\<forall>i c. fmlookup K i = Some c \<longrightarrow>
     fmlookup (A :: (account_id, account) fmap) i \<noteq> None \<and> cred_account c = i \<and>
     cred_key_id c = env_key_id (cred_envelope c) \<and> credential_envelope_valid (cred_envelope c))"

definition lifecycle_ok :: "account_id \<Rightarrow> account_lifecycle \<Rightarrow> bool" where
  "lifecycle_ok i l \<longleftrightarrow> lc_account l = i \<and> 1 \<le> lc_version l \<and> lc_version l \<le> MaxInt64 \<and>
     lc_state l \<noteq> AccountStateZero \<and> validLifecycleShape (lc_state l) (lc_reason l) (lc_revocation l)"

definition lifecycles_inv where
  "lifecycles_inv L C K \<longleftrightarrow> (\<forall>i l. fmlookup L i = Some l \<longrightarrow> lifecycle_ok i l \<and>
     (live_state (lc_state l) \<longrightarrow> fmlookup (C :: (account_id, history_id) fmap) i \<noteq> None \<and>
        fmlookup (K :: (account_id, provider_credential) fmap) i \<noteq> None))"

definition messages_inv where
  "messages_inv A M R \<longleftrightarrow>
    (\<forall>a g m. lookup2 M a g = Some m \<longrightarrow> fmlookup (A :: (account_id, account) fmap) a \<noteq> None \<and> message_valid m \<and>
       msg_gmail_id m = g \<and> msg_account m = account_id_string a \<and> fmlookup R (msg_record_id m) \<noteq> None) \<and>
    (\<forall>r k. fmlookup R r = Some k \<longrightarrow>
       (\<exists>m. lookup2 M (nk_account k) (nk_gmail_id k) = Some m \<and> msg_record_id m = r))"

definition attempts_inv where
  "attempts_inv T C L \<longleftrightarrow> (\<forall>a t. fmlookup T a = Some t \<longrightarrow>
     prepared_ok (at_prepared t) \<and> pd_account (at_prepared t) = a \<and> at_state t = ''sealed'' \<and>
     at_staged t = pd_messages (at_prepared t) \<and> fmlookup C a = Some (pd_expected (at_prepared t)) \<and>
     (\<exists>l. fmlookup L a = Some l \<and> live_state (lc_state l)))"

definition derived_inv where
  "derived_inv R D X \<longleftrightarrow>
    (\<forall>r d. fmlookup D r = Some d \<longrightarrow> decision_valid d \<and> fmlookup (R :: (string, message_natural_key) fmap) r \<noteq> None) \<and>
    (\<forall>r c. fmlookup X r = Some c \<longrightarrow> content_valid c \<and> cc_record_id c = r \<and> fmlookup R r \<noteq> None)"

definition store_inv :: "store \<Rightarrow> bool" where
  "store_inv s \<longleftrightarrow> accounts_inv (accounts s) (bySubject s) (lifecycles s) \<and> cursors_inv (accounts s) (cursors s) \<and>
     credentials_inv (accounts s) (credentials s) \<and> lifecycles_inv (lifecycles s) (cursors s) (credentials s) \<and>
     messages_inv (accounts s) (messages s) (records s) \<and>
     attempts_inv (attempts s) (cursors s) (lifecycles s) \<and> derived_inv (records s) (decisions s) (contents s)"

lemmas inv_defs = accounts_inv_def cursors_inv_def credentials_inv_def lifecycles_inv_def messages_inv_def
  attempts_inv_def derived_inv_def

lemma lookup2_empty [simp]: "lookup2 fmempty a g = None"
  by (simp add: lookup2_def)

lemma New_inv: "store_inv New"
  by (simp add: store_inv_def New_def inv_defs)

lemma check_account_id_iff [simp]: "check_account_id i \<longleftrightarrow> account_id_valid i"
  by (cases i) (simp add: check_account_id_def account_id_valid_def ParseAccountID_def)

lemma SourceAccountID_valid: "message_valid (gc_source c) \<Longrightarrow> SourceAccountID c = AccountID (msg_account (gc_source c))"
  by (simp add: SourceAccountID_def message_valid_account)

section \<open>The states an operation can leave\<close>

lemma EnsureAccount_cases:
  assumes "EnsureAccount ctx seed s = (r, s')"
  shows "s' = s \<or> ctx = None \<and> account_id_valid (seed_id seed) \<and> provider_subject_valid (seed_subject seed) \<and>
    fmlookup (bySubject s) (seed_subject seed) = None \<and> fmlookup (accounts s) (seed_id seed) = None \<and>
    r = Inr \<lparr>acct_id = seed_id seed, acct_subject = seed_subject seed\<rparr> \<and>
    s' = s\<lparr>accounts := fmupd (seed_id seed) \<lparr>acct_id = seed_id seed, acct_subject = seed_subject seed\<rparr> (accounts s),
      bySubject := fmupd (seed_subject seed) (seed_id seed) (bySubject s),
      lifecycles := fmupd (seed_id seed) \<lparr>lc_account = seed_id seed, lc_state = AccountStatePending, lc_version = 1,
        lc_reason = None, lc_revocation = RevocationStatusNone\<rparr> (lifecycles s)\<rparr>"
  using assms
  by (auto simp: EnsureAccount_def ValidateAccountSeed_def ParseLifecycleVersion_def Let_def
      split: option.splits if_splits)

lemma CommitSynchronization_cases:
  assumes "CommitSynchronization ctx c s = (r, s')"
  shows "(r \<noteq> None \<and> s' = s) \<or> (r = None \<and> ctx = None \<and> history_id_valid (sync_next c) \<and>
    fmlookup (accounts s) (sync_account c) \<noteq> None \<and> fmlookup (cursors s) (sync_account c) = None \<and>
    fmlookup (attempts s) (sync_account c) = None \<and>
    s' = s\<lparr>cursors := fmupd (sync_account c) (sync_next c) (cursors s)\<rparr>)"
  using assms by (auto simp: CommitSynchronization_def ValidateSynchronizationCommit_def split: option.splits if_splits)

definition credential_of :: "provider_credential_commit \<Rightarrow> provider_credential" where
  "credential_of c = \<lparr>cred_account = pcc_account c, cred_key_id = env_key_id (pcc_next c), cred_envelope = pcc_next c\<rparr>"

lemma CommitProviderCredential_cases:
  assumes "CommitProviderCredential ctx c s = (r, s')"
  shows "s' = s \<or> (r = None \<and> ctx = None \<and> credential_envelope_valid (pcc_next c) \<and>
    fmlookup (accounts s) (pcc_account c) \<noteq> None \<and>
    (\<exists>l. fmlookup (lifecycles s) (pcc_account c) = Some l \<and> lc_state l \<noteq> AccountStateRevoked) \<and>
    pcc_expected c = map_option cred_envelope (fmlookup (credentials s) (pcc_account c)) \<and>
    s' = s\<lparr>credentials := fmupd (pcc_account c) (credential_of c) (credentials s)\<rparr>)"
  using assms
  by (auto simp: CommitProviderCredential_def ValidateProviderCredentialCommit_def credential_of_def Let_def
      split: option.splits if_splits)

definition lifecycle_next :: "account_lifecycle \<Rightarrow> lifecycle_commit \<Rightarrow> account_lifecycle" where
  "lifecycle_next l c = \<lparr>lc_account = cm_account c, lc_state = cm_next_state c, lc_version = lc_version l + 1,
     lc_reason = cm_reason c, lc_revocation = cm_revocation c\<rparr>"

text \<open>The version of a stored lifecycle never reaches the overflow the validation excludes.\<close>

lemma next_version:
  assumes "ValidateLifecycleCommit c = None" and "1 \<le> v" and "v \<le> MaxInt64" and "v = cm_expected_version c"
  shows "(case ParseLifecycleVersion (int64_add v 1) of Inl _ \<Rightarrow> 0 | Inr v \<Rightarrow> v) = v + 1"
proof -
  have "v < MaxInt64" using assms by (simp add: ValidateLifecycleCommit_None)
  then have "int64_add v 1 = v + 1" using assms(2) by (intro int64_add_exact) (simp_all add: MaxInt64_def)
  then show ?thesis using assms(2) by (simp add: ParseLifecycleVersion_def)
qed

lemma CommitAccountLifecycle_cases:
  assumes "CommitAccountLifecycle ctx c s = (r, s')" and "lifecycles_inv (lifecycles s) C K"
  shows "s' = s \<or> (\<exists>l. r = None \<and> ctx = None \<and> ValidateLifecycleCommit c = None \<and>
    fmlookup (lifecycles s) (cm_account c) = Some l \<and> lc_state l = cm_expected_state c \<and>
    lc_version l = cm_expected_version c \<and> lc_revocation l = cm_expected_revocation c \<and>
    (cm_next_state c = AccountStateActive \<longrightarrow> fmlookup (cursors s) (cm_account c) \<noteq> None \<and>
       fmlookup (credentials s) (cm_account c) \<noteq> None) \<and>
    s' = s\<lparr>lifecycles := fmupd (cm_account c) (lifecycle_next l c) (lifecycles s),
       attempts := (if cm_next_state c = AccountStateRevoked then fmdrop (cm_account c) (attempts s) else attempts s)\<rparr>)"
proof (cases "s' = s")
  case False
  obtain l where v: "ctx = None" "ValidateLifecycleCommit c = None" and l: "fmlookup (lifecycles s) (cm_account c) = Some l"
    and g: "lc_state l = cm_expected_state c" "lc_version l = cm_expected_version c"
      "lc_revocation l = cm_expected_revocation c"
    using assms(1) False
    by (auto simp: CommitAccountLifecycle_def split: option.splits if_splits)
  have ok: "1 \<le> lc_version l" "lc_version l \<le> MaxInt64"
    using assms(2) l by (auto simp: lifecycles_inv_def lifecycle_ok_def)
  show ?thesis
    using assms(1) False v l g next_version [OF v(2) ok g(2)]
    by (auto simp: CommitAccountLifecycle_def lifecycle_next_def Let_def split: if_splits)
qed simp

lemma DeleteRevokedProviderCredential_cases:
  assumes "DeleteRevokedProviderCredential ctx d s = (r, s')"
  shows "s' = s \<or> (\<exists>l k. r = None \<and> ctx = None \<and> fmlookup (lifecycles s) (rcd_account d) = Some l \<and>
    lc_state l = AccountStateRevoked \<and> fmlookup (credentials s) (rcd_account d) = Some k \<and>
    cred_envelope k = rcd_expected d \<and> s' = s\<lparr>credentials := fmdrop (rcd_account d) (credentials s)\<rparr>)"
  using assms by (auto simp: DeleteRevokedProviderCredential_def split: option.splits if_splits)

section \<open>Promotion of a discovery\<close>

definition promoted :: "account_id \<Rightarrow> message list \<Rightarrow> store \<Rightarrow> store" where
  "promoted a ms s = fold (put_message a) ms (ensure_messages a s)"

definition commit_prepared :: "prepared_current_discovery \<Rightarrow> store \<Rightarrow> store" where
  "commit_prepared p s = (promoted (pd_account p) (pd_messages p) s)
     \<lparr>cursors := fmupd (pd_account p) (pd_next p) (cursors s), attempts := fmdrop (pd_account p) (attempts s)\<rparr>"

lemma put_message_frame [simp]:
  "accounts (put_message a m s) = accounts s" "bySubject (put_message a m s) = bySubject s"
  "cursors (put_message a m s) = cursors s" "credentials (put_message a m s) = credentials s"
  "lifecycles (put_message a m s) = lifecycles s" "attempts (put_message a m s) = attempts s"
  "decisions (put_message a m s) = decisions s" "contents (put_message a m s) = contents s"
  by (simp_all add: put_message_def)

lemma fold_put_frame [simp]:
  "accounts (fold (put_message a) ms s) = accounts s" "bySubject (fold (put_message a) ms s) = bySubject s"
  "cursors (fold (put_message a) ms s) = cursors s" "credentials (fold (put_message a) ms s) = credentials s"
  "lifecycles (fold (put_message a) ms s) = lifecycles s" "attempts (fold (put_message a) ms s) = attempts s"
  "decisions (fold (put_message a) ms s) = decisions s" "contents (fold (put_message a) ms s) = contents s"
  by (induction ms arbitrary: s) simp_all

lemma promoted_frame [simp]:
  "accounts (promoted a ms s) = accounts s" "bySubject (promoted a ms s) = bySubject s"
  "cursors (promoted a ms s) = cursors s" "credentials (promoted a ms s) = credentials s"
  "lifecycles (promoted a ms s) = lifecycles s" "attempts (promoted a ms s) = attempts s"
  "decisions (promoted a ms s) = decisions s" "contents (promoted a ms s) = contents s"
  by (simp_all add: promoted_def ensure_messages_def)

lemma put_message_attempts: "put_message a m (s\<lparr>attempts := T\<rparr>) = (put_message a m s)\<lparr>attempts := T\<rparr>"
  by (simp add: put_message_def)

lemma fold_put_attempts: "fold (put_message a) ms (s\<lparr>attempts := T\<rparr>) = (fold (put_message a) ms s)\<lparr>attempts := T\<rparr>"
  by (induction ms arbitrary: s) (simp_all add: put_message_attempts)

lemma promoted_attempts: "promoted a ms (s\<lparr>attempts := T\<rparr>) = (promoted a ms s)\<lparr>attempts := T\<rparr>"
proof -
  have "ensure_messages a (s\<lparr>attempts := T\<rparr>) = (ensure_messages a s)\<lparr>attempts := T\<rparr>"
    by (simp add: ensure_messages_def)
  then show ?thesis by (simp only: promoted_def fold_put_attempts)
qed

lemma commit_prepared_frame [simp]:
  "accounts (commit_prepared p s) = accounts s" "bySubject (commit_prepared p s) = bySubject s"
  "credentials (commit_prepared p s) = credentials s" "lifecycles (commit_prepared p s) = lifecycles s"
  "decisions (commit_prepared p s) = decisions s" "contents (commit_prepared p s) = contents s"
  "cursors (commit_prepared p s) = fmupd (pd_account p) (pd_next p) (cursors s)"
  "attempts (commit_prepared p s) = fmdrop (pd_account p) (attempts s)"
  "messages (commit_prepared p s) = messages (promoted (pd_account p) (pd_messages p) s)"
  "records (commit_prepared p s) = records (promoted (pd_account p) (pd_messages p) s)"
  by (simp_all add: commit_prepared_def)

lemma put_message_lookup:
  "lookup2 (messages (put_message a m s)) b g =
    (if b = a \<and> g = msg_gmail_id m then Some m else lookup2 (messages s) b g)"
  by (auto simp: put_message_def lookup2_def split: option.splits)

lemma ensure_messages_lookup [simp]: "lookup2 (messages (ensure_messages a s)) b g = lookup2 (messages s) b g"
  by (auto simp: ensure_messages_def lookup2_def)

lemma ensure_messages_records [simp]: "records (ensure_messages a s) = records s"
  by (simp add: ensure_messages_def)

lemma fold_put_lookup:
  assumes "sorted_wrt (<) (gids ms)"
  shows "lookup2 (messages (fold (put_message a) ms s)) b g =
    (if b = a then (case map_of (map (\<lambda>m. (msg_gmail_id m, m)) ms) g of
       None \<Rightarrow> lookup2 (messages s) a g | Some m \<Rightarrow> Some m) else lookup2 (messages s) b g)"
  using assms
proof (induction ms arbitrary: s)
  case (Cons m ms)
  have "map_of (map (\<lambda>m. (msg_gmail_id m, m)) ms) (msg_gmail_id m) = None"
    using Cons.prems by (auto simp: map_of_eq_None_iff image_image)
  then show ?case using Cons by (auto simp: put_message_lookup split: option.splits)
qed simp

lemma promoted_lookup:
  assumes "sorted_wrt (<) (gids ms)"
  shows "lookup2 (messages (promoted a ms s)) b g =
    (if b = a then (case map_of (map (\<lambda>m. (msg_gmail_id m, m)) ms) g of
       None \<Rightarrow> lookup2 (messages s) a g | Some m \<Rightarrow> Some m) else lookup2 (messages s) b g)"
  unfolding promoted_def by (simp add: fold_put_lookup [OF assms] split: option.splits)

lemma map_of_gids: "sorted_wrt (<) (gids ms) \<Longrightarrow> m \<in> set ms \<Longrightarrow> map_of (map (\<lambda>m. (msg_gmail_id m, m)) ms) (msg_gmail_id m) = Some m"
proof (rule map_of_is_SomeI)
  assume "sorted_wrt (<) (gids ms)"
  then have "distinct (gids ms)" by (simp add: strict_sorted_iff)
  then show "distinct (map fst (map (\<lambda>m. (msg_gmail_id m, m)) ms))" by (simp add: comp_def)
qed auto

lemma promoted_stored:
  "sorted_wrt (<) (gids ms) \<Longrightarrow> m \<in> set ms \<Longrightarrow> lookup2 (messages (promoted a ms s)) a (msg_gmail_id m) = Some m"
  by (simp add: promoted_lookup map_of_gids)

lemma promoted_other:
  "sorted_wrt (<) (gids ms) \<Longrightarrow> b \<noteq> a \<or> g \<notin> msg_gmail_id ` set ms \<Longrightarrow>
    lookup2 (messages (promoted a ms s)) b g = lookup2 (messages s) b g"
proof -
  assume "sorted_wrt (<) (gids ms)" and o: "b \<noteq> a \<or> g \<notin> msg_gmail_id ` set ms"
  moreover have "map_of (map (\<lambda>m. (msg_gmail_id m, m)) ms) g = None" if "g \<notin> msg_gmail_id ` set ms"
    using that by (auto simp: map_of_eq_None_iff image_image)
  ultimately show ?thesis by (auto simp: promoted_lookup)
qed

lemma put_message_inv:
  assumes inv: "messages_inv A (messages s) (records s)" and a: "fmlookup A a \<noteq> None"
    and m: "message_valid m" "msg_account m = account_id_string a"
  shows "messages_inv A (messages (put_message a m s)) (records (put_message a m s))"
proof -
  have rid: "msg_record_id e = msg_record_id m" if "lookup2 (messages s) a (msg_gmail_id m) = Some e" for e
    using inv that m message_valid_fields(4) by (auto simp: messages_inv_def)
  have rec: "fmlookup (records (put_message a m s)) r =
      (if r = msg_record_id m then Some (nkey a (msg_gmail_id m)) else fmlookup (records s) r)" for r
    by (simp add: put_message_def)
  have fwd: "fmlookup A b \<noteq> None \<and> message_valid x \<and> msg_gmail_id x = g \<and> msg_account x = account_id_string b \<and>
      fmlookup (records (put_message a m s)) (msg_record_id x) \<noteq> None"
    if "lookup2 (messages (put_message a m s)) b g = Some x" for b g x
    using that inv a m by (auto simp: messages_inv_def put_message_lookup rec split: if_splits)
  have bwd: "\<exists>x. lookup2 (messages (put_message a m s)) (nk_account k) (nk_gmail_id k) = Some x \<and> msg_record_id x = r"
    if "fmlookup (records (put_message a m s)) r = Some k" for r k
  proof (cases "r = msg_record_id m")
    case False
    then have "fmlookup (records s) r = Some k" using that rec by simp
    then obtain x where "lookup2 (messages s) (nk_account k) (nk_gmail_id k) = Some x" "msg_record_id x = r"
      using inv unfolding messages_inv_def by blast
    then show ?thesis using False rid by (auto simp: put_message_lookup)
  qed (use that rec in \<open>auto simp: put_message_lookup\<close>)
  show ?thesis using fwd bwd by (auto simp: messages_inv_def)
qed

lemma promoted_inv:
  assumes "messages_inv A (messages s) (records s)" and "fmlookup A a \<noteq> None" and "belongs a ms"
  shows "messages_inv A (messages (promoted a ms s)) (records (promoted a ms s))"
proof -
  have "messages_inv A (messages (ensure_messages a s)) (records (ensure_messages a s))"
    using assms(1) by (simp add: messages_inv_def)
  moreover have "messages_inv A (messages (fold (put_message a) ms t)) (records (fold (put_message a) ms t))"
    if "messages_inv A (messages t) (records t)" "list_all (\<lambda>m. message_valid m \<and> msg_account m = account_id_string a) ms" for t
    using that by (induction ms arbitrary: t) (simp_all add: put_message_inv [OF _ assms(2)])
  ultimately show ?thesis using assms(3) by (simp add: promoted_def belongs_def)
qed

lemma promoted_records: "fmlookup (records s) r \<noteq> None \<Longrightarrow> fmlookup (records (promoted a ms s)) r \<noteq> None"
proof -
  have "fmlookup (records (fold (put_message a) ms t)) r \<noteq> None" if "fmlookup (records t) r \<noteq> None" for t
    using that by (induction ms arbitrary: t) (simp_all add: put_message_def)
  then show "fmlookup (records s) r \<noteq> None \<Longrightarrow> ?thesis" by (simp add: promoted_def)
qed

section \<open>Discovery\<close>

lemma finalize_cases:
  assumes "finalizeCurrentDiscovery p s = (r, s')"
  shows "(r \<noteq> None \<and> s' = s) \<or> (\<exists>t l. r = None \<and> fmlookup (attempts s) (pd_account p) = Some t \<and>
    fmlookup (lifecycles s) (pd_account p) = Some l \<and> lc_state l = AccountStateActive \<and>
    fmlookup (cursors s) (pd_account p) = Some (pd_expected p) \<and>
    staged_conflict s (pd_account p) (at_staged t) = None \<and>
    (at_staged t = pd_messages p \<longrightarrow> s' = commit_prepared p s))"
proof (cases "fmlookup (attempts s) (pd_account p)")
  case (Some t)
  then show ?thesis using assms
    by (cases "staged_conflict s (pd_account p) (at_staged t)")
      (auto simp: finalizeCurrentDiscovery_def Let_def commit_prepared_def promoted_def [symmetric]
        split: option.splits if_splits, metis option.discI)
qed (use assms in \<open>auto simp: finalizeCurrentDiscovery_def\<close>)

definition sealed_attempt :: "prepared_current_discovery \<Rightarrow> discovery_attempt" where
  "sealed_attempt p = \<lparr>at_prepared = p, at_state = ''sealed'', at_staged = pd_messages p\<rparr>"

text \<open>
  A discovery commit leaves the store as it was, or it promotes a prepared batch (the new one,
  or the sealed one of the same attempt), or it leaves a sealed attempt because a staged
  message conflicts with a stored one.
\<close>

definition can_promote :: "prepared_current_discovery \<Rightarrow> store \<Rightarrow> bool" where
  "can_promote p s \<longleftrightarrow> prepared_ok p \<and> fmlookup (cursors s) (pd_account p) = Some (pd_expected p) \<and>
     (\<exists>l. fmlookup (lifecycles s) (pd_account p) = Some l \<and> lc_state l = AccountStateActive)"

lemma staged_conflict_attempts: "staged_conflict (s\<lparr>attempts := T\<rparr>) a ms = staged_conflict s a ms"
  by (induction ms) (simp_all add: message_at_def cong: if_cong option.case_cong)

lemma finalize_fresh:
  assumes f: "finalizeCurrentDiscovery p (s\<lparr>attempts := fmupd (pd_account p) (sealed_attempt p) (attempts s)\<rparr>) = (r, s')"
    and can: "can_promote p s"
  shows "r = None \<and> staged_conflict s (pd_account p) (pd_messages p) = None \<and> s' = commit_prepared p s \<or>
    r \<noteq> None \<and> r = staged_conflict s (pd_account p) (pd_messages p) \<and>
    s' = s\<lparr>attempts := fmupd (pd_account p) (sealed_attempt p) (attempts s)\<rparr>"
proof -
  let ?T = "fmupd (pd_account p) (sealed_attempt p) (attempts s)"
  let ?s = "s\<lparr>attempts := ?T\<rparr>"
  have att: "fmlookup (attempts ?s) (pd_account p) = Some (sealed_attempt p)"
    "at_staged (sealed_attempt p) = pd_messages p" "at_state (sealed_attempt p) = ''sealed''"
    "at_prepared (sealed_attempt p) = p"
    by (simp_all add: sealed_attempt_def)
  have same: "commit_prepared p ?s = commit_prepared p s"
    by (simp add: commit_prepared_def promoted_attempts fmdrop_fmupd)
  have eq: "finalizeCurrentDiscovery p ?s = (case staged_conflict s (pd_account p) (pd_messages p) of
      Some e \<Rightarrow> (Some e, ?s) | None \<Rightarrow> (None, commit_prepared p ?s))"
    using can att staged_conflict_attempts [where s = s and T = ?T]
    by (auto simp: finalizeCurrentDiscovery_def can_promote_def Let_def commit_prepared_def promoted_def [symmetric]
        split: option.splits)
  show ?thesis using f unfolding eq same by (auto split: option.splits)
qed

lemma finalize_sealed:
  assumes f: "finalizeCurrentDiscovery (at_prepared t) s = (r, s')"
    and t: "fmlookup (attempts s) a = Some t" and inv: "attempts_inv (attempts s) (cursors s) (lifecycles s)"
  shows "r \<noteq> None \<and> s' = s \<or> r = None \<and> can_promote (at_prepared t) s \<and>
    staged_conflict s a (pd_messages (at_prepared t)) = None \<and> s' = commit_prepared (at_prepared t) s"
proof -
  have a: "pd_account (at_prepared t) = a" "at_staged t = pd_messages (at_prepared t)" "prepared_ok (at_prepared t)"
    using inv t by (auto simp: attempts_inv_def)
  show ?thesis using finalize_cases [OF f] a t by (auto simp: can_promote_def)
qed

lemma CommitCurrentDiscovery_cases:
  assumes c: "CommitCurrentDiscovery ctx c s = (r, s')"
    and inv: "attempts_inv (attempts s) (cursors s) (lifecycles s)"
  shows "s' = s \<or> (\<exists>p q. ctx = None \<and> PrepareCurrentDiscoveryCommit c = Inr p \<and> can_promote q s \<and>
      pd_account q = dc_account c \<and> pd_attempt_id q = pd_attempt_id p \<and>
      (q = p \<or> fmlookup (attempts s) (dc_account c) \<noteq> None) \<and>
      (r = None \<and> staged_conflict s (dc_account c) (pd_messages q) = None \<and> s' = commit_prepared q s \<or>
       r \<noteq> None \<and> q = p \<and> r = staged_conflict s (dc_account c) (pd_messages q) \<and>
       s' = s\<lparr>attempts := fmupd (pd_account p) (sealed_attempt p) (attempts s)\<rparr>))"
proof (cases "s' = s")
  case False
  obtain p l where p: "ctx = None" "PrepareCurrentDiscoveryCommit c = Inr p"
      and l: "fmlookup (lifecycles s) (pd_account p) = Some l" "lc_state l = AccountStateActive"
      and cur: "fmlookup (cursors s) (pd_account p) = Some (pd_expected p)"
    using c False by (auto simp: CommitCurrentDiscovery_def split: option.splits sum.splits if_splits)
  note pp = Prepare_Inr [OF p(2)]
  have nd: "\<not> currentDiscoveryDurable s p" using c p False by (auto simp: CommitCurrentDiscovery_def)
  have can: "can_promote p s" using pp l cur by (simp add: can_promote_def)
  show ?thesis
  proof (cases "fmlookup (attempts s) (pd_account p)")
    case None
    then have "finalizeCurrentDiscovery p (s\<lparr>attempts := fmupd (pd_account p) (sealed_attempt p) (attempts s)\<rparr>) = (r, s')"
      using c p nd l cur by (simp add: CommitCurrentDiscovery_def Let_def sealed_attempt_def)
    from finalize_fresh [OF this can] show ?thesis
      using p can pp by auto
  next
    case (Some t)
    then have t: "at_state t = ''sealed''" "pd_account (at_prepared t) = pd_account p"
      using inv by (auto simp: attempts_inv_def)
    then have id: "pd_attempt_id (at_prepared t) = pd_attempt_id p"
      and f: "finalizeCurrentDiscovery (at_prepared t) s = (r, s')"
      using c p nd l cur Some False by (auto simp: CommitCurrentDiscovery_def Let_def split: if_splits)
    from finalize_sealed [OF f Some inv] show ?thesis
      using p pp id t False Some by auto
  qed
qed simp

lemma ReconcileCurrentDiscovery_cases:
  assumes c: "ReconcileCurrentDiscovery ctx i s = (r, s')"
    and inv: "attempts_inv (attempts s) (cursors s) (lifecycles s)"
  shows "s' = s \<or> (\<exists>t. r = None \<and> ctx = None \<and> fmlookup (attempts s) i = Some t \<and> can_promote (at_prepared t) s \<and>
      pd_account (at_prepared t) = i \<and> staged_conflict s i (pd_messages (at_prepared t)) = None \<and>
      s' = commit_prepared (at_prepared t) s)"
proof (cases "s' = s")
  case False
  obtain t where t: "ctx = None" "fmlookup (attempts s) i = Some t"
    using c False by (auto simp: ReconcileCurrentDiscovery_def split: option.splits if_splits)
  then have st: "at_state t = ''sealed''" "pd_account (at_prepared t) = i" using inv by (auto simp: attempts_inv_def)
  then have "finalizeCurrentDiscovery (at_prepared t) s = (r, s')"
    using c False t by (auto simp: ReconcileCurrentDiscovery_def Let_def split: option.splits sum.splits if_splits)
  from finalize_sealed [OF this t(2) inv] show ?thesis using t st False by auto
qed simp

lemma CommitGateDecision_cases:
  assumes "CommitGateDecision ctx c s = (r, s')"
  shows "s' = s \<or> (\<exists>m. r = None \<and> ctx = None \<and> message_valid (gc_source c) \<and> decision_valid (gc_next c) \<and>
    message_at s (SourceAccountID c) (msg_gmail_id (gc_source c)) = Some m \<and>
    msg_record_id m = msg_record_id (gc_source c) \<and> MutableMetadataEqual m (gc_source c) \<and>
    msg_hash m = gd_source_hash (gc_next c) \<and>
    gc_expected c = map_option gate_decision_revision (fmlookup (decisions s) (msg_record_id m)) \<and>
    s' = s\<lparr>decisions := fmupd (msg_record_id m) (gc_next c) (decisions s)\<rparr>)"
  using assms
  by (auto simp: CommitGateDecision_def Let_def split: option.splits if_splits)

lemma CommitCandidateContent_cases:
  assumes "CommitCandidateContent ctx c s = (r, s')"
  shows "s' = s \<or> (\<exists>a m l d. r = None \<and> ctx = None \<and> ValidateCandidateContentCommit c = None \<and>
    ParseAccountID (msg_account (ccm_source c)) = Inr a \<and> message_at s a (msg_gmail_id (ccm_source c)) = Some m \<and>
    fmlookup (lifecycles s) a = Some l \<and> lc_state l = AccountStateActive \<and> lc_version l = ccm_version c \<and>
    msg_record_id m = msg_record_id (ccm_source c) \<and> MutableMetadataEqual m (ccm_source c) \<and>
    fmlookup (decisions s) (msg_record_id m) = Some d \<and> d = ccm_gate c \<and> CandidateOutcome (gd_outcome d) \<and>
    gd_source_hash d = msg_hash m \<and>
    ccm_expected c = map_option content_revision (fmlookup (contents s) (msg_record_id m)) \<and>
    s' = s\<lparr>contents := fmupd (msg_record_id m) (ccm_next c) (contents s)\<rparr>)"
proof (cases "s' = s")
  case False
  then have v: "ctx = None" "ValidateCandidateContentCommit c = None"
    using assms by (auto simp: CommitCandidateContent_def split: option.splits)
  then obtain a where a: "ParseAccountID (msg_account (ccm_source c)) = Inr a"
    by (auto simp: ValidateCandidateContentCommit_def simp del: ParseAccountID_Inr split: sum.splits)
  show ?thesis using assms False v a
    by (auto simp: CommitCandidateContent_def Let_def decision_equal_def simp del: ParseAccountID_Inr
        split: option.splits if_splits)
qed simp

section \<open>Every operation keeps the invariant\<close>

lemma lifecycle_next_ok:
  assumes "lifecycle_ok i l" and "ValidateLifecycleCommit c = None" and "lc_version l = cm_expected_version c"
    and "cm_account c = i"
  shows "lifecycle_ok i (lifecycle_next l c)"
proof -
  have "lc_version l < MaxInt64" using assms by (simp add: ValidateLifecycleCommit_None lifecycle_ok_def)
  moreover have "cm_next_state c \<noteq> AccountStateZero"
    using assms(2) by (auto simp: ValidateLifecycleCommit_def split: if_splits)
  ultimately show ?thesis
    using assms by (simp add: lifecycle_ok_def lifecycle_next_def ValidateLifecycleCommit_None)
qed

text \<open>The only way into a live state from outside is activation, which checks both parts.\<close>

lemma live_edge:
  assumes "ValidateLifecycleCommit c = None" and "live_state (cm_next_state c)"
  shows "cm_next_state c = AccountStateActive \<or> live_state (cm_expected_state c)"
  using assms
  by (auto simp: ValidateLifecycleCommit_None validLifecycleTransition_def live_state_def split: account_state.splits)

lemma dead_edge:
  assumes "ValidateLifecycleCommit c = None" and "live_state (cm_expected_state c)"
  shows "live_state (cm_next_state c) \<or> cm_next_state c = AccountStateRevoked"
  using assms
  by (auto simp: ValidateLifecycleCommit_None validLifecycleTransition_def live_state_def split: account_state.splits)

lemma inv_accounts_lifecycles: "store_inv s \<Longrightarrow> fmlookup (lifecycles s) i = None \<longleftrightarrow> fmlookup (accounts s) i = None"
  unfolding store_inv_def accounts_inv_def by blast

lemma attempt_inv:
  assumes "store_inv s" and "fmlookup (attempts s) a = Some t"
  shows "prepared_ok (at_prepared t)" "pd_account (at_prepared t) = a" "at_state t = ''sealed''"
    "at_staged t = pd_messages (at_prepared t)" "fmlookup (cursors s) a = Some (pd_expected (at_prepared t))"
    "\<exists>l. fmlookup (lifecycles s) a = Some l \<and> live_state (lc_state l)"
  using assms unfolding store_inv_def attempts_inv_def by blast+

lemma EnsureAccount_inv:
  assumes inv: "store_inv s" and r: "EnsureAccount ctx seed s = (r, s')"
  shows "store_inv s'"
  using EnsureAccount_cases [OF r]
proof (elim disjE)
  assume e: "ctx = None \<and> account_id_valid (seed_id seed) \<and> provider_subject_valid (seed_subject seed) \<and>
    fmlookup (bySubject s) (seed_subject seed) = None \<and> fmlookup (accounts s) (seed_id seed) = None \<and>
    r = Inr \<lparr>acct_id = seed_id seed, acct_subject = seed_subject seed\<rparr> \<and>
    s' = s\<lparr>accounts := fmupd (seed_id seed) \<lparr>acct_id = seed_id seed, acct_subject = seed_subject seed\<rparr> (accounts s),
      bySubject := fmupd (seed_subject seed) (seed_id seed) (bySubject s),
      lifecycles := fmupd (seed_id seed) \<lparr>lc_account = seed_id seed, lc_state = AccountStatePending, lc_version = 1,
        lc_reason = None, lc_revocation = RevocationStatusNone\<rparr> (lifecycles s)\<rparr>"
  let ?A = "fmupd (seed_id seed) \<lparr>acct_id = seed_id seed, acct_subject = seed_subject seed\<rparr> (accounts s)"
  let ?B = "fmupd (seed_subject seed) (seed_id seed) (bySubject s)"
  let ?L = "fmupd (seed_id seed) \<lparr>lc_account = seed_id seed, lc_state = AccountStatePending, lc_version = 1,
        lc_reason = None, lc_revocation = RevocationStatusNone\<rparr> (lifecycles s)"
  have new: "fmlookup (bySubject s) (seed_subject seed) = None" "fmlookup (accounts s) (seed_id seed) = None"
    using e by simp_all
  have pend: "lifecycle_ok (seed_id seed) \<lparr>lc_account = seed_id seed, lc_state = AccountStatePending, lc_version = 1,
        lc_reason = None, lc_revocation = RevocationStatusNone\<rparr>" "\<not> live_state AccountStatePending"
    by (simp_all add: lifecycle_ok_def live_state_def MaxInt64_def validLifecycleShape_def)
  have ai: "accounts_inv (accounts s) (bySubject s) (lifecycles s)" using inv by (simp add: store_inv_def)
  then have fresh: "fmlookup (bySubject s) p \<noteq> Some (seed_id seed)" for p
    using new unfolding accounts_inv_def by (metis option.distinct(1))
  have "accounts_inv ?A ?B ?L"
    using ai new e fresh unfolding accounts_inv_def by auto
  moreover have "cursors_inv ?A (cursors s)" "credentials_inv ?A (credentials s)"
    using inv by (auto simp: store_inv_def cursors_inv_def credentials_inv_def)
  moreover have "lifecycles_inv ?L (cursors s) (credentials s)"
    using inv pend unfolding store_inv_def lifecycles_inv_def by auto
  moreover have "messages_inv ?A (messages s) (records s)"
    using inv by (auto simp: store_inv_def messages_inv_def)
  moreover have "attempts_inv (attempts s) (cursors s) ?L"
  proof -
    have "fmlookup (lifecycles s) (seed_id seed) = None"
      using inv new(2) by (simp add: store_inv_def accounts_inv_def)
    then have "fmlookup (attempts s) (seed_id seed) = None"
      using attempt_inv(6) [OF inv] by (cases "fmlookup (attempts s) (seed_id seed)") fastforce+
    then show ?thesis using inv by (auto simp: store_inv_def attempts_inv_def)
  qed
  ultimately show ?thesis using inv e by (simp add: store_inv_def)
qed (use inv in simp)

lemma CommitSynchronization_inv:
  assumes inv: "store_inv s" and r: "CommitSynchronization ctx c s = (r, s')"
  shows "store_inv s'"
  using CommitSynchronization_cases [OF r] inv
  by (auto simp: store_inv_def cursors_inv_def lifecycles_inv_def attempts_inv_def split: if_splits)

lemma CommitProviderCredential_inv:
  assumes inv: "store_inv s" and r: "CommitProviderCredential ctx c s = (r, s')"
  shows "store_inv s'"
  using CommitProviderCredential_cases [OF r] inv
  by (auto simp: store_inv_def credentials_inv_def lifecycles_inv_def credential_of_def split: if_splits)

lemma CommitAccountLifecycle_inv:
  assumes inv: "store_inv s" and r: "CommitAccountLifecycle ctx c s = (r, s')"
  shows "store_inv s'"
proof (cases "s' = s")
  case False
  have li: "lifecycles_inv (lifecycles s) (cursors s) (credentials s)" using inv by (simp add: store_inv_def)
  let ?i = "cm_account c"
  obtain l where v: "ValidateLifecycleCommit c = None" and l: "fmlookup (lifecycles s) ?i = Some l"
    and st: "lc_state l = cm_expected_state c" "lc_version l = cm_expected_version c"
    and act: "cm_next_state c = AccountStateActive \<longrightarrow> fmlookup (cursors s) ?i \<noteq> None \<and> fmlookup (credentials s) ?i \<noteq> None"
    and s': "s' = s\<lparr>lifecycles := fmupd ?i (lifecycle_next l c) (lifecycles s),
       attempts := (if cm_next_state c = AccountStateRevoked then fmdrop ?i (attempts s) else attempts s)\<rparr>"
    using CommitAccountLifecycle_cases [OF r li] False by blast
  let ?L = "fmupd ?i (lifecycle_next l c) (lifecycles s)"
  have ok: "lifecycle_ok ?i l" using li l by (simp add: lifecycles_inv_def)
  have nxt: "lifecycle_ok ?i (lifecycle_next l c)" by (rule lifecycle_next_ok [OF ok v st(2) refl])
  have ns: "lc_state (lifecycle_next l c) = cm_next_state c" by (simp add: lifecycle_next_def)
  have live: "fmlookup (cursors s) ?i \<noteq> None \<and> fmlookup (credentials s) ?i \<noteq> None" if "live_state (cm_next_state c)"
    using live_edge [OF v that] act li l st by (auto simp: lifecycles_inv_def)
  have "lifecycles_inv ?L (cursors s) (credentials s)"
    using li nxt ns live by (auto simp: lifecycles_inv_def)
  moreover have "accounts_inv (accounts s) (bySubject s) ?L"
    using inv inv_accounts_lifecycles [OF inv, of ?i] l by (simp add: store_inv_def accounts_inv_def)
  moreover have "attempts_inv (attempts s') (cursors s) ?L"
    unfolding attempts_inv_def
  proof (intro allI impI)
    fix a t assume t: "fmlookup (attempts s') a = Some t"
    then have old: "fmlookup (attempts s) a = Some t" and rev: "a = ?i \<Longrightarrow> cm_next_state c \<noteq> AccountStateRevoked"
      by (auto simp: s' split: if_splits)
    have "live_state (cm_next_state c)" if "a = ?i"
      using dead_edge [OF v] rev [OF that] attempt_inv(6) [OF inv old] l st that by auto
    then show "prepared_ok (at_prepared t) \<and> pd_account (at_prepared t) = a \<and> at_state t = ''sealed'' \<and>
      at_staged t = pd_messages (at_prepared t) \<and> fmlookup (cursors s) a = Some (pd_expected (at_prepared t)) \<and>
      (\<exists>l. fmlookup ?L a = Some l \<and> live_state (lc_state l))"
      using attempt_inv [OF inv old] ns by auto
  qed
  ultimately show ?thesis using inv by (simp add: store_inv_def s')
qed (use inv in simp)

lemma DeleteRevokedProviderCredential_inv:
  assumes inv: "store_inv s" and r: "DeleteRevokedProviderCredential ctx d s = (r, s')"
  shows "store_inv s'"
  using DeleteRevokedProviderCredential_cases [OF r] inv
  by (auto simp: store_inv_def credentials_inv_def lifecycles_inv_def live_state_def split: if_splits)

lemma commit_prepared_inv:
  assumes inv: "store_inv s" and can: "can_promote p s"
  shows "store_inv (commit_prepared p s)"
proof -
  let ?a = "pd_account p"
  have p: "prepared_ok p" and cur: "fmlookup (cursors s) ?a = Some (pd_expected p)" using can by (simp_all add: can_promote_def)
  have acc: "fmlookup (accounts s) ?a \<noteq> None" using inv cur by (auto simp: store_inv_def cursors_inv_def)
  have "cursors_inv (accounts s) (fmupd ?a (pd_next p) (cursors s))"
    using inv acc p by (simp add: store_inv_def cursors_inv_def prepared_ok_def)
  moreover have "lifecycles_inv (lifecycles s) (fmupd ?a (pd_next p) (cursors s)) (credentials s)"
    using inv by (simp add: store_inv_def lifecycles_inv_def)
  moreover have "messages_inv (accounts s) (messages (promoted ?a (pd_messages p) s)) (records (promoted ?a (pd_messages p) s))"
    using inv acc p by (intro promoted_inv) (simp_all add: store_inv_def prepared_ok_def)
  moreover have "attempts_inv (fmdrop ?a (attempts s)) (fmupd ?a (pd_next p) (cursors s)) (lifecycles s)"
    using inv by (auto simp: store_inv_def attempts_inv_def)
  moreover have "derived_inv (records (promoted ?a (pd_messages p) s)) (decisions s) (contents s)"
    using inv promoted_records [of s _ ?a "pd_messages p"] unfolding store_inv_def derived_inv_def by blast
  ultimately show ?thesis using inv by (simp add: store_inv_def)
qed

lemma CommitCurrentDiscovery_inv:
  assumes inv: "store_inv s" and r: "CommitCurrentDiscovery ctx c s = (r, s')"
  shows "store_inv s'"
proof (cases "s' = s")
  case False
  have ai: "attempts_inv (attempts s) (cursors s) (lifecycles s)" using inv by (simp add: store_inv_def)
  obtain q where q: "can_promote q s" and
    s': "s' = commit_prepared q s \<or> s' = s\<lparr>attempts := fmupd (pd_account q) (sealed_attempt q) (attempts s)\<rparr>"
    using CommitCurrentDiscovery_cases [OF r ai] False by blast
  have "attempts_inv (fmupd (pd_account q) (sealed_attempt q) (attempts s)) (cursors s) (lifecycles s)"
    using ai q by (auto simp: attempts_inv_def can_promote_def sealed_attempt_def live_state_def)
  then show ?thesis using s' commit_prepared_inv [OF inv q] inv by (auto simp: store_inv_def)
qed (use inv in simp)

lemma ReconcileCurrentDiscovery_inv:
  assumes inv: "store_inv s" and r: "ReconcileCurrentDiscovery ctx i s = (r, s')"
  shows "store_inv s'"
proof -
  have ai: "attempts_inv (attempts s) (cursors s) (lifecycles s)" using inv by (simp add: store_inv_def)
  show ?thesis using ReconcileCurrentDiscovery_cases [OF r ai] commit_prepared_inv [OF inv] inv by auto
qed

lemma message_at_inv:
  assumes "store_inv s" and "message_at s a g = Some m"
  shows "fmlookup (accounts s) a \<noteq> None" "message_valid m" "msg_gmail_id m = g" "msg_account m = account_id_string a"
    "fmlookup (records s) (msg_record_id m) \<noteq> None"
  using assms by (auto simp: store_inv_def messages_inv_def message_at_eq)

lemma CommitGateDecision_inv:
  assumes inv: "store_inv s" and r: "CommitGateDecision ctx c s = (r, s')"
  shows "store_inv s'"
proof (cases "s' = s")
  case False
  then obtain m where v: "decision_valid (gc_next c)"
    and m: "message_at s (SourceAccountID c) (msg_gmail_id (gc_source c)) = Some m"
    and s': "s' = s\<lparr>decisions := fmupd (msg_record_id m) (gc_next c) (decisions s)\<rparr>"
    using CommitGateDecision_cases [OF r] by blast
  then show ?thesis using inv message_at_inv(5) [OF inv m] by (simp add: store_inv_def derived_inv_def)
qed (use inv in simp)

lemma CommitCandidateContent_inv:
  assumes inv: "store_inv s" and r: "CommitCandidateContent ctx c s = (r, s')"
  shows "store_inv s'"
proof (cases "s' = s")
  case False
  then obtain a m where v: "ValidateCandidateContentCommit c = None"
    and m: "message_at s a (msg_gmail_id (ccm_source c)) = Some m" "msg_record_id m = msg_record_id (ccm_source c)"
    and s': "s' = s\<lparr>contents := fmupd (msg_record_id m) (ccm_next c) (contents s)\<rparr>"
    using CommitCandidateContent_cases [OF r] by blast
  have "content_valid (ccm_next c)" "cc_record_id (ccm_next c) = msg_record_id m"
    using v m(2) by (auto simp: ValidateCandidateContentCommit_def split: sum.splits if_splits)
  then show ?thesis using inv s' message_at_inv(5) [OF inv m(1)] by (simp add: store_inv_def derived_inv_def)
qed (use inv in simp)

lemma run_op_inv: "store_inv s \<Longrightarrow> run_op ctx op s = (r, s') \<Longrightarrow> store_inv s'"
  by (cases op)
    (auto split: prod.splits sum.splits dest: EnsureAccount_inv CommitSynchronization_inv
      CommitProviderCredential_inv CommitAccountLifecycle_inv DeleteRevokedProviderCredential_inv
      CommitCurrentDiscovery_inv ReconcileCurrentDiscovery_inv CommitGateDecision_inv CommitCandidateContent_inv)

lemma steps_inv: "steps s h t \<Longrightarrow> store_inv s \<Longrightarrow> store_inv t"
  by (induction rule: steps.induct) (auto dest: run_op_inv)

lemma reachable_inv: "reachable s \<Longrightarrow> store_inv s"
  using steps_inv New_inv by (auto simp: reachable_def)

end
