(* ===== verification/Store_Histories.thy ===== *)
theory Store_Histories
  imports Store_Invariant
begin

text \<open>
  What holds along every history of store operations: the account lifecycle as an abstract
  state machine that the store refines, the monotone cursor, the fixed identity of accounts and
  messages, and the effect of each commit on the reads that follow it.
\<close>

section \<open>The lifecycle state machine\<close>

inductive lifecycle_edge :: "account_state \<times> revocation_status \<Rightarrow> account_state \<times> revocation_status \<Rightarrow> bool" where
  activate: "lifecycle_edge (AccountStatePending, RevocationStatusNone) (AccountStateActive, RevocationStatusNone)"
| pause: "lifecycle_edge (AccountStateActive, RevocationStatusNone) (AccountStatePaused, RevocationStatusNone)"
| resume: "lifecycle_edge (AccountStatePaused, RevocationStatusNone) (AccountStateActive, RevocationStatusNone)"
| expire: "lifecycle_edge (AccountStateActive, RevocationStatusNone)
    (AccountStateReauthorizationRequired, RevocationStatusNone)"
| revoke: "st \<noteq> AccountStateRevoked \<Longrightarrow> st \<noteq> AccountStateZero \<Longrightarrow>
    lifecycle_edge (st, RevocationStatusNone) (AccountStateRevoked, RevocationStatusPending)"
| claim: "lifecycle_edge (AccountStateRevoked, RevocationStatusPending) (AccountStateRevoked, RevocationStatusAttempting)"
| confirm: "lifecycle_edge (AccountStateRevoked, RevocationStatusAttempting)
    (AccountStateRevoked, RevocationStatusConfirmed)"
| escalate: "lifecycle_edge (AccountStateRevoked, RevocationStatusAttempting)
    (AccountStateRevoked, RevocationStatusManualActionRequired)"

inductive_simps lifecycle_edge_simps: "lifecycle_edge (st, r) (st', r')"

lemma valid_commit_edge:
  assumes "ValidateLifecycleCommit c = None"
  shows "lifecycle_edge (cm_expected_state c, cm_expected_revocation c) (cm_next_state c, cm_revocation c)"
  using assms
  by (auto simp: ValidateLifecycleCommit_None validLifecycleTransition_def validLifecycleShape_def
      validExpectedLifecycleShape_def lifecycle_edge_simps split: account_state.splits if_splits)

text \<open>Position of a pair on every path of the machine: it never goes back to a smaller rank.\<close>

fun revocation_rank :: "account_state \<times> revocation_status \<Rightarrow> nat" where
  "revocation_rank (st, r) = (if st \<noteq> AccountStateRevoked then 0 else case r of
     RevocationStatusPending \<Rightarrow> 1 | RevocationStatusAttempting \<Rightarrow> 2 | RevocationStatusConfirmed \<Rightarrow> 3
   | RevocationStatusManualActionRequired \<Rightarrow> 3 | _ \<Rightarrow> 0)"

lemma edge_rank: "lifecycle_edge p q \<Longrightarrow> revocation_rank p \<le> revocation_rank q"
  by (induction rule: lifecycle_edge.induct) simp_all

abbreviation status_of :: "account_lifecycle \<Rightarrow> account_state \<times> revocation_status" where
  "status_of l \<equiv> (lc_state l, lc_revocation l)"

definition lifecycle_next_to :: "account_lifecycle \<Rightarrow> account_lifecycle \<Rightarrow> bool" where
  "lifecycle_next_to l l' \<longleftrightarrow> l' = l \<or> lifecycle_edge (status_of l) (status_of l') \<and> lc_version l' = lc_version l + 1"

lemma run_op_lifecycle:
  assumes inv: "store_inv s" and r: "run_op ctx op s = (r, s')" and l: "fmlookup (lifecycles s) i = Some l"
  shows "\<exists>l'. fmlookup (lifecycles s') i = Some l' \<and> lifecycle_next_to l l'"
proof (cases op)
  case (OpEnsureAccount seed)
  then obtain q where "EnsureAccount ctx seed s = (q, s')" using r by (auto split: prod.splits sum.splits)
  from EnsureAccount_cases [OF this] show ?thesis
    using l inv_accounts_lifecycles [OF inv, of "seed_id seed"] by (auto simp: lifecycle_next_to_def)
next
  case (OpCommitSynchronization c)
  then show ?thesis using r l CommitSynchronization_cases [of ctx c s r s'] by (auto simp: lifecycle_next_to_def)
next
  case (OpCommitProviderCredential c)
  then show ?thesis using r l CommitProviderCredential_cases [of ctx c s r s'] by (auto simp: lifecycle_next_to_def)
next
  case (OpCommitAccountLifecycle c)
  have li: "lifecycles_inv (lifecycles s) (cursors s) (credentials s)" using inv by (simp add: store_inv_def)
  from OpCommitAccountLifecycle r have "CommitAccountLifecycle ctx c s = (r, s')" by simp
  from CommitAccountLifecycle_cases [OF this li] show ?thesis
  proof (elim disjE exE conjE)
    fix k assume k: "ValidateLifecycleCommit c = None" "fmlookup (lifecycles s) (cm_account c) = Some k"
      "lc_state k = cm_expected_state c" "lc_revocation k = cm_expected_revocation c"
      and s': "s' = s\<lparr>lifecycles := fmupd (cm_account c) (lifecycle_next k c) (lifecycles s),
        attempts := if cm_next_state c = AccountStateRevoked then fmdrop (cm_account c) (attempts s) else attempts s\<rparr>"
    then show ?thesis
      using valid_commit_edge [OF k(1)] l by (auto simp: s' lifecycle_next_to_def lifecycle_next_def)
  qed (use l in \<open>auto simp: lifecycle_next_to_def\<close>)
next
  case (OpDeleteRevokedProviderCredential d)
  then show ?thesis using r l DeleteRevokedProviderCredential_cases [of ctx d s r s'] by (auto simp: lifecycle_next_to_def)
next
  case (OpCommitCurrentDiscovery c)
  have "attempts_inv (attempts s) (cursors s) (lifecycles s)" using inv by (simp add: store_inv_def)
  then show ?thesis using r l OpCommitCurrentDiscovery CommitCurrentDiscovery_cases [of ctx c s r s']
    by (auto simp: lifecycle_next_to_def)
next
  case (OpReconcileCurrentDiscovery a)
  have "attempts_inv (attempts s) (cursors s) (lifecycles s)" using inv by (simp add: store_inv_def)
  then show ?thesis using r l OpReconcileCurrentDiscovery ReconcileCurrentDiscovery_cases [of ctx a s r s']
    by (auto simp: lifecycle_next_to_def)
next
  case (OpCommitGateDecision c)
  then show ?thesis using r l CommitGateDecision_cases [of ctx c s r s'] by (auto simp: lifecycle_next_to_def)
next
  case (OpCommitCandidateContent c)
  then show ?thesis using r l CommitCandidateContent_cases [of ctx c s r s'] by (auto simp: lifecycle_next_to_def)
qed

lemma steps_lifecycle:
  assumes "steps s h t" and "store_inv s" and "fmlookup (lifecycles s) i = Some l"
  shows "\<exists>l'. fmlookup (lifecycles t) i = Some l' \<and> revocation_rank (status_of l) \<le> revocation_rank (status_of l') \<and>
    lc_version l \<le> lc_version l' \<and> (lc_version l = lc_version l' \<longrightarrow> l = l')"
  using assms
proof (induction arbitrary: l rule: steps.induct)
  case (steps_Cons ctx op s r s' h t)
  obtain k where k: "fmlookup (lifecycles s') i = Some k" "lifecycle_next_to l k"
    using run_op_lifecycle [OF steps_Cons.prems(1) steps_Cons.hyps(1) steps_Cons.prems(2)] by blast
  obtain l' where l': "fmlookup (lifecycles t) i = Some l'"
    "revocation_rank (status_of k) \<le> revocation_rank (status_of l')" "lc_version k \<le> lc_version l'"
    "lc_version k = lc_version l' \<longrightarrow> k = l'"
    using steps_Cons.IH [OF run_op_inv [OF steps_Cons.prems(1) steps_Cons.hyps(1)] k(1)] by blast
  have "revocation_rank (status_of l) \<le> revocation_rank (status_of k)" "lc_version l \<le> lc_version k"
    "lc_version l = lc_version k \<longrightarrow> l = k"
    using k(2) edge_rank [of "status_of l" "status_of k"] unfolding lifecycle_next_to_def
    by (auto simp del: revocation_rank.simps)
  then show ?case using l' by (intro exI [of _ l']) (auto simp del: revocation_rank.simps)
qed auto

lemma claim_rank:
  assumes "LifecycleCommitIsRevocationClaim c" and "fmlookup (lifecycles s) (cm_account c) = Some l"
    and "revocation_rank (status_of l) \<ge> 2"
  shows "fst (CommitAccountLifecycle ctx c s) \<noteq> None"
  using assms
  by (auto simp: CommitAccountLifecycle_def LifecycleCommitIsRevocationClaim_def split: option.splits if_splits)

lemma claim_success:
  assumes c: "LifecycleCommitIsRevocationClaim c" and r: "CommitAccountLifecycle ctx c s = (None, s')"
  shows "\<exists>l. fmlookup (lifecycles s') (cm_account c) = Some l \<and> status_of l = (AccountStateRevoked, RevocationStatusAttempting)"
  using r c
  by (auto simp: CommitAccountLifecycle_def LifecycleCommitIsRevocationClaim_def Let_def
      split: option.splits if_splits)

section \<open>Cursors, accounts and messages along a history\<close>

text \<open>What one step may do to the durable identity of things.\<close>

definition cursor_le :: "store \<Rightarrow> store \<Rightarrow> bool" where
  "cursor_le s t \<longleftrightarrow> (\<forall>a x. fmlookup (cursors s) a = Some x \<longrightarrow>
     (\<exists>y. fmlookup (cursors t) a = Some y \<and> hid_value x \<le> hid_value y))"

definition accounts_le :: "store \<Rightarrow> store \<Rightarrow> bool" where
  "accounts_le s t \<longleftrightarrow> (\<forall>i a. fmlookup (accounts s) i = Some a \<longrightarrow> fmlookup (accounts t) i = Some a) \<and>
     (\<forall>p i. fmlookup (bySubject s) p = Some i \<longrightarrow> fmlookup (bySubject t) p = Some i)"

definition messages_le :: "store \<Rightarrow> store \<Rightarrow> bool" where
  "messages_le s t \<longleftrightarrow> (\<forall>a g m. message_at s a g = Some m \<longrightarrow>
     (\<exists>m'. message_at t a g = Some m' \<and> msg_record_id m' = msg_record_id m \<and> msg_thread_id m' = msg_thread_id m))"

definition store_le :: "store \<Rightarrow> store \<Rightarrow> bool" where
  "store_le s t \<longleftrightarrow> cursor_le s t \<and> accounts_le s t \<and> messages_le s t"

lemma store_le_refl: "store_le s s"
  by (auto simp: store_le_def cursor_le_def accounts_le_def messages_le_def)

lemma cursor_le_trans: "cursor_le a b \<Longrightarrow> cursor_le b c \<Longrightarrow> cursor_le a c"
  unfolding cursor_le_def by (meson order_trans)

lemma accounts_le_trans: "accounts_le a b \<Longrightarrow> accounts_le b c \<Longrightarrow> accounts_le a c"
  by (simp add: accounts_le_def)

lemma messages_le_trans: "messages_le a b \<Longrightarrow> messages_le b c \<Longrightarrow> messages_le a c"
  unfolding messages_le_def by fastforce

lemma store_le_trans: "store_le a b \<Longrightarrow> store_le b c \<Longrightarrow> store_le a c"
  unfolding store_le_def using cursor_le_trans accounts_le_trans messages_le_trans by blast

lemma store_le_frame:
  "cursors t = cursors s \<Longrightarrow> accounts t = accounts s \<Longrightarrow> bySubject t = bySubject s \<Longrightarrow> messages t = messages s \<Longrightarrow> store_le s t"
  by (auto simp: store_le_def cursor_le_def accounts_le_def messages_le_def message_at_def)

lemma staged_conflict_None:
  "staged_conflict s a ms = None \<Longrightarrow> m \<in> set ms \<Longrightarrow> message_at s a (msg_gmail_id m) = Some e \<Longrightarrow>
    msg_record_id e = msg_record_id m \<and> msg_thread_id e = msg_thread_id m"
  by (induction ms) (auto split: option.splits if_splits)

lemma commit_prepared_le:
  assumes can: "can_promote p s" and no: "staged_conflict s (pd_account p) (pd_messages p) = None"
  shows "store_le s (commit_prepared p s)"
proof -
  have p: "prepared_ok p" and cur: "fmlookup (cursors s) (pd_account p) = Some (pd_expected p)"
    using can by (simp_all add: can_promote_def)
  have sorted: "sorted_wrt (<) (gids (pd_messages p))" and lt: "hid_value (pd_expected p) < hid_value (pd_next p)"
    using p by (simp_all add: prepared_ok_def)
  have "messages_le s (commit_prepared p s)"
    unfolding messages_le_def
  proof (intro allI impI)
    fix a g e assume e: "message_at s a g = Some e"
    show "\<exists>m'. message_at (commit_prepared p s) a g = Some m' \<and> msg_record_id m' = msg_record_id e \<and> msg_thread_id m' = msg_thread_id e"
    proof (cases "a = pd_account p \<and> g \<in> msg_gmail_id ` set (pd_messages p)")
      case True
      then obtain m where m: "m \<in> set (pd_messages p)" "g = msg_gmail_id m" by blast
      then show ?thesis
        using True e staged_conflict_None [OF no m(1), of e] promoted_stored [OF sorted m(1)]
        by (simp add: message_at_eq)
    next
      case False
      then show ?thesis using e promoted_other [OF sorted, of a "pd_account p" g s] by (auto simp: message_at_eq)
    qed
  qed
  then show ?thesis
    using cur lt by (auto simp: store_le_def cursor_le_def accounts_le_def)
qed

lemma run_op_le:
  assumes inv: "store_inv s" and r: "run_op ctx op s = (r, s')"
  shows "store_le s s'"
proof (cases op)
  case (OpEnsureAccount seed)
  then obtain q where "EnsureAccount ctx seed s = (q, s')" using r by (auto split: prod.splits sum.splits)
  from EnsureAccount_cases [OF this] show ?thesis
    by (auto simp: store_le_refl) (auto simp: store_le_def cursor_le_def accounts_le_def messages_le_def message_at_def)
next
  case (OpCommitSynchronization c)
  then show ?thesis using r CommitSynchronization_cases [of ctx c s r s']
    by (auto simp: store_le_refl) (auto simp: store_le_def cursor_le_def accounts_le_def messages_le_def message_at_def)
next
  case (OpCommitProviderCredential c)
  then show ?thesis using r CommitProviderCredential_cases [of ctx c s r s'] by (auto simp: store_le_refl intro!: store_le_frame)
next
  case (OpCommitAccountLifecycle c)
  have li: "lifecycles_inv (lifecycles s) (cursors s) (credentials s)" using inv by (simp add: store_inv_def)
  from OpCommitAccountLifecycle r have "CommitAccountLifecycle ctx c s = (r, s')" by simp
  from CommitAccountLifecycle_cases [OF this li] show ?thesis by (auto simp: store_le_refl intro!: store_le_frame)
next
  case (OpDeleteRevokedProviderCredential d)
  then show ?thesis using r DeleteRevokedProviderCredential_cases [of ctx d s r s']
    by (auto simp: store_le_refl intro!: store_le_frame)
next
  case (OpCommitCurrentDiscovery c)
  have ai: "attempts_inv (attempts s) (cursors s) (lifecycles s)" using inv by (simp add: store_inv_def)
  have c: "CommitCurrentDiscovery ctx c s = (r, s')" using r OpCommitCurrentDiscovery by simp
  show ?thesis
  proof (cases "s' = s")
    case False
    then obtain q where "can_promote q s" and "s' = commit_prepared q s \<and> staged_conflict s (pd_account q) (pd_messages q) = None \<or>
        s' = s\<lparr>attempts := fmupd (pd_account q) (sealed_attempt q) (attempts s)\<rparr>"
      using CommitCurrentDiscovery_cases [OF c ai] by metis
    then show ?thesis using commit_prepared_le by (auto intro: store_le_frame)
  qed (simp add: store_le_refl)
next
  case (OpReconcileCurrentDiscovery a)
  have "attempts_inv (attempts s) (cursors s) (lifecycles s)" using inv by (simp add: store_inv_def)
  then show ?thesis using r OpReconcileCurrentDiscovery ReconcileCurrentDiscovery_cases [of ctx a s r s'] commit_prepared_le
    by (auto simp: store_le_refl)
next
  case (OpCommitGateDecision c)
  then show ?thesis using r CommitGateDecision_cases [of ctx c s r s'] by (auto simp: store_le_refl intro!: store_le_frame)
next
  case (OpCommitCandidateContent c)
  then show ?thesis using r CommitCandidateContent_cases [of ctx c s r s'] by (auto simp: store_le_refl intro!: store_le_frame)
qed

lemma steps_le: "steps s h t \<Longrightarrow> store_inv s \<Longrightarrow> store_inv t \<and> store_le s t"
  by (rule steps_rtrans [where P = store_inv and R = store_le])
    (auto intro: store_le_refl store_le_trans run_op_inv run_op_le)

end
