(* ===== verification/Store_Demo.thy ===== *)
theory Store_Demo
  imports Store_Histories
begin

text \<open>
  Concrete values for the witnesses: one account taken through enrolment by the operations of
  the store, and one message it discovers.
\<close>

definition demo_id :: account_id where
  "demo_id = AccountID ''0123456789abcdef0123456789abcdef''"

definition demo_subject :: provider_subject where
  "demo_subject = ProviderSubject ''1001''"

definition demo_seed :: account_seed where
  "demo_seed = \<lparr>seed_id = demo_id, seed_subject = demo_subject\<rparr>"

definition demo_cursor :: history_id where
  "demo_cursor = \<lparr>hid_text = ''5'', hid_value = 5\<rparr>"

definition demo_cursor_next :: history_id where
  "demo_cursor_next = \<lparr>hid_text = ''9'', hid_value = 9\<rparr>"

definition demo_envelope :: credential_envelope where
  "demo_envelope = \<lparr>env_text = envelope_string ''k'' (replicate 12 CHR 0x00) (replicate 17 CHR 0x00), env_key_id = CredentialKeyID ''k''\<rparr>"

definition demo_activate :: lifecycle_commit where
  "demo_activate = \<lparr>cm_account = demo_id, cm_expected_state = AccountStatePending, cm_expected_version = 1,
     cm_expected_revocation = RevocationStatusNone, cm_next_state = AccountStateActive, cm_reason = None,
     cm_revocation = RevocationStatusNone\<rparr>"

definition demo_pending :: store where
  "demo_pending = New\<lparr>
     accounts := fmupd demo_id \<lparr>acct_id = demo_id, acct_subject = demo_subject\<rparr> fmempty,
     bySubject := fmupd demo_subject demo_id fmempty,
     lifecycles := fmupd demo_id \<lparr>lc_account = demo_id, lc_state = AccountStatePending, lc_version = 1,
       lc_reason = None, lc_revocation = RevocationStatusNone\<rparr> fmempty\<rparr>"

definition demo_active :: store where
  "demo_active = demo_pending\<lparr>cursors := fmupd demo_id demo_cursor fmempty,
     credentials := fmupd demo_id \<lparr>cred_account = demo_id, cred_key_id = CredentialKeyID ''k'',
       cred_envelope = demo_envelope\<rparr> fmempty,
     lifecycles := fmupd demo_id \<lparr>lc_account = demo_id, lc_state = AccountStateActive, lc_version = 2,
       lc_reason = None, lc_revocation = RevocationStatusNone\<rparr> (lifecycles demo_pending)\<rparr>"

lemma demo_id_valid [simp]: "account_id_valid demo_id" "ParseAccountID (account_id_string demo_id) = Inr demo_id"
  by code_simp+

lemma demo_subject_valid [simp]: "provider_subject_valid demo_subject"
  by code_simp

lemma demo_digits: "format_uint 5 = ''5''" "format_uint 9 = ''9''"
  by code_simp+

lemma demo_cursor_valid [simp]: "history_id_valid demo_cursor" "history_id_valid demo_cursor_next"
  by (simp_all add: history_id_valid_iff ParseHistoryID_Inr demo_cursor_def demo_cursor_next_def
      demo_digits)

lemma demo_envelope_valid [simp]: "credential_envelope_valid demo_envelope"
proof -
  have "validCredentialKeyID ''k''" by code_simp
  then show ?thesis by (simp add: credential_envelope_valid_def demo_envelope_def envelope_parse)
qed

lemma demo_activate_valid [simp]: "ValidateLifecycleCommit demo_activate = None"
  by (simp add: ValidateLifecycleCommit_None demo_activate_def validExpectedLifecycleShape_def validLifecycleShape_def
      validLifecycleTransition_def MaxInt64_def)

definition demo_synced :: store where
  "demo_synced = demo_pending\<lparr>cursors := fmupd demo_id demo_cursor fmempty\<rparr>"

definition demo_enrolled :: store where
  "demo_enrolled = demo_synced\<lparr>credentials := fmupd demo_id \<lparr>cred_account = demo_id, cred_key_id = CredentialKeyID ''k'',
       cred_envelope = demo_envelope\<rparr> fmempty\<rparr>"

lemmas demo_store_defs = demo_active_def demo_enrolled_def demo_synced_def demo_pending_def New_def

lemma demo_ensure: "run_op None (OpEnsureAccount demo_seed) New = (None, demo_pending)"
  by (simp add: EnsureAccount_def ValidateAccountSeed_def demo_seed_def demo_store_defs
      ParseLifecycleVersion_def Let_def)

lemma demo_sync: "run_op None (OpCommitSynchronization
    \<lparr>sync_account = demo_id, sync_expected = None, sync_next = demo_cursor\<rparr>) demo_pending = (None, demo_synced)"
  by (simp add: CommitSynchronization_def ValidateSynchronizationCommit_def demo_store_defs)

lemma demo_enrol: "run_op None (OpCommitProviderCredential
    \<lparr>pcc_account = demo_id, pcc_expected = None, pcc_next = demo_envelope\<rparr>) demo_synced = (None, demo_enrolled)"
  by (simp add: CommitProviderCredential_def ValidateProviderCredentialCommit_def demo_store_defs Let_def)
    (simp add: demo_envelope_def)

lemma demo_activation: "run_op None (OpCommitAccountLifecycle demo_activate) demo_enrolled = (None, demo_active)"
  by (simp add: CommitAccountLifecycle_def)
    (simp add: demo_activate_def demo_store_defs LifecycleMatchesCommit_iff Let_def ParseLifecycleVersion_def int64_add_def)

definition demo_history :: "(ctx \<times> store_op) list" where
  "demo_history = [(None, OpEnsureAccount demo_seed),
     (None, OpCommitSynchronization \<lparr>sync_account = demo_id, sync_expected = None, sync_next = demo_cursor\<rparr>),
     (None, OpCommitProviderCredential \<lparr>pcc_account = demo_id, pcc_expected = None, pcc_next = demo_envelope\<rparr>),
     (None, OpCommitAccountLifecycle demo_activate)]"

lemma demo_steps: "steps New demo_history demo_active"
  unfolding demo_history_def
  by (intro steps_Cons [OF demo_ensure] steps_Cons [OF demo_sync] steps_Cons [OF demo_enrol]
      steps_Cons [OF demo_activation] steps_Nil)

lemma demo_reachable: "reachable demo_active"
  using demo_steps by (auto simp: reachable_def)

lemma demo_active_inv: "store_inv demo_active"
  by (rule reachable_inv [OF demo_reachable])

section \<open>A message\<close>

definition demo_input :: message_input where
  "demo_input = \<lparr>mi_gmail_message_id = ''m1'', mi_gmail_thread_id = ''t1'', mi_rfc_message_id = [], mi_internal_date = 0,
     mi_sender_display = [], mi_sender_address = ''ann@example.com'', mi_to = [''me@x.org''], mi_cc = [], mi_delivered_to = [],
     mi_subject = ''Pay now'', mi_labels = [''INBOX''], mi_size_estimate = 0, mi_attachment_count = 0, mi_list_id = [],
     mi_auto_submitted = [], mi_precedence = [], mi_list_unsubscribe = False\<rparr>"

definition demo_message :: message where
  "demo_message = normal_message (account_id_string demo_id) demo_input"

lemma demo_sort [simp]: "sort_compact [x] = [x]" "sort_compact [] = []"
  by (simp_all add: sort_compact_def)

lemma demo_texts: "validText ''ann@example.com'' 512" "validText ''me@x.org'' 512" "validText ''Pay now'' 4096"
  "validVisibleASCII ''INBOX'' 1 128" "validVisibleASCII ''m1'' 1 255" "validVisibleASCII ''t1'' 1 255"
  "mail_validAccountID (account_id_string demo_id)" "validText [] n"
  by (simp_all add: validText_def validVisibleASCII_def mail_validAccountID_def validLowerHex_def demo_id_def
      valid_utf8_ascii runes_ascii is_control_def in_range_def lower_hex_char_def)

text \<open>Printing of a text without characters that need an escape.\<close>

definition plain_char :: "char \<Rightarrow> bool" where
  "plain_char c \<longleftrightarrow> 0x20 \<le> bval c \<and> bval c < 0x7f \<and> bval c \<notin> {34, 92, 60, 62, 38}"

lemma escape_plain_char: "plain_char c \<Longrightarrow> escape_chunk html [c] = [c]"
  using ascii_decode [of c "[]"] ascii_not_malformed [of c "[]"]
  by (simp add: escape_chunk_def plain_char_def del: decode_rune.simps)

lemma json_quote_plain: "list_all plain_char s \<Longrightarrow> json_quote html s = CHR 0x22 # s @ [CHR 0x22]"
proof -
  assume p: "list_all plain_char s"
  then have "chunks s = map (\<lambda>c. [c]) s" by (intro chunks_ascii) (auto simp: list_all_iff plain_char_def)
  moreover have "concat (map (escape_chunk html) (map (\<lambda>c. [c]) s)) = s"
    using p by (induction s) (simp_all add: escape_plain_char)
  ultimately show ?thesis by (simp add: json_quote_def)
qed

lemma demo_json_length: "length (encodeCanonical (normal_metadata demo_input)) \<le> MaximumCanonicalJSONBytes"
  by (simp add: encodeCanonical_def metadata_json_def normal_metadata_def demo_input_def json_strings_def
      json_quote_plain plain_char_def format_int_def format_uint.simps [of 0] format_uint.simps [of "Suc 0"]
      DiscoverySourceCurrentSync_def MaximumCanonicalJSONBytes_def MetadataVersion1_def)

lemma demo_normal_ok: "normal_ok (account_id_string demo_id) demo_input"
  using demo_texts demo_json_length
  by (simp add: normal_ok_def demo_input_def canonicalTextList_def canonicalLabels_def)

lemma demo_normalize: "Normalize (account_id_string demo_id) demo_input = Inr demo_message"
  by (simp add: Normalize_Inr demo_normal_ok demo_message_def)

lemma demo_message_valid: "message_valid demo_message" "msg_account demo_message = account_id_string demo_id"
  "msg_gmail_id demo_message = ''m1''" "msg_thread_id demo_message = ''t1''"
  using Normalize_valid [OF demo_normalize] Normalize_fields [OF demo_normalize] by (simp_all add: demo_input_def)

end
