(* ===== verification/Store_Review.thy ===== *)
theory Store_Review
  imports Store_Demo
begin

text \<open>
  The review list: which rows \<^verbatim>\<open>ListReviewCandidates\<close> returns, in which order, and how a page
  continues after a cursor.
\<close>

section \<open>The rows\<close>

definition eligible :: "store \<Rightarrow> review_candidate_query \<Rightarrow> review_candidate_row \<Rightarrow> bool" where
  "eligible s q r \<longleftrightarrow> (\<exists>a l. (rq_accounts q = [] \<or> a \<in> set (rq_accounts q)) \<and>
     fmlookup (lifecycles s) a = Some l \<and> lc_state l = AccountStateActive \<and>
     message_at s a (msg_gmail_id (row_message r)) = Some (row_message r) \<and>
     fmlookup (decisions s) (msg_record_id (row_message r)) = Some (row_decision r) \<and>
     row_wanted q (row_message r) (row_decision r))"

lemma inv_decision_valid: "store_inv s \<Longrightarrow> fmlookup (decisions s) r = Some d \<Longrightarrow> decision_valid d"
  unfolding store_inv_def derived_inv_def by blast

lemma inv_content_valid: "store_inv s \<Longrightarrow> fmlookup (contents s) r = Some c \<Longrightarrow> content_valid c \<and> cc_record_id c = r"
  unfolding store_inv_def derived_inv_def by blast

lemma message_rows_eq:
  assumes "store_inv s" and "message_at s a g = Some m"
  shows "message_rows q s m = (case fmlookup (decisions s) (msg_record_id m) of None \<Rightarrow> []
    | Some d \<Rightarrow> if row_wanted q m d then [Inr \<lparr>row_message = m, row_decision = d\<rparr>] else [])"
  using message_at_inv(2) [OF assms] inv_decision_valid [OF assms(1)]
  by (auto simp: message_rows_def NewReviewCandidateRow_def row_valid_def row_wanted_def Let_def split: option.splits)

text \<open>The nested loops as enumerations of keys.\<close>

definition shown :: "review_candidate_query \<Rightarrow> store \<Rightarrow> account_id \<Rightarrow> bool" where
  "shown q s i \<longleftrightarrow> (rq_accounts q = [] \<or> i \<in> set (rq_accounts q)) \<and>
     (\<exists>l. fmlookup (lifecycles s) i = Some l \<and> lc_state l = AccountStateActive)"

definition gid_list :: "store \<Rightarrow> account_id \<Rightarrow> string list" where
  "gid_list s i = (case fmlookup (messages s) i of None \<Rightarrow> [] | Some ms \<Rightarrow> sorted_list_of_fset (fmdom ms))"

definition rows_at :: "review_candidate_query \<Rightarrow> store \<Rightarrow> account_id \<Rightarrow> string \<Rightarrow> review_candidate_row list" where
  "rows_at q s i g = (case message_at s i g of None \<Rightarrow> [] | Some m \<Rightarrow>
     (case fmlookup (decisions s) (msg_record_id m) of None \<Rightarrow> []
      | Some d \<Rightarrow> if row_wanted q m d then [\<lparr>row_message = m, row_decision = d\<rparr>] else []))"

definition row_list :: "review_candidate_query \<Rightarrow> store \<Rightarrow> review_candidate_row list" where
  "row_list q s = concat (map (\<lambda>i. if shown q s i then concat (map (rows_at q s i) (gid_list s i)) else [])
     (sorted_list_of_fset (fmdom (messages s))))"

lemma distinct_fset_list [simp]: "distinct (sorted_list_of_fset S)"
  by (simp add: sorted_list_of_fset.rep_eq)

lemma gid_list: "distinct (gid_list s i)" "g \<in> set (gid_list s i) \<longleftrightarrow> message_at s i g \<noteq> None"
  by (cases "fmlookup (messages s) i"; auto simp: gid_list_def message_at_def fmlookup_dom_iff)+

lemma rows_at_eq:
  assumes inv: "store_inv s"
  shows "(case message_at s i g of None \<Rightarrow> [] | Some m \<Rightarrow> message_rows q s m) = map Inr (rows_at q s i g)"
  using message_rows_eq [OF inv, of i g] by (auto simp: rows_at_def split: option.splits)

lemma account_rows_eq:
  assumes inv: "store_inv s"
  shows "account_rows q s i = map Inr (if shown q s i then concat (map (rows_at q s i) (gid_list s i)) else [])"
proof (cases "fmlookup (messages s) i")
  case None
  then show ?thesis by (auto simp: account_rows_def gid_list_def)
next
  case (Some ms)
  then have "(case fmlookup ms g of None \<Rightarrow> [] | Some m \<Rightarrow> message_rows q s m) = map Inr (rows_at q s i g)" for g
    using rows_at_eq [OF inv, where i = i and g = g and q = q] by (simp add: message_at_def)
  then have loop: "concat (map (\<lambda>g. case fmlookup ms g of None \<Rightarrow> [] | Some m \<Rightarrow> message_rows q s m) gs) =
      map Inr (concat (map (rows_at q s i) gs))" for gs
    by (induction gs) simp_all
  show ?thesis using Some
    by (auto simp: account_rows_def gid_list_def loop shown_def split: option.splits)
qed

lemma collect_rows_Inr: "collect_rows (map Inr rs) = Inr rs"
  by (induction rs) simp_all

lemma collected:
  assumes inv: "store_inv s"
  shows "collect_rows (concat (map (account_rows q s) (sorted_list_of_fset (fmdom (messages s))))) = Inr (row_list q s)"
proof -
  have "concat (map (account_rows q s) xs) =
      map Inr (concat (map (\<lambda>i. if shown q s i then concat (map (rows_at q s i) (gid_list s i)) else []) xs))" for xs
    by (induction xs) (simp_all add: account_rows_eq [OF inv])
  then show ?thesis by (simp add: row_list_def collect_rows_Inr)
qed

lemma rows_at_mem:
  assumes inv: "store_inv s"
  shows "r \<in> set (rows_at q s i g) \<longleftrightarrow> message_at s i g = Some (row_message r) \<and> msg_gmail_id (row_message r) = g \<and>
    fmlookup (decisions s) (msg_record_id (row_message r)) = Some (row_decision r) \<and>
    row_wanted q (row_message r) (row_decision r)"
  using message_at_inv(3) [OF inv, of i g] by (cases r) (auto simp: rows_at_def split: option.splits)

lemma row_list_mem:
  assumes inv: "store_inv s"
  shows "r \<in> set (row_list q s) \<longleftrightarrow> eligible s q r"
proof -
  have dom: "i \<in> set (sorted_list_of_fset (fmdom (messages s)))" if "message_at s i g = Some m" for i g m
    using that by (auto simp: message_at_def fmlookup_dom_iff split: option.splits bind_splits)
  have "r \<in> set (row_list q s) \<longleftrightarrow> (\<exists>i g. i \<in> set (sorted_list_of_fset (fmdom (messages s))) \<and> shown q s i \<and>
      g \<in> set (gid_list s i) \<and> r \<in> set (rows_at q s i g))"
    by (auto simp: row_list_def split: if_splits)
  then show ?thesis
    using dom by (auto simp: rows_at_mem [OF inv] gid_list(2) eligible_def shown_def)
qed

lemma distinct_concat_key:
  assumes "distinct as" and "\<And>a. a \<in> set as \<Longrightarrow> distinct (map k (f a))"
    and "\<And>a x. a \<in> set as \<Longrightarrow> x \<in> set (f a) \<Longrightarrow> p (k x) = a"
  shows "distinct (map k (concat (map f as)))"
  using assms
proof (induction as)
  case (Cons a as)
  have ne: "k x \<noteq> k y" if "x \<in> set (f a)" "b \<in> set as" "y \<in> set (f b)" for x y b
  proof
    assume "k x = k y"
    then have "a = b" using Cons.prems(3) [of a x] Cons.prems(3) [of b y] that by simp
    then show False using Cons.prems(1) that by simp
  qed
  have "distinct (map k (concat (map f as)))" using Cons by simp
  moreover have "distinct (map k (f a))" using Cons.prems(2) by simp
  moreover have "k ` set (f a) \<inter> k ` set (concat (map f as)) = {}" using ne by fastforce
  ultimately show ?case by simp
qed simp

lemma row_list_distinct:
  assumes inv: "store_inv s"
  shows "distinct (map row_key (row_list q s))"
  unfolding row_list_def
proof (rule distinct_concat_key [where p = "\<lambda>k. AccountID (fst k)"])
  fix i r
  show "distinct (map row_key (if shown q s i then concat (map (rows_at q s i) (gid_list s i)) else []))"
  proof (simp, rule impI, rule distinct_concat_key [where p = "\<lambda>k. snd (snd k)"])
    show "distinct (map row_key (rows_at q s i g))" for g by (auto simp: rows_at_def split: option.splits)
    show "snd (snd (row_key x)) = g" if "x \<in> set (rows_at q s i g)" for g x
      using that rows_at_mem [OF inv] by (simp add: row_key_def)
  qed (rule gid_list(1))
  show "AccountID (fst (row_key r)) = i"
    if "r \<in> set (if shown q s i then concat (map (rows_at q s i) (gid_list s i)) else [])"
    using that message_at_inv(4) [OF inv] by (auto simp: row_key_def rows_at_mem [OF inv] split: if_splits)
qed simp

section \<open>Order and pages\<close>

definition cursor_key :: "review_cursor_key \<Rightarrow> string \<times> string \<times> string" where
  "cursor_key k = (account_id_string (rk_account k), rk_thread k, rk_message k)"

lemma row_before_iff: "row_before k r \<longleftrightarrow> row_key r \<le> cursor_key k"
  by (auto simp: row_before_def row_key_def cursor_key_def less_eq_prod_def)

definition all_rows :: "review_candidate_query \<Rightarrow> store \<Rightarrow> review_candidate_row list" where
  "all_rows q s = sort_key row_key (row_list q s)"

lemma all_rows:
  assumes inv: "store_inv s"
  shows "sorted_wrt (<) (map row_key (all_rows q s))" "set (all_rows q s) = {r. eligible s q r}"
proof -
  have "distinct (map row_key (all_rows q s))"
    using row_list_distinct [OF inv, of q] by (simp add: all_rows_def distinct_map)
  then show "sorted_wrt (<) (map row_key (all_rows q s))"
    using sorted_sort_key [of row_key "row_list q s"] by (simp add: all_rows_def strict_sorted_iff)
  show "set (all_rows q s) = {r. eligible s q r}" using row_list_mem [OF inv] by (auto simp: all_rows_def)
qed

lemma ListReviewCandidates_eq:
  assumes inv: "store_inv s"
  shows "ListReviewCandidates None q s = Inr (take (nat (rq_limit q))
    (if rk_present (rq_after q) then filter (\<lambda>r. cursor_key (rq_after q) < row_key r) (all_rows q s) else all_rows q s))"
  unfolding ListReviewCandidates_def collected [OF inv]
  by (simp add: Let_def all_rows_def row_before_iff not_le)

end
