(* ===== verification/Store_Properties.thy ===== *)
theory Store_Properties
  imports Store_Review
begin

text \<open>
  The contract of the store, operation by operation and along histories.
\<close>

section \<open>Discovery\<close>

lemma CommitCurrentDiscovery_fresh:
  assumes c: "CommitCurrentDiscovery ctx c s = (r, s')" and free: "fmlookup (attempts s) (dc_account c) = None"
  shows "r \<noteq> None \<and> (\<exists>T. s' = s\<lparr>attempts := T\<rparr>) \<or>
    (\<exists>p. r = None \<and> PrepareCurrentDiscoveryCommit c = Inr p \<and>
      (currentDiscoveryDurable s p \<and> s' = s \<or>
       can_promote p s \<and> staged_conflict s (pd_account p) (pd_messages p) = None \<and> s' = commit_prepared p s))"
proof -
  have same: "\<exists>T. s = s\<lparr>attempts := T\<rparr>" by (rule exI [of _ "attempts s"]) simp
  show ?thesis
  proof (cases "ctx = None \<and> (\<exists>p. PrepareCurrentDiscoveryCommit c = Inr p)")
    case False
    then show ?thesis using c same by (auto simp: CommitCurrentDiscovery_def split: option.splits sum.splits)
  next
    case True
    then obtain p where p: "ctx = None" "PrepareCurrentDiscoveryCommit c = Inr p" by blast
    note pp = Prepare_Inr [OF p(2)]
    have free': "fmlookup (attempts s) (pd_account p) = None" using free pp by simp
    consider "currentDiscoveryDurable s p" | "\<not> currentDiscoveryDurable s p" "can_promote p s"
      | "\<not> currentDiscoveryDurable s p" "\<not> can_promote p s" by blast
    then show ?thesis
    proof cases
      case 1
      then show ?thesis using c p by (auto simp: CommitCurrentDiscovery_def)
    next
      case 2
      then have "finalizeCurrentDiscovery p (s\<lparr>attempts := fmupd (pd_account p) (sealed_attempt p) (attempts s)\<rparr>) = (r, s')"
        using c p free' by (auto simp: CommitCurrentDiscovery_def Let_def sealed_attempt_def can_promote_def)
      from finalize_fresh [OF this 2(2)] show ?thesis using p 2 by auto
    next
      case 3
      then have "r \<noteq> None \<and> s' = s"
        using c p free' pp(1) by (auto simp: CommitCurrentDiscovery_def can_promote_def Let_def split: option.splits if_splits)
      then show ?thesis using same by auto
    qed
  qed
qed

lemma durable_iff:
  "currentDiscoveryDurable s p \<longleftrightarrow> fmlookup (attempts s) (pd_account p) = None \<and>
    fmlookup (cursors s) (pd_account p) = Some (pd_next p) \<and>
    (\<forall>m \<in> set (pd_messages p). \<exists>e. message_at s (pd_account p) (msg_gmail_id m) = Some e \<and> message_equal e m)"
  by (auto simp: currentDiscoveryDurable_def list_all_iff split: option.splits)

lemma commit_prepared_durable:
  assumes "prepared_ok p"
  shows "currentDiscoveryDurable (commit_prepared p s) p"
proof -
  have "sorted_wrt (<) (gids (pd_messages p))" using assms by (simp add: prepared_ok_def)
  then show ?thesis using promoted_stored by (auto simp: durable_iff message_at_eq)
qed

lemma commit_prepared_others:
  assumes "prepared_ok p" and "b \<noteq> pd_account p \<or> g \<notin> msg_gmail_id ` set (pd_messages p)"
  shows "message_at (commit_prepared p s) b g = message_at s b g"
  using assms promoted_other [of "pd_messages p"] by (simp add: message_at_eq prepared_ok_def)

text \<open>The demonstration batch.\<close>

definition demo_commit :: current_discovery_commit where
  "demo_commit = \<lparr>dc_account = demo_id, dc_expected = demo_cursor, dc_next = demo_cursor_next,
     dc_messages = [demo_message]\<rparr>"

definition demo_prepared :: prepared_current_discovery where
  "demo_prepared = projr (PrepareCurrentDiscoveryCommit demo_commit)"

lemma sum_sizes_single: "message_valid m \<Longrightarrow> \<exists>n. sum_sizes 0 [m] = Some n"
proof -
  assume m: "message_valid m"
  have "unat (0 + ucast (encodedMessageSize m) :: u64) = unat (0 :: u64) + length (encoded_message m)"
    by (rule unat_add_size [OF _ m]) simp
  then have "unat (ucast (encodedMessageSize m) :: u64) \<le> 66198"
    using encodedMessageSize_exact(2) [OF m] by simp
  then have "\<not> (ucast (encodedMessageSize m) :: u64) > word_of_nat MaximumCurrentDiscoveryEncodedBytes"
    by (simp add: word_less_nat_alt MaximumCurrentDiscoveryEncodedBytes_def)
  then show ?thesis by simp
qed

lemma demo_prepare: "PrepareCurrentDiscoveryCommit demo_commit = Inr demo_prepared"
proof -
  obtain n where "sum_sizes 0 [demo_message] = Some n" using sum_sizes_single demo_message_valid(1) by blast
  then have "\<exists>p. PrepareCurrentDiscoveryCommit demo_commit = Inr p"
    using demo_message_valid
    by (simp add: PrepareCurrentDiscoveryCommit_def demo_commit_def history_id_compare_def demo_cursor_def [symmetric]
        demo_cursor_next_def [symmetric] MaximumCurrentDiscoveryMessages_def del: sum_sizes.simps)
      (simp add: demo_cursor_def demo_cursor_next_def)
  then show ?thesis by (auto simp: demo_prepared_def)
qed

lemma demo_can_promote: "can_promote demo_prepared demo_active"
  using Prepare_Inr [OF demo_prepare]
  by (simp add: can_promote_def demo_commit_def demo_store_defs)

lemma demo_no_conflict: "staged_conflict demo_active a ms = None"
  by (induction ms) (simp_all add: demo_store_defs message_at_def)

lemma demo_discovery: "CommitCurrentDiscovery None demo_commit demo_active = (None, commit_prepared demo_prepared demo_active)"
proof -
  have acc: "pd_account demo_prepared = demo_id" "dc_account demo_commit = demo_id"
    using Prepare_Inr [OF demo_prepare] by (simp_all add: demo_commit_def)
  have free: "fmlookup (attempts demo_active) demo_id = None" by (simp add: demo_store_defs)
  have nd: "\<not> currentDiscoveryDurable demo_active demo_prepared"
    using Prepare_Inr(4) [OF demo_prepare] acc
    by (simp add: durable_iff demo_commit_def demo_store_defs demo_cursor_def demo_cursor_next_def)
  let ?s = "demo_active\<lparr>attempts := fmupd demo_id (sealed_attempt demo_prepared) (attempts demo_active)\<rparr>"
  have "CommitCurrentDiscovery None demo_commit demo_active = finalizeCurrentDiscovery demo_prepared ?s"
    using nd demo_can_promote acc free
    by (auto simp: CommitCurrentDiscovery_def demo_prepare can_promote_def Let_def sealed_attempt_def)
  moreover obtain r s' where f: "finalizeCurrentDiscovery demo_prepared ?s = (r, s')" by fastforce
  ultimately show ?thesis
    using finalize_fresh [OF _ demo_can_promote, of r s'] demo_no_conflict acc by auto
qed

text \<open>
  C1 (discovery_commit_atomic): A discovery commit is atomic. When no attempt is pending for the account, success
  means that the cursor is the commit's next cursor, that every message of the commit is stored and
  that no other message changed; an error leaves cursors, messages and records as they were.
\<close>

theorem discovery_commit_atomic:
  assumes "fmlookup (attempts s) (dc_account c) = None" and "CommitCurrentDiscovery ctx c s = (r, s')"
  shows "(if r = None then
      fmlookup (cursors s') (dc_account c) = Some (dc_next c) \<and>
      (\<forall>m. m \<in> set (dc_messages c) \<longrightarrow>
        (\<exists>e. message_at s' (dc_account c) (msg_gmail_id m) = Some e \<and> message_equal e m)) \<and>
      (\<forall>b g. b \<noteq> dc_account c \<or> g \<notin> msg_gmail_id ` set (dc_messages c) \<longrightarrow> message_at s' b g = message_at s b g)
    else cursors s' = cursors s \<and> messages s' = messages s \<and> records s' = records s)"
proof (cases "r = None")
  case True
  then obtain p where p: "PrepareCurrentDiscoveryCommit c = Inr p"
    and alt: "currentDiscoveryDurable s p \<and> s' = s \<or> s' = commit_prepared p s"
    using CommitCurrentDiscovery_fresh [OF assms(2,1)] by blast
  note pp = Prepare_Inr [OF p]
  have "currentDiscoveryDurable s' p" using alt commit_prepared_durable [OF pp(1)] by auto
  moreover have "message_at s' b g = message_at s b g" if "b \<noteq> dc_account c \<or> g \<notin> msg_gmail_id ` set (dc_messages c)" for b g
    using alt commit_prepared_others [OF pp(1), of b g s] that pp(2,5) by auto
  moreover have "msg_gmail_id m' = msg_gmail_id m" if "message_equal m' m" for m' m :: message
    using that by (simp add: message_equal_def)
  ultimately show ?thesis
    using True pp unfolding durable_iff by (simp, metis message_equal_trans)
next
  case False
  then show ?thesis using CommitCurrentDiscovery_fresh [OF assms(2,1)] by auto
qed

theorem discovery_commit_atomic_witness:
  "fmlookup (cursors (snd (CommitCurrentDiscovery None demo_commit demo_active))) demo_id = Some demo_cursor_next"
  using discovery_commit_atomic [of demo_active demo_commit None None "commit_prepared demo_prepared demo_active"]
    demo_discovery by (simp add: demo_commit_def demo_store_defs)

text \<open>
  Replaying a discovery commit that succeeded reports success and changes nothing.
\<close>

theorem discovery_replay:
  assumes "fmlookup (attempts s) (dc_account c) = None" and "CommitCurrentDiscovery ctx c s = (None, s')"
  shows "CommitCurrentDiscovery None c s' = (None, s')"
proof -
  obtain p where p: "PrepareCurrentDiscoveryCommit c = Inr p" and
    alt: "currentDiscoveryDurable s p \<and> s' = s \<or> s' = commit_prepared p s"
    using CommitCurrentDiscovery_fresh [OF assms(2,1)] by auto
  then have "currentDiscoveryDurable s' p" using commit_prepared_durable Prepare_Inr(1) [OF p] by auto
  then show ?thesis using p by (simp add: CommitCurrentDiscovery_def)
qed

theorem discovery_replay_witness:
  "CommitCurrentDiscovery None demo_commit (commit_prepared demo_prepared demo_active)
    = (None, commit_prepared demo_prepared demo_active)"
  using discovery_replay [OF _ demo_discovery] by (simp add: demo_store_defs)

text \<open>
  C5 (reconcile_finishes): Reconciliation finishes an interrupted discovery: on a consistent store with a sealed attempt
  of an active account it fails only on a conflict with a stored message, and otherwise every staged message is stored, the cursor is the one the attempt was
  prepared for, and the attempt is gone.
\<close>

theorem reconcile_finishes:
  assumes "store_inv s" and "fmlookup (attempts s) a = Some t" and "account_id_valid a"
    and "fmlookup (lifecycles s) a = Some l" and "lc_state l = AccountStateActive"
    and "ReconcileCurrentDiscovery None a s = (r, s')"
  shows "r = staged_conflict s a (at_staged t) \<and> (if r = None then
    fmlookup (attempts s') a = None \<and> fmlookup (cursors s') a = Some (pd_next (at_prepared t)) \<and>
    (\<forall>m. m \<in> set (at_staged t) \<longrightarrow> message_at s' a (msg_gmail_id m) = Some m) else s' = s)"
proof -
  note inv = assms(1) and t = attempt_inv [OF assms(1,2)]
  have again: "PrepareCurrentDiscoveryCommit \<lparr>dc_account = pd_account (at_prepared t), dc_expected = pd_expected (at_prepared t),
      dc_next = pd_next (at_prepared t), dc_messages = at_staged t\<rparr> = Inr (at_prepared t)"
    using Prepare_again [OF t(1)] t(4) by simp
  have eq: "ReconcileCurrentDiscovery None a s = (case staged_conflict s a (at_staged t) of
      Some e \<Rightarrow> (Some e, s) | None \<Rightarrow> (None, commit_prepared (at_prepared t) s))"
    using again t assms(2-5)
    by (auto simp: ReconcileCurrentDiscovery_def Let_def finalizeCurrentDiscovery_def commit_prepared_def
        promoted_def [symmetric] split: option.splits)
  have "sorted_wrt (<) (gids (pd_messages (at_prepared t)))" using t(1) by (simp add: prepared_ok_def)
  then show ?thesis using assms(6) t promoted_stored unfolding eq by (auto simp: message_at_eq split: option.splits)
qed

definition demo_sealed :: store where
  "demo_sealed = demo_active\<lparr>attempts := fmupd demo_id (sealed_attempt demo_prepared) fmempty\<rparr>"

lemma demo_sealed_inv: "store_inv demo_sealed"
proof -
  have p: "prepared_ok demo_prepared" "pd_account demo_prepared = demo_id" "pd_expected demo_prepared = demo_cursor"
    using Prepare_Inr [OF demo_prepare] by (simp_all add: demo_commit_def)
  have "attempts_inv (attempts demo_sealed) (cursors demo_active) (lifecycles demo_active)"
    using p by (simp add: attempts_inv_def demo_sealed_def sealed_attempt_def demo_store_defs live_state_def)
  then show ?thesis using demo_active_inv by (simp add: store_inv_def demo_sealed_def)
qed

theorem reconcile_finishes_witness:
  "\<exists>s'. ReconcileCurrentDiscovery None demo_id demo_sealed = (None, s') \<and> fmlookup (attempts s') demo_id = None"
proof -
  obtain r s' where rec: "ReconcileCurrentDiscovery None demo_id demo_sealed = (r, s')" by fastforce
  have "fmlookup (attempts demo_sealed) demo_id = Some (sealed_attempt demo_prepared)"
    "\<exists>l. fmlookup (lifecycles demo_sealed) demo_id = Some l \<and> lc_state l = AccountStateActive"
    by (simp_all add: demo_sealed_def demo_store_defs)
  then obtain l where at: "fmlookup (attempts demo_sealed) demo_id = Some (sealed_attempt demo_prepared)"
    and l: "fmlookup (lifecycles demo_sealed) demo_id = Some l" "lc_state l = AccountStateActive" by blast
  have no: "staged_conflict demo_sealed demo_id ms = None" for ms
    by (induction ms) (simp_all add: demo_sealed_def demo_store_defs message_at_def)
  show ?thesis
    using reconcile_finishes [OF demo_sealed_inv at demo_id_valid(1) l rec] rec by (simp add: no)
qed

lemma no_recovery_conflict:
  assumes inv: "store_inv s" and b: "belongs a ms"
  shows "staged_conflict s a ms \<noteq> Some (StorageErr ErrCurrentDiscoveryRecoveryRequired)"
proof -
  have "msg_record_id e = msg_record_id m"
    if "message_at s a (msg_gmail_id m) = Some e" "message_valid m" "msg_account m = account_id_string a" for m e
    using message_at_inv [OF inv that(1)] that message_valid_fields(4) by simp
  then show ?thesis using b unfolding belongs_def
    by (induction ms) (auto split: option.splits if_splits)
qed

lemma finalize_no_recovery:
  assumes inv: "store_inv s" and t: "fmlookup (attempts s) a = Some t"
  shows "fst (finalizeCurrentDiscovery (at_prepared t) s) \<noteq> Some (StorageErr ErrCurrentDiscoveryRecoveryRequired)"
proof -
  note ti = attempt_inv [OF inv t]
  have "belongs a (pd_messages (at_prepared t))" using ti(1,2) by (simp add: prepared_ok_def)
  from no_recovery_conflict [OF inv this] show ?thesis
    using ti t by (auto simp: finalizeCurrentDiscovery_def Let_def split: option.splits)
qed

lemma GetDiscoveredMessage_stored:
  assumes inv: "store_inv s" and m: "message_at s a g = Some m" and g: "ValidateGmailMessageID g = None"
  shows "\<exists>d. GetDiscoveredMessage None a g s = Inr d \<and> message_equal m d"
proof -
  note mi = message_at_inv [OF inv m]
  have a: "account_id_valid a" using inv mi(1) unfolding store_inv_def accounts_inv_def by blast
  obtain d where d: "DecodeCanonical (msg_account m) (msg_gmail_id m) (msg_thread_id m) (md_version (msg_metadata m))
      (msg_json m) (msg_hash m) = Inr d" "msg_record_id d = msg_record_id m" "message_equal m d"
    using mi(2) by (auto simp: message_valid_def split: sum.splits)
  have acc: "\<not> fmlookup (accounts s) a = None" "account_id_string a = msg_account m" using mi by auto
  have "GetDiscoveredMessage None a g s = Inr d"
    unfolding GetDiscoveredMessage_def using acc d m g a by simp
  then show ?thesis using d(3) by blast
qed

lemma account_valid_inv: "store_inv s \<Longrightarrow> fmlookup (accounts s) a \<noteq> None \<Longrightarrow> account_id_valid a"
  unfolding store_inv_def accounts_inv_def by blast

lemma GetGateDecision_stored:
  assumes inv: "store_inv s" and m: "message_at s a g = Some m" and d: "fmlookup (decisions s) (msg_record_id m) = Some d"
  shows "GetGateDecision None a g s = Inr \<lparr>gs_decision = d, gs_current = (gd_source_hash d = msg_hash m)\<rparr>"
proof -
  note mi = message_at_inv [OF inv m]
  have "redecode_decision d = Inr d" using inv_decision_valid [OF inv d] by (simp add: decision_valid_iff)
  moreover have "ValidateGmailMessageID g = None" using message_valid_gmail_id [OF mi(2)] mi(3) by simp
  ultimately show ?thesis
    using m d mi account_valid_inv [OF inv mi(1)] by (simp add: GetGateDecision_def decision_equal_def)
qed

text \<open>
  C13 (no_recovery_required): In a reachable store nothing stored fails its integrity check. Reading a message, a
  decision or an excerpt never reports that recovery is required, the review list never reports a
  malformed row, and reconciliation never finds an attempt it cannot account for.
\<close>

theorem no_recovery_required:
  assumes "reachable s"
  shows "GetDiscoveredMessage None a g s \<noteq> Inl (StorageErr ErrCurrentDiscoveryRecoveryRequired) \<and>
    GetGateDecision None a g s \<noteq> Inl (StorageErr ErrGateDecisionRecoveryRequired) \<and>
    GetCandidateContent None a g n s \<noteq> Inl (StorageErr ErrCandidateContentRecoveryRequired) \<and>
    fst (ReconcileCurrentDiscovery None a s) \<noteq> Some (StorageErr ErrCurrentDiscoveryRecoveryRequired) \<and>
    GetCurrentGateInspection None a g s \<noteq> Inl (StorageErr ErrPersistenceInspect) \<and>
    ListReviewCandidates None q s \<noteq> Inl (StorageErr ErrPersistenceInspect)"
proof (intro conjI)
  note inv = reachable_inv [OF assms]
  have gid: "ValidateGmailMessageID g = None" if "message_at s a g = Some m" for m
    using message_valid_gmail_id message_at_inv(2,3) [OF inv that] by metis
  show "GetDiscoveredMessage None a g s \<noteq> Inl (StorageErr ErrCurrentDiscoveryRecoveryRequired)"
  proof (cases "message_at s a g")
    case (Some m)
    then show ?thesis using GetDiscoveredMessage_stored [OF inv Some gid [OF Some]] by auto
  qed (simp add: GetDiscoveredMessage_def)
  show "GetGateDecision None a g s \<noteq> Inl (StorageErr ErrGateDecisionRecoveryRequired)"
  proof (cases "message_at s a g")
    case (Some m)
    then show ?thesis using GetGateDecision_stored [OF inv Some]
      by (cases "fmlookup (decisions s) (msg_record_id m)") (auto simp: GetGateDecision_def)
  qed (simp add: GetGateDecision_def)
  have content: "redecode_content c = Inr c" if "fmlookup (contents s) r = Some c" for r c
    using inv_content_valid [OF inv that] content_valid_new redecode_new by blast
  show "GetCandidateContent None a g n s \<noteq> Inl (StorageErr ErrCandidateContentRecoveryRequired)"
    using content by (auto simp: GetCandidateContent_def content_equal_def split: option.splits)
  show "fst (ReconcileCurrentDiscovery None a s) \<noteq> Some (StorageErr ErrCurrentDiscoveryRecoveryRequired)"
  proof (cases "fmlookup (attempts s) a")
    case (Some t)
    note ti = attempt_inv [OF inv Some]
    have "PrepareCurrentDiscoveryCommit \<lparr>dc_account = pd_account (at_prepared t), dc_expected = pd_expected (at_prepared t),
        dc_next = pd_next (at_prepared t), dc_messages = at_staged t\<rparr> = Inr (at_prepared t)"
      using Prepare_again [OF ti(1)] ti(4) by simp
    then show ?thesis
      using Some ti finalize_no_recovery [OF inv Some]
      by (auto simp: ReconcileCurrentDiscovery_def Let_def split: option.splits)
  qed (simp add: ReconcileCurrentDiscovery_def)
  show "GetCurrentGateInspection None a g s \<noteq> Inl (StorageErr ErrPersistenceInspect)"
    using inv_decision_valid [OF inv] message_at_inv(2) [OF inv]
    by (auto simp: GetCurrentGateInspection_def NewCurrentGateInspection_def inspection_valid_def Let_def
        split: option.splits)
  show "ListReviewCandidates None q s \<noteq> Inl (StorageErr ErrPersistenceInspect)"
    by (simp add: ListReviewCandidates_eq [OF inv])
qed

theorem no_recovery_required_witness:
  "reachable demo_active \<and> GetGateDecision None demo_id ''m1'' demo_active \<noteq> Inl (StorageErr ErrGateDecisionRecoveryRequired)"
  using no_recovery_required [OF demo_reachable] demo_reachable by blast

section \<open>Integrity, lifecycle and identity along histories\<close>

text \<open>
  C2 (store_integrity): Every history of store operations, whatever the calls, arguments and cancellations,
  leaves a store that satisfies the integrity invariant: accounts, subjects and lifecycles match, every
  stored value passes its own validation, live accounts have a cursor and a credential, and every pending
  attempt is sealed for the current cursor.
\<close>

theorem store_integrity: "steps New h s \<Longrightarrow> store_inv s"
  by (rule steps_inv [OF _ New_inv])

theorem store_integrity_witness: "store_inv demo_active"
  by (rule store_integrity [OF demo_steps])

text \<open>
  C6 (lifecycle_refinement): The store refines the lifecycle state machine: one operation leaves the lifecycle record of
  an account as it is, or moves it along one edge of the machine and increments its version by one.
\<close>

theorem lifecycle_refinement:
  assumes "steps New h s" and "run_op ctx op s = (r, s')" and "fmlookup (lifecycles s) i = Some l"
  shows "\<exists>l'. fmlookup (lifecycles s') i = Some l' \<and>
    (l' = l \<or> lifecycle_edge (lc_state l, lc_revocation l) (lc_state l', lc_revocation l') \<and>
      lc_version l' = lc_version l + 1)"
  using run_op_lifecycle [OF steps_inv [OF assms(1) New_inv] assms(2,3)] by (simp add: lifecycle_next_to_def)

theorem lifecycle_refinement_witness:
  "\<exists>l'. fmlookup (lifecycles demo_active) demo_id = Some l'"
proof -
  have h: "steps New [(None, OpEnsureAccount demo_seed),
     (None, OpCommitSynchronization \<lparr>sync_account = demo_id, sync_expected = None, sync_next = demo_cursor\<rparr>),
     (None, OpCommitProviderCredential \<lparr>pcc_account = demo_id, pcc_expected = None, pcc_next = demo_envelope\<rparr>)] demo_enrolled"
    by (intro steps_Cons [OF demo_ensure] steps_Cons [OF demo_sync] steps_Cons [OF demo_enrol] steps_Nil)
  have l: "fmlookup (lifecycles demo_enrolled) demo_id = Some \<lparr>lc_account = demo_id, lc_state = AccountStatePending,
      lc_version = 1, lc_reason = None, lc_revocation = RevocationStatusNone\<rparr>"
    by (simp add: demo_store_defs)
  show ?thesis using lifecycle_refinement [OF h demo_activation l] by blast
qed

text \<open>
  C11 (revoked_absorbing): Revocation is final. Along every history a revoked account stays revoked, its revocation
  status never goes back, and its version never decreases.
\<close>

theorem revoked_absorbing:
  assumes "steps New h s" and "fmlookup (lifecycles s) i = Some l" and "lc_state l = AccountStateRevoked"
    and "steps s h' t"
  shows "\<exists>l'. fmlookup (lifecycles t) i = Some l' \<and> lc_state l' = AccountStateRevoked \<and>
    revocation_rank (lc_state l, lc_revocation l) \<le> revocation_rank (lc_state l', lc_revocation l') \<and>
    lc_version l \<le> lc_version l'"
proof -
  note inv = steps_inv [OF assms(1) New_inv]
  obtain l' where l': "fmlookup (lifecycles t) i = Some l'"
    "revocation_rank (status_of l) \<le> revocation_rank (status_of l')" "lc_version l \<le> lc_version l'"
    using steps_lifecycle [OF assms(4) inv assms(2)] by blast
  have "lifecycle_ok i l" using inv assms(2) unfolding store_inv_def lifecycles_inv_def by blast
  then have "1 \<le> revocation_rank (status_of l)"
    using assms(3) by (cases "lc_revocation l") (auto simp: lifecycle_ok_def validLifecycleShape_def revoked_status_def split: if_splits)
  then have "lc_state l' = AccountStateRevoked" using l'(2) by (cases "lc_state l' = AccountStateRevoked") auto
  then show ?thesis using l' by blast
qed

definition demo_revoke :: lifecycle_commit where
  "demo_revoke = \<lparr>cm_account = demo_id, cm_expected_state = AccountStatePending, cm_expected_version = 1,
     cm_expected_revocation = RevocationStatusNone, cm_next_state = AccountStateRevoked, cm_reason = None,
     cm_revocation = RevocationStatusPending\<rparr>"

definition demo_revoked :: store where
  "demo_revoked = demo_pending\<lparr>lifecycles := fmupd demo_id \<lparr>lc_account = demo_id, lc_state = AccountStateRevoked,
     lc_version = 2, lc_reason = None, lc_revocation = RevocationStatusPending\<rparr> (lifecycles demo_pending)\<rparr>"

lemma demo_revocation: "run_op None (OpCommitAccountLifecycle demo_revoke) demo_pending = (None, demo_revoked)"
proof -
  have v: "ValidateLifecycleCommit demo_revoke = None"
    by (simp add: ValidateLifecycleCommit_None demo_revoke_def validExpectedLifecycleShape_def validLifecycleShape_def
        validLifecycleTransition_def revoked_status_def MaxInt64_def)
  show ?thesis
    by (simp add: CommitAccountLifecycle_def v)
      (simp add: demo_revoke_def demo_revoked_def demo_pending_def New_def LifecycleMatchesCommit_iff Let_def
        ParseLifecycleVersion_def int64_add_def)
qed

lemma demo_revoked_steps: "steps New [(None, OpEnsureAccount demo_seed), (None, OpCommitAccountLifecycle demo_revoke)] demo_revoked"
  by (intro steps_Cons [OF demo_ensure] steps_Cons [OF demo_revocation] steps_Nil)

lemma demo_revoked_lookup: "fmlookup (lifecycles demo_revoked) demo_id = Some \<lparr>lc_account = demo_id,
    lc_state = AccountStateRevoked, lc_version = 2, lc_reason = None, lc_revocation = RevocationStatusPending\<rparr>"
  by (simp add: demo_revoked_def)

definition demo_claim :: lifecycle_commit where
  "demo_claim = \<lparr>cm_account = demo_id, cm_expected_state = AccountStateRevoked, cm_expected_version = 2,
     cm_expected_revocation = RevocationStatusPending, cm_next_state = AccountStateRevoked, cm_reason = None,
     cm_revocation = RevocationStatusAttempting\<rparr>"

definition demo_claimed :: store where
  "demo_claimed = snd (CommitAccountLifecycle None demo_claim demo_revoked)"

lemma demo_claiming: "CommitAccountLifecycle None demo_claim demo_revoked = (None, demo_claimed)"
proof -
  have v: "ValidateLifecycleCommit demo_claim = None"
    by (simp add: ValidateLifecycleCommit_None demo_claim_def validExpectedLifecycleShape_def validLifecycleShape_def
        validLifecycleTransition_def revoked_status_def MaxInt64_def)
  have "fst (CommitAccountLifecycle None demo_claim demo_revoked) = None"
    by (simp add: CommitAccountLifecycle_def v)
      (simp add: demo_claim_def demo_revoked_lookup LifecycleMatchesCommit_iff Let_def)
  then show ?thesis by (simp add: demo_claimed_def prod_eq_iff)
qed

theorem revoked_absorbing_witness:
  "\<exists>l'. fmlookup (lifecycles demo_claimed) demo_id = Some l' \<and> lc_state l' = AccountStateRevoked"
  using revoked_absorbing [OF demo_revoked_steps demo_revoked_lookup _ steps_single [of None "OpCommitAccountLifecycle demo_claim"]]
    demo_claiming by auto

text \<open>
  C3 (one_revocation_claim): At most one caller ever wins the claim to contact the provider about a revoked account: after a
  successful claim, every claim in every later state fails.
\<close>

theorem one_revocation_claim:
  assumes "steps New h s" and "LifecycleCommitIsRevocationClaim c"
    and "CommitAccountLifecycle ctx c s = (None, s')" and "steps s' h' t"
    and "LifecycleCommitIsRevocationClaim c'" and "cm_account c' = cm_account c"
  shows "fst (CommitAccountLifecycle ctx' c' t) \<noteq> None"
proof -
  have "store_inv s'" using run_op_inv [OF steps_inv [OF assms(1) New_inv], of ctx "OpCommitAccountLifecycle c" None s'] assms(3) by simp
  moreover obtain l where l: "fmlookup (lifecycles s') (cm_account c) = Some l"
    "status_of l = (AccountStateRevoked, RevocationStatusAttempting)"
    using claim_success [OF assms(2,3)] by blast
  ultimately obtain l' where l': "fmlookup (lifecycles t) (cm_account c') = Some l'"
    "revocation_rank (status_of l) \<le> revocation_rank (status_of l')"
    using steps_lifecycle [OF assms(4)] assms(6) by metis
  have "revocation_rank (status_of l) = 2" unfolding l(2) by simp
  then show ?thesis using claim_rank [OF assms(5) l'(1)] l'(2) by metis
qed

theorem one_revocation_claim_witness: "fst (CommitAccountLifecycle None demo_claim demo_claimed) \<noteq> None"
  using one_revocation_claim [OF demo_revoked_steps _ demo_claiming steps_Nil, of demo_claim None]
  by (simp add: LifecycleCommitIsRevocationClaim_def demo_claim_def)

text \<open>
  C14 (identity_stable): Identities never change. Along every history an account keeps its subject and a subject its
  account, a cursor only moves forward, and a stored message keeps its record identifier and thread.
\<close>

theorem identity_stable:
  assumes "steps New h s" and "steps s h' t"
  shows "(\<forall>i a. fmlookup (accounts s) i = Some a \<longrightarrow> fmlookup (accounts t) i = Some a) \<and>
    (\<forall>p i. fmlookup (bySubject s) p = Some i \<longrightarrow> fmlookup (bySubject t) p = Some i) \<and>
    (\<forall>i x. fmlookup (cursors s) i = Some x \<longrightarrow> (\<exists>y. fmlookup (cursors t) i = Some y \<and> hid_value x \<le> hid_value y)) \<and>
    (\<forall>i g m. message_at s i g = Some m \<longrightarrow> (\<exists>m'. message_at t i g = Some m' \<and>
      msg_record_id m' = msg_record_id m \<and> msg_thread_id m' = msg_thread_id m))"
  using steps_le [OF assms(2) steps_inv [OF assms(1) New_inv]]
  by (auto simp: store_le_def cursor_le_def accounts_le_def messages_le_def)

theorem identity_stable_witness:
  "\<exists>y. fmlookup (cursors (snd (CommitCurrentDiscovery None demo_commit demo_active))) demo_id = Some y \<and>
    hid_value demo_cursor \<le> hid_value y"
proof -
  have "steps demo_active [(None, OpCommitCurrentDiscovery demo_commit)] (snd (CommitCurrentDiscovery None demo_commit demo_active))"
    by (rule steps_single [of _ _ _ None]) (simp add: demo_discovery)
  from identity_stable [OF demo_steps this] show ?thesis by (simp add: demo_store_defs)
qed

text \<open>
  Enrolment is idempotent. Once a subject has an account, every later enrolment of that
  subject, whatever identifier it proposes, returns the same account or reports a conflict because the
  proposed identifier belongs to someone else; it never changes the store.
\<close>

theorem ensure_account_idempotent:
  assumes "steps New h s" and "EnsureAccount ctx seed s = (Inr a, s')" and "steps s' h' t"
    and "seed_subject seed' = seed_subject seed" and "ValidateAccountSeed seed' = None"
  shows "EnsureAccount None seed' t = (Inr a, t) \<or>
    EnsureAccount None seed' t = (Inl (StorageErr ErrAccountConflict), t) \<and> seed_id seed' \<noteq> acct_id a"
proof -
  let ?p = "seed_subject seed"
  note inv = steps_inv [OF assms(1) New_inv]
  have inv': "store_inv s'"
    using run_op_inv [OF inv, of ctx "OpEnsureAccount seed" None s'] assms(2) by simp
  have sub: "fmlookup (bySubject s') ?p = Some (acct_id a) \<and> fmlookup (accounts s') (acct_id a) = Some a"
  proof (cases "fmlookup (bySubject s) ?p")
    case None
    then show ?thesis using assms(2) by (auto simp: EnsureAccount_def Let_def split: option.splits if_splits)
  next
    case (Some i)
    then obtain b where b: "fmlookup (accounts s) i = Some b" "acct_subject b = ?p" "acct_id b = i"
      using inv unfolding store_inv_def accounts_inv_def by blast
    then show ?thesis using assms(2) Some by (auto simp: EnsureAccount_def split: option.splits if_splits)
  qed
  have "accounts_le s' t" using steps_le [OF assms(3) inv'] by (simp add: store_le_def)
  then have t: "fmlookup (bySubject t) ?p = Some (acct_id a)" "fmlookup (accounts t) (acct_id a) = Some a"
    using sub by (auto simp: accounts_le_def)
  have subj: "acct_subject a = ?p"
    using t steps_inv [OF assms(3) inv'] unfolding store_inv_def accounts_inv_def by (metis option.inject)
  show ?thesis using t subj assms(4,5) by (auto simp: EnsureAccount_def split: option.splits)
qed

theorem ensure_account_idempotent_witness:
  "EnsureAccount None demo_seed demo_active = (Inr \<lparr>acct_id = demo_id, acct_subject = demo_subject\<rparr>, demo_active)"
proof -
  have e: "EnsureAccount None demo_seed New = (Inr \<lparr>acct_id = demo_id, acct_subject = demo_subject\<rparr>, demo_pending)"
    by (simp add: EnsureAccount_def ValidateAccountSeed_def demo_seed_def demo_store_defs ParseLifecycleVersion_def Let_def)
  have "steps demo_pending [
     (None, OpCommitSynchronization \<lparr>sync_account = demo_id, sync_expected = None, sync_next = demo_cursor\<rparr>),
     (None, OpCommitProviderCredential \<lparr>pcc_account = demo_id, pcc_expected = None, pcc_next = demo_envelope\<rparr>),
     (None, OpCommitAccountLifecycle demo_activate)] demo_active"
    by (intro steps_Cons [OF demo_sync] steps_Cons [OF demo_enrol] steps_Cons [OF demo_activation] steps_Nil)
  from ensure_account_idempotent [OF steps_Nil e this, of demo_seed] show ?thesis
    by (simp add: ValidateAccountSeed_def demo_seed_def)
qed

section \<open>Failing operations\<close>

text \<open>What stands against a message of a batch: its record belongs to another message, or it is stored under another thread.\<close>

definition stands_against :: "store \<Rightarrow> account_id \<Rightarrow> message \<Rightarrow> go_error \<Rightarrow> bool" where
  "stands_against s a m e \<longleftrightarrow>
     e = StorageErr ErrMessageIdentityCollision \<and>
       (\<exists>k. fmlookup (records s) (msg_record_id m) = Some k \<and> k \<noteq> \<lparr>nk_account = a, nk_gmail_id = msg_gmail_id m\<rparr>) \<or>
     e = StorageErr ErrCurrentDiscoveryConflict \<and>
       (\<exists>m'. message_at s a (msg_gmail_id m) = Some m' \<and> msg_thread_id m' \<noteq> msg_thread_id m)"

lemma staged_conflict_stands:
  "staged_conflict s a ms = Some e \<Longrightarrow> e \<noteq> StorageErr ErrCurrentDiscoveryRecoveryRequired \<Longrightarrow> \<exists>m \<in> set ms. stands_against s a m e"
  by (induction ms) (auto simp: stands_against_def split: if_splits option.splits)

lemma CommitCurrentDiscovery_failure:
  assumes c: "CommitCurrentDiscovery ctx c s = (Some e, s')" and inv: "store_inv s" and changed: "s' \<noteq> s"
  shows "\<exists>p. ctx = None \<and> PrepareCurrentDiscoveryCommit c = Inr p \<and> can_promote p s \<and> fmlookup (attempts s) (dc_account c) = None \<and>
    (\<exists>m \<in> set (pd_messages p). stands_against s (dc_account c) m e) \<and>
    s' = s\<lparr>attempts := fmupd (dc_account c) (sealed_attempt p) (attempts s)\<rparr>"
proof -
  have ai: "attempts_inv (attempts s) (cursors s) (lifecycles s)" using inv by (simp add: store_inv_def)
  obtain p where p: "ctx = None" "PrepareCurrentDiscoveryCommit c = Inr p" "can_promote p s"
      "staged_conflict s (dc_account c) (pd_messages p) = Some e" "s' = s\<lparr>attempts := fmupd (pd_account p) (sealed_attempt p) (attempts s)\<rparr>"
    using CommitCurrentDiscovery_cases [OF c ai] changed by auto
  note pp = Prepare_Inr [OF p(2)]
  have "fmlookup (attempts s) (dc_account c) = None"
  proof (rule ccontr)
    assume "fmlookup (attempts s) (dc_account c) \<noteq> None"
    then obtain t where t: "fmlookup (attempts s) (dc_account c) = Some t" by blast
    then have "at_state t = ''sealed''" using ai by (auto simp: attempts_inv_def)
    then have "finalizeCurrentDiscovery (at_prepared t) s = (Some e, s')"
      using c p(1,2) t changed pp(2) by (auto simp: CommitCurrentDiscovery_def Let_def split: if_splits option.splits)
    then show False using finalize_sealed [OF _ t ai] changed by blast
  qed
  moreover have "e \<noteq> StorageErr ErrCurrentDiscoveryRecoveryRequired"
    using no_recovery_conflict [OF inv] pp(1,2) p(4) by (metis prepared_ok_def)
  ultimately show ?thesis using p pp(2) staged_conflict_stands [OF p(4)] by auto
qed

text \<open>
  C12 (errors_change_nothing): A failing operation changes nothing, with one exception that is pinned down: a live commit of a well-formed
  discovery for an active account at the expected cursor, with no attempt pending for the account, that fails because
  a stored message stands against a message of the batch. It leaves that batch behind as the sealed attempt
  of that account and changes nothing else, the attempts of other accounts included.
\<close>

theorem errors_change_nothing:
  assumes "steps New h s" and "run_op ctx op s = (Some e, s')"
  shows "s' = s \<or> (\<exists>c p l m. op = OpCommitCurrentDiscovery c \<and> ctx = None \<and> PrepareCurrentDiscoveryCommit c = Inr p \<and>
    fmlookup (lifecycles s) (dc_account c) = Some l \<and> lc_state l = AccountStateActive \<and>
    fmlookup (cursors s) (dc_account c) = Some (dc_expected c) \<and> fmlookup (attempts s) (dc_account c) = None \<and>
    m \<in> set (dc_messages c) \<and> stands_against s (dc_account c) m e \<and>
    s' = s\<lparr>attempts := fmupd (dc_account c) \<lparr>at_prepared = p, at_state = ''sealed'', at_staged = pd_messages p\<rparr> (attempts s)\<rparr>)"
proof (cases op)
  case (OpEnsureAccount seed)
  then obtain q where "EnsureAccount ctx seed s = (Inl q, s')" using assms(2) by (auto split: prod.splits sum.splits)
  from EnsureAccount_cases [OF this] show ?thesis by auto
next
  case (OpCommitAccountLifecycle c)
  have "lifecycles_inv (lifecycles s) (cursors s) (credentials s)"
    using steps_inv [OF assms(1) New_inv] by (simp add: store_inv_def)
  then show ?thesis using CommitAccountLifecycle_cases [of ctx c s "Some e" s'] assms(2) OpCommitAccountLifecycle by auto
next
  case (OpCommitCurrentDiscovery c)
  show ?thesis
  proof (cases "s' = s")
    case False
    from CommitCurrentDiscovery_failure [OF _ steps_inv [OF assms(1) New_inv] this, of ctx c e]
    obtain p m where p: "ctx = None" "PrepareCurrentDiscoveryCommit c = Inr p" "can_promote p s" "fmlookup (attempts s) (dc_account c) = None"
        "m \<in> set (pd_messages p)" "stands_against s (dc_account c) m e"
        "s' = s\<lparr>attempts := fmupd (dc_account c) (sealed_attempt p) (attempts s)\<rparr>"
      using assms(2) OpCommitCurrentDiscovery by auto
    note pp = Prepare_Inr [OF p(2)]
    have "m \<in> set (dc_messages c)" using pp(5) p(5) by blast
    then show ?thesis using OpCommitCurrentDiscovery p pp(2,3) by (auto simp: can_promote_def sealed_attempt_def)
  qed simp
next
  case (OpReconcileCurrentDiscovery a)
  have "attempts_inv (attempts s) (cursors s) (lifecycles s)"
    using steps_inv [OF assms(1) New_inv] by (simp add: store_inv_def)
  then show ?thesis using ReconcileCurrentDiscovery_cases [of ctx a s "Some e" s'] assms(2) OpReconcileCurrentDiscovery by auto
next
  case (OpCommitSynchronization c)
  then show ?thesis using assms(2) CommitSynchronization_cases [of ctx c s "Some e" s'] by simp
next
  case (OpCommitProviderCredential c)
  then show ?thesis using assms(2) CommitProviderCredential_cases [of ctx c s "Some e" s'] by auto
next
  case (OpDeleteRevokedProviderCredential d)
  then show ?thesis using assms(2) DeleteRevokedProviderCredential_cases [of ctx d s "Some e" s'] by auto
next
  case (OpCommitGateDecision c)
  then show ?thesis using assms(2) CommitGateDecision_cases [of ctx c s "Some e" s'] by auto
next
  case (OpCommitCandidateContent c)
  then show ?thesis using assms(2) CommitCandidateContent_cases [of ctx c s "Some e" s'] by auto
qed

theorem errors_change_nothing_witness:
  "\<exists>e s'. run_op None (OpCommitAccountLifecycle demo_revoke) demo_active = (Some e, s') \<and> s' = demo_active"
proof -
  have "fmlookup (lifecycles demo_active) demo_id = Some \<lparr>lc_account = demo_id, lc_state = AccountStateActive,
      lc_version = 2, lc_reason = None, lc_revocation = RevocationStatusNone\<rparr>"
    by (simp add: demo_store_defs)
  then have "fst (CommitAccountLifecycle None demo_revoke demo_active) \<noteq> None"
    by (simp add: CommitAccountLifecycle_def LifecycleMatchesCommit_iff demo_revoke_def split: option.splits)
  then obtain e s' where "run_op None (OpCommitAccountLifecycle demo_revoke) demo_active = (Some e, s')"
    by (cases "CommitAccountLifecycle None demo_revoke demo_active") auto
  with errors_change_nothing [OF demo_steps this] show ?thesis by auto
qed

end
