(* ===== verification/Gate_Demo.thy ===== *)
theory Gate_Demo
  imports Store_Demo
begin

text \<open>
  A gate configuration for the witnesses: case folding of the English letters, addresses without
  a display name, and a policy that lets one domain through. The demonstration message is from that
  domain, so the gate makes it a review candidate.
\<close>

definition demo_fold :: "rune \<Rightarrow> rune" where
  "demo_fold r = (if 65 \<le> r \<and> r \<le> 90 then r + 32 else if 97 \<le> r \<and> r \<le> 122 then r - 32 else r)"

definition demo_lib :: golib where
  "demo_lib = \<lparr>SimpleFold = demo_fold, ParseAddress = Some\<rparr>"

definition demo_policy :: gate_policy where
  "demo_policy = \<lparr>g_version = 1, g_excluded_labels = [''SPAM''], g_suppress_categories = [''CATEGORY_PROMOTIONS''],
     g_direct_candidate = True, g_list_bulk = True, g_allow_domains = [''example.com''], g_block_domains = [''bad.net''],
     g_candidate_terms = [''pay''], g_urgent_terms = [''now'']\<rparr>"

lemma demo_fold_twice: "(demo_fold ^^ 2) r = r"
  by (auto simp: numeral_2_eq_2 demo_fold_def)

lemma demo_closes: "closes demo_fold r"
  unfolding closes_def using demo_fold_twice [of r] by (intro exI [of _ 2]) simp

lemma demo_fold_rune: "canonicalFoldRune demo_lib r = (if 97 \<le> r \<and> r \<le> 122 then r - 32 else r)"
proof -
  have "orbit demo_fold r = (\<lambda>k. (demo_fold ^^ k) r) ` {..<2}" by (rule orbit_finite [OF demo_fold_twice]) simp
  also have "\<dots> = {r, demo_fold r}" by (auto simp: lessThan_Suc numeral_2_eq_2)
  finally have "canonicalFoldRune demo_lib r = Min {r, demo_fold r}"
    using canonicalFoldRune_min [of demo_lib r] demo_closes by (simp add: demo_lib_def)
  then show ?thesis by (auto simp: demo_fold_def)
qed

lemma demo_domains: "validDomain ''example.com''" "validDomain ''bad.net''"
  by code_simp+

lemma demo_trim: "trim_space ''pay'' = ''pay''" "trim_space ''now'' = ''now''"
  by code_simp+

lemma demo_terms: "validTerms demo_lib [''pay'']" "validTerms demo_lib [''now'']"
  by (simp_all add: validTerms_def foldLiteral_def runes_ascii valid_utf8_ascii is_control_def MaximumFoldedTermBytes_def
      demo_fold_rune rune_len_def demo_trim encode_rune_def)

lemma demo_policy_valid: "ValidatePolicy demo_lib demo_policy = None"
  using demo_domains demo_terms
  by (simp add: ValidatePolicy_def demo_policy_def GateVersion1_def validUniqueLabels_def validCategories_def
      categories_allowed_def validDomains_def label_char_def in_range_def)

definition demo_classification :: classification where
  "demo_classification = gate_result demo_lib demo_message demo_policy"

lemma demo_classify: "Classify demo_lib demo_message demo_policy = Inr demo_classification"
  unfolding demo_classification_def by (rule Classify_eq [OF demo_normalize demo_policy_valid])

lemma demo_domain: "senderDomain demo_lib ''ann@example.com'' = ''example.com''"
  unfolding demo_lib_def by code_simp

lemma demo_fold_now: "fold_text demo_lib ''Pay now'' = ''PAY '' @ fold_text demo_lib ''now'' @ []"
proof -
  have "encode_rune r = [char_of r]" if "r < 128" for r using that by (simp add: encode_rune_def rune_valid_def)
  moreover have "char_of (80::nat) = CHR ''P''" "char_of (65::nat) = CHR ''A''" "char_of (89::nat) = CHR ''Y''"
    "char_of (32::nat) = CHR '' ''"
    by code_simp+
  ultimately show ?thesis by (simp add: fold_text_def runes_ascii demo_fold_rune)
qed

lemma demo_signals:
  "signal demo_lib (msg_metadata demo_message) demo_policy ReasonSenderAllowDomain"
  "signal demo_lib (msg_metadata demo_message) demo_policy ReasonOwnerUrgentTerm"
  "\<not> signal demo_lib (msg_metadata demo_message) demo_policy ReasonExcludedLabel"
  "\<not> signal demo_lib (msg_metadata demo_message) demo_policy ReasonSenderBlockDomain"
proof -
  have md: "msg_metadata demo_message = normal_metadata demo_input"
    by (simp add: demo_message_def normal_message_def Let_def)
  have "mentions demo_lib ''Pay now'' [''now'']" unfolding mentions_def using demo_fold_now by fastforce
  then show "signal demo_lib (msg_metadata demo_message) demo_policy ReasonOwnerUrgentTerm"
    by (simp add: signal_simps md normal_metadata_def demo_input_def demo_policy_def)
  show "signal demo_lib (msg_metadata demo_message) demo_policy ReasonSenderAllowDomain"
    "\<not> signal demo_lib (msg_metadata demo_message) demo_policy ReasonExcludedLabel"
    "\<not> signal demo_lib (msg_metadata demo_message) demo_policy ReasonSenderBlockDomain"
    by (simp_all add: signal_simps md normal_metadata_def demo_input_def demo_policy_def demo_domain
        matchesAnyDomain_def intersectsExact_def has_suffix_def has_prefix_def)
qed

lemma demo_outcome: "cl_outcome demo_classification = OutcomeUrgentReviewCandidate"
  using demo_signals
  by (simp add: demo_classification_def gate_result_def Let_def gate_outcome_def mem_gate_reasons)

lemma demo_classification_valid: "classification_valid demo_classification"
proof -
  have "validLowerHex (msg_hash demo_message) 64"
    by (simp add: demo_message_def normal_message_def Let_def validLowerHex_sha256)
  from DecodeClassification_valid [OF gate_result_valid [OF this, of demo_policy demo_lib]] show ?thesis
    by (simp add: demo_classification_def)
qed

definition demo_decision :: gate_decision where
  "demo_decision = projr (NewGateDecision demo_classification 0)"

lemma demo_new_decision: "NewGateDecision demo_classification 0 = Inr demo_decision"
proof -
  obtain d where "NewGateDecision demo_classification 0 = Inr d"
    using demo_classification_valid by (auto simp: NewGateDecision_Inr MaximumGateEvaluationUnixMS_def)
  then show ?thesis by (simp add: demo_decision_def)
qed

lemma demo_decision: "decision_valid demo_decision" "gd_source_hash demo_decision = msg_hash demo_message"
  "gd_outcome demo_decision = OutcomeUrgentReviewCandidate" "gd_version demo_decision = GateVersion1"
proof -
  have eq: "demo_decision = \<lparr>gd_version = cl_version demo_classification, gd_source_hash = cl_source_hash demo_classification,
      gd_input_hash = cl_input_hash demo_classification, gd_outcome = cl_outcome demo_classification,
      gd_reasons = cl_reasons demo_classification, gd_reason_json = marshal_reasons (cl_reasons demo_classification),
      gd_evaluated_at = 0\<rparr>"
    using demo_new_decision [unfolded NewGateDecision_Inr] by blast
  show "decision_valid demo_decision" by (rule NewGateDecision_valid [OF demo_new_decision])
  show "gd_outcome demo_decision = OutcomeUrgentReviewCandidate" unfolding eq by (simp add: demo_outcome)
  show "gd_source_hash demo_decision = msg_hash demo_message" "gd_version demo_decision = GateVersion1"
    unfolding eq by (simp_all add: demo_classification_def gate_result_def Let_def)
qed

end
