(* ===== verification/Store_Decisions.thy ===== *)
theory Store_Decisions
  imports Store_Properties Gate_Demo
begin

text \<open>
  The derived records of the store: gate decisions and candidate excerpts, how a commit is read
  back, how competing commits are ordered, and the review list that shows them.
\<close>

section \<open>Gate decisions and excerpts\<close>

lemma CommitGateDecision_None:
  assumes "CommitGateDecision ctx c s = (None, s')"
  shows "\<exists>m d. message_valid (gc_source c) \<and> decision_valid (gc_next c) \<and>
    message_at s (SourceAccountID c) (msg_gmail_id (gc_source c)) = Some m \<and> msg_hash m = gd_source_hash (gc_next c) \<and>
    fmlookup (decisions s') (msg_record_id m) = Some d \<and> decision_semantic_equal d (gc_next c) \<and>
    s' = s\<lparr>decisions := decisions s'\<rparr>"
  using assms
  by (auto simp: CommitGateDecision_def Let_def decision_semantic_equal_def split: option.splits if_splits)

text \<open>The demonstration mailbox holds the message, and then its decision.\<close>

definition demo_mailbox :: store where
  "demo_mailbox = commit_prepared demo_prepared demo_active"

lemma demo_mailbox_steps: "steps New (demo_history @ [(None, OpCommitCurrentDiscovery demo_commit)]) demo_mailbox"
  using steps_append [OF demo_steps steps_single [of None "OpCommitCurrentDiscovery demo_commit" demo_active None demo_mailbox]]
  by (simp add: demo_discovery demo_mailbox_def)

lemma demo_mailbox_reachable: "reachable demo_mailbox"
  using demo_mailbox_steps by (auto simp: reachable_def)

lemma demo_prepared_messages: "pd_messages demo_prepared = [demo_message]" "pd_account demo_prepared = demo_id"
proof -
  note p = Prepare_Inr [OF demo_prepare]
  have "set (pd_messages demo_prepared) = {demo_message}" using p(5,6) by (auto simp: demo_commit_def)
  moreover have "distinct (gids (pd_messages demo_prepared))"
    using p(1) strict_sorted_iff by (auto simp: prepared_ok_def)
  ultimately show "pd_messages demo_prepared = [demo_message]"
    by (cases "pd_messages demo_prepared") (auto simp: distinct_map subset_singleton_iff)
  show "pd_account demo_prepared = demo_id" using p(2) by (simp add: demo_commit_def)
qed

lemma demo_stored: "message_at demo_mailbox demo_id ''m1'' = Some demo_message"
  using promoted_stored [of "pd_messages demo_prepared" demo_message] demo_message_valid(3)
  by (simp add: demo_mailbox_def message_at_eq demo_prepared_messages)

text \<open>
  A committed decision is what the next reader sees: after a successful commit, reading the
  decision of that message returns it (up to the time of its first observation) and reports it current.
\<close>

theorem decision_read_back:
  assumes "reachable s" and "CommitGateDecision ctx c s = (None, s')"
  shows "\<exists>d. GetGateDecision None (SourceAccountID c) (msg_gmail_id (gc_source c)) s' =
      Inr \<lparr>gs_decision = d, gs_current = True\<rparr> \<and> decision_semantic_equal d (gc_next c)"
proof -
  obtain m d where c: "message_at s (SourceAccountID c) (msg_gmail_id (gc_source c)) = Some m"
    "msg_hash m = gd_source_hash (gc_next c)" "fmlookup (decisions s') (msg_record_id m) = Some d"
    "decision_semantic_equal d (gc_next c)" and s': "s' = s\<lparr>decisions := decisions s'\<rparr>"
    using CommitGateDecision_None [OF assms(2)] by blast
  have inv': "store_inv s'" using CommitGateDecision_inv [OF reachable_inv [OF assms(1)] assms(2)] .
  have "messages s' = messages s" by (subst s') simp
  then have "message_at s' (SourceAccountID c) (msg_gmail_id (gc_source c)) = Some m" using c(1) by (simp add: message_at_def)
  from GetGateDecision_stored [OF inv' this c(3)] show ?thesis
    using c by (auto simp: decision_semantic_equal_def)
qed

definition demo_gate_commit :: gate_decision_commit where
  "demo_gate_commit = \<lparr>gc_source = demo_message, gc_expected = None, gc_next = demo_decision\<rparr>"

definition demo_decided :: store where
  "demo_decided = demo_mailbox\<lparr>decisions := fmupd (msg_record_id demo_message) demo_decision fmempty\<rparr>"

lemma demo_source: "SourceAccountID \<lparr>gc_source = demo_message, gc_expected = e, gc_next = d\<rparr> = demo_id"
  using demo_id_valid by (simp add: SourceAccountID_def demo_message_valid(2) del: ParseAccountID_Inr)

lemma demo_mailbox_frame: "accounts demo_mailbox = accounts demo_active" "lifecycles demo_mailbox = lifecycles demo_active"
  "decisions demo_mailbox = fmempty" "contents demo_mailbox = fmempty"
  by (simp_all add: demo_mailbox_def demo_store_defs)

lemma demo_decide: "CommitGateDecision None demo_gate_commit demo_mailbox = (None, demo_decided)"
proof -
  have "ParseAccountID (msg_account demo_message) = Inr demo_id" using demo_id_valid by (simp only: demo_message_valid(2))
  moreover have "fmlookup (accounts demo_mailbox) demo_id \<noteq> None" by (simp add: demo_mailbox_frame) (simp add: demo_store_defs)
  ultimately show ?thesis
    using demo_stored demo_message_valid demo_decision message_valid_gmail_id [OF demo_message_valid(1)]
    by (simp add: CommitGateDecision_def demo_gate_commit_def demo_source Let_def demo_mailbox_frame demo_decided_def
        MutableMetadataEqual_def del: ParseAccountID_Inr)
qed

theorem decision_read_back_witness:
  "\<exists>d. GetGateDecision None demo_id ''m1'' demo_decided = Inr \<lparr>gs_decision = d, gs_current = True\<rparr> \<and>
    gd_outcome d = OutcomeUrgentReviewCandidate"
  using decision_read_back [OF demo_mailbox_reachable demo_decide] demo_decision(3) demo_message_valid(3)
  by (auto simp: demo_gate_commit_def demo_source decision_semantic_equal_def)

text \<open>
  C15 (decision_no_lost_update): Decisions are never lost to a race. When two writers start from the same expected revision and
  one has committed a decision with another revision, the second commit of a different decision fails.
\<close>

theorem decision_no_lost_update:
  assumes "CommitGateDecision ctx c s = (None, s')" and "gc_source c' = gc_source c"
    and "gc_expected c' = gc_expected c" and "gc_expected c \<noteq> Some (gate_decision_revision (gc_next c))"
    and "\<not> decision_semantic_equal (gc_next c) (gc_next c')"
  shows "fst (CommitGateDecision ctx' c' s') \<noteq> None \<and> snd (CommitGateDecision ctx' c' s') = s'"
proof -
  obtain m d where c: "message_at s (SourceAccountID c) (msg_gmail_id (gc_source c)) = Some m"
    "fmlookup (decisions s') (msg_record_id m) = Some d"
    "decision_semantic_equal d (gc_next c)" and s': "s' = s\<lparr>decisions := decisions s'\<rparr>"
    using CommitGateDecision_None [OF assms(1)] by blast
  have "messages s' = messages s" by (subst s') simp
  then have m: "message_at s' (SourceAccountID c') (msg_gmail_id (gc_source c')) = Some m"
    using c(1) assms(2) by (simp add: message_at_def SourceAccountID_def)
  have "gate_decision_revision d = gate_decision_revision (gc_next c)"
    using c(3) by (simp add: decision_semantic_equal_def gate_decision_revision_def)
  moreover have "\<not> decision_semantic_equal d (gc_next c')"
    using c(3) assms(5) by (auto simp: decision_semantic_equal_def)
  ultimately show ?thesis using m c(2) assms(3,4)
    by (auto simp: CommitGateDecision_def Let_def split: option.splits if_splits)
qed

definition demo_late_decision :: gate_decision where
  "demo_late_decision = demo_decision\<lparr>gd_outcome := OutcomeIgnore\<rparr>"

theorem decision_no_lost_update_witness:
  "fst (CommitGateDecision None (demo_gate_commit\<lparr>gc_next := demo_late_decision\<rparr>) demo_decided) \<noteq> None"
  using decision_no_lost_update [OF demo_decide, of "demo_gate_commit\<lparr>gc_next := demo_late_decision\<rparr>" None] demo_decision(3)
  by (simp add: demo_gate_commit_def demo_late_decision_def decision_semantic_equal_def outcome_defs)

lemma CommitCandidateContent_None:
  assumes "CommitCandidateContent ctx c s = (None, s')" and "ParseAccountID (msg_account (ccm_source c)) = Inr a"
  shows "ValidateCandidateContentCommit c = None" "fmlookup (accounts s) a \<noteq> None"
    "\<exists>m. message_at s a (msg_gmail_id (ccm_source c)) = Some m \<and> msg_record_id m = msg_record_id (ccm_source c) \<and>
      msg_hash m = msg_hash (ccm_source c)"
    "\<exists>l. fmlookup (lifecycles s) a = Some l \<and> lc_state l = AccountStateActive \<and> lc_version l = ccm_version c"
    "fmlookup (decisions s) (msg_record_id (ccm_source c)) = Some (ccm_gate c)" "CandidateOutcome (gd_outcome (ccm_gate c))"
    "gd_source_hash (ccm_gate c) = msg_hash (ccm_source c)"
    "\<exists>x. fmlookup (contents s') (msg_record_id (ccm_source c)) = Some x \<and> content_semantic_equal x (ccm_next c)"
    "s' = s\<lparr>contents := contents s'\<rparr>"
  using assms
  by (auto simp: CommitCandidateContent_def Let_def MutableMetadataEqual_def decision_equal_def content_semantic_equal_def
      simp del: ParseAccountID_Inr split: option.splits if_splits)

lemma content_valid_limit:
  assumes "content_valid c"
  shows "MinimumExcerptBytes \<le> cc_excerpt_limit c" "cc_excerpt_limit c \<le> MaximumExcerptBytes"
  using content_valid_new [OF assms] by (auto simp: NewCandidateContent_def validCandidateContentInput_def split: if_splits)

lemma ValidateCandidateContentCommit_None:
  assumes "ValidateCandidateContentCommit c = None"
  shows "content_valid (ccm_next c)" "cc_source_hash (ccm_next c) = msg_hash (ccm_source c)"
    "cc_gate_version (ccm_next c) = gd_version (ccm_gate c)" "cc_gate_input_hash (ccm_next c) = gd_input_hash (ccm_gate c)"
    "ValidateGmailMessageID (msg_gmail_id (ccm_source c)) = None"
  using assms by (auto simp: ValidateCandidateContentCommit_def split: sum.splits if_splits)

text \<open>
  A committed excerpt is what the next reader sees: after a successful commit, reading the
  excerpt of that message at the limit it was cut for returns it (up to the time it was fetched) and reports
  it current. It is committed only for an active account and under a stored decision that makes the message a
  candidate.
\<close>

theorem content_read_back:
  assumes "reachable s" and "CommitCandidateContent ctx c s = (None, s')"
    and "ParseAccountID (msg_account (ccm_source c)) = Inr a"
  shows "(\<exists>x. GetCandidateContent None a (msg_gmail_id (ccm_source c)) (cc_excerpt_limit (ccm_next c)) s' =
      Inr \<lparr>cs_content = x, cs_current = True\<rparr> \<and> content_semantic_equal x (ccm_next c)) \<and>
    (\<exists>l d. fmlookup (lifecycles s) a = Some l \<and> lc_state l = AccountStateActive \<and> lc_version l = ccm_version c \<and>
      fmlookup (decisions s) (msg_record_id (ccm_source c)) = Some d \<and> d = ccm_gate c \<and> CandidateOutcome (gd_outcome d))"
proof -
  note cm = CommitCandidateContent_None [OF assms(2,3)]
  obtain m where m: "message_at s a (msg_gmail_id (ccm_source c)) = Some m" "msg_record_id m = msg_record_id (ccm_source c)"
      "msg_hash m = msg_hash (ccm_source c)"
    using cm(3) by blast
  obtain l where l: "fmlookup (lifecycles s) a = Some l" "lc_state l = AccountStateActive" "lc_version l = ccm_version c"
    using cm(4) by blast
  obtain x where x: "fmlookup (contents s') (msg_record_id (ccm_source c)) = Some x" "content_semantic_equal x (ccm_next c)"
    using cm(8) by blast
  note valid = ValidateCandidateContentCommit_None [OF cm(1)]
  have inv': "store_inv s'" using CommitCandidateContent_inv [OF reachable_inv [OF assms(1)] assms(2)] .
  have frame: "accounts s' = accounts s" "lifecycles s' = lifecycles s" "decisions s' = decisions s"
    "message_at s' a (msg_gmail_id (ccm_source c)) = Some m"
    using m(1) by (subst cm(9); simp add: message_at_def)+
  have same: "cc_source_hash x = cc_source_hash (ccm_next c)" "cc_gate_version x = cc_gate_version (ccm_next c)"
    "cc_gate_input_hash x = cc_gate_input_hash (ccm_next c)" "cc_excerpt_limit x = cc_excerpt_limit (ccm_next c)"
    using x(2) by (cases x; cases "ccm_next c"; simp add: content_semantic_equal_def)+
  have redecode: "redecode_content x = Inr x"
    using inv_content_valid [OF inv' x(1)] content_valid_new redecode_new by blast
  note limits = content_valid_limit [OF valid(1)]
  have "GetCandidateContent None a (msg_gmail_id (ccm_source c)) (cc_excerpt_limit (ccm_next c)) s' =
      Inr \<lparr>cs_content = x, cs_current = True\<rparr>"
    using cm(2,5-7) m l x frame same valid redecode limits account_valid_inv [OF inv', of a]
    by (simp add: GetCandidateContent_def content_equal_def)
  then show ?thesis using x l cm(5,6) by auto
qed

definition demo_content_input :: candidate_content_input where
  "demo_content_input = \<lparr>ci_record_id = msg_record_id demo_message, ci_source_hash = msg_hash demo_message,
     ci_gate_version = gd_version demo_decision, ci_gate_input_hash = gd_input_hash demo_decision,
     ci_source_kind = CandidateSourceTextPlain, ci_excerpt = ''Hello'', ci_excerpt_limit = MaximumExcerptBytes,
     ci_truncated = False, ci_fetched_at = 0\<rparr>"

definition demo_content :: candidate_content where
  "demo_content = projr (NewCandidateContent demo_content_input)"

lemma demo_new_content: "NewCandidateContent demo_content_input = Inr demo_content"
proof -
  have "validLowerHex (msg_record_id demo_message) 64" "validLowerHex (msg_hash demo_message) 64"
    by (simp_all add: demo_message_def normal_message_def deriveRecordID_def Let_def validLowerHex_sha256)
  moreover have "validLowerHex (gd_input_hash demo_decision) 64"
    using decision_revision_of_valid [OF demo_decision(1)]
    by (simp add: decision_revision_valid_def gate_decision_revision_def)
  moreover have "canonicalCandidateExcerpt ''Hello''"
  proof -
    have "trim_space ''Hello'' = ''Hello''" by code_simp
    then show ?thesis
      by (simp add: canonicalCandidateExcerpt_def runes_ascii valid_utf8_ascii unsafeCandidateExcerptRune_def
          trim_right_blank_def has_prefix_iff is_control_def)
  qed
  ultimately have "validCandidateContentInput demo_content_input"
    using demo_decision(4)
    by (simp add: validCandidateContentInput_def demo_content_input_def source_kind_valid_def GateVersion1_def
        MinimumExcerptBytes_def MaximumExcerptBytes_def MaximumContentFetchedAtUnixMS_def)
  then show ?thesis by (simp add: demo_content_def NewCandidateContent_def)
qed

definition demo_content_commit :: candidate_content_commit where
  "demo_content_commit = \<lparr>ccm_source = demo_message, ccm_gate = demo_decision, ccm_version = 2, ccm_expected = None,
     ccm_next = demo_content\<rparr>"

lemma demo_fields: "cc_record_id demo_content = msg_record_id demo_message" "cc_source_hash demo_content = msg_hash demo_message"
  "cc_gate_version demo_content = gd_version demo_decision" "cc_gate_input_hash demo_content = gd_input_hash demo_decision"
  using NewCandidateContent_Inr [OF demo_new_content]
  by (simp_all add: demo_content_def NewCandidateContent_def) (simp_all add: demo_content_input_def)

lemma demo_excerpt: "fst (CommitCandidateContent None demo_content_commit demo_decided) = None"
proof -
  have a: "ParseAccountID (msg_account demo_message) = Inr demo_id" using demo_id_valid by (simp only: demo_message_valid(2))
  have "ValidateCandidateContentCommit demo_content_commit = None"
    using a demo_fields demo_decision NewCandidateContent_valid [OF demo_new_content] demo_message_valid(1)
      message_valid_gmail_id [OF demo_message_valid(1)]
    by (simp add: ValidateCandidateContentCommit_def demo_content_commit_def lifecycle_version_valid_def del: ParseAccountID_Inr)
  moreover have "fmlookup (accounts demo_decided) demo_id \<noteq> None" "\<exists>l. fmlookup (lifecycles demo_decided) demo_id = Some l \<and>
      lc_state l = AccountStateActive \<and> lc_version l = 2"
    by (simp_all add: demo_decided_def demo_mailbox_frame) (simp_all add: demo_store_defs)
  moreover have "message_at demo_decided demo_id ''m1'' = Some demo_message"
    using demo_stored by (simp add: demo_decided_def message_at_def)
  moreover have "decisions demo_decided = fmupd (msg_record_id demo_message) demo_decision fmempty" "contents demo_decided = fmempty"
    by (simp_all add: demo_decided_def demo_mailbox_frame)
  ultimately show ?thesis using a demo_decision demo_message_valid(3)
    by (auto simp: CommitCandidateContent_def demo_content_commit_def Let_def MutableMetadataEqual_def decision_equal_def
        CandidateOutcome_def simp del: ParseAccountID_Inr)
qed

lemma demo_decided_reachable: "reachable demo_decided"
  using steps_append [OF demo_mailbox_steps steps_single [of None "OpCommitGateDecision demo_gate_commit" demo_mailbox None demo_decided]]
    demo_decide by (auto simp: reachable_def)

theorem content_read_back_witness:
  "\<exists>s' x. GetCandidateContent None demo_id ''m1'' (cc_excerpt_limit demo_content) s' =
    Inr \<lparr>cs_content = x, cs_current = True\<rparr> \<and> content_semantic_equal x demo_content"
proof -
  have a: "ParseAccountID (msg_account (ccm_source demo_content_commit)) = Inr demo_id"
    using demo_id_valid by (simp add: demo_content_commit_def demo_message_valid(2) del: ParseAccountID_Inr)
  obtain s' where "CommitCandidateContent None demo_content_commit demo_decided = (None, s')"
    using demo_excerpt by (metis prod.collapse)
  from content_read_back [OF demo_decided_reachable this a] show ?thesis
    using demo_message_valid(3) by (auto simp: demo_content_commit_def)
qed

section \<open>Lists\<close>

lemma sorted_take_later:
  assumes "sorted_wrt (<) (map k xs)" and "r \<in> set xs" and "r \<notin> set (take n xs)"
  shows "length (take n xs) = n \<and> (\<forall>x \<in> set (take n xs). (k x :: 'b::order) < k r)"
proof -
  have "r \<in> set (drop n xs)" using assms(2,3) append_take_drop_id [of n xs] by (metis Un_iff set_append)
  moreover have "sorted_wrt (<) (map k (take n xs) @ map k (drop n xs))"
    using assms(1) by (metis append_take_drop_id map_append)
  ultimately show ?thesis by (cases "n \<le> length xs") (auto simp: sorted_wrt_append)
qed

text \<open>
  C10 (review_list_exact): The review list is exact. On a reachable store it never fails; its rows are sorted strictly by
  account, thread and message, lie after the cursor, number at most the limit, and are eligible: the
  account is active and asked for, the message is stored, and its stored decision is a current candidate
  decision of the wanted urgency. An eligible row after the cursor is missing only when the page is full of
  smaller rows.
\<close>

theorem review_list_exact:
  assumes "reachable s"
  shows "\<exists>rs. ListReviewCandidates None q s = Inr rs \<and> sorted_wrt (<) (map row_key rs) \<and> length rs \<le> nat (rq_limit q) \<and>
    (\<forall>r. r \<in> set rs \<longrightarrow> eligible s q r \<and> (rk_present (rq_after q) \<longrightarrow> cursor_key (rq_after q) < row_key r)) \<and>
    (\<forall>r. eligible s q r \<and> (rk_present (rq_after q) \<longrightarrow> cursor_key (rq_after q) < row_key r) \<and> r \<notin> set rs \<longrightarrow>
      length rs = nat (rq_limit q) \<and> (\<forall>x. x \<in> set rs \<longrightarrow> row_key x < row_key r))"
proof -
  note inv = reachable_inv [OF assms]
  let ?later = "filter (\<lambda>r. rk_present (rq_after q) \<longrightarrow> cursor_key (rq_after q) < row_key r) (all_rows q s)"
  let ?rs = "take (nat (rq_limit q)) ?later"
  have list: "ListReviewCandidates None q s = Inr ?rs"
    unfolding ListReviewCandidates_eq [OF inv] by (cases "rk_present (rq_after q)") simp_all
  have mem: "r \<in> set ?later \<longleftrightarrow> eligible s q r \<and> (rk_present (rq_after q) \<longrightarrow> cursor_key (rq_after q) < row_key r)" for r
    using all_rows(2) [OF inv, of q] by auto
  have sorted: "sorted_wrt (<) (map row_key ?later)"
    using all_rows(1) [OF inv, of q] by (simp add: sorted_wrt_map sorted_wrt_filter)
  have "sorted_wrt (<) (map row_key ?rs)"
    using sorted_wrt_take [OF sorted, of "nat (rq_limit q)"] by (simp add: take_map)
  then show ?thesis
    using list sorted_take_later [OF sorted, of _ "nat (rq_limit q)"] mem by (intro exI [of _ ?rs]) (auto dest: in_set_takeD)
qed

definition demo_query :: review_candidate_query where
  "demo_query = \<lparr>rq_accounts = [], rq_urgency = ReviewUrgencyUrgent, rq_page_size = 10,
     rq_after = \<lparr>rk_account = demo_id, rk_thread = [], rk_message = [], rk_present = False\<rparr>, rq_limit = 10\<rparr>"

lemma demo_message_at: "message_at demo_decided a g = Some m \<longleftrightarrow> a = demo_id \<and> g = ''m1'' \<and> m = demo_message"
proof -
  have "message_at demo_mailbox a g = message_at demo_active a g" if "a \<noteq> demo_id \<or> g \<noteq> ''m1''"
    using commit_prepared_others [OF Prepare_Inr(1) [OF demo_prepare], of a g demo_active] that demo_message_valid(3)
    by (simp add: demo_mailbox_def demo_prepared_messages)
  moreover have "message_at demo_active a g = None" by (simp add: demo_store_defs message_at_def)
  moreover have "message_at demo_decided a g = message_at demo_mailbox a g" by (simp add: demo_decided_def message_at_def)
  ultimately show ?thesis using demo_stored by (cases "a = demo_id \<and> g = ''m1''") auto
qed

lemma demo_eligible: "eligible demo_decided demo_query r \<longleftrightarrow> r = \<lparr>row_message = demo_message, row_decision = demo_decision\<rparr>"
proof -
  have "decisions demo_decided = fmupd (msg_record_id demo_message) demo_decision fmempty"
    by (simp add: demo_decided_def)
  moreover have "\<exists>l. fmlookup (lifecycles demo_decided) demo_id = Some l \<and> lc_state l = AccountStateActive"
    by (simp add: demo_decided_def demo_mailbox_frame demo_active_def)
  ultimately show ?thesis
    using demo_decision demo_message_valid(3)
    by (cases r) (auto simp: eligible_def demo_message_at demo_query_def row_wanted_def outcome_defs ReviewUrgencyStandard_def
        ReviewUrgencyUrgent_def)
qed

theorem review_list_exact_witness:
  "ListReviewCandidates None demo_query demo_decided = Inr [\<lparr>row_message = demo_message, row_decision = demo_decision\<rparr>]"
proof -
  let ?r = "\<lparr>row_message = demo_message, row_decision = demo_decision\<rparr>"
  obtain rs where rs: "ListReviewCandidates None demo_query demo_decided = Inr rs" "sorted_wrt (<) (map row_key rs)"
    "\<And>r. r \<in> set rs \<Longrightarrow> eligible demo_decided demo_query r"
    "\<And>r. eligible demo_decided demo_query r \<Longrightarrow> r \<in> set rs \<or> length rs = 10"
    using review_list_exact [OF demo_decided_reachable, of demo_query] by (auto simp: demo_query_def)
  have el: "\<And>r. r \<in> set rs \<Longrightarrow> r = ?r" "?r \<in> set rs \<or> length rs = 10" using rs(3,4) demo_eligible by auto
  then have "rs = [?r]" using rs(2) by (cases rs; cases "tl rs") auto
  then show ?thesis using rs(1) by simp
qed

text \<open>
  The account list is exact: while there are at most the maximal number of accounts it shows every
  account of the store once, in increasing order, with its lifecycle and with whether it has a cursor and a
  credential; beyond the maximum it reports that the result is too large.
\<close>

theorem account_list_exact:
  assumes "reachable s"
  shows "if fcard (fmdom (accounts s)) > MaximumAccountList then ListAccounts None s = Inl (StorageErr ErrResultTooLarge)
    else \<exists>xs. ListAccounts None s = Inr xs \<and> sorted_wrt (<) (map sum_account xs) \<and>
      fset_of_list (map sum_account xs) = fmdom (accounts s) \<and>
      (\<forall>x. x \<in> set xs \<longrightarrow> (\<exists>l. fmlookup (lifecycles s) (sum_account x) = Some l \<and> x = summary_of s (sum_account x) l))"
proof -
  note inv = reachable_inv [OF assms]
  have "fmlookup (lifecycles s) i = None \<longleftrightarrow> fmlookup (accounts s) i = None" for i
    using inv unfolding store_inv_def accounts_inv_def by blast
  then have dom: "fmdom (accounts s) = fmdom (lifecycles s)"
    by (intro fset_eqI) (metis fmdom_notD fmdom_notI)
  let ?ids = "sorted_list_of_fset (fmdom (lifecycles s))"
  have len: "length ?ids = fcard (fmdom (lifecycles s))"
    by (simp add: sorted_list_of_fset.rep_eq fcard.rep_eq)
  have strict: "sorted_wrt (<) ?ids" by (simp add: sorted_list_of_fset.rep_eq strict_sorted_iff)
  let ?xs = "map (\<lambda>i. summary_of s i (the (fmlookup (lifecycles s) i))) ?ids"
  have ids: "map sum_account ?xs = ?ids" by (simp add: summary_of_def o_def)
  have "\<exists>l. fmlookup (lifecycles s) (sum_account x) = Some l \<and> x = summary_of s (sum_account x) l" if "x \<in> set ?xs" for x
    using that by (auto simp: summary_of_def fmlookup_dom_iff)
  then show ?thesis
    unfolding dom ListAccounts_def using len strict ids by (auto simp: Let_def summary_of_def intro!: exI [of _ ?xs])
qed

theorem account_list_exact_witness:
  "\<exists>xs. ListAccounts None demo_active = Inr xs \<and> fset_of_list (map sum_account xs) = {|demo_id|}"
proof -
  have "fmdom (accounts demo_active) = {|demo_id|}" by (simp add: demo_store_defs)
  moreover have "fcard {|demo_id|} \<le> MaximumAccountList" by (simp add: fcard.rep_eq MaximumAccountList_def)
  ultimately show ?thesis using account_list_exact [OF demo_reachable] by (auto simp: not_less split: if_splits)
qed

end
