(* ===== verification/Value_Properties.thy ===== *)
theory Value_Properties
  imports Store_Decisions
begin

text \<open>
  What the value types of the program promise: canonical message metadata, the metadata gate and its
  input hash, gate decisions, excerpts, cursors and prepared discovery commits.
\<close>

section \<open>Messages\<close>

text \<open>
  C7 (canonical_reader_exact): The reader of stored metadata is the exact inverse of the writer. It accepts a version, a body and a
  hash exactly when they are those of a message that normalization builds for that account, message and thread, and it
  returns that message; otherwise it reports invalid metadata.
\<close>

theorem canonical_reader_exact:
  "(case DecodeCanonical a g t v body h of
      Inl e \<Rightarrow> e = ErrInvalidMetadata \<and> \<not> (\<exists>inp m. Normalize a inp = Inr m \<and> mi_gmail_message_id inp = g \<and>
        mi_gmail_thread_id inp = t \<and> v = MetadataVersion1 \<and> msg_json m = body \<and> msg_hash m = h)
    | Inr m \<Rightarrow> \<exists>inp. Normalize a inp = Inr m \<and> mi_gmail_message_id inp = g \<and> mi_gmail_thread_id inp = t \<and>
        v = MetadataVersion1 \<and> msg_json m = body \<and> msg_hash m = h)"
proof (cases "DecodeCanonical a g t v body h")
  case (Inl e)
  then have "DecodeCanonical a g t v body h \<noteq> Inr m" for m by simp
  then show ?thesis using Inl DecodeCanonical_error [OF Inl] unfolding DecodeCanonical_iff by auto
next
  case (Inr m)
  then show ?thesis using DecodeCanonical_Inr_Normalize [OF Inr] by auto
qed

text \<open>
  Normalization is canonical: two inputs whose recipients and labels agree as sets and whose other
  fields agree give the same message, byte for byte, and the stored recipients and labels are strictly sorted.
\<close>

theorem normalize_canonical:
  assumes "Normalize a inp = Inr m" and "Normalize a inp' = Inr m'"
    and "set (mi_to inp') = set (mi_to inp)" and "set (mi_cc inp') = set (mi_cc inp)"
    and "set (mi_delivered_to inp') = set (mi_delivered_to inp)" and "set (mi_labels inp') = set (mi_labels inp)"
    and "inp' = inp\<lparr>mi_to := mi_to inp', mi_cc := mi_cc inp', mi_delivered_to := mi_delivered_to inp', mi_labels := mi_labels inp'\<rparr>"
  shows "m' = m \<and> sorted_wrt (<) (md_to (msg_metadata m)) \<and> sorted_wrt (<) (md_cc (msg_metadata m)) \<and>
    sorted_wrt (<) (md_delivered_to (msg_metadata m)) \<and> sorted_wrt (<) (md_labels (msg_metadata m))"
proof -
  have "normal_metadata inp' = normal_metadata inp"
    using sort_compact_cong [OF assms(3)] sort_compact_cong [OF assms(4)] sort_compact_cong [OF assms(5)]
      sort_compact_cong [OF assms(6)]
    by (subst assms(7)) (simp add: normal_metadata_def)
  moreover have "mi_gmail_message_id inp' = mi_gmail_message_id inp" "mi_gmail_thread_id inp' = mi_gmail_thread_id inp"
    by (subst assms(7), simp)+
  ultimately have "normal_message a inp' = normal_message a inp" by (simp add: normal_message_def)
  moreover have "msg_metadata m = normal_metadata inp" using assms(1) by (simp add: Normalize_Inr normal_message_def Let_def)
  ultimately show ?thesis
    using assms(1,2) sort_compact_strict by (simp add: Normalize_Inr normal_metadata_def)
qed

theorem normalize_canonical_witness: "sorted_wrt (<) (md_to (msg_metadata demo_message))"
  using normalize_canonical [OF demo_normalize demo_normalize] by (simp add: demo_input_def)

text \<open>
  A record identifier stands for one account and one Gmail message: the texts that are hashed into the
  identifiers of two valid messages are equal only if the accounts and the Gmail identifiers are.
\<close>

theorem message_identity:
  assumes "message_valid m" and "message_valid m'"
  shows "msg_record_id m = hex_encode (sha256 (record_preimage (msg_account m) (msg_gmail_id m))) \<and>
    (record_preimage (msg_account m) (msg_gmail_id m) = record_preimage (msg_account m') (msg_gmail_id m') \<longleftrightarrow>
      msg_account m = msg_account m' \<and> msg_gmail_id m = msg_gmail_id m')"
proof -
  have len: "length (msg_account m) < 2 ^ 32" "length (msg_gmail_id m) < 2 ^ 32" if "message_valid m" for m
    using message_valid_fields(1,2) [OF that] by (simp_all add: mail_validAccountID_def validLowerHex_def validVisibleASCII_def split: if_splits)
  show ?thesis
    using record_preimage_inject [OF len [OF assms(1)] len [OF assms(2)]] message_valid_fields(4) [OF assms(1)]
    by (simp add: deriveRecordID_def)
qed

theorem message_identity_witness:
  "msg_record_id demo_message = hex_encode (sha256 (record_preimage (msg_account demo_message) (msg_gmail_id demo_message)))"
  using message_identity [OF demo_message_valid(1) demo_message_valid(1)] by blast

section \<open>The gate\<close>

text \<open>
  C4 (classify_total_exact): The gate never fails on a normalized message under a valid policy, and computes its specification: the
  reasons are exactly the signals that hold, sorted (or the single reason that there is none), the outcome is the decision
  table applied to the reasons, and both carry the hash of the message and the hash of message and policy.
\<close>

theorem classify_total_exact:
  assumes "Normalize a inp = Inr m" and "ValidatePolicy lib p = None"
  shows "\<exists>c. Classify lib m p = Inr c \<and> classification_valid c \<and> set (cl_reasons c) = gate_reasons lib (msg_metadata m) p \<and>
    sorted_wrt (<) (cl_reasons c) \<and> cl_outcome c = gate_outcome (set (cl_reasons c)) \<and> cl_source_hash c = msg_hash m \<and>
    cl_input_hash c = deriveInputHash (msg_hash m) p"
proof -
  have hash: "validLowerHex (msg_hash m) 64"
    using Normalize_fields(5) [OF assms(1)] by (simp add: validLowerHex_sha256)
  note valid = DecodeClassification_valid [OF gate_result_valid [OF hash, of p lib]]
  show ?thesis
    using Classify_eq [OF assms] valid gate_reasons_finite [of lib "msg_metadata m" p]
    by (simp add: gate_result_def Let_def)
qed

theorem classify_total_exact_witness:
  "\<exists>c. Classify demo_lib demo_message demo_policy = Inr c \<and> cl_outcome c = OutcomeUrgentReviewCandidate"
proof -
  obtain c where c: "Classify demo_lib demo_message demo_policy = Inr c"
    using classify_total_exact [OF demo_normalize demo_policy_valid] by blast
  then have "c = demo_classification" using demo_classify by simp
  then show ?thesis using c demo_outcome by simp
qed

text \<open>
  C16 (blocked_is_ignored): A blocked sender domain or an excluded label always wins: such a message is ignored, whatever else
  holds; and a message is urgent only if its sender is allowed and its subject mentions an urgent term.
\<close>

theorem blocked_is_ignored:
  assumes "Normalize a inp = Inr m" and "ValidatePolicy lib p = None" and "Classify lib m p = Inr c"
  shows "(from_domain lib (md_sender_address (msg_metadata m)) (g_block_domains p) \<or>
      set (md_labels (msg_metadata m)) \<inter> set (g_excluded_labels p) \<noteq> {} \<longleftrightarrow> cl_outcome c = OutcomeIgnore) \<and>
    (cl_outcome c = OutcomeUrgentReviewCandidate \<longrightarrow>
      from_domain lib (md_sender_address (msg_metadata m)) (g_allow_domains p) \<and>
      mentions lib (md_subject (msg_metadata m)) (g_urgent_terms p))"
proof -
  have c: "cl_outcome c = gate_outcome (gate_reasons lib (msg_metadata m) p)"
    using Classify_eq [OF assms(1,2)] assms(3) by (simp add: gate_result_def Let_def)
  have sig: "signal lib (msg_metadata m) p ReasonExcludedLabel \<longleftrightarrow> set (md_labels (msg_metadata m)) \<inter> set (g_excluded_labels p) \<noteq> {}"
    "signal lib (msg_metadata m) p ReasonSenderBlockDomain \<longleftrightarrow> from_domain lib (md_sender_address (msg_metadata m)) (g_block_domains p)"
    "signal lib (msg_metadata m) p ReasonSenderAllowDomain \<longleftrightarrow> from_domain lib (md_sender_address (msg_metadata m)) (g_allow_domains p)"
    "signal lib (msg_metadata m) p ReasonOwnerUrgentTerm \<longleftrightarrow> mentions lib (md_subject (msg_metadata m)) (g_urgent_terms p)"
    by (simp_all add: signal_def)
  show ?thesis unfolding c gate_outcome_def sig [symmetric] by (auto simp: mem_gate_reasons outcome_defs split: if_splits)
qed

theorem blocked_is_ignored_witness: "\<not> from_domain demo_lib (md_sender_address (msg_metadata demo_message)) (g_block_domains demo_policy)"
  using blocked_is_ignored [OF demo_normalize demo_policy_valid demo_classify] demo_outcome by (auto simp: outcome_defs)

text \<open>
  C17 (fold_is_orbit_minimum): Folding picks one representative per class of characters that are equal under simple case folding: it
  is the smallest member of the class, and two characters fold to the same one exactly when one is in the class of the
  other. The hypothesis is what the documentation of \<^verbatim>\<open>unicode.SimpleFold\<close> says: repeated application returns to the start.
\<close>

theorem fold_is_orbit_minimum:
  assumes "closes (SimpleFold lib) a" and "closes (SimpleFold lib) b"
  shows "canonicalFoldRune lib a = Min (orbit (SimpleFold lib) a) \<and>
    (canonicalFoldRune lib a = canonicalFoldRune lib b \<longleftrightarrow> b \<in> orbit (SimpleFold lib) a)"
  using canonicalFoldRune_min [OF assms(1)] canonicalFoldRune_eq_iff [OF assms] by blast

theorem fold_is_orbit_minimum_witness: "canonicalFoldRune demo_lib 97 = Min (orbit (SimpleFold demo_lib) 97)"
proof -
  have "closes (SimpleFold demo_lib) r" for r using demo_closes by (simp add: demo_lib_def)
  from fold_is_orbit_minimum [OF this this] show ?thesis by blast
qed

text \<open>
  C18 (input_hash_covers_policy): The gate's input hash covers exactly what the decision depends on: for two valid policies, the hashed
  texts are equal exactly when the message hashes are equal and the policies agree in every list up to order and in
  every switch.
\<close>

theorem input_hash_covers_policy:
  assumes "ValidatePolicy lib p = None" and "ValidatePolicy lib' q = None"
    and "length s < 2 ^ 32" and "length s' < 2 ^ 32"
  shows "input_preimage s p = input_preimage s' q \<longleftrightarrow> s = s' \<and> same_policy p q"
  using input_preimage_inject [OF _ assms(3,4) ValidatePolicy_small [OF assms(1)] ValidatePolicy_small [OF assms(2)]]
    input_preimage_same by metis

theorem input_hash_covers_policy_witness:
  "input_preimage ''ab'' demo_policy = input_preimage ''ab'' demo_policy \<longleftrightarrow> same_policy demo_policy demo_policy"
  using input_hash_covers_policy [OF demo_policy_valid demo_policy_valid, of "''ab''" "''ab''"] by simp

section \<open>Stored values\<close>

text \<open>
  Every decision made from a valid classification can be stored and read back: decoding its columns
  returns it, and every decision that passes validation arises so.
\<close>

theorem gate_decision_roundtrip:
  "decision_valid d \<longleftrightarrow> (\<exists>c. NewGateDecision c (gd_evaluated_at d) = Inr d) \<and>
    DecodeGateDecision (uint (gd_version d)) (gd_source_hash d) (gd_input_hash d) (gd_outcome d) (gd_reason_json d)
      (gd_evaluated_at d) = Inr d"
  using decision_valid_new NewGateDecision_valid by (auto simp: decision_valid_iff redecode_decision_def)

text \<open>
  C19 (content_bounded_roundtrip): Every excerpt that is built can be stored and read back, has at most as many bytes as its limit,
  and its content hash determines the extractor, the gate version, the source, the limit, the truncation and the
  excerpt (two excerpts with the same hashed text agree in all of them).
\<close>

theorem content_bounded_roundtrip:
  assumes "NewCandidateContent i = Inr c" and "NewCandidateContent i' = Inr c'"
  shows "redecode_content c = Inr c \<and> int (length (cc_excerpt c)) \<le> cc_excerpt_limit c \<and>
    cc_excerpt_limit c \<le> MaximumExcerptBytes \<and>
    (content_preimage (cc_extractor_version c) (cc_gate_version c) (cc_source_kind c) (cc_excerpt_limit c) (cc_truncated c) (cc_excerpt c) =
     content_preimage (cc_extractor_version c') (cc_gate_version c') (cc_source_kind c') (cc_excerpt_limit c') (cc_truncated c') (cc_excerpt c')
     \<longrightarrow> cc_gate_version c = cc_gate_version c' \<and> cc_source_kind c = cc_source_kind c' \<and>
       cc_excerpt_limit c = cc_excerpt_limit c' \<and> cc_truncated c = cc_truncated c' \<and> cc_excerpt c = cc_excerpt c')"
proof -
  have b: "length (cc_source_kind c) < 2 ^ 32" "length (cc_excerpt c) < 2 ^ 32" "MinimumExcerptBytes \<le> cc_excerpt_limit c"
    "cc_excerpt_limit c \<le> MaximumExcerptBytes" if "NewCandidateContent i = Inr c" for i c
  proof -
    show "MinimumExcerptBytes \<le> cc_excerpt_limit c" and l: "cc_excerpt_limit c \<le> MaximumExcerptBytes"
      using content_valid_limit NewCandidateContent_valid [OF that] by auto
    show "length (cc_excerpt c) < 2 ^ 32"
      using content_valid_bounds(1,2) [OF NewCandidateContent_valid [OF that]] l by (simp add: MaximumExcerptBytes_def)
    show "length (cc_source_kind c) < 2 ^ 32"
      using that by (auto simp: NewCandidateContent_def validCandidateContentInput_def source_kind_valid_def
          CandidateSourceTextPlain_def CandidateSourceTextHTML_def split: if_splits)
  qed
  note b1 = b [OF assms(1)] and b2 = b [OF assms(2)]
  show ?thesis
    using redecode_new [OF assms(1)] content_valid_bounds(1,2) [OF NewCandidateContent_valid [OF assms(1)]] b1(4)
      content_preimage_inject [OF b1(1) b2(1) b1(2) b2(2) b1(3,4) b2(3,4)] by auto
qed

theorem content_bounded_roundtrip_witness: "redecode_content demo_content = Inr demo_content"
  using content_bounded_roundtrip [OF demo_new_content demo_new_content] by blast

text \<open>
  C20 (history_id_canonical): A history cursor has one spelling: the parser accepts exactly the decimal numerals, without leading
  zeros, of the numbers from 1 to the largest 64-bit number, and distinct texts give distinct values.
\<close>

theorem history_id_canonical:
  "ParseHistoryID s = Inr h \<longleftrightarrow> hid_text h = s \<and> hid_value h \<noteq> 0 \<and> s = format_uint (unat (hid_value h))"
  using format_uint_u64_length [of "hid_value h"] unfolding ParseHistoryID_Inr by auto

text \<open>
  C21 (prepared_discovery): A prepared commit is sorted, free of duplicates and bounded: the messages are the commit's messages, one
  per Gmail identifier, in increasing order; the byte count is the exact number of bytes of the encoding, without
  wrap-around and at most the limit; preparing it again gives the same result; and the text hashed into the attempt
  identifier determines account, cursors and messages.
\<close>

theorem prepared_discovery:
  assumes "PrepareCurrentDiscoveryCommit c = Inr p" and "PrepareCurrentDiscoveryCommit c' = Inr p'"
  shows "sorted_wrt (<) (map msg_gmail_id (pd_messages p)) \<and> set (pd_messages p) \<subseteq> set (dc_messages c) \<and>
    unat (pd_bytes p) = sum_list (map (\<lambda>m. length (encoded_message m)) (pd_messages p)) \<and>
    unat (pd_bytes p) \<le> MaximumCurrentDiscoveryEncodedBytes \<and>
    PrepareCurrentDiscoveryCommit \<lparr>dc_account = pd_account p, dc_expected = pd_expected p, dc_next = pd_next p,
      dc_messages = pd_messages p\<rparr> = Inr p \<and>
    (attempt_preimage (pd_account p) (pd_expected p) (pd_next p) (pd_messages p) =
      attempt_preimage (pd_account p') (pd_expected p') (pd_next p') (pd_messages p') \<longrightarrow>
      pd_account p = pd_account p' \<and> pd_expected p = pd_expected p' \<and> pd_next p = pd_next p' \<and>
      list_all2 message_equal (pd_messages p) (pd_messages p'))"
proof -
  note p = Prepare_Inr [OF assms(1)] and p' = Prepare_Inr [OF assms(2)]
  have "account_id_valid (pd_account q) \<and> history_id_valid (pd_expected q) \<and> history_id_valid (pd_next q) \<and>
      belongs (pd_account q) (pd_messages q)" if "prepared_ok q" for q
    using that by (simp add: prepared_ok_def)
  from this [OF p(1)] this [OF p'(1)]
  have "attempt_preimage (pd_account p) (pd_expected p) (pd_next p) (pd_messages p) =
      attempt_preimage (pd_account p') (pd_expected p') (pd_next p') (pd_messages p') \<longrightarrow>
      pd_account p = pd_account p' \<and> pd_expected p = pd_expected p' \<and> pd_next p = pd_next p' \<and>
      list_all2 message_equal (pd_messages p) (pd_messages p')"
    using attempt_preimage_inject by blast
  then show ?thesis using p prepared_bytes [OF p(1)] Prepare_again [OF p(1)] by (simp add: prepared_ok_def)
qed

theorem prepared_discovery_witness: "unat (pd_bytes demo_prepared) \<le> MaximumCurrentDiscoveryEncodedBytes"
  using prepared_discovery [OF demo_prepare demo_prepare] by blast

end
