(* ===== verification/Go_Aead.thy ===== *)
theory Go_Aead
  imports Go_Crypto
begin

text \<open>
  AES-256 (FIPS 197) in Galois/counter mode (NIST SP 800-38D) with 12-byte nonces and 16-byte tags,
  executable, as \<^verbatim>\<open>crypto/aes\<close> and \<^verbatim>\<open>cipher.NewGCM\<close> of Go's standard library compute them.
\<close>

unbundle bit_operations_syntax

type_synonym byte = "8 word"

section \<open>AES-256\<close>

definition xtime :: "byte \<Rightarrow> byte" where
  "xtime b = push_bit 1 b XOR (if bit b 7 then 27 else 0)"

fun field_mult :: "nat \<Rightarrow> byte \<Rightarrow> byte \<Rightarrow> byte" where
  "field_mult 0 a b = 0"
| "field_mult (Suc n) a b = (if bit b 0 then a else 0) XOR field_mult n (xtime a) (drop_bit 1 b)"

abbreviation fm :: "byte \<Rightarrow> byte \<Rightarrow> byte" where
  "fm \<equiv> field_mult 8"

text \<open>The inverse in the field is the 254th power, seven squarings with products in between.\<close>

definition field_inverse :: "byte \<Rightarrow> byte" where
  "field_inverse x = (let sq = (\<lambda>y. fm y y); step = (\<lambda>y. fm (sq y) x) in
     sq (step (step (step (step (step (step x)))))))"

definition rot_byte :: "nat \<Rightarrow> byte \<Rightarrow> byte" where
  "rot_byte n b = push_bit n b OR drop_bit (8 - n) b"

definition sub_byte :: "byte \<Rightarrow> byte" where
  "sub_byte x = (let b = field_inverse x in
     b XOR rot_byte 1 b XOR rot_byte 2 b XOR rot_byte 3 b XOR rot_byte 4 b XOR 99)"

definition xor_list :: "byte list \<Rightarrow> byte list \<Rightarrow> byte list" where
  "xor_list = map2 (XOR)"

text \<open>Key expansion: the words of the schedule, newest first; \<open>i\<close> is the index of the next word.\<close>

definition next_word :: "nat \<Rightarrow> byte \<Rightarrow> byte list list \<Rightarrow> byte list" where
  "next_word i rcon ws =
    (let t = hd ws;
         u = (if i mod 8 = 0 then xor_list (map sub_byte (tl t @ [hd t])) [rcon, 0, 0, 0]
              else if i mod 8 = 4 then map sub_byte t else t)
     in xor_list (ws ! 7) u)"

fun expand_key :: "nat \<Rightarrow> nat \<Rightarrow> byte \<Rightarrow> byte list list \<Rightarrow> byte list list" where
  "expand_key 0 i rcon ws = ws"
| "expand_key (Suc n) i rcon ws =
    expand_key n (i + 1) (if i mod 8 = 0 then xtime rcon else rcon) (next_word i rcon ws # ws)"

fun group4 :: "'a list \<Rightarrow> 'a list list" where
  "group4 (a # b # c # d # r) = [a, b, c, d] # group4 r"
| "group4 _ = []"

definition key_schedule :: "byte list \<Rightarrow> byte list list" where
  "key_schedule key = rev (expand_key 52 8 1 (rev (group4 key)))"

definition round_key :: "byte list list \<Rightarrow> nat \<Rightarrow> byte list" where
  "round_key ws r = concat (take 4 (drop (4 * r) ws))"

definition shift_rows :: "byte list \<Rightarrow> byte list" where
  "shift_rows s = map ((!) s) [0, 5, 10, 15, 4, 9, 14, 3, 8, 13, 2, 7, 12, 1, 6, 11]"

definition mix_column :: "byte list \<Rightarrow> byte list" where
  "mix_column c = (let m = (\<lambda>w x y z. fm 2 (c ! w) XOR fm 3 (c ! x) XOR c ! y XOR c ! z) in
     [m 0 1 2 3, m 1 2 3 0, m 2 3 0 1, m 3 0 1 2])"

definition mix_columns :: "byte list \<Rightarrow> byte list" where
  "mix_columns s = concat (map mix_column (group4 s))"

definition aes_round :: "byte list list \<Rightarrow> nat \<Rightarrow> byte list \<Rightarrow> byte list" where
  "aes_round ws r s = xor_list (mix_columns (shift_rows (map sub_byte s))) (round_key ws r)"

definition aes_block :: "byte list \<Rightarrow> byte list \<Rightarrow> byte list" where
  "aes_block key s = (let ws = key_schedule key in
     xor_list (shift_rows (map sub_byte (fold (aes_round ws) [1..<14] (xor_list s (round_key ws 0))))) (round_key ws 14))"

section \<open>Bytes and strings\<close>

definition to_bytes :: "string \<Rightarrow> byte list" where
  "to_bytes s = map (\<lambda>c. word_of_nat (bval c)) s"

definition of_bytes :: "byte list \<Rightarrow> string" where
  "of_bytes bs = map (\<lambda>b. char_of (unat b)) bs"

definition aes256 :: "string \<Rightarrow> string \<Rightarrow> string" where
  "aes256 key block = of_bytes (aes_block (to_bytes key) (to_bytes block))"

definition xor_string :: "string \<Rightarrow> string \<Rightarrow> string" where
  "xor_string = map2 (\<lambda>a b. char_of (bval a XOR bval b))"

section \<open>Galois/counter mode\<close>

definition ghash_mult :: "128 word \<Rightarrow> 128 word \<Rightarrow> 128 word" where
  "ghash_mult x y = fst (fold (\<lambda>i (z, v).
     (if bit x (127 - i) then z XOR v else z,
      if bit v 0 then drop_bit 1 v XOR push_bit 120 225 else drop_bit 1 v)) [0..<128] (0, y))"

definition block_word :: "string \<Rightarrow> 128 word" where
  "block_word s = foldl (\<lambda>w c. push_bit 8 w OR word_of_nat (bval c)) 0 s"

definition word_block :: "128 word \<Rightarrow> string" where
  "word_block w = map (\<lambda>i. char_of (unat (drop_bit (8 * (15 - i)) w))) [0..<16]"

definition pad16 :: "string \<Rightarrow> string" where
  "pad16 s = s @ replicate ((16 - length s mod 16) mod 16) (CHR 0x00)"

fun blocks16 :: "nat \<Rightarrow> string \<Rightarrow> string list" where
  "blocks16 0 s = []"
| "blocks16 (Suc n) s = take 16 s # blocks16 n (drop 16 s)"

definition ghash :: "128 word \<Rightarrow> string \<Rightarrow> string \<Rightarrow> 128 word" where
  "ghash h aad ct = (let m = pad16 aad @ pad16 ct @ be64 (8 * length aad) @ be64 (8 * length ct) in
     foldl (\<lambda>y b. ghash_mult (y XOR block_word b) h) 0 (blocks16 (length m div 16) m))"

text \<open>Counter mode from counter value \<open>i\<close>; the fuel is the number of bytes, at least one per block.\<close>

fun counter_mode :: "nat \<Rightarrow> string \<Rightarrow> string \<Rightarrow> u32 \<Rightarrow> string \<Rightarrow> string" where
  "counter_mode 0 key nonce i s = []"
| "counter_mode (Suc n) key nonce i s =
    (if s = [] then []
     else xor_string (take 16 s) (aes256 key (nonce @ be32 i)) @ counter_mode n key nonce (i + 1) (drop 16 s))"

definition gcm_crypt :: "string \<Rightarrow> string \<Rightarrow> string \<Rightarrow> string" where
  "gcm_crypt key nonce s = counter_mode (length s) key nonce 2 s"

definition gcm_tag :: "string \<Rightarrow> string \<Rightarrow> string \<Rightarrow> string \<Rightarrow> string" where
  "gcm_tag key nonce ct aad = (let h = block_word (aes256 key (replicate 16 (CHR 0x00))) in
     xor_string (word_block (ghash h aad ct)) (aes256 key (nonce @ be32 1)))"

definition gcm_seal :: "string \<Rightarrow> string \<Rightarrow> string \<Rightarrow> string \<Rightarrow> string" where
  "gcm_seal key nonce plaintext aad = (let ct = gcm_crypt key nonce plaintext in ct @ gcm_tag key nonce ct aad)"

definition gcm_open :: "string \<Rightarrow> string \<Rightarrow> string \<Rightarrow> string \<Rightarrow> string option" where
  "gcm_open key nonce sealed aad =
    (if length sealed < 16 then None
     else let ct = take (length sealed - 16) sealed; tag = drop (length sealed - 16) sealed in
       if tag \<noteq> gcm_tag key nonce ct aad then None else Some (gcm_crypt key nonce ct))"

section \<open>Lengths\<close>

lemma length_xor_list [simp]: "length (xor_list a b) = min (length a) (length b)"
  by (simp add: xor_list_def)

lemma group4_props: "list_all (\<lambda>w. length w = 4) (group4 s)" "length (group4 s) = length s div 4"
  by (induction s rule: group4.induct) simp_all

lemma length_concat4: "list_all (\<lambda>w. length w = 4) ws \<Longrightarrow> length (concat ws) = 4 * length ws"
  by (induction ws) simp_all

lemma next_word_length:
  assumes "list_all (\<lambda>w. length w = 4) ws" and "8 \<le> length ws"
  shows "length (next_word i r ws) = 4"
proof -
  have "length (hd ws) = 4" "length (ws ! 7) = 4"
    using assms nth_mem [of 7 ws] by (cases ws; simp add: list_all_iff)+
  then show ?thesis by (simp add: next_word_def Let_def)
qed

lemma expand_key_props:
  assumes "list_all (\<lambda>w. length w = 4) ws" and "8 \<le> length ws"
  shows "list_all (\<lambda>w. length w = 4) (expand_key n i r ws) \<and> length (expand_key n i r ws) = n + length ws"
  using assms
proof (induction n i r ws rule: expand_key.induct)
  case (2 n i r ws)
  then show ?case using next_word_length [of ws i r] by (simp del: One_nat_def)
qed simp

lemma key_schedule_props:
  assumes "length key = 32"
  shows "list_all (\<lambda>w. length w = 4) (key_schedule key)" "length (key_schedule key) = 60"
  using expand_key_props [of "rev (group4 key)" 52 8 1] group4_props [of key] assms
  by (simp_all add: key_schedule_def list_all_iff)

lemma length_round_key:
  assumes "length key = 32" and "r \<le> 14"
  shows "length (round_key (key_schedule key) r) = 16"
proof -
  let ?ws = "take 4 (drop (4 * r) (key_schedule key))"
  have "list_all (\<lambda>w. length w = 4) ?ws"
    using key_schedule_props(1) [OF assms(1)] by (auto simp: list_all_iff dest: in_set_takeD in_set_dropD)
  then show ?thesis
    using key_schedule_props(2) [OF assms(1)] assms(2) by (simp add: round_key_def length_concat4)
qed

lemma length_mix_columns [simp]: "length (mix_columns s) = 4 * (length s div 4)"
proof -
  have "list_all (\<lambda>w. length w = 4) (map mix_column xs)" for xs
    by (simp add: list_all_iff mix_column_def Let_def)
  from length_concat4 [OF this] show ?thesis by (simp add: mix_columns_def group4_props)
qed

lemma length_aes_block:
  assumes "length key = 32" and "length s = 16"
  shows "length (aes_block key s) = 16"
  by (simp add: aes_block_def Let_def length_round_key assms shift_rows_def)

lemma length_aes256 [simp]: "length key = 32 \<Longrightarrow> length s = 16 \<Longrightarrow> length (aes256 key s) = 16"
  by (simp add: aes256_def of_bytes_def to_bytes_def length_aes_block)

lemma length_xor_string [simp]: "length (xor_string a b) = min (length a) (length b)"
  by (simp add: xor_string_def)

section \<open>Opening what was sealed\<close>

lemma xor_char_twice: "char_of (bval (char_of (bval a XOR bval b) :: char) XOR bval b) = a"
proof -
  have "take_bit 8 (bval a) = bval a" "take_bit 8 (bval b) = bval b"
    by (simp_all add: take_bit_nat_eq_self)
  then have "(bval a XOR bval b) mod 256 = bval a XOR bval b"
    using take_bit_xor [of 8 "bval a" "bval b"] by (simp add: take_bit_eq_mod)
  then show ?thesis by (simp add: xor.assoc)
qed

lemma xor_string_twice: "length a \<le> length b \<Longrightarrow> xor_string (xor_string a b) b = a"
  unfolding xor_string_def
  by (induction a b rule: list_induct2') (simp_all add: xor_char_twice del: bval_char_of of_char_of)

lemma counter_mode_props:
  assumes key: "length key = 32" and nonce: "length nonce = 12"
  shows "length s \<le> n \<Longrightarrow> length (counter_mode n key nonce i s) = length s \<and>
    counter_mode n key nonce i (counter_mode n key nonce i s) = s"
proof (induction n arbitrary: i s)
  case (Suc n)
  let ?e = "aes256 key (nonce @ be32 i)" and ?t = "counter_mode n key nonce (i + 1) (drop 16 s)"
  have e: "length ?e = 16" using key nonce by simp
  show ?case
  proof (cases "s = []")
    case False
    have ih: "length ?t = length (drop 16 s)" "counter_mode n key nonce (i + 1) ?t = drop 16 s"
      using Suc.IH [of "drop 16 s" "i + 1"] Suc.prems False by auto
    let ?h = "xor_string (take 16 s) ?e"
    have h: "length ?h = min 16 (length s)" "xor_string ?h ?e = take 16 s"
      using e xor_string_twice [of "take 16 s" ?e] by auto
    have "take 16 (?h @ ?t) = ?h \<and> drop 16 (?h @ ?t) = ?t"
      using h(1) ih(1) by (cases "16 \<le> length s") auto
    moreover have "0 < length ?h" unfolding h(1) using False by simp
    then have "?h @ ?t \<noteq> []" by (metis append_is_Nil_conv length_greater_0_conv)
    ultimately have "counter_mode (Suc n) key nonce i (?h @ ?t) = xor_string ?h ?e @ counter_mode n key nonce (i + 1) ?t"
      by (simp only: counter_mode.simps if_False)
    then show ?thesis using False ih h by simp
  qed simp
qed simp

lemma gcm_crypt_twice:
  assumes "length key = 32" and "length nonce = 12"
  shows "gcm_crypt key nonce (gcm_crypt key nonce s) = s" "length (gcm_crypt key nonce s) = length s"
  using counter_mode_props [OF assms, of s "length s" 2] by (simp_all add: gcm_crypt_def)

lemma length_gcm_tag [simp]: "length key = 32 \<Longrightarrow> length nonce = 12 \<Longrightarrow> length (gcm_tag key nonce ct aad) = 16"
  by (simp add: gcm_tag_def Let_def word_block_def)

lemma length_gcm_seal [simp, lengths]:
  "length key = 32 \<Longrightarrow> length nonce = 12 \<Longrightarrow> length (gcm_seal key nonce p aad) = length p + 16"
  by (simp add: gcm_seal_def Let_def gcm_crypt_twice)

lemma gcm_open_seal [simp]:
  "length key = 32 \<Longrightarrow> length nonce = 12 \<Longrightarrow> gcm_open key nonce (gcm_seal key nonce p aad) aad = Some p"
  by (simp add: gcm_open_def gcm_seal_def Let_def gcm_crypt_twice)

lemma gcm_open_length:
  "gcm_open key nonce sealed aad = Some p \<Longrightarrow> length key = 32 \<Longrightarrow> length nonce = 12 \<Longrightarrow> length sealed = length p + 16"
  by (auto simp: gcm_open_def Let_def gcm_crypt_twice split: if_splits)

text \<open>What opens is what was sealed: a sealed text opens to a plaintext only if it is the seal of that plaintext.\<close>

lemma gcm_open_iff:
  assumes "length key = 32" and "length nonce = 12"
  shows "gcm_open key nonce sealed aad = Some p \<longleftrightarrow> sealed = gcm_seal key nonce p aad"
proof
  assume o: "gcm_open key nonce sealed aad = Some p"
  let ?n = "length sealed - 16"
  have "drop ?n sealed = gcm_tag key nonce (take ?n sealed) aad" "p = gcm_crypt key nonce (take ?n sealed)"
    using o by (auto simp: gcm_open_def Let_def split: if_splits)
  then show "sealed = gcm_seal key nonce p aad"
    using append_take_drop_id [of ?n sealed] by (simp add: gcm_seal_def Let_def gcm_crypt_twice [OF assms])
qed (simp add: assms)

end
