(* ===== verification/Cryptobox.thy ===== *)
theory Cryptobox
  imports Storage_Values Go_Aead
begin

text \<open>
  \<^verbatim>\<open>internal/cryptobox/cryptobox.go\<close>: the keyring and the encryption of refresh tokens. The random
  source is a sequence of bytes that is still to be read; reading more than is left is its error.
  \<^verbatim>\<open>clear\<close> of a buffer that the function owns and drops has no effect on the values here; \<^verbatim>\<open>destroy\<close>,
  which overwrites the keys that the ring keeps, does. The errors of \<^verbatim>\<open>aes.NewCipher\<close> and
  \<^verbatim>\<open>cipher.NewGCM\<close> cannot occur: a key is an array of 32 bytes.
\<close>

definition KeyBytes :: nat where "KeyBytes = 32"
definition NonceBytes :: nat where "NonceBytes = 12"
definition AuthenticationTagBytes :: nat where "AuthenticationTagBytes = 16"
definition MinimumPlaintextBytes :: nat where "MinimumPlaintextBytes = 1"
definition MaximumPlaintextBytes :: nat where "MaximumPlaintextBytes = 4096"
definition MaximumKeyringBytes :: nat where "MaximumKeyringBytes = 620"
definition MinimumEnvelopeTextBytes :: nat where "MinimumEnvelopeTextBytes = 55"
definition MaximumEnvelopeTextBytes :: nat where "MaximumEnvelopeTextBytes = 5556"
definition maximumKeyringEntries :: nat where "maximumKeyringEntries = 8"
definition maximumKeyIDBytes :: nat where "maximumKeyIDBytes = 32"
definition keyringPrefix :: string where "keyringPrefix = ''igk1:''"
definition envelopePrefix :: string where "envelopePrefix = ''igc1.''"
definition envelopeFixedHeaderBytes :: nat where "envelopeFixedHeaderBytes = 7"
definition envelopeMagic :: string where "envelopeMagic = ''IGC'' @ [CHR 0x00]"

lemmas crypto_bounds = KeyBytes_def NonceBytes_def AuthenticationTagBytes_def MinimumPlaintextBytes_def
  MaximumPlaintextBytes_def MaximumKeyringBytes_def MinimumEnvelopeTextBytes_def MaximumEnvelopeTextBytes_def
  maximumKeyringEntries_def maximumKeyIDBytes_def envelopeFixedHeaderBytes_def

record keyring =
  kr_active :: string
  kr_order :: "string list"
  kr_keys :: "(string, string) fmap"
  kr_random :: string
  kr_closed :: bool

section \<open>Syntax checks\<close>

definition validKeyID :: "string \<Rightarrow> bool" where
  "validKeyID value =
    (if length value < 1 \<or> length value > maximumKeyIDBytes \<or> hd value < CHR ''a'' \<or> hd value > CHR ''z'' then False
     else list_all (\<lambda>c. \<not> ((c < CHR ''a'' \<or> c > CHR ''z'') \<and> (c < CHR ''0'' \<or> c > CHR ''9'') \<and>
            c \<noteq> CHR ''_'' \<and> c \<noteq> CHR ''-'')) (tl value))"

definition crypto_validAccountID :: "string \<Rightarrow> bool" where
  "crypto_validAccountID value = (if length value \<noteq> 32 then False
     else list_all (\<lambda>c. \<not> ((c < CHR ''0'' \<or> c > CHR ''9'') \<and> (c < CHR ''a'' \<or> c > CHR ''f''))) value)"

definition validBase64URLText :: "string \<Rightarrow> bool" where
  "validBase64URLText value = (if value = [] then False
     else list_all (\<lambda>c. \<not> ((c < CHR ''A'' \<or> c > CHR ''Z'') \<and> (c < CHR ''a'' \<or> c > CHR ''z'') \<and>
            (c < CHR ''0'' \<or> c > CHR ''9'') \<and> c \<noteq> CHR ''_'' \<and> c \<noteq> CHR ''-'')) value)"

section \<open>The keyring\<close>

definition destroy :: "keyring \<Rightarrow> keyring" where
  "destroy k = k\<lparr>kr_keys := fmmap (\<lambda>key. replicate (length key) (CHR 0x00)) (kr_keys k)\<rparr>"

definition encode_entry :: "keyring \<Rightarrow> string \<Rightarrow> string" where
  "encode_entry k i = i @ ''='' @ b64_encode (case fmlookup (kr_keys k) i of None \<Rightarrow> [] | Some key \<Rightarrow> key)"

definition encodeLocked :: "keyring \<Rightarrow> string res" where
  "encodeLocked k = (if kr_closed k then Inl (CryptoErr ErrClosedKeyring)
     else Inr (keyringPrefix @ join_with (CHR '','') (map (encode_entry k) (kr_order k))))"

definition keyring_Encode :: "keyring \<Rightarrow> string res" where
  "keyring_Encode k = encodeLocked k"

text \<open>
  One entry of \<^verbatim>\<open>ParseKeyring\<close>'s loop; \<open>None\<close> is the error. The search for a duplicate key visits the
  identifiers of the ring, which are those of \<open>kr_order\<close>.
\<close>

definition parse_entry :: "nat \<Rightarrow> string \<Rightarrow> keyring \<Rightarrow> string \<Rightarrow> (string \<times> keyring) option" where
  "parse_entry index previousDecryptID ring entry =
    (case index_byte (CHR ''='') entry of
       None \<Rightarrow> None
     | Some separator \<Rightarrow>
         if separator < 1 \<or> Some separator \<noteq> last_index_byte (CHR ''='') entry then None
         else
           let i = take separator entry; keyText = drop (separator + 1) entry in
           if \<not> validKeyID i \<or> length keyText \<noteq> 43 then None
           else if fmlookup (kr_keys ring) i \<noteq> None \<or> index > 1 \<and> i \<le> previousDecryptID then None
           else case b64_decode True keyText of
             None \<Rightarrow> None
           | Some key \<Rightarrow>
               if length key \<noteq> KeyBytes then None
               else if list_ex (\<lambda>j. fmlookup (kr_keys ring) j = Some key) (kr_order ring) then None
               else
                 let ring' = ring\<lparr>kr_keys := fmupd i key (kr_keys ring), kr_order := kr_order ring @ [i]\<rparr>
                 in if index = 0 then Some (previousDecryptID, ring'\<lparr>kr_active := i\<rparr>)
                    else Some (i, ring'))"

fun parse_entries :: "nat \<Rightarrow> string \<Rightarrow> keyring \<Rightarrow> string list \<Rightarrow> keyring option" where
  "parse_entries index prev ring [] = Some ring"
| "parse_entries index prev ring (entry # entries) =
    (case parse_entry index prev ring entry of
       None \<Rightarrow> None
     | Some (prev', ring') \<Rightarrow> parse_entries (index + 1) prev' ring' entries)"

definition ParseKeyring :: "string \<Rightarrow> string \<Rightarrow> keyring res" where
  "ParseKeyring random encoded =
    (if length encoded < length keyringPrefix + 1 \<or> length encoded > MaximumKeyringBytes \<or>
        \<not> has_prefix encoded keyringPrefix
     then Inl (CryptoErr ErrInvalidKeyring)
     else
       let entries = split_on (CHR '','') (drop (length keyringPrefix) encoded) in
       if length entries < 1 \<or> length entries > maximumKeyringEntries then Inl (CryptoErr ErrInvalidKeyring)
       else case parse_entries 0 [] \<lparr>kr_active = [], kr_order = [], kr_keys = fmempty, kr_random = random,
              kr_closed = False\<rparr> entries of
         None \<Rightarrow> Inl (CryptoErr ErrInvalidKeyring)
       | Some ring \<Rightarrow> if encodeLocked ring \<noteq> Inr encoded then Inl (CryptoErr ErrInvalidKeyring) else Inr ring)"

definition keyring_Close :: "keyring \<Rightarrow> go_error option \<times> keyring" where
  "keyring_Close k = (if kr_closed k then (Some (CryptoErr ErrClosedKeyring), k)
     else (None, (destroy k)\<lparr>kr_closed := True\<rparr>))"

section \<open>Envelopes\<close>

text \<open>
  The branch of \<open>EncryptRefreshToken\<close> in which the active key is missing stands for the nil pointer
  that Go would dereference; a parsed ring has its active key (\<open>parsed_ring\<close>).
\<close>

record parsed_envelope =
  pe_binary :: string
  pe_header :: string
  pe_key_id :: string
  pe_nonce :: string
  pe_sealed :: string

definition parseEnvelope :: "string \<Rightarrow> parsed_envelope res" where
  "parseEnvelope t =
    (if length t < MinimumEnvelopeTextBytes \<or> length t > MaximumEnvelopeTextBytes \<or> length t < length envelopePrefix \<or>
        take (length envelopePrefix) t \<noteq> envelopePrefix
     then Inl (CryptoErr ErrInvalidEnvelope)
     else let encoded = drop (length envelopePrefix) t in
       if \<not> validBase64URLText encoded then Inl (CryptoErr ErrInvalidEnvelope)
       else case b64_decode True encoded of
         None \<Rightarrow> Inl (CryptoErr ErrInvalidEnvelope)
       | Some binary \<Rightarrow>
           if length binary < envelopeFixedHeaderBytes + 1 + NonceBytes + MinimumPlaintextBytes + AuthenticationTagBytes
           then Inl (CryptoErr ErrInvalidEnvelope)
           else if take 4 binary \<noteq> envelopeMagic \<or> bval (binary ! 4) \<noteq> 1 \<or> bval (binary ! 5) \<noteq> 1
           then Inl (CryptoErr ErrInvalidEnvelope)
           else
             let keyIDLength = bval (binary ! 6); headerLength = envelopeFixedHeaderBytes + keyIDLength in
             if keyIDLength < 1 \<or> keyIDLength > maximumKeyIDBytes \<or>
                headerLength + NonceBytes + MinimumPlaintextBytes + AuthenticationTagBytes > length binary \<or>
                \<not> validKeyID (take keyIDLength (drop 7 binary))
             then Inl (CryptoErr ErrInvalidEnvelope)
             else
               let sealed = drop (headerLength + NonceBytes) binary in
               if length sealed < MinimumPlaintextBytes + AuthenticationTagBytes \<or>
                  length sealed > MaximumPlaintextBytes + AuthenticationTagBytes
               then Inl (CryptoErr ErrInvalidEnvelope)
               else Inr \<lparr>pe_binary = binary, pe_header = take headerLength binary,
                 pe_key_id = take keyIDLength (drop 7 binary), pe_nonce = take NonceBytes (drop headerLength binary),
                 pe_sealed = sealed\<rparr>)"

definition envelopeHeader :: "string \<Rightarrow> string" where
  "envelopeHeader keyID = envelopeMagic @ [CHR 0x01, CHR 0x01, char_of (length keyID)] @ keyID"

definition associatedData :: "string \<Rightarrow> string \<Rightarrow> string" where
  "associatedData header accountID =
    header @ [CHR 0x00] @ ''gmail'' @ [CHR 0x00] @ ''oauth_refresh_token'' @ [CHR 0x00] @ accountID"

definition EncryptRefreshToken :: "string \<Rightarrow> string \<Rightarrow> keyring \<Rightarrow> string res \<times> keyring" where
  "EncryptRefreshToken accountID plaintext k =
    (if \<not> crypto_validAccountID accountID then (Inl (CryptoErr ErrInvalidBinding), k)
     else if length plaintext < MinimumPlaintextBytes \<or> length plaintext > MaximumPlaintextBytes
     then (Inl (CryptoErr ErrInvalidPlaintext), k)
     else if kr_closed k then (Inl (CryptoErr ErrClosedKeyring), k)
     else case fmlookup (kr_keys k) (kr_active k) of
       None \<Rightarrow> (Inl (CryptoErr ErrInvalidKeyring), k)
     | Some key \<Rightarrow>
         let header = envelopeHeader (kr_active k) in
         if length (kr_random k) < NonceBytes then (Inl (CryptoErr ErrRandomSource), k\<lparr>kr_random := []\<rparr>)
         else
           let nonce = take NonceBytes (kr_random k);
               sealed = gcm_seal key nonce plaintext (associatedData header accountID)
           in (Inr (envelopePrefix @ b64_encode (header @ nonce @ sealed)),
               k\<lparr>kr_random := drop NonceBytes (kr_random k)\<rparr>))"

definition DecryptRefreshToken :: "string \<Rightarrow> string \<Rightarrow> keyring \<Rightarrow> string res" where
  "DecryptRefreshToken accountID envelope k =
    (if \<not> crypto_validAccountID accountID then Inl (CryptoErr ErrInvalidBinding)
     else case parseEnvelope envelope of
       Inl e \<Rightarrow> Inl e
     | Inr parsed \<Rightarrow>
         if kr_closed k then Inl (CryptoErr ErrClosedKeyring)
         else case fmlookup (kr_keys k) (pe_key_id parsed) of
           None \<Rightarrow> Inl (CryptoErr ErrUnknownKey)
         | Some key \<Rightarrow>
             (case gcm_open key (pe_nonce parsed) (pe_sealed parsed) (associatedData (pe_header parsed) accountID) of
                None \<Rightarrow> Inl (CryptoErr ErrAuthentication)
              | Some plaintext \<Rightarrow>
                  if length plaintext < MinimumPlaintextBytes \<or> length plaintext > MaximumPlaintextBytes
                  then Inl (CryptoErr ErrInvalidEnvelope) else Inr plaintext))"

definition RotateRefreshToken :: "string \<Rightarrow> string \<Rightarrow> keyring \<Rightarrow> (string \<times> bool) res \<times> keyring" where
  "RotateRefreshToken accountID envelope k =
    (case parseEnvelope envelope of
       Inl e \<Rightarrow> (Inl e, k)
     | Inr parsed \<Rightarrow>
         (case DecryptRefreshToken accountID envelope k of
            Inl e \<Rightarrow> (Inl e, k)
          | Inr plaintext \<Rightarrow>
              if kr_closed k then (Inl (CryptoErr ErrClosedKeyring), k)
              else if pe_key_id parsed = kr_active k then (Inr (envelope, False), k)
              else (case EncryptRefreshToken accountID plaintext k of
                 (Inl e, k') \<Rightarrow> (Inl e, k')
               | (Inr rotated, k') \<Rightarrow> (Inr (rotated, True), k'))))"

section \<open>The two readers of envelopes agree\<close>

lemma validKeyID_eq: "validKeyID = validCredentialKeyID"
  by (rule ext) (auto simp: validKeyID_def validCredentialKeyID_def key_id_head_def key_id_char_def maximumKeyIDBytes_def
      list_all_iff not_less)

lemma validBase64URLText_eq: "validBase64URLText = validCredentialBase64URL"
  by (rule ext) (auto simp: validBase64URLText_def validCredentialBase64URL_def b64_text_char_def list_all_iff not_less)

text \<open>The condition both readers check, on the text and its decoded form.\<close>

definition envelope_shape :: "string \<Rightarrow> string \<Rightarrow> bool" where
  "envelope_shape t b \<longleftrightarrow> 55 \<le> length t \<and> length t \<le> 5556 \<and> take 5 t = ''igc1.'' \<and> validCredentialBase64URL (drop 5 t) \<and>
     b64_decode True (drop 5 t) = Some b \<and> 37 \<le> length b \<and> take 4 b = credentialMagic \<and> bval (b ! 4) = 1 \<and>
     bval (b ! 5) = 1 \<and> 1 \<le> bval (b ! 6) \<and> bval (b ! 6) \<le> 32 \<and> 36 + bval (b ! 6) \<le> length b \<and>
     length b \<le> 4131 + bval (b ! 6) \<and> validCredentialKeyID (take (bval (b ! 6)) (drop 7 b))"

definition envelope_parts :: "string \<Rightarrow> parsed_envelope" where
  "envelope_parts b = (let n = bval (b ! 6) in \<lparr>pe_binary = b, pe_header = take (7 + n) b,
     pe_key_id = take n (drop 7 b), pe_nonce = take 12 (drop (7 + n) b), pe_sealed = drop (7 + n + 12) b\<rparr>)"

lemma if_Inl_iff: "(if c then Inl e else x) = Inr y \<longleftrightarrow> \<not> c \<and> x = Inr y"
  by simp

lemma case_option_Inl_iff: "(case o' of None \<Rightarrow> Inl e | Some b \<Rightarrow> f b) = Inr y \<longleftrightarrow> (\<exists>b. o' = Some b \<and> f b = Inr y)"
  by (cases o') auto

lemma envelope_arith:
  "7 + 1 + 12 + 1 + 16 = (37::nat)" "7 + 1 + 12 + 17 = (37::nat)" "7 + k + 12 + 1 + 16 = 36 + (k::nat)"
  "7 + k + 12 + 17 = 36 + (k::nat)" "1 + 16 \<le> n - (7 + k + 12) \<longleftrightarrow> 36 + k \<le> n"
  "n - (7 + k + 12) \<le> 4096 + 16 \<longleftrightarrow> n \<le> 4131 + (k::nat)" "36 + 1 = (37::nat)"
  by arith+

lemma length_prefix: "take 5 t = ''igc1.'' \<Longrightarrow> 5 \<le> length t"
  using length_take [of 5 t] by simp

lemma parseEnvelope_Inr: "parseEnvelope t = Inr p \<longleftrightarrow> (\<exists>b. envelope_shape t b \<and> p = envelope_parts b)"
proof -
  have pre: "envelopePrefix = ''igc1.''" "envelopeMagic = credentialMagic" "length ''igc1.'' = 5"
    by (simp_all add: envelopePrefix_def envelopeMagic_def credentialMagic_def)
  show ?thesis
    unfolding parseEnvelope_def validKeyID_eq validBase64URLText_eq pre crypto_bounds Let_def if_Inl_iff case_option_Inl_iff
      envelope_shape_def envelope_parts_def length_drop de_Morgan_disj not_less not_not sum.inject envelope_arith
    by (intro iffI; elim exE conjE; intro exI conjI; (assumption | erule sym | erule length_prefix))
qed

lemma ParseCredentialEnvelope_Inr:
  "ParseCredentialEnvelope t = Inr e \<longleftrightarrow> (\<exists>b. envelope_shape t b \<and>
    e = \<lparr>env_text = t, env_key_id = CredentialKeyID (take (bval (b ! 6)) (drop 7 b))\<rparr>)"
proof -
  have key: "(case ParseCredentialKeyID v of Inl x \<Rightarrow> Inl invalid_value | Inr i \<Rightarrow> Inr (f i)) = Inr e \<longleftrightarrow>
      validCredentialKeyID v \<and> Inr (f (CredentialKeyID v)) = (Inr e :: 'b res)" for v and f :: "credential_key_id \<Rightarrow> 'b" and e
    by (simp add: ParseCredentialKeyID_def)
  show ?thesis
    unfolding ParseCredentialEnvelope_def Let_def if_Inl_iff case_option_Inl_iff key MinimumCredentialEnvelopeBytes_def
      MaximumCredentialEnvelopeBytes_def MaximumCredentialPlaintextBytes_def
      envelope_shape_def de_Morgan_disj not_less not_not sum.inject envelope_arith
    by (intro iffI; elim exE conjE; intro exI conjI; (assumption | erule sym | erule length_prefix))
qed

lemma parse_envelopes:
  "(\<exists>p. parseEnvelope t = Inr p \<and> pe_key_id p = k) \<longleftrightarrow>
    ParseCredentialEnvelope t = Inr \<lparr>env_text = t, env_key_id = CredentialKeyID k\<rparr>"
  by (auto simp: parseEnvelope_Inr ParseCredentialEnvelope_Inr envelope_parts_def Let_def)

lemma envelope_string_eq: "envelopePrefix @ b64_encode (envelopeHeader k @ n @ ct) = envelope_string k n ct"
  by (simp add: envelope_string_def envelope_binary_def envelopePrefix_def envelopeHeader_def envelopeMagic_def credentialMagic_def)

text \<open>What the parser accepts, in closed form.\<close>

lemma parseEnvelope_string:
  assumes k: "validKeyID k" and n: "length n = 12" and ct: "17 \<le> length ct" "length ct \<le> 4112"
  shows "parseEnvelope (envelope_string k n ct) = Inr \<lparr>pe_binary = envelope_binary k n ct, pe_header = envelopeHeader k,
    pe_key_id = k, pe_nonce = n, pe_sealed = ct\<rparr>"
proof -
  have "ParseCredentialEnvelope (envelope_string k n ct) =
      Inr \<lparr>env_text = envelope_string k n ct, env_key_id = CredentialKeyID k\<rparr>"
    using envelope_parse [OF _ n ct] k by (simp add: validKeyID_eq)
  then obtain b where b: "envelope_shape (envelope_string k n ct) b" unfolding ParseCredentialEnvelope_Inr by blast
  have eb: "b = envelope_binary k n ct" using b by (simp add: envelope_shape_def envelope_string_def)
  have "1 \<le> length k" "length k \<le> 32" using k by (auto simp: validKeyID_def maximumKeyIDBytes_def Suc_le_eq split: if_splits)
  then have "envelope_parts b = \<lparr>pe_binary = envelope_binary k n ct, pe_header = envelopeHeader k,
      pe_key_id = k, pe_nonce = n, pe_sealed = ct\<rparr>"
    unfolding eb using n
    by (simp add: envelope_parts_def Let_def envelope_binary_def envelopeHeader_def envelopeMagic_def credentialMagic_def
        take_Cons' drop_Cons')
  then show ?thesis using b by (auto simp: parseEnvelope_Inr)
qed

lemma parseEnvelope_inverse:
  assumes "parseEnvelope t = Inr p"
  shows "t = envelope_string (pe_key_id p) (pe_nonce p) (pe_sealed p)" "validKeyID (pe_key_id p)"
    "length (pe_nonce p) = 12" "17 \<le> length (pe_sealed p)" "length (pe_sealed p) \<le> 4112"
    "pe_header p = envelopeHeader (pe_key_id p)"
proof -
  obtain b where b: "envelope_shape t b" and p: "p = envelope_parts b" using assms unfolding parseEnvelope_Inr by blast
  let ?n = "bval (b ! 6)"
  have len: "36 + ?n \<le> length b" "length b \<le> 4131 + ?n" "?n \<le> 32" "1 \<le> ?n" using b by (auto simp: envelope_shape_def)
  have "b = take 4 b @ [b ! 4, b ! 5, b ! 6] @ drop 7 b"
  proof -
    have "drop 4 b = b ! 4 # b ! 5 # b ! 6 # drop 7 b"
      using len by (simp add: Cons_nth_drop_Suc [symmetric] eval_nat_numeral)
    then show ?thesis using append_take_drop_id [of 4 b] by simp
  qed
  moreover have "b ! 4 = CHR 0x01" "b ! 5 = CHR 0x01" "b ! 6 = char_of ?n"
  proof -
    have "char_of (1::nat) = CHR 0x01" by code_simp
    then show "b ! 4 = CHR 0x01" "b ! 5 = CHR 0x01"
      using b char_of_bval [of "b ! 4"] char_of_bval [of "b ! 5"] by (simp_all add: envelope_shape_def)
  qed simp
  ultimately have head: "b = credentialMagic @ [CHR 0x01, CHR 0x01, char_of ?n] @ drop 7 b"
    using b by (simp add: envelope_shape_def)
  have split: "drop 7 b = take ?n (drop 7 b) @ take 12 (drop (7 + ?n) b) @ drop (7 + ?n + 12) b"
    by (metis append_take_drop_id drop_drop add.commute)
  have lk: "length (pe_key_id p) = ?n" using len by (simp add: p envelope_parts_def Let_def)
  have eb: "b = envelope_binary (pe_key_id p) (pe_nonce p) (pe_sealed p)"
    using head split unfolding envelope_binary_def lk by (simp add: p envelope_parts_def Let_def)
  have "t = ''igc1.'' @ b64_encode b"
    using b b64_strict_canonical [of "drop 5 t" b] append_take_drop_id [of 5 t]
    by (auto simp: envelope_shape_def validCredentialBase64URL_def split: if_splits)
  then show "t = envelope_string (pe_key_id p) (pe_nonce p) (pe_sealed p)" using eb by (simp add: envelope_string_def)
  show "validKeyID (pe_key_id p)" using b by (simp add: p envelope_parts_def Let_def validKeyID_eq envelope_shape_def)
  show "length (pe_nonce p) = 12" "17 \<le> length (pe_sealed p)" "length (pe_sealed p) \<le> 4112"
    using len by (simp_all add: p envelope_parts_def Let_def)
  have "take (7 + ?n) b = take 7 b @ take ?n (drop 7 b)" by (simp add: take_add)
  moreover have "take 7 b = credentialMagic @ [CHR 0x01, CHR 0x01, char_of ?n]" by (subst head) (simp add: credentialMagic_def)
  ultimately show "pe_header p = envelopeHeader (pe_key_id p)"
    unfolding envelopeHeader_def lk by (simp add: p envelope_parts_def Let_def envelopeMagic_def credentialMagic_def)
qed

section \<open>Which keyrings are accepted\<close>

text \<open>
  A ring as a list of entries, the active key first. \<open>ring_wf\<close> says when the entries may form a
  ring, \<open>ring_of\<close> is the ring they form and \<open>ring_text\<close> its text.
\<close>

type_synonym key_entry = "string \<times> string"

definition entry_text :: "key_entry \<Rightarrow> string" where
  "entry_text e = fst e @ ''='' @ b64_encode (snd e)"

definition ring_text :: "key_entry list \<Rightarrow> string" where
  "ring_text es = keyringPrefix @ join_with (CHR '','') (map entry_text es)"

definition ring_keys :: "key_entry list \<Rightarrow> (string, string) fmap" where
  "ring_keys es = foldl (\<lambda>m e. fmupd (fst e) (snd e) m) fmempty es"

definition ring_of :: "string \<Rightarrow> key_entry list \<Rightarrow> keyring" where
  "ring_of rnd es = \<lparr>kr_active = (case es of [] \<Rightarrow> [] | e # _ \<Rightarrow> fst e), kr_order = map fst es, kr_keys = ring_keys es,
     kr_random = rnd, kr_closed = False\<rparr>"

definition ring_wf :: "key_entry list \<Rightarrow> bool" where
  "ring_wf es \<longleftrightarrow> list_all (\<lambda>e. validKeyID (fst e) \<and> length (snd e) = 32) es \<and> distinct (map fst es) \<and>
     distinct (map snd es) \<and> sorted_wrt (<) (tl (map fst es))"

definition entry_fits :: "key_entry list \<Rightarrow> key_entry \<Rightarrow> bool" where
  "entry_fits es e \<longleftrightarrow> validKeyID (fst e) \<and> length (snd e) = 32 \<and> fst e \<notin> fst ` set es \<and> snd e \<notin> snd ` set es \<and>
     (1 < length es \<longrightarrow> fst (last es) < fst e)"

definition previous_id :: "key_entry list \<Rightarrow> string" where
  "previous_id es = (if length es \<le> 1 then [] else fst (last es))"

lemma sorted_snoc_last: "sorted_wrt (<) (xs @ [x]) \<longleftrightarrow> sorted_wrt (<) xs \<and> (xs \<noteq> [] \<longrightarrow> last xs < (x :: 'a :: order))"
  by (induction xs rule: rev_induct) (auto simp: sorted_wrt_append)

lemma ring_wf_snoc: "ring_wf (es @ [e]) \<longleftrightarrow> ring_wf es \<and> entry_fits es e"
proof -
  have "sorted_wrt (<) (tl (map fst es @ [fst e])) \<longleftrightarrow>
      sorted_wrt (<) (tl (map fst es)) \<and> (1 < length es \<longrightarrow> fst (last es) < fst e)"
  proof (cases es)
    case (Cons a as)
    then show ?thesis using sorted_snoc_last [of "map fst as" "fst e"]
      by (cases "as = []") (simp_all add: last_map)
  qed simp
  then show ?thesis by (auto simp: ring_wf_def entry_fits_def)
qed

lemma ring_keys_lookup: "fmlookup (ring_keys es) i = map_of (rev es) i"
  unfolding ring_keys_def by (induction es rule: rev_induct) (simp_all add: split_beta)

lemma ring_keys_mem: "distinct (map fst es) \<Longrightarrow> fmlookup (ring_keys es) i = Some k \<longleftrightarrow> (i, k) \<in> set es"
  by (simp add: ring_keys_lookup map_of_eq_Some_iff rev_map [symmetric])

lemma ring_keys_None: "fmlookup (ring_keys es) i = None \<longleftrightarrow> i \<notin> fst ` set es"
  by (simp add: ring_keys_lookup map_of_eq_None_iff)

lemma ring_has_key:
  assumes "distinct (map fst es)"
  shows "list_ex (\<lambda>j. fmlookup (ring_keys es) j = Some k) (map fst es) \<longleftrightarrow> k \<in> snd ` set es"
  using assms by (force simp: list_ex_iff ring_keys_mem)

lemma ring_of_snoc:
  "ring_of rnd (es @ [e]) = (let r = (ring_of rnd es)\<lparr>kr_keys := fmupd (fst e) (snd e) (ring_keys es), kr_order := map fst es @ [fst e]\<rparr>
     in if es = [] then r\<lparr>kr_active := fst e\<rparr> else r)"
  by (cases es) (simp_all add: ring_of_def ring_keys_def)

lemma validKeyID_chars: "validKeyID i \<Longrightarrow> CHR ''='' \<notin> set i \<and> CHR '','' \<notin> set i \<and> i \<noteq> [] \<and> length i \<le> 32"
  by (cases i) (auto simp: validKeyID_eq validCredentialKeyID_def key_id_head_def key_id_char_def list_all_iff
      less_eq_char_def split: if_splits)

lemma b64_chars: "CHR ''='' \<notin> set (b64_encode k)" "CHR '','' \<notin> set (b64_encode k)"
  using b64_encode_text [of k] by (auto simp: list_all_iff b64_text_char_def less_eq_char_def)

lemma index_byte_append: "c \<notin> set s \<Longrightarrow> index_byte c (s @ c # t) = Some (length s)"
  by (induction s) auto

lemma parse_entry_sound:
  assumes "parse_entry (length es) (previous_id es) (ring_of rnd es) entry = Some (p, r)" and "ring_wf es"
  shows "\<exists>e. entry_fits es e \<and> p = previous_id (es @ [e]) \<and> r = ring_of rnd (es @ [e])"
proof -
  have d: "distinct (map fst es)" using assms(2) by (simp add: ring_wf_def)
  obtain i key where e: "validKeyID i" "fmlookup (ring_keys es) i = None" "\<not> (1 < length es \<and> i \<le> previous_id es)"
    "length key = 32" "\<not> list_ex (\<lambda>j. fmlookup (ring_keys es) j = Some key) (map fst es)"
    and pr: "(p, r) = (let r = (ring_of rnd es)\<lparr>kr_keys := fmupd i key (ring_keys es), kr_order := map fst es @ [i]\<rparr>
      in if length es = 0 then (previous_id es, r\<lparr>kr_active := i\<rparr>) else (i, r))"
    using assms(1)
    by (auto simp: parse_entry_def Let_def KeyBytes_def ring_of_def split: option.splits if_splits)
  have "entry_fits es (i, key)"
    using e ring_has_key [OF d, of key] by (auto simp: entry_fits_def ring_keys_None previous_id_def not_le split: if_splits)
  moreover have "p = previous_id (es @ [(i, key)]) \<and> r = ring_of rnd (es @ [(i, key)])"
    using pr unfolding ring_of_snoc by (cases "es = []") (auto simp: previous_id_def Let_def)
  ultimately show ?thesis by blast
qed

lemma parse_entry_complete:
  assumes "entry_fits es e" and "ring_wf es"
  shows "parse_entry (length es) (previous_id es) (ring_of rnd es) (entry_text e) =
    Some (previous_id (es @ [e]), ring_of rnd (es @ [e]))"
proof -
  obtain i key where e: "e = (i, key)" by fastforce
  have d: "distinct (map fst es)" using assms(2) by (simp add: ring_wf_def)
  have i: "validKeyID i" "length key = 32" and new: "i \<notin> fst ` set es" "key \<notin> snd ` set es"
    and prev: "1 < length es \<Longrightarrow> \<not> i \<le> previous_id es"
    using assms(1) by (auto simp: entry_fits_def e previous_id_def)
  note chars = validKeyID_chars [OF i(1)]
  have et: "entry_text e = i @ CHR ''='' # b64_encode key" by (simp add: entry_text_def e)
  have "index_byte (CHR ''='') (i @ CHR ''='' # b64_encode key) = Some (length i)"
    "last_index_byte (CHR ''='') (i @ CHR ''='' # b64_encode key) = Some (length i)"
    using chars b64_chars(1) [of key] by (simp_all add: index_byte_append last_index_byte_append)
  moreover have "length (b64_encode key) = 43" using i(2) by (simp add: length_b64_encode)
  moreover have "previous_id (es @ [e]) = (if es = [] then previous_id es else i)"
    by (cases es) (simp_all add: previous_id_def e)
  ultimately show ?thesis
    using chars i new prev ring_has_key [OF d, of key] ring_keys_None [of es i]
    unfolding ring_of_snoc et by (auto simp: parse_entry_def Let_def KeyBytes_def e ring_of_def)
qed

lemma parse_entries_sound:
  assumes "parse_entries (length es) (previous_id es) (ring_of rnd es) texts = Some r" and "ring_wf es"
  shows "\<exists>fs. ring_wf (es @ fs) \<and> length fs = length texts \<and> r = ring_of rnd (es @ fs)"
  using assms
proof (induction texts arbitrary: es)
  case (Cons t ts)
  then obtain p q where pq: "parse_entry (length es) (previous_id es) (ring_of rnd es) t = Some (p, q)"
    "parse_entries (length es + 1) p q ts = Some r" by (auto split: option.splits)
  then obtain e where e: "entry_fits es e" "p = previous_id (es @ [e])" "q = ring_of rnd (es @ [e])"
    using parse_entry_sound Cons.prems(2) by blast
  then obtain fs where "ring_wf ((es @ [e]) @ fs)" "length fs = length ts" "r = ring_of rnd ((es @ [e]) @ fs)"
    using Cons.IH [of "es @ [e]"] pq(2) Cons.prems(2) by (auto simp: ring_wf_snoc)
  then show ?case by (intro exI [of _ "e # fs"]) simp
qed simp

lemma ring_wf_prefix: "ring_wf (es @ e # fs) \<Longrightarrow> ring_wf es \<and> entry_fits es e"
proof (induction fs rule: rev_induct)
  case Nil
  then show ?case by (simp add: ring_wf_snoc)
next
  case (snoc x xs)
  then show ?case using ring_wf_snoc [of "es @ e # xs" x] by simp
qed

lemma parse_entries_complete:
  "ring_wf (es @ fs) \<Longrightarrow> parse_entries (length es) (previous_id es) (ring_of rnd es) (map entry_text fs) = Some (ring_of rnd (es @ fs))"
proof (induction fs arbitrary: es)
  case (Cons e fs)
  have "parse_entry (length es) (previous_id es) (ring_of rnd es) (entry_text e) =
      Some (previous_id (es @ [e]), ring_of rnd (es @ [e]))"
    using ring_wf_prefix [OF Cons.prems] parse_entry_complete by blast
  then show ?case using Cons.IH [of "es @ [e]"] Cons.prems by simp
qed simp

lemma ring_order_texts:
  assumes "ring_wf es"
  shows "map (encode_entry (ring_of rnd es)) (kr_order (ring_of rnd es)) = map entry_text es"
proof -
  have "encode_entry (ring_of rnd es) (fst e) = entry_text e" if "e \<in> set es" for e
    using assms that ring_keys_mem [of es "fst e" "snd e"]
    by (simp add: encode_entry_def ring_of_def entry_text_def ring_wf_def)
  then show ?thesis by (simp add: ring_of_def)
qed

lemma encode_ring: "ring_wf es \<Longrightarrow> encodeLocked (ring_of rnd es) = Inr (ring_text es)"
  by (simp add: encodeLocked_def ring_text_def ring_order_texts) (simp add: ring_of_def)

lemma entry_text_props:
  assumes "validKeyID (fst e)" and "length (snd e) = 32"
  shows "CHR '','' \<notin> set (entry_text e)" "entry_text e \<noteq> []" "length (entry_text e) \<le> 76"
  using validKeyID_chars [OF assms(1)] b64_chars(2) [of "snd e"] length_b64_encode [of "snd e"] assms(2)
  by (auto simp: entry_text_def)

lemma length_join: "xs \<noteq> [] \<Longrightarrow> list_all (\<lambda>x. length x \<le> n) xs \<Longrightarrow> length (join_with c xs) \<le> length xs * (n + 1) - 1"
  by (induction xs rule: join_with.induct) auto

lemma ParseKeyring_iff:
  "ParseKeyring rnd s = Inr k \<longleftrightarrow>
    (\<exists>es. ring_wf es \<and> es \<noteq> [] \<and> length es \<le> maximumKeyringEntries \<and> s = ring_text es \<and> k = ring_of rnd es \<and>
      keyring_Encode k = Inr s)"
proof
  assume "ParseKeyring rnd s = Inr k"
  moreover have "ring_of rnd [] = \<lparr>kr_active = [], kr_order = [], kr_keys = fmempty, kr_random = rnd, kr_closed = False\<rparr>"
    "previous_id [] = []" "ring_wf []"
    by (simp_all add: ring_of_def ring_keys_def previous_id_def ring_wf_def)
  ultimately obtain ts where ts: "parse_entries (length ([] :: key_entry list)) (previous_id []) (ring_of rnd []) ts = Some k" "ts \<noteq> []"
    "length ts \<le> maximumKeyringEntries" and enc: "encodeLocked k = Inr s"
    by (auto simp: ParseKeyring_def Let_def split: if_splits option.splits)
  then obtain es where "ring_wf es" "length es = length ts" "k = ring_of rnd es"
    using parse_entries_sound [OF ts(1)] \<open>ring_wf []\<close> by auto
  then show "\<exists>es. ring_wf es \<and> es \<noteq> [] \<and> length es \<le> maximumKeyringEntries \<and> s = ring_text es \<and> k = ring_of rnd es \<and>
      keyring_Encode k = Inr s"
    using ts enc encode_ring [of es rnd] by (intro exI [of _ es]) (auto simp: keyring_Encode_def)
next
  assume "\<exists>es. ring_wf es \<and> es \<noteq> [] \<and> length es \<le> maximumKeyringEntries \<and> s = ring_text es \<and> k = ring_of rnd es \<and>
      keyring_Encode k = Inr s"
  then obtain es where wf: "ring_wf es" and es: "es \<noteq> []" "length es \<le> 8" and s: "s = ring_text es" and k: "k = ring_of rnd es"
    by (auto simp: maximumKeyringEntries_def)
  have texts: "list_all (\<lambda>x. length x \<le> 76) (map entry_text es)" "\<forall>x\<in>set (map entry_text es). CHR '','' \<notin> set x"
    using wf entry_text_props by (auto simp: ring_wf_def list_all_iff)
  let ?j = "join_with (CHR '','') (map entry_text es)"
  have split: "split_on (CHR '','') ?j = map entry_text es" using split_join texts(2) es(1) by (simp add: list_all_iff)
  have "length es * (76 + 1) \<le> 8 * (76 + 1)" using es(2) by (intro mult_le_mono) simp_all
  then have "length ?j \<le> 615" using length_join [OF _ texts(1), of "CHR '',''"] es(1) by simp
  moreover have "?j \<noteq> []"
    using split es(1) entry_text_props(2) [of "hd es"] wf by (cases es; cases "tl es") (auto simp: ring_wf_def)
  moreover have "parse_entries 0 [] \<lparr>kr_active = [], kr_order = [], kr_keys = fmempty, kr_random = rnd, kr_closed = False\<rparr>
      (map entry_text es) = Some (ring_of rnd es)"
    using parse_entries_complete [of "[]" es rnd] wf by (simp add: ring_of_def ring_keys_def previous_id_def)
  ultimately show "ParseKeyring rnd s = Inr k"
    using encode_ring [OF wf, of rnd] split es
    by (simp add: ParseKeyring_def Let_def s k ring_text_def keyringPrefix_def MaximumKeyringBytes_def maximumKeyringEntries_def
        has_prefix_iff Suc_le_eq)
qed

text \<open>
  The keyring parser accepts exactly the canonical texts: one to eight entries with legal and
  pairwise different identifiers and pairwise different 32-byte keys, the identifiers after the first in
  increasing order. It returns the ring of those entries, whose encoding is the text again.
\<close>

theorem keyring_canonical:
  "ParseKeyring rnd s = Inr k \<longleftrightarrow>
    (\<exists>es. ring_wf es \<and> es \<noteq> [] \<and> length es \<le> maximumKeyringEntries \<and> s = ring_text es \<and> k = ring_of rnd es \<and>
      keyring_Encode k = Inr s)"
  by (rule ParseKeyring_iff)

section \<open>Tokens\<close>

definition ring_sound :: "keyring \<Rightarrow> bool" where
  "ring_sound k \<longleftrightarrow> (\<exists>rnd es. ring_wf es \<and> es \<noteq> [] \<and> k = ring_of rnd es)"

lemma parsed_ring: "ParseKeyring rnd s = Inr k \<Longrightarrow> ring_sound k"
  using ParseKeyring_iff by (auto simp: ring_sound_def)

lemma ring_sound_keys:
  assumes "ring_sound k"
  shows "\<not> kr_closed k" "\<exists>key. fmlookup (kr_keys k) (kr_active k) = Some key"
    "fmlookup (kr_keys k) i = Some key \<Longrightarrow> validKeyID i \<and> length key = 32"
proof -
  obtain rnd es where es: "ring_wf es" "es \<noteq> []" "k = ring_of rnd es" using assms by (auto simp: ring_sound_def)
  have d: "distinct (map fst es)" using es(1) by (simp add: ring_wf_def)
  show "\<not> kr_closed k" by (simp add: es(3) ring_of_def)
  have "(kr_active k, snd (hd es)) \<in> set es" using es(2) by (cases es) (auto simp: es(3) ring_of_def)
  then show "\<exists>key. fmlookup (kr_keys k) (kr_active k) = Some key"
    using ring_keys_mem [OF d] by (auto simp: es(3) ring_of_def)
  assume "fmlookup (kr_keys k) i = Some key"
  then show "validKeyID i \<and> length key = 32"
    using es(1) ring_keys_mem [OF d] by (auto simp: es(3) ring_of_def ring_wf_def list_all_iff)
qed

lemma ring_sound_random: "ring_sound k \<Longrightarrow> ring_sound (k\<lparr>kr_random := r\<rparr>)"
  by (auto simp: ring_sound_def ring_of_def)

definition token_envelope :: "string \<Rightarrow> string \<Rightarrow> string \<Rightarrow> string \<Rightarrow> string \<Rightarrow> string" where
  "token_envelope i key n a pt = envelope_string i n (gcm_seal key n pt (associatedData (envelopeHeader i) a))"

lemma EncryptRefreshToken_eq:
  assumes "ring_sound k" and "fmlookup (kr_keys k) (kr_active k) = Some key"
  shows "EncryptRefreshToken a pt k =
    (if \<not> crypto_validAccountID a then (Inl (CryptoErr ErrInvalidBinding), k)
     else if pt = [] \<or> 4096 < length pt then (Inl (CryptoErr ErrInvalidPlaintext), k)
     else if length (kr_random k) < 12 then (Inl (CryptoErr ErrRandomSource), k\<lparr>kr_random := []\<rparr>)
     else (Inr (token_envelope (kr_active k) key (take 12 (kr_random k)) a pt), k\<lparr>kr_random := drop 12 (kr_random k)\<rparr>))"
  using assms ring_sound_keys(1) [OF assms(1)]
  by (auto simp: EncryptRefreshToken_def Let_def crypto_bounds token_envelope_def envelope_string_eq)

lemma DecryptRefreshToken_iff:
  assumes "ring_sound k"
  shows "DecryptRefreshToken a env k = Inr pt \<longleftrightarrow> crypto_validAccountID a \<and> pt \<noteq> [] \<and> length pt \<le> 4096 \<and>
    (\<exists>i key n. fmlookup (kr_keys k) i = Some key \<and> length n = 12 \<and> env = token_envelope i key n a pt)"
proof
  assume d: "DecryptRefreshToken a env k = Inr pt"
  then obtain p key where p: "parseEnvelope env = Inr p" and key: "fmlookup (kr_keys k) (pe_key_id p) = Some key"
    and o: "gcm_open key (pe_nonce p) (pe_sealed p) (associatedData (pe_header p) a) = Some pt"
    and rest: "crypto_validAccountID a" "pt \<noteq> []" "length pt \<le> 4096"
    by (auto simp: DecryptRefreshToken_def crypto_bounds Suc_le_eq split: if_splits sum.splits option.splits)
  note inv = parseEnvelope_inverse [OF p]
  have "length key = 32" using ring_sound_keys(3) [OF assms key] by blast
  then have "pe_sealed p = gcm_seal key (pe_nonce p) pt (associatedData (pe_header p) a)" using o inv(3) by (simp add: gcm_open_iff)
  then show "crypto_validAccountID a \<and> pt \<noteq> [] \<and> length pt \<le> 4096 \<and>
    (\<exists>i key n. fmlookup (kr_keys k) i = Some key \<and> length n = 12 \<and> env = token_envelope i key n a pt)"
    using rest key inv by (auto simp: token_envelope_def)
next
  assume "crypto_validAccountID a \<and> pt \<noteq> [] \<and> length pt \<le> 4096 \<and>
    (\<exists>i key n. fmlookup (kr_keys k) i = Some key \<and> length n = 12 \<and> env = token_envelope i key n a pt)"
  then obtain i key n where a: "crypto_validAccountID a" "pt \<noteq> []" "length pt \<le> 4096"
    and key: "fmlookup (kr_keys k) i = Some key" and n: "length n = 12" and env: "env = token_envelope i key n a pt"
    by blast
  have i: "validKeyID i" "length key = 32" using ring_sound_keys(3) [OF assms key] by auto
  then have "17 \<le> length (gcm_seal key n pt aad) \<and> length (gcm_seal key n pt aad) \<le> 4112" for aad
    using n a by (cases pt) simp_all
  then have "parseEnvelope env = Inr \<lparr>pe_binary = envelope_binary i n (gcm_seal key n pt (associatedData (envelopeHeader i) a)),
      pe_header = envelopeHeader i, pe_key_id = i, pe_nonce = n, pe_sealed = gcm_seal key n pt (associatedData (envelopeHeader i) a)\<rparr>"
    unfolding env token_envelope_def using parseEnvelope_string [OF i(1) n] by blast
  then show "DecryptRefreshToken a env k = Inr pt"
    using a key i n ring_sound_keys(1) [OF assms] by (cases pt) (simp_all add: DecryptRefreshToken_def crypto_bounds)
qed

lemma encrypt_decrypt:
  assumes "ring_sound k" and "crypto_validAccountID a" and "pt \<noteq> []" and "length pt \<le> MaximumPlaintextBytes"
    and "NonceBytes \<le> length (kr_random k)"
  shows "\<exists>env k'. EncryptRefreshToken a pt k = (Inr env, k') \<and> ring_sound k' \<and> kr_keys k' = kr_keys k \<and>
    DecryptRefreshToken a env k' = Inr pt \<and>
    ParseCredentialEnvelope env = Inr \<lparr>env_text = env, env_key_id = CredentialKeyID (kr_active k)\<rparr>"
proof -
  obtain key where key: "fmlookup (kr_keys k) (kr_active k) = Some key" using ring_sound_keys(2) [OF assms(1)] by blast
  let ?n = "take 12 (kr_random k)" and ?k = "k\<lparr>kr_random := drop 12 (kr_random k)\<rparr>"
  let ?env = "token_envelope (kr_active k) key ?n a pt"
  have n: "length ?n = 12" using assms(5) by (simp add: NonceBytes_def)
  have enc: "EncryptRefreshToken a pt k = (Inr ?env, ?k)"
    using EncryptRefreshToken_eq [OF assms(1) key, of a pt] assms by (simp add: crypto_bounds not_le)
  have snd: "ring_sound ?k" using ring_sound_random [OF assms(1)] .
  have dec: "DecryptRefreshToken a ?env ?k = Inr pt"
  proof -
    have "\<exists>i key n. fmlookup (kr_keys ?k) i = Some key \<and> length n = 12 \<and> ?env = token_envelope i key n a pt"
      using key n by (intro exI [of _ "kr_active k"] exI [of _ key] exI [of _ ?n]) simp
    then show ?thesis using DecryptRefreshToken_iff [OF snd, of a ?env pt] assms(2-4) by (simp add: crypto_bounds)
  qed
  then obtain p where p: "parseEnvelope ?env = Inr p" by (auto simp: DecryptRefreshToken_def split: if_splits sum.splits)
  have "pe_key_id p = kr_active k"
  proof -
    have i: "validKeyID (kr_active k)" "length key = 32" using ring_sound_keys(3) [OF assms(1) key] by auto
    then have "17 \<le> length (gcm_seal key ?n pt aad)" "length (gcm_seal key ?n pt aad) \<le> 4112" for aad
      using n assms(3,4) by (cases pt; simp add: crypto_bounds)+
    then show ?thesis using p parseEnvelope_string [OF i(1) n] unfolding token_envelope_def by auto
  qed
  then show ?thesis using enc snd dec p parse_envelopes [of ?env] by (intro exI [of _ ?env] exI [of _ ?k]) auto
qed

text \<open>
  C8 (token_roundtrip): What the ring encrypts it decrypts. For every legal account identifier and every token of 1 to
  4096 bytes, as long as the random source yields a nonce, encryption succeeds, keeps the keys, produces an
  envelope that the storage layer accepts under the active key identifier, and decryption for the same account
  returns the token.
\<close>

theorem token_roundtrip:
  assumes "ring_sound k" and "crypto_validAccountID a" and "pt \<noteq> []" and "length pt \<le> MaximumPlaintextBytes"
    and "NonceBytes \<le> length (kr_random k)"
  shows "\<exists>env k'. EncryptRefreshToken a pt k = (Inr env, k') \<and> ring_sound k' \<and> kr_keys k' = kr_keys k \<and>
    DecryptRefreshToken a env k' = Inr pt \<and>
    ParseCredentialEnvelope env = Inr \<lparr>env_text = env, env_key_id = CredentialKeyID (kr_active k)\<rparr>"
  by (rule encrypt_decrypt [OF assms])

text \<open>
  C9 (token_authentic): Decryption accepts nothing but what encryption for that account produces: it returns a token
  exactly when the envelope is the AES-GCM seal of that token under a key of the ring, with the envelope header and the
  account identifier as associated data.
\<close>

theorem token_authentic:
  assumes "ring_sound k"
  shows "DecryptRefreshToken a env k = Inr pt \<longleftrightarrow> crypto_validAccountID a \<and> pt \<noteq> [] \<and> length pt \<le> MaximumPlaintextBytes \<and>
    (\<exists>i key n. fmlookup (kr_keys k) i = Some key \<and> length n = NonceBytes \<and>
      env = envelopePrefix @ b64_encode (envelopeHeader i @ n @ gcm_seal key n pt
        (envelopeHeader i @ [CHR 0x00] @ ''gmail'' @ [CHR 0x00] @ ''oauth_refresh_token'' @ [CHR 0x00] @ a)))"
  using DecryptRefreshToken_iff [OF assms] by (simp add: crypto_bounds token_envelope_def envelope_string_eq associatedData_def)

text \<open>
  Rotation re-encrypts exactly the tokens that are not under the active key. When the envelope decrypts,
  rotation either returns it unchanged because its key is the active one, or, if the random source yields a nonce,
  returns an envelope under the active key that decrypts to the same token.
\<close>

theorem token_rotation:
  assumes "ring_sound k" and "DecryptRefreshToken a env k = Inr pt" and "parseEnvelope env = Inr p"
    and "NonceBytes \<le> length (kr_random k)"
  shows "if pe_key_id p = kr_active k then RotateRefreshToken a env k = (Inr (env, False), k)
    else \<exists>env' k' p'. RotateRefreshToken a env k = (Inr (env', True), k') \<and> DecryptRefreshToken a env' k' = Inr pt \<and>
      parseEnvelope env' = Inr p' \<and> pe_key_id p' = kr_active k \<and> kr_keys k' = kr_keys k"
proof -
  have pt: "crypto_validAccountID a" "pt \<noteq> []" "length pt \<le> MaximumPlaintextBytes"
    using assms(2) DecryptRefreshToken_iff [OF assms(1)] by (auto simp: crypto_bounds)
  from encrypt_decrypt [OF assms(1) pt assms(4)] obtain env' k' where e: "EncryptRefreshToken a pt k = (Inr env', k')"
    "kr_keys k' = kr_keys k" "DecryptRefreshToken a env' k' = Inr pt"
    "ParseCredentialEnvelope env' = Inr \<lparr>env_text = env', env_key_id = CredentialKeyID (kr_active k)\<rparr>" by blast
  obtain p' where "parseEnvelope env' = Inr p'" "pe_key_id p' = kr_active k" using parse_envelopes e(4) by blast
  then show ?thesis using assms(2,3) e ring_sound_keys(1) [OF assms(1)] by (simp add: RotateRefreshToken_def)
qed

text \<open>
  A closed keyring is useless and holds no key: closing succeeds once, overwrites every key with zeros,
  and afterwards closing, encoding, and every encryption or decryption with legal arguments report the closed ring.
\<close>

theorem closed_keyring:
  assumes "ring_sound k" and "keyring_Close k = (r, k')"
  shows "r = None \<and> keyring_Close k' = (Some (CryptoErr ErrClosedKeyring), k') \<and>
    keyring_Encode k' = Inl (CryptoErr ErrClosedKeyring) \<and>
    (\<forall>i key. fmlookup (kr_keys k') i = Some key \<longrightarrow> key = replicate KeyBytes (CHR 0x00)) \<and>
    (\<forall>a pt. fst (EncryptRefreshToken a pt k') \<in> {Inl (CryptoErr ErrInvalidBinding), Inl (CryptoErr ErrInvalidPlaintext),
       Inl (CryptoErr ErrClosedKeyring)}) \<and>
    (\<forall>a env pt. DecryptRefreshToken a env k' \<noteq> Inr pt)"
proof -
  have "r = None \<and> k' = (destroy k)\<lparr>kr_closed := True\<rparr>"
    using assms ring_sound_keys(1) [OF assms(1)] by (auto simp: keyring_Close_def)
  then show ?thesis using ring_sound_keys(3) [OF assms(1)]
    by (auto simp: keyring_Close_def keyring_Encode_def encodeLocked_def destroy_def EncryptRefreshToken_def
        DecryptRefreshToken_def KeyBytes_def split: sum.splits)
qed

text \<open>
  The two packages that read credential envelopes agree: the storage layer accepts a text under a
  key identifier exactly when the encryption package parses it and reads the same key identifier.
\<close>

theorem envelope_readers_agree:
  "ParseCredentialEnvelope t = Inr \<lparr>env_text = t, env_key_id = CredentialKeyID i\<rparr> \<longleftrightarrow>
    (\<exists>p. parseEnvelope t = Inr p \<and> pe_key_id p = i)"
  by (rule parse_envelopes [symmetric])

section \<open>A ring\<close>

definition demo_entries :: "key_entry list" where
  "demo_entries = [(''k2'', replicate 32 (CHR 0x02)), (''k1'', replicate 32 (CHR 0x01))]"

definition demo_ring :: keyring where
  "demo_ring = ring_of (replicate 24 (CHR 0x07)) demo_entries"

lemma demo_ring_sound: "ring_sound demo_ring"
proof -
  have "validKeyID ''k1''" "validKeyID ''k2''" by code_simp+
  then have "ring_wf demo_entries" by (simp add: ring_wf_def demo_entries_def)
  then show ?thesis by (auto simp: ring_sound_def demo_ring_def demo_entries_def)
qed

definition demo_account_text :: string where
  "demo_account_text = ''0123456789abcdef0123456789abcdef''"

lemma demo_account_text_valid: "crypto_validAccountID demo_account_text"
  by code_simp

lemma demo_ring_fields: "kr_random demo_ring = replicate 24 (CHR 0x07)" "kr_active demo_ring = ''k2''"
  "fmlookup (kr_keys demo_ring) ''k1'' = Some (replicate 32 (CHR 0x01))"
  by (simp_all add: demo_ring_def ring_of_def demo_entries_def ring_keys_def)

theorem token_roundtrip_witness:
  "\<exists>env k'. EncryptRefreshToken demo_account_text ''token'' demo_ring = (Inr env, k') \<and>
    DecryptRefreshToken demo_account_text env k' = Inr ''token''"
  using token_roundtrip [OF demo_ring_sound demo_account_text_valid, of "''token''"]
  by (auto simp: crypto_bounds demo_ring_fields)

definition demo_old_envelope :: string where
  "demo_old_envelope = token_envelope ''k1'' (replicate 32 (CHR 0x01)) (replicate 12 (CHR 0x05)) demo_account_text ''token''"

theorem token_authentic_witness: "DecryptRefreshToken demo_account_text demo_old_envelope demo_ring = Inr ''token''"
proof -
  have "demo_old_envelope = envelopePrefix @ b64_encode (envelopeHeader ''k1'' @ replicate 12 (CHR 0x05) @
      gcm_seal (replicate 32 (CHR 0x01)) (replicate 12 (CHR 0x05)) ''token'' (associatedData (envelopeHeader ''k1'') demo_account_text))"
    by (simp add: demo_old_envelope_def token_envelope_def envelope_string_eq)
  then have "\<exists>i key n. fmlookup (kr_keys demo_ring) i = Some key \<and> length n = NonceBytes \<and> demo_old_envelope =
      envelopePrefix @ b64_encode (envelopeHeader i @ n @ gcm_seal key n ''token'' (associatedData (envelopeHeader i) demo_account_text))"
    using demo_ring_fields(3)
    by (intro exI [of _ "''k1''"] exI [of _ "replicate 32 (CHR 0x01)"] exI [of _ "replicate 12 (CHR 0x05)"]) (simp add: NonceBytes_def)
  then show ?thesis unfolding associatedData_def
    using token_authentic [OF demo_ring_sound, of demo_account_text demo_old_envelope "''token''"] demo_account_text_valid
    by (simp add: MaximumPlaintextBytes_def)
qed

lemma demo_old_decrypts: "DecryptRefreshToken demo_account_text demo_old_envelope demo_ring = Inr ''token''"
proof -
  have "\<exists>i key n. fmlookup (kr_keys demo_ring) i = Some key \<and> length n = 12 \<and>
      demo_old_envelope = token_envelope i key n demo_account_text ''token''"
    using demo_ring_fields(3)
    by (intro exI [of _ "''k1''"] exI [of _ "replicate 32 (CHR 0x01)"] exI [of _ "replicate 12 (CHR 0x05)"])
      (simp add: demo_old_envelope_def)
  then show ?thesis using DecryptRefreshToken_iff [OF demo_ring_sound] demo_account_text_valid by simp
qed

lemma demo_old_key: "\<exists>p. parseEnvelope demo_old_envelope = Inr p \<and> pe_key_id p = ''k1''"
proof -
  have "validKeyID ''k1''" by code_simp
  from parseEnvelope_string [OF this] show ?thesis unfolding demo_old_envelope_def token_envelope_def by simp
qed

theorem token_rotation_witness:
  "\<exists>env' k'. RotateRefreshToken demo_account_text demo_old_envelope demo_ring = (Inr (env', True), k') \<and>
    DecryptRefreshToken demo_account_text env' k' = Inr ''token''"
proof -
  obtain p where p: "parseEnvelope demo_old_envelope = Inr p" "pe_key_id p = ''k1''" using demo_old_key by blast
  show ?thesis
    using token_rotation [OF demo_ring_sound demo_old_decrypts p(1)] p(2)
    by (auto simp: demo_ring_fields crypto_bounds)
qed

theorem closed_keyring_witness: "keyring_Encode (snd (keyring_Close demo_ring)) = Inl (CryptoErr ErrClosedKeyring)"
  using closed_keyring [OF demo_ring_sound, of "fst (keyring_Close demo_ring)" "snd (keyring_Close demo_ring)"] by simp

end
