(* ===== verification/Account_Manager.thy ===== *)
theory Account_Manager
  imports Store_Histories Cryptobox "HOL-Library.State_Monad"
begin

text \<open>
  \<^verbatim>\<open>internal/account/lifecycle.go\<close>: the operator's account operations. The manager runs in a world of
  type \<open>'w\<close> that holds whatever its collaborators keep: the storage handle and the HTTP transport are
  records of state transformers on that world, and the manager's methods are state transformers
  built from them in the order of the code. A context is known to the manager only by name: the
  caller's context or the clean-up context; what it reports when the store or the transport looks at
  it is part of the world.
\<close>

section \<open>Collaborators\<close>

datatype context_name = CallerContext | CleanupContext

record 'w handle =
  h_ListAccounts :: "context_name \<Rightarrow> ('w, account_summary list res) state"
  h_GetAccountLifecycle :: "context_name \<Rightarrow> account_id \<Rightarrow> ('w, account_lifecycle res) state"
  h_CommitAccountLifecycle :: "context_name \<Rightarrow> lifecycle_commit \<Rightarrow> ('w, go_error option) state"
  h_GetProviderCredential :: "context_name \<Rightarrow> account_id \<Rightarrow> ('w, provider_credential res) state"
  h_DeleteRevokedProviderCredential :: "context_name \<Rightarrow> revoked_credential_delete \<Rightarrow> ('w, go_error option) state"

text \<open>
  The outcome of one POST request: the request cannot be built, the exchange fails, or there is a
  response with a status and a body, \<open>None\<close> when reading the body fails. The error next to the last
  two is what the request's context reports afterwards.
\<close>

datatype http_reply =
    RequestInvalid
  | ExchangeFailed ctx
  | Response int "string option" ctx

record 'w manager =
  m_store :: "'w handle option"
  m_resolveKeyring :: "keyring option res"
  m_revocationEndpoint :: string
  m_transport :: "string \<Rightarrow> string \<Rightarrow> ('w, http_reply) state"

definition productionRevocationEndpoint :: string where
  "productionRevocationEndpoint = ''https://oauth2.googleapis.com/revoke''"

definition maximumRevocationBodyBytes :: nat where
  "maximumRevocationBodyBytes = 16384"

type_synonym revocation_result = string

definition RevocationConfirmed :: revocation_result where "RevocationConfirmed = ''confirmed''"
definition RevocationManual :: revocation_result where "RevocationManual = ''manual''"

definition newManagerWithResolver ::
  "'w handle option \<Rightarrow> keyring option res \<Rightarrow> string \<Rightarrow> (string \<Rightarrow> string \<Rightarrow> ('w, http_reply) state) \<Rightarrow> 'w manager" where
  "newManagerWithResolver store resolver endpoint transport =
    \<lparr>m_store = store, m_resolveKeyring = resolver,
     m_revocationEndpoint = (if endpoint = [] then productionRevocationEndpoint else endpoint), m_transport = transport\<rparr>"

definition NewManager :: "'w handle option \<Rightarrow> keyring option \<Rightarrow> (string \<Rightarrow> string \<Rightarrow> ('w, http_reply) state) \<Rightarrow> 'w manager" where
  "NewManager store ring transport = newManagerWithResolver store
     (case ring of None \<Rightarrow> Inl ErrRecoveryRequired | Some k \<Rightarrow> Inr (Some k)) [] transport"

section \<open>Errors\<close>

definition fixedProviderError :: "ctx \<Rightarrow> go_error" where
  "fixedProviderError ctx = (case ctx of Some e \<Rightarrow> ErrJoin ErrProviderRevocation e | None \<Rightarrow> ErrProviderRevocation)"

definition fixedStorageError :: "go_error \<Rightarrow> go_error" where
  "fixedStorageError e =
    (if errors_is e Canceled \<or> errors_is e DeadlineExceeded then ErrJoin ErrRecoveryRequired e
     else if errors_is e (StorageErr ErrAccountNotFound) then ErrTransition
     else ErrRecoveryRequired)"

section \<open>State transitions\<close>

definition manager_List :: "'w manager \<Rightarrow> ('w, account_summary list res) state" where
  "manager_List m = (case m_store m of
     None \<Rightarrow> State_Monad.return (Inl ErrRecoveryRequired)
   | Some h \<Rightarrow> h_ListAccounts h CallerContext)"

definition transition ::
  "'w manager \<Rightarrow> account_id \<Rightarrow> account_state \<Rightarrow> account_state \<Rightarrow> reauthorization_reason option \<Rightarrow> revocation_status \<Rightarrow>
    account_state \<Rightarrow> ('w, go_error option) state" where
  "transition m a expected nxt reason revocation idempotent =
    (case m_store m of
       None \<Rightarrow> State_Monad.return (Some ErrRecoveryRequired)
     | Some h \<Rightarrow> do {
         got \<leftarrow> h_GetAccountLifecycle h CallerContext a;
         (case got of
            Inl e \<Rightarrow> State_Monad.return (Some (fixedStorageError e))
          | Inr current \<Rightarrow>
              if lc_state current = idempotent then
                State_Monad.return (if idempotent = AccountStateReauthorizationRequired \<and>
                    (lc_reason current = None \<or> reason = None \<or> lc_reason current \<noteq> reason)
                  then Some ErrTransition else None)
              else if lc_state current \<noteq> expected then State_Monad.return (Some ErrTransition)
              else
                let commit = \<lparr>cm_account = a, cm_expected_state = lc_state current, cm_expected_version = lc_version current,
                      cm_expected_revocation = lc_revocation current, cm_next_state = nxt, cm_reason = reason,
                      cm_revocation = revocation\<rparr>
                in do {
                  committed \<leftarrow> h_CommitAccountLifecycle h CallerContext commit;
                  (case committed of
                     None \<Rightarrow> State_Monad.return None
                   | Some _ \<Rightarrow> do {
                       verified \<leftarrow> h_GetAccountLifecycle h CallerContext a;
                       State_Monad.return (case verified of
                           Inr v \<Rightarrow> if LifecycleMatchesCommit v commit then None else Some ErrTransition
                         | Inl _ \<Rightarrow> Some ErrRecoveryRequired)
                     })
                })
       })"

definition Pause :: "'w manager \<Rightarrow> account_id \<Rightarrow> ('w, go_error option) state" where
  "Pause m a = transition m a AccountStateActive AccountStatePaused None RevocationStatusNone AccountStatePaused"

definition Resume :: "'w manager \<Rightarrow> account_id \<Rightarrow> ('w, go_error option) state" where
  "Resume m a = transition m a AccountStatePaused AccountStateActive None RevocationStatusNone AccountStateActive"

definition MarkReauthorizationRequired :: "'w manager \<Rightarrow> account_id \<Rightarrow> reauthorization_reason \<Rightarrow> ('w, go_error option) state" where
  "MarkReauthorizationRequired m a reason = transition m a AccountStateActive AccountStateReauthorizationRequired (Some reason)
     RevocationStatusNone AccountStateReauthorizationRequired"

section \<open>Revocation\<close>

text \<open>\<^verbatim>\<open>url.QueryEscape\<close>, and \<^verbatim>\<open>url.Values\<close> with the one key \<^verbatim>\<open>token\<close>.\<close>

definition query_escape_char :: "char \<Rightarrow> string" where
  "query_escape_char c =
    (if in_range 65 90 c \<or> in_range 97 122 c \<or> in_range 48 57 c \<or> c \<in> set ''-_.~'' then [c]
     else if c = CHR '' '' then ''+''
     else let d = (\<lambda>n. if n < 10 then char_of (48 + n) else char_of (55 + n)) in
       [CHR 0x25, d (bval c div 16), d (bval c mod 16)])"

definition token_form :: "string \<Rightarrow> string" where
  "token_form token = ''token='' @ concat (map query_escape_char token)"

definition revokeProvider :: "'w manager \<Rightarrow> string \<Rightarrow> ('w, bool \<times> go_error option) state" where
  "revokeProvider m token = do {
     reply \<leftarrow> m_transport m (m_revocationEndpoint m) (token_form token);
     State_Monad.return (case reply of
         RequestInvalid \<Rightarrow> (False, Some ErrProviderRevocation)
       | ExchangeFailed c \<Rightarrow> (False, Some (fixedProviderError c))
       | Response status body c \<Rightarrow>
           (case map_option (take (maximumRevocationBodyBytes + 1)) body of
              None \<Rightarrow> (False, Some (fixedProviderError c))
            | Some responseBody \<Rightarrow>
                if length responseBody > maximumRevocationBodyBytes then (False, Some (fixedProviderError c))
                else (status = 200, None)))
   }"

definition deleteCredential :: "'w handle \<Rightarrow> context_name \<Rightarrow> account_id \<Rightarrow> credential_envelope \<Rightarrow> ('w, go_error option) state" where
  "deleteCredential h ctx a envelope = do {
     deleted \<leftarrow> h_DeleteRevokedProviderCredential h ctx \<lparr>rcd_account = a, rcd_expected = envelope\<rparr>;
     (case deleted of
        Some _ \<Rightarrow> do {
          inspected \<leftarrow> h_GetProviderCredential h ctx a;
          State_Monad.return (case inspected of
              Inl e \<Rightarrow> if errors_is e (StorageErr ErrCredentialNotFound) then None else Some ErrRecoveryRequired
            | Inr _ \<Rightarrow> Some ErrRecoveryRequired)
        }
      | None \<Rightarrow> do {
          left \<leftarrow> h_GetProviderCredential h ctx a;
          State_Monad.return (case left of
              Inl e \<Rightarrow> if errors_is e (StorageErr ErrCredentialNotFound) then None else Some ErrRecoveryRequired
            | Inr _ \<Rightarrow> Some ErrRecoveryRequired)
        })
   }"

definition finalizeAttemptWithContext ::
  "'w handle \<Rightarrow> context_name \<Rightarrow> account_lifecycle \<Rightarrow> provider_credential option \<Rightarrow> revocation_status \<Rightarrow> go_error option \<Rightarrow>
    ('w, revocation_result \<times> go_error option) state" where
  "finalizeAttemptWithContext h ctx l credential status providerErr =
    (let final = \<lparr>cm_account = lc_account l, cm_expected_state = AccountStateRevoked, cm_expected_version = lc_version l,
           cm_expected_revocation = RevocationStatusAttempting, cm_next_state = AccountStateRevoked, cm_reason = None,
           cm_revocation = status\<rparr>;
         finish = do {
           deleted \<leftarrow> (case credential of
               None \<Rightarrow> State_Monad.return None
             | Some c \<Rightarrow> deleteCredential h ctx (lc_account l) (cred_envelope c));
           State_Monad.return (case deleted of
               Some e \<Rightarrow> ([], Some e)
             | None \<Rightarrow> if status = RevocationStatusConfirmed then (RevocationConfirmed, None) else (RevocationManual, providerErr))
         }
     in do {
       committed \<leftarrow> h_CommitAccountLifecycle h ctx final;
       (case committed of
          None \<Rightarrow> finish
        | Some _ \<Rightarrow> do {
            verified \<leftarrow> h_GetAccountLifecycle h ctx (lc_account l);
            (case verified of
               Inl _ \<Rightarrow> State_Monad.return ([], Some ErrRecoveryRequired)
             | Inr v \<Rightarrow> if LifecycleMatchesCommit v final then finish
                        else State_Monad.return ([], Some ErrRecoveryRequired))
          })
     })"

definition finalizeAttempt ::
  "'w handle \<Rightarrow> account_lifecycle \<Rightarrow> provider_credential option \<Rightarrow> revocation_status \<Rightarrow> go_error option \<Rightarrow>
    ('w, revocation_result \<times> go_error option) state" where
  "finalizeAttempt h l credential status providerErr = finalizeAttemptWithContext h CleanupContext l credential status providerErr"

definition finalizeWithoutProvider :: "'w handle \<Rightarrow> account_lifecycle \<Rightarrow> ('w, revocation_result \<times> go_error option) state" where
  "finalizeWithoutProvider h l = do {
     got \<leftarrow> h_GetProviderCredential h CleanupContext (lc_account l);
     (case got of
        Inl e \<Rightarrow>
          if errors_is e (StorageErr ErrCredentialNotFound)
          then finalizeAttemptWithContext h CleanupContext l None RevocationStatusManualActionRequired (Some ErrProviderRevocation)
          else State_Monad.return ([], Some ErrRecoveryRequired)
      | Inr credential \<Rightarrow> finalizeAttemptWithContext h CleanupContext l (Some credential)
          RevocationStatusManualActionRequired (Some ErrProviderRevocation))
   }"

definition reconcileFinalized :: "'w handle \<Rightarrow> account_lifecycle \<Rightarrow> ('w, revocation_result \<times> go_error option) state" where
  "reconcileFinalized h l =
    (let answer = (if lc_revocation l = RevocationStatusConfirmed then (RevocationConfirmed, None)
                   else (RevocationManual, Some ErrProviderRevocation))
     in do {
       got \<leftarrow> h_GetProviderCredential h CallerContext (lc_account l);
       (case got of
          Inr credential \<Rightarrow> do {
            deleted \<leftarrow> deleteCredential h CallerContext (lc_account l) (cred_envelope credential);
            State_Monad.return (case deleted of Some e \<Rightarrow> ([], Some e) | None \<Rightarrow> answer)
          }
        | Inl e \<Rightarrow> State_Monad.return
            (if errors_is e (StorageErr ErrCredentialNotFound) then answer else ([], Some ErrRecoveryRequired)))
     })"

text \<open>The first part of \<^verbatim>\<open>Revoke\<close>: how many transitions are left, and the errors found on the way.\<close>

definition remaining_transitions :: "account_lifecycle \<Rightarrow> int res" where
  "remaining_transitions l =
    (if lc_state l = AccountStateRevoked then
       (case lc_revocation l of
          RevocationStatusPending \<Rightarrow> Inr 2
        | RevocationStatusAttempting \<Rightarrow> Inr 1
        | _ \<Rightarrow> Inl ErrRecoveryRequired)
     else if lc_state l \<noteq> AccountStatePending \<and> lc_state l \<noteq> AccountStateActive \<and> lc_state l \<noteq> AccountStatePaused \<and>
             lc_state l \<noteq> AccountStateReauthorizationRequired
     then Inl ErrTransition
     else Inr 3)"

text \<open>The intent: an account that is not yet revoked becomes revoked, with the provider still to be told.\<close>

definition revoke_intent :: "'w handle \<Rightarrow> account_id \<Rightarrow> account_lifecycle \<Rightarrow> ('w, account_lifecycle res) state" where
  "revoke_intent h a l =
    (let intent = \<lparr>cm_account = a, cm_expected_state = lc_state l, cm_expected_version = lc_version l,
           cm_expected_revocation = lc_revocation l, cm_next_state = AccountStateRevoked, cm_reason = None,
           cm_revocation = RevocationStatusPending\<rparr>;
         reread = do {
           again \<leftarrow> h_GetAccountLifecycle h CallerContext a;
           State_Monad.return (case again of
               Inl _ \<Rightarrow> Inl ErrRecoveryRequired
             | Inr l' \<Rightarrow> if LifecycleMatchesCommit l' intent then Inr l' else Inl ErrRecoveryRequired)
         }
     in do {
       committed \<leftarrow> h_CommitAccountLifecycle h CallerContext intent;
       (case committed of
          None \<Rightarrow> reread
        | Some _ \<Rightarrow> do {
            verified \<leftarrow> h_GetAccountLifecycle h CallerContext a;
            (case verified of
               Inl _ \<Rightarrow> State_Monad.return (Inl ErrRecoveryRequired)
             | Inr v \<Rightarrow> if LifecycleMatchesCommit v intent then reread else State_Monad.return (Inl ErrRecoveryRequired))
          })
     })"

text \<open>After the claim: tell the provider, once, and record what it answered.\<close>

definition contact_provider :: "'w manager \<Rightarrow> 'w handle \<Rightarrow> account_id \<Rightarrow> account_lifecycle \<Rightarrow> provider_credential \<Rightarrow>
    ('w, revocation_result \<times> go_error option) state" where
  "contact_provider m h a claimed credential =
    (let manual = finalizeAttempt h claimed (Some credential) RevocationStatusManualActionRequired (Some ErrProviderRevocation)
     in case m_resolveKeyring m of
       Inr (Some ring) \<Rightarrow>
         (case DecryptRefreshToken (account_id_string a) (env_text (cred_envelope credential)) ring of
            Inl _ \<Rightarrow> manual
          | Inr plaintext \<Rightarrow> do {
              (confirmed, requestErr) \<leftarrow> revokeProvider m plaintext;
              (if requestErr = None \<and> confirmed
               then finalizeAttempt h claimed (Some credential) RevocationStatusConfirmed None
               else manual)
            })
     | _ \<Rightarrow> manual)"

definition claim_and_contact :: "'w manager \<Rightarrow> 'w handle \<Rightarrow> account_id \<Rightarrow> account_lifecycle \<Rightarrow>
    ('w, revocation_result \<times> go_error option) state" where
  "claim_and_contact m h a l =
    (let claim = \<lparr>cm_account = a, cm_expected_state = AccountStateRevoked, cm_expected_version = lc_version l,
           cm_expected_revocation = RevocationStatusPending, cm_next_state = AccountStateRevoked, cm_reason = None,
           cm_revocation = RevocationStatusAttempting\<rparr>
     in do {
       won \<leftarrow> h_CommitAccountLifecycle h CallerContext claim;
       (case won of
          Some _ \<Rightarrow> State_Monad.return ([], Some ErrRecoveryRequired)
        | None \<Rightarrow> do {
            got \<leftarrow> h_GetAccountLifecycle h CallerContext a;
            (case got of
               Inl _ \<Rightarrow> State_Monad.return ([], Some ErrRecoveryRequired)
             | Inr claimed \<Rightarrow>
                 if \<not> LifecycleMatchesCommit claimed claim \<or> lc_version claimed \<noteq> int64_add (lc_version l) 1
                 then State_Monad.return ([], Some ErrRecoveryRequired)
                 else do {
                   credential \<leftarrow> h_GetProviderCredential h CallerContext a;
                   (case credential of
                      Inl e \<Rightarrow>
                        if errors_is e (StorageErr ErrCredentialNotFound)
                        then finalizeAttempt h claimed None RevocationStatusManualActionRequired (Some ErrProviderRevocation)
                        else State_Monad.return ([], Some ErrRecoveryRequired)
                    | Inr c \<Rightarrow> contact_provider m h a claimed c)
                 })
          })
     })"

definition Revoke :: "'w manager \<Rightarrow> account_id \<Rightarrow> ('w, revocation_result \<times> go_error option) state" where
  "Revoke m a =
    (case m_store m of
       None \<Rightarrow> State_Monad.return ([], Some ErrRecoveryRequired)
     | Some h \<Rightarrow> do {
         got \<leftarrow> h_GetAccountLifecycle h CallerContext a;
         (case got of
            Inl e \<Rightarrow> State_Monad.return ([], Some (fixedStorageError e))
          | Inr l \<Rightarrow>
              if lc_state l = AccountStateRevoked \<and> (lc_revocation l = RevocationStatusConfirmed \<or>
                   lc_revocation l = RevocationStatusManualActionRequired)
              then reconcileFinalized h l
              else case remaining_transitions l of
                Inl e \<Rightarrow> State_Monad.return ([], Some e)
              | Inr remaining \<Rightarrow>
                  if lc_version l > MaxInt64 - remaining then State_Monad.return ([], Some ErrRecoveryRequired)
                  else do {
                    ready \<leftarrow> (if lc_state l \<noteq> AccountStateRevoked then revoke_intent h a l else State_Monad.return (Inr l));
                    (case ready of
                       Inl e \<Rightarrow> State_Monad.return ([], Some e)
                     | Inr l' \<Rightarrow>
                         if lc_revocation l' = RevocationStatusAttempting then finalizeWithoutProvider h l'
                         else if lc_revocation l' \<noteq> RevocationStatusPending then State_Monad.return ([], Some ErrRecoveryRequired)
                         else claim_and_contact m h a l')
                  })
       })"

section \<open>What the manager relies on\<close>

text \<open>Partial-correctness triples for state transformers (every transformer here is a total function).\<close>

definition triple :: "('w \<Rightarrow> bool) \<Rightarrow> ('w, 'a) state \<Rightarrow> ('a \<Rightarrow> 'w \<Rightarrow> bool) \<Rightarrow> bool" where
  "triple P m Q \<longleftrightarrow> (\<forall>w. P w \<longrightarrow> Q (fst (run_state m w)) (snd (run_state m w)))"

lemma triple_return: "(\<And>w. P w \<Longrightarrow> Q x w) \<Longrightarrow> triple P (State_Monad.return x) Q"
  by (simp add: triple_def)

lemma triple_bind: "triple P m R \<Longrightarrow> (\<And>x. triple (R x) (f x) Q) \<Longrightarrow> triple P (State_Monad.bind m f) Q"
  by (simp add: triple_def split_beta)

lemma triple_weaken: "triple P m Q \<Longrightarrow> (\<And>w. P' w \<Longrightarrow> P w) \<Longrightarrow> (\<And>r w. Q r w \<Longrightarrow> Q' r w) \<Longrightarrow> triple P' m Q'"
  by (simp add: triple_def)

lemma triple_if: "(b \<Longrightarrow> triple P m Q) \<Longrightarrow> (\<not> b \<Longrightarrow> triple P n Q) \<Longrightarrow> triple P (if b then m else n) Q"
  by simp

lemma triple_option: "(o' = None \<Longrightarrow> triple P m Q) \<Longrightarrow> (\<And>x. o' = Some x \<Longrightarrow> triple P (f x) Q) \<Longrightarrow>
    triple P (case o' of None \<Rightarrow> m | Some x \<Rightarrow> f x) Q"
  by (cases o') simp_all

lemma triple_sum: "(\<And>e. s' = Inl e \<Longrightarrow> triple P (f e) Q) \<Longrightarrow> (\<And>x. s' = Inr x \<Longrightarrow> triple P (g x) Q) \<Longrightarrow>
    triple P (case s' of Inl e \<Rightarrow> f e | Inr x \<Rightarrow> g x) Q"
  by (cases s') simp_all

lemma triple_assume: "(c \<Longrightarrow> triple P m Q) \<Longrightarrow> triple (\<lambda>w. P w \<and> c) m Q"
  by (auto simp: triple_def)

lemmas triple_rules = triple_bind triple_if triple_option triple_sum triple_return

abbreviation final_status :: "revocation_status \<Rightarrow> bool" where
  "final_status st \<equiv> st = RevocationStatusConfirmed \<or> st = RevocationStatusManualActionRequired"

locale revocation_handle =
  fixes h :: "'w handle" and good :: "'w \<Rightarrow> bool" and later :: "'w \<Rightarrow> 'w \<Rightarrow> bool" and calls :: "'w \<Rightarrow> nat"
    and lifecycle :: "'w \<Rightarrow> account_id \<Rightarrow> account_lifecycle option" and credential :: "'w \<Rightarrow> account_id \<Rightarrow> provider_credential option"
    and rank :: "'w \<Rightarrow> account_id \<Rightarrow> nat"
  assumes later_refl: "later w w"
    and later_trans: "later u v \<Longrightarrow> later v w \<Longrightarrow> later u w"
    and rank_eq: "lifecycle w a = Some l \<Longrightarrow> rank w a = revocation_rank (status_of l)"
    and later_rank: "good w \<Longrightarrow> later w w' \<Longrightarrow> rank w a \<le> rank w' a"
    and later_final: "good w \<Longrightarrow> later w w' \<Longrightarrow> lifecycle w a = Some l \<Longrightarrow> status_of l = (AccountStateRevoked, st) \<Longrightarrow>
      final_status st \<Longrightarrow> \<exists>l'. lifecycle w' a = Some l' \<and> status_of l' = (AccountStateRevoked, st)"
    and later_gone: "good w \<Longrightarrow> later w w' \<Longrightarrow> 1 \<le> rank w a \<Longrightarrow> credential w a = None \<Longrightarrow> credential w' a = None"
    and get_lifecycle: "good w \<Longrightarrow> run_state (h_GetAccountLifecycle h c a) w = (r, w') \<Longrightarrow>
      good w' \<and> later w w' \<and> calls w' = calls w \<and> (\<forall>l. r = Inr l \<longrightarrow> lifecycle w' a = Some l \<and> lc_account l = a)"
    and commit_lifecycle: "good w \<Longrightarrow> run_state (h_CommitAccountLifecycle h c cm) w = (r', w') \<Longrightarrow>
      good w' \<and> later w w' \<and> calls w' = calls w \<and> (r' = None \<longrightarrow>
        (\<exists>l. lifecycle w' (cm_account cm) = Some l \<and> status_of l = (cm_next_state cm, cm_revocation cm)) \<and>
        (LifecycleCommitIsRevocationClaim cm \<longrightarrow> rank w (cm_account cm) \<le> 1))"
    and get_credential: "good w \<Longrightarrow> run_state (h_GetProviderCredential h c a) w = (r'', w') \<Longrightarrow>
      good w' \<and> later w w' \<and> calls w' = calls w \<and>
      (\<forall>e. r'' = Inl e \<and> errors_is e (StorageErr ErrCredentialNotFound) \<longrightarrow> credential w' a = None)"
    and delete_credential: "good w \<Longrightarrow> run_state (h_DeleteRevokedProviderCredential h c d) w = (r', w') \<Longrightarrow>
      good w' \<and> later w w' \<and> calls w' = calls w"
begin

text \<open>What the manager knows of the world at a point of a run on account \<open>a\<close> that started in \<open>u\<close>.\<close>

definition revoked_as :: "'w \<Rightarrow> account_id \<Rightarrow> revocation_status \<Rightarrow> bool" where
  "revoked_as w a st \<longleftrightarrow> (\<exists>l. lifecycle w a = Some l \<and> status_of l = (AccountStateRevoked, st))"

definition know :: "'w \<Rightarrow> account_id \<Rightarrow> nat \<Rightarrow> nat \<Rightarrow> revocation_status option \<Rightarrow> bool \<Rightarrow> 'w \<Rightarrow> bool" where
  "know u a k n fin gone w \<longleftrightarrow> good w \<and> later u w \<and> calls w = k \<and> n \<le> rank w a \<and>
     (\<forall>st. fin = Some st \<longrightarrow> revoked_as w a st \<and> final_status st) \<and> (gone \<longrightarrow> credential w a = None \<and> 1 \<le> rank w a)"

lemma revoked_rank: "revoked_as w a st \<Longrightarrow> rank w a = revocation_rank (AccountStateRevoked, st)"
  unfolding revoked_as_def using rank_eq by metis

lemma know_step:
  assumes "know u a k n fin gone w" and "good w'" and "later w w'" and "calls w' = k'"
  shows "know u a k' n fin gone w'"
proof -
  have "rank w a \<le> rank w' a" using assms later_rank by (simp add: know_def)
  moreover have "revoked_as w' a st" if "revoked_as w a st" "final_status st" for st
    using that assms later_final unfolding revoked_as_def know_def by blast
  moreover have "credential w' a = None" if "gone" using that assms later_gone [of w w' a] by (simp add: know_def)
  moreover have "later u w'" using assms later_trans by (auto simp: know_def)
  ultimately show ?thesis using assms by (auto simp: know_def)
qed

lemma get_lifecycle_triple:
  "triple (know u a k n fin gone) (h_GetAccountLifecycle h c a)
    (\<lambda>r w. know u a k n fin gone w \<and> (\<forall>l. r = Inr l \<longrightarrow> lifecycle w a = Some l \<and> lc_account l = a))"
  unfolding triple_def
proof (intro allI impI)
  fix w assume w: "know u a k n fin gone w"
  obtain r w' where run: "run_state (h_GetAccountLifecycle h c a) w = (r, w')" by fastforce
  note g = get_lifecycle [OF _ run]
  have "good w" "calls w = k" using w by (simp_all add: know_def)
  then show "know u a k n fin gone (snd (run_state (h_GetAccountLifecycle h c a) w)) \<and>
      (\<forall>l. fst (run_state (h_GetAccountLifecycle h c a) w) = Inr l \<longrightarrow>
        lifecycle (snd (run_state (h_GetAccountLifecycle h c a) w)) a = Some l \<and> lc_account l = a)"
    using g know_step [OF w, of w' k] run by simp
qed

lemma get_credential_triple:
  "triple (know u a k n fin gone) (h_GetProviderCredential h c a)
    (\<lambda>r w. know u a k n fin gone w \<and> (\<forall>e. r = Inl e \<and> errors_is e (StorageErr ErrCredentialNotFound) \<longrightarrow> credential w a = None))"
  unfolding triple_def
proof (intro allI impI)
  fix w assume w: "know u a k n fin gone w"
  obtain r w' where run: "run_state (h_GetProviderCredential h c a) w = (r, w')" by fastforce
  have "good w" "calls w = k" using w by (simp_all add: know_def)
  then show "know u a k n fin gone (snd (run_state (h_GetProviderCredential h c a) w)) \<and>
      (\<forall>e. fst (run_state (h_GetProviderCredential h c a) w) = Inl e \<and> errors_is e (StorageErr ErrCredentialNotFound) \<longrightarrow>
        credential (snd (run_state (h_GetProviderCredential h c a) w)) a = None)"
    using get_credential [OF _ run] know_step [OF w, of w' k] run by simp
qed

lemma delete_credential_triple:
  "triple (know u a k n fin gone) (h_DeleteRevokedProviderCredential h c d) (\<lambda>r. know u a k n fin gone)"
  unfolding triple_def
proof (intro allI impI)
  fix w assume w: "know u a k n fin gone w"
  obtain r w' where run: "run_state (h_DeleteRevokedProviderCredential h c d) w = (r, w')" by fastforce
  have "good w" "calls w = k" using w by (simp_all add: know_def)
  then show "know u a k n fin gone (snd (run_state (h_DeleteRevokedProviderCredential h c d) w))"
    using delete_credential [OF _ run] know_step [OF w, of w' k] run by simp
qed

lemma commit_triple:
  assumes "cm_account cm = a"
  shows "triple (know u a k n fin gone) (h_CommitAccountLifecycle h c cm)
    (\<lambda>r w. know u a k n fin gone w \<and> (r = None \<longrightarrow>
      (\<exists>l. lifecycle w a = Some l \<and> status_of l = (cm_next_state cm, cm_revocation cm)) \<and>
      (LifecycleCommitIsRevocationClaim cm \<longrightarrow> rank u a \<le> 1 \<or> \<not> good u)))"
  unfolding triple_def
proof (intro allI impI)
  fix w assume w: "know u a k n fin gone w"
  obtain r w' where run: "run_state (h_CommitAccountLifecycle h c cm) w = (r, w')" by fastforce
  have g: "good w" "calls w = k" "later u w" using w by (simp_all add: know_def)
  have "good u \<Longrightarrow> rank u a \<le> rank w a" using later_rank g(3) by blast
  then show "know u a k n fin gone (snd (run_state (h_CommitAccountLifecycle h c cm) w)) \<and>
      (fst (run_state (h_CommitAccountLifecycle h c cm) w) = None \<longrightarrow>
        (\<exists>l. lifecycle (snd (run_state (h_CommitAccountLifecycle h c cm) w)) a = Some l \<and>
          status_of l = (cm_next_state cm, cm_revocation cm)) \<and>
        (LifecycleCommitIsRevocationClaim cm \<longrightarrow> rank u a \<le> 1 \<or> \<not> good u))"
    using commit_lifecycle [OF g(1) run] know_step [OF w, of w' k] run g assms by auto
qed

lemma deleteCredential_triple:
  assumes "1 \<le> n"
  shows "triple (know u a k n fin gone) (deleteCredential h c a e) (\<lambda>r. know u a k n fin (gone \<or> r = None))"
  unfolding deleteCredential_def
  by (rule triple_bind [OF delete_credential_triple])
    (use assms in \<open>auto intro!: triple_rules triple_bind [OF get_credential_triple] split: sum.splits, auto simp: know_def\<close>)

text \<open>A finished revocation: the final status is recorded, the credential is gone, and the answer says so.\<close>

definition finished :: "account_id \<Rightarrow> revocation_result \<times> go_error option \<Rightarrow> 'w \<Rightarrow> bool" where
  "finished a r w \<longleftrightarrow>
    (r = (RevocationConfirmed, None) \<and> revoked_as w a RevocationStatusConfirmed \<and> credential w a = None \<or>
     r = (RevocationManual, Some ErrProviderRevocation) \<and> revoked_as w a RevocationStatusManualActionRequired \<and>
       credential w a = None \<or>
     fst r = [] \<and> snd r \<noteq> None)"

definition answer_ok :: "revocation_status \<Rightarrow> go_error option \<Rightarrow> bool" where
  "answer_ok st e \<longleftrightarrow> st = RevocationStatusConfirmed \<or> st = RevocationStatusManualActionRequired \<and> e = Some ErrProviderRevocation"

text \<open>A commit that is verified by reading when its outcome is unknown.\<close>

lemma verified_commit_triple:
  assumes cm: "cm_account cm = a"
    and go: "triple (\<lambda>w. know u a k n fin gone w \<and>
      (\<exists>l. lifecycle w a = Some l \<and> status_of l = (cm_next_state cm, cm_revocation cm))) go Q"
    and bad: "\<And>w. know u a k n fin gone w \<Longrightarrow> Q x w"
  shows "triple (know u a k n fin gone) (State_Monad.bind (h_CommitAccountLifecycle h c cm) (\<lambda>r. case r of
      None \<Rightarrow> go
    | Some _ \<Rightarrow> State_Monad.bind (h_GetAccountLifecycle h c a) (\<lambda>v. case v of
        Inl _ \<Rightarrow> State_Monad.return x
      | Inr l \<Rightarrow> if LifecycleMatchesCommit l cm then go else State_Monad.return x))) Q"
proof (rule triple_bind [OF commit_triple [OF cm]], rule triple_option)
  fix r :: "go_error option" and y
  let ?P = "\<lambda>w. know u a k n fin gone w \<and> (r = None \<longrightarrow>
      (\<exists>l. lifecycle w a = Some l \<and> status_of l = (cm_next_state cm, cm_revocation cm)) \<and>
      (LifecycleCommitIsRevocationClaim cm \<longrightarrow> rank u a \<le> 1 \<or> \<not> good u))"
  show "triple ?P go Q" if "r = None" by (rule triple_weaken [OF go]) (use that in auto)
  have read: "triple (\<lambda>w. know u a k n fin gone w \<and> (\<forall>l. v = Inr l \<longrightarrow> lifecycle w a = Some l \<and> lc_account l = a))
      (case v of Inl _ \<Rightarrow> State_Monad.return x | Inr l \<Rightarrow> if LifecycleMatchesCommit l cm then go else State_Monad.return x) Q" for v
    by (intro triple_sum triple_if triple_return triple_weaken [OF go]) (auto intro: bad simp: LifecycleMatchesCommit_iff)
  show "triple ?P (State_Monad.bind (h_GetAccountLifecycle h c a) (\<lambda>v. case v of
        Inl _ \<Rightarrow> State_Monad.return x
      | Inr l \<Rightarrow> if LifecycleMatchesCommit l cm then go else State_Monad.return x)) Q"
    by (rule triple_bind [OF triple_weaken [OF get_lifecycle_triple] read]) auto
qed

lemma finalize_triple:
  assumes n: "1 \<le> n" and l: "lc_account l = a" and st: "answer_ok st e" and cred: "cr = None \<Longrightarrow> gone"
  shows "triple (know u a k n None gone) (finalizeAttemptWithContext h c l cr st e) (\<lambda>r w. know u a k n None False w \<and> finished a r w)"
  unfolding finalizeAttemptWithContext_def Let_def l
proof (rule verified_commit_triple, simp)
  have fs: "final_status st" using st by (auto simp: answer_ok_def)
  show "triple (\<lambda>w. know u a k n None gone w \<and> (\<exists>l'. lifecycle w a = Some l' \<and> status_of l' =
        (cm_next_state \<lparr>cm_account = a, cm_expected_state = AccountStateRevoked, cm_expected_version = lc_version l,
           cm_expected_revocation = RevocationStatusAttempting, cm_next_state = AccountStateRevoked, cm_reason = None,
           cm_revocation = st\<rparr>, cm_revocation \<lparr>cm_account = a, cm_expected_state = AccountStateRevoked, cm_expected_version = lc_version l,
           cm_expected_revocation = RevocationStatusAttempting, cm_next_state = AccountStateRevoked, cm_reason = None,
           cm_revocation = st\<rparr>)))
      (State_Monad.bind (case cr of None \<Rightarrow> State_Monad.return None | Some c' \<Rightarrow> deleteCredential h c a (cred_envelope c'))
        (\<lambda>deleted. State_Monad.return (case deleted of None \<Rightarrow> if st = RevocationStatusConfirmed then (RevocationConfirmed, None)
          else (RevocationManual, e) | Some e \<Rightarrow> ([], Some e))))
      (\<lambda>r w. know u a k n None False w \<and> finished a r w)" (is "triple ?P _ _")
  proof (rule triple_bind [where R = "\<lambda>r. know u a k n (Some st) (r = None)"])
    have P: "?P w \<Longrightarrow> know u a k n (Some st) gone w" for w using fs by (auto simp: know_def revoked_as_def)
    show "triple ?P (case cr of None \<Rightarrow> State_Monad.return None | Some c' \<Rightarrow> deleteCredential h c a (cred_envelope c'))
        (\<lambda>r. know u a k n (Some st) (r = None))"
    proof (rule triple_option)
      show "triple ?P (State_Monad.return None) (\<lambda>r. know u a k n (Some st) (r = None))" if "cr = None"
        using P cred [OF that] by (intro triple_return) simp
      show "triple ?P (deleteCredential h c a (cred_envelope c')) (\<lambda>r. know u a k n (Some st) (r = None))" for c'
        by (rule triple_weaken [OF deleteCredential_triple [OF n, of u a k "Some st" gone]]) (use P in \<open>auto simp: know_def\<close>)
    qed
  qed (use st in \<open>auto intro!: triple_return simp: know_def finished_def answer_ok_def split: option.splits\<close>)
qed (simp add: know_def finished_def)

text \<open>What one run of \<^verbatim>\<open>Revoke\<close> guarantees, as a relation between the first and the last world.\<close>

definition revoke_post :: "'w \<Rightarrow> account_id \<Rightarrow> revocation_result \<times> go_error option \<Rightarrow> 'w \<Rightarrow> bool" where
  "revoke_post u a r w \<longleftrightarrow> good w \<and> later u w \<and> finished a r w \<and>
     (calls w = calls u \<or> calls w = calls u + 1 \<and> rank u a \<le> 1 \<and> 2 \<le> rank w a)"

lemma silent_post: "know u a (calls u) n fin gone w \<Longrightarrow> finished a r w \<Longrightarrow> revoke_post u a r w"
  by (auto simp: know_def revoke_post_def)

lemma failed_post: "know u a (calls u) n fin gone w \<Longrightarrow> revoke_post u a ([], Some e) w"
  by (rule silent_post) (simp_all add: finished_def)

lemma finalizeWithoutProvider_triple:
  assumes "1 \<le> n" and "lc_account l = a"
  shows "triple (know u a (calls u) n None gone) (finalizeWithoutProvider h l) (revoke_post u a)"
  unfolding finalizeWithoutProvider_def assms(2)
proof (rule triple_bind [OF get_credential_triple], rule triple_sum)
  fix r :: "provider_credential res" and e c
  let ?P = "\<lambda>w. know u a (calls u) n None gone w \<and>
      (\<forall>e. r = Inl e \<and> errors_is e (StorageErr ErrCredentialNotFound) \<longrightarrow> credential w a = None)"
  have fin: "triple ?P (finalizeAttemptWithContext h CleanupContext l cr RevocationStatusManualActionRequired (Some ErrProviderRevocation))
      (revoke_post u a)" if "cr = None \<Longrightarrow> \<exists>e. r = Inl e \<and> errors_is e (StorageErr ErrCredentialNotFound)" for cr
    by (rule triple_weaken [OF finalize_triple [OF assms, where gone = "cr = None" and u = u and k = "calls u"]])
      (use that assms in \<open>auto simp: answer_ok_def know_def intro: silent_post\<close>)
  show "triple ?P (if errors_is e (StorageErr ErrCredentialNotFound)
      then finalizeAttemptWithContext h CleanupContext l None RevocationStatusManualActionRequired (Some ErrProviderRevocation)
      else State_Monad.return ([], Some ErrRecoveryRequired)) (revoke_post u a)" if "r = Inl e"
    using that by (intro triple_if fin triple_return) (auto intro: failed_post)
  show "triple ?P (finalizeAttemptWithContext h CleanupContext l (Some c) RevocationStatusManualActionRequired (Some ErrProviderRevocation))
      (revoke_post u a)" by (rule fin) simp
qed

lemma reconcileFinalized_triple:
  assumes l: "lc_account l = a" and st: "lc_revocation l = st" and fs: "final_status st"
  shows "triple (know u a (calls u) 3 (Some st) gone) (reconcileFinalized h l) (revoke_post u a)"
  unfolding reconcileFinalized_def Let_def l st
proof (rule triple_bind [OF get_credential_triple], rule triple_sum)
  fix r :: "provider_credential res" and e c
  let ?P = "\<lambda>w. know u a (calls u) 3 (Some st) gone w \<and>
      (\<forall>e. r = Inl e \<and> errors_is e (StorageErr ErrCredentialNotFound) \<longrightarrow> credential w a = None)"
  let ?answer = "if st = RevocationStatusConfirmed then (RevocationConfirmed, None) else (RevocationManual, Some ErrProviderRevocation)"
  have answer: "revoke_post u a ?answer w" if "know u a (calls u) 3 (Some st) g w" "credential w a = None" for w g
    using that fs by (intro silent_post) (auto simp: know_def finished_def)
  show "triple ?P (State_Monad.return (if errors_is e (StorageErr ErrCredentialNotFound) then ?answer else ([], Some ErrRecoveryRequired)))
      (revoke_post u a)" if "r = Inl e"
  proof (rule triple_return, cases "errors_is e (StorageErr ErrCredentialNotFound)")
    fix w assume w: "?P w" and e: "errors_is e (StorageErr ErrCredentialNotFound)"
    have "credential w a = None" using w e that by blast
    then show "revoke_post u a (if errors_is e (StorageErr ErrCredentialNotFound) then ?answer else ([], Some ErrRecoveryRequired)) w"
      unfolding if_P [OF e] using answer [OF conjunct1 [OF w]] by blast
  next
    fix w assume "?P w" and e: "\<not> errors_is e (StorageErr ErrCredentialNotFound)"
    then show "revoke_post u a (if errors_is e (StorageErr ErrCredentialNotFound) then ?answer else ([], Some ErrRecoveryRequired)) w"
      unfolding if_not_P [OF e] using failed_post by blast
  qed
  show "triple ?P (State_Monad.bind (deleteCredential h CallerContext a (cred_envelope c)) (\<lambda>deleted.
      State_Monad.return (case deleted of None \<Rightarrow> ?answer | Some e \<Rightarrow> ([], Some e)))) (revoke_post u a)"
  proof (rule triple_bind)
    show "triple ?P (deleteCredential h CallerContext a (cred_envelope c)) (\<lambda>d. know u a (calls u) 3 (Some st) (gone \<or> d = None))"
      by (rule triple_weaken [OF deleteCredential_triple]) auto
    fix d :: "go_error option"
    show "triple (know u a (calls u) 3 (Some st) (gone \<or> d = None))
        (State_Monad.return (case d of None \<Rightarrow> ?answer | Some e \<Rightarrow> ([], Some e))) (revoke_post u a)"
    proof (cases d)
      case None
      have "credential w a = None" if "know u a (calls u) 3 (Some st) (gone \<or> d = None) w" for w
        using that None by (simp add: know_def)
      then show ?thesis unfolding None option.case by (intro triple_return answer) (use None in auto)
    qed (auto intro!: triple_return failed_post)
  qed
qed

lemma revoke_intent_triple:
  "triple (know u a (calls u) n None gone) (revoke_intent h a l) (\<lambda>r w. know u a (calls u) n None gone w \<and>
    (\<forall>l'. r = Inr l' \<longrightarrow> lifecycle w a = Some l' \<and> lc_account l' = a \<and> status_of l' = (AccountStateRevoked, RevocationStatusPending)))"
  unfolding revoke_intent_def Let_def
  by (rule verified_commit_triple, simp)
    (rule triple_bind [OF triple_weaken [OF get_lifecycle_triple]], blast, assumption,
     auto intro!: triple_return simp: LifecycleMatchesCommit_iff split: sum.splits if_splits)

end

locale revocation_world = revocation_handle h good later calls lifecycle credential rank
  for h :: "'w handle" and good :: "'w \<Rightarrow> bool" and later :: "'w \<Rightarrow> 'w \<Rightarrow> bool" and calls :: "'w \<Rightarrow> nat"
    and lifecycle :: "'w \<Rightarrow> account_id \<Rightarrow> account_lifecycle option" and credential :: "'w \<Rightarrow> account_id \<Rightarrow> provider_credential option"
    and rank :: "'w \<Rightarrow> account_id \<Rightarrow> nat" +
  fixes m :: "'w manager"
  assumes store: "m_store m = Some h"
    and transport: "good w \<Longrightarrow> run_state (m_transport m endpoint body) w = (reply, w') \<Longrightarrow>
      good w' \<and> later w w' \<and> calls w' = calls w + 1"
begin

lemma transport_triple:
  "triple (know u a k n fin gone) (m_transport m endpoint body) (\<lambda>r. know u a (k + 1) n fin gone)"
  unfolding triple_def
proof (intro allI impI)
  fix w assume w: "know u a k n fin gone w"
  obtain r w' where run: "run_state (m_transport m endpoint body) w = (r, w')" by fastforce
  have "good w" "calls w = k" using w by (simp_all add: know_def)
  then show "know u a (k + 1) n fin gone (snd (run_state (m_transport m endpoint body) w))"
    using transport [OF _ run] know_step [OF w, of w' "k + 1"] run by simp
qed

lemma revokeProvider_triple: "triple (know u a k n fin gone) (revokeProvider m t) (\<lambda>r. know u a (k + 1) n fin gone)"
  unfolding revokeProvider_def by (rule triple_bind [OF transport_triple]) (rule triple_return)

text \<open>From the moment the claim is won, contact with the provider is accounted for.\<close>

lemma contact_triple:
  assumes l: "lc_account l = a" and u: "rank u a \<le> 1"
  shows "triple (know u a (calls u) 2 None gone) (contact_provider m h a l c) (revoke_post u a)"
proof -
  have post: "revoke_post u a r w" if "know u a k 2 None False w \<and> finished a r w" "k = calls u \<or> k = calls u + 1" for r w k
    using that u by (auto simp: know_def revoke_post_def)
  have fin: "triple (know u a k 2 None gone) (finalizeAttempt h l (Some c) st e) (revoke_post u a)"
    if "answer_ok st e" "k = calls u \<or> k = calls u + 1" for st e k
    unfolding finalizeAttempt_def
    by (rule triple_weaken [OF finalize_triple [OF _ l that(1)]]) (use that(2) post in auto)
  have manual: "triple (know u a k 2 None gone) (finalizeAttempt h l (Some c) RevocationStatusManualActionRequired (Some ErrProviderRevocation))
      (revoke_post u a)" if "k = calls u \<or> k = calls u + 1" for k
    by (rule fin) (use that in \<open>simp_all add: answer_ok_def\<close>)
  have ask: "triple (know u a (calls u) 2 None gone) (State_Monad.bind (revokeProvider m t) (\<lambda>(confirmed, requestErr).
      if requestErr = None \<and> confirmed then finalizeAttempt h l (Some c) RevocationStatusConfirmed None
      else finalizeAttempt h l (Some c) RevocationStatusManualActionRequired (Some ErrProviderRevocation))) (revoke_post u a)" for t
    by (rule triple_bind [OF revokeProvider_triple]) (auto intro!: fin manual simp: answer_ok_def split: prod.splits)
  show ?thesis
    unfolding contact_provider_def Let_def
    by (intro triple_sum triple_option manual ask) auto
qed

lemma claim_triple:
  assumes u: "good u"
  shows "triple (know u a (calls u) n None False) (claim_and_contact m h a l) (revoke_post u a)"
  unfolding claim_and_contact_def Let_def
proof (rule triple_bind [OF commit_triple], simp, rule triple_option)
  fix won :: "go_error option"
  let ?claim = "\<lparr>cm_account = a, cm_expected_state = AccountStateRevoked, cm_expected_version = lc_version l,
           cm_expected_revocation = RevocationStatusPending, cm_next_state = AccountStateRevoked, cm_reason = None,
           cm_revocation = RevocationStatusAttempting\<rparr>"
  let ?P = "\<lambda>w. know u a (calls u) n None False w \<and> (won = None \<longrightarrow>
      (\<exists>l. lifecycle w a = Some l \<and> status_of l = (cm_next_state ?claim, cm_revocation ?claim)) \<and>
      (LifecycleCommitIsRevocationClaim ?claim \<longrightarrow> rank u a \<le> 1 \<or> \<not> good u))"
  show "triple ?P (State_Monad.return ([], Some ErrRecoveryRequired)) (revoke_post u a)" for x
    by (rule triple_return) (auto intro: failed_post)
  assume won: "won = None"
  have P: "?P w \<Longrightarrow> know u a (calls u) 2 None False w \<and> rank u a \<le> 1" for w
    using won u rank_eq [of w a] by (auto simp: know_def LifecycleCommitIsRevocationClaim_def)
  have contact: "triple (know u a (calls u) 2 None False) (State_Monad.bind (h_GetProviderCredential h CallerContext a) (\<lambda>credential.
      case credential of Inl e \<Rightarrow> if errors_is e (StorageErr ErrCredentialNotFound)
          then finalizeAttempt h k None RevocationStatusManualActionRequired (Some ErrProviderRevocation)
          else State_Monad.return ([], Some ErrRecoveryRequired)
      | Inr c \<Rightarrow> contact_provider m h a k c)) (revoke_post u a)" if "lc_account k = a" "rank u a \<le> 1" for k
    unfolding finalizeAttempt_def
    by (rule triple_bind [OF get_credential_triple], rule triple_sum, rule triple_if,
        rule triple_weaken [OF finalize_triple [OF _ that(1), where gone = True and n = 2]])
      (auto intro!: triple_weaken [OF contact_triple [OF that]] triple_return intro: silent_post failed_post
        simp: answer_ok_def, auto simp: know_def)
  show "triple ?P (State_Monad.bind (h_GetAccountLifecycle h CallerContext a) (\<lambda>got. case got of
      Inl _ \<Rightarrow> State_Monad.return ([], Some ErrRecoveryRequired)
    | Inr claimed \<Rightarrow> if \<not> LifecycleMatchesCommit claimed ?claim \<or> lc_version claimed \<noteq> int64_add (lc_version l) 1
        then State_Monad.return ([], Some ErrRecoveryRequired)
        else State_Monad.bind (h_GetProviderCredential h CallerContext a) (\<lambda>credential.
          case credential of Inl e \<Rightarrow> if errors_is e (StorageErr ErrCredentialNotFound)
              then finalizeAttempt h claimed None RevocationStatusManualActionRequired (Some ErrProviderRevocation)
              else State_Monad.return ([], Some ErrRecoveryRequired)
          | Inr c \<Rightarrow> contact_provider m h a claimed c))) (revoke_post u a)"
  proof (cases "rank u a \<le> 1")
    case True
    have "triple (\<lambda>w. know u a (calls u) 2 None False w \<and> (\<forall>k. got = Inr k \<longrightarrow> lifecycle w a = Some k \<and> lc_account k = a))
      (case got of Inl _ \<Rightarrow> State_Monad.return ([], Some ErrRecoveryRequired)
      | Inr claimed \<Rightarrow> if \<not> LifecycleMatchesCommit claimed ?claim \<or> lc_version claimed \<noteq> int64_add (lc_version l) 1
        then State_Monad.return ([], Some ErrRecoveryRequired)
        else State_Monad.bind (h_GetProviderCredential h CallerContext a) (\<lambda>credential.
          case credential of Inl e \<Rightarrow> if errors_is e (StorageErr ErrCredentialNotFound)
              then finalizeAttempt h claimed None RevocationStatusManualActionRequired (Some ErrProviderRevocation)
              else State_Monad.return ([], Some ErrRecoveryRequired)
          | Inr c \<Rightarrow> contact_provider m h a claimed c)) (revoke_post u a)" for got
      by (intro triple_sum triple_if triple_return triple_weaken [OF contact])
        (use True in \<open>auto intro: failed_post simp: LifecycleMatchesCommit_iff\<close>)
    from triple_bind [OF get_lifecycle_triple this, of CallerContext] show ?thesis
      by (rule triple_weaken) (use P in auto)
  next
    case False
    then have "\<not> ?P w" for w using P by blast
    then show ?thesis unfolding triple_def by blast
  qed
qed

lemma know_rank:
  assumes "know u a k n None False w" and "lifecycle w a = Some l"
  shows "know u a k (revocation_rank (status_of l)) None False w"
    "lc_state l = AccountStateRevoked \<Longrightarrow> final_status (lc_revocation l) \<Longrightarrow> know u a k 3 (Some (lc_revocation l)) False w"
  using assms rank_eq [OF assms(2)] by (auto simp: know_def revoked_as_def)

text \<open>The part of \<^verbatim>\<open>Revoke\<close> after the intent, for the lifecycle \<open>l\<close> that was read last.\<close>

lemma after_intent_triple:
  assumes u: "good u"
  shows "triple (\<lambda>w. know u a (calls u) 0 None False w \<and> lifecycle w a = Some l \<and> lc_account l = a \<and> lc_state l = AccountStateRevoked)
    (if lc_revocation l = RevocationStatusAttempting then finalizeWithoutProvider h l
     else if lc_revocation l \<noteq> RevocationStatusPending then State_Monad.return ([], Some ErrRecoveryRequired)
     else claim_and_contact m h a l) (revoke_post u a)"
proof (cases "lc_account l = a \<and> lc_state l = AccountStateRevoked")
  case True
  show ?thesis
  proof (intro triple_if)
    assume at: "lc_revocation l = RevocationStatusAttempting"
    show "triple (\<lambda>w. know u a (calls u) 0 None False w \<and> lifecycle w a = Some l \<and> lc_account l = a \<and> lc_state l = AccountStateRevoked)
        (finalizeWithoutProvider h l) (revoke_post u a)"
      by (rule triple_weaken [OF finalizeWithoutProvider_triple [of 2 l a u False]]) (use True at know_rank(1) in fastforce)+
  qed (use True in \<open>auto intro!: triple_return triple_weaken [OF claim_triple [OF u]] intro: failed_post\<close>)
qed (auto simp: triple_def)

lemma Revoke_triple:
  assumes u: "good u"
  shows "triple (know u a (calls u) 0 None False) (Revoke m a) (revoke_post u a)"
proof -
  let ?P = "\<lambda>l w. know u a (calls u) 0 None False w \<and> lifecycle w a = Some l \<and> lc_account l = a"
  let ?tail = "\<lambda>ready. case ready of Inl e \<Rightarrow> State_Monad.return ([], Some e)
      | Inr l' \<Rightarrow> if lc_revocation l' = RevocationStatusAttempting then finalizeWithoutProvider h l'
          else if lc_revocation l' \<noteq> RevocationStatusPending then State_Monad.return ([], Some ErrRecoveryRequired)
          else claim_and_contact m h a l'"
  have tail: "triple (\<lambda>w. know u a (calls u) 0 None False w \<and> (\<forall>l'. ready = Inr l' \<longrightarrow>
      lifecycle w a = Some l' \<and> lc_account l' = a \<and> lc_state l' = AccountStateRevoked)) (?tail ready) (revoke_post u a)" for ready
    by (intro triple_sum triple_return triple_weaken [OF after_intent_triple [OF u]]) (auto intro: failed_post)
  have ready: "triple (?P l) (State_Monad.bind (if lc_state l \<noteq> AccountStateRevoked then revoke_intent h a l
      else State_Monad.return (Inr l)) ?tail) (revoke_post u a)" for l
    by (rule triple_bind [OF _ tail], intro triple_if triple_return triple_weaken [OF revoke_intent_triple]) auto
  have final: "triple (?P l) (reconcileFinalized h l) (revoke_post u a)"
    if "lc_state l = AccountStateRevoked" "final_status (lc_revocation l)" for l
  proof (cases "lc_account l = a")
    case True
    show ?thesis
    proof (rule triple_weaken [OF reconcileFinalized_triple [OF True refl that(2), where gone = False]])
      fix w assume "?P l w"
      then show "know u a (calls u) 3 (Some (lc_revocation l)) False w" using know_rank(2) that by blast
    qed
  qed (simp add: triple_def)
  have read: "triple (\<lambda>w. know u a (calls u) 0 None False w \<and> (\<forall>l. got = Inr l \<longrightarrow> lifecycle w a = Some l \<and> lc_account l = a))
      (case got of Inl e \<Rightarrow> State_Monad.return ([], Some (fixedStorageError e))
       | Inr l \<Rightarrow>
          if lc_state l = AccountStateRevoked \<and> (lc_revocation l = RevocationStatusConfirmed \<or>
               lc_revocation l = RevocationStatusManualActionRequired)
          then reconcileFinalized h l
          else case remaining_transitions l of
            Inl e \<Rightarrow> State_Monad.return ([], Some e)
          | Inr remaining \<Rightarrow>
              if lc_version l > MaxInt64 - remaining then State_Monad.return ([], Some ErrRecoveryRequired)
              else State_Monad.bind (if lc_state l \<noteq> AccountStateRevoked then revoke_intent h a l
                else State_Monad.return (Inr l)) ?tail) (revoke_post u a)" for got
    by (intro triple_sum triple_if triple_return triple_weaken [OF final] triple_weaken [OF ready]) (auto intro: failed_post)
  show ?thesis unfolding Revoke_def store option.case by (rule triple_bind [OF get_lifecycle_triple read])
qed

lemma Revoke_run:
  assumes "good w" and "run_state (Revoke m a) w = (r, w')"
  shows "revoke_post w a r w'"
proof -
  have "know w a (calls w) 0 None False w" using assms(1) later_refl by (simp add: know_def)
  with Revoke_triple [OF assms(1), of a] assms(2) show ?thesis unfolding triple_def by fastforce
qed

end

section \<open>A world with other processes and faults\<close>

text \<open>
  The world of the proofs: the in-memory store; what happens around each storage call (operations that
  other processes run before it, what its context reports, and whether the request or its answer is
  lost); the replies of the provider still to come; and the requests made so far.
\<close>

datatype fault = NoFault | LostRequest | LostAnswer

datatype context_state = Live | ContextCanceled | ContextExpired

fun context_report :: "context_state \<Rightarrow> ctx" where
  "context_report Live = None"
| "context_report ContextCanceled = Some Canceled"
| "context_report ContextExpired = Some DeadlineExceeded"

record surroundings =
  sr_others :: "(ctx \<times> store_op) list"
  sr_context :: context_state
  sr_fault :: fault

record world =
  w_store :: store
  w_ahead :: "surroundings list"
  w_replies :: "http_reply list"
  w_requests :: "(string \<times> string) list"

fun run_ops :: "(ctx \<times> store_op) list \<Rightarrow> store \<Rightarrow> store" where
  "run_ops [] s = s"
| "run_ops ((c, op) # ops) s = run_ops ops (snd (run_op c op s))"

definition calm :: surroundings where
  "calm = \<lparr>sr_others = [], sr_context = Live, sr_fault = NoFault\<rparr>"

definition around :: "world \<Rightarrow> surroundings" where
  "around w = (case w_ahead w of [] \<Rightarrow> calm | x # _ \<Rightarrow> x)"

text \<open>One storage call: \<open>lost\<close> is what the caller sees of a lost request or answer.\<close>

definition storage_call :: "'a \<Rightarrow> (ctx \<Rightarrow> store \<Rightarrow> 'a \<times> store) \<Rightarrow> (world, 'a) state" where
  "storage_call lost f = State (\<lambda>w.
     let w1 = w\<lparr>w_ahead := tl (w_ahead w), w_store := run_ops (sr_others (around w)) (w_store w)\<rparr>;
         (r, s) = f (context_report (sr_context (around w))) (w_store w1)
     in case sr_fault (around w) of
          NoFault \<Rightarrow> (r, w1\<lparr>w_store := s\<rparr>)
        | LostRequest \<Rightarrow> (lost, w1)
        | LostAnswer \<Rightarrow> (lost, w1\<lparr>w_store := s\<rparr>))"

definition env_handle :: "world handle" where
  "env_handle = \<lparr>
     h_ListAccounts = (\<lambda>_. storage_call (Inl (StorageErr ErrPersistenceUnknown)) (\<lambda>c s. (ListAccounts c s, s))),
     h_GetAccountLifecycle = (\<lambda>_ a. storage_call (Inl (StorageErr ErrPersistenceUnknown)) (\<lambda>c s. (GetAccountLifecycle c a s, s))),
     h_CommitAccountLifecycle = (\<lambda>_ cm. storage_call (Some (StorageErr ErrPersistenceUnknown)) (\<lambda>c. CommitAccountLifecycle c cm)),
     h_GetProviderCredential = (\<lambda>_ a. storage_call (Inl (StorageErr ErrPersistenceUnknown)) (\<lambda>c s. (GetProviderCredential c a s, s))),
     h_DeleteRevokedProviderCredential =
       (\<lambda>_ d. storage_call (Some (StorageErr ErrPersistenceUnknown)) (\<lambda>c. DeleteRevokedProviderCredential c d))\<rparr>"

definition env_transport :: "string \<Rightarrow> string \<Rightarrow> (world, http_reply) state" where
  "env_transport endpoint body = State (\<lambda>w.
     (case w_replies w of [] \<Rightarrow> ExchangeFailed (Some DeadlineExceeded) | x # _ \<Rightarrow> x,
      w\<lparr>w_replies := tl (w_replies w), w_requests := (endpoint, body) # w_requests w\<rparr>))"

definition env_manager :: "keyring option res \<Rightarrow> world manager" where
  "env_manager ring = newManagerWithResolver (Some env_handle) ring [] env_transport"

definition world_good :: "world \<Rightarrow> bool" where
  "world_good w \<longleftrightarrow> store_inv (w_store w)"

definition world_later :: "world \<Rightarrow> world \<Rightarrow> bool" where
  "world_later w w' \<longleftrightarrow> (\<exists>h. steps (w_store w) h (w_store w'))"

definition world_rank :: "world \<Rightarrow> account_id \<Rightarrow> nat" where
  "world_rank w a = (case fmlookup (lifecycles (w_store w)) a of None \<Rightarrow> 0 | Some l \<Rightarrow> revocation_rank (status_of l))"

lemma calm_call:
  "w_ahead w = [] \<Longrightarrow> run_state (storage_call lost f) w = (fst (f None (w_store w)), w\<lparr>w_store := snd (f None (w_store w))\<rparr>)"
  by (cases "f None (w_store w)") (auto simp: storage_call_def around_def calm_def)

lemma run_ops_steps: "steps s ops (run_ops ops s)"
proof (induction ops s rule: run_ops.induct)
  case (2 c op ops s)
  then show ?case by (cases "run_op c op s") (auto intro: steps.intros)
qed (simp add: steps.intros)

text \<open>A storage call is some steps of the store; when its answer is not lost, the last of them gave it.\<close>

lemma storage_call_cases:
  assumes "run_state (storage_call lost f) w = (r, w')" and "world_good w"
    and f: "\<And>c s r s'. f c s = (r, s') \<Longrightarrow> s' = s \<or> (\<exists>op q. run_op c op s = (q, s'))"
  shows "world_good w' \<and> world_later w w' \<and> w_requests w' = w_requests w \<and>
    (r = lost \<or> (\<exists>c s h. (c = None \<or> c = Some Canceled \<or> c = Some DeadlineExceeded) \<and> steps (w_store w) h s \<and> store_inv s \<and>
      f c s = (r, w_store w')))"
proof -
  let ?s = "run_ops (sr_others (around w)) (w_store w)" and ?c = "context_report (sr_context (around w))"
  obtain q t where ft: "f ?c ?s = (q, t)" by fastforce
  have s: "steps (w_store w) (sr_others (around w)) ?s" by (rule run_ops_steps)
  have inv: "store_inv ?s" using steps_inv [OF s] assms(2) by (simp add: world_good_def)
  have "\<exists>h. steps ?s h t" using f [OF ft] steps_single by (auto intro: steps.intros)
  then have t: "\<exists>h. steps (w_store w) h t" using steps_append [OF s] by blast
  have tinv: "store_inv t" using t steps_inv assms(2) unfolding world_good_def by blast
  have c: "?c = None \<or> ?c = Some Canceled \<or> ?c = Some DeadlineExceeded" by (cases "sr_context (around w)") simp_all
  have "w' = w\<lparr>w_ahead := tl (w_ahead w), w_store := ?s\<rparr> \<and> r = lost \<or>
      w' = w\<lparr>w_ahead := tl (w_ahead w), w_store := t\<rparr> \<and> (r = lost \<or> r = q)"
    using assms(1) ft by (cases "sr_fault (around w)") (auto simp: storage_call_def)
  then show ?thesis
  proof
    assume "w' = w\<lparr>w_ahead := tl (w_ahead w), w_store := ?s\<rparr> \<and> r = lost"
    then show ?thesis using s inv by (auto simp: world_good_def world_later_def)
  next
    assume w': "w' = w\<lparr>w_ahead := tl (w_ahead w), w_store := t\<rparr> \<and> (r = lost \<or> r = q)"
    then have "world_good w' \<and> world_later w w' \<and> w_requests w' = w_requests w" using t tinv by (simp add: world_good_def world_later_def)
    moreover have "f ?c ?s = (q, w_store w')" using w' ft by simp
    ultimately show ?thesis using w' s inv c by blast
  qed
qed

section \<open>The in-memory store keeps the manager's contract\<close>

text \<open>What no history takes back about the revocation of an account.\<close>

definition revocation_kept ::
  "account_lifecycle \<Rightarrow> provider_credential option \<Rightarrow> account_lifecycle \<Rightarrow> provider_credential option \<Rightarrow> bool" where
  "revocation_kept l c l' c' \<longleftrightarrow> revocation_rank (status_of l) \<le> revocation_rank (status_of l') \<and>
     (revocation_rank (status_of l) = 3 \<longrightarrow> status_of l' = status_of l) \<and>
     (1 \<le> revocation_rank (status_of l) \<longrightarrow> c = None \<longrightarrow> c' = None)"

definition revocation_le :: "store \<Rightarrow> store \<Rightarrow> bool" where
  "revocation_le s t \<longleftrightarrow> (\<forall>a l. fmlookup (lifecycles s) a = Some l \<longrightarrow> (\<exists>l'. fmlookup (lifecycles t) a = Some l' \<and>
     revocation_kept l (fmlookup (credentials s) a) l' (fmlookup (credentials t) a)))"

lemma revocation_kept_trans: "revocation_kept l c l' c' \<Longrightarrow> revocation_kept l' c' l'' c'' \<Longrightarrow> revocation_kept l c l'' c''"
  unfolding revocation_kept_def by (auto simp del: revocation_rank.simps)

lemma revocation_le_refl: "revocation_le s s"
  by (simp add: revocation_le_def revocation_kept_def)

lemma revocation_le_trans: "revocation_le s t \<Longrightarrow> revocation_le t u \<Longrightarrow> revocation_le s u"
  unfolding revocation_le_def using revocation_kept_trans by blast

lemma edge_not_final: "lifecycle_edge p q \<Longrightarrow> revocation_rank p \<noteq> 3"
  by (induction rule: lifecycle_edge.induct) simp_all

lemma rank_revoked: "1 \<le> revocation_rank (status_of l) \<Longrightarrow> lc_state l = AccountStateRevoked"
  by (auto split: if_splits)

text \<open>Credentials only appear through \<^verbatim>\<open>CommitProviderCredential\<close>, and never for a revoked account.\<close>

lemma run_op_credentials:
  assumes inv: "store_inv s" and r: "run_op ctx op s = (r, s')" and l: "fmlookup (lifecycles s) a = Some l"
    and st: "lc_state l = AccountStateRevoked" and none: "fmlookup (credentials s) a = None"
  shows "fmlookup (credentials s') a = None"
proof -
  have li: "lifecycles_inv (lifecycles s) (cursors s) (credentials s)" and ai: "attempts_inv (attempts s) (cursors s) (lifecycles s)"
    using inv by (simp_all add: store_inv_def)
  show ?thesis
  proof (cases op)
    case (OpEnsureAccount seed)
    then obtain q where "EnsureAccount ctx seed s = (q, s')" using r by (auto split: prod.splits sum.splits)
    from EnsureAccount_cases [OF this] show ?thesis using none by auto
  next
    case (OpCommitAccountLifecycle c)
    then show ?thesis using r none CommitAccountLifecycle_cases [OF _ li, of ctx c r s'] by auto
  next
    case (OpCommitCurrentDiscovery c)
    then show ?thesis using r none ai CommitCurrentDiscovery_cases [of ctx c s r s'] by auto
  next
    case (OpReconcileCurrentDiscovery i)
    then show ?thesis using r none ai ReconcileCurrentDiscovery_cases [of ctx i s r s'] by auto
  next
    case (OpCommitSynchronization c)
    then show ?thesis using r none CommitSynchronization_cases [of ctx c s r s'] by auto
  next
    case (OpCommitProviderCredential c)
    then show ?thesis using r l st none CommitProviderCredential_cases [of ctx c s r s'] by auto
  next
    case (OpDeleteRevokedProviderCredential d)
    then show ?thesis using r none DeleteRevokedProviderCredential_cases [of ctx d s r s'] by auto
  next
    case (OpCommitGateDecision c)
    then show ?thesis using r none CommitGateDecision_cases [of ctx c s r s'] by auto
  next
    case (OpCommitCandidateContent c)
    then show ?thesis using r none CommitCandidateContent_cases [of ctx c s r s'] by auto
  qed
qed

lemma run_op_revocation_le:
  assumes inv: "store_inv s" and r: "run_op ctx op s = (r, s')"
  shows "revocation_le s s'"
  unfolding revocation_le_def
proof (intro allI impI)
  fix a l assume l: "fmlookup (lifecycles s) a = Some l"
  obtain l' where l': "fmlookup (lifecycles s') a = Some l'" "lifecycle_next_to l l'"
    using run_op_lifecycle [OF inv r l] by blast
  have "revocation_rank (status_of l) \<le> revocation_rank (status_of l')"
      "revocation_rank (status_of l) = 3 \<Longrightarrow> status_of l' = status_of l"
    using l'(2) edge_rank edge_not_final unfolding lifecycle_next_to_def by (blast, metis)
  moreover have "fmlookup (credentials s') a = None"
    if "1 \<le> revocation_rank (status_of l)" "fmlookup (credentials s) a = None"
    using run_op_credentials [OF inv r l rank_revoked [OF that(1)] that(2)] .
  ultimately have "revocation_kept l (fmlookup (credentials s) a) l' (fmlookup (credentials s') a)"
    unfolding revocation_kept_def by (simp del: revocation_rank.simps)
  then show "\<exists>l'. fmlookup (lifecycles s') a = Some l' \<and> revocation_kept l (fmlookup (credentials s) a) l' (fmlookup (credentials s') a)"
    using l'(1) by blast
qed

lemma steps_revocation_le: "steps s h t \<Longrightarrow> store_inv s \<Longrightarrow> store_inv t \<and> revocation_le s t"
  by (rule steps_rtrans [where P = store_inv and R = revocation_le])
    (auto intro: revocation_le_refl revocation_le_trans run_op_inv run_op_revocation_le)

abbreviation world_lifecycle :: "world \<Rightarrow> account_id \<Rightarrow> account_lifecycle option" where
  "world_lifecycle w \<equiv> fmlookup (lifecycles (w_store w))"

abbreviation world_credential :: "world \<Rightarrow> account_id \<Rightarrow> provider_credential option" where
  "world_credential w \<equiv> fmlookup (credentials (w_store w))"

abbreviation world_calls :: "world \<Rightarrow> nat" where
  "world_calls w \<equiv> length (w_requests w)"

lemma world_later_kept:
  assumes "world_good w" and "world_later w w'" and "world_lifecycle w a = Some l"
  shows "\<exists>l'. world_lifecycle w' a = Some l' \<and> revocation_kept l (world_credential w a) l' (world_credential w' a)"
  using assms steps_revocation_le unfolding world_good_def world_later_def revocation_le_def by blast

text \<open>A read of the store, and the two commits the manager uses, as storage calls.\<close>

lemma read_call:
  assumes "run_state (storage_call (Inl e) (\<lambda>c s. (f c s, s))) w = (r, w')" and "world_good w"
  shows "world_good w' \<and> world_later w w' \<and> w_requests w' = w_requests w \<and>
    (r = Inl e \<or> (\<exists>c. (c = None \<or> c = Some Canceled \<or> c = Some DeadlineExceeded) \<and> f c (w_store w') = r))"
  using storage_call_cases [OF assms(1,2)] by auto

lemma commit_call:
  assumes "run_state (storage_call (Some e) (\<lambda>c. CommitAccountLifecycle c cm)) w = (r, w')" and "world_good w"
  shows "world_good w' \<and> world_later w w' \<and> w_requests w' = w_requests w \<and>
    (r = None \<longrightarrow> (\<exists>s h. steps (w_store w) h s \<and> store_inv s \<and> CommitAccountLifecycle None cm s = (None, w_store w')))"
proof -
  have step: "s' = s \<or> (\<exists>op q. run_op c op s = (q, s'))" if "CommitAccountLifecycle c cm s = (q, s')" for c s q s'
    using that by (metis run_op.simps(4))
  have live: "c = None" if "CommitAccountLifecycle c cm s = (None, t)" for c s t
    using that by (simp add: CommitAccountLifecycle_def split: option.splits)
  have "world_good w' \<and> world_later w w' \<and> w_requests w' = w_requests w \<and>
    (r = Some e \<or> (\<exists>c s h. (c = None \<or> c = Some Canceled \<or> c = Some DeadlineExceeded) \<and> steps (w_store w) h s \<and> store_inv s \<and>
      CommitAccountLifecycle c cm s = (r, w_store w')))"
    by (rule storage_call_cases [OF assms(1,2)]) (rule step)
  then show ?thesis using live by blast
qed

lemma CommitAccountLifecycle_success:
  assumes "CommitAccountLifecycle None cm s = (None, s')"
  shows "\<exists>l. fmlookup (lifecycles s') (cm_account cm) = Some l \<and> status_of l = (cm_next_state cm, cm_revocation cm)"
  using assms by (auto simp: CommitAccountLifecycle_def LifecycleMatchesCommit_iff Let_def split: option.splits if_splits)

lemma env_get_lifecycle:
  assumes "world_good w" and "run_state (h_GetAccountLifecycle env_handle c a) w = (r, w')"
  shows "world_good w' \<and> world_later w w' \<and> world_calls w' = world_calls w \<and>
    (\<forall>l. r = Inr l \<longrightarrow> world_lifecycle w' a = Some l \<and> lc_account l = a)"
proof -
  have ok: "lc_account l = a" if "world_good w'" "world_lifecycle w' a = Some l" for l
    using that unfolding world_good_def store_inv_def lifecycles_inv_def lifecycle_ok_def by blast
  have "world_good w' \<and> world_later w w' \<and> w_requests w' = w_requests w \<and> (r = Inl (StorageErr ErrPersistenceUnknown) \<or>
      (\<exists>c. (c = None \<or> c = Some Canceled \<or> c = Some DeadlineExceeded) \<and> GetAccountLifecycle c a (w_store w') = r))"
    by (rule read_call) (use assms in \<open>simp_all add: env_handle_def\<close>)
  then show ?thesis using ok by (auto simp: GetAccountLifecycle_def split: if_splits option.splits)
qed

lemma env_commit_lifecycle:
  assumes w: "world_good w" and r: "run_state (h_CommitAccountLifecycle env_handle c cm) w = (r', w')"
  shows "world_good w' \<and> world_later w w' \<and> world_calls w' = world_calls w \<and> (r' = None \<longrightarrow>
    (\<exists>l. world_lifecycle w' (cm_account cm) = Some l \<and> status_of l = (cm_next_state cm, cm_revocation cm)) \<and>
    (LifecycleCommitIsRevocationClaim cm \<longrightarrow> world_rank w (cm_account cm) \<le> 1))"
proof -
  have call: "world_good w' \<and> world_later w w' \<and> w_requests w' = w_requests w \<and> (r' = None \<longrightarrow>
      (\<exists>s h. steps (w_store w) h s \<and> store_inv s \<and> CommitAccountLifecycle None cm s = (None, w_store w')))"
    by (rule commit_call) (use assms in \<open>simp_all add: env_handle_def\<close>)
  have "world_rank w (cm_account cm) \<le> 1" if claim: "LifecycleCommitIsRevocationClaim cm"
    and s: "steps (w_store w) h s" "CommitAccountLifecycle None cm s = (None, w_store w')" for s h
  proof (cases "world_lifecycle w (cm_account cm)")
    case (Some l)
    obtain l' where l': "fmlookup (lifecycles s) (cm_account cm) = Some l'" "revocation_rank (status_of l) \<le> revocation_rank (status_of l')"
      using steps_lifecycle [OF s(1) _ Some] w unfolding world_good_def by blast
    have "\<not> 2 \<le> revocation_rank (status_of l')" using claim_rank [OF claim l'(1), of None] s(2) by (metis fst_conv)
    then show ?thesis using l'(2) Some by (simp add: world_rank_def del: revocation_rank.simps)
  qed (simp add: world_rank_def)
  then have "LifecycleCommitIsRevocationClaim cm \<longrightarrow> world_rank w (cm_account cm) \<le> 1" if "r' = None"
    using call that by blast
  moreover have "\<exists>l. world_lifecycle w' (cm_account cm) = Some l \<and> status_of l = (cm_next_state cm, cm_revocation cm)" if "r' = None"
    using call that CommitAccountLifecycle_success by blast
  ultimately show ?thesis using call by simp
qed

lemma GetProviderCredential_absent:
  assumes "GetProviderCredential c a s = Inl e" and "errors_is e (StorageErr ErrCredentialNotFound)"
    and "c = None \<or> c = Some Canceled \<or> c = Some DeadlineExceeded"
  shows "fmlookup (credentials s) a = None"
  using assms by (auto simp: GetProviderCredential_def split: if_splits option.splits)

lemma env_get_credential:
  assumes "world_good w" and "run_state (h_GetProviderCredential env_handle c a) w = (r, w')"
  shows "world_good w' \<and> world_later w w' \<and> world_calls w' = world_calls w \<and>
    (\<forall>e. r = Inl e \<and> errors_is e (StorageErr ErrCredentialNotFound) \<longrightarrow> world_credential w' a = None)"
proof -
  have "world_good w' \<and> world_later w w' \<and> w_requests w' = w_requests w \<and> (r = Inl (StorageErr ErrPersistenceUnknown) \<or>
      (\<exists>c. (c = None \<or> c = Some Canceled \<or> c = Some DeadlineExceeded) \<and> GetProviderCredential c a (w_store w') = r))"
    by (rule read_call) (use assms in \<open>simp_all add: env_handle_def\<close>)
  moreover have "\<not> errors_is (StorageErr ErrPersistenceUnknown) (StorageErr ErrCredentialNotFound)" by simp
  ultimately show ?thesis using GetProviderCredential_absent by (metis Inl_inject)
qed

lemma env_delete_credential:
  assumes "world_good w" and "run_state (h_DeleteRevokedProviderCredential env_handle c d) w = (r, w')"
  shows "world_good w' \<and> world_later w w' \<and> world_calls w' = world_calls w"
proof -
  have step: "s' = s \<or> (\<exists>op q. run_op c op s = (q, s'))" if "DeleteRevokedProviderCredential c d s = (q, s')" for c s q s'
    using that by (metis run_op.simps(5))
  have "world_good w' \<and> world_later w w' \<and> w_requests w' = w_requests w \<and> (r = Some (StorageErr ErrPersistenceUnknown) \<or>
    (\<exists>c s h. (c = None \<or> c = Some Canceled \<or> c = Some DeadlineExceeded) \<and> steps (w_store w) h s \<and> store_inv s \<and>
      DeleteRevokedProviderCredential c d s = (r, w_store w')))"
    by (rule storage_call_cases) (use assms in \<open>simp add: env_handle_def\<close>, rule assms(1), rule step)
  then show ?thesis by simp
qed

interpretation env: revocation_handle env_handle world_good world_later world_calls world_lifecycle world_credential world_rank
proof
  show "world_later w w" for w unfolding world_later_def by (blast intro: steps.intros)
  show "world_later u w" if "world_later u v" "world_later v w" for u v w
    using that steps_append unfolding world_later_def by blast
  show "world_rank w a = revocation_rank (status_of l)" if "world_lifecycle w a = Some l" for w a l
    using that by (simp add: world_rank_def)
  show "world_rank w a \<le> world_rank w' a" if "world_good w" "world_later w w'" for w w' a
  proof (cases "world_lifecycle w a")
    case (Some l)
    then show ?thesis using world_later_kept [OF that Some] by (auto simp: world_rank_def revocation_kept_def simp del: revocation_rank.simps)
  qed (simp add: world_rank_def)
  show "\<exists>l'. world_lifecycle w' a = Some l' \<and> status_of l' = (AccountStateRevoked, st)"
    if "world_good w" "world_later w w'" "world_lifecycle w a = Some l" "status_of l = (AccountStateRevoked, st)" "final_status st" for w w' a l st
    using world_later_kept [OF that(1-3)] that(4,5) by (auto simp: revocation_kept_def)
  show "world_credential w' a = None" if "world_good w" "world_later w w'" "1 \<le> world_rank w a" "world_credential w a = None" for w w' a
    using world_later_kept [OF that(1,2), of a] that(3,4)
    by (auto simp: world_rank_def revocation_kept_def simp del: revocation_rank.simps split: option.splits)
qed (rule env_get_lifecycle env_commit_lifecycle env_get_credential env_delete_credential; assumption)+

interpretation manager: revocation_world env_handle world_good world_later world_calls world_lifecycle world_credential world_rank
  "env_manager ring" for ring
  by unfold_locales
    (auto simp: env_manager_def newManagerWithResolver_def env_transport_def world_good_def world_later_def intro: steps.intros)

end
