(* ===== verification/Account_Properties.thy ===== *)
theory Account_Properties
  imports Account_Manager Store_Properties
begin

text \<open>
  What the account manager guarantees to the operator: a provider is told about the revocation of an
  account at most once however often the operation is repeated, and an answer is only given when the
  store agrees with it, whatever other processes do and whichever requests or answers are lost.
\<close>

section \<open>Repeated revocation\<close>

text \<open>
  Attempts at one revocation: each has its own keyring and, before it, steps of other processes, and
  meets its own surroundings and provider replies.
\<close>

record revoke_try =
  try_ring :: "keyring option res"
  try_before :: "(ctx \<times> store_op) list"
  try_ahead :: "surroundings list"
  try_replies :: "http_reply list"

definition revoke_start :: "revoke_try \<Rightarrow> world \<Rightarrow> world" where
  "revoke_start t w = w\<lparr>w_store := run_ops (try_before t) (w_store w), w_ahead := try_ahead t, w_replies := try_replies t\<rparr>"

fun revoke_tries :: "revoke_try list \<Rightarrow> account_id \<Rightarrow> world \<Rightarrow> world" where
  "revoke_tries [] a w = w"
| "revoke_tries (t # ts) a w = revoke_tries ts a (snd (run_state (Revoke (env_manager (try_ring t)) a) (revoke_start t w)))"

lemma revoke_start_later:
  "world_good w \<Longrightarrow> world_good (revoke_start t w) \<and> world_later w (revoke_start t w) \<and> w_requests (revoke_start t w) = w_requests w"
  using run_ops_steps [of "w_store w" "try_before t"] steps_inv
  by (auto simp: world_good_def world_later_def revoke_start_def)

lemma revoke_tries_bound:
  "world_good w \<Longrightarrow> world_calls (revoke_tries ts a w) \<le> world_calls w + (if world_rank w a \<le> 1 then 1 else 0)"
proof (induction ts a w rule: revoke_tries.induct)
  case (2 t ts a w)
  obtain r v where run: "run_state (Revoke (env_manager (try_ring t)) a) (revoke_start t w) = (r, v)" by fastforce
  note start = revoke_start_later [OF "2.prems", of t]
  have post: "env.revoke_post (revoke_start t w) a r v" by (rule manager.Revoke_run [OF _ run]) (use start in simp)
  have "world_rank w a \<le> world_rank (revoke_start t w) a" "world_rank (revoke_start t w) a \<le> world_rank v a"
    using env.later_rank start "2.prems" post unfolding env.revoke_post_def by blast+
  moreover have "world_calls (revoke_tries ts a v) \<le> world_calls v + (if world_rank v a \<le> 1 then 1 else 0)"
    using "2.IH" post run unfolding env.revoke_post_def by simp
  ultimately show ?case using post start run unfolding env.revoke_post_def by (auto split: if_splits)
qed simp

text \<open>
  C22 (revoke_provider_once): However often the revocation of an account is tried, with whatever keyrings,
  while other processes run any store operations in between and around every storage call, and
  whichever requests, answers or provider replies are lost, the provider receives at most one
  revocation request for it.
\<close>

theorem revoke_provider_once:
  assumes "steps New h (w_store w)"
  shows "length (w_requests (revoke_tries ts a w)) \<le> length (w_requests w) + 1"
  using revoke_tries_bound [of w ts a] steps_inv [OF assms New_inv] by (auto simp: world_good_def split: if_splits)

definition demo_world :: "store \<Rightarrow> world" where
  "demo_world s = \<lparr>w_store = s, w_ahead = [], w_replies = [], w_requests = []\<rparr>"

definition demo_try :: "http_reply \<Rightarrow> revoke_try" where
  "demo_try x = \<lparr>try_ring = Inr None, try_before = [], try_ahead = [\<lparr>sr_others = [], sr_context = Live, sr_fault = LostAnswer\<rparr>],
     try_replies = [x]\<rparr>"

theorem revoke_provider_once_witness:
  "length (w_requests (revoke_tries [demo_try RequestInvalid, demo_try (Response 200 (Some []) None)] demo_id (demo_world demo_active))) \<le> 1"
  using revoke_provider_once [of demo_history "demo_world demo_active"] demo_steps
  by (simp add: demo_world_def del: revoke_tries.simps)

section \<open>What an answer says\<close>

definition revoked_in :: "store \<Rightarrow> account_id \<Rightarrow> revocation_status \<Rightarrow> bool" where
  "revoked_in s a st \<longleftrightarrow> (\<exists>l. fmlookup (lifecycles s) a = Some l \<and> lc_state l = AccountStateRevoked \<and> lc_revocation l = st) \<and>
     fmlookup (credentials s) a = None"

lemma revoke_answer:
  assumes "steps New h (w_store w)" and "run_state (Revoke (env_manager ring) a) w = (r, w')" and "steps (w_store w') h' t"
  shows "r = (RevocationConfirmed, None) \<and> revoked_in t a RevocationStatusConfirmed \<or>
    r = (RevocationManual, Some ErrProviderRevocation) \<and> revoked_in t a RevocationStatusManualActionRequired \<or>
    fst r = [] \<and> snd r \<noteq> None"
proof -
  have "world_good w" using steps_inv [OF assms(1) New_inv] by (simp add: world_good_def)
  from manager.Revoke_run [OF this assms(2)] have good: "world_good w'" and fin: "env.finished a r w'"
    by (simp_all add: env.revoke_post_def)
  have later: "world_later w' (w'\<lparr>w_store := t\<rparr>)" using assms(3) by (auto simp: world_later_def)
  have "revoked_in t a st" if as: "env.revoked_as w' a st" and gone: "world_credential w' a = None" and st: "final_status st" for st
  proof -
    obtain l where l: "world_lifecycle w' a = Some l" "status_of l = (AccountStateRevoked, st)"
      using as unfolding env.revoked_as_def by blast
    have "1 \<le> world_rank w' a" using l st by (auto simp: world_rank_def)
    then have "fmlookup (credentials t) a = None" using env.later_gone [OF good later _ gone] by simp
    moreover obtain l' where "fmlookup (lifecycles t) a = Some l'" "status_of l' = (AccountStateRevoked, st)"
      using env.later_final [OF good later l st] by auto
    ultimately show ?thesis by (simp add: revoked_in_def)
  qed
  then show ?thesis using fin unfolding env.finished_def by blast
qed

text \<open>
  C23 (revoke_truthful): An answer of the revocation is true and stays true. When it answers
  \<^verbatim>\<open>confirmed\<close> (without an error) or \<^verbatim>\<open>manual\<close> (with the provider error), the account is revoked with that
  final status and its credential is gone, in the store at that moment and in every later store; in
  every other case the answer is empty and comes with an error.
\<close>

theorem revoke_truthful:
  assumes "steps New h (w_store w)" and "run_state (Revoke (env_manager ring) a) w = (r, w')" and "steps (w_store w') h' t"
  shows "r = (RevocationConfirmed, None) \<and> revoked_in t a RevocationStatusConfirmed \<or>
    r = (RevocationManual, Some ErrProviderRevocation) \<and> revoked_in t a RevocationStatusManualActionRequired \<or>
    fst r = [] \<and> snd r \<noteq> None"
  by (rule revoke_answer [OF assms])

section \<open>An undisturbed revocation finishes\<close>

text \<open>The next commit on a revoked account, when the manager has read its lifecycle and nobody interferes.\<close>

lemma revoked_commit_ok:
  assumes inv: "store_inv s" and l: "fmlookup (lifecycles s) a = Some l" and v: "lc_version l < MaxInt64"
    and e: "lifecycle_edge (status_of l) (AccountStateRevoked, st)"
  shows "CommitAccountLifecycle None \<lparr>cm_account = a, cm_expected_state = lc_state l, cm_expected_version = lc_version l,
      cm_expected_revocation = lc_revocation l, cm_next_state = AccountStateRevoked, cm_reason = None, cm_revocation = st\<rparr> s =
    (None, s\<lparr>lifecycles := fmupd a \<lparr>lc_account = a, lc_state = AccountStateRevoked, lc_version = lc_version l + 1,
      lc_reason = None, lc_revocation = st\<rparr> (lifecycles s), attempts := fmdrop a (attempts s)\<rparr>)"
    (is "CommitAccountLifecycle None ?c s = _")
proof -
  have ok: "lifecycle_ok a l" using inv l unfolding store_inv_def lifecycles_inv_def by blast
  have acc: "account_id_valid a" using account_valid_inv [OF inv] inv_accounts_lifecycles [OF inv, of a] l by simp
  have valid: "ValidateLifecycleCommit ?c = None"
    using ok acc v e
    by (auto simp: ValidateLifecycleCommit_None lifecycle_ok_def validExpectedLifecycleShape_def validLifecycleShape_def
        validLifecycleTransition_def revoked_status_def lifecycle_edge_simps split: if_splits account_state.splits)
  have differs: "\<not> LifecycleMatchesCommit l ?c" using e by (auto simp: LifecycleMatchesCommit_iff lifecycle_edge_simps)
  show ?thesis
    using l differs next_version [OF valid _ _ refl] ok
    by (simp add: CommitAccountLifecycle_def valid lifecycle_ok_def Let_def)
qed

text \<open>A world in which nobody interferes and the lifecycle \<open>l\<close> is the one of the account.\<close>

definition rests_at :: "world \<Rightarrow> account_id \<Rightarrow> account_lifecycle \<Rightarrow> bool" where
  "rests_at w a l \<longleftrightarrow> store_inv (w_store w) \<and> w_ahead w = [] \<and> world_lifecycle w a = Some l"

lemma rests_account: "rests_at w a l \<Longrightarrow> account_id_valid a \<and> fmlookup (accounts (w_store w)) a \<noteq> None \<and> lc_account l = a"
  using account_valid_inv [of "w_store w" a] inv_accounts_lifecycles [of "w_store w" a]
  by (auto simp: rests_at_def store_inv_def lifecycles_inv_def lifecycle_ok_def)

lemma calm_get_lifecycle: "rests_at w a l \<Longrightarrow> run_state (h_GetAccountLifecycle env_handle c a) w = (Inr l, w)"
  using rests_account [of w a l] by (simp add: env_handle_def calm_call rests_at_def GetAccountLifecycle_def)

lemma calm_get_credential:
  "rests_at w a l \<Longrightarrow> run_state (h_GetProviderCredential env_handle c a) w =
    (case world_credential w a of None \<Rightarrow> Inl (StorageErr ErrCredentialNotFound) | Some k \<Rightarrow> Inr k, w)"
  using rests_account [of w a l] by (auto simp: env_handle_def calm_call rests_at_def GetProviderCredential_def split: option.splits)

definition advance :: "world \<Rightarrow> account_id \<Rightarrow> account_lifecycle \<Rightarrow> revocation_status \<Rightarrow> world" where
  "advance w a l st = w\<lparr>w_store := (w_store w)\<lparr>lifecycles := fmupd a \<lparr>lc_account = a, lc_state = AccountStateRevoked,
     lc_version = lc_version l + 1, lc_reason = None, lc_revocation = st\<rparr> (lifecycles (w_store w)),
     attempts := fmdrop a (attempts (w_store w))\<rparr>\<rparr>"

lemma calm_commit:
  assumes w: "rests_at w a l" and v: "lc_version l < MaxInt64" and e: "lifecycle_edge (status_of l) (AccountStateRevoked, st)"
  shows "run_state (h_CommitAccountLifecycle env_handle c \<lparr>cm_account = a, cm_expected_state = lc_state l,
      cm_expected_version = lc_version l, cm_expected_revocation = lc_revocation l, cm_next_state = AccountStateRevoked,
      cm_reason = None, cm_revocation = st\<rparr>) w = (None, advance w a l st)"
    and "rests_at (advance w a l st) a \<lparr>lc_account = a, lc_state = AccountStateRevoked, lc_version = lc_version l + 1,
      lc_reason = None, lc_revocation = st\<rparr>"
    and "world_credential (advance w a l st) a = world_credential w a"
proof -
  have inv: "store_inv (w_store w)" and l: "fmlookup (lifecycles (w_store w)) a = Some l" and ah: "w_ahead w = []"
    using w by (simp_all add: rests_at_def)
  note commit = revoked_commit_ok [OF inv l v e]
  show "run_state (h_CommitAccountLifecycle env_handle c \<lparr>cm_account = a, cm_expected_state = lc_state l,
      cm_expected_version = lc_version l, cm_expected_revocation = lc_revocation l, cm_next_state = AccountStateRevoked,
      cm_reason = None, cm_revocation = st\<rparr>) w = (None, advance w a l st)"
    using ah by (simp add: env_handle_def calm_call commit advance_def)
  show "rests_at (advance w a l st) a \<lparr>lc_account = a, lc_state = AccountStateRevoked, lc_version = lc_version l + 1,
      lc_reason = None, lc_revocation = st\<rparr>"
    using CommitAccountLifecycle_inv [OF inv commit] ah by (simp add: rests_at_def advance_def)
qed (simp add: advance_def)

lemma calm_deleteCredential:
  assumes w: "rests_at w a l" and st: "lc_state l = AccountStateRevoked" and c: "world_credential w a = Some k"
  shows "fst (run_state (deleteCredential env_handle x a (cred_envelope k)) w) = None"
proof -
  let ?d = "\<lparr>rcd_account = a, rcd_expected = cred_envelope k\<rparr>"
  have inv: "store_inv (w_store w)" and l: "fmlookup (lifecycles (w_store w)) a = Some l" and ah: "w_ahead w = []"
    using w by (simp_all add: rests_at_def)
  have "credential_envelope_valid (cred_envelope k)" using inv c unfolding store_inv_def credentials_inv_def by blast
  then have v: "ValidateRevokedCredentialDelete ?d = None" using rests_account [OF w] by (simp add: ValidateRevokedCredentialDelete_def)
  have del: "DeleteRevokedProviderCredential None ?d (w_store w) =
      (None, (w_store w)\<lparr>credentials := fmdrop a (credentials (w_store w))\<rparr>)"
    by (simp add: DeleteRevokedProviderCredential_def v l st c)
  have "rests_at (w\<lparr>w_store := (w_store w)\<lparr>credentials := fmdrop a (credentials (w_store w))\<rparr>\<rparr>) a l"
    using DeleteRevokedProviderCredential_inv [OF inv del] l ah by (simp add: rests_at_def)
  from calm_get_credential [OF this] have "run_state (h_GetProviderCredential env_handle x a)
      (w\<lparr>w_store := (w_store w)\<lparr>credentials := fmdrop a (credentials (w_store w))\<rparr>\<rparr>) =
      (Inl (StorageErr ErrCredentialNotFound), w\<lparr>w_store := (w_store w)\<lparr>credentials := fmdrop a (credentials (w_store w))\<rparr>\<rparr>)" by simp
  moreover have "run_state (h_DeleteRevokedProviderCredential env_handle x ?d) w =
      (None, w\<lparr>w_store := (w_store w)\<lparr>credentials := fmdrop a (credentials (w_store w))\<rparr>\<rparr>)"
    using ah by (simp add: env_handle_def calm_call del)
  ultimately show ?thesis by (simp add: deleteCredential_def)
qed

text \<open>The answer that goes with a final status.\<close>

definition answer_of :: "revocation_status \<Rightarrow> revocation_result \<times> go_error option" where
  "answer_of st = (if st = RevocationStatusConfirmed then (RevocationConfirmed, None) else (RevocationManual, Some ErrProviderRevocation))"

text \<open>
  The final status an undisturbed revocation comes to. A final status stays; an attempt that was interrupted while the provider
  was contacted is left to the owner; otherwise the provider confirms when there is a credential that the keyring decrypts
  and the provider answers its token with status 200 and a body within the limit.
\<close>

definition provider_confirms :: "keyring option res \<Rightarrow> account_id \<Rightarrow> provider_credential \<Rightarrow> http_reply list \<Rightarrow> bool" where
  "provider_confirms ring a k replies \<longleftrightarrow>
    (\<exists>r token body c rest. ring = Inr (Some r) \<and> DecryptRefreshToken (account_id_string a) (env_text (cred_envelope k)) r = Inr token \<and>
      replies = Response 200 (Some body) c # rest \<and> length body \<le> maximumRevocationBodyBytes)"

definition contact_status :: "keyring option res \<Rightarrow> account_id \<Rightarrow> provider_credential option \<Rightarrow> http_reply list \<Rightarrow> revocation_status" where
  "contact_status ring a cr replies =
    (case cr of None \<Rightarrow> RevocationStatusManualActionRequired
     | Some k \<Rightarrow> if provider_confirms ring a k replies then RevocationStatusConfirmed else RevocationStatusManualActionRequired)"

definition due_status :: "keyring option res \<Rightarrow> account_id \<Rightarrow> account_lifecycle \<Rightarrow> provider_credential option \<Rightarrow> http_reply list \<Rightarrow>
    revocation_status" where
  "due_status ring a l cr replies =
    (if lc_state l = AccountStateRevoked \<and> lc_revocation l \<in> {RevocationStatusConfirmed, RevocationStatusManualActionRequired} then lc_revocation l
     else if lc_state l = AccountStateRevoked \<and> lc_revocation l = RevocationStatusAttempting then RevocationStatusManualActionRequired
     else contact_status ring a cr replies)"

lemma calm_finalize:
  assumes w: "rests_at w a l" and st: "status_of l = (AccountStateRevoked, RevocationStatusAttempting)"
    and v: "lc_version l < MaxInt64" and f: "env.answer_ok fin e" and c: "cr = world_credential w a"
  shows "fst (run_state (finalizeAttemptWithContext env_handle x l cr fin e) w) = answer_of fin"
proof -
  have acc: "lc_account l = a" using rests_account [OF w] by simp
  have edge: "lifecycle_edge (status_of l) (AccountStateRevoked, fin)"
    using f unfolding st by (auto simp: lifecycle_edge_simps env.answer_ok_def)
  note commit = calm_commit [OF w v edge]
  have run: "run_state (h_CommitAccountLifecycle env_handle x \<lparr>cm_account = a, cm_expected_state = AccountStateRevoked,
      cm_expected_version = lc_version l, cm_expected_revocation = RevocationStatusAttempting, cm_next_state = AccountStateRevoked,
      cm_reason = None, cm_revocation = fin\<rparr>) w = (None, advance w a l fin)"
    using commit(1) [of x] st by simp
  have ans: "(if fin = RevocationStatusConfirmed then (RevocationConfirmed, None) else (RevocationManual, e)) = answer_of fin"
    using f by (auto simp: env.answer_ok_def answer_of_def)
  show ?thesis
  proof (cases cr)
    case None
    then show ?thesis using ans unfolding finalizeAttemptWithContext_def Let_def acc by (simp add: run)
  next
    case (Some k)
    then have "fst (run_state (deleteCredential env_handle x a (cred_envelope k)) (advance w a l fin)) = None"
      using calm_deleteCredential [OF commit(2)] commit(3) c by simp
    then show ?thesis using ans Some unfolding finalizeAttemptWithContext_def Let_def acc by (simp add: run split_beta)
  qed
qed

lemmas calm_manual = calm_finalize [where fin = RevocationStatusManualActionRequired and e = "Some ErrProviderRevocation"]

lemma calm_contact:
  assumes w: "rests_at w a l" and st: "status_of l = (AccountStateRevoked, RevocationStatusAttempting)"
    and v: "lc_version l < MaxInt64" and c: "world_credential w a = Some k"
  shows "fst (run_state (contact_provider (env_manager ring) env_handle a l k) w) = answer_of (contact_status ring a (Some k) (w_replies w))"
proof -
  have asked: "fst (run_state (finalizeAttempt env_handle l (Some k) fin e) (w\<lparr>w_replies := R, w_requests := Q\<rparr>)) = answer_of fin"
    if "env.answer_ok fin e" for fin e R Q
    unfolding finalizeAttempt_def
    by (rule calm_finalize [OF _ st v that, where a = a]) (use w c in \<open>simp_all add: rests_at_def\<close>)
  have manual: "fst (run_state (finalizeAttempt env_handle l (Some k) RevocationStatusManualActionRequired (Some ErrProviderRevocation)) w) =
      answer_of RevocationStatusManualActionRequired"
    using asked [of RevocationStatusManualActionRequired "Some ErrProviderRevocation", where R = "w_replies w" and Q = "w_requests w"] by (simp add: env.answer_ok_def)
  have confirms: "fst (fst (run_state (revokeProvider (env_manager ring) t) w)) \<and> snd (fst (run_state (revokeProvider (env_manager ring) t) w)) = None
      \<longleftrightarrow> (\<exists>body c rest. w_replies w = Response 200 (Some body) c # rest \<and> length body \<le> maximumRevocationBodyBytes)" for t
    by (auto simp: revokeProvider_def env_manager_def newManagerWithResolver_def env_transport_def
        split: list.splits http_reply.splits option.splits if_splits)
  obtain R Q where w': "snd (run_state (revokeProvider (env_manager ring) t) w) = w\<lparr>w_replies := R, w_requests := Q t\<rparr>" for t
    by (rule that) (simp add: revokeProvider_def env_manager_def newManagerWithResolver_def env_transport_def)
  show ?thesis
  proof (cases "\<exists>r t. ring = Inr (Some r) \<and> DecryptRefreshToken (account_id_string a) (env_text (cred_envelope k)) r = Inr t")
    case True
    then obtain r t where t: "ring = Inr (Some r)" "DecryptRefreshToken (account_id_string a) (env_text (cred_envelope k)) r = Inr t" by blast
    then have "m_resolveKeyring (env_manager ring) = Inr (Some r)" by (simp add: env_manager_def newManagerWithResolver_def)
    then show ?thesis using confirms [of t] w' [of t] t
      by (cases "run_state (revokeProvider (env_manager ring) t) w"; cases "fst (run_state (revokeProvider (env_manager ring) t) w)")
        (auto simp: contact_provider_def Let_def contact_status_def provider_confirms_def asked env.answer_ok_def)
  next
    case False
    then show ?thesis using manual
      by (auto simp: contact_provider_def env_manager_def newManagerWithResolver_def Let_def contact_status_def provider_confirms_def
          split: sum.splits option.splits)
  qed
qed

lemma calm_claim:
  assumes w: "rests_at w a l" and st: "status_of l = (AccountStateRevoked, RevocationStatusPending)" and v: "lc_version l < MaxInt64 - 1"
  shows "fst (run_state (claim_and_contact (env_manager ring) env_handle a l) w) =
    answer_of (contact_status ring a (world_credential w a) (w_replies w))"
proof -
  let ?l = "\<lparr>lc_account = a, lc_state = AccountStateRevoked, lc_version = lc_version l + 1, lc_reason = None,
      lc_revocation = RevocationStatusAttempting\<rparr>" and ?w = "advance w a l RevocationStatusAttempting"
  have edge: "lifecycle_edge (status_of l) (AccountStateRevoked, RevocationStatusAttempting)"
    unfolding st by (simp add: lifecycle_edge_simps)
  have "lc_version l < MaxInt64" using v by simp
  note commit = calm_commit [OF w this edge]
  have run: "run_state (h_CommitAccountLifecycle env_handle CallerContext \<lparr>cm_account = a, cm_expected_state = AccountStateRevoked,
      cm_expected_version = lc_version l, cm_expected_revocation = RevocationStatusPending, cm_next_state = AccountStateRevoked,
      cm_reason = None, cm_revocation = RevocationStatusAttempting\<rparr>) w = (None, ?w)"
    using commit(1) st by simp
  have "1 \<le> lc_version l" using w by (auto simp: rests_at_def store_inv_def lifecycles_inv_def lifecycle_ok_def)
  then have plus: "int64_add (lc_version l) 1 = lc_version l + 1" using v by (intro int64_add_exact) (simp_all add: MaxInt64_def)
  have manual: "world_credential w a = None \<Longrightarrow>
      fst (run_state (finalizeAttempt env_handle ?l None RevocationStatusManualActionRequired (Some ErrProviderRevocation)) ?w) =
      answer_of RevocationStatusManualActionRequired"
    unfolding finalizeAttempt_def
    by (rule calm_manual [OF commit(2)]) (use v commit(3) in \<open>simp_all add: env.answer_ok_def\<close>)
  have contact: "world_credential w a = Some k \<Longrightarrow> fst (run_state (contact_provider (env_manager ring) env_handle a ?l k) ?w) =
      answer_of (contact_status ring a (Some k) (w_replies ?w))" for k
    by (rule calm_contact [OF commit(2)]) (use v commit(3) in simp_all)
  have replies: "w_replies ?w = w_replies w" by (simp add: advance_def)
  show ?thesis
    using manual contact commit(3) replies
    by (auto simp: contact_status_def claim_and_contact_def Let_def run calm_get_lifecycle [OF commit(2)] calm_get_credential [OF commit(2)]
        LifecycleMatchesCommit_iff plus split: option.splits)
qed

lemma calm_reconcile:
  assumes w: "rests_at w a l" and st: "lc_state l = AccountStateRevoked"
  shows "fst (run_state (reconcileFinalized env_handle l) w) = answer_of (lc_revocation l)"
proof -
  have acc: "lc_account l = a" using rests_account [OF w] by simp
  show ?thesis
    using calm_deleteCredential [OF w st]
    by (auto simp: reconcileFinalized_def Let_def acc calm_get_credential [OF w] answer_of_def split_beta split: option.splits)
qed

lemma calm_without_provider:
  assumes w: "rests_at w a l" and st: "status_of l = (AccountStateRevoked, RevocationStatusAttempting)" and v: "lc_version l < MaxInt64"
  shows "fst (run_state (finalizeWithoutProvider env_handle l) w) = answer_of RevocationStatusManualActionRequired"
proof -
  have acc: "lc_account l = a" using rests_account [OF w] by simp
  have "cr = world_credential w a \<Longrightarrow> fst (run_state (finalizeAttemptWithContext env_handle CleanupContext l cr
      RevocationStatusManualActionRequired (Some ErrProviderRevocation)) w) = answer_of RevocationStatusManualActionRequired" for cr
    by (rule calm_manual [OF w st v]) (simp_all add: env.answer_ok_def)
  then show ?thesis
    by (auto simp: finalizeWithoutProvider_def acc calm_get_credential [OF w] split: option.splits)
qed

lemma calm_intent:
  assumes w: "rests_at w a l" and st: "lc_state l \<noteq> AccountStateRevoked" and v: "lc_version l < MaxInt64"
  shows "run_state (revoke_intent env_handle a l) w = (Inr \<lparr>lc_account = a, lc_state = AccountStateRevoked,
      lc_version = lc_version l + 1, lc_reason = None, lc_revocation = RevocationStatusPending\<rparr>, advance w a l RevocationStatusPending)"
    and "rests_at (advance w a l RevocationStatusPending) a \<lparr>lc_account = a, lc_state = AccountStateRevoked,
      lc_version = lc_version l + 1, lc_reason = None, lc_revocation = RevocationStatusPending\<rparr>"
proof -
  have "lifecycle_ok a l" using w unfolding rests_at_def store_inv_def lifecycles_inv_def by blast
  then have edge: "lifecycle_edge (status_of l) (AccountStateRevoked, RevocationStatusPending)"
    using st by (auto simp: lifecycle_edge_simps lifecycle_ok_def validLifecycleShape_def split: if_splits account_state.splits)
  note commit = calm_commit [OF w v edge]
  show "run_state (revoke_intent env_handle a l) w = (Inr \<lparr>lc_account = a, lc_state = AccountStateRevoked,
      lc_version = lc_version l + 1, lc_reason = None, lc_revocation = RevocationStatusPending\<rparr>, advance w a l RevocationStatusPending)"
    by (simp add: revoke_intent_def Let_def commit(1) calm_get_lifecycle [OF commit(2)] LifecycleMatchesCommit_iff)
  show "rests_at (advance w a l RevocationStatusPending) a \<lparr>lc_account = a, lc_state = AccountStateRevoked,
      lc_version = lc_version l + 1, lc_reason = None, lc_revocation = RevocationStatusPending\<rparr>" by (rule commit(2))
qed

lemma calm_Revoke:
  assumes w: "rests_at w a l" and v: "lc_version l \<le> MaxInt64 - 3"
  shows "fst (run_state (Revoke (env_manager ring) a) w) = answer_of (due_status ring a l (world_credential w a) (w_replies w))"
proof -
  have store: "m_store (env_manager ring) = Some env_handle" by (simp add: env_manager_def newManagerWithResolver_def)
  have ok: "lifecycle_ok a l" using w unfolding rests_at_def store_inv_def lifecycles_inv_def by blast
  have v': "lc_version l < MaxInt64" "lc_version l < MaxInt64 - 1" "\<not> lc_version l > MaxInt64 - 3" "\<not> lc_version l > MaxInt64 - 2"
    "\<not> lc_version l > MaxInt64 - 1" using v by simp_all
  show ?thesis
  proof (cases "lc_state l = AccountStateRevoked")
    case True
    then have "lc_revocation l = RevocationStatusPending \<or> lc_revocation l = RevocationStatusAttempting \<or> final_status (lc_revocation l)"
      using ok by (cases "lc_revocation l") (auto simp: lifecycle_ok_def validLifecycleShape_def revoked_status_def split: if_splits)
    then show ?thesis
      using True v' calm_reconcile [OF w True] calm_without_provider [OF w _ v'(1)] calm_claim [OF w _ v'(2)]
      by (elim disjE) (auto simp: Revoke_def store calm_get_lifecycle [OF w] remaining_transitions_def due_status_def)
  next
    case False
    note intent = calm_intent [OF w False v'(1)]
    have live: "remaining_transitions l = Inr 3" using False ok
      by (cases "lc_state l") (simp_all add: remaining_transitions_def lifecycle_ok_def)
    have same: "world_credential (advance w a l RevocationStatusPending) a = world_credential w a"
      "w_replies (advance w a l RevocationStatusPending) = w_replies w" by (simp_all add: advance_def)
    show ?thesis
      using False v v' calm_claim [OF intent(2)] same
      by (simp add: due_status_def Revoke_def store calm_get_lifecycle [OF w] live intent(1))
  qed
qed

lemma due_final: "due_status ring a l cr replies \<in> {RevocationStatusConfirmed, RevocationStatusManualActionRequired}"
  by (auto simp: due_status_def contact_status_def split: option.splits)

text \<open>
  C24 (revoke_finishes): A revocation that nobody disturbs finishes, with a known result. From every store a history reaches, for every
  account with a lifecycle whose version leaves room for the three transitions, whatever the keyring is and
  whatever the provider answers, the account ends revoked and its credential deleted, also when an earlier attempt stopped
  anywhere on the way. The stored status and the answer are those the state before determines: a final status stays,
  an attempt that stopped while the provider was contacted ends in \<^verbatim>\<open>manual\<close>, and otherwise the answer is \<^verbatim>\<open>confirmed\<close> exactly when
  the credential decrypts and the provider accepts its token.
\<close>

theorem revoke_finishes:
  assumes "steps New h (w_store w)" and "w_ahead w = []" and "fmlookup (lifecycles (w_store w)) a = Some l"
    and "lc_version l \<le> MaxInt64 - 3" and "st = due_status ring a l (fmlookup (credentials (w_store w)) a) (w_replies w)"
  shows "\<exists>w'. run_state (Revoke (env_manager ring) a) w =
      (if st = RevocationStatusConfirmed then (RevocationConfirmed, None) else (RevocationManual, Some ErrProviderRevocation), w') \<and>
    revoked_in (w_store w') a st"
proof -
  obtain r w' where run: "run_state (Revoke (env_manager ring) a) w = (r, w')" by fastforce
  have "r = answer_of st"
    using calm_Revoke [of w a l ring] steps_inv [OF assms(1) New_inv] assms(2-5) run by (simp add: rests_at_def)
  moreover from this have "revoked_in (w_store w') a st"
    using revoke_answer [OF assms(1) run steps_Nil] due_final [of ring a l "fmlookup (credentials (w_store w)) a" "w_replies w"] assms(5)
    by (auto simp: answer_of_def RevocationConfirmed_def RevocationManual_def)
  ultimately show ?thesis using run by (simp add: answer_of_def)
qed

lemma demo_due: "due_status (Inr None) demo_id \<lparr>lc_account = demo_id, lc_state = AccountStateRevoked, lc_version = 2, lc_reason = None,
    lc_revocation = RevocationStatusPending\<rparr> cr [] = RevocationStatusManualActionRequired"
  by (simp add: due_status_def contact_status_def provider_confirms_def split: option.splits)

theorem revoke_finishes_witness:
  "\<exists>w'. run_state (Revoke (env_manager (Inr None)) demo_id) (demo_world demo_revoked) = ((RevocationManual, Some ErrProviderRevocation), w') \<and>
    revoked_in (w_store w') demo_id RevocationStatusManualActionRequired"
proof -
  have w: "w_store (demo_world demo_revoked) = demo_revoked" "w_ahead (demo_world demo_revoked) = []" "w_replies (demo_world demo_revoked) = []"
    by (simp_all add: demo_world_def)
  from revoke_finishes [of _ "demo_world demo_revoked", unfolded w, OF demo_revoked_steps refl demo_revoked_lookup _ refl, of "Inr None"]
  show ?thesis by (simp add: MaxInt64_def demo_due)
qed

theorem revoke_truthful_witness:
  "revoked_in (w_store (snd (run_state (Revoke (env_manager (Inr None)) demo_id) (demo_world demo_revoked)))) demo_id
      RevocationStatusManualActionRequired"
proof -
  let ?run = "run_state (Revoke (env_manager (Inr None)) demo_id) (demo_world demo_revoked)"
  have "rests_at (demo_world demo_revoked) demo_id \<lparr>lc_account = demo_id, lc_state = AccountStateRevoked, lc_version = 2,
      lc_reason = None, lc_revocation = RevocationStatusPending\<rparr>"
    using steps_inv [OF demo_revoked_steps New_inv] demo_revoked_lookup by (simp add: rests_at_def demo_world_def)
  from calm_Revoke [OF this, of "Inr None"] have "fst ?run = (RevocationManual, Some ErrProviderRevocation)"
    by (simp add: MaxInt64_def demo_world_def demo_due answer_of_def)
  moreover have "w_store (demo_world demo_revoked) = demo_revoked" by (simp add: demo_world_def)
  ultimately show ?thesis
    using revoke_truthful [of _ "demo_world demo_revoked", unfolded \<open>w_store (demo_world demo_revoked) = demo_revoked\<close>,
        OF demo_revoked_steps prod.collapse [symmetric, of ?run] steps_Nil]
    by (auto simp: RevocationConfirmed_def RevocationManual_def)
qed

end
