(* ===== verification/Review_Inspect.thy ===== *)
theory Review_Inspect
  imports Store_Decisions
begin

text \<open>
  \<^verbatim>\<open>internal/reviewinspect/service.go\<close> with the values of \<^verbatim>\<open>internal/reviewinspectview/types.go\<close>: the
  bounded, paged list of review candidates, the reasons behind one decision, and the authenticated
  cursor that carries a page to the next. The source of rows is a record of two reads; what
  \<^verbatim>\<open>ctx.Err()\<close> reports after a read is a second argument next to the context of the call. A policy
  comes from a configuration, whose lists are never nil, so they are written as JSON arrays.
\<close>

section \<open>Values\<close>

definition OutputVersion1 :: nat where "OutputVersion1 = 1"
definition MaximumCursorBytes :: nat where "MaximumCursorBytes = 414"
definition MaximumInternalDateUnixMS :: int where "MaximumInternalDateUnixMS = 253402300799999"
definition ContentTrustUntrustedEmail :: string where "ContentTrustUntrustedEmail = ''untrusted_email''"
definition UrgencyStandard :: string where "UrgencyStandard = ''standard''"
definition UrgencyUrgent :: string where "UrgencyUrgent = ''urgent''"
definition cursorPrefix :: string where "cursorPrefix = ''igrc2.''"
definition cursorMACDomain :: string where "cursorMACDomain = ''inboxgate/review-cursor/v2''"
definition cursorFormatVersion :: nat where "cursorFormatVersion = 2"
definition cursorMACKeyBytes :: nat where "cursorMACKeyBytes = 32"

record list_request =
  lr_account_ids :: "string list option"
  lr_urgency :: string
  lr_date_min :: "int option"
  lr_date_max :: "int option"
  lr_page_size :: u64
  lr_cursor :: string

record candidate =
  cd_account :: string
  cd_thread :: string
  cd_message :: string
  cd_date :: int
  cd_urgency :: string
  cd_outcome :: string
  cd_sender_preview :: string
  cd_sender_truncated :: bool
  cd_sender_address :: string
  cd_subject_preview :: string
  cd_subject_truncated :: bool
  cd_has_attachments :: bool
  cd_content_trust :: string

record candidate_page =
  pg_version :: nat
  pg_candidates :: "candidate list"
  pg_next :: "string option"

record gate_reason_request =
  gq_account :: string
  gq_message :: string
  gq_thread :: string

record gate_reason =
  gz_version :: nat
  gz_account :: string
  gz_thread :: string
  gz_message :: string
  gz_gate_version :: u32
  gz_outcome :: string
  gz_reasons :: "string list"
  gz_evaluated_at :: int
  gz_source_current :: bool
  gz_policy_current :: bool

record review_config =
  rc_default_page_size :: u64
  rc_maximum_page_size :: u64
  rc_automatic_tasks :: bool

record review_source =
  rs_ListReviewCandidates :: "ctx \<Rightarrow> review_candidate_query \<Rightarrow> review_candidate_row list res"
  rs_GetCurrentGateInspection :: "ctx \<Rightarrow> account_id \<Rightarrow> string \<Rightarrow> current_gate_inspection res"

record review_service =
  sv_source :: review_source
  sv_policy :: gate_policy
  sv_review :: review_config
  sv_key :: string

section \<open>Construction\<close>

definition newWithCursorKey ::
  "golib \<Rightarrow> review_source option \<Rightarrow> gate_policy \<Rightarrow> review_config \<Rightarrow> string \<Rightarrow> review_service res" where
  "newWithCursorKey lib source policy review key =
    (case source of None \<Rightarrow> Inl ErrInvalidRequest | Some src \<Rightarrow>
     if ValidatePolicy lib policy \<noteq> None \<or> rc_default_page_size review = 0 \<or> rc_maximum_page_size review = 0
     then Inl ErrInvalidRequest
     else Inr \<lparr>sv_source = src, sv_policy = policy, sv_review = review, sv_key = key\<rparr>)"

text \<open>The entropy is what one \<^verbatim>\<open>Read\<close> into the key returns: the bytes, or an error.\<close>

definition newWithCursorEntropy ::
  "golib \<Rightarrow> review_source option \<Rightarrow> gate_policy \<Rightarrow> review_config \<Rightarrow> string res option \<Rightarrow> review_service res" where
  "newWithCursorEntropy lib source policy review entropy =
    (if source = None \<or> ValidatePolicy lib policy \<noteq> None \<or> rc_default_page_size review = 0 \<or> rc_maximum_page_size review = 0
     then Inl ErrInvalidRequest
     else case entropy of
       None \<Rightarrow> Inl ErrUnavailable
     | Some (Inl _) \<Rightarrow> Inl ErrUnavailable
     | Some (Inr key) \<Rightarrow>
         if length key \<noteq> cursorMACKeyBytes then Inl ErrUnavailable
         else newWithCursorKey lib source policy review key)"

section \<open>Cursors\<close>

definition strings_compare :: "string \<Rightarrow> string \<Rightarrow> int" where
  "strings_compare a b = (if a = b then 0 else if a < b then - 1 else 1)"

definition compareKey :: "review_cursor_key \<Rightarrow> review_cursor_key \<Rightarrow> int" where
  "compareKey l r =
    (let value = strings_compare (account_id_string (rk_account l)) (account_id_string (rk_account r)) in
     if value \<noteq> 0 then value
     else let value = strings_compare (rk_thread l) (rk_thread r) in
       if value \<noteq> 0 then value else strings_compare (rk_message l) (rk_message r))"

definition selectedAccount :: "account_id list \<Rightarrow> account_id \<Rightarrow> bool" where
  "selectedAccount ids a \<longleftrightarrow> length ids = 0 \<or> a \<in> set ids"

definition cursorMAC :: "review_service \<Rightarrow> string \<Rightarrow> string \<Rightarrow> string" where
  "cursorMAC service binding payload =
    hmac_sha256 (sv_key service) (cursorMACDomain @ [CHR 0x00] @ binding @ [CHR 0x00] @ payload)"

definition encodeCursor :: "review_service \<Rightarrow> string \<Rightarrow> review_cursor_key \<Rightarrow> string res" where
  "encodeCursor service binding key =
    (if \<not> rk_present key \<or> length (rk_thread key) + length (rk_message key) > 255 then Inl ErrUnavailable
     else case hex_decode (account_id_string (rk_account key)) of
       None \<Rightarrow> Inl ErrUnavailable
     | Some accountBytes \<Rightarrow>
         if length accountBytes \<noteq> 16 then Inl ErrUnavailable
         else
           let payload = [char_of cursorFormatVersion] @ accountBytes @ [char_of (length (rk_thread key))] @ rk_thread key @
                 [char_of (length (rk_message key))] @ rk_message key;
               encoded = cursorPrefix @ b64_encode (payload @ cursorMAC service binding payload)
           in if length encoded > MaximumCursorBytes then Inl ErrUnavailable else Inr encoded)"

definition decodeCursor :: "review_service \<Rightarrow> string \<Rightarrow> string \<Rightarrow> review_cursor_key res" where
  "decodeCursor service text binding =
    (if length text > MaximumCursorBytes \<or> \<not> has_prefix text cursorPrefix \<or> contains text ''='' then Inl ErrInvalidRequest
     else let raw = drop (length cursorPrefix) text in
     case b64_decode False raw of
       None \<Rightarrow> Inl ErrInvalidRequest
     | Some payload \<Rightarrow>
         if b64_encode payload \<noteq> raw \<or> length payload < 53 \<or> payload ! 0 \<noteq> char_of cursorFormatVersion
         then Inl ErrInvalidRequest
         else let tagStart = length payload - 32 in
           if tagStart < 21 \<or> drop tagStart payload \<noteq> cursorMAC service binding (take tagStart payload)
           then Inl ErrInvalidRequest
           else case ParseAccountID (hex_encode (take 16 (drop 1 payload))) of
             Inl _ \<Rightarrow> Inl ErrInvalidRequest
           | Inr accountID \<Rightarrow>
               let threadLength = bval (payload ! 17); threadEnd = 18 + threadLength in
               if threadLength = 0 \<or> threadEnd \<ge> tagStart then Inl ErrInvalidRequest
               else let messageLength = bval (payload ! threadEnd) in
                 if messageLength = 0 \<or> threadEnd + 1 + messageLength \<noteq> tagStart then Inl ErrInvalidRequest
                 else case NewReviewCursorKey accountID (take (threadEnd - 18) (drop 18 payload))
                        (take (tagStart - (threadEnd + 1)) (drop (threadEnd + 1) payload)) of
                   Inl _ \<Rightarrow> Inl ErrInvalidRequest
                 | Inr key \<Rightarrow> Inr key)"

section \<open>Requests\<close>

definition json_number_of :: "int \<Rightarrow> json" where
  "json_number_of n = JNum (format_int n)"

definition json_optional :: "int option \<Rightarrow> json" where
  "json_optional o' = (case o' of None \<Rightarrow> JNull | Some n \<Rightarrow> json_number_of n)"

definition policy_json :: "gate_policy \<Rightarrow> json" where
  "policy_json p = JObj
    [(''Version'', json_number_of (uint (g_version p))),
     (''ExcludedLabels'', json_strings (g_excluded_labels p)),
     (''SuppressGmailCategories'', json_strings (g_suppress_categories p)),
     (''DirectRecipientIsCandidate'', JBool (g_direct_candidate p)),
     (''MailingListIsBulkSignal'', JBool (g_list_bulk p)),
     (''SenderAllowDomains'', json_strings (g_allow_domains p)),
     (''SenderBlockDomains'', json_strings (g_block_domains p)),
     (''SubjectCandidateTerms'', json_strings (g_candidate_terms p)),
     (''SubjectUrgentTerms'', json_strings (g_urgent_terms p))]"

definition requestBinding :: "review_service \<Rightarrow> list_request \<Rightarrow> review_urgency \<Rightarrow> u64 \<Rightarrow> string" where
  "requestBinding service request urgency pageSize = json_print True (JObj
    [(''domain'', JStr cursorMACDomain),
     (''output_version'', json_number_of (int OutputVersion1)),
     (''cursor_format_version'', json_number_of (int cursorFormatVersion)),
     (''account_ids'', case lr_account_ids request of None \<Rightarrow> JNull | Some ids \<Rightarrow> json_strings ids),
     (''all_accounts'', JBool (lr_account_ids request = None)),
     (''urgency'', JStr urgency),
     (''minimum'', json_optional (lr_date_min request)),
     (''maximum'', json_optional (lr_date_max request)),
     (''page_size'', json_number_of (uint pageSize)),
     (''policy'', policy_json (sv_policy service))])"

definition request_accounts :: "list_request \<Rightarrow> string list" where
  "request_accounts request = (case lr_account_ids request of None \<Rightarrow> [] | Some ids \<Rightarrow> ids)"

definition date_outside :: "int option \<Rightarrow> bool" where
  "date_outside d = (case d of None \<Rightarrow> False | Some x \<Rightarrow> x < 0 \<or> x > MaximumInternalDateUnixMS)"

definition dates_crossed :: "int option \<Rightarrow> int option \<Rightarrow> bool" where
  "dates_crossed lo hi = (case (lo, hi) of (Some x, Some y) \<Rightarrow> x > y | _ \<Rightarrow> False)"

text \<open>The loop over the selectors: each parses, and they strictly increase.\<close>

fun parse_selectors :: "string option \<Rightarrow> string list \<Rightarrow> account_id list option" where
  "parse_selectors prior [] = Some []"
| "parse_selectors prior (v # vs) = (case ParseAccountID v of
     Inl _ \<Rightarrow> None
   | Inr a \<Rightarrow> if (case prior of None \<Rightarrow> False | Some p \<Rightarrow> p \<ge> v) then None
       else map_option ((#) a) (parse_selectors (Some v) vs))"

record normal_request =
  nr_accounts :: "account_id list"
  nr_urgency :: review_urgency
  nr_page_size :: int
  nr_binding :: string
  nr_cursor :: review_cursor_key

definition normalizeList :: "review_service \<Rightarrow> list_request \<Rightarrow> normal_request res" where
  "normalizeList service request =
    (if lr_account_ids request = Some [] \<or> length (request_accounts request) > MaximumReviewAccountSelectors \<or>
        date_outside (lr_date_min request) \<or> date_outside (lr_date_max request) \<or>
        dates_crossed (lr_date_min request) (lr_date_max request)
     then Inl ErrInvalidRequest
     else case parse_selectors None (request_accounts request) of
       None \<Rightarrow> Inl ErrInvalidRequest
     | Some ids \<Rightarrow>
         let urgency = (if lr_urgency request = [] then ReviewUrgencyAll else lr_urgency request);
             maximum = min (rc_maximum_page_size (sv_review service)) 10;
             pageSize = (if lr_page_size request = 0 then min (rc_default_page_size (sv_review service)) maximum
                         else lr_page_size request)
         in if \<not> urgency_valid urgency then Inl ErrInvalidRequest
            else if pageSize < 1 \<or> pageSize > maximum then Inl ErrInvalidRequest
            else let binding = requestBinding service request urgency pageSize in
              case (if lr_cursor request = [] then Inr zero_cursor_key else decodeCursor service (lr_cursor request) binding) of
                Inl _ \<Rightarrow> Inl ErrInvalidRequest
              | Inr cursor \<Rightarrow> Inr \<lparr>nr_accounts = ids, nr_urgency = urgency, nr_page_size = uint pageSize,
                  nr_binding = binding, nr_cursor = cursor\<rparr>)"

section \<open>The list\<close>

text \<open>\<^verbatim>\<open>for end > 0 && !utf8.RuneStart(value[end]) { end-- }\<close>\<close>

fun preview_end :: "string \<Rightarrow> nat \<Rightarrow> nat" where
  "preview_end s 0 = 0"
| "preview_end s (Suc n) = (if \<not> rune_start (s ! Suc n) then preview_end s n else Suc n)"

definition Preview :: "string \<Rightarrow> nat \<Rightarrow> (string \<times> bool) res" where
  "Preview s maximum =
    (if maximum < 1 \<or> \<not> valid_utf8 s then Inl ErrInvalidRequest
     else if length s \<le> maximum then Inr (s, False)
     else Inr (take (preview_end s maximum) s, True))"

definition classificationMatchesDecision :: "classification \<Rightarrow> gate_decision \<Rightarrow> bool" where
  "classificationMatchesDecision c d \<longleftrightarrow> cl_version c = gd_version d \<and> cl_source_hash c = gd_source_hash d \<and>
     cl_input_hash c = gd_input_hash d \<and> cl_outcome c = gd_outcome d \<and> cl_reasons c = gd_reasons d"

definition row_account :: "review_candidate_row \<Rightarrow> account_id" where
  "row_account row = (case ParseAccountID (msg_account (row_message row)) of Inl _ \<Rightarrow> AccountID [] | Inr a \<Rightarrow> a)"

definition row_cursor :: "review_candidate_row \<Rightarrow> review_cursor_key" where
  "row_cursor row = (case NewReviewCursorKey (row_account row) (msg_thread_id (row_message row)) (msg_gmail_id (row_message row)) of
     Inl _ \<Rightarrow> zero_cursor_key | Inr key \<Rightarrow> key)"

text \<open>The first loop: the rows are valid, selected, after the cursor and in order.\<close>

fun rows_ordered :: "account_id list \<Rightarrow> review_cursor_key \<Rightarrow> review_cursor_key \<Rightarrow> review_candidate_row list \<Rightarrow> bool" where
  "rows_ordered ids cursor previous [] \<longleftrightarrow> True"
| "rows_ordered ids cursor previous (row # rows) \<longleftrightarrow>
    (if \<not> row_valid row then False
     else if \<not> is_ok (ParseAccountID (msg_account (row_message row))) \<or>
        \<not> is_ok (NewReviewCursorKey (row_account row) (msg_thread_id (row_message row)) (msg_gmail_id (row_message row))) \<or>
        \<not> selectedAccount ids (row_account row) \<or>
        rk_present cursor \<and> compareKey cursor (row_cursor row) \<ge> 0 \<or>
        rk_present previous \<and> compareKey previous (row_cursor row) \<ge> 0
     then False
     else rows_ordered ids cursor (row_cursor row) rows)"

definition date_filtered :: "list_request \<Rightarrow> message \<Rightarrow> bool" where
  "date_filtered request m \<longleftrightarrow>
    (case lr_date_min request of None \<Rightarrow> False | Some x \<Rightarrow> InternalDateUnixMS m < x) \<or>
    (case lr_date_max request of None \<Rightarrow> False | Some x \<Rightarrow> InternalDateUnixMS m > x)"

definition row_urgency :: "classification \<Rightarrow> string" where
  "row_urgency current = (if cl_outcome current = OutcomeUrgentReviewCandidate then UrgencyUrgent else UrgencyStandard)"

definition candidate_of :: "classification \<Rightarrow> message \<Rightarrow> string \<times> bool \<Rightarrow> string \<times> bool \<Rightarrow> candidate" where
  "candidate_of current m sender subject =
    \<lparr>cd_account = msg_account m, cd_thread = msg_thread_id m, cd_message = msg_gmail_id m, cd_date = InternalDateUnixMS m,
     cd_urgency = row_urgency current, cd_outcome = cl_outcome current, cd_sender_preview = fst sender,
     cd_sender_truncated = snd sender, cd_sender_address = md_sender_address (msg_metadata m), cd_subject_preview = fst subject,
     cd_subject_truncated = snd subject, cd_has_attachments = md_has_attachments (msg_metadata m),
     cd_content_trust = ContentTrustUntrustedEmail\<rparr>"

text \<open>What the scan makes of one row: nothing, a candidate, or a failure.\<close>

definition scan_row :: "golib \<Rightarrow> review_service \<Rightarrow> list_request \<Rightarrow> review_urgency \<Rightarrow> review_candidate_row \<Rightarrow> candidate option res" where
  "scan_row lib service request urgency row =
    (case Classify lib (row_message row) (sv_policy service) of
       Inl _ \<Rightarrow> Inr None
     | Inr current \<Rightarrow>
         if \<not> classificationMatchesDecision current (row_decision row) then Inr None
         else if date_filtered request (row_message row) then Inr None
         else if urgency = ReviewUrgencyStandard \<and> row_urgency current \<noteq> UrgencyStandard \<or>
                 urgency = ReviewUrgencyUrgent \<and> row_urgency current \<noteq> UrgencyUrgent
         then Inr None
         else case (Preview (md_sender_display (msg_metadata (row_message row))) 256,
                    Preview (md_subject (msg_metadata (row_message row))) 512) of
           (Inr sender, Inr subject) \<Rightarrow> Inr (Some (candidate_of current (row_message row) sender subject))
         | _ \<Rightarrow> Inl ErrUnavailable)"

text \<open>The second loop, with the number of rows scanned and the cursor of the last one.\<close>

fun scan_rows :: "golib \<Rightarrow> review_service \<Rightarrow> list_request \<Rightarrow> review_urgency \<Rightarrow> int \<Rightarrow>
    nat \<Rightarrow> review_cursor_key \<Rightarrow> candidate list \<Rightarrow> review_candidate_row list \<Rightarrow> (nat \<times> review_cursor_key \<times> candidate list) res" where
  "scan_rows lib service request urgency pageSize scanned continuation cs [] = Inr (scanned, continuation, cs)"
| "scan_rows lib service request urgency pageSize scanned continuation cs (row # rows) =
    (if scanned = MaximumReviewScanRows then Inr (scanned, continuation, cs)
     else case scan_row lib service request urgency row of
       Inl e \<Rightarrow> Inl e
     | Inr None \<Rightarrow> scan_rows lib service request urgency pageSize (scanned + 1) (row_cursor row) cs rows
     | Inr (Some c) \<Rightarrow>
         if int (length (cs @ [c])) = pageSize then Inr (scanned + 1, row_cursor row, cs @ [c])
         else scan_rows lib service request urgency pageSize (scanned + 1) (row_cursor row) (cs @ [c]) rows)"

definition review_List :: "golib \<Rightarrow> review_service \<Rightarrow> ctx \<Rightarrow> ctx \<Rightarrow> list_request \<Rightarrow> candidate_page res" where
  "review_List lib service ctx after request =
    (case normalizeList service request of
       Inl _ \<Rightarrow> Inl ErrInvalidRequest
     | Inr n \<Rightarrow> (case NewReviewCandidateQuery (nr_accounts n) (nr_urgency n) (nr_page_size n) (nr_cursor n) MaximumReviewSourceRows of
         Inl _ \<Rightarrow> Inl ErrInvalidRequest
       | Inr query \<Rightarrow> (case rs_ListReviewCandidates (sv_source service) ctx query of
           Inl _ \<Rightarrow> Inl ErrUnavailable
         | Inr rows \<Rightarrow>
             if after \<noteq> None \<or> int (length rows) > MaximumReviewSourceRows then Inl ErrUnavailable
             else if \<not> rows_ordered (nr_accounts n) (nr_cursor n) zero_cursor_key rows then Inl ErrUnavailable
             else case scan_rows lib service request (nr_urgency n) (nr_page_size n) 0 zero_cursor_key [] rows of
               Inl e \<Rightarrow> Inl e
             | Inr (scanned, continuation, cs) \<Rightarrow>
                 if rk_present continuation \<and> (int (length cs) = nr_page_size n \<or> length rows > scanned)
                 then (case encodeCursor service (nr_binding n) continuation of
                     Inl _ \<Rightarrow> Inl ErrUnavailable
                   | Inr encoded \<Rightarrow> Inr \<lparr>pg_version = OutputVersion1, pg_candidates = cs, pg_next = Some encoded\<rparr>)
                 else Inr \<lparr>pg_version = OutputVersion1, pg_candidates = cs, pg_next = None\<rparr>)))"

section \<open>The reasons behind one decision\<close>

definition GateReason :: "golib \<Rightarrow> review_service \<Rightarrow> ctx \<Rightarrow> ctx \<Rightarrow> gate_reason_request \<Rightarrow> gate_reason res" where
  "GateReason lib service ctx after request =
    (case ParseAccountID (gq_account request) of
       Inl _ \<Rightarrow> Inl ErrInvalidRequest
     | Inr accountID \<Rightarrow>
         if ValidateGmailMessageID (gq_message request) \<noteq> None \<or> gq_thread request \<noteq> [] then Inl ErrInvalidRequest
         else case rs_GetCurrentGateInspection (sv_source service) ctx accountID (gq_message request) of
           Inl _ \<Rightarrow> Inl ErrUnavailable
         | Inr inspection \<Rightarrow>
             if after \<noteq> None \<or> \<not> inspection_valid inspection \<or> msg_account (ins_message inspection) \<noteq> gq_account request \<or>
                msg_gmail_id (ins_message inspection) \<noteq> gq_message request
             then Inl ErrUnavailable
             else case Classify lib (ins_message inspection) (sv_policy service) of
               Inl _ \<Rightarrow> Inl ErrUnavailable
             | Inr current \<Rightarrow>
                 if \<not> classificationMatchesDecision current (ins_decision inspection) then Inl ErrUnavailable
                 else Inr \<lparr>gz_version = OutputVersion1, gz_account = gq_account request,
                   gz_thread = msg_thread_id (ins_message inspection), gz_message = gq_message request,
                   gz_gate_version = cl_version current, gz_outcome = cl_outcome current, gz_reasons = cl_reasons current,
                   gz_evaluated_at = gd_evaluated_at (ins_decision inspection), gz_source_current = True,
                   gz_policy_current = True\<rparr>)"
section \<open>Cursors are exactly the authenticated keys\<close>

definition cursor_body :: "review_cursor_key \<Rightarrow> string" where
  "cursor_body k = [char_of cursorFormatVersion] @ the (hex_decode (account_id_string (rk_account k))) @
     [char_of (length (rk_thread k))] @ rk_thread k @ [char_of (length (rk_message k))] @ rk_message k"

definition cursor_text :: "review_service \<Rightarrow> string \<Rightarrow> review_cursor_key \<Rightarrow> string" where
  "cursor_text service binding k = cursorPrefix @ b64_encode (cursor_body k @ cursorMAC service binding (cursor_body k))"

definition cursor_for :: "review_cursor_key \<Rightarrow> bool" where
  "cursor_for k \<longleftrightarrow> rk_present k \<and> cursor_key_valid k"

lemma NewReviewCursorKey_Inr:
  "NewReviewCursorKey a t m = Inr k \<longleftrightarrow> account_id_valid a \<and> ValidateGmailMessageID t = None \<and>
    ValidateGmailMessageID m = None \<and> length t + length m \<le> 255 \<and>
    k = \<lparr>rk_account = a, rk_thread = t, rk_message = m, rk_present = True\<rparr>"
  by (auto simp: NewReviewCursorKey_def)

lemma gmail_id_length: "ValidateGmailMessageID t = None \<Longrightarrow> 1 \<le> length t \<and> length t \<le> 255"
  by (auto simp: ValidateGmailMessageID_def Suc_le_eq split: if_splits)

lemma cursor_for_iff:
  "cursor_for k \<longleftrightarrow> rk_present k \<and> account_id_valid (rk_account k) \<and> ValidateGmailMessageID (rk_thread k) = None \<and>
    ValidateGmailMessageID (rk_message k) = None \<and> length (rk_thread k) + length (rk_message k) \<le> 255"
  by (cases k) (auto simp: cursor_for_def cursor_key_valid_def NewReviewCursorKey_Inr)

lemma NewReviewCursorKey_fields:
  "NewReviewCursorKey a t m = Inr k \<Longrightarrow> cursor_for k \<and> rk_account k = a \<and> rk_thread k = t \<and> rk_message k = m"
  by (simp add: NewReviewCursorKey_Inr cursor_for_iff)

lemma account_bytes:
  assumes "account_id_valid a"
  obtains bs where "hex_decode (account_id_string a) = Some bs" "length bs = 16" "hex_encode bs = account_id_string a"
proof -
  have "length (account_id_string a) = 32" "list_all lower_hex_char (account_id_string a)"
    using assms by (simp_all add: account_id_valid_iff)
  then show ?thesis using that hex_decode_total [of "account_id_string a"] hex_encode_decode hex_decode_length by fastforce
qed

lemma cursorMAC_length [simp]: "length (cursorMAC service binding p) = 32"
  by (simp add: cursorMAC_def)

lemma cursor_body_length: "cursor_for k \<Longrightarrow> length (cursor_body k) = 19 + length (rk_thread k) + length (rk_message k)"
  by (auto simp: cursor_for_iff cursor_body_def elim: account_bytes)

lemma cursor_text_length:
  assumes k: "cursor_for k"
  shows "length (cursor_text service binding k) \<le> MaximumCursorBytes"
proof -
  have "length (cursor_text service binding k) = 6 + (4 * (51 + length (rk_thread k) + length (rk_message k)) + 2) div 3"
    using cursor_body_length [OF k] by (simp add: cursor_text_def length_b64_encode cursorPrefix_def)
  also have "(4 * (51 + length (rk_thread k) + length (rk_message k)) + 2) div 3 \<le> (1226 :: nat) div 3"
    using k by (intro div_le_mono) (simp add: cursor_for_iff)
  finally show ?thesis by (simp add: MaximumCursorBytes_def)
qed

lemma encodeCursor_eq:
  assumes k: "cursor_for k"
  shows "encodeCursor service binding k = Inr (cursor_text service binding k)"
proof -
  obtain bs where bs: "hex_decode (account_id_string (rk_account k)) = Some bs" "length bs = 16"
    using k account_bytes by (metis cursor_for_iff)
  then show ?thesis
    using k cursor_text_length [OF k, of service binding]
    by (simp add: encodeCursor_def cursor_for_iff Let_def cursor_text_def cursor_body_def)
qed

lemma no_padding: "CHR ''='' \<notin> set (b64_encode p)"
proof
  assume "CHR ''='' \<in> set (b64_encode p)"
  then have "b64_text_char (CHR ''='')" using b64_encode_text [of p] by (simp add: list_all_iff)
  then show False by (simp add: b64_text_char_iff b64_val_def)
qed

lemma contains_char: "contains s [c] \<longleftrightarrow> c \<in> set s"
  by (auto simp: contains_iff in_set_conv_decomp)

lemma take_at: "i < length xs \<Longrightarrow> take (Suc n) (drop i xs) = xs ! i # take n (drop (Suc i) xs)"
  by (simp flip: Cons_nth_drop_Suc)

lemma take_split: "i \<le> j \<Longrightarrow> take j xs = take i xs @ take (j - i) (drop i xs)"
  by (metis le_add_diff_inverse take_add)

lemma decodeCursor_encoded:
  assumes k: "cursor_for k"
  shows "decodeCursor service (cursor_text service binding k) binding = Inr k"
proof -
  let ?mac = "cursorMAC service binding (cursor_body k)" and ?t = "rk_thread k" and ?m = "rk_message k"
  let ?p = "cursor_body k @ ?mac"
  obtain bs where bs: "hex_decode (account_id_string (rk_account k)) = Some bs" "length bs = 16"
      "hex_encode bs = account_id_string (rk_account k)"
    using k account_bytes by (metis cursor_for_iff)
  have ids: "account_id_valid (rk_account k)" "ValidateGmailMessageID ?t = None" "ValidateGmailMessageID ?m = None"
    "length ?t + length ?m \<le> 255" "rk_present k" using k by (simp_all add: cursor_for_iff)
  have tm: "?t \<noteq> []" "?m \<noteq> []" "length ?t \<le> 255" "length ?m \<le> 255" "\<not> length ?t + length ?m < 2"
    using gmail_id_length [OF ids(2)] gmail_id_length [OF ids(3)] by auto
  have body: "?p = char_of cursorFormatVersion # bs @ char_of (length ?t) # ?t @ char_of (length ?m) # ?m @ ?mac"
    using bs(1) by (simp add: cursor_body_def)
  have len: "length ?p = 51 + length ?t + length ?m" using cursor_body_length [OF k] by simp
  have plain: "\<not> contains (cursor_text service binding k) ''=''"
    using no_padding [of ?p] by (simp add: contains_char cursor_text_def cursorPrefix_def)
  have at: "?p ! 0 = char_of cursorFormatVersion" "take 16 (drop 1 ?p) = bs" "?p ! 17 = char_of (length ?t)"
    "take (length ?t) (drop 18 ?p) = ?t" "?p ! (18 + length ?t) = char_of (length ?m)"
    unfolding body using bs(2) by (simp_all add: nth_append)
  have "?p = (char_of cursorFormatVersion # bs @ char_of (length ?t) # ?t @ [char_of (length ?m)]) @ ?m @ ?mac"
    unfolding body by simp
  moreover have "length (char_of cursorFormatVersion # bs @ char_of (length ?t) # ?t @ [char_of (length ?m)]) = 19 + length ?t"
    using bs(2) by simp
  ultimately have last: "take (length ?m) (drop (19 + length ?t) ?p) = ?m" by (metis append_eq_conv_conj)
  show ?thesis
    using cursor_text_length [OF k, of service binding] plain at last len bs ids tm cursor_body_length [OF k]
    by (simp add: decodeCursor_def has_prefix_iff cursor_text_def Let_def NewReviewCursorKey_def del: ParseAccountID_Inr)
qed

lemma payload_split:
  assumes "17 < t" "t < g" "g < length p" "t = 18 + n" "g = t + 1 + m"
  shows "take g p = p ! 0 # take 16 (drop 1 p) @ p ! 17 # take n (drop 18 p) @ p ! t # take m (drop (t + 1) p)"
proof -
  have "take g p = take 17 p @ take (g - 17) (drop 17 p)" using assms by (intro take_split) simp
  moreover have "take 17 p = p ! 0 # take 16 (drop 1 p)" using assms by (cases p) simp_all
  moreover have "take (g - 17) (drop 17 p) = p ! 17 # take (n + Suc m) (drop 18 p)"
    using take_at [of 17 p "n + Suc m"] assms by simp
  moreover have "take (n + Suc m) (drop 18 p) = take n (drop 18 p) @ take (Suc m) (drop t p)"
    unfolding assms(4) take_add drop_drop by (simp only: add.commute)
  moreover have "take (Suc m) (drop t p) = p ! t # take m (drop (t + 1) p)" using take_at [of t p m] assms by simp
  ultimately show ?thesis by simp
qed

lemma decodeCursor_payload:
  assumes "decodeCursor service v binding = Inr k"
  shows "\<exists>p n m. v = cursorPrefix @ b64_encode p \<and> 53 \<le> length p \<and> p ! 0 = char_of cursorFormatVersion \<and>
    drop (length p - 32) p = cursorMAC service binding (take (length p - 32) p) \<and>
    n = bval (p ! 17) \<and> m = bval (p ! (18 + n)) \<and> 18 + n + 1 + m = length p - 32 \<and>
    hex_encode (take 16 (drop 1 p)) = account_id_string (rk_account k) \<and>
    NewReviewCursorKey (rk_account k) (take n (drop 18 p)) (take m (drop (18 + n + 1) p)) = Inr k"
proof -
  obtain raw where v: "v = cursorPrefix @ raw" using assms by (auto simp: decodeCursor_def has_prefix_iff split: if_splits)
  note d = assms [unfolded decodeCursor_def Let_def v, simplified]
  obtain p where p: "b64_decode False raw = Some p" using d by (auto split: if_splits option.splits)
  define n m where "n = bval (p ! 17)" and "m = bval (p ! (18 + n))"
  have d1: "b64_encode p = raw" "53 \<le> length p" "p ! 0 = char_of cursorFormatVersion"
      "drop (length p - 32) p = cursorMAC service binding (take (length p - 32) p)"
    using d p by (auto split: if_splits)
  obtain a where a: "ParseAccountID (hex_encode (take 16 (drop 1 p))) = Inr a"
    using d p by (auto simp del: ParseAccountID_Inr split: if_splits sum.splits)
  have d2: "18 + n + 1 + m = length p - 32" "NewReviewCursorKey a (take n (drop 18 p))
      (take (length p - 32 - (18 + n + 1)) (drop (18 + n + 1) p)) = Inr k"
    using d p a by (auto simp: n_def m_def simp del: ParseAccountID_Inr split: if_splits sum.splits)
  then have "length p - 32 - (18 + n + 1) = m" "rk_account k = a" by (auto simp: NewReviewCursorKey_Inr)
  then show ?thesis
    using v d1 d2 a by (intro exI [of _ p] exI [of _ n] exI [of _ m]) (simp add: n_def m_def)
qed

lemma decodeCursor_accepts:
  assumes "decodeCursor service v binding = Inr k"
  shows "cursor_for k \<and> v = cursor_text service binding k"
proof -
  obtain p n m where v: "v = cursorPrefix @ b64_encode p" and p: "53 \<le> length p" "p ! 0 = char_of cursorFormatVersion"
      "drop (length p - 32) p = cursorMAC service binding (take (length p - 32) p)"
    and nm: "n = bval (p ! 17)" "m = bval (p ! (18 + n))" "18 + n + 1 + m = length p - 32"
    and a: "hex_encode (take 16 (drop 1 p)) = account_id_string (rk_account k)"
    and k: "NewReviewCursorKey (rk_account k) (take n (drop 18 p)) (take m (drop (18 + n + 1) p)) = Inr k"
    using decodeCursor_payload [OF assms] by blast
  have key: "cursor_for k" "rk_thread k = take n (drop 18 p)" "rk_message k = take m (drop (18 + n + 1) p)"
    using NewReviewCursorKey_fields [OF k] by simp_all
  have lens: "length (rk_thread k) = n" "length (rk_message k) = m" unfolding key(2,3) using nm(3) p(1) by simp_all
  have "take (length p - 32) p = p ! 0 # take 16 (drop 1 p) @ p ! 17 # take n (drop 18 p) @ p ! (18 + n) #
      take m (drop (18 + n + 1) p)"
    by (rule payload_split) (use nm p in simp_all)
  also have "\<dots> = cursor_body k"
    using hex_decode_encode [of "take 16 (drop 1 p)", unfolded a] lens key(2,3) p(2) nm(1,2) by (simp add: cursor_body_def)
  finally have "p = cursor_body k @ cursorMAC service binding (cursor_body k)" using p(3) by (metis append_take_drop_id)
  then show ?thesis using key(1) v by (simp add: cursor_text_def)
qed

lemma decodeCursor_iff: "decodeCursor service v binding = Inr k \<longleftrightarrow> cursor_for k \<and> v = cursor_text service binding k"
  using decodeCursor_accepts decodeCursor_encoded by blast

lemma new_decision_matches: "NewGateDecision c t = Inr d \<Longrightarrow> classificationMatchesDecision c d"
  by (simp add: NewGateDecision_Inr classificationMatchesDecision_def)

end
