(* ===== verification/Review_Pages.thy ===== *)
theory Review_Pages
  imports Review_Inspect
begin

text \<open>
  What the review service guarantees: cursors that nobody else can make, previews that respect their
  limits, and pages that, followed from the first to the last, show every current candidate once.
\<close>

section \<open>Previews\<close>

lemma rune_tail_cont:
  assumes "\<not> malformed (a # s)" and "0 < i" and "i < rune_size (a # s)"
  shows "cont ((a # s) ! i)"
  using assms(1)
proof (cases rule: not_malformed_cases)
  case (multi l)
  then have size: "rune_size (a # s) = Suc (fst l)" by (simp add: rune_size_def)
  have "list_all cont (take (fst l) s)" using multi by (auto simp: tail_ok_def split: prod.splits)
  moreover have "i - 1 < fst l" "i - 1 < length s" using assms(2,3) size rune_size_le [of "a # s"] by auto
  ultimately have "cont (s ! (i - 1))" by (simp add: list_all_length)
  then show ?thesis using assms(2) by (simp add: nth_Cons')
qed (use assms in simp)

lemma take_at_rune_start:
  "valid_utf8 s \<Longrightarrow> n < length s \<Longrightarrow> rune_start (s ! n) \<Longrightarrow> valid_utf8 (take n s)"
proof (induction s arbitrary: n rule: chunks.induct)
  case (2 a s)
  let ?k = "rune_size (a # s)" and ?s = "a # s"
  have nm: "\<not> malformed ?s" and v: "valid_utf8 (drop ?k ?s)" using "2.prems"(1) by (simp_all add: valid_utf8_Cons)
  show ?case
  proof (cases "n = 0")
    case False
    then have kn: "?k \<le> n" using rune_tail_cont [OF nm, of n] "2.prems"(3) unfolding rune_start_def by (meson not_le neq0_conv)
    have "valid_utf8 (take (n - ?k) (drop ?k ?s))"
      using "2.IH" [OF v, of "n - ?k"] "2.prems"(2,3) kn by simp
    moreover have "valid_utf8 (take ?k ?s)"
      using valid_utf8_chunks [OF "2.prems"(1)] by (simp add: chunks.simps(2))
    moreover have "take n ?s = take ?k ?s @ take (n - ?k) (drop ?k ?s)" using kn by (rule take_split)
    ultimately show ?thesis by (simp add: valid_utf8_append)
  qed simp
qed simp

lemma preview_end: "n < length s \<Longrightarrow> preview_end s n \<le> n \<and> (preview_end s n = 0 \<or> rune_start (s ! preview_end s n))"
proof (induction n)
  case (Suc n)
  then show ?case by (cases "rune_start (s ! Suc n)") auto
qed simp

lemma Preview_valid:
  assumes "valid_utf8 s" and "1 \<le> n"
  shows "\<exists>p. Preview s n = Inr (p, length s > n) \<and> valid_utf8 p \<and> length p \<le> n \<and> (\<exists>r. s = p @ r \<and> (length s \<le> n \<longrightarrow> r = []))"
proof (cases "length s \<le> n")
  case False
  then have "n < length s" by simp
  then have "valid_utf8 (take (preview_end s n) s)"
    using preview_end [of n s] take_at_rune_start [OF assms(1), of "preview_end s n"] by fastforce
  moreover have "length (take (preview_end s n) s) \<le> n" using preview_end [OF \<open>n < length s\<close>] by (simp add: min.coboundedI2)
  ultimately show ?thesis
    using assms False by (intro exI [of _ "take (preview_end s n) s"] conjI exI [of _ "drop (preview_end s n) s"]) (simp_all add: Preview_def)
qed (use assms in \<open>auto simp: Preview_def\<close>)

section \<open>Rows of a store\<close>

lemma sorted_single: "sorted_wrt (<) (map k rs) \<Longrightarrow> set rs = {x} \<Longrightarrow> rs = [x]" for k :: "'a \<Rightarrow> 'b :: order"
  by (cases rs; cases "tl rs") auto

definition store_source :: "store \<Rightarrow> review_source" where
  "store_source s = \<lparr>rs_ListReviewCandidates = (\<lambda>ctx q. ListReviewCandidates ctx q s),
     rs_GetCurrentGateInspection = (\<lambda>ctx i g. GetCurrentGateInspection ctx i g s)\<rparr>"

text \<open>
  A row the service can show: its message was made by the normalizer, the only maker of messages, and
  its two Gmail identifiers fit into one cursor.
\<close>

definition listable :: "review_candidate_row \<Rightarrow> bool" where
  "listable r \<longleftrightarrow> (\<exists>inp. Normalize (msg_account (row_message r)) inp = Inr (row_message r)) \<and>
     length (msg_thread_id (row_message r)) + length (msg_gmail_id (row_message r)) \<le> 255"

lemma eligible_row:
  assumes "store_inv s" and "eligible s q r"
  shows "row_valid r" "rq_accounts q = [] \<or> AccountID (msg_account (row_message r)) \<in> set (rq_accounts q)"
proof -
  obtain a where a: "rq_accounts q = [] \<or> a \<in> set (rq_accounts q)"
    "message_at s a (msg_gmail_id (row_message r)) = Some (row_message r)"
    "fmlookup (decisions s) (msg_record_id (row_message r)) = Some (row_decision r)" "row_wanted q (row_message r) (row_decision r)"
    using assms(2) by (auto simp: eligible_def)
  show "row_valid r"
    using message_at_inv(2) [OF assms(1) a(2)] inv_decision_valid [OF assms(1) a(3)] a(4) by (auto simp: row_valid_def row_wanted_def)
  show "rq_accounts q = [] \<or> AccountID (msg_account (row_message r)) \<in> set (rq_accounts q)"
    using message_at_inv(4) [OF assms(1) a(2)] a(1) by simp
qed

lemma row_cursor_ok:
  assumes "row_valid r" and "listable r"
  shows "NewReviewCursorKey (row_account r) (msg_thread_id (row_message r)) (msg_gmail_id (row_message r)) = Inr (row_cursor r)"
    "cursor_for (row_cursor r)" "cursor_key (row_cursor r) = row_key r" "row_account r = AccountID (msg_account (row_message r))"
    "is_ok (ParseAccountID (msg_account (row_message r)))"
proof -
  have mv: "message_valid (row_message r)" using assms(1) by (simp add: row_valid_def)
  note acc = message_valid_account [OF mv]
  show a: "row_account r = AccountID (msg_account (row_message r))" "is_ok (ParseAccountID (msg_account (row_message r)))"
    using acc by (simp_all add: row_account_def del: ParseAccountID_Inr)
  have "account_id_valid (row_account r)" unfolding a(1) using acc by (simp add: account_id_valid_iff)
  then have n: "NewReviewCursorKey (row_account r) (msg_thread_id (row_message r)) (msg_gmail_id (row_message r)) =
      Inr \<lparr>rk_account = row_account r, rk_thread = msg_thread_id (row_message r), rk_message = msg_gmail_id (row_message r), rk_present = True\<rparr>"
    using message_valid_fields(2,3) [OF mv] assms(2)
    by (simp add: NewReviewCursorKey_Inr ValidateGmailMessageID_None listable_def)
  then show c: "NewReviewCursorKey (row_account r) (msg_thread_id (row_message r)) (msg_gmail_id (row_message r)) = Inr (row_cursor r)"
    by (simp add: row_cursor_def)
  show "cursor_for (row_cursor r)" using NewReviewCursorKey_fields [OF c] by simp
  show "cursor_key (row_cursor r) = row_key r"
    using NewReviewCursorKey_fields [OF c] a(1) by (simp add: cursor_key_def row_key_def)
qed

lemma compareKey_less: "compareKey l r \<ge> 0 \<longleftrightarrow> \<not> cursor_key l < cursor_key r"
  by (auto simp: compareKey_def strings_compare_def cursor_key_def less_prod_def Let_def)
lemma rows_ordered_sorted:
  assumes "\<And>r. r \<in> set rows \<Longrightarrow> row_valid r \<and> listable r \<and> selectedAccount ids (AccountID (msg_account (row_message r))) \<and>
      (rk_present cursor \<longrightarrow> cursor_key cursor < row_key r)"
    and "sorted_wrt (<) (map row_key rows)"
    and "rk_present previous \<Longrightarrow> (\<And>r. r \<in> set rows \<Longrightarrow> cursor_key previous < row_key r)"
  shows "rows_ordered ids cursor previous rows"
  using assms
proof (induction rows arbitrary: previous)
  case (Cons r rows)
  have r: "row_valid r" "listable r" using Cons.prems(1) [of r] by simp_all
  note c = row_cursor_ok [OF r]
  have "rows_ordered ids cursor (row_cursor r) rows"
    by (rule Cons.IH) (use Cons.prems c in auto)
  then show ?case using Cons.prems(1) [of r] Cons.prems(3) [of r] c r by (auto simp: compareKey_less)
qed simp

section \<open>What the scan shows of a row\<close>

definition row_current :: "golib \<Rightarrow> gate_policy \<Rightarrow> review_candidate_row \<Rightarrow> bool" where
  "row_current lib policy r \<longleftrightarrow> (\<exists>c. Classify lib (row_message r) policy = Inr c \<and> classificationMatchesDecision c (row_decision r))"

definition row_shown :: "golib \<Rightarrow> review_service \<Rightarrow> list_request \<Rightarrow> review_candidate_row \<Rightarrow> bool" where
  "row_shown lib service request r \<longleftrightarrow> row_current lib (sv_policy service) r \<and> \<not> date_filtered request (row_message r)"

definition preview_of :: "string \<Rightarrow> nat \<Rightarrow> string \<Rightarrow> bool \<Rightarrow> bool" where
  "preview_of s n p trunc \<longleftrightarrow> (\<exists>r. s = p @ r) \<and> valid_utf8 p \<and> length p \<le> n \<and> (trunc \<longleftrightarrow> length s > n) \<and> (\<not> trunc \<longrightarrow> p = s)"

text \<open>The candidate that stands for a row: its identity, its stored outcome and its two previews.\<close>

definition shows_row :: "candidate \<Rightarrow> review_candidate_row \<Rightarrow> bool" where
  "shows_row c r \<longleftrightarrow> (let m = row_message r in
     (cd_account c, cd_thread c, cd_message c) = row_key r \<and> cd_date c = InternalDateUnixMS m \<and>
     cd_outcome c = gd_outcome (row_decision r) \<and>
     (cd_urgency c = UrgencyUrgent \<longleftrightarrow> gd_outcome (row_decision r) = OutcomeUrgentReviewCandidate) \<and>
     preview_of (md_sender_display (msg_metadata m)) 256 (cd_sender_preview c) (cd_sender_truncated c) \<and>
     preview_of (md_subject (msg_metadata m)) 512 (cd_subject_preview c) (cd_subject_truncated c) \<and>
     cd_sender_address c = md_sender_address (msg_metadata m) \<and> cd_has_attachments c = md_has_attachments (msg_metadata m) \<and>
     cd_content_trust c = ContentTrustUntrustedEmail)"

lemma preview_text:
  assumes "validText s n" and "1 \<le> k"
  obtains p trunc where "Preview s k = Inr (p, trunc)" "preview_of s k p trunc"
proof -
  have "valid_utf8 s" using assms(1) by (simp add: validText_def split: if_splits)
  then obtain p where p: "Preview s k = Inr (p, length s > k)" "valid_utf8 p" "length p \<le> k" "\<exists>r. s = p @ r \<and> (length s \<le> k \<longrightarrow> r = [])"
    using Preview_valid [OF _ assms(2)] by blast
  then have "preview_of s k p (length s > k)" by (auto simp: preview_of_def)
  then show ?thesis using that p(1) by blast
qed

lemma listable_texts:
  assumes "listable r"
  shows "validText (md_sender_display (msg_metadata (row_message r))) 512" "validText (md_subject (msg_metadata (row_message r))) 4096"
proof -
  obtain inp where n: "normal_ok (msg_account (row_message r)) inp" "row_message r = normal_message (msg_account (row_message r)) inp"
    using assms by (auto simp: listable_def Normalize_Inr)
  have "msg_metadata (row_message r) = normal_metadata inp" by (subst n(2)) (simp add: normal_message_def Let_def)
  then show "validText (md_sender_display (msg_metadata (row_message r))) 512" "validText (md_subject (msg_metadata (row_message r))) 4096"
    using n(1) by (simp_all add: normal_ok_def normal_metadata_def)
qed

lemma scan_row_eq:
  assumes "listable r" and "row_wanted q (row_message r) (row_decision r)" and "rq_urgency q = urgency"
  shows "if row_shown lib service request r
    then \<exists>c. scan_row lib service request urgency r = Inr (Some c) \<and> shows_row c r
    else scan_row lib service request urgency r = Inr None"
proof (cases "row_shown lib service request r")
  case True
  then obtain c where c: "Classify lib (row_message r) (sv_policy service) = Inr c" "classificationMatchesDecision c (row_decision r)"
    and d: "\<not> date_filtered request (row_message r)" by (auto simp: row_shown_def row_current_def)
  obtain p1 t1 where p1: "Preview (md_sender_display (msg_metadata (row_message r))) 256 = Inr (p1, t1)"
      "preview_of (md_sender_display (msg_metadata (row_message r))) 256 p1 t1"
    using preview_text [OF listable_texts(1) [OF assms(1)], of 256] by auto
  obtain p2 t2 where p2: "Preview (md_subject (msg_metadata (row_message r))) 512 = Inr (p2, t2)"
      "preview_of (md_subject (msg_metadata (row_message r))) 512 p2 t2"
    using preview_text [OF listable_texts(2) [OF assms(1)], of 512] by auto
  have out: "cl_outcome c = gd_outcome (row_decision r)" using c(2) by (simp add: classificationMatchesDecision_def)
  have "\<not> (urgency = ReviewUrgencyStandard \<and> row_urgency c \<noteq> UrgencyStandard \<or>
      urgency = ReviewUrgencyUrgent \<and> row_urgency c \<noteq> UrgencyUrgent)"
    using assms(2,3) out by (auto simp: row_wanted_def row_urgency_def outcome_defs)
  moreover have "shows_row (candidate_of c (row_message r) (p1, t1) (p2, t2)) r"
    using p1 p2 out by (simp add: shows_row_def candidate_of_def row_key_def row_urgency_def UrgencyStandard_def UrgencyUrgent_def)
  ultimately show ?thesis using True c d p1(1) p2(1) by (simp add: scan_row_def)
next
  case False
  then show ?thesis by (auto simp: scan_row_def row_shown_def row_current_def split: sum.splits)
qed

section \<open>One page\<close>

lemma scan_rows_prefix:
  assumes "\<And>r. r \<in> set rows \<Longrightarrow> scan_row lib service request urgency r = Inr (f r)"
    and "int (length cs) < pageSize" and "scanned \<le> MaximumReviewScanRows"
  shows "\<exists>k. k \<le> length rows \<and> scan_rows lib service request urgency pageSize scanned continuation cs rows =
      Inr (scanned + k, if k = 0 then continuation else row_cursor (rows ! (k - 1)), cs @ List.map_filter f (take k rows)) \<and>
    scanned + k \<le> MaximumReviewScanRows \<and> (k = 0 \<longrightarrow> rows = [] \<or> scanned = MaximumReviewScanRows) \<and>
    (k < length rows \<longrightarrow> scanned + k = MaximumReviewScanRows \<or> int (length (cs @ List.map_filter f (take k rows))) = pageSize)"
  using assms
proof (induction rows arbitrary: scanned continuation cs)
  case (Cons r rows)
  show ?case
  proof (cases "scanned = MaximumReviewScanRows")
    case False
    have r: "scan_row lib service request urgency r = Inr (f r)" using Cons.prems(1) by simp
    let ?cs = "cs @ (case f r of None \<Rightarrow> [] | Some c \<Rightarrow> [c])"
    have step: "scan_rows lib service request urgency pageSize scanned continuation cs (r # rows) =
        (if f r \<noteq> None \<and> int (length ?cs) = pageSize then Inr (scanned + 1, row_cursor r, ?cs)
         else scan_rows lib service request urgency pageSize (scanned + 1) (row_cursor r) ?cs rows)"
      using False r by (auto split: option.splits)
    show ?thesis
    proof (cases "f r \<noteq> None \<and> int (length ?cs) = pageSize")
      case True
      then show ?thesis unfolding step using False Cons.prems(3)
        by (intro exI [of _ 1]) (auto simp: List.map_filter_simps split: option.splits)
    next
      case more: False
      have le: "int (length ?cs) < pageSize" using more Cons.prems(2) by (auto split: option.splits)
      have sc: "scanned + 1 \<le> MaximumReviewScanRows" using False Cons.prems(3) by simp
      obtain k where k: "k \<le> length rows" "scan_rows lib service request urgency pageSize (scanned + 1) (row_cursor r) ?cs rows =
            Inr (scanned + 1 + k, if k = 0 then row_cursor r else row_cursor (rows ! (k - 1)), ?cs @ List.map_filter f (take k rows))"
          "scanned + 1 + k \<le> MaximumReviewScanRows"
          "k < length rows \<longrightarrow> scanned + 1 + k = MaximumReviewScanRows \<or> int (length (?cs @ List.map_filter f (take k rows))) = pageSize"
        using Cons.IH [OF _ le sc, of "row_cursor r"] Cons.prems(1) by auto
      have app: "?cs @ List.map_filter f (take k rows) = cs @ List.map_filter f (take (Suc k) (r # rows))"
        by (auto simp: List.map_filter_simps split: option.splits)
      show ?thesis unfolding step if_not_P [OF more] k(2) app using k(1,3,4) [unfolded app]
        by (intro exI [of _ "Suc k"]) (auto simp: nth_Cons')
    qed
  qed (auto simp: List.map_filter_simps)
qed (simp add: List.map_filter_simps)

lemma all_rows_cong: "rq_accounts q = rq_accounts q' \<Longrightarrow> rq_urgency q = rq_urgency q' \<Longrightarrow> all_rows q s = all_rows q' s"
proof -
  assume q: "rq_accounts q = rq_accounts q'" "rq_urgency q = rq_urgency q'"
  then have "rows_at q s = rows_at q' s" "shown q s = shown q' s"
    by (auto simp: fun_eq_iff rows_at_def row_wanted_def shown_def split: option.splits)
  then show ?thesis by (simp add: all_rows_def row_list_def cong: if_cong)
qed

lemma parse_selectors_Some:
  "parse_selectors prior vs = Some ids \<Longrightarrow> map account_id_string ids = vs \<and> list_all account_id_valid ids \<and>
    sorted_wrt (<) vs \<and> (\<forall>p v. prior = Some p \<and> v \<in> set vs \<longrightarrow> p < v)"
proof (induction vs arbitrary: prior ids)
  case (Cons v vs)
  from Cons.prems obtain a bs where a: "ParseAccountID v = Inr a" and is': "parse_selectors (Some v) vs = Some bs" "ids = a # bs"
    and p: "\<forall>p. prior = Some p \<longrightarrow> p < v"
    by (auto simp: not_le simp del: ParseAccountID_Inr split: sum.splits if_splits option.splits)
  have "account_id_string a = v" "account_id_valid a" using a by (simp_all add: account_id_valid_iff)
  moreover note Cons.IH [OF is'(1)]
  ultimately show ?case using is'(2) p by auto
qed simp

definition req_urgency :: "list_request \<Rightarrow> review_urgency" where
  "req_urgency request = (if lr_urgency request = [] then ReviewUrgencyAll else lr_urgency request)"

definition req_page_size :: "review_service \<Rightarrow> list_request \<Rightarrow> u64" where
  "req_page_size service request = (if lr_page_size request = 0
     then min (rc_default_page_size (sv_review service)) (min (rc_maximum_page_size (sv_review service)) 10) else lr_page_size request)"

definition req_cursor :: "review_service \<Rightarrow> list_request \<Rightarrow> string \<Rightarrow> review_cursor_key res" where
  "req_cursor service request binding =
    (if lr_cursor request = [] then Inr zero_cursor_key else decodeCursor service (lr_cursor request) binding)"

text \<open>A request without regard to its cursor.\<close>

definition req_ok :: "review_service \<Rightarrow> list_request \<Rightarrow> bool" where
  "req_ok service request \<longleftrightarrow> lr_account_ids request \<noteq> Some [] \<and> length (request_accounts request) \<le> MaximumReviewAccountSelectors \<and>
     \<not> date_outside (lr_date_min request) \<and> \<not> date_outside (lr_date_max request) \<and>
     \<not> dates_crossed (lr_date_min request) (lr_date_max request) \<and> parse_selectors None (request_accounts request) \<noteq> None \<and>
     urgency_valid (req_urgency request) \<and> req_page_size service request \<noteq> 0 \<and>
     req_page_size service request \<le> min (rc_maximum_page_size (sv_review service)) 10"

definition req_binding :: "review_service \<Rightarrow> list_request \<Rightarrow> string" where
  "req_binding service request = requestBinding service request (req_urgency request) (req_page_size service request)"

lemma normalizeList_Inr:
  "normalizeList service request = Inr n \<longleftrightarrow> req_ok service request \<and>
    (\<exists>cursor. req_cursor service request (req_binding service request) = Inr cursor \<and>
      n = \<lparr>nr_accounts = the (parse_selectors None (request_accounts request)), nr_urgency = req_urgency request,
           nr_page_size = uint (req_page_size service request), nr_binding = req_binding service request, nr_cursor = cursor\<rparr>)"
  unfolding normalizeList_def Let_def req_urgency_def [symmetric] req_page_size_def [symmetric] req_cursor_def [symmetric]
    req_binding_def [symmetric]
  by (auto simp: req_ok_def not_less min_le_iff_disj min_less_iff_disj leD split: if_splits option.splits sum.splits)

lemma normalized:
  assumes "normalizeList service request = Inr n"
  shows "NewReviewCandidateQuery (nr_accounts n) (nr_urgency n) (nr_page_size n) (nr_cursor n) MaximumReviewSourceRows =
      Inr \<lparr>rq_accounts = nr_accounts n, rq_urgency = nr_urgency n, rq_page_size = nr_page_size n, rq_after = nr_cursor n,
        rq_limit = MaximumReviewSourceRows\<rparr>"
    "1 \<le> nr_page_size n" "rk_present (nr_cursor n) \<longrightarrow> cursor_for (nr_cursor n)"
proof -
  let ?ps = "req_page_size service request"
  from assms obtain cursor where ok: "req_ok service request" and c: "req_cursor service request (req_binding service request) = Inr cursor"
    and n: "n = \<lparr>nr_accounts = the (parse_selectors None (request_accounts request)), nr_urgency = req_urgency request,
           nr_page_size = uint ?ps, nr_binding = req_binding service request, nr_cursor = cursor\<rparr>"
    by (auto simp: normalizeList_Inr)
  obtain ids where ids: "parse_selectors None (request_accounts request) = Some ids" using ok by (auto simp: req_ok_def)
  have "?ps \<noteq> 0" "?ps \<le> 10" using ok by (simp_all add: req_ok_def)
  then have ps': "1 \<le> uint ?ps" "uint ?ps \<le> 10"
    using uint_0_iff [of ?ps] uint_ge_0 [of ?ps] by (linarith, simp add: word_le_def)
  have cv: "cursor_key_valid cursor" "rk_present cursor \<longrightarrow> cursor_for cursor"
    using c by (auto simp: req_cursor_def decodeCursor_iff cursor_for_def cursor_key_valid_def zero_cursor_key_def split: if_splits)
  note sel = parse_selectors_Some [OF ids]
  have "successively (<) (map account_id_string ids)" using sel by (simp add: successively_conv_sorted_wrt)
  then have "successively (\<lambda>a b. account_id_string a < account_id_string b) ids" by (simp add: successively_map)
  moreover have "length ids \<le> MaximumReviewAccountSelectors" using sel ok by (metis length_map req_ok_def)
  ultimately show "NewReviewCandidateQuery (nr_accounts n) (nr_urgency n) (nr_page_size n) (nr_cursor n) MaximumReviewSourceRows =
      Inr \<lparr>rq_accounts = nr_accounts n, rq_urgency = nr_urgency n, rq_page_size = nr_page_size n, rq_after = nr_cursor n,
        rq_limit = MaximumReviewSourceRows\<rparr>"
    using sel ps' cv ok n ids by (simp add: NewReviewCandidateQuery_def req_ok_def)
  show "1 \<le> nr_page_size n" using ps' n by simp
  show "rk_present (nr_cursor n) \<longrightarrow> cursor_for (nr_cursor n)" using cv n by simp
qed

text \<open>The rows still to be scanned after a cursor.\<close>

definition remaining_rows :: "review_candidate_query \<Rightarrow> store \<Rightarrow> review_cursor_key \<Rightarrow> review_candidate_row list" where
  "remaining_rows q s cursor = filter (\<lambda>r. rk_present cursor \<longrightarrow> cursor_key cursor < row_key r) (all_rows q s)"

definition row_candidate :: "golib \<Rightarrow> review_service \<Rightarrow> list_request \<Rightarrow> review_candidate_row \<Rightarrow> candidate option" where
  "row_candidate lib service request r = (case scan_row lib service request (req_urgency request) r of Inl _ \<Rightarrow> None | Inr c \<Rightarrow> c)"

lemma rows_after:
  assumes inv: "store_inv s" and k: "0 < k" "k \<le> length (remaining_rows q s cursor)"
    and l: "\<And>r. eligible s q r \<Longrightarrow> listable r"
  shows "cursor_for (row_cursor (remaining_rows q s cursor ! (k - 1)))"
    "remaining_rows q s (row_cursor (remaining_rows q s cursor ! (k - 1))) = drop k (remaining_rows q s cursor)"
proof -
  let ?R = "remaining_rows q s cursor" and ?A = "all_rows q s"
  let ?r = "?R ! (k - 1)"
  have mem: "?r \<in> set ?R" using k by simp
  then have el: "eligible s q ?r" using all_rows(2) [OF inv, of q] by (auto simp: remaining_rows_def)
  note c = row_cursor_ok [OF eligible_row(1) [OF inv el] l [OF el]]
  show cf: "cursor_for (row_cursor ?r)" by (rule c(2))
  have sorted: "sorted_wrt (<) (map row_key ?A)" by (rule all_rows(1) [OF inv])
  have present: "rk_present (row_cursor ?r)" using cf by (simp add: cursor_for_def)
  have later: "rk_present cursor \<longrightarrow> cursor_key cursor < row_key ?r" using mem by (simp add: remaining_rows_def)
  have "remaining_rows q s (row_cursor ?r) = filter (\<lambda>r. row_key ?r < row_key r) ?A"
    using present c(3) by (simp add: remaining_rows_def)
  also have "\<dots> = filter (\<lambda>r. row_key ?r < row_key r) ?R"
  proof -
    have "(row_key ?r < row_key x) = ((rk_present cursor \<longrightarrow> cursor_key cursor < row_key x) \<and> row_key ?r < row_key x)" for x
      using later by auto
    then show ?thesis unfolding remaining_rows_def [of q s cursor] filter_filter by (simp flip: remaining_rows_def)
  qed
  also have "\<dots> = drop k ?R"
  proof -
    have sR: "sorted_wrt (<) (map row_key ?R)" using sorted by (simp add: remaining_rows_def sorted_wrt_map sorted_wrt_filter)
    have nth: "row_key ?r < row_key (?R ! i) \<longleftrightarrow> k \<le> i" if "i < length ?R" for i
    proof -
      have "k - 1 < length ?R" using k by simp
      then have "i < k - 1 \<Longrightarrow> row_key (?R ! i) < row_key ?r" "k - 1 < i \<Longrightarrow> row_key ?r < row_key (?R ! i)"
        using sorted_wrt_nth_less [OF sR, of "k - 1" i] sorted_wrt_nth_less [OF sR, of i "k - 1"] that by simp_all
      moreover have "k \<le> i \<longleftrightarrow> k - 1 < i" using k(1) by auto
      ultimately show ?thesis by (metis linorder_neqE_nat order.asym order.irrefl)
    qed
    have "?R = take k ?R @ drop k ?R" by simp
    then have "filter (\<lambda>r. row_key ?r < row_key r) ?R =
        filter (\<lambda>r. row_key ?r < row_key r) (take k ?R) @ filter (\<lambda>r. row_key ?r < row_key r) (drop k ?R)"
      by (metis filter_append)
    moreover have "filter (\<lambda>r. row_key ?r < row_key r) (take k ?R) = []"
      using nth by (auto simp: filter_empty_conv in_set_conv_nth)
    moreover have "filter (\<lambda>r. row_key ?r < row_key r) (drop k ?R) = drop k ?R"
      using nth by (auto simp: filter_id_conv in_set_conv_nth)
    ultimately show ?thesis by simp
  qed
  finally show "remaining_rows q s (row_cursor ?r) = drop k ?R" .
qed

text \<open>The rows a page reads, and how far it scans them.\<close>

lemma remaining_row:
  assumes inv: "store_inv s" and l: "\<And>r. eligible s q r \<Longrightarrow> listable r" and r: "r \<in> set (remaining_rows q s cursor)"
  shows "row_valid r" "listable r" "row_wanted q (row_message r) (row_decision r)"
    "selectedAccount (rq_accounts q) (AccountID (msg_account (row_message r)))" "rk_present cursor \<longrightarrow> cursor_key cursor < row_key r"
proof -
  have el: "eligible s q r" using r all_rows(2) [OF inv, of q] by (auto simp: remaining_rows_def)
  show "row_valid r" "selectedAccount (rq_accounts q) (AccountID (msg_account (row_message r)))"
    using eligible_row [OF inv el] by (simp_all add: selectedAccount_def)
  show "listable r" "row_wanted q (row_message r) (row_decision r)" using l [OF el] el by (auto simp: eligible_def)
  show "rk_present cursor \<longrightarrow> cursor_key cursor < row_key r" using r by (simp add: remaining_rows_def)
qed

lemma rows_of_page:
  assumes inv: "store_inv s" and l: "\<And>r. eligible s q r \<Longrightarrow> listable r"
  shows "rows_ordered (rq_accounts q) cursor zero_cursor_key (take 101 (remaining_rows q s cursor))"
proof (rule rows_ordered_sorted)
  have "sorted_wrt (<) (map row_key (remaining_rows q s cursor))"
    using all_rows(1) [OF inv, of q] by (simp add: remaining_rows_def sorted_wrt_map sorted_wrt_filter)
  then show "sorted_wrt (<) (map row_key (take 101 (remaining_rows q s cursor)))"
    using sorted_wrt_take [of "(<)" "map row_key (remaining_rows q s cursor)" 101] by (simp add: take_map)
  show "row_valid r \<and> listable r \<and> selectedAccount (rq_accounts q) (AccountID (msg_account (row_message r))) \<and>
      (rk_present cursor \<longrightarrow> cursor_key cursor < row_key r)" if "r \<in> set (take 101 (remaining_rows q s cursor))" for r
    using remaining_row [OF inv l in_set_takeD [OF that]] by blast
qed (simp add: zero_cursor_key_def)

lemma scan_of_page:
  assumes inv: "store_inv s" and l: "\<And>r. eligible s q r \<Longrightarrow> listable r" and u: "rq_urgency q = req_urgency request"
    and p: "1 \<le> pageSize"
  shows "\<exists>k. k \<le> length (remaining_rows q s cursor) \<and> k \<le> 100 \<and> (k = 0 \<longrightarrow> remaining_rows q s cursor = []) \<and>
    scan_rows lib service request (req_urgency request) pageSize 0 zero_cursor_key [] (take 101 (remaining_rows q s cursor)) =
      Inr (k, if k = 0 then zero_cursor_key else row_cursor (remaining_rows q s cursor ! (k - 1)),
        List.map_filter (row_candidate lib service request) (take k (remaining_rows q s cursor)))"
proof -
  let ?R = "remaining_rows q s cursor" and ?f = "row_candidate lib service request"
  have scan: "scan_row lib service request (req_urgency request) r = Inr (?f r)" if "r \<in> set (take 101 ?R)" for r
    using scan_row_eq [OF remaining_row(2,3) [OF inv l in_set_takeD [OF that]] u, of lib service request]
    by (auto simp: row_candidate_def split: if_splits)
  obtain k where k: "k \<le> length (take 101 ?R)" "scan_rows lib service request (req_urgency request) pageSize 0 zero_cursor_key [] (take 101 ?R) =
        Inr (0 + k, if k = 0 then zero_cursor_key else row_cursor (take 101 ?R ! (k - 1)), [] @ List.map_filter ?f (take k (take 101 ?R)))"
      "0 + k \<le> MaximumReviewScanRows" "k = 0 \<longrightarrow> take 101 ?R = [] \<or> 0 = MaximumReviewScanRows"
    using scan_rows_prefix [where rows = "take 101 ?R" and f = ?f and cs = "[]" and scanned = 0 and pageSize = pageSize, OF scan] p
    by fastforce
  have "take k (take 101 ?R) = take k ?R" "0 < k \<Longrightarrow> take 101 ?R ! (k - 1) = ?R ! (k - 1)"
    using k(3) by (simp_all add: MaximumReviewScanRows_def)
  then show ?thesis using k by (intro exI [of _ k]) (auto simp: MaximumReviewScanRows_def)
qed

lemma zero_absent: "\<not> rk_present zero_cursor_key"
  by (simp add: zero_cursor_key_def)

text \<open>One page shows the next rows; a cursor follows exactly when rows may be left.\<close>

lemma review_page:
  assumes inv: "store_inv s" and src: "sv_source service = store_source s" and ok: "req_ok service request"
    and cur: "req_cursor service request (req_binding service request) = Inr cursor"
    and q: "rq_accounts q = the (parse_selectors None (request_accounts request))" "rq_urgency q = req_urgency request"
    and l: "\<forall>r. eligible s q r \<longrightarrow> listable r"
  shows "\<exists>k page. review_List lib service None None request = Inr page \<and> k \<le> length (remaining_rows q s cursor) \<and>
    pg_candidates page = List.map_filter (row_candidate lib service request) (take k (remaining_rows q s cursor)) \<and>
    (pg_next page = None \<longrightarrow> k = length (remaining_rows q s cursor)) \<and>
    (\<forall>c. pg_next page = Some c \<longrightarrow> 0 < k \<and>
      c = cursor_text service (req_binding service request) (row_cursor (remaining_rows q s cursor ! (k - 1))))"
proof -
  let ?R = "remaining_rows q s cursor" and ?f = "row_candidate lib service request" and ?ps = "uint (req_page_size service request)"
  let ?n = "\<lparr>nr_accounts = rq_accounts q, nr_urgency = req_urgency request, nr_page_size = ?ps,
      nr_binding = req_binding service request, nr_cursor = cursor\<rparr>"
  let ?q = "\<lparr>rq_accounts = rq_accounts q, rq_urgency = req_urgency request, rq_page_size = ?ps, rq_after = cursor,
      rq_limit = MaximumReviewSourceRows\<rparr>"
  have n: "normalizeList service request = Inr ?n" using ok cur q(1) by (simp add: normalizeList_Inr)
  note norm = normalized [OF n, simplified]
  have "all_rows ?q s = all_rows q s" using q(2) by (intro all_rows_cong) simp_all
  then have rows: "rs_ListReviewCandidates (sv_source service) None ?q = Inr (take 101 ?R)"
    unfolding src by (simp add: store_source_def ListReviewCandidates_eq [OF inv] MaximumReviewSourceRows_def remaining_rows_def)
  obtain k where k: "k \<le> length ?R" "k \<le> 100" "k = 0 \<longrightarrow> ?R = []"
      "scan_rows lib service request (req_urgency request) ?ps 0 zero_cursor_key [] (take 101 ?R) =
        Inr (k, if k = 0 then zero_cursor_key else row_cursor (?R ! (k - 1)), List.map_filter ?f (take k ?R))"
    using scan_of_page [OF inv l [rule_format] q(2) norm(2), of cursor lib service] by blast
  let ?more = "int (length (List.map_filter ?f (take k ?R))) = ?ps \<or> length (take 101 ?R) > k"
  have "\<not> int (min (length ?R) 101) > MaximumReviewSourceRows" by (simp add: MaximumReviewSourceRows_def)
  note page = review_List_def n norm(1) rows k(4) rows_of_page [OF inv l [rule_format], of q cursor] this
  show ?thesis
  proof (cases "0 < k \<and> ?more")
    case True
    then have cf: "cursor_for (row_cursor (?R ! (k - 1)))" using rows_after(1) [OF inv _ k(1) l [rule_format]] by simp
    then have "rk_present (row_cursor (?R ! (k - 1)))" by (simp add: cursor_for_def)
    then have "review_List lib service None None request = Inr \<lparr>pg_version = OutputVersion1,
        pg_candidates = List.map_filter ?f (take k ?R), pg_next = Some (cursor_text service (req_binding service request) (row_cursor (?R ! (k - 1))))\<rparr>"
      using True encodeCursor_eq [OF cf] by (simp add: page)
    then show ?thesis using True k(1) by (intro exI [of _ k] exI conjI) auto
  next
    case False
    then have all: "k = length ?R" using k(1-3) by (auto simp: min_def split: if_splits)
    have "review_List lib service None None request = Inr \<lparr>pg_version = OutputVersion1,
        pg_candidates = List.map_filter ?f (take k ?R), pg_next = None\<rparr>"
      using False by (auto simp: page zero_absent)
    then show ?thesis using all by (intro exI [of _ k] exI conjI) auto
  qed
qed

section \<open>All pages\<close>

text \<open>A caller that follows the cursors; the fuel bounds the number of pages.\<close>

fun follow_pages :: "nat \<Rightarrow> golib \<Rightarrow> review_service \<Rightarrow> list_request \<Rightarrow> candidate list option" where
  "follow_pages 0 lib service request = None"
| "follow_pages (Suc n) lib service request = (case review_List lib service None None request of
     Inl _ \<Rightarrow> None
   | Inr page \<Rightarrow> (case pg_next page of
       None \<Rightarrow> Some (pg_candidates page)
     | Some c \<Rightarrow> map_option ((@) (pg_candidates page)) (follow_pages n lib service (request\<lparr>lr_cursor := c\<rparr>))))"

lemma request_cursor_frame [simp]:
  "request_accounts (request\<lparr>lr_cursor := c\<rparr>) = request_accounts request" "req_urgency (request\<lparr>lr_cursor := c\<rparr>) = req_urgency request"
  "req_ok service (request\<lparr>lr_cursor := c\<rparr>) = req_ok service request"
  "req_binding service (request\<lparr>lr_cursor := c\<rparr>) = req_binding service request"
  "row_candidate lib service (request\<lparr>lr_cursor := c\<rparr>) = row_candidate lib service request"
  by (simp_all add: fun_eq_iff request_accounts_def req_urgency_def req_ok_def req_page_size_def req_binding_def requestBinding_def
      row_candidate_def scan_row_def date_filtered_def cong: sum.case_cong if_cong)

lemma follow_pages_eq:
  assumes inv: "store_inv s" and src: "sv_source service = store_source s" and ok: "req_ok service request"
    and cur: "req_cursor service request (req_binding service request) = Inr cursor"
    and q: "rq_accounts q = the (parse_selectors None (request_accounts request))" "rq_urgency q = req_urgency request"
    and l: "\<forall>r. eligible s q r \<longrightarrow> listable r" and n: "length (remaining_rows q s cursor) < n"
  shows "follow_pages n lib service request = Some (List.map_filter (row_candidate lib service request) (remaining_rows q s cursor))"
  using ok cur q n
proof (induction n arbitrary: request cursor)
  case (Suc n)
  let ?R = "remaining_rows q s cursor" and ?f = "row_candidate lib service request"
  obtain k page where page: "review_List lib service None None request = Inr page" and k: "k \<le> length ?R"
    and cs: "pg_candidates page = List.map_filter ?f (take k ?R)" and last: "pg_next page = None \<longrightarrow> k = length ?R"
    and nxt: "\<forall>c. pg_next page = Some c \<longrightarrow> 0 < k \<and> c = cursor_text service (req_binding service request) (row_cursor (?R ! (k - 1)))"
    using review_page [OF inv src Suc.prems(1-4) l, of lib] by (elim exE conjE) (rule that)
  show ?case
  proof (cases "pg_next page")
    case None
    then show ?thesis using page cs last by simp
  next
    case (Some c)
    then have c: "0 < k" "c = cursor_text service (req_binding service request) (row_cursor (?R ! (k - 1)))" using nxt by auto
    note after = rows_after [OF inv c(1) k l [rule_format]]
    have "c \<noteq> []" unfolding c(2) by (simp add: cursor_text_def cursorPrefix_def)
    then have cursor: "req_cursor service (request\<lparr>lr_cursor := c\<rparr>) (req_binding service (request\<lparr>lr_cursor := c\<rparr>)) =
        Inr (row_cursor (?R ! (k - 1)))"
      using after(1) c(2) by (simp add: req_cursor_def decodeCursor_iff)
    have "follow_pages n lib service (request\<lparr>lr_cursor := c\<rparr>) = Some (List.map_filter ?f (drop k ?R))"
      using Suc.IH [OF _ cursor] Suc.prems(1,3,4,5) after(2) c(1) k by simp
    moreover have "List.map_filter ?f (take k ?R) @ List.map_filter ?f (drop k ?R) = List.map_filter ?f ?R"
      by (simp add: List.map_filter_def flip: map_append filter_append)
    ultimately show ?thesis using page Some cs by simp
  qed
qed simp

lemma map_filter_shown:
  assumes "\<And>r. r \<in> set rs \<Longrightarrow> if P r then \<exists>c. f r = Some c \<and> R c r else f r = None"
  shows "list_all2 R (List.map_filter f rs) (filter P rs)"
  using assms
proof (induction rs)
  case (Cons r rs)
  have "list_all2 R (List.map_filter f rs) (filter P rs)" using Cons by simp
  then show ?case using Cons.prems [of r] by (auto simp: List.map_filter_simps split: if_splits)
qed (simp add: List.map_filter_simps)

text \<open>
  C25 (review_pages_complete): Following the cursors shows everything once. On a reachable store, for a valid request from
  the start, a caller that follows the cursors gets, after at most one page per eligible row, the candidates
  of exactly those eligible rows whose stored decision is what the service's policy decides now and whose
  date is in the wanted range, each once, in order of account, thread and message, with its identity, its
  outcome and its two previews cut at rune boundaries within their limits.
\<close>

theorem review_pages_complete:
  assumes "reachable s" and "sv_source service = store_source s" and "normalizeList service request = Inr n" and "lr_cursor request = []"
    and "\<And>r. eligible s q r \<Longrightarrow> listable r" and "rq_accounts q = nr_accounts n" and "rq_urgency q = nr_urgency n"
    and "length (all_rows q s) < fuel"
  shows "\<exists>cs rs. follow_pages fuel lib service request = Some cs \<and> sorted_wrt (<) (map row_key rs) \<and>
    (\<forall>r. r \<in> set rs \<longleftrightarrow> eligible s q r \<and> row_current lib (sv_policy service) r \<and> \<not> date_filtered request (row_message r)) \<and>
    list_all2 shows_row cs rs"
proof -
  note inv = reachable_inv [OF assms(1)]
  let ?rs = "filter (row_shown lib service request) (all_rows q s)" and ?f = "row_candidate lib service request"
  have R: "remaining_rows q s zero_cursor_key = all_rows q s" by (simp add: remaining_rows_def zero_cursor_key_def)
  have n: "req_ok service request" "nr_accounts n = the (parse_selectors None (request_accounts request))" "nr_urgency n = req_urgency request"
    using assms(3) by (auto simp: normalizeList_Inr)
  have cur: "req_cursor service request (req_binding service request) = Inr zero_cursor_key" by (simp add: req_cursor_def assms(4))
  have u: "rq_urgency q = req_urgency request" using assms(7) n(3) by simp
  have "follow_pages fuel lib service request = Some (List.map_filter ?f (all_rows q s))"
    using follow_pages_eq [OF inv assms(2) n(1) cur _ u, of fuel lib] assms(5,6,8) n(2) R by simp
  moreover have "list_all2 shows_row (List.map_filter ?f (all_rows q s)) ?rs"
  proof (rule map_filter_shown)
    fix r assume "r \<in> set (all_rows q s)"
    then have "listable r" "row_wanted q (row_message r) (row_decision r)"
      using remaining_row(2,3) [OF inv assms(5), where r = r and cursor = zero_cursor_key] R by simp_all
    from scan_row_eq [OF this u, of lib service request]
    show "if row_shown lib service request r then \<exists>c. ?f r = Some c \<and> shows_row c r else ?f r = None"
      by (auto simp: row_candidate_def split: if_splits)
  qed
  moreover have "sorted_wrt (<) (map row_key ?rs)" using all_rows(1) [OF inv, of q] by (simp add: sorted_wrt_map sorted_wrt_filter)
  moreover have "r \<in> set ?rs \<longleftrightarrow> eligible s q r \<and> row_current lib (sv_policy service) r \<and> \<not> date_filtered request (row_message r)" for r
    using all_rows(2) [OF inv, of q] by (auto simp: row_shown_def)
  ultimately show ?thesis by blast
qed

definition demo_service :: review_service where
  "demo_service = \<lparr>sv_source = store_source demo_decided, sv_policy = demo_policy,
     sv_review = \<lparr>rc_default_page_size = 25, rc_maximum_page_size = 100, rc_automatic_tasks = False\<rparr>, sv_key = replicate 32 (CHR 0x01)\<rparr>"

definition demo_request :: list_request where
  "demo_request = \<lparr>lr_account_ids = None, lr_urgency = ''urgent'', lr_date_min = None, lr_date_max = None, lr_page_size = 1,
     lr_cursor = []\<rparr>"

lemma demo_normalized:
  "normalizeList demo_service demo_request = Inr \<lparr>nr_accounts = [], nr_urgency = ReviewUrgencyUrgent, nr_page_size = 1,
     nr_binding = req_binding demo_service demo_request, nr_cursor = zero_cursor_key\<rparr>"
  by (simp add: normalizeList_Inr req_ok_def demo_request_def request_accounts_def date_outside_def dates_crossed_def req_urgency_def
      req_page_size_def req_cursor_def urgency_valid_def ReviewUrgencyUrgent_def demo_service_def word_le_nat_alt min_def)

theorem review_pages_complete_witness:
  "\<exists>c. follow_pages 2 demo_lib demo_service demo_request = Some [c] \<and> cd_message c = ''m1'' \<and>
    cd_outcome c = OutcomeUrgentReviewCandidate"
proof -
  let ?r = "\<lparr>row_message = demo_message, row_decision = demo_decision\<rparr>"
  have inv: "store_inv demo_decided" by (rule reachable_inv [OF demo_decided_reachable])
  have listable: "eligible demo_decided demo_query r \<Longrightarrow> listable r" for r
    using demo_normalize demo_message_valid by (auto simp: demo_eligible listable_def)
  have "set (all_rows demo_query demo_decided) = {?r}" using all_rows(2) [OF inv, of demo_query] demo_eligible by auto
  then have len: "length (all_rows demo_query demo_decided) < 2"
    using sorted_single [OF all_rows(1) [OF inv, of demo_query]] by simp
  have "\<exists>cs rs. follow_pages 2 demo_lib demo_service demo_request = Some cs \<and> sorted_wrt (<) (map row_key rs) \<and>
      (\<forall>r. r \<in> set rs \<longleftrightarrow> eligible demo_decided demo_query r \<and> row_current demo_lib (sv_policy demo_service) r \<and>
        \<not> date_filtered demo_request (row_message r)) \<and> list_all2 shows_row cs rs"
    by (rule review_pages_complete [OF demo_decided_reachable _ demo_normalized])
      (simp add: demo_service_def, simp add: demo_request_def, erule listable, simp_all add: len, simp_all add: demo_query_def)
  then obtain cs rs where f: "follow_pages 2 demo_lib demo_service demo_request = Some cs" "sorted_wrt (<) (map row_key rs)"
      "list_all2 shows_row cs rs"
    and rs: "\<forall>r. r \<in> set rs \<longleftrightarrow> eligible demo_decided demo_query r \<and> row_current demo_lib (sv_policy demo_service) r \<and>
      \<not> date_filtered demo_request (row_message r)"
    by blast
  have "row_current demo_lib demo_policy ?r"
    using demo_classify new_decision_matches [OF demo_new_decision] by (simp add: row_current_def)
  then have "set rs = {?r}"
    using rs by (auto simp: demo_eligible demo_service_def date_filtered_def demo_request_def)
  then have "rs = [?r]" by (rule sorted_single [OF f(2)])
  then obtain c where "cs = [c]" "shows_row c ?r" using f(3) by (auto simp: list_all2_Cons2)
  then show ?thesis using f(1) demo_decision(3) demo_message_valid(3) by (auto simp: shows_row_def row_key_def Let_def)
qed

text \<open>
  C26 (review_cursor_exact): The cursor codec is exact and authenticated. The service accepts a text as the cursor of a key
  for a request exactly when the key is a present, valid one and the text is what the service itself
  writes for that key and that request; every such key has a text, which never exceeds its limit.
\<close>

theorem review_cursor_exact:
  "(decodeCursor service v binding = Inr k \<longleftrightarrow> rk_present k \<and> cursor_key_valid k \<and> encodeCursor service binding k = Inr v) \<and>
    (rk_present k \<and> cursor_key_valid k \<longleftrightarrow> (\<exists>w. encodeCursor service binding k = Inr w \<and> length w \<le> MaximumCursorBytes \<and>
      decodeCursor service w binding = Inr k))"
  using decodeCursor_iff encodeCursor_eq cursor_text_length unfolding cursor_for_def by fastforce

end
