(* ===== verification/Go_Net.thy ===== *)
theory Go_Net
  imports Gate_Classifier
begin

text \<open>
  What the configuration package uses of the standard library beyond strings: \<^verbatim>\<open>net.SplitHostPort\<close>,
  \<^verbatim>\<open>net.ParseIP\<close>, \<^verbatim>\<open>path.Clean\<close>, \<^verbatim>\<open>strings.EqualFold\<close> and \<^verbatim>\<open>time.ParseDuration\<close>. A duration is the
  number of its nanoseconds. The table of \<^verbatim>\<open>unicode.SimpleFold\<close> stays the parameter it is for the gate.
\<close>

section \<open>Addresses\<close>

definition SplitHostPort :: "string \<Rightarrow> (string \<times> string) option" where
  "SplitHostPort hostport =
    (case last_index_byte (CHR '':'') hostport of
       None \<Rightarrow> None
     | Some i \<Rightarrow>
         if hostport ! 0 = CHR ''['' then
           (case index_byte (CHR '']'') hostport of
              None \<Rightarrow> None
            | Some e \<Rightarrow>
                if e + 1 \<noteq> i then None
                else if CHR ''['' \<in> set (drop 1 hostport) \<or> CHR '']'' \<in> set (drop (e + 1) hostport) then None
                else Some (take (e - 1) (drop 1 hostport), drop (i + 1) hostport))
         else if CHR '':'' \<in> set (take i hostport) then None
         else if CHR ''['' \<in> set hostport \<or> CHR '']'' \<in> set hostport then None
         else Some (take i hostport, drop (i + 1) hostport))"

definition hex_char :: "char \<Rightarrow> bool" where
  "hex_char c \<longleftrightarrow> in_range 48 57 c \<or> in_range 97 102 c \<or> in_range 65 70 c"

text \<open>
  The loop of \<^verbatim>\<open>netip.parseIPv6\<close> over groups of sixteen bits. The first argument is the number of
  groups that still fit, the second whether an ellipsis was seen; the result is the number of groups left
  free, the same flag and the unread text, or nothing for a syntax error.
\<close>

fun ipv6_groups :: "nat \<Rightarrow> bool \<Rightarrow> string \<Rightarrow> (nat \<times> bool \<times> string) option" where
  "ipv6_groups 0 ellipsis s = Some (0, ellipsis, s)"
| "ipv6_groups (Suc n) ellipsis s =
    (let digits = takeWhile hex_char s; rest = dropWhile hex_char s in
     if digits = [] \<or> length digits > 4 then None
     else case rest of
       [] \<Rightarrow> Some (n, ellipsis, [])
     | c # rest' \<Rightarrow>
         if c = CHR ''.'' then
           if \<not> ellipsis \<and> Suc n \<noteq> 2 \<or> Suc n < 2 \<or> \<not> parse_ipv4 s then None else Some (n - 1, ellipsis, [])
         else if c \<noteq> CHR '':'' then None
         else (case rest' of
            [] \<Rightarrow> None
          | d # rest'' \<Rightarrow>
              if d = CHR '':'' then
                if ellipsis then None
                else if rest'' = [] then Some (n, True, []) else ipv6_groups n True rest''
              else ipv6_groups n ellipsis rest'))"

definition parse_ipv6 :: "string \<Rightarrow> bool" where
  "parse_ipv6 s =
    (if CHR ''%'' \<in> set s then False
     else if s = ''::'' then True
     else case (if has_prefix s ''::'' then ipv6_groups 8 True (drop 2 s) else ipv6_groups 8 False s) of
       None \<Rightarrow> False
     | Some (free, ellipsis, rest) \<Rightarrow> rest = [] \<and> (ellipsis = (free > 0)))"

text \<open>
  Whether \<^verbatim>\<open>net.ParseIP\<close> returns an address. The first dot, colon or percent sign decides the
  family; an address with a zone is refused.
\<close>

definition ParseIP :: "string \<Rightarrow> bool" where
  "ParseIP s = (case filter (\<lambda>c. c \<in> set ''.:%'') s of
      [] \<Rightarrow> False
    | c # _ \<Rightarrow> if c = CHR ''.'' then parse_ipv4 s else if c = CHR '':'' then parse_ipv6 s else False)"

section \<open>Paths\<close>

text \<open>\<^verbatim>\<open>path.Clean\<close>: the elements kept so far are on a stack, the last one first.\<close>

definition clean_step :: "bool \<Rightarrow> string \<Rightarrow> string list \<Rightarrow> string list" where
  "clean_step rooted e stack =
    (if e = [] \<or> e = ''.'' then stack
     else if e = ''..'' then
       (case stack of
          [] \<Rightarrow> if rooted then [] else [''..'']
        | t # rest \<Rightarrow> if t = ''..'' then ''..'' # stack else rest)
     else e # stack)"

definition path_Clean :: "string \<Rightarrow> string" where
  "path_Clean p =
    (let rooted = has_prefix p ''/'';
         out = (if rooted then ''/'' else []) @ join_with (CHR ''/'') (rev (fold (clean_step rooted) (split_on (CHR ''/'') p) []))
     in if out = [] then ''.'' else out)"

section \<open>Equality under case folding\<close>

fun fold_until :: "golib \<Rightarrow> nat \<Rightarrow> rune \<Rightarrow> rune \<Rightarrow> rune \<Rightarrow> rune" where
  "fold_until lib 0 sr tr r = r"
| "fold_until lib (Suc n) sr tr r = (if r \<noteq> sr \<and> r < tr then fold_until lib n sr tr (SimpleFold lib r) else r)"

definition equal_fold_rune :: "golib \<Rightarrow> rune \<Rightarrow> rune \<Rightarrow> bool" where
  "equal_fold_rune lib a b =
    (if a = b then True
     else let sr = min a b; tr = max a b in
       if tr < 0x80 then 65 \<le> sr \<and> sr \<le> 90 \<and> tr = sr + 32
       else fold_until lib 0x110000 sr tr (SimpleFold lib sr) = tr)"

definition EqualFold :: "golib \<Rightarrow> string \<Rightarrow> string \<Rightarrow> bool" where
  "EqualFold lib s t = list_all2 (equal_fold_rune lib) (runes s) (runes t)"

section \<open>Durations\<close>

type_synonym duration = int

definition Nanosecond :: duration where "Nanosecond = 1"
definition Second :: duration where "Second = 1000000000"
definition Minute :: duration where "Minute = 60 * Second"
definition Hour :: duration where "Hour = 60 * Minute"

fun leadingInt :: "nat \<Rightarrow> string \<Rightarrow> (nat \<times> string) option" where
  "leadingInt x [] = Some (x, [])"
| "leadingInt x (c # s) =
    (if \<not> is_digit c then Some (x, c # s)
     else if x > 2 ^ 63 div 10 then None
     else let x' = x * 10 + (bval c - 48) in if x' > 2 ^ 63 then None else leadingInt x' s)"

fun leadingFraction :: "nat \<Rightarrow> nat \<Rightarrow> bool \<Rightarrow> string \<Rightarrow> nat \<times> nat \<times> string" where
  "leadingFraction x scale overflow [] = (x, scale, [])"
| "leadingFraction x scale overflow (c # s) =
    (if \<not> is_digit c then (x, scale, c # s)
     else if overflow then leadingFraction x scale True s
     else if x > (2 ^ 63 - 1) div 10 then leadingFraction x scale True s
     else let y = x * 10 + (bval c - 48) in
       if y > 2 ^ 63 then leadingFraction x scale True s else leadingFraction y (scale * 10) False s)"

text \<open>
  The fraction is computed in \<^verbatim>\<open>float64\<close>: a positive number is a mantissa below \<open>2 ^ 53\<close> and a power
  of two, and each operation rounds to the nearest such number, to the even one when two are equally near.
  The exponents that occur here are far from the limits of the format.
\<close>

fun bit_length :: "nat \<Rightarrow> nat" where
  "bit_length n = (if n = 0 then 0 else Suc (bit_length (n div 2)))"

declare bit_length.simps [simp del]

definition div_even :: "nat \<Rightarrow> nat \<Rightarrow> nat" where
  "div_even n d = (let q = n div d; r = n mod d in if 2 * r > d \<or> 2 * r = d \<and> odd q then q + 1 else q)"

definition scaled :: "nat \<Rightarrow> nat \<Rightarrow> int \<Rightarrow> nat \<times> nat" where
  "scaled p q e = (if e < 0 then (p * 2 ^ nat (- e), q) else (p, q * 2 ^ nat e))"

definition float64_ratio :: "nat \<Rightarrow> nat \<Rightarrow> nat \<times> int" where
  "float64_ratio p q =
    (let e = int (bit_length p) - int (bit_length q) - 53;
         e = (case scaled p q e of (n, d) \<Rightarrow> if n div d \<ge> 2 ^ 53 then e + 1 else e)
     in case scaled p q e of (n, d) \<Rightarrow> (div_even n d, e))"

definition float64_times :: "nat \<times> int \<Rightarrow> nat \<times> int \<Rightarrow> nat \<times> int" where
  "float64_times a b = (case scaled (fst a * fst b) 1 (- (snd a + snd b)) of (n, d) \<Rightarrow> float64_ratio n d)"

definition float64_trunc :: "nat \<times> int \<Rightarrow> nat" where
  "float64_trunc a = (case scaled (fst a) 1 (- snd a) of (n, d) \<Rightarrow> n div d)"

definition fraction_value :: "nat \<Rightarrow> nat \<Rightarrow> nat \<Rightarrow> nat" where
  "fraction_value f unit scale = float64_trunc (float64_times (float64_ratio f 1) (float64_ratio unit scale))"

definition unitMap :: "string \<Rightarrow> nat option" where
  "unitMap u =
    (if u = ''ns'' then Some 1
     else if u = ''us'' \<or> u = [CHR 0xC2, CHR 0xB5, CHR ''s''] \<or> u = [CHR 0xCE, CHR 0xBC, CHR ''s''] then Some 1000
     else if u = ''ms'' then Some 1000000
     else if u = ''s'' then Some 1000000000
     else if u = ''m'' then Some 60000000000
     else if u = ''h'' then Some 3600000000000
     else None)"

definition unit_char :: "char \<Rightarrow> bool" where
  "unit_char c \<longleftrightarrow> c \<noteq> CHR ''.'' \<and> \<not> is_digit c"

text \<open>One round of the loop, before its value is added in 64 bits: the value of a number with its unit, and the rest.\<close>

definition duration_term :: "string \<Rightarrow> (nat \<times> string) option" where
  "duration_term s =
    (if s = [] \<or> \<not> (hd s = CHR ''.'' \<or> is_digit (hd s)) then None
     else case leadingInt 0 s of
       None \<Rightarrow> None
     | Some (v, s1) \<Rightarrow>
         let pre = (length s1 \<noteq> length s);
             (f, scale, s2) = (if s1 \<noteq> [] \<and> hd s1 = CHR ''.'' then leadingFraction 0 1 False (tl s1) else (0, 1, s1));
             post = (s1 \<noteq> [] \<and> hd s1 = CHR ''.'' \<and> length s2 \<noteq> length (tl s1));
             u = takeWhile unit_char s2; s3 = dropWhile unit_char s2
         in if \<not> pre \<and> \<not> post \<or> u = [] then None
            else case unitMap u of
              None \<Rightarrow> None
            | Some unit \<Rightarrow>
                if v > 2 ^ 63 div unit then None
                else let v = v * unit + (if f > 0 then fraction_value f unit scale else 0)
                  in if f > 0 \<and> v > 2 ^ 63 then None else Some (v, s3))"

lemma leadingFraction_length: "leadingFraction x sc ov s = (f, k, r) \<Longrightarrow> length r \<le> length s"
proof (induction s arbitrary: x sc ov)
  case (Cons c s)
  have "(\<exists>x' sc' ov'. leadingFraction x' sc' ov' s = (f, k, r)) \<or> r = c # s"
    using Cons.prems unfolding leadingFraction.simps Let_def by (metis prod.inject)
  then show ?case using Cons.IH by (auto intro: le_SucI)
qed simp

lemma leadingInt_length: "leadingInt x s = Some (v, r) \<Longrightarrow> length r \<le> length s"
proof (induction s arbitrary: x)
  case (Cons c s)
  have "(\<exists>x'. leadingInt x' s = Some (v, r)) \<or> r = c # s"
    using Cons.prems unfolding leadingInt.simps Let_def by (metis option.distinct(1) option.inject prod.inject)
  then show ?case using Cons.IH by (auto intro: le_SucI)
qed simp

lemma unit_length: "takeWhile unit_char x \<noteq> [] \<Longrightarrow> length (dropWhile unit_char x) < length x"
  by (cases x) (auto simp: le_imp_less_Suc length_dropWhile_le split: if_splits)

lemma duration_term_length:
  assumes "duration_term s = Some (v, r)"
  shows "length r < length s"
proof -
  obtain v1 s1 where s1: "leadingInt 0 s = Some (v1, s1)"
    using assms by (cases "leadingInt 0 s") (auto simp: duration_term_def split: if_splits)
  let ?f = "if s1 \<noteq> [] \<and> hd s1 = CHR ''.'' then leadingFraction 0 1 False (tl s1) else (0, 1, s1)"
  obtain f scale s2 where f: "?f = (f, scale, s2)" by (cases ?f)
  have "length s2 \<le> length s1"
  proof (cases "s1 \<noteq> [] \<and> hd s1 = CHR ''.''")
    case True
    then show ?thesis using f leadingFraction_length [of 0 1 False "tl s1" f scale s2] by simp
  next
    case False
    then show ?thesis using f by (simp split: if_splits)
  qed
  moreover have "takeWhile unit_char s2 \<noteq> [] \<and> r = dropWhile unit_char s2"
    using assms unfolding duration_term_def s1 Let_def option.case prod.case f
    by (simp split: if_splits option.splits)
  ultimately show ?thesis using unit_length [of s2] leadingInt_length [OF s1] by auto
qed

function duration_sum :: "nat \<Rightarrow> string \<Rightarrow> nat option" where
  "duration_sum d s =
    (if s = [] then Some d
     else case duration_term s of
       None \<Rightarrow> None
     | Some (v, rest) \<Rightarrow> let d' = (d + v) mod 2 ^ 64 in if d' > 2 ^ 63 then None else duration_sum d' rest)"
  by pat_completeness auto
termination by (relation "measure (\<lambda>(d, s). length s)") (auto dest: duration_term_length)

declare duration_sum.simps [simp del]

definition ParseDuration :: "string \<Rightarrow> duration option" where
  "ParseDuration s =
    (let neg = has_prefix s ''-''; body = (if has_prefix s ''-'' \<or> has_prefix s ''+'' then tl s else s) in
     if body = ''0'' then Some 0
     else if body = [] then None
     else case duration_sum 0 body of
       None \<Rightarrow> None
     | Some d \<Rightarrow> if neg then Some (- int d) else if d > 2 ^ 63 - 1 then None else Some (int d))"

end
