(* ===== verification/Config_Values.thy ===== *)
theory Config_Values
  imports Review_Inspect Go_Net
begin

text \<open>
  \<^verbatim>\<open>internal/config/types.go\<close> and \<^verbatim>\<open>internal/config/capabilities.go\<close>: the configuration with its compiled
  defaults, and the registry of capabilities computed from it. The sections \<^verbatim>\<open>Gate\<close> and \<^verbatim>\<open>Review\<close> are
  the records the gate and the review service already use.
\<close>

section \<open>The configuration\<close>

definition MaxFileBytes :: nat where "MaxFileBytes = 65536"
definition MaxNodes :: nat where "MaxNodes = 4096"
definition MaxDepth :: nat where "MaxDepth = 8"

record capabilities_config =
  cc_gmail_read :: bool
  cc_gmail_current_sync :: bool
  cc_gmail_backfill :: bool
  cc_mail_review_read :: bool
  cc_mail_review_write :: bool

record server_config =
  sc_listen :: string
  sc_read_header_timeout :: duration
  sc_read_timeout :: duration
  sc_write_timeout :: duration
  sc_idle_timeout :: duration
  sc_max_request_bytes :: u64

record database_config =
  db_engine :: string
  db_url_env :: string
  db_auth_token_env :: string
  db_max_open :: u64
  db_max_idle :: u64
  db_max_lifetime :: duration

record gmail_config =
  gm_client_id_env :: string
  gm_client_secret_env :: string
  gm_redirect_url_env :: string
  gm_scope :: string
  gm_poll_interval :: duration
  gm_poll_jitter :: duration
  gm_page_size :: u64
  gm_max_accounts :: u64
  gm_excerpt_bytes :: u64
  gm_thread_max :: u64

record run_window =
  rw_timezone :: string
  rw_start :: string
  rw_end :: string

record backfill_config =
  bf_enabled :: bool
  bf_default_days :: u64
  bf_maximum_days :: u64
  bf_page_size :: u64
  bf_current_priority :: bool
  bf_run_window :: run_window

record retention_config =
  rt_metadata_days :: u64
  rt_excerpt_days :: u64
  rt_audit_days :: u64

record mcp_config =
  mc_enabled :: bool
  mc_path :: string
  mc_bearer_env :: string
  mc_review_writes :: bool
  mc_operator_tools :: bool

record encryption_config =
  en_master_key_env :: string

record logging_config =
  lg_level :: string
  lg_format :: string

record config =
  cf_version :: u64
  cf_capabilities :: capabilities_config
  cf_server :: server_config
  cf_database :: database_config
  cf_gmail :: gmail_config
  cf_backfill :: backfill_config
  cf_gate :: gate_policy
  cf_review :: review_config
  cf_retention :: retention_config
  cf_mcp :: mcp_config
  cf_encryption :: encryption_config
  cf_logging :: logging_config

definition Defaults :: config where
  "Defaults = \<lparr>
     cf_version = 1,
     cf_capabilities = \<lparr>cc_gmail_read = False, cc_gmail_current_sync = False, cc_gmail_backfill = False,
       cc_mail_review_read = False, cc_mail_review_write = False\<rparr>,
     cf_server = \<lparr>sc_listen = ''0.0.0.0:8080'', sc_read_header_timeout = 5 * Second, sc_read_timeout = 30 * Second,
       sc_write_timeout = 30 * Second, sc_idle_timeout = 60 * Second, sc_max_request_bytes = 1048576\<rparr>,
     cf_database = \<lparr>db_engine = ''turso'', db_url_env = ''TURSO_DATABASE_URL'', db_auth_token_env = ''TURSO_AUTH_TOKEN'',
       db_max_open = 8, db_max_idle = 2, db_max_lifetime = 30 * Minute\<rparr>,
     cf_gmail = \<lparr>gm_client_id_env = ''GOOGLE_OAUTH_CLIENT_ID'', gm_client_secret_env = ''GOOGLE_OAUTH_CLIENT_SECRET'',
       gm_redirect_url_env = ''GOOGLE_OAUTH_REDIRECT_URL'', gm_scope = ''gmail.readonly'', gm_poll_interval = 5 * Minute,
       gm_poll_jitter = 30 * Second, gm_page_size = 100, gm_max_accounts = 2, gm_excerpt_bytes = 32768, gm_thread_max = 50\<rparr>,
     cf_backfill = \<lparr>bf_enabled = True, bf_default_days = 365, bf_maximum_days = 3650, bf_page_size = 100,
       bf_current_priority = True, bf_run_window = \<lparr>rw_timezone = ''America/Chicago'', rw_start = ''22:00'', rw_end = ''06:00''\<rparr>\<rparr>,
     cf_gate = \<lparr>g_version = 1, g_excluded_labels = [''SPAM'', ''TRASH''],
       g_suppress_categories = [''CATEGORY_PROMOTIONS'', ''CATEGORY_SOCIAL''], g_direct_candidate = True, g_list_bulk = True,
       g_allow_domains = [], g_block_domains = [], g_candidate_terms = [], g_urgent_terms = []\<rparr>,
     cf_review = \<lparr>rc_default_page_size = 25, rc_maximum_page_size = 100, rc_automatic_tasks = False\<rparr>,
     cf_retention = \<lparr>rt_metadata_days = 0, rt_excerpt_days = 365, rt_audit_days = 730\<rparr>,
     cf_mcp = \<lparr>mc_enabled = True, mc_path = ''/mcp'', mc_bearer_env = ''INBOXGATE_MCP_TOKEN'', mc_review_writes = True,
       mc_operator_tools = False\<rparr>,
     cf_encryption = \<lparr>en_master_key_env = ''INBOXGATE_MASTER_KEY''\<rparr>,
     cf_logging = \<lparr>lg_level = ''info'', lg_format = ''json''\<rparr>\<rparr>"

text \<open>A problem found in a configuration; a line of zero stands for no position.\<close>

record problem =
  pb_path :: string
  pb_line :: int
  pb_column :: int
  pb_reason :: string

definition plain_problem :: "string \<Rightarrow> string \<Rightarrow> problem" where
  "plain_problem path reason = \<lparr>pb_path = path, pb_line = 0, pb_column = 0, pb_reason = reason\<rparr>"

section \<open>Capabilities\<close>

type_synonym capability_name = string
type_synonym implementation_status = string
type_synonym configuration_status = string
type_synonym security_classification = string

definition CapabilityGmailBackfill :: capability_name where "CapabilityGmailBackfill = ''gmail.backfill''"
definition CapabilityGmailCurrentSync :: capability_name where "CapabilityGmailCurrentSync = ''gmail.current_sync''"
definition CapabilityGmailModify :: capability_name where "CapabilityGmailModify = ''gmail.modify''"
definition CapabilityGmailRead :: capability_name where "CapabilityGmailRead = ''gmail.read''"
definition CapabilityMailReviewRead :: capability_name where "CapabilityMailReviewRead = ''mail.review_read''"
definition CapabilityMailReviewWrite :: capability_name where "CapabilityMailReviewWrite = ''mail.review_write''"
definition CapabilitySystemAccountStatus :: capability_name where "CapabilitySystemAccountStatus = ''system.account_status''"
definition CapabilitySystemCapabilities :: capability_name where "CapabilitySystemCapabilities = ''system.capabilities''"
definition CapabilityVikunjaWrite :: capability_name where "CapabilityVikunjaWrite = ''vikunja.write''"
definition CapabilityZohoRead :: capability_name where "CapabilityZohoRead = ''zoho.read''"

definition ImplementationStatusImplemented :: implementation_status where "ImplementationStatusImplemented = ''implemented''"
definition ImplementationStatusNotImplemented :: implementation_status where "ImplementationStatusNotImplemented = ''not_implemented''"

definition ConfigurationStatusEnabled :: configuration_status where "ConfigurationStatusEnabled = ''enabled''"
definition ConfigurationStatusDisabled :: configuration_status where "ConfigurationStatusDisabled = ''disabled''"
definition ConfigurationStatusNotConfigurable :: configuration_status where "ConfigurationStatusNotConfigurable = ''not_configurable''"

definition SecurityOperationalMetadata :: security_classification where "SecurityOperationalMetadata = ''operational_metadata''"
definition SecuritySensitiveRead :: security_classification where "SecuritySensitiveRead = ''sensitive_read''"
definition SecuritySensitiveWrite :: security_classification where "SecuritySensitiveWrite = ''sensitive_write''"
definition SecurityProhibited :: security_classification where "SecurityProhibited = ''prohibited''"

lemmas capability_constants = CapabilityGmailBackfill_def CapabilityGmailCurrentSync_def CapabilityGmailModify_def
  CapabilityGmailRead_def CapabilityMailReviewRead_def CapabilityMailReviewWrite_def CapabilitySystemAccountStatus_def
  CapabilitySystemCapabilities_def CapabilityVikunjaWrite_def CapabilityZohoRead_def ImplementationStatusImplemented_def
  ImplementationStatusNotImplemented_def ConfigurationStatusEnabled_def ConfigurationStatusDisabled_def
  ConfigurationStatusNotConfigurable_def SecurityOperationalMetadata_def SecuritySensitiveRead_def SecuritySensitiveWrite_def
  SecurityProhibited_def

record capability =
  ca_name :: capability_name
  ca_implementation :: implementation_status
  ca_configuration :: configuration_status
  ca_enabled :: bool
  ca_secrets :: "string list"
  ca_migration :: "string option"
  ca_security :: security_classification

datatype capability_binding =
    capabilityConfigNone
  | capabilityConfigGmailBackfill
  | capabilityConfigGmailCurrentSync
  | capabilityConfigGmailRead
  | capabilityConfigMailReviewRead
  | capabilityConfigMailReviewWrite
  | capabilityConfigMCPOperator

datatype capability_prerequisites =
    capabilityPrerequisitesNone
  | capabilityPrerequisitesGmail
  | capabilityPrerequisitesDatabase
  | capabilityPrerequisitesAccountStatus
  | capabilityPrerequisitesReviewRead

record capability_definition =
  cn_name :: capability_name
  cn_binding :: capability_binding
  cn_implementation :: implementation_status
  cn_prerequisites :: capability_prerequisites
  cn_security :: security_classification
  cn_migration :: string

definition capabilityDefinitions :: "capability_definition list" where
  "capabilityDefinitions =
    [\<lparr>cn_name = CapabilityGmailBackfill, cn_binding = capabilityConfigGmailBackfill, cn_implementation = ImplementationStatusNotImplemented,
      cn_prerequisites = capabilityPrerequisitesGmail, cn_security = SecuritySensitiveRead, cn_migration = []\<rparr>,
     \<lparr>cn_name = CapabilityGmailCurrentSync, cn_binding = capabilityConfigGmailCurrentSync, cn_implementation = ImplementationStatusNotImplemented,
      cn_prerequisites = capabilityPrerequisitesGmail, cn_security = SecuritySensitiveRead, cn_migration = []\<rparr>,
     \<lparr>cn_name = CapabilityGmailModify, cn_binding = capabilityConfigNone, cn_implementation = ImplementationStatusNotImplemented,
      cn_prerequisites = capabilityPrerequisitesNone, cn_security = SecurityProhibited, cn_migration = []\<rparr>,
     \<lparr>cn_name = CapabilityGmailRead, cn_binding = capabilityConfigGmailRead, cn_implementation = ImplementationStatusNotImplemented,
      cn_prerequisites = capabilityPrerequisitesGmail, cn_security = SecuritySensitiveRead, cn_migration = []\<rparr>,
     \<lparr>cn_name = CapabilityMailReviewRead, cn_binding = capabilityConfigMailReviewRead, cn_implementation = ImplementationStatusImplemented,
      cn_prerequisites = capabilityPrerequisitesReviewRead, cn_security = SecuritySensitiveRead, cn_migration = ''0006_gate_decisions.sql''\<rparr>,
     \<lparr>cn_name = CapabilityMailReviewWrite, cn_binding = capabilityConfigMailReviewWrite, cn_implementation = ImplementationStatusNotImplemented,
      cn_prerequisites = capabilityPrerequisitesDatabase, cn_security = SecuritySensitiveWrite, cn_migration = []\<rparr>,
     \<lparr>cn_name = CapabilitySystemAccountStatus, cn_binding = capabilityConfigMCPOperator, cn_implementation = ImplementationStatusImplemented,
      cn_prerequisites = capabilityPrerequisitesAccountStatus, cn_security = SecuritySensitiveRead, cn_migration = ''0004_account_lifecycle.sql''\<rparr>,
     \<lparr>cn_name = CapabilitySystemCapabilities, cn_binding = capabilityConfigNone, cn_implementation = ImplementationStatusImplemented,
      cn_prerequisites = capabilityPrerequisitesNone, cn_security = SecurityOperationalMetadata, cn_migration = []\<rparr>,
     \<lparr>cn_name = CapabilityVikunjaWrite, cn_binding = capabilityConfigNone, cn_implementation = ImplementationStatusNotImplemented,
      cn_prerequisites = capabilityPrerequisitesNone, cn_security = SecuritySensitiveWrite, cn_migration = []\<rparr>,
     \<lparr>cn_name = CapabilityZohoRead, cn_binding = capabilityConfigNone, cn_implementation = ImplementationStatusNotImplemented,
      cn_prerequisites = capabilityPrerequisitesNone, cn_security = SecuritySensitiveRead, cn_migration = []\<rparr>]"

fun capabilityConfigured :: "config \<Rightarrow> capability_binding \<Rightarrow> bool" where
  "capabilityConfigured c capabilityConfigGmailBackfill = cc_gmail_backfill (cf_capabilities c)"
| "capabilityConfigured c capabilityConfigGmailCurrentSync = cc_gmail_current_sync (cf_capabilities c)"
| "capabilityConfigured c capabilityConfigGmailRead = cc_gmail_read (cf_capabilities c)"
| "capabilityConfigured c capabilityConfigMailReviewRead = (mc_enabled (cf_mcp c) \<and> cc_mail_review_read (cf_capabilities c))"
| "capabilityConfigured c capabilityConfigMailReviewWrite = cc_mail_review_write (cf_capabilities c)"
| "capabilityConfigured c capabilityConfigMCPOperator = (mc_enabled (cf_mcp c) \<and> mc_operator_tools (cf_mcp c))"
| "capabilityConfigured c capabilityConfigNone = False"

definition configurationStatus :: "config \<Rightarrow> capability_binding \<Rightarrow> configuration_status" where
  "configurationStatus c binding =
    (if binding = capabilityConfigNone then ConfigurationStatusNotConfigurable
     else if capabilityConfigured c binding then ConfigurationStatusEnabled
     else ConfigurationStatusDisabled)"

definition sortedSecretNames :: "string list \<Rightarrow> string list" where
  "sortedSecretNames vs = sort vs"

fun requiredSecretNames :: "config \<Rightarrow> capability_prerequisites \<Rightarrow> string list" where
  "requiredSecretNames c capabilityPrerequisitesGmail = sortedSecretNames
     [db_auth_token_env (cf_database c), db_url_env (cf_database c), en_master_key_env (cf_encryption c),
      gm_client_id_env (cf_gmail c), gm_client_secret_env (cf_gmail c), gm_redirect_url_env (cf_gmail c)]"
| "requiredSecretNames c capabilityPrerequisitesDatabase = sortedSecretNames
     [db_auth_token_env (cf_database c), db_url_env (cf_database c)]"
| "requiredSecretNames c capabilityPrerequisitesAccountStatus = sortedSecretNames
     [db_auth_token_env (cf_database c), db_url_env (cf_database c), mc_bearer_env (cf_mcp c)]"
| "requiredSecretNames c capabilityPrerequisitesReviewRead = sortedSecretNames
     [db_auth_token_env (cf_database c), db_url_env (cf_database c), mc_bearer_env (cf_mcp c)]"
| "requiredSecretNames c capabilityPrerequisitesNone = []"

definition capabilityRegistryFromDefinitions :: "config \<Rightarrow> capability_definition list \<Rightarrow> capability list" where
  "capabilityRegistryFromDefinitions c definitions = map (\<lambda>d.
     let status = configurationStatus c (cn_binding d) in
     \<lparr>ca_name = cn_name d, ca_implementation = cn_implementation d, ca_configuration = status,
      ca_enabled = (cn_implementation d = ImplementationStatusImplemented \<and>
        (status = ConfigurationStatusEnabled \<or> status = ConfigurationStatusNotConfigurable)),
      ca_secrets = requiredSecretNames c (cn_prerequisites d),
      ca_migration = (if cn_migration d \<noteq> [] then Some (cn_migration d) else None),
      ca_security = cn_security d\<rparr>) definitions"

definition CapabilityRegistry :: "config \<Rightarrow> capability list" where
  "CapabilityRegistry c = capabilityRegistryFromDefinitions c capabilityDefinitions"

definition validateCapabilityDefinitions :: "config \<Rightarrow> capability_definition list \<Rightarrow> problem list \<Rightarrow> problem list" where
  "validateCapabilityDefinitions c definitions ps = fold (\<lambda>d ps.
     if cn_binding d \<noteq> capabilityConfigNone \<and> capabilityConfigured c (cn_binding d) \<and>
        cn_implementation d \<noteq> ImplementationStatusImplemented
     then ps @ [plain_problem (''capabilities.'' @ cn_name d) ''cannot enable a capability not implemented by this binary'']
     else ps) definitions ps"

section \<open>Indented JSON\<close>

text \<open>
  \<^verbatim>\<open>json.MarshalIndent(v, "", "  ")\<close>: every element on a line of its own, two blanks deeper than its
  container; an empty container stays on one line.
\<close>

fun json_indent :: "nat \<Rightarrow> json \<Rightarrow> string"
  and json_indent_items :: "nat \<Rightarrow> json list \<Rightarrow> string"
  and json_indent_members :: "nat \<Rightarrow> (string \<times> json) list \<Rightarrow> string" where
  "json_indent n (JArr []) = ''[]''"
| "json_indent n (JArr (v # vs)) = ''['' @ [CHR 0x0A] @ json_indent_items (n + 2) (v # vs) @ [CHR 0x0A] @ replicate n (CHR '' '') @ '']''"
| "json_indent n (JObj []) = ''{}''"
| "json_indent n (JObj (m # ms)) = ''{'' @ [CHR 0x0A] @ json_indent_members (n + 2) (m # ms) @ [CHR 0x0A] @ replicate n (CHR '' '') @ ''}''"
| "json_indent n v = json_print True v"
| "json_indent_items n [] = []"
| "json_indent_items n [v] = replicate n (CHR '' '') @ json_indent n v"
| "json_indent_items n (v # vs) = replicate n (CHR '' '') @ json_indent n v @ '','' @ [CHR 0x0A] @ json_indent_items n vs"
| "json_indent_members n [] = []"
| "json_indent_members n [(k, v)] = replicate n (CHR '' '') @ json_quote True k @ '': '' @ json_indent n v"
| "json_indent_members n ((k, v) # ms) = replicate n (CHR '' '') @ json_quote True k @ '': '' @ json_indent n v @ '','' @ [CHR 0x0A] @
     json_indent_members n ms"

definition json_uint :: "u64 \<Rightarrow> json" where
  "json_uint n = json_number_of (uint n)"

definition capability_json :: "capability \<Rightarrow> json" where
  "capability_json c = JObj
    [(''name'', JStr (ca_name c)),
     (''implementation_status'', JStr (ca_implementation c)),
     (''configuration_status'', JStr (ca_configuration c)),
     (''enabled'', JBool (ca_enabled c)),
     (''required_secret_names'', json_strings (ca_secrets c)),
     (''required_database_migration'', case ca_migration c of None \<Rightarrow> JNull | Some m \<Rightarrow> JStr m),
     (''security_classification'', JStr (ca_security c))]"

definition CapabilitiesJSON :: "config \<Rightarrow> string" where
  "CapabilitiesJSON c = json_indent 0 (JObj
    [(''output_version'', json_uint 1),
     (''configuration_schema_version'', json_uint (cf_version c)),
     (''capabilities'', JArr (map capability_json (CapabilityRegistry c)))]) @ [CHR 0x0A]"

end
