(* ===== verification/Config_Validate.thy ===== *)
theory Config_Validate
  imports Config_Values "HOL-Library.Signed_Division"
begin

text \<open>
  \<^verbatim>\<open>internal/config/validate.go\<close>: the semantic checks of a decoded configuration. Each function appends
  the problems it finds to the list it is given. The anchored regular expressions are written as tests on
  the length and the characters of the text. Whether \<^verbatim>\<open>time.LoadLocation\<close> finds a zone depends on
  the time zone database, which is a parameter, next to the tables of the gate.
\<close>

record conflib =
  cl_lib :: golib
  LoadLocation :: "string \<Rightarrow> bool"

section \<open>Reports and patterns\<close>

definition report :: "string \<Rightarrow> string \<Rightarrow> problem list \<Rightarrow> problem list" where
  "report fieldPath reason ps = ps @ [plain_problem fieldPath reason]"

definition upper_char :: "char \<Rightarrow> bool" where "upper_char c \<longleftrightarrow> in_range 65 90 c"
definition lower_char :: "char \<Rightarrow> bool" where "lower_char c \<longleftrightarrow> in_range 97 122 c"
definition digit_char :: "char \<Rightarrow> bool" where "digit_char c \<longleftrightarrow> in_range 48 57 c"

definition environmentName :: "string \<Rightarrow> bool" where
  "environmentName v \<longleftrightarrow> v \<noteq> [] \<and> length v \<le> 128 \<and> (upper_char (hd v) \<or> hd v = CHR ''_'') \<and>
     list_all (\<lambda>c. upper_char c \<or> digit_char c \<or> c = CHR ''_'') (tl v)"

definition labelName :: "string \<Rightarrow> bool" where
  "labelName v \<longleftrightarrow> v \<noteq> [] \<and> length v \<le> 128 \<and>
     list_all (\<lambda>c. upper_char c \<or> lower_char c \<or> digit_char c \<or> c = CHR ''_'' \<or> c = CHR ''-'') v"

definition windowTime :: "string \<Rightarrow> bool" where
  "windowTime v \<longleftrightarrow> length v = 5 \<and>
     ((v ! 0 = CHR ''0'' \<or> v ! 0 = CHR ''1'') \<and> digit_char (v ! 1) \<or> v ! 0 = CHR ''2'' \<and> in_range 48 51 (v ! 1)) \<and>
     v ! 2 = CHR '':'' \<and> in_range 48 53 (v ! 3) \<and> digit_char (v ! 4)"

definition domainLabel :: "string \<Rightarrow> bool" where
  "domainLabel v \<longleftrightarrow> v \<noteq> [] \<and> length v \<le> 63 \<and> (lower_char (hd v) \<or> digit_char (hd v)) \<and> (lower_char (last v) \<or> digit_char (last v)) \<and>
     list_all (\<lambda>c. lower_char c \<or> digit_char c \<or> c = CHR ''-'') v"

definition hostLabel :: "string \<Rightarrow> bool" where
  "hostLabel v \<longleftrightarrow> v \<noteq> [] \<and> length v \<le> 63 \<and> (upper_char (hd v) \<or> lower_char (hd v) \<or> digit_char (hd v)) \<and>
     (upper_char (last v) \<or> lower_char (last v) \<or> digit_char (last v)) \<and>
     list_all (\<lambda>c. upper_char c \<or> lower_char c \<or> digit_char c \<or> c = CHR ''-'') v"

definition numericPort :: "string \<Rightarrow> bool" where
  "numericPort v \<longleftrightarrow> v \<noteq> [] \<and> list_all digit_char v"

definition isASCII :: "string \<Rightarrow> bool" where
  "isASCII v = list_all (\<lambda>c. \<not> bval c > 0x7f) v"

definition durationRange :: "string \<Rightarrow> duration \<Rightarrow> duration \<Rightarrow> duration \<Rightarrow> problem list \<Rightarrow> problem list" where
  "durationRange fieldPath v minimum maximum ps =
    (if v < minimum \<or> v > maximum then report fieldPath ''duration is outside the supported range'' ps else ps)"

definition uintRange :: "string \<Rightarrow> u64 \<Rightarrow> u64 \<Rightarrow> u64 \<Rightarrow> problem list \<Rightarrow> problem list" where
  "uintRange fieldPath v minimum maximum ps =
    (if v < minimum \<or> v > maximum then report fieldPath ''integer is outside the supported range'' ps else ps)"

definition equalUint :: "string \<Rightarrow> u64 \<Rightarrow> u64 \<Rightarrow> problem list \<Rightarrow> problem list" where
  "equalUint fieldPath v expected ps = (if v \<noteq> expected then report fieldPath ''unsupported schema version'' ps else ps)"

definition oneOf :: "string \<Rightarrow> string \<Rightarrow> string list \<Rightarrow> problem list \<Rightarrow> problem list" where
  "oneOf fieldPath v choices ps = (if v \<in> set choices then ps else report fieldPath ''is not a supported value'' ps)"

definition validateEnvironmentName :: "string \<Rightarrow> string \<Rightarrow> problem list \<Rightarrow> problem list" where
  "validateEnvironmentName fieldPath v ps =
    (if environmentName v then ps
     else report fieldPath ''must be an uppercase environment-variable name of at most 128 bytes'' ps)"

section \<open>Lists without duplicates\<close>

text \<open>The loop, with the values seen so far; \<open>fold\<close> chooses equality under case folding.\<close>

fun unique_from :: "golib \<Rightarrow> bool \<Rightarrow> (string \<Rightarrow> bool) \<Rightarrow> string list \<Rightarrow> string list \<Rightarrow> bool" where
  "unique_from lib fld valid seen [] \<longleftrightarrow> True"
| "unique_from lib fld valid seen (v # vs) \<longleftrightarrow>
    (if \<not> valid v then False
     else if (if fld then list_ex (\<lambda>prior. EqualFold lib prior v) seen else v \<in> set seen) then False
     else unique_from lib fld valid (seen @ [v]) vs)"

definition validateUniqueList ::
  "golib \<Rightarrow> string \<Rightarrow> string list \<Rightarrow> nat \<Rightarrow> bool \<Rightarrow> (string \<Rightarrow> bool) \<Rightarrow> string \<Rightarrow> problem list \<Rightarrow> problem list" where
  "validateUniqueList lib fieldPath vs maximum fld valid reason ps =
    (let ps = (if length vs > maximum then report fieldPath reason ps else ps) in
     if unique_from lib fld valid [] vs then ps else report fieldPath reason ps)"

section \<open>The sections of the configuration\<close>

definition onlyDigitsAndDots :: "string \<Rightarrow> bool" where
  "onlyDigitsAndDots v = list_all (\<lambda>r. \<not> (r \<noteq> 46 \<and> (r < 48 \<or> r > 57))) (runes v)"

definition validListenAddress :: "string \<Rightarrow> bool" where
  "validListenAddress v =
    (if v = [] \<or> length v > 263 \<or> \<not> isASCII v \<or> list_ex (\<lambda>c. c \<in> set (''/?#@'' @ [CHR 0x5C])) v \<or> contains v ''://'' then False
     else if list_ex (\<lambda>r. is_control r \<or> is_space r) (runes v) then False
     else case SplitHostPort v of
       None \<Rightarrow> False
     | Some (host, port) \<Rightarrow>
         if host = [] \<or> \<not> numericPort port then False
         else case parse_int64 port of
           None \<Rightarrow> False
         | Some parsedPort \<Rightarrow>
             if parsedPort < 1 \<or> parsedPort > 65535 then False
             else if has_prefix v ''['' then ParseIP host \<and> contains host '':'' \<and> \<not> contains host ''%''
             else if list_ex (\<lambda>c. c \<in> set ''[]:'') host then False
             else if ParseIP host then parse_ipv4 host
             else if onlyDigitsAndDots host then False
             else let hostname = (if has_suffix host ''.'' then butlast host else host) in
               if hostname = [] \<or> length hostname > 253 \<or> has_prefix hostname ''.'' then False
               else list_all hostLabel (split_on (CHR ''.'') hostname))"

definition validateServer :: "server_config \<Rightarrow> problem list \<Rightarrow> problem list" where
  "validateServer s ps =
    (let ps = (if \<not> validListenAddress (sc_listen s)
           then report ''server.listen'' ''must be a valid hostname, IPv4, or bracketed IPv6 address and numeric port with at most 263 bytes'' ps
           else ps);
         ps = durationRange ''server.read_header_timeout'' (sc_read_header_timeout s) Second (30 * Second) ps;
         ps = durationRange ''server.read_timeout'' (sc_read_timeout s) Second (5 * Minute) ps;
         ps = durationRange ''server.write_timeout'' (sc_write_timeout s) Second (5 * Minute) ps;
         ps = durationRange ''server.idle_timeout'' (sc_idle_timeout s) Second (10 * Minute) ps;
         ps = (if sc_read_header_timeout s > sc_read_timeout s
           then report ''server.read_header_timeout'' ''must not exceed server.read_timeout'' ps else ps)
     in uintRange ''server.max_request_bytes'' (sc_max_request_bytes s) 1024 1048576 ps)"

definition validateDatabase :: "database_config \<Rightarrow> problem list \<Rightarrow> problem list" where
  "validateDatabase d ps =
    (let ps = oneOf ''database.engine'' (db_engine d) [''turso''] ps;
         ps = validateEnvironmentName ''database.url_env'' (db_url_env d) ps;
         ps = validateEnvironmentName ''database.auth_token_env'' (db_auth_token_env d) ps;
         ps = uintRange ''database.max_open_connections'' (db_max_open d) 1 64 ps;
         ps = uintRange ''database.max_idle_connections'' (db_max_idle d) 0 64 ps;
         ps = (if db_max_idle d > db_max_open d
           then report ''database.max_idle_connections'' ''must not exceed database.max_open_connections'' ps else ps)
     in durationRange ''database.connection_max_lifetime'' (db_max_lifetime d) Minute (24 * Hour) ps)"

definition validateGmail :: "gmail_config \<Rightarrow> problem list \<Rightarrow> problem list" where
  "validateGmail g ps =
    (let ps = validateEnvironmentName ''gmail.oauth_client_id_env'' (gm_client_id_env g) ps;
         ps = validateEnvironmentName ''gmail.oauth_client_secret_env'' (gm_client_secret_env g) ps;
         ps = validateEnvironmentName ''gmail.oauth_redirect_url_env'' (gm_redirect_url_env g) ps;
         ps = oneOf ''gmail.scope'' (gm_scope g) [''gmail.readonly''] ps;
         ps = durationRange ''gmail.poll_interval'' (gm_poll_interval g) Minute Hour ps;
         ps = durationRange ''gmail.poll_jitter'' (gm_poll_jitter g) 0 (5 * Minute) ps;
         ps = (if gm_poll_jitter g > gm_poll_interval g sdiv 2
           then report ''gmail.poll_jitter'' ''must not exceed half of gmail.poll_interval'' ps else ps);
         ps = uintRange ''gmail.page_size'' (gm_page_size g) 1 500 ps;
         ps = uintRange ''gmail.max_accounts_in_flight'' (gm_max_accounts g) 1 16 ps;
         ps = uintRange ''gmail.body_excerpt_bytes'' (gm_excerpt_bytes g) 1024 65536 ps
     in uintRange ''gmail.thread_max_messages'' (gm_thread_max g) 1 100 ps)"

definition validateTimezone :: "conflib \<Rightarrow> string \<Rightarrow> problem list \<Rightarrow> problem list" where
  "validateTimezone lib v ps =
    (if v = [] \<or> length v > 64 \<or> v = ''Local'' \<or> \<not> isASCII v \<or> has_prefix v ''/'' \<or> contains v [CHR 0x5C]
     then report ''backfill.run_window.timezone'' ''must be UTC or a safe IANA timezone name'' ps
     else if list_ex (\<lambda>segment. segment = [] \<or> segment = ''.'' \<or> segment = ''..'') (split_on (CHR ''/'') v)
     then report ''backfill.run_window.timezone'' ''must be UTC or a safe IANA timezone name'' ps
     else if \<not> LoadLocation lib v
     then report ''backfill.run_window.timezone'' ''must be UTC or a loadable IANA timezone name'' ps
     else ps)"

definition validateBackfill :: "conflib \<Rightarrow> backfill_config \<Rightarrow> problem list \<Rightarrow> problem list" where
  "validateBackfill lib b ps =
    (let ps = uintRange ''backfill.default_lookback_days'' (bf_default_days b) 1 3650 ps;
         ps = uintRange ''backfill.maximum_lookback_days'' (bf_maximum_days b) 1 3650 ps;
         ps = (if bf_default_days b > bf_maximum_days b
           then report ''backfill.default_lookback_days'' ''must not exceed backfill.maximum_lookback_days'' ps else ps);
         ps = uintRange ''backfill.page_size'' (bf_page_size b) 1 500 ps;
         ps = validateTimezone lib (rw_timezone (bf_run_window b)) ps;
         ps = (if \<not> windowTime (rw_start (bf_run_window b))
           then report ''backfill.run_window.start'' ''must use zero-padded HH:MM'' ps else ps);
         ps = (if \<not> windowTime (rw_end (bf_run_window b))
           then report ''backfill.run_window.end'' ''must use zero-padded HH:MM'' ps else ps)
     in if rw_start (bf_run_window b) = rw_end (bf_run_window b)
        then report ''backfill.run_window'' ''start and end must differ'' ps else ps)"

definition config_validDomain :: "string \<Rightarrow> bool" where
  "config_validDomain v =
    (if v = [] \<or> length v > 253 \<or> \<not> isASCII v \<or> v \<noteq> to_lower v \<or> ParseIP v \<or> list_ex (\<lambda>c. c \<in> set '':/*_@'') v \<or>
        has_prefix v ''.'' \<or> has_suffix v ''.''
     then False
     else list_all domainLabel (split_on (CHR ''.'') v))"

definition validateDomains :: "golib \<Rightarrow> string \<Rightarrow> string list \<Rightarrow> problem list \<Rightarrow> problem list" where
  "validateDomains lib fieldPath vs ps =
    validateUniqueList lib fieldPath vs 256 False config_validDomain ''must contain unique lowercase ASCII DNS domains'' ps"

definition valid_subject :: "string \<Rightarrow> bool" where
  "valid_subject v =
    (if v = [] \<or> v \<noteq> trim_space v \<or> length v > 128 \<or> \<not> valid_utf8 v then False
     else \<not> list_ex is_control (runes v))"

definition validateSubjects :: "golib \<Rightarrow> string \<Rightarrow> string list \<Rightarrow> problem list \<Rightarrow> problem list" where
  "validateSubjects lib fieldPath vs ps =
    validateUniqueList lib fieldPath vs 256 True valid_subject
      ''must contain unique trimmed literal terms of 1 to 128 UTF-8 bytes without controls'' ps"

definition validateGate :: "golib \<Rightarrow> gate_policy \<Rightarrow> problem list \<Rightarrow> problem list" where
  "validateGate lib g ps =
    (let ps = equalUint ''gate.version'' (g_version g) 1 ps;
         ps = validateUniqueList lib ''gate.excluded_labels'' (g_excluded_labels g) 32 False labelName
           ''must contain unique supported label identifiers'' ps;
         categories = [''CATEGORY_FORUMS'', ''CATEGORY_PERSONAL'', ''CATEGORY_PROMOTIONS'', ''CATEGORY_SOCIAL'', ''CATEGORY_UPDATES''];
         ps = validateUniqueList lib ''gate.suppress_gmail_categories'' (g_suppress_categories g) 5 False (\<lambda>v. v \<in> set categories)
           ''must contain unique supported Gmail categories'' ps;
         ps = validateDomains lib ''gate.sender_allow_domains'' (g_allow_domains g) ps;
         ps = validateDomains lib ''gate.sender_block_domains'' (g_block_domains g) ps;
         ps = (if list_ex (\<lambda>d. d \<in> set (g_allow_domains g)) (g_block_domains g)
           then report ''gate.sender_block_domains'' ''must not overlap gate.sender_allow_domains'' ps else ps);
         ps = validateSubjects lib ''gate.subject_candidate_terms'' (g_candidate_terms g) ps
     in validateSubjects lib ''gate.subject_urgent_terms'' (g_urgent_terms g) ps)"

definition validateReview :: "review_config \<Rightarrow> problem list \<Rightarrow> problem list" where
  "validateReview r ps =
    (let ps = uintRange ''review.default_page_size'' (rc_default_page_size r) 1 100 ps;
         ps = uintRange ''review.maximum_page_size'' (rc_maximum_page_size r) 1 100 ps
     in if rc_default_page_size r > rc_maximum_page_size r
        then report ''review.default_page_size'' ''must not exceed review.maximum_page_size'' ps else ps)"

definition validateRetention :: "retention_config \<Rightarrow> problem list \<Rightarrow> problem list" where
  "validateRetention r ps =
    (let ps = (if rt_metadata_days r > 36500
           then report ''retention.metadata_days'' ''must be 0 or between 1 and 36500'' ps else ps);
         ps = uintRange ''retention.excerpt_days'' (rt_excerpt_days r) 1 3650 ps;
         ps = uintRange ''retention.audit_days'' (rt_audit_days r) 1 3650 ps
     in if rt_metadata_days r \<noteq> 0 \<and> rt_metadata_days r < rt_excerpt_days r
        then report ''retention.metadata_days'' ''must be 0 or not shorter than retention.excerpt_days'' ps else ps)"

definition path_char :: "char \<Rightarrow> bool" where
  "path_char c \<longleftrightarrow> c = CHR ''/'' \<or> upper_char c \<or> lower_char c \<or> digit_char c \<or> c \<in> set (''-._~!$&()*+,;=:@'' @ [CHR 0x27])"

definition safeHTTPPath :: "string \<Rightarrow> bool" where
  "safeHTTPPath v = list_all path_char (drop 1 v)"

definition validateMCP :: "mcp_config \<Rightarrow> problem list \<Rightarrow> problem list" where
  "validateMCP m ps =
    (let v = mc_path m;
         ps = (if length v < 2 \<or> length v > 128 \<or> v = ''/'' \<or> \<not> has_prefix v ''/'' \<or> contains v ''//'' \<or> path_Clean v \<noteq> v \<or> \<not> safeHTTPPath v
           then report ''mcp.path'' ''must be a clean absolute ASCII HTTP path of 2 to 128 bytes'' ps else ps);
         ps = (if v = ''/health/live'' \<or> v = ''/health/ready''
           then report ''mcp.path'' ''must not overlap a reserved health path'' ps else ps)
     in validateEnvironmentName ''mcp.bearer_token_env'' (mc_bearer_env m) ps)"

definition validateConfig :: "conflib \<Rightarrow> config \<Rightarrow> problem list \<Rightarrow> problem list" where
  "validateConfig lib c ps =
    (let ps = equalUint ''version'' (cf_version c) 1 ps;
         ps = validateCapabilityDefinitions c capabilityDefinitions ps;
         ps = validateServer (cf_server c) ps;
         ps = validateDatabase (cf_database c) ps;
         ps = validateGmail (cf_gmail c) ps;
         ps = validateBackfill lib (cf_backfill c) ps;
         ps = validateGate (cl_lib lib) (cf_gate c) ps;
         ps = validateReview (cf_review c) ps;
         ps = validateRetention (cf_retention c) ps;
         ps = validateMCP (cf_mcp c) ps;
         ps = validateEnvironmentName ''encryption.master_key_env'' (en_master_key_env (cf_encryption c)) ps;
         ps = oneOf ''logging.level'' (lg_level (cf_logging c)) [''debug'', ''info'', ''warn'', ''error''] ps
     in oneOf ''logging.format'' (lg_format (cf_logging c)) [''json'', ''text''] ps)"

end
