(* ===== verification/Config_Parse.thy ===== *)
theory Config_Parse
  imports Config_Validate
begin

text \<open>
  \<^verbatim>\<open>internal/config/parse.go\<close>, \<^verbatim>\<open>decode.go\<close> and \<^verbatim>\<open>load.go\<close>: from the bytes of a file to a validated
  configuration. The YAML library is a parameter: what its decoder answers, call by call, for a text. Of a
  node's alias only its presence is kept, because the code asks for nothing else. Counters and positions do
  not come near the limits of their types.
\<close>

section \<open>Nodes, schema and problems\<close>

datatype yaml_kind = DocumentNode | SequenceNode | MappingNode | ScalarNode | AliasNode

datatype yaml_node = Node
  (y_kind: yaml_kind) (y_style: nat) (y_tag: string) (y_value: string) (y_anchor: string) (y_alias: bool)
  (y_content: "yaml_node list") (y_line: int) (y_column: int)

datatype yaml_answer = YamlNode yaml_node | YamlEOF | YamlError string

record parselib =
  pl_conf :: conflib
  YamlDecode :: "string \<Rightarrow> nat \<Rightarrow> yaml_answer"

datatype schema_node = Scalar | Mapping "(string \<times> schema_node) list" | Sequence schema_node

definition schema_server :: schema_node where
  "schema_server = Mapping [(''listen'', Scalar), (''read_header_timeout'', Scalar), (''read_timeout'', Scalar),
     (''write_timeout'', Scalar), (''idle_timeout'', Scalar), (''max_request_bytes'', Scalar)]"

definition schema_database :: schema_node where
  "schema_database = Mapping [(''engine'', Scalar), (''url_env'', Scalar), (''auth_token_env'', Scalar),
     (''max_open_connections'', Scalar), (''max_idle_connections'', Scalar), (''connection_max_lifetime'', Scalar)]"

definition schema_gmail :: schema_node where
  "schema_gmail = Mapping [(''oauth_client_id_env'', Scalar), (''oauth_client_secret_env'', Scalar),
     (''oauth_redirect_url_env'', Scalar), (''scope'', Scalar), (''poll_interval'', Scalar), (''poll_jitter'', Scalar),
     (''page_size'', Scalar), (''max_accounts_in_flight'', Scalar), (''body_excerpt_bytes'', Scalar), (''thread_max_messages'', Scalar)]"

definition schema_backfill :: schema_node where
  "schema_backfill = Mapping [(''enabled'', Scalar), (''default_lookback_days'', Scalar), (''maximum_lookback_days'', Scalar),
     (''page_size'', Scalar), (''current_mail_has_priority'', Scalar),
     (''run_window'', Mapping [(''timezone'', Scalar), (''start'', Scalar), (''end'', Scalar)])]"

definition schema_gate :: schema_node where
  "schema_gate = Mapping [(''version'', Scalar), (''excluded_labels'', Sequence Scalar),
     (''suppress_gmail_categories'', Sequence Scalar), (''direct_recipient_is_candidate'', Scalar),
     (''mailing_list_is_bulk_signal'', Scalar), (''sender_allow_domains'', Sequence Scalar), (''sender_block_domains'', Sequence Scalar),
     (''subject_candidate_terms'', Sequence Scalar), (''subject_urgent_terms'', Sequence Scalar)]"

definition schema :: schema_node where
  "schema = Mapping
    [(''version'', Scalar),
     (''capabilities'', Mapping [(''gmail.read'', Scalar), (''gmail.current_sync'', Scalar), (''gmail.backfill'', Scalar),
        (''mail.review_read'', Scalar), (''mail.review_write'', Scalar)]),
     (''server'', schema_server),
     (''database'', schema_database),
     (''gmail'', schema_gmail),
     (''backfill'', schema_backfill),
     (''gate'', schema_gate),
     (''review'', Mapping [(''default_page_size'', Scalar), (''maximum_page_size'', Scalar), (''automatic_task_creation'', Scalar)]),
     (''retention'', Mapping [(''metadata_days'', Scalar), (''excerpt_days'', Scalar), (''audit_days'', Scalar)]),
     (''mcp'', Mapping [(''enabled'', Scalar), (''path'', Scalar), (''bearer_token_env'', Scalar), (''enable_review_writes'', Scalar),
        (''enable_operator_tools'', Scalar)]),
     (''encryption'', Mapping [(''master_key_env'', Scalar)]),
     (''logging'', Mapping [(''level'', Scalar), (''format'', Scalar)])]"

definition problem_Error :: "problem \<Rightarrow> string" where
  "problem_Error p =
    (if pb_line p > 0
     then pb_path p @ '' (line '' @ format_int (pb_line p) @ '', column '' @ format_int (pb_column p) @ ''): '' @ pb_reason p
     else pb_path p @ '': '' @ pb_reason p)"

definition ValidationError_Error :: "problem list \<Rightarrow> string" where
  "ValidationError_Error ps = join_with (CHR 0x0A) (map problem_Error ps)"

definition problem_key :: "problem \<Rightarrow> string \<times> int \<times> int \<times> string" where
  "problem_key p = (pb_path p, pb_line p, pb_column p, pb_reason p)"

definition validationError :: "problem list \<Rightarrow> problem list" where
  "validationError ps = sort_key problem_key ps"

definition addProblem :: "yaml_node \<Rightarrow> string \<Rightarrow> string \<Rightarrow> problem list \<Rightarrow> problem list" where
  "addProblem node fieldPath reason ps =
    ps @ [\<lparr>pb_path = fieldPath, pb_line = y_line node, pb_column = y_column node, pb_reason = reason\<rparr>]"

section \<open>Checks on the text\<close>

fun invalidCharacter_from :: "int \<Rightarrow> int \<Rightarrow> rune list \<Rightarrow> problem option" where
  "invalidCharacter_from line column [] = None"
| "invalidCharacter_from line column (r # rs) =
    (if r = 0 \<or> r < 0x20 \<and> r \<noteq> 0x09 \<and> r \<noteq> 0x0A \<and> r \<noteq> 0x0D \<or> r \<ge> 0x7f \<and> r \<le> 0x84 \<or> r \<ge> 0x86 \<and> r \<le> 0x9f
     then Some \<lparr>pb_path = ''$'', pb_line = line, pb_column = column, pb_reason = ''configuration contains a disallowed control character''\<rparr>
     else if r = 0x0A then invalidCharacter_from (line + 1) 1 rs
     else invalidCharacter_from line (column + 1) rs)"

definition invalidCharacter :: "string \<Rightarrow> problem option" where
  "invalidCharacter data = invalidCharacter_from 1 1 (runes data)"

function strip_marks :: "string \<Rightarrow> string" where
  "strip_marks line = (if has_prefix line [CHR 0xEF, CHR 0xBB, CHR 0xBF] then strip_marks (drop 3 line) else line)"
  by pat_completeness auto
termination by (relation "measure length") (auto simp: has_prefix_iff)

declare strip_marks.simps [simp del]

fun first_line :: "(string \<Rightarrow> bool) \<Rightarrow> int \<Rightarrow> string list \<Rightarrow> int option" where
  "first_line test index [] = None"
| "first_line test index (line # ls) = (if test line then Some index else first_line test (index + 1) ls)"

definition directive :: "string \<Rightarrow> bool" where
  "directive line \<longleftrightarrow> (case strip_marks line of [] \<Rightarrow> False | c # _ \<Rightarrow> c = CHR ''%'')"

definition directiveLine :: "string \<Rightarrow> int option" where
  "directiveLine data = first_line directive 1 (split_on (CHR 0x0A) data)"

definition document_end :: "string \<Rightarrow> bool" where
  "document_end line =
    (if \<not> has_prefix line ''...'' then False
     else case drop 3 line of
       [] \<Rightarrow> True
     | c # _ \<Rightarrow>
         if c = CHR '' '' \<or> c = CHR 0x09 \<or> c = CHR 0x0D
         then let trimmed = trim_space (drop 3 line) in trimmed = [] \<or> has_prefix trimmed ''#''
         else False)"

definition documentEndLine :: "string \<Rightarrow> int option" where
  "documentEndLine data = first_line document_end 1 (split_on (CHR 0x0A) data)"

definition containsUnicodeControl :: "string \<Rightarrow> bool" where
  "containsUnicodeControl v = list_ex is_control (runes v)"

text \<open>
  The first match of \<^verbatim>\<open>line ([0-9]+):\<close> in an error text. \<^verbatim>\<open>strconv.Atoi\<close> gives the largest integer when
  the digits do not fit.
\<close>

fun find_location :: "string \<Rightarrow> int option" where
  "find_location [] = None"
| "find_location (c # s) =
    (let rest = drop 5 (c # s); digits = takeWhile digit_char rest in
     if has_prefix (c # s) ''line '' \<and> digits \<noteq> [] \<and> has_prefix (dropWhile digit_char rest) '':''
     then Some (min (int (digits_value digits)) (2 ^ 63 - 1))
     else find_location s)"

definition safeYAMLError :: "string \<Rightarrow> problem" where
  "safeYAMLError e = (case find_location e of
     None \<Rightarrow> plain_problem ''$'' ''malformed YAML''
   | Some line \<Rightarrow> \<lparr>pb_path = ''$'', pb_line = line, pb_column = 1, pb_reason = ''malformed YAML''\<rparr>)"

section \<open>The structure of the document\<close>

definition isCoreTag :: "string \<Rightarrow> bool" where
  "isCoreTag tag \<longleftrightarrow> tag \<in> set ['''', ''!!map'', ''!!seq'', ''!!str'', ''!!bool'', ''!!int'', ''!!float'', ''!!null'',
     ''!!timestamp'', ''!!merge'', ''!!binary'']"

type_synonym walk = "nat \<times> problem list"

text \<open>The tests of a node that do not depend on the schema, before the nesting depth is looked at.\<close>

definition node_features :: "yaml_node \<Rightarrow> string \<Rightarrow> problem list \<Rightarrow> problem list" where
  "node_features node fieldPath ps =
    (if y_anchor node \<noteq> [] \<or> y_alias node then addProblem node fieldPath ''YAML anchors and aliases are not supported'' ps else ps)"

definition node_tag :: "yaml_node \<Rightarrow> string \<Rightarrow> problem list \<Rightarrow> problem list" where
  "node_tag node fieldPath ps =
    (if \<not> isCoreTag (y_tag node) then addProblem node fieldPath ''custom YAML tags are not supported'' ps else ps)"

definition node_control :: "yaml_node \<Rightarrow> string \<Rightarrow> problem list \<Rightarrow> problem list" where
  "node_control node fieldPath ps =
    (if y_kind node = ScalarNode \<and> containsUnicodeControl (y_value node)
     then addProblem node fieldPath ''scalar contains a disallowed control character'' ps else ps)"

text \<open>The tests of a mapping key, in the same order; the last argument holds the keys seen before.\<close>

definition key_control :: "yaml_node \<Rightarrow> string \<Rightarrow> problem list \<Rightarrow> problem list" where
  "key_control key fieldPath ps =
    (if y_kind key = ScalarNode \<and> containsUnicodeControl (y_value key)
     then addProblem key fieldPath ''mapping key contains a disallowed control character'' ps else ps)"

definition key_features :: "yaml_node \<Rightarrow> string \<Rightarrow> string list \<Rightarrow> problem list \<Rightarrow> problem list" where
  "key_features key fieldPath seen ps =
    (let ps = (if y_anchor key \<noteq> [] \<or> y_alias key \<or> \<not> isCoreTag (y_tag key)
           then addProblem key fieldPath ''mapping keys cannot use YAML features'' ps else ps)
     in if y_value key \<in> set seen then addProblem key fieldPath ''duplicate key'' ps else ps)"

definition child_path :: "string \<Rightarrow> string \<Rightarrow> string" where
  "child_path fieldPath key = (if fieldPath \<noteq> ''$'' then fieldPath @ ''.'' @ key else key)"

definition item_path :: "string \<Rightarrow> nat \<Rightarrow> string" where
  "item_path fieldPath index = fieldPath @ ''['' @ format_uint index @ '']''"

text \<open>
  The part of \<^verbatim>\<open>walkStructure\<close> before its children: the state after the tests of the node itself, and
  whether the walk goes on below it.
\<close>

definition enter_node :: "schema_node \<Rightarrow> string \<Rightarrow> nat \<Rightarrow> yaml_node \<Rightarrow> walk \<Rightarrow> bool \<times> walk" where
  "enter_node expected fieldPath depth node st =
    (let nodes = fst st + 1; ps = snd st; kind = y_kind node in
     if nodes > MaxNodes
     then (False, nodes, if nodes = MaxNodes + 1 then addProblem node fieldPath ''configuration exceeds the 4096-node limit'' ps else ps)
     else let ps = node_features node fieldPath ps in
     if kind = AliasNode then (False, nodes, addProblem node fieldPath ''YAML aliases are not supported'' ps)
     else let ps = node_tag node fieldPath ps in
     if kind = ScalarNode \<and> y_tag node = ''!!null'' then (False, nodes, addProblem node fieldPath ''null values are not supported'' ps)
     else let ps = node_control node fieldPath ps in
     if (kind = MappingNode \<or> kind = SequenceNode) \<and> depth > MaxDepth
     then (False, nodes, addProblem node fieldPath ''configuration exceeds the nesting depth limit of 8'' ps)
     else case expected of
       Mapping fs \<Rightarrow> if kind \<noteq> MappingNode then (False, nodes, addProblem node fieldPath ''must be a mapping'' ps) else (True, nodes, ps)
     | Sequence item \<Rightarrow> if kind \<noteq> SequenceNode then (False, nodes, addProblem node fieldPath ''must be a sequence'' ps) else (True, nodes, ps)
     | Scalar \<Rightarrow> if kind \<noteq> ScalarNode then (True, nodes, addProblem node fieldPath ''must be a scalar'' ps) else (False, nodes, ps))"

text \<open>
  The tests of one mapping key: the keys seen, the schema and path to walk its value with, if it is walked,
  and the state.
\<close>

definition enter_key :: "(string \<times> schema_node) list \<Rightarrow> string \<Rightarrow> string list \<Rightarrow> yaml_node \<Rightarrow> walk \<Rightarrow>
    string list \<times> (schema_node \<times> string) option \<times> walk" where
  "enter_key fs fieldPath seen key st =
    (let nodes = fst st + 1; ps = key_control key fieldPath (snd st) in
     if y_tag key = ''!!merge'' \<or> y_value key = ''<<''
     then (seen, Some (Scalar, fieldPath), nodes, addProblem key fieldPath ''YAML merge keys are not supported'' ps)
     else if y_kind key \<noteq> ScalarNode \<or> y_tag key \<noteq> ''!!str''
     then (seen, None, nodes, addProblem key fieldPath ''mapping keys must be strings'' ps)
     else let ps = key_features key fieldPath seen ps in
     case map_of fs (y_value key) of
       None \<Rightarrow> (y_value key # seen, Some (Scalar, fieldPath), nodes, addProblem key fieldPath ''unknown key'' ps)
     | Some child \<Rightarrow> (y_value key # seen, Some (child, child_path fieldPath (y_value key)), nodes, ps))"

text \<open>
  The walk: over a node, the fields of a mapping, the items of a sequence, and, where a scalar was
  expected, the values of a mapping and the items of a sequence.
\<close>

lemma content_size [simp]: "Suc (2 * size_list size (y_content node)) < 2 * size node"
  by (cases node) simp

function walkStructure :: "schema_node \<Rightarrow> string \<Rightarrow> nat \<Rightarrow> yaml_node \<Rightarrow> walk \<Rightarrow> walk"
  and walk_fields :: "(string \<times> schema_node) list \<Rightarrow> string \<Rightarrow> nat \<Rightarrow> string list \<Rightarrow> yaml_node list \<Rightarrow> walk \<Rightarrow> walk"
  and walk_items :: "schema_node \<Rightarrow> string \<Rightarrow> nat \<Rightarrow> nat \<Rightarrow> yaml_node list \<Rightarrow> walk \<Rightarrow> walk"
  and walk_values :: "string \<Rightarrow> nat \<Rightarrow> yaml_node list \<Rightarrow> walk \<Rightarrow> walk"
  and walk_all :: "string \<Rightarrow> nat \<Rightarrow> yaml_node list \<Rightarrow> walk \<Rightarrow> walk" where
  "walkStructure expected fieldPath depth node st =
    (case enter_node expected fieldPath depth node st of
       (descend, st') \<Rightarrow>
         if \<not> descend then st'
         else case expected of
           Mapping fs \<Rightarrow> walk_fields fs fieldPath depth [] (y_content node) st'
         | Sequence item \<Rightarrow> walk_items item fieldPath depth 0 (y_content node) st'
         | Scalar \<Rightarrow>
             if y_kind node = MappingNode then walk_values fieldPath depth (y_content node) st'
             else if y_kind node = SequenceNode then walk_all fieldPath depth (y_content node) st'
             else st')"
| "walk_fields fs fieldPath depth seen (key # v # rest) st =
    (case enter_key fs fieldPath seen key st of
       (seen', target, st') \<Rightarrow> walk_fields fs fieldPath depth seen' rest
         (case target of None \<Rightarrow> st' | Some (child, path) \<Rightarrow> walkStructure child path (depth + 1) v st'))"
| "walk_fields fs fieldPath depth seen [] st = st"
| "walk_fields fs fieldPath depth seen [key] st = st"
| "walk_items item fieldPath depth index [] st = st"
| "walk_items item fieldPath depth index (v # rest) st =
    walk_items item fieldPath depth (index + 1) rest (walkStructure item (item_path fieldPath index) (depth + 1) v st)"
| "walk_values fieldPath depth (key # v # rest) st =
    walk_values fieldPath depth rest (walkStructure Scalar fieldPath (depth + 1) v (fst st + 1, snd st))"
| "walk_values fieldPath depth [] st = st"
| "walk_values fieldPath depth [key] st = st"
| "walk_all fieldPath depth [] st = st"
| "walk_all fieldPath depth (v # rest) st = walk_all fieldPath depth rest (walkStructure Scalar fieldPath (depth + 1) v st)"
  by pat_completeness auto
termination
  by (relation "measure (\<lambda>x. case x of
       Inl (Inl (_, _, _, n, _)) \<Rightarrow> 2 * size n
     | Inl (Inr (_, _, _, _, l, _)) \<Rightarrow> 2 * size_list size l + 1
     | Inr (Inl (_, _, _, _, l, _)) \<Rightarrow> 2 * size_list size l + 1
     | Inr (Inr (Inl (_, _, l, _))) \<Rightarrow> 2 * size_list size l + 1
     | Inr (Inr (Inr (_, _, l, _))) \<Rightarrow> 2 * size_list size l + 1)") simp_all

declare walkStructure.simps [simp del]

section \<open>Reading values\<close>

fun node_pairs :: "yaml_node list \<Rightarrow> (string \<times> yaml_node) list" where
  "node_pairs (key # v # rest) = (y_value key, v) # node_pairs rest"
| "node_pairs _ = []"

definition mappingValues :: "yaml_node \<Rightarrow> string \<Rightarrow> yaml_node option" where
  "mappingValues node = map_of (rev (node_pairs (y_content node)))"

definition canonical_uint :: "string \<Rightarrow> bool" where
  "canonical_uint v \<longleftrightarrow> v = ''0'' \<or> v \<noteq> [] \<and> in_range 49 57 (hd v) \<and> list_all digit_char (tl v)"

definition readUint :: "string \<Rightarrow> yaml_node \<Rightarrow> problem list \<Rightarrow> u64 \<times> problem list" where
  "readUint fieldPath node ps =
    (if y_kind node \<noteq> ScalarNode \<or> y_tag node \<noteq> ''!!int'' \<or> y_style node \<noteq> 0 \<or> \<not> canonical_uint (y_value node)
     then (0, addProblem node fieldPath ''must be an unquoted canonical unsigned decimal integer'' ps)
     else case parse_uint 64 (y_value node) of
       None \<Rightarrow> (0, addProblem node fieldPath ''integer is outside the supported range'' ps)
     | Some n \<Rightarrow> (of_nat n, ps))"

definition readBool :: "string \<Rightarrow> yaml_node \<Rightarrow> problem list \<Rightarrow> bool \<times> problem list" where
  "readBool fieldPath node ps =
    (if y_kind node \<noteq> ScalarNode \<or> y_tag node \<noteq> ''!!bool'' \<or> y_style node \<noteq> 0 \<or> y_value node \<noteq> ''true'' \<and> y_value node \<noteq> ''false''
     then (False, addProblem node fieldPath ''must be an unquoted lowercase boolean'' ps)
     else (y_value node = ''true'', ps))"

definition readString :: "string \<Rightarrow> yaml_node \<Rightarrow> problem list \<Rightarrow> string \<times> problem list" where
  "readString fieldPath node ps =
    (if y_kind node \<noteq> ScalarNode \<or> y_tag node \<noteq> ''!!str'' then ([], addProblem node fieldPath ''must be a string'' ps)
     else (y_value node, ps))"

definition readDuration :: "string \<Rightarrow> yaml_node \<Rightarrow> problem list \<Rightarrow> duration \<times> problem list" where
  "readDuration fieldPath node ps =
    (case readString fieldPath node ps of (v, ps) \<Rightarrow>
       (case ParseDuration v of
          None \<Rightarrow> (0, addProblem node fieldPath ''must be a valid Go duration'' ps)
        | Some d \<Rightarrow> (d, ps)))"

fun readStrings_from :: "string \<Rightarrow> nat \<Rightarrow> yaml_node list \<Rightarrow> problem list \<Rightarrow> string list \<times> problem list" where
  "readStrings_from fieldPath index [] ps = ([], ps)"
| "readStrings_from fieldPath index (item # items) ps =
    (case readString (item_path fieldPath index) item ps of (v, ps) \<Rightarrow>
       (case readStrings_from fieldPath (index + 1) items ps of (vs, ps) \<Rightarrow> (v # vs, ps)))"

definition readStrings :: "string \<Rightarrow> yaml_node \<Rightarrow> problem list \<Rightarrow> string list \<times> problem list" where
  "readStrings fieldPath node ps = readStrings_from fieldPath 0 (y_content node) ps"

text \<open>
  \<^verbatim>\<open>if n := v[key]; n != nil { target.Field = read(n, path, problems) }\<close>, on the pair of the target
  and the problems.
\<close>

definition when_present ::
  "(string \<Rightarrow> yaml_node option) \<Rightarrow> string \<Rightarrow> (yaml_node \<Rightarrow> problem list \<Rightarrow> 'a \<times> problem list) \<Rightarrow> ('a \<Rightarrow> 't \<Rightarrow> 't) \<Rightarrow>
    't \<times> problem list \<Rightarrow> 't \<times> problem list" where
  "when_present vals key rd upd st = (case vals key of
     None \<Rightarrow> st
   | Some node \<Rightarrow> (case rd node (snd st) of (x, ps) \<Rightarrow> (upd x (fst st), ps)))"

section \<open>Decoding the sections\<close>

definition decodeCapabilities :: "yaml_node \<Rightarrow> capabilities_config \<times> problem list \<Rightarrow> capabilities_config \<times> problem list" where
  "decodeCapabilities node st =
    (let v = mappingValues node;
         st = when_present v ''gmail.read'' (readBool ''capabilities.gmail.read'') (\<lambda>x. cc_gmail_read_update (\<lambda>_. x)) st;
         st = when_present v ''gmail.current_sync'' (readBool ''capabilities.gmail.current_sync'') (\<lambda>x. cc_gmail_current_sync_update (\<lambda>_. x)) st;
         st = when_present v ''gmail.backfill'' (readBool ''capabilities.gmail.backfill'') (\<lambda>x. cc_gmail_backfill_update (\<lambda>_. x)) st;
         st = when_present v ''mail.review_read'' (readBool ''capabilities.mail.review_read'') (\<lambda>x. cc_mail_review_read_update (\<lambda>_. x)) st
     in when_present v ''mail.review_write'' (readBool ''capabilities.mail.review_write'') (\<lambda>x. cc_mail_review_write_update (\<lambda>_. x)) st)"

definition decodeServer :: "yaml_node \<Rightarrow> server_config \<times> problem list \<Rightarrow> server_config \<times> problem list" where
  "decodeServer node st =
    (let v = mappingValues node;
         st = when_present v ''listen'' (readString ''server.listen'') (\<lambda>x. sc_listen_update (\<lambda>_. x)) st;
         st = when_present v ''read_header_timeout'' (readDuration ''server.read_header_timeout'') (\<lambda>x. sc_read_header_timeout_update (\<lambda>_. x)) st;
         st = when_present v ''read_timeout'' (readDuration ''server.read_timeout'') (\<lambda>x. sc_read_timeout_update (\<lambda>_. x)) st;
         st = when_present v ''write_timeout'' (readDuration ''server.write_timeout'') (\<lambda>x. sc_write_timeout_update (\<lambda>_. x)) st;
         st = when_present v ''idle_timeout'' (readDuration ''server.idle_timeout'') (\<lambda>x. sc_idle_timeout_update (\<lambda>_. x)) st
     in when_present v ''max_request_bytes'' (readUint ''server.max_request_bytes'') (\<lambda>x. sc_max_request_bytes_update (\<lambda>_. x)) st)"

definition decodeDatabase :: "yaml_node \<Rightarrow> database_config \<times> problem list \<Rightarrow> database_config \<times> problem list" where
  "decodeDatabase node st =
    (let v = mappingValues node;
         st = when_present v ''engine'' (readString ''database.engine'') (\<lambda>x. db_engine_update (\<lambda>_. x)) st;
         st = when_present v ''url_env'' (readString ''database.url_env'') (\<lambda>x. db_url_env_update (\<lambda>_. x)) st;
         st = when_present v ''auth_token_env'' (readString ''database.auth_token_env'') (\<lambda>x. db_auth_token_env_update (\<lambda>_. x)) st;
         st = when_present v ''max_open_connections'' (readUint ''database.max_open_connections'') (\<lambda>x. db_max_open_update (\<lambda>_. x)) st;
         st = when_present v ''max_idle_connections'' (readUint ''database.max_idle_connections'') (\<lambda>x. db_max_idle_update (\<lambda>_. x)) st
     in when_present v ''connection_max_lifetime'' (readDuration ''database.connection_max_lifetime'') (\<lambda>x. db_max_lifetime_update (\<lambda>_. x)) st)"

definition decodeGmail :: "yaml_node \<Rightarrow> gmail_config \<times> problem list \<Rightarrow> gmail_config \<times> problem list" where
  "decodeGmail node st =
    (let v = mappingValues node;
         st = when_present v ''oauth_client_id_env'' (readString ''gmail.oauth_client_id_env'') (\<lambda>x. gm_client_id_env_update (\<lambda>_. x)) st;
         st = when_present v ''oauth_client_secret_env'' (readString ''gmail.oauth_client_secret_env'') (\<lambda>x. gm_client_secret_env_update (\<lambda>_. x)) st;
         st = when_present v ''oauth_redirect_url_env'' (readString ''gmail.oauth_redirect_url_env'') (\<lambda>x. gm_redirect_url_env_update (\<lambda>_. x)) st;
         st = when_present v ''scope'' (readString ''gmail.scope'') (\<lambda>x. gm_scope_update (\<lambda>_. x)) st;
         st = when_present v ''poll_interval'' (readDuration ''gmail.poll_interval'') (\<lambda>x. gm_poll_interval_update (\<lambda>_. x)) st;
         st = when_present v ''poll_jitter'' (readDuration ''gmail.poll_jitter'') (\<lambda>x. gm_poll_jitter_update (\<lambda>_. x)) st;
         st = when_present v ''page_size'' (readUint ''gmail.page_size'') (\<lambda>x. gm_page_size_update (\<lambda>_. x)) st;
         st = when_present v ''max_accounts_in_flight'' (readUint ''gmail.max_accounts_in_flight'') (\<lambda>x. gm_max_accounts_update (\<lambda>_. x)) st;
         st = when_present v ''body_excerpt_bytes'' (readUint ''gmail.body_excerpt_bytes'') (\<lambda>x. gm_excerpt_bytes_update (\<lambda>_. x)) st
     in when_present v ''thread_max_messages'' (readUint ''gmail.thread_max_messages'') (\<lambda>x. gm_thread_max_update (\<lambda>_. x)) st)"

definition decode_run_window :: "yaml_node \<Rightarrow> run_window \<times> problem list \<Rightarrow> run_window \<times> problem list" where
  "decode_run_window node st =
    (let w = mappingValues node;
         st = when_present w ''timezone'' (readString ''backfill.run_window.timezone'') (\<lambda>x. rw_timezone_update (\<lambda>_. x)) st;
         st = when_present w ''start'' (readString ''backfill.run_window.start'') (\<lambda>x. rw_start_update (\<lambda>_. x)) st
     in when_present w ''end'' (readString ''backfill.run_window.end'') (\<lambda>x. rw_end_update (\<lambda>_. x)) st)"

definition decodeBackfill :: "yaml_node \<Rightarrow> backfill_config \<times> problem list \<Rightarrow> backfill_config \<times> problem list" where
  "decodeBackfill node st =
    (let v = mappingValues node;
         st = when_present v ''enabled'' (readBool ''backfill.enabled'') (\<lambda>x. bf_enabled_update (\<lambda>_. x)) st;
         st = when_present v ''default_lookback_days'' (readUint ''backfill.default_lookback_days'') (\<lambda>x. bf_default_days_update (\<lambda>_. x)) st;
         st = when_present v ''maximum_lookback_days'' (readUint ''backfill.maximum_lookback_days'') (\<lambda>x. bf_maximum_days_update (\<lambda>_. x)) st;
         st = when_present v ''page_size'' (readUint ''backfill.page_size'') (\<lambda>x. bf_page_size_update (\<lambda>_. x)) st;
         st = when_present v ''current_mail_has_priority'' (readBool ''backfill.current_mail_has_priority'') (\<lambda>x. bf_current_priority_update (\<lambda>_. x)) st
     in when_present v ''run_window'' (\<lambda>n ps. decode_run_window n (bf_run_window (fst st), ps)) (\<lambda>x. bf_run_window_update (\<lambda>_. x)) st)"

definition decodeGate :: "yaml_node \<Rightarrow> gate_policy \<times> problem list \<Rightarrow> gate_policy \<times> problem list" where
  "decodeGate node st =
    (let v = mappingValues node;
         st = when_present v ''version'' (readUint ''gate.version'') (\<lambda>x. g_version_update (\<lambda>_. x)) st;
         st = when_present v ''excluded_labels'' (readStrings ''gate.excluded_labels'') (\<lambda>x. g_excluded_labels_update (\<lambda>_. x)) st;
         st = when_present v ''suppress_gmail_categories'' (readStrings ''gate.suppress_gmail_categories'') (\<lambda>x. g_suppress_categories_update (\<lambda>_. x)) st;
         st = when_present v ''direct_recipient_is_candidate'' (readBool ''gate.direct_recipient_is_candidate'') (\<lambda>x. g_direct_candidate_update (\<lambda>_. x)) st;
         st = when_present v ''mailing_list_is_bulk_signal'' (readBool ''gate.mailing_list_is_bulk_signal'') (\<lambda>x. g_list_bulk_update (\<lambda>_. x)) st;
         st = when_present v ''sender_allow_domains'' (readStrings ''gate.sender_allow_domains'') (\<lambda>x. g_allow_domains_update (\<lambda>_. x)) st;
         st = when_present v ''sender_block_domains'' (readStrings ''gate.sender_block_domains'') (\<lambda>x. g_block_domains_update (\<lambda>_. x)) st;
         st = when_present v ''subject_candidate_terms'' (readStrings ''gate.subject_candidate_terms'') (\<lambda>x. g_candidate_terms_update (\<lambda>_. x)) st
     in when_present v ''subject_urgent_terms'' (readStrings ''gate.subject_urgent_terms'') (\<lambda>x. g_urgent_terms_update (\<lambda>_. x)) st)"

definition decodeReview :: "yaml_node \<Rightarrow> review_config \<times> problem list \<Rightarrow> review_config \<times> problem list" where
  "decodeReview node st =
    (let v = mappingValues node;
         st = when_present v ''default_page_size'' (readUint ''review.default_page_size'') (\<lambda>x. rc_default_page_size_update (\<lambda>_. x)) st;
         st = when_present v ''maximum_page_size'' (readUint ''review.maximum_page_size'') (\<lambda>x. rc_maximum_page_size_update (\<lambda>_. x)) st
     in when_present v ''automatic_task_creation'' (readBool ''review.automatic_task_creation'') (\<lambda>x. rc_automatic_tasks_update (\<lambda>_. x)) st)"

definition decodeRetention :: "yaml_node \<Rightarrow> retention_config \<times> problem list \<Rightarrow> retention_config \<times> problem list" where
  "decodeRetention node st =
    (let v = mappingValues node;
         st = when_present v ''metadata_days'' (readUint ''retention.metadata_days'') (\<lambda>x. rt_metadata_days_update (\<lambda>_. x)) st;
         st = when_present v ''excerpt_days'' (readUint ''retention.excerpt_days'') (\<lambda>x. rt_excerpt_days_update (\<lambda>_. x)) st
     in when_present v ''audit_days'' (readUint ''retention.audit_days'') (\<lambda>x. rt_audit_days_update (\<lambda>_. x)) st)"

definition decodeMCP :: "yaml_node \<Rightarrow> mcp_config \<times> problem list \<Rightarrow> mcp_config \<times> problem list" where
  "decodeMCP node st =
    (let v = mappingValues node;
         st = when_present v ''enabled'' (readBool ''mcp.enabled'') (\<lambda>x. mc_enabled_update (\<lambda>_. x)) st;
         st = when_present v ''path'' (readString ''mcp.path'') (\<lambda>x. mc_path_update (\<lambda>_. x)) st;
         st = when_present v ''bearer_token_env'' (readString ''mcp.bearer_token_env'') (\<lambda>x. mc_bearer_env_update (\<lambda>_. x)) st;
         st = when_present v ''enable_review_writes'' (readBool ''mcp.enable_review_writes'') (\<lambda>x. mc_review_writes_update (\<lambda>_. x)) st
     in when_present v ''enable_operator_tools'' (readBool ''mcp.enable_operator_tools'') (\<lambda>x. mc_operator_tools_update (\<lambda>_. x)) st)"

definition decodeEncryption :: "yaml_node \<Rightarrow> encryption_config \<times> problem list \<Rightarrow> encryption_config \<times> problem list" where
  "decodeEncryption node st =
    when_present (mappingValues node) ''master_key_env'' (readString ''encryption.master_key_env'') (\<lambda>x. en_master_key_env_update (\<lambda>_. x)) st"

definition decodeLogging :: "yaml_node \<Rightarrow> logging_config \<times> problem list \<Rightarrow> logging_config \<times> problem list" where
  "decodeLogging node st =
    (let v = mappingValues node;
         st = when_present v ''level'' (readString ''logging.level'') (\<lambda>x. lg_level_update (\<lambda>_. x)) st
     in when_present v ''format'' (readString ''logging.format'') (\<lambda>x. lg_format_update (\<lambda>_. x)) st)"

text \<open>\<^verbatim>\<open>if node := values[key]; node != nil { decode(node, &config.Section, problems) }\<close>\<close>

definition section_at ::
  "(string \<Rightarrow> yaml_node option) \<Rightarrow> string \<Rightarrow> (yaml_node \<Rightarrow> 's \<times> problem list \<Rightarrow> 's \<times> problem list) \<Rightarrow> (config \<Rightarrow> 's) \<Rightarrow>
    ('s \<Rightarrow> config \<Rightarrow> config) \<Rightarrow> config \<times> problem list \<Rightarrow> config \<times> problem list" where
  "section_at vals key dec get upd st = when_present vals key (\<lambda>node ps. dec node (get (fst st), ps)) upd st"

definition decodeConfig :: "yaml_node \<Rightarrow> config \<times> problem list \<Rightarrow> config \<times> problem list" where
  "decodeConfig root st =
    (let v = mappingValues root;
         st = (case v ''version'' of
             Some node \<Rightarrow> (case readUint ''version'' node (snd st) of (n, ps) \<Rightarrow> ((fst st)\<lparr>cf_version := n\<rparr>, ps))
           | None \<Rightarrow> (fst st, snd st @ [plain_problem ''version'' ''is required'']));
         st = section_at v ''capabilities'' decodeCapabilities cf_capabilities (\<lambda>x. cf_capabilities_update (\<lambda>_. x)) st;
         st = section_at v ''server'' decodeServer cf_server (\<lambda>x. cf_server_update (\<lambda>_. x)) st;
         st = section_at v ''database'' decodeDatabase cf_database (\<lambda>x. cf_database_update (\<lambda>_. x)) st;
         st = section_at v ''gmail'' decodeGmail cf_gmail (\<lambda>x. cf_gmail_update (\<lambda>_. x)) st;
         st = section_at v ''backfill'' decodeBackfill cf_backfill (\<lambda>x. cf_backfill_update (\<lambda>_. x)) st;
         st = section_at v ''gate'' decodeGate cf_gate (\<lambda>x. cf_gate_update (\<lambda>_. x)) st;
         st = section_at v ''review'' decodeReview cf_review (\<lambda>x. cf_review_update (\<lambda>_. x)) st;
         st = section_at v ''retention'' decodeRetention cf_retention (\<lambda>x. cf_retention_update (\<lambda>_. x)) st;
         st = section_at v ''mcp'' decodeMCP cf_mcp (\<lambda>x. cf_mcp_update (\<lambda>_. x)) st;
         st = section_at v ''encryption'' decodeEncryption cf_encryption (\<lambda>x. cf_encryption_update (\<lambda>_. x)) st
     in section_at v ''logging'' decodeLogging cf_logging (\<lambda>x. cf_logging_update (\<lambda>_. x)) st)"

section \<open>Parsing\<close>

text \<open>A failure with one problem. The text of \<^verbatim>\<open>io.EOF\<close> is \<^verbatim>\<open>EOF\<close>.\<close>

definition single :: "problem \<Rightarrow> problem list + 'a" where
  "single p = Inl (validationError [p])"

definition yaml_root :: "parselib \<Rightarrow> string \<Rightarrow> problem list + yaml_node" where
  "yaml_root lib data =
    (case YamlDecode lib data 0 of
       YamlError e \<Rightarrow> single (safeYAMLError e)
     | YamlEOF \<Rightarrow> single (safeYAMLError ''EOF'')
     | YamlNode document \<Rightarrow>
         (case YamlDecode lib data 1 of
            YamlError e \<Rightarrow> single (safeYAMLError e)
          | YamlNode extra \<Rightarrow>
              (case y_content extra of
                 [] \<Rightarrow> single (plain_problem ''$'' ''multiple YAML documents are not supported'')
               | first # _ \<Rightarrow> single \<lparr>pb_path = ''$'', pb_line = y_line first, pb_column = y_column first,
                   pb_reason = ''multiple YAML documents are not supported''\<rparr>)
          | YamlEOF \<Rightarrow>
              (case y_content document of
                 [root] \<Rightarrow>
                   if y_kind root = ScalarNode \<and> y_tag root = ''!!null''
                   then single (plain_problem ''$'' ''configuration document must not be null'')
                   else if y_kind root \<noteq> MappingNode
                   then single \<lparr>pb_path = ''$'', pb_line = y_line root, pb_column = y_column root,
                     pb_reason = ''document root must be a mapping''\<rparr>
                   else Inr root
               | _ \<Rightarrow> single (plain_problem ''$'' ''configuration document must not be null''))))"

definition over_limit :: problem where
  "over_limit = plain_problem ''$'' (''configuration exceeds the '' @ format_uint MaxFileBytes @ ''-byte limit'')"

definition parseValidated :: "parselib \<Rightarrow> string \<Rightarrow> problem list + (config \<times> yaml_node)" where
  "parseValidated lib data =
    (if length data > MaxFileBytes then single over_limit
     else if trim_space data = [] then single (plain_problem ''$'' ''configuration document is empty'')
     else if \<not> valid_utf8 data then single (plain_problem ''$'' ''configuration must be valid UTF-8'')
     else case invalidCharacter data of
       Some p \<Rightarrow> single p
     | None \<Rightarrow>
       (case directiveLine data of
          Some line \<Rightarrow> single \<lparr>pb_path = ''$'', pb_line = line, pb_column = 1, pb_reason = ''YAML directives are not supported''\<rparr>
        | None \<Rightarrow>
          (case documentEndLine data of
             Some line \<Rightarrow> single \<lparr>pb_path = ''$'', pb_line = line, pb_column = 1, pb_reason = ''YAML document-end markers are not supported''\<rparr>
           | None \<Rightarrow>
             (case yaml_root lib data of
                Inl e \<Rightarrow> Inl e
              | Inr root \<Rightarrow>
                  let ps = snd (walkStructure schema ''$'' 1 root (0, [])) in
                  if ps \<noteq> [] then Inl (validationError ps)
                  else (case decodeConfig root (Defaults, []) of
                    (c, ps) \<Rightarrow>
                      let ps = validateConfig (pl_conf lib) c ps in
                      if ps \<noteq> [] then Inl (validationError ps) else Inr (c, root))))))"

definition config_Parse :: "parselib \<Rightarrow> string \<Rightarrow> problem list + config" where
  "config_Parse lib data = map_sum id fst (parseValidated lib data)"

section \<open>Loading\<close>

text \<open>What the file system answers: to \<^verbatim>\<open>os.Stat\<close>, \<^verbatim>\<open>open\<close>, \<^verbatim>\<open>Stat\<close> of the open file and reading it.\<close>

record file_answers =
  fa_stat :: "bool option"
  fa_open :: bool
  fa_fstat :: "bool option"
  fa_bytes :: "string option"

definition file_problem :: "string \<Rightarrow> problem list + 'a" where
  "file_problem reason = single (plain_problem ''file'' reason)"

definition readFile :: "file_answers \<Rightarrow> problem list + string" where
  "readFile f =
    (case fa_stat f of
       None \<Rightarrow> file_problem ''cannot inspect configuration file''
     | Some regular \<Rightarrow>
         if \<not> regular then file_problem ''configuration target must be a regular file''
         else if \<not> fa_open f then file_problem ''cannot open configuration file''
         else case fa_fstat f of
           None \<Rightarrow> file_problem ''cannot inspect configuration file''
         | Some regular \<Rightarrow>
             if \<not> regular then file_problem ''configuration target must be a regular file''
             else case fa_bytes f of
               None \<Rightarrow> file_problem ''cannot read configuration file''
             | Some bytes \<Rightarrow>
                 let data = take (MaxFileBytes + 1) bytes in
                 if length data > MaxFileBytes
                 then file_problem (''configuration exceeds the '' @ format_uint MaxFileBytes @ ''-byte limit'')
                 else Inr data)"

definition config_Load :: "parselib \<Rightarrow> file_answers \<Rightarrow> problem list + config" where
  "config_Load lib f = (case readFile f of Inl e \<Rightarrow> Inl e | Inr data \<Rightarrow> config_Parse lib data)"

end
