(* ===== verification/Go_Utf8.thy ===== *)
theory Go_Utf8
  imports Go_Strings
begin

text \<open>
  Further facts on UTF-8: what is decoded is a valid rune, what is encoded decodes to itself, and valid
  strings are put together and cut at the boundaries of their characters.
\<close>

section \<open>Runes and their encoding\<close>

lemma char_of_less: "a < 256 \<Longrightarrow> b < 256 \<Longrightarrow> char_of a = char_of b \<longleftrightarrow> a = (b :: nat)"
  by (metis of_char_of mod_less)

lemma encode_rune_unique:
  assumes "rune_valid a" and "rune_valid b" and "encode_rune a @ s = encode_rune b @ t"
  shows "a = b \<and> s = t"
proof -
  have le: "x \<le> 0x10FFFF" if "rune_valid x" for x using that by (auto simp: rune_valid_def)
  have digits: "x = y" if "x div 64 = y div 64" "x mod 64 = y mod 64" for x y :: nat
    using that by (metis div_mult_mod_eq)
  have digits3: "x = y" if "x div 4096 = y div 4096" "x div 64 mod 64 = y div 64 mod 64" "x mod 64 = y mod 64" for x y :: nat
    using that digits [of "x div 64" "y div 64"] digits [of x y] by (simp add: div_mult2_eq [symmetric])
  have digits4: "x = y" if "x div 262144 = y div 262144" "x div 4096 mod 64 = y div 4096 mod 64" "x div 64 mod 64 = y div 64 mod 64"
      "x mod 64 = y mod 64" for x y :: nat
    using that digits3 [of "x div 64" "y div 64"] digits [of x y] by (simp add: div_mult2_eq [symmetric])
  have bounds: "x div 64 < 32" if "x \<le> 0x7FF" for x :: nat using that by (simp add: less_mult_imp_div_less)
  have bounds3: "x div 4096 < 16" if "x \<le> 0xFFFF" for x :: nat using that by (simp add: less_mult_imp_div_less)
  have bounds4: "x div 262144 < 5" if "x \<le> 0x10FFFF" for x :: nat using that by (simp add: less_mult_imp_div_less)
  show ?thesis
    using assms le [OF assms(1)] le [OF assms(2)] bounds [of a] bounds [of b] bounds3 [of a] bounds3 [of b] bounds4 [of a] bounds4 [of b]
    by (auto simp: encode_rune_def char_of_less split: if_splits intro: digits digits3 digits4)
qed

lemma encode_rune_nonempty [simp]: "encode_rune r \<noteq> []" "[] \<noteq> encode_rune r"
  by (simp_all add: encode_rune_def Let_def)

lemma rune_valid_3:
  assumes "x < 16" and "y < 64" and "z < 64" and "x = 13 \<Longrightarrow> y < 32"
  shows "rune_valid ((x * 64 + y) * 64 + z)"
proof -
  consider "x \<le> 12" | "x = 13" | "14 \<le> x" by linarith
  then show ?thesis using assms by cases (simp_all add: rune_valid_def)
qed

lemma rune_valid_4:
  assumes "x < 5" and "y < 64" and "z < 64" and "u < 64" and "x = 0 \<Longrightarrow> 16 \<le> y" and "x = 4 \<Longrightarrow> y < 16"
  shows "rune_valid (((x * 64 + y) * 64 + z) * 64 + u)"
proof -
  consider "x = 0" | "1 \<le> x \<and> x \<le> 3" | "x = 4" using assms(1) by linarith
  then show ?thesis using assms by cases (simp_all add: rune_valid_def)
qed

lemma decode_rune_valid: "rune_valid (fst (decode_rune s))"
proof (cases s)
  case (Cons a t)
  show ?thesis
  proof (cases "bval a < 0x80")
    case True
    then show ?thesis by (simp add: Cons ascii_decode rune_valid_def)
  next
    case False
    consider (bad) "fst (decode_rune s) = rune_error"
      | (multi) l where "lead a = Some l" "tail_ok l (take (fst l) t)"
          "fst (decode_rune s) = tail_value (bval a - lead_bits (fst l)) (take (fst l) t)"
    proof (cases "\<exists>l. lead a = Some l \<and> tail_ok l (take (fst l) t)")
      case True
      then show ?thesis using False that(2) by (auto simp: Cons decode_rune.simps(2))
    next
      case bad: False
      then show ?thesis using False that(1) by (cases "lead a") (auto simp: Cons decode_rune.simps(2))
    qed
    then show ?thesis
    proof cases
      case (multi l)
      from multi(1,2) show ?thesis
      proof (cases rule: lead_cases)
        case (1 b)
        then show ?thesis using cont_bounds [of b] by (simp add: multi(3) lead_bits_def tail_value_1 rune_valid_def) arith
      next
        case (2 b c)
        then show ?thesis
          using rune_valid_3 [of "bval a - 0xE0" "bval b - 0x80" "bval c - 0x80"] cont_bounds [of b] cont_bounds [of c]
          by (fastforce simp add: multi(3) lead_bits_def tail_value_2)
      next
        case (3 b c d)
        then show ?thesis
          using rune_valid_4 [of "bval a - 0xF0" "bval b - 0x80" "bval c - 0x80" "bval d - 0x80"]
            cont_bounds [of b] cont_bounds [of c] cont_bounds [of d]
          by (fastforce simp add: multi(3) lead_bits_def tail_value_3)
      qed
    qed (simp add: rune_error_def rune_valid_def)
  qed
qed (simp add: rune_error_def rune_valid_def)

lemma runes_valid: "r \<in> set (runes s) \<Longrightarrow> rune_valid r"
  using decode_rune_valid by (auto simp: runes_def)

section \<open>Decoding what was encoded\<close>

lemma bval_char_of_small: "n < 256 \<Longrightarrow> bval (char_of n) = n"
  by simp

lemma decode_encode_2:
  assumes "0x80 \<le> r" and "r \<le> 0x7FF"
  shows "decode_rune (char_of (0xC0 + r div 64) # char_of (0x80 + r mod 64) # t) = (r, 2)"
proof -
  have b: "2 \<le> r div 64" "r div 64 < 32" using assms by (simp_all add: less_mult_imp_div_less)
  have m: "r mod 64 < 64" by simp
  have v: "bval (char_of (0xC0 + r div 64)) = 0xC0 + r div 64" "bval (char_of (0x80 + r mod 64)) = 0x80 + r mod 64"
    using b m by (simp_all add: bval_char_of_small)
  have "lead (char_of (0xC0 + r div 64)) = Some (1, 0x80, 0xBF)" unfolding lead_def v Let_def using b by simp
  moreover have "tail_ok (1, 0x80, 0xBF) [char_of (0x80 + r mod 64)]"
    using m v(2) by (simp add: tail_ok_def cont_def in_range_def)
  moreover have "(0xC0 + r div 64 - 0xC0) * 64 + (0x80 + r mod 64 - 0x80) = r" by simp
  ultimately show ?thesis using b v by (simp add: decode_rune.simps(2) lead_bits_def tail_value_1)
qed

lemma decode_encode_3:
  assumes "0x800 \<le> r" and "r \<le> 0xFFFF" and "rune_valid r"
  shows "decode_rune (char_of (0xE0 + r div 4096) # char_of (0x80 + r div 64 mod 64) # char_of (0x80 + r mod 64) # t) = (r, 3)"
proof -
  let ?x = "r div 4096" and ?y = "r div 64 mod 64" and ?z = "r mod 64"
  have b: "?x < 16" "?y < 64" "?z < 64" using assms by (simp_all add: less_mult_imp_div_less)
  have v: "bval (char_of (0xE0 + ?x)) = 0xE0 + ?x" "bval (char_of (0x80 + ?y)) = 0x80 + ?y" "bval (char_of (0x80 + ?z)) = 0x80 + ?z"
    using b by (simp_all add: bval_char_of_small)
  have d: "r div 4096 = r div 64 div 64" by (simp add: div_mult2_eq [symmetric])
  have r: "(?x * 64 + ?y) * 64 + ?z = r" unfolding d by (simp only: div_mult_mod_eq)
  have digits: "(x = 0 \<longrightarrow> 0x20 \<le> y) \<and> (x = 13 \<longrightarrow> y \<le> 0x1F)" if "(x * 64 + y) * 64 + z = r" "y < 64" "z < 64" for x y z
    using that assms(1,3) by (auto simp: rune_valid_def)
  have lo: "?x = 0 \<Longrightarrow> 0x20 \<le> ?y" and hi: "?x = 13 \<Longrightarrow> ?y \<le> 0x1F" using digits [OF r b(2,3)] by blast+
  have "\<exists>lo hi. lead (char_of (0xE0 + ?x)) = Some (2, lo, hi) \<and> lo \<le> 0x80 + ?y \<and> 0x80 + ?y \<le> hi"
    unfolding lead_def v Let_def using b lo hi by (auto simp: not_less)
  then obtain l h where l: "lead (char_of (0xE0 + ?x)) = Some (2, l, h)" "l \<le> 0x80 + ?y" "0x80 + ?y \<le> h" by blast
  then have "tail_ok (2, l, h) [char_of (0x80 + ?y), char_of (0x80 + ?z)]"
    using b v by (simp add: tail_ok_def cont_def in_range_def less_Suc_eq_le [symmetric] del: less_Suc_eq_le)
  then show ?thesis using l(1) b v r by (simp add: decode_rune.simps(2) lead_bits_def tail_value_2 numeral_2_eq_2)
qed

lemma decode_encode_4:
  assumes "0x10000 \<le> r" and "r \<le> 0x10FFFF"
  shows "decode_rune (char_of (0xF0 + r div 262144) # char_of (0x80 + r div 4096 mod 64) # char_of (0x80 + r div 64 mod 64) #
      char_of (0x80 + r mod 64) # t) = (r, 4)"
proof -
  let ?w = "r div 262144" and ?x = "r div 4096 mod 64" and ?y = "r div 64 mod 64" and ?z = "r mod 64"
  have b: "?w < 5" "?x < 64" "?y < 64" "?z < 64" using assms by (simp_all add: less_mult_imp_div_less)
  have v: "bval (char_of (0xF0 + ?w)) = 0xF0 + ?w" "bval (char_of (0x80 + ?x)) = 0x80 + ?x" "bval (char_of (0x80 + ?y)) = 0x80 + ?y"
    "bval (char_of (0x80 + ?z)) = 0x80 + ?z"
    using b by (simp_all add: bval_char_of_small)
  have d: "r div 262144 = r div 64 div 64 div 64" "r div 4096 = r div 64 div 64" by (simp_all add: div_mult2_eq [symmetric])
  have r: "((?w * 64 + ?x) * 64 + ?y) * 64 + ?z = r" unfolding d by (simp only: div_mult_mod_eq)
  have digits: "(w = 0 \<longrightarrow> 0x10 \<le> x) \<and> (w = 4 \<longrightarrow> x \<le> 0xF)" if "((w * 64 + x) * 64 + y) * 64 + z = r" "y < 64" "z < 64" for w x y z
    using that assms by auto
  have lo: "?w = 0 \<Longrightarrow> 0x10 \<le> ?x" and hi: "?w = 4 \<Longrightarrow> ?x \<le> 0xF" using digits [OF r b(3,4)] by blast+
  have "\<exists>lo hi. lead (char_of (0xF0 + ?w)) = Some (3, lo, hi) \<and> lo \<le> 0x80 + ?x \<and> 0x80 + ?x \<le> hi"
    unfolding lead_def v Let_def using b lo hi by (auto simp: not_less)
  then obtain l h where l: "lead (char_of (0xF0 + ?w)) = Some (3, l, h)" "l \<le> 0x80 + ?x" "0x80 + ?x \<le> h" by blast
  then have "tail_ok (3, l, h) [char_of (0x80 + ?x), char_of (0x80 + ?y), char_of (0x80 + ?z)]"
    using b v by (simp add: tail_ok_def cont_def in_range_def less_Suc_eq_le [symmetric] del: less_Suc_eq_le)
  then show ?thesis using l(1) b v r by (simp add: decode_rune.simps(2) lead_bits_def tail_value_3 numeral_3_eq_3)
qed

lemma decode_encode_rune:
  assumes "rune_valid r"
  shows "decode_rune (encode_rune r @ t) = (r, length (encode_rune r))"
proof -
  have "r \<le> 0x10FFFF" using assms by (auto simp: rune_valid_def)
  then show ?thesis using assms decode_encode_2 [of r] decode_encode_3 [of r] decode_encode_4 [of r]
    by (auto simp: encode_rune_def ascii_decode)
qed

lemma encode_rune_not_malformed: "rune_valid r \<Longrightarrow> \<not> malformed (encode_rune r @ t)"
proof -
  assume v: "rune_valid r"
  have "length (encode_rune rune_error) = 3" by (simp add: encode_rune_def rune_error_def rune_valid_def)
  then show ?thesis using decode_encode_rune [OF v, of t] by (auto simp: malformed_def)
qed

lemma chunks_encode_rune: "rune_valid r \<Longrightarrow> chunks (encode_rune r @ t) = encode_rune r # chunks t"
proof -
  assume v: "rune_valid r"
  obtain a s where e: "encode_rune r = a # s" using encode_rune_nonempty(1) by (cases "encode_rune r") simp_all
  have "rune_size (a # s @ t) = length (a # s)" using decode_encode_rune [OF v, of t] by (simp add: rune_size_def e)
  then show ?thesis by (simp add: e chunks.simps(2))
qed

lemma encode_rune_single:
  assumes "rune_valid r"
  shows "chunks (encode_rune r) = [encode_rune r]" "runes (encode_rune r) = [r]" "valid_utf8 (encode_rune r)"
  using chunks_encode_rune [OF assms, of "[]"] decode_encode_rune [OF assms, of "[]"] encode_rune_not_malformed [OF assms, of "[]"]
  by (simp_all add: runes_def valid_utf8_def)

section \<open>Putting together and cutting\<close>

lemma chunks_append: "valid_utf8 x \<Longrightarrow> chunks (x @ y) = chunks x @ chunks y"
proof (induction x rule: chunks.induct)
  case (2 a s)
  let ?c = "take (rune_size (a # s)) (a # s)" and ?r = "drop (rune_size (a # s)) (a # s)"
  have nm: "\<not> malformed (a # s)" and v: "valid_utf8 ?r" using 2(2) by (simp_all add: valid_utf8_Cons)
  have c: "?c = encode_rune (fst (decode_rune (a # s)))" using encode_decode_rune [OF nm] by simp
  have "chunks ((a # s) @ y) = chunks (?c @ ?r @ y)" by (metis append.assoc append_take_drop_id)
  also have "\<dots> = ?c # chunks (?r @ y)" unfolding c by (rule chunks_encode_rune [OF decode_rune_valid])
  also have "\<dots> = chunks (a # s) @ chunks y" using 2(1) [OF v] by (simp add: chunks.simps(2))
  finally show ?case .
qed simp

lemma runes_append: "valid_utf8 x \<Longrightarrow> runes (x @ y) = runes x @ runes y"
  by (simp add: runes_def chunks_append)

lemma encode_runes: "valid_utf8 s \<Longrightarrow> concat (map encode_rune (runes s)) = s"
proof (induction s rule: chunks.induct)
  case (2 a s)
  let ?c = "take (rune_size (a # s)) (a # s)" and ?r = "drop (rune_size (a # s)) (a # s)"
  have nm: "\<not> malformed (a # s)" and v: "valid_utf8 ?r" using 2(2) by (simp_all add: valid_utf8_Cons)
  have "fst (decode_rune ?c) = fst (decode_rune (a # s))" using decode_rune_take [of "a # s"] by simp
  then have "concat (map encode_rune (runes (a # s))) = ?c @ concat (map encode_rune (runes ?r))"
    using encode_decode_rune [OF nm] by (simp add: runes_def chunks.simps(2))
  then show ?case using 2(1) [OF v] by simp
qed (simp add: runes_def)

lemma valid_encoded: "list_all rune_valid rs \<Longrightarrow> valid_utf8 (concat (map encode_rune rs)) \<and> runes (concat (map encode_rune rs)) = rs"
proof (induction rs)
  case (Cons r rs)
  then show ?case by (simp add: encode_rune_single valid_utf8_append runes_append)
qed (simp add: runes_def)

text \<open>A valid string is cut into valid strings at a byte below \<open>0x80\<close>.\<close>

lemma valid_cut:
  assumes "valid_utf8 (x @ c # y)" and "bval c < 0x80"
  shows "valid_utf8 x \<and> valid_utf8 y"
  using assms
proof (induction "chunks (x @ c # y)" arbitrary: x)
  case (Cons k ks)
  obtain a s where s: "x @ c # y = a # s" by (cases x) simp_all
  let ?n = "rune_size (a # s)"
  have k: "k = take ?n (a # s)" and ks: "ks = chunks (drop ?n (a # s))" using Cons(2) by (simp_all add: s chunks.simps(2))
  have nm: "\<not> malformed (a # s)" and v: "valid_utf8 (drop ?n (a # s))" using Cons(3) by (simp_all add: s valid_utf8_Cons)
  show ?case
  proof (cases "x = []")
    case True
    then have "?n = 1" "drop 1 (a # s) = y" using s Cons(4) by simp_all
    then show ?thesis using v True by simp
  next
    case False
    have le: "?n \<le> length x"
    proof (rule ccontr)
      assume "\<not> ?n \<le> length x"
      then have "c \<in> set (take ?n (x @ c # y))" by (simp add: take_Cons')
      moreover have "bval a < 0x80 \<Longrightarrow> ?n = 1" by simp
      ultimately show False using multibyte_no_ascii [OF nm, of c] Cons(4) s False \<open>\<not> ?n \<le> length x\<close>
        by (cases "bval a < 0x80") (auto simp: Suc_le_eq)
    qed
    then have d: "drop ?n (a # s) = drop ?n x @ c # y" using s [symmetric] by simp
    have "valid_utf8 (drop ?n x) \<and> valid_utf8 y" using Cons(1) [of "drop ?n x"] ks v d Cons(4) by simp
    moreover have kx: "k = take ?n x" using k le s [symmetric] by simp
    moreover have "valid_utf8 k" using valid_utf8_chunks [OF Cons(3)] Cons(2) by (metis list.set_intros(1))
    ultimately show ?thesis using valid_utf8_append [of "take ?n x" "drop ?n x"] by simp
  qed
qed (metis append_is_Nil_conv chunks_eq_Nil list.distinct(1))

end
