(* ===== verification/Config_Gate.thy ===== *)
theory Config_Gate
  imports Config_Validate Gate_Demo Go_Utf8
begin

text \<open>
  The configuration package and the gate both check a gate policy, in different words: regular expressions
  against loops over bytes, pairwise \<^verbatim>\<open>strings.EqualFold\<close> against a set of folded texts. This theory
  shows that they accept the same policies.
\<close>

section \<open>Two ways to compare under case folding\<close>

text \<open>
  What the documentation of \<^verbatim>\<open>unicode.SimpleFold\<close> says of its table: repeated application runs through the
  characters equivalent under simple folding in increasing order and starts again at the smallest; among the
  ASCII characters only the two cases of a letter are equivalent.
\<close>

definition fold_table :: "golib \<Rightarrow> bool" where
  "fold_table lib \<longleftrightarrow> (\<forall>r. rune_valid r \<longrightarrow> closes (SimpleFold lib) r \<and> rune_valid (SimpleFold lib r) \<and>
     SimpleFold lib r = (if \<exists>x\<in>orbit (SimpleFold lib) r. r < x then Min {x \<in> orbit (SimpleFold lib) r. r < x} else Min (orbit (SimpleFold lib) r))) \<and>
   (\<forall>a b. a < b \<and> b < 0x80 \<longrightarrow> (b \<in> orbit (SimpleFold lib) a \<longleftrightarrow> 65 \<le> a \<and> a \<le> 90 \<and> b = a + 32))"

lemma fold_table_orbit:
  assumes "fold_table lib" and "rune_valid r" and "x \<in> orbit (SimpleFold lib) r"
  shows "rune_valid x \<and> orbit (SimpleFold lib) x = orbit (SimpleFold lib) r \<and> finite (orbit (SimpleFold lib) r)"
proof -
  have "rune_valid y \<Longrightarrow> rune_valid (SimpleFold lib y)" for y using assms(1) unfolding fold_table_def by blast
  then have "rune_valid ((SimpleFold lib ^^ n) r)" for n using assms(2) by (induction n) simp_all
  then have "rune_valid x" using assms(3) by (auto simp: orbit_def)
  moreover have c: "closes (SimpleFold lib) r" using assms(1,2) by (simp add: fold_table_def)
  then obtain n where "0 < n" "(SimpleFold lib ^^ n) r = r" by (auto simp: closes_def)
  then have "finite (orbit (SimpleFold lib) r)" by (simp add: orbit_finite)
  ultimately show ?thesis using orbit_eq [OF c assms(3)] by simp
qed

lemma fold_next:
  assumes "fold_table lib" and "rune_valid r" and "t \<in> orbit (SimpleFold lib) r" and "r < t"
  shows "r < SimpleFold lib r \<and> SimpleFold lib r \<le> t \<and> SimpleFold lib r \<in> orbit (SimpleFold lib) r"
proof -
  let ?X = "{x \<in> orbit (SimpleFold lib) r. r < x}"
  have "SimpleFold lib r = Min ?X" using assms by (auto simp: fold_table_def)
  moreover have "finite ?X" "?X \<noteq> {}" using fold_table_orbit [OF assms(1-3)] assms(3,4) by auto
  ultimately show ?thesis using Min_in [of ?X] Min_le [of ?X t] assms(3,4) by auto
qed

lemma fold_until_reaches:
  assumes "fold_table lib" and "rune_valid sr" and "tr \<in> orbit (SimpleFold lib) sr"
  shows "sr < r \<Longrightarrow> r \<le> tr \<Longrightarrow> r \<in> orbit (SimpleFold lib) sr \<Longrightarrow> tr - r < n \<Longrightarrow> fold_until lib n sr tr r = tr"
proof (induction n arbitrary: r)
  case (Suc n)
  show ?case
  proof (cases "r < tr")
    case True
    note o = fold_table_orbit [OF assms(1,2) Suc.prems(3)]
    have "r < SimpleFold lib r \<and> SimpleFold lib r \<le> tr \<and> SimpleFold lib r \<in> orbit (SimpleFold lib) sr"
      using fold_next [OF assms(1), of r tr] o assms(3) True by simp
    moreover from this have "tr - SimpleFold lib r < n" using Suc.prems(4) True by linarith
    ultimately show ?thesis using Suc.IH [of "SimpleFold lib r"] Suc.prems True by simp
  qed (use Suc.prems in simp)
qed simp

lemma equal_fold_rune_orbit:
  assumes "fold_table lib" and "rune_valid a" and "rune_valid b" and "b \<in> orbit (SimpleFold lib) a"
  shows "equal_fold_rune lib a b"
proof (cases "a = b")
  case False
  let ?s = "min a b" and ?t = "max a b"
  have valid: "rune_valid ?s" "rune_valid ?t" using assms(2,3) by (auto simp: min_def max_def)
  have t: "?t \<in> orbit (SimpleFold lib) ?s"
    using assms(4) fold_table_orbit [OF assms(1,2,4)] orbit_self by (auto simp: min_def max_def)
  have less: "?s < ?t" using False by (auto simp: min_def max_def)
  note n = fold_next [OF assms(1) valid(1) t less]
  have le: "?t \<le> 0x10FFFF" using valid(2) by (auto simp: rune_valid_def)
  have "fold_until lib 0x110000 ?s ?t (SimpleFold lib ?s) = ?t"
    by (rule fold_until_reaches [OF assms(1) valid(1) t]) (use n le in linarith)+
  moreover have "65 \<le> ?s \<and> ?s \<le> 90 \<and> ?t = ?s + 32" if "?t < 0x80"
    using assms(1) t less that unfolding fold_table_def by blast
  ultimately show ?thesis using False unfolding equal_fold_rune_def Let_def by simp
qed (simp add: equal_fold_rune_def)

lemma orbit_next: "r \<in> orbit sf sr \<Longrightarrow> sf r \<in> orbit sf sr"
proof -
  assume "r \<in> orbit sf sr"
  then obtain n where "r = (sf ^^ n) sr" by (auto simp: orbit_def)
  then have "sf r = (sf ^^ Suc n) sr" by simp
  then show ?thesis unfolding orbit_def by blast
qed

lemma fold_until_orbit: "r \<in> orbit (SimpleFold lib) sr \<Longrightarrow> fold_until lib n sr tr r \<in> orbit (SimpleFold lib) sr"
  by (induction n arbitrary: r) (simp_all add: orbit_next)

lemma equal_fold_rune_iff:
  assumes "fold_table lib" and "rune_valid a" and "rune_valid b"
  shows "equal_fold_rune lib a b \<longleftrightarrow> canonicalFoldRune lib a = canonicalFoldRune lib b"
proof -
  have c: "closes (SimpleFold lib) a" "closes (SimpleFold lib) b" using assms by (simp_all add: fold_table_def)
  have "b \<in> orbit (SimpleFold lib) a" if "equal_fold_rune lib a b"
  proof (cases "a = b")
    case False
    let ?s = "min a b" and ?t = "max a b"
    have less: "?s < ?t" using False by (auto simp: min_def max_def)
    have "SimpleFold lib ?s \<in> orbit (SimpleFold lib) ?s" by (simp add: orbit_next orbit_self)
    then have until: "fold_until lib 0x110000 ?s ?t (SimpleFold lib ?s) \<in> orbit (SimpleFold lib) ?s" by (rule fold_until_orbit)
    have ascii: "?t \<in> orbit (SimpleFold lib) ?s" if "?t < 0x80" "65 \<le> ?s \<and> ?s \<le> 90 \<and> ?t = ?s + 32"
      using assms(1) less that unfolding fold_table_def by blast
    have "if ?t < 0x80 then 65 \<le> ?s \<and> ?s \<le> 90 \<and> ?t = ?s + 32 else fold_until lib 0x110000 ?s ?t (SimpleFold lib ?s) = ?t"
      using that False unfolding equal_fold_rune_def Let_def by (simp only: if_False)
    then have "?t \<in> orbit (SimpleFold lib) ?s" using until ascii by metis
    then show ?thesis using c orbit_return by (auto simp: min_def max_def split: if_splits)
  qed (simp add: orbit_self)
  then show ?thesis using equal_fold_rune_orbit [OF assms] canonicalFoldRune_eq_iff [OF c] by blast
qed

lemma fold_concat_inj:
  assumes "fold_table lib" and "\<forall>r\<in>set xs. rune_valid r" and "\<forall>r\<in>set ys. rune_valid r"
    and "concat (map (\<lambda>r. encode_rune (canonicalFoldRune lib r)) xs) = concat (map (\<lambda>r. encode_rune (canonicalFoldRune lib r)) ys)"
  shows "map (canonicalFoldRune lib) xs = map (canonicalFoldRune lib) ys"
  using assms(2-4)
proof (induction xs arbitrary: ys)
  case Nil
  then show ?case by (cases ys) auto
next
  case (Cons x xs)
  have canon: "rune_valid (canonicalFoldRune lib r)" if "rune_valid r" for r
    using fold_table_orbit [OF assms(1) that canonicalFoldRune_mem] assms(1) that by (simp add: fold_table_def)
  obtain y ys' where ys: "ys = y # ys'" using Cons.prems(3) by (cases ys) auto
  then show ?case
    using encode_rune_unique [OF canon canon, of x y "concat (map (\<lambda>r. encode_rune (canonicalFoldRune lib r)) xs)"
        "concat (map (\<lambda>r. encode_rune (canonicalFoldRune lib r)) ys')"] Cons by auto
qed

lemma EqualFold_iff:
  assumes "fold_table lib"
  shows "EqualFold lib a b \<longleftrightarrow> fold_text lib a = fold_text lib b"
proof -
  have "EqualFold lib a b \<longleftrightarrow> list_all2 (\<lambda>x y. canonicalFoldRune lib x = canonicalFoldRune lib y) (runes a) (runes b)"
    unfolding EqualFold_def using equal_fold_rune_iff [OF assms] runes_valid
    by (intro list.rel_cong refl) auto
  also have "\<dots> \<longleftrightarrow> map (canonicalFoldRune lib) (runes a) = map (canonicalFoldRune lib) (runes b)"
    by (auto simp: list_all2_conv_all_nth list_eq_iff_nth_eq)
  also have "\<dots> \<longleftrightarrow> fold_text lib a = fold_text lib b"
  proof
    assume "map (canonicalFoldRune lib) (runes a) = map (canonicalFoldRune lib) (runes b)"
    then have "concat (map encode_rune (map (canonicalFoldRune lib) (runes a))) = concat (map encode_rune (map (canonicalFoldRune lib) (runes b)))"
      by (rule arg_cong)
    then show "fold_text lib a = fold_text lib b" by (simp add: fold_text_def o_def)
  next
    assume "fold_text lib a = fold_text lib b"
    then show "map (canonicalFoldRune lib) (runes a) = map (canonicalFoldRune lib) (runes b)"
      using fold_concat_inj [OF assms, of "runes a" "runes b"] runes_valid by (simp add: fold_text_def)
  qed
  finally show ?thesis .
qed

section \<open>When a check reports nothing\<close>

named_theorems quiet \<open>when a check of the configuration reports nothing\<close>

lemma report_quiet [quiet]: "report p r ps = [] \<longleftrightarrow> False"
  by (simp add: report_def)

lemma uintRange_quiet [quiet]: "uintRange p v lo hi ps = [] \<longleftrightarrow> ps = [] \<and> lo \<le> v \<and> v \<le> hi"
  by (auto simp: uintRange_def quiet)

lemma durationRange_quiet [quiet]: "durationRange p v lo hi ps = [] \<longleftrightarrow> ps = [] \<and> lo \<le> v \<and> v \<le> hi"
  by (auto simp: durationRange_def quiet)

lemma equalUint_quiet [quiet]: "equalUint p v w ps = [] \<longleftrightarrow> ps = [] \<and> v = w"
  by (auto simp: equalUint_def quiet)

lemma oneOf_quiet [quiet]: "oneOf p v vs ps = [] \<longleftrightarrow> ps = [] \<and> v \<in> set vs"
  by (auto simp: oneOf_def quiet)

lemma validateEnvironmentName_quiet [quiet]: "validateEnvironmentName p v ps = [] \<longleftrightarrow> ps = [] \<and> environmentName v"
  by (auto simp: validateEnvironmentName_def quiet)

lemma report_if_quiet [quiet]: "(if b then report p r ps else ps) = [] \<longleftrightarrow> ps = [] \<and> \<not> b"
  by (auto simp: quiet)

lemma validateUniqueList_quiet [quiet]:
  "validateUniqueList lib p vs n fld valid r ps = [] \<longleftrightarrow> ps = [] \<and> length vs \<le> n \<and> unique_from lib fld valid [] vs"
  by (auto simp: validateUniqueList_def Let_def quiet)

lemma unique_from_exact: "unique_from lib False valid seen vs \<longleftrightarrow> list_all valid vs \<and> distinct vs \<and> set vs \<inter> set seen = {}"
  by (induction lib False valid seen vs rule: unique_from.induct) auto

lemma unique_from_fold:
  "unique_from lib True valid seen vs \<longleftrightarrow> list_all valid vs \<and> sorted_wrt (\<lambda>a b. \<not> EqualFold lib a b) vs \<and>
    (\<forall>a\<in>set seen. \<forall>b\<in>set vs. \<not> EqualFold lib a b)"
  by (induction lib True valid seen vs rule: unique_from.induct) (auto simp: list_ex_iff)

lemma sorted_wrt_distinct: "sorted_wrt (\<lambda>a b. f a \<noteq> f b) xs \<longleftrightarrow> distinct (map f xs)"
  by (induction xs) auto

lemma unique_terms:
  assumes "fold_table lib"
  shows "unique_from lib True valid [] vs \<longleftrightarrow> list_all valid vs \<and> distinct (map (fold_text lib) vs)"
  using sorted_wrt_distinct [of "fold_text lib" vs] by (simp add: unique_from_fold EqualFold_iff [OF assms])

section \<open>The two policy checks agree\<close>

lemma validTerms_from_iff:
  "validTerms_from lib seen vs \<longleftrightarrow> list_all valid_subject vs \<and> distinct (map (fold_text lib) vs) \<and> fold_text lib ` set vs \<inter> set seen = {}"
proof (induction vs arbitrary: seen)
  case (Cons v vs)
  show ?case
  proof (cases "valid_subject v")
    case True
    then have "foldLiteral lib v MaximumFoldedTermBytes = Some (fold_text lib v)"
      by (intro foldLiteral_Some) (auto simp: valid_subject_def MaximumFoldedTermBytes_def split: if_splits)
    then show ?thesis using True Cons.IH by (auto simp: valid_subject_def split: if_splits)
  qed (auto simp: valid_subject_def split: if_splits)
qed simp

lemma validTerms_iff: "validTerms lib vs \<longleftrightarrow> length vs \<le> 256 \<and> list_all valid_subject vs \<and> distinct (map (fold_text lib) vs)"
  by (simp add: validTerms_def validTerms_from_iff)

lemma labels_iff: "labelName v \<longleftrightarrow> length v \<noteq> 0 \<and> length v \<le> 128 \<and> list_all label_char v"
  by (auto simp: labelName_def label_char_def upper_char_def lower_char_def digit_char_def list_all_iff)

lemma ParseIP_no_colon: "CHR '':'' \<notin> set v \<Longrightarrow> ParseIP v \<longleftrightarrow> parse_ipv4 v"
proof -
  assume colon: "CHR '':'' \<notin> set v"
  have digits: "set v \<subseteq> Collect is_digit \<union> {CHR ''.''} \<and> CHR ''.'' \<in> set v" if "parse_ipv4 v"
  proof -
    have fs: "length (split_on (CHR ''.'') v) = 4" "list_all ipv4_field (split_on (CHR ''.'') v)"
      using that by (auto simp: parse_ipv4_def Let_def)
    have v: "v = join_with (CHR ''.'') (split_on (CHR ''.'') v)" by (simp add: join_split)
    have "set (join_with c xs) \<subseteq> (\<Union>x\<in>set xs. set x) \<union> {c}" for c xs by (induction c xs rule: join_with.induct) auto
    then have "set v \<subseteq> (\<Union>x\<in>set (split_on (CHR ''.'') v). set x) \<union> {CHR ''.''}" by (metis v)
    also have "\<dots> \<subseteq> Collect is_digit \<union> {CHR ''.''}" using fs(2) by (auto simp: list_all_iff ipv4_field_def)
    finally have "set v \<subseteq> Collect is_digit \<union> {CHR ''.''}" .
    moreover have "CHR ''.'' \<in> set v" using fs(1) split_on_absent [of "CHR ''.''" v] by fastforce
    ultimately show ?thesis by blast
  qed
  show ?thesis
  proof (cases "filter (\<lambda>c. c \<in> set ''.:%'') v")
    case Nil
    then show ?thesis using digits by (auto simp: ParseIP_def filter_empty_conv)
  next
    case (Cons c rest)
    have percent: "\<not> is_digit (CHR ''%'')" by (simp add: is_digit_def less_eq_char_def)
    from Cons have "c \<in> set (filter (\<lambda>c. c \<in> set ''.:%'') v)" by simp
    then have "c \<in> set v" "c \<in> set ''.:%''" by simp_all
    then have "c = CHR ''.'' \<or> c = CHR ''%'' \<and> \<not> parse_ipv4 v"
      using colon digits percent by auto
    then show ?thesis using Cons by (auto simp: ParseIP_def)
  qed
qed

lemma domain_label: "domainLabel l \<longleftrightarrow> length l \<noteq> 0 \<and> length l \<le> 63 \<and> hd l \<noteq> CHR ''-'' \<and> last l \<noteq> CHR ''-'' \<and> list_all domain_char l"
proof -
  have "list_all domain_char l \<longleftrightarrow> list_all (\<lambda>c. lower_char c \<or> digit_char c \<or> c = CHR ''-'') l"
    by (simp add: domain_char_def lower_char_def digit_char_def list_all_iff)
  moreover have "\<not> lower_char (CHR ''-'')" "\<not> digit_char (CHR ''-'')" by (simp_all add: lower_char_def digit_char_def in_range_def)
  ultimately show ?thesis unfolding domainLabel_def by (cases "l = []") (auto simp: list_all_iff dest: bspec [OF _ hd_in_set] bspec [OF _ last_in_set])
qed

lemma config_validDomain_iff: "config_validDomain v \<longleftrightarrow> validDomain v"
proof (cases "CHR '':'' \<in> set v")
  case True
  then have "list_ex (\<lambda>c. c \<in> set '':/*_@'') v" by (auto simp: list_ex_iff)
  then show ?thesis by (simp add: config_validDomain_def validDomain_def)
next
  case False
  have ascii: "isASCII v \<longleftrightarrow> \<not> list_ex (\<lambda>c. bval c > 0x7f) v" by (auto simp: isASCII_def list_all_iff list_ex_iff)
  show ?thesis unfolding config_validDomain_def validDomain_def ParseIP_no_colon [OF False] ascii domain_label
    by (simp only: if_False if_True simp_thms) auto
qed

lemma validateGate_iff:
  assumes "fold_table lib"
  shows "validateGate lib g ps = [] \<longleftrightarrow> ps = [] \<and> ValidatePolicy lib g = None"
proof -
  have "validateGate lib g ps = [] \<longleftrightarrow> ps = [] \<and> g_version g = 1 \<and> validUniqueLabels (g_excluded_labels g) 32 \<and>
      validCategories (g_suppress_categories g) \<and> validDomains (g_allow_domains g) \<and> validDomains (g_block_domains g) \<and>
      \<not> list_ex (\<lambda>d. d \<in> set (g_allow_domains g)) (g_block_domains g) \<and> validTerms lib (g_candidate_terms g) \<and> validTerms lib (g_urgent_terms g)"
    unfolding validateGate_def Let_def validateDomains_def validateSubjects_def quiet unique_terms [OF assms] unique_from_exact
      validUniqueLabels_def validCategories_def validDomains_def validTerms_iff config_validDomain_iff [abs_def] labels_iff [abs_def] categories_allowed_def
    by (simp add: conj_ac)
  then show ?thesis by (auto simp: ValidatePolicy_def GateVersion1_def)
qed

end
