(* ===== verification/Config_Structure.thy ===== *)
theory Config_Structure
  imports Config_Parse Config_Gate
begin

text \<open>
  What the structural walk of \<^verbatim>\<open>internal/config/parse.go\<close> accepts. The specification is a predicate over the
  document and the schema without counters, positions or problem lists; the walk is shown to compute it on
  every document within the node limit, and to count exactly.
\<close>

section \<open>Documents that conform to a schema\<close>

definition plain_node :: "yaml_node \<Rightarrow> bool" where
  "plain_node n \<longleftrightarrow> y_anchor n = [] \<and> \<not> y_alias n \<and> y_kind n \<noteq> AliasNode \<and> isCoreTag (y_tag n) \<and>
     (y_kind n = ScalarNode \<longrightarrow> y_tag n \<noteq> ''!!null'' \<and> \<not> containsUnicodeControl (y_value n))"

definition plain_key :: "yaml_node \<Rightarrow> bool" where
  "plain_key k \<longleftrightarrow> y_kind k = ScalarNode \<and> y_tag k = ''!!str'' \<and> y_value k \<noteq> ''<<'' \<and> y_anchor k = [] \<and> \<not> y_alias k \<and>
     \<not> containsUnicodeControl (y_value k)"

fun key_values :: "yaml_node list \<Rightarrow> (yaml_node \<times> yaml_node) list" where
  "key_values (k # v # rest) = (k, v) # key_values rest"
| "key_values [] = []"
| "key_values [k] = []"

inductive conforms :: "nat \<Rightarrow> schema_node \<Rightarrow> yaml_node \<Rightarrow> bool" where
  conforms_scalar: "plain_node n \<Longrightarrow> y_kind n = ScalarNode \<Longrightarrow> conforms d Scalar n"
| conforms_sequence: "plain_node n \<Longrightarrow> y_kind n = SequenceNode \<Longrightarrow> d \<le> MaxDepth \<Longrightarrow>
    (\<And>x. x \<in> set (y_content n) \<Longrightarrow> conforms (d + 1) item x) \<Longrightarrow> conforms d (Sequence item) n"
| conforms_mapping: "plain_node n \<Longrightarrow> y_kind n = MappingNode \<Longrightarrow> d \<le> MaxDepth \<Longrightarrow>
    distinct (map (y_value \<circ> fst) (key_values (y_content n))) \<Longrightarrow>
    (\<And>k v. (k, v) \<in> set (key_values (y_content n)) \<Longrightarrow>
      plain_key k \<and> (\<exists>s. map_of fs (y_value k) = Some s \<and> conforms (d + 1) s v)) \<Longrightarrow> conforms d (Mapping fs) n"

inductive_simps conforms_Scalar [simp]: "conforms d Scalar n"
inductive_simps conforms_Sequence: "conforms d (Sequence item) n"
inductive_simps conforms_Mapping: "conforms d (Mapping fs) n"

text \<open>The number of nodes of a document, the keys of its mappings included.\<close>

function count_node :: "yaml_node \<Rightarrow> nat" and count_pairs :: "yaml_node list \<Rightarrow> nat" and count_items :: "yaml_node list \<Rightarrow> nat" where
  "count_node n = 1 + (if y_kind n = MappingNode then count_pairs (y_content n)
     else if y_kind n = SequenceNode then count_items (y_content n) else 0)"
| "count_pairs (k # v # rest) = 1 + count_node v + count_pairs rest"
| "count_pairs [] = 0"
| "count_pairs [k] = 0"
| "count_items [] = 0"
| "count_items (v # rest) = count_node v + count_items rest"
  by pat_completeness auto
termination
  by (relation "measure (\<lambda>x. case x of Inl n \<Rightarrow> 2 * size n | Inr (Inl l) \<Rightarrow> 2 * size_list size l + 1 | Inr (Inr l) \<Rightarrow> 2 * size_list size l + 1)") simp_all

declare count_node.simps [simp del]

section \<open>One step of the walk\<close>

lemma addProblem_grows: "\<exists>qs. addProblem n p r ps = ps @ qs" "addProblem n p r ps \<noteq> []"
  by (simp_all add: addProblem_def)

lemma enter_node_grows:
  assumes "enter_node e p d n st = (b, st')"
  shows "fst st' = fst st + 1 \<and> (snd st' = [] \<longrightarrow> snd st = [])"
  using assms
  by (auto simp: enter_node_def Let_def node_features_def node_tag_def node_control_def addProblem_def split: if_splits schema_node.splits)

lemma enter_node_descends:
  assumes "enter_node e p d n st = (True, st')"
  shows "case e of Mapping fs \<Rightarrow> y_kind n = MappingNode | Sequence s \<Rightarrow> y_kind n = SequenceNode | Scalar \<Rightarrow> True"
  using assms by (auto simp: enter_node_def Let_def split: if_splits schema_node.splits)

lemma enter_node_clean:
  assumes "enter_node e p d n (k, []) = (b, k', [])" and "k' \<le> MaxNodes"
  shows "plain_node n \<and> (y_kind n = MappingNode \<or> y_kind n = SequenceNode \<longrightarrow> d \<le> MaxDepth) \<and>
    b = (e \<noteq> Scalar) \<and> y_kind n = (case e of Mapping fs \<Rightarrow> MappingNode | Sequence s \<Rightarrow> SequenceNode | Scalar \<Rightarrow> ScalarNode)"
  using assms
  by (auto simp: enter_node_def Let_def node_features_def node_tag_def node_control_def plain_node_def addProblem_def
      split: if_splits schema_node.splits)

lemma enter_node_accepts:
  assumes "plain_node n" and "y_kind n = (case e of Mapping fs \<Rightarrow> MappingNode | Sequence s \<Rightarrow> SequenceNode | Scalar \<Rightarrow> ScalarNode)"
    and "e \<noteq> Scalar \<Longrightarrow> d \<le> MaxDepth" and "k + 1 \<le> MaxNodes"
  shows "enter_node e p d n (k, ps) = (e \<noteq> Scalar, k + 1, ps)"
  using assms
  by (cases e) (auto simp: enter_node_def Let_def node_features_def node_tag_def node_control_def plain_node_def)

lemma enter_node_over: "k + 1 > MaxNodes \<Longrightarrow> fst (enter_node e p d n (k, ps)) = False"
  by (simp add: enter_node_def Let_def)

lemma enter_key_grows:
  assumes "enter_key fs p seen key st = (seen', t, st')"
  shows "fst st' = fst st + 1 \<and> (snd st' = [] \<longrightarrow> snd st = [])"
  using assms
  by (auto simp: enter_key_def Let_def key_control_def key_features_def addProblem_def split: if_splits option.splits)

lemma enter_key_clean:
  assumes "enter_key fs p seen key (k, []) = (seen', t, k', [])"
  shows "plain_key key \<and> y_value key \<notin> set seen \<and> seen' = y_value key # seen \<and>
    (\<exists>s. map_of fs (y_value key) = Some s \<and> t = Some (s, child_path p (y_value key)))"
  using assms
  by (auto simp: enter_key_def Let_def key_control_def key_features_def plain_key_def addProblem_def split: if_splits option.splits)

lemma enter_key_accepts:
  assumes "plain_key key" and "y_value key \<notin> set seen" and "map_of fs (y_value key) = Some s"
  shows "enter_key fs p seen key (k, ps) = (y_value key # seen, Some (s, child_path p (y_value key)), k + 1, ps)"
  using assms by (auto simp: enter_key_def Let_def key_control_def key_features_def plain_key_def isCoreTag_def)

section \<open>The whole walk\<close>

lemmas walk_induct = walkStructure_walk_fields_walk_items_walk_values_walk_all.induct

definition grows :: "walk \<Rightarrow> walk \<Rightarrow> nat \<Rightarrow> bool" where
  "grows st st' n \<longleftrightarrow> fst st \<le> fst st' \<and> fst st' \<le> fst st + n \<and> (snd st' = [] \<longrightarrow> snd st = [])"

lemma grows_trans: "grows a b m \<Longrightarrow> grows b c n \<Longrightarrow> m + n \<le> k \<Longrightarrow> grows a c k"
  by (auto simp: grows_def)

lemma grows_refl [simp]: "grows a a n"
  by (simp add: grows_def)

lemma walkStructure_enter:
  assumes "enter_node e p d n st = (b, st')"
  shows "walkStructure e p d n st = (if \<not> b then st' else case e of
      Mapping fs \<Rightarrow> walk_fields fs p d [] (y_content n) st'
    | Sequence item \<Rightarrow> walk_items item p d 0 (y_content n) st'
    | Scalar \<Rightarrow> if y_kind n = MappingNode then walk_values p d (y_content n) st'
        else if y_kind n = SequenceNode then walk_all p d (y_content n) st' else st')"
  by (simp add: walkStructure.simps assms)

lemma walk_grows:
  "grows st (walkStructure e p d n st) (count_node n)"
  "grows st (walk_fields fs p d seen l st) (count_pairs l)"
  "grows st (walk_items item p d i l st) (count_items l)"
  "grows st (walk_values p d l st) (count_pairs l)"
  "grows st (walk_all p d l st) (count_items l)"
proof (induction e p d n st and fs p d seen l st and item p d i l st and p d l st and p d l st rule: walk_induct)
  case (1 expected fieldPath depth node st)
  obtain b st' where e: "enter_node expected fieldPath depth node st = (b, st')" by (metis surj_pair)
  have first: "grows st st' 1" using enter_node_grows [OF e] by (auto simp: grows_def)
  note w = walkStructure_enter [OF e] and IH = "1.IH" [OF e [symmetric]]
  have step: "grows st st'' (1 + k)" if "grows st' st'' k" for st'' k using grows_trans [OF first that] by simp
  show ?case
  proof (cases b)
    case False
    then show ?thesis using step [of st' 0] by (simp add: w count_node.simps grows_def)
  next
    case True
    then have kind: "case expected of Mapping fs \<Rightarrow> y_kind node = MappingNode | Sequence s \<Rightarrow> y_kind node = SequenceNode | Scalar \<Rightarrow> True"
      using enter_node_descends e by simp
    show ?thesis
    proof (cases expected)
      case Scalar
      then show ?thesis unfolding w using IH(1,2) [THEN step] True step [of st' 0] by (simp add: count_node.simps)
    next
      case (Mapping fs)
      then show ?thesis unfolding w using IH(3) [THEN step] True kind by (simp add: count_node.simps)
    next
      case (Sequence item)
      then show ?thesis unfolding w using IH(4) [THEN step] True kind by (simp add: count_node.simps)
    qed
  qed
next
  case (2 fs fieldPath depth seen key v rest st)
  obtain seen' t st' where e: "enter_key fs fieldPath seen key st = (seen', t, st')" by (metis prod_cases3)
  have first: "grows st st' 1" using enter_key_grows [OF e] by (auto simp: grows_def)
  show ?case
  proof (cases t)
    case None
    then show ?thesis using "2.IH"(2) [OF e [symmetric] refl] grows_trans [OF first, of _ "count_pairs rest"] by (simp add: e)
  next
    case (Some x)
    obtain child path where x: "x = (child, path)" by fastforce
    have "grows st (walkStructure child path (depth + 1) v st') (1 + count_node v)"
      using "2.IH"(1) [OF e [symmetric] refl Some x [symmetric]] grows_trans [OF first] by simp
    then show ?thesis using "2.IH"(2) [OF e [symmetric] refl] grows_trans [of st _ "1 + count_node v" _ "count_pairs rest"] by (simp add: e Some x)
  qed
next
  case (7 fieldPath depth key v rest st)
  have "grows st (fst st + 1, snd st) 1" by (simp add: grows_def)
  then have "grows st (walkStructure Scalar fieldPath (depth + 1) v (fst st + 1, snd st)) (1 + count_node v)"
    using "7.IH"(1) grows_trans by blast
  then show ?case using "7.IH"(2) grows_trans [of st _ "1 + count_node v" _ "count_pairs rest"] by simp
qed (auto intro: grows_trans)

lemma walk_after_enter:
  assumes "enter_node e p d n st = (b, st')"
  shows "fst st' \<le> fst (walkStructure e p d n st) \<and> (snd (walkStructure e p d n st) = [] \<longrightarrow> snd st' = [])"
proof -
  have "\<exists>k. grows st' (walkStructure e p d n st) k"
    unfolding walkStructure_enter [OF assms] by (cases e) (auto intro: walk_grows grows_refl)
  then show ?thesis unfolding grows_def by blast
qed

text \<open>The fields of a mapping, seen from the middle of the walk over them.\<close>

definition fields_conform :: "nat \<Rightarrow> (string \<times> schema_node) list \<Rightarrow> string list \<Rightarrow> yaml_node list \<Rightarrow> bool" where
  "fields_conform d fs seen l \<longleftrightarrow> distinct (map (y_value \<circ> fst) (key_values l)) \<and>
     set (map (y_value \<circ> fst) (key_values l)) \<inter> set seen = {} \<and>
     (\<forall>k v. (k, v) \<in> set (key_values l) \<longrightarrow> plain_key k \<and> (\<exists>s. map_of fs (y_value k) = Some s \<and> conforms (d + 1) s v))"

lemma fields_conform_Cons:
  "fields_conform d fs seen (k # v # rest) \<longleftrightarrow> plain_key k \<and> y_value k \<notin> set seen \<and>
    (\<exists>s. map_of fs (y_value k) = Some s \<and> conforms (d + 1) s v) \<and> fields_conform d fs (y_value k # seen) rest"
  by (auto simp: fields_conform_def)

lemma fields_conform_Nil [simp]: "fields_conform d fs seen []" "fields_conform d fs seen [k]"
  by (simp_all add: fields_conform_def)

lemma conforms_fields: "conforms d (Mapping fs) n \<longleftrightarrow>
    plain_node n \<and> y_kind n = MappingNode \<and> d \<le> MaxDepth \<and> fields_conform d fs [] (y_content n)"
  by (auto simp: conforms_Mapping fields_conform_def)

lemma walk_sound:
  "walkStructure e p d n st = (m, []) \<Longrightarrow> m \<le> MaxNodes \<Longrightarrow> conforms d e n \<and> m = fst st + count_node n"
  "walk_fields fs p d seen l st = (m, []) \<Longrightarrow> m \<le> MaxNodes \<Longrightarrow> fields_conform d fs seen l \<and> m = fst st + count_pairs l"
  "walk_items item p d i l st = (m, []) \<Longrightarrow> m \<le> MaxNodes \<Longrightarrow> (\<forall>x\<in>set l. conforms (d + 1) item x) \<and> m = fst st + count_items l"
  "walk_values p d l st = (m, []) \<Longrightarrow> True"
  "walk_all p d l st = (m, []) \<Longrightarrow> True"
proof (induction e p d n st and fs p d seen l st and item p d i l st and p d l st and p d l st arbitrary: m and m and m and m and m rule: walk_induct)
  case (1 expected fieldPath depth node st)
  obtain b st' where e: "enter_node expected fieldPath depth node st = (b, st')" by (metis surj_pair)
  note w = walkStructure_enter [OF e] and IH = "1.IH" [OF e [symmetric]]
  have "snd st' = [] \<and> fst st' \<le> m" using walk_after_enter [OF e] "1.prems"(1) by simp
  then have clean: "snd st' = []" "fst st' \<le> MaxNodes" using "1.prems"(2) by simp_all
  then have st: "st = (fst st, [])" "st' = (fst st + 1, [])" using enter_node_grows [OF e] by (metis prod.collapse)+
  have n: "plain_node node" "y_kind node = MappingNode \<or> y_kind node = SequenceNode \<longrightarrow> depth \<le> MaxDepth" "b = (expected \<noteq> Scalar)"
    "y_kind node = (case expected of Mapping fs \<Rightarrow> MappingNode | Sequence s \<Rightarrow> SequenceNode | Scalar \<Rightarrow> ScalarNode)"
    using enter_node_clean [of expected fieldPath depth node "fst st" b "fst st + 1"] e st clean(2) by simp_all
  show ?case
  proof (cases expected)
    case Scalar
    then show ?thesis using n w "1.prems" st by (simp add: count_node.simps)
  next
    case (Mapping fs)
    then show ?thesis using n w "1.prems" st IH(3) [of fs m] by (simp add: count_node.simps conforms_fields)
  next
    case (Sequence item)
    then show ?thesis using n w "1.prems" st IH(4) [of item m] by (simp add: count_node.simps conforms_Sequence)
  qed
next
  case (2 fs fieldPath depth seen key v rest st)
  obtain seen' t st' where e: "enter_key fs fieldPath seen key st = (seen', t, st')" by (metis prod_cases3)
  let ?st = "case t of None \<Rightarrow> st' | Some (child, path) \<Rightarrow> walkStructure child path (depth + 1) v st'"
  have w: "walk_fields fs fieldPath depth seen' rest ?st = (m, [])" using "2.prems"(1) by (simp add: e)
  note rest = "2.IH"(2) [OF e [symmetric] refl w "2.prems"(2)]
  have "grows ?st (m, []) (count_pairs rest)" using walk_grows(2) [of ?st fs fieldPath depth seen' rest] w by simp
  then have mid: "snd ?st = []" "fst ?st \<le> MaxNodes" using "2.prems"(2) by (auto simp: grows_def)
  have "snd st' = []"
  proof (cases t)
    case (Some x)
    then show ?thesis using mid(1) walk_grows(1) [of st' "fst x" "snd x" "depth + 1" v] by (cases x) (simp add: grows_def)
  qed (use mid(1) in simp)
  then have st: "st = (fst st, [])" "st' = (fst st + 1, [])" using enter_key_grows [OF e] by (metis prod.collapse)+
  have e': "enter_key fs fieldPath seen key (fst st, []) = (seen', t, fst st + 1, [])" using e st by (metis prod.collapse)
  obtain s where s: "plain_key key" "y_value key \<notin> set seen" "seen' = y_value key # seen" "map_of fs (y_value key) = Some s"
      "t = Some (s, child_path fieldPath (y_value key))"
    using enter_key_clean [OF e'] by blast
  have "walkStructure s (child_path fieldPath (y_value key)) (depth + 1) v st' = (fst ?st, [])"
    using mid(1) s(5) by (simp add: prod_eq_iff)
  from "2.IH"(1) [OF e [symmetric] refl s(5) refl this mid(2)] show ?case
    using rest s st(2) by (simp add: fields_conform_Cons)
next
  case (6 item fieldPath depth index v rest st)
  let ?st = "walkStructure item (item_path fieldPath index) (depth + 1) v st"
  have w: "walk_items item fieldPath depth (index + 1) rest ?st = (m, [])" using "6.prems"(1) by simp
  have "grows ?st (m, []) (count_items rest)" using walk_grows(3) [of ?st item fieldPath depth "index + 1" rest] w by simp
  then have "?st = (fst ?st, [])" "fst ?st \<le> MaxNodes" using "6.prems"(2) by (auto simp: grows_def prod_eq_iff)
  from "6.IH"(1) [OF this] "6.IH"(2) [OF w "6.prems"(2)] show ?case by simp
qed simp_all

lemma walk_complete:
  "conforms d e n \<Longrightarrow> fst st + count_node n \<le> MaxNodes \<Longrightarrow> walkStructure e p d n st = (fst st + count_node n, snd st)"
  "fields_conform d fs seen l \<Longrightarrow> fst st + count_pairs l \<le> MaxNodes \<Longrightarrow> walk_fields fs p d seen l st = (fst st + count_pairs l, snd st)"
  "\<forall>x\<in>set l. conforms (d + 1) item x \<Longrightarrow> fst st + count_items l \<le> MaxNodes \<Longrightarrow>
    walk_items item p d i l st = (fst st + count_items l, snd st)"
  "True \<Longrightarrow> walk_values p d l st = walk_values p d l st"
  "True \<Longrightarrow> walk_all p d l st = walk_all p d l st"
proof (induction e p d n st and fs p d seen l st and item p d i l st and p d l st and p d l st rule: walk_induct)
  case (1 expected fieldPath depth node st)
  have n: "plain_node node" "y_kind node = (case expected of Mapping fs \<Rightarrow> MappingNode | Sequence s \<Rightarrow> SequenceNode | Scalar \<Rightarrow> ScalarNode)"
    "expected \<noteq> Scalar \<Longrightarrow> depth \<le> MaxDepth"
    using "1.prems"(1) by (cases expected; simp add: conforms_fields conforms_Sequence)+
  have "fst st + 1 \<le> MaxNodes" using "1.prems"(2) by (simp add: count_node.simps)
  from enter_node_accepts [OF n this, of fieldPath "snd st"]
  have e: "enter_node expected fieldPath depth node st = (expected \<noteq> Scalar, fst st + 1, snd st)" by simp
  note w = walkStructure_enter [OF e] and IH = "1.IH" [OF e [symmetric]]
  show ?case
  proof (cases expected)
    case Scalar
    then show ?thesis using n w by (simp add: count_node.simps)
  next
    case (Mapping fs)
    then show ?thesis using n w "1.prems" IH(3) [of fs] by (simp add: count_node.simps conforms_fields)
  next
    case (Sequence item)
    then show ?thesis using n w "1.prems" IH(4) [of item] by (simp add: count_node.simps conforms_Sequence)
  qed
next
  case (2 fs fieldPath depth seen key v rest st)
  then obtain s where s: "plain_key key" "y_value key \<notin> set seen" "map_of fs (y_value key) = Some s" "conforms (depth + 1) s v"
      "fields_conform depth fs (y_value key # seen) rest"
    by (auto simp: fields_conform_Cons)
  from enter_key_accepts [OF s(1-3), of fieldPath "fst st" "snd st"]
  have e: "enter_key fs fieldPath seen key st = (y_value key # seen, Some (s, child_path fieldPath (y_value key)), fst st + 1, snd st)" by simp
  have "walkStructure s (child_path fieldPath (y_value key)) (depth + 1) v (fst st + 1, snd st) = (fst st + 1 + count_node v, snd st)"
    using "2.IH"(1) [OF e [symmetric] refl refl refl s(4)] "2.prems"(2) by simp
  then show ?case using "2.IH"(2) [OF e [symmetric] refl s(5)] "2.prems"(2) by (simp add: e)
qed simp_all

lemma walk_exact:
  assumes "count_node n \<le> MaxNodes"
  shows "snd (walkStructure e p d n (0, [])) = [] \<longleftrightarrow> conforms d e n"
proof
  let ?w = "walkStructure e p d n (0, [])"
  assume "snd ?w = []"
  then have "?w = (fst ?w, [])" by (simp add: prod_eq_iff)
  moreover have "fst ?w \<le> MaxNodes" using walk_grows(1) [of "(0, [])" e p d n] assms by (simp add: grows_def)
  ultimately show "conforms d e n" using walk_sound(1) by blast
next
  assume "conforms d e n"
  then show "snd (walkStructure e p d n (0, [])) = []" using walk_complete(1) [of d e n "(0, [])" p] assms by simp
qed

section \<open>Beyond the limit\<close>

text \<open>
  A problem-free walk of a mapping, whether or not the limit was passed on the way: its keys are known and
  distinct, or the mapping was not looked at and counted as one node.
\<close>

definition walk_bound :: "schema_node \<Rightarrow> yaml_node \<Rightarrow> nat \<Rightarrow> bool" where
  "walk_bound e n c \<longleftrightarrow> (\<forall>p d k m. walkStructure e p d n (k, []) = (m, []) \<longrightarrow> m \<le> k + c)"

lemma walk_bound_mono: "walk_bound e n c \<Longrightarrow> c \<le> c' \<Longrightarrow> walk_bound e n c'"
  by (fastforce simp: walk_bound_def)

lemma clean_enter:
  assumes "walkStructure e p d n (k, []) = (m, [])"
  obtains b where "enter_node e p d n (k, []) = (b, k + 1, [])"
proof -
  obtain b st' where e: "enter_node e p d n (k, []) = (b, st')" by (metis surj_pair)
  have "snd st' = []" "fst st' = k + 1" using walk_after_enter [OF e] assms enter_node_grows [OF e] by simp_all
  then show thesis using that [of b] e by (metis prod.collapse)
qed

lemma scalar_bound: "walk_bound Scalar n 1"
  unfolding walk_bound_def
proof (intro allI impI)
  fix p d k m
  assume w: "walkStructure Scalar p d n (k, []) = (m, [])"
  obtain b where e: "enter_node Scalar p d n (k, []) = (b, k + 1, [])" using clean_enter [OF w] .
  then have "\<not> b" by (auto simp: enter_node_def Let_def addProblem_def split: if_splits)
  then show "m \<le> k + 1" using w walkStructure_enter [OF e] by simp
qed

lemma items_bound:
  assumes "\<forall>x\<in>set l. walk_bound item x c" and "walk_items item p d i l (k, []) = (m, [])"
  shows "m \<le> k + c * length l"
  using assms
proof (induction l arbitrary: i k)
  case (Cons x l)
  let ?st = "walkStructure item (item_path p i) (d + 1) x (k, [])"
  have w: "walk_items item p d (i + 1) l ?st = (m, [])" using Cons.prems(2) by simp
  then have "snd ?st = []" using walk_grows(3) [of ?st item p d "i + 1" l] by (simp add: grows_def)
  then have st: "?st = (fst ?st, [])" by (simp add: prod_eq_iff)
  then have "fst ?st \<le> k + c" using Cons.prems(1) unfolding walk_bound_def by (metis list.set_intros(1))
  moreover have "m \<le> fst ?st + c * length l" using Cons.IH [of "i + 1" "fst ?st"] Cons.prems(1) w st by (metis list.set_intros(2))
  ultimately show ?case by simp
qed simp

lemma sequence_bound:
  assumes "length (y_content n) \<le> c"
  shows "walk_bound (Sequence Scalar) n (1 + c)"
  unfolding walk_bound_def
proof (intro allI impI)
  fix p d k m
  assume w: "walkStructure (Sequence Scalar) p d n (k, []) = (m, [])"
  obtain b where e: "enter_node (Sequence Scalar) p d n (k, []) = (b, k + 1, [])" using clean_enter [OF w] .
  show "m \<le> k + (1 + c)"
  proof (cases b)
    case True
    then have "walk_items Scalar p d 0 (y_content n) (k + 1, []) = (m, [])" using w walkStructure_enter [OF e] by simp
    from items_bound [OF _ this, of 1] show ?thesis using assms scalar_bound by simp
  qed (use w walkStructure_enter [OF e] in simp)
qed

lemma fields_bound:
  assumes "walk_fields fs p d seen l (k, []) = (m, [])"
    and "\<forall>key v s. (key, v) \<in> set (key_values l) \<longrightarrow> map_of fs (y_value key) = Some s \<longrightarrow> walk_bound s v (f (y_value key))"
  shows "distinct (map (y_value \<circ> fst) (key_values l)) \<and> set (map (y_value \<circ> fst) (key_values l)) \<inter> set seen = {} \<and>
    set (map (y_value \<circ> fst) (key_values l)) \<subseteq> set (map fst fs) \<and>
    m \<le> k + sum (\<lambda>x. 1 + f x) (set (map (y_value \<circ> fst) (key_values l)))"
  using assms
proof (induction l arbitrary: seen k rule: key_values.induct)
  case (1 key v rest)
  obtain seen' t st' where e: "enter_key fs p seen key (k, []) = (seen', t, st')" by (metis prod_cases3)
  let ?st = "case t of None \<Rightarrow> st' | Some (child, path) \<Rightarrow> walkStructure child path (d + 1) v st'"
  have w: "walk_fields fs p d seen' rest ?st = (m, [])" using "1.prems"(1) by (simp add: e)
  then have mid: "snd ?st = []" using walk_grows(2) [of ?st fs p d seen' rest] by (simp add: grows_def)
  have "snd st' = []"
  proof (cases t)
    case (Some x)
    then show ?thesis using mid walk_grows(1) [of st' "fst x" "snd x" "d + 1" v] by (cases x) (simp add: grows_def)
  qed (use mid in simp)
  then have st': "st' = (k + 1, [])" using enter_key_grows [OF e] by (simp add: prod_eq_iff)
  obtain s where s: "y_value key \<notin> set seen" "seen' = y_value key # seen" "map_of fs (y_value key) = Some s"
      "t = Some (s, child_path p (y_value key))"
    using enter_key_clean [OF e [unfolded st']] by blast
  have st: "?st = (fst ?st, [])" using mid by (simp add: prod_eq_iff)
  have "walk_bound s v (f (y_value key))" using "1.prems"(2) s(3) by simp
  moreover have "walkStructure s (child_path p (y_value key)) (d + 1) v (k + 1, []) = (fst ?st, [])" using st s(4) st' by simp
  ultimately have first: "fst ?st \<le> k + 1 + f (y_value key)" unfolding walk_bound_def by blast
  have "walk_fields fs p d seen' rest (fst ?st, []) = (m, [])" using w st by metis
  note rest = "1.IH" [OF this] and fresh = s(1,2)
  have "y_value key \<in> set (map fst fs)" using s(3) by (metis map_of_eq_None_iff option.distinct(1) list.set_map)
  then show ?case using rest "1.prems"(2) first fresh by auto
qed simp_all

lemma mapping_clean:
  assumes "walkStructure (Mapping fs) p d n (k, []) = (m, [])"
  shows "m = k + 1 \<or> y_kind n = MappingNode \<and> walk_fields fs p d [] (y_content n) (k + 1, []) = (m, [])"
proof -
  obtain b where e: "enter_node (Mapping fs) p d n (k, []) = (b, k + 1, [])" using clean_enter [OF assms] .
  then show ?thesis using assms walkStructure_enter [OF e] enter_node_descends [of "Mapping fs" p d n "(k, [])"] by (cases b) simp_all
qed

lemma always_bound: "walk_bound e n (count_node n)"
  unfolding walk_bound_def
proof (intro allI impI)
  fix p d k m
  assume "walkStructure e p d n (k, []) = (m, [])"
  then show "m \<le> k + count_node n" using walk_grows(1) [of "(k, [])" e p d n] by (simp add: grows_def)
qed

lemma count_member: "(key, v) \<in> set (key_values l) \<Longrightarrow> count_node v \<le> count_pairs l"
  by (induction l rule: key_values.induct) auto

lemma fields_distinct:
  assumes "walk_fields fs p d seen l (k, []) = (m, [])"
  shows "distinct (map (y_value \<circ> fst) (key_values l)) \<and> set (map (y_value \<circ> fst) (key_values l)) \<subseteq> set (map fst fs)"
proof -
  have "walk_bound s v (count_pairs l)" if "(key, v) \<in> set (key_values l)" for key v s
    using walk_bound_mono [OF always_bound count_member [OF that]] .
  then show ?thesis using fields_bound [OF assms, of "\<lambda>_. count_pairs l"] by blast
qed

lemma mapping_bound:
  assumes "\<And>key v s. distinct (map (y_value \<circ> fst) (key_values (y_content n))) \<Longrightarrow> (key, v) \<in> set (key_values (y_content n)) \<Longrightarrow>
      map_of fs (y_value key) = Some s \<Longrightarrow> walk_bound s v (f (y_value key))"
  shows "walk_bound (Mapping fs) n (1 + sum (\<lambda>x. 1 + f x) (set (map fst fs)))"
  unfolding walk_bound_def
proof (intro allI impI)
  fix p d k m
  assume "walkStructure (Mapping fs) p d n (k, []) = (m, [])"
  from mapping_clean [OF this] consider "m = k + 1" | "walk_fields fs p d [] (y_content n) (k + 1, []) = (m, [])" by blast
  then show "m \<le> k + (1 + sum (\<lambda>x. 1 + f x) (set (map fst fs)))"
  proof cases
    case 2
    let ?keys = "set (map (y_value \<circ> fst) (key_values (y_content n)))"
    have "m \<le> k + 1 + sum (\<lambda>x. 1 + f x) ?keys" "?keys \<subseteq> set (map fst fs)"
      using fields_bound [OF 2, of f] fields_distinct [OF 2] assms by auto
    moreover have "sum (\<lambda>x. 1 + f x) ?keys \<le> sum (\<lambda>x. 1 + f x) (set (map fst fs))"
      by (intro sum_mono2) (use calculation(2) in auto)
    ultimately show ?thesis by linarith
  qed simp
qed

lemma flat_bound:
  assumes "set (map snd fs) \<subseteq> {Scalar}"
  shows "walk_bound (Mapping fs) n (1 + 2 * card (set (map fst fs)))"
proof -
  have "walk_bound (Mapping fs) n (1 + sum (\<lambda>x. 1 + 1) (set (map fst fs)))"
    by (rule mapping_bound [where f = "\<lambda>_. 1"]) (use assms scalar_bound in \<open>force dest: map_of_SomeD\<close>)
  then show ?thesis by (simp add: mult_2)
qed

section \<open>What the decoder reads\<close>

lemma node_pairs_eq: "node_pairs l = map (\<lambda>(k, v). (y_value k, v)) (key_values l)"
  by (induction l rule: key_values.induct) auto

lemma mappingValues_distinct:
  assumes "distinct (map (y_value \<circ> fst) (key_values (y_content n)))" and "(key, v) \<in> set (key_values (y_content n))"
  shows "mappingValues n (y_value key) = Some v"
proof -
  let ?ps = "node_pairs (y_content n)"
  have keys: "map fst ?ps = map (y_value \<circ> fst) (key_values (y_content n))" by (auto simp: node_pairs_eq)
  have "(y_value key, v) \<in> set (rev ?ps)" using assms(2) by (force simp: node_pairs_eq)
  moreover have "distinct (map fst (rev ?ps))" using assms(1) by (simp add: rev_map [symmetric] keys)
  ultimately show ?thesis unfolding mappingValues_def by (rule map_of_is_SomeI [rotated])
qed

lemma readStrings_from_length: "length (fst (readStrings_from p i l ps)) = length l"
  by (induction p i l ps rule: readStrings_from.induct) (auto split: prod.splits)

lemma readStrings_length: "length (fst (readStrings p n ps)) = length (y_content n)"
  by (simp add: readStrings_def readStrings_from_length)

text \<open>What one step of a decoder does to a field of its target: its own, and every other.\<close>

lemma present_own: "(\<And>x t. get (upd x t) = x) \<Longrightarrow>
    get (fst (when_present vals key rd upd st)) = (case vals key of None \<Rightarrow> get (fst st) | Some n \<Rightarrow> fst (rd n (snd st)))"
  by (auto simp: when_present_def split: option.splits prod.splits)

lemma present_other: "(\<And>x t. get (upd x t) = get t) \<Longrightarrow> get (fst (when_present vals key rd upd st)) = get (fst st)"
  by (auto simp: when_present_def split: option.splits prod.splits)

lemmas gate_fields = present_own [of g_excluded_labels] present_other [of g_excluded_labels] present_own [of g_suppress_categories]
  present_other [of g_suppress_categories] present_own [of g_allow_domains] present_other [of g_allow_domains]
  present_own [of g_block_domains] present_other [of g_block_domains] present_own [of g_candidate_terms]
  present_other [of g_candidate_terms] present_own [of g_urgent_terms] present_other [of g_urgent_terms]

lemma decodeGate_lengths:
  "mappingValues n ''excluded_labels'' = Some v \<Longrightarrow> length (g_excluded_labels (fst (decodeGate n st))) = length (y_content v)"
  "mappingValues n ''suppress_gmail_categories'' = Some v \<Longrightarrow> length (g_suppress_categories (fst (decodeGate n st))) = length (y_content v)"
  "mappingValues n ''sender_allow_domains'' = Some v \<Longrightarrow> length (g_allow_domains (fst (decodeGate n st))) = length (y_content v)"
  "mappingValues n ''sender_block_domains'' = Some v \<Longrightarrow> length (g_block_domains (fst (decodeGate n st))) = length (y_content v)"
  "mappingValues n ''subject_candidate_terms'' = Some v \<Longrightarrow> length (g_candidate_terms (fst (decodeGate n st))) = length (y_content v)"
  "mappingValues n ''subject_urgent_terms'' = Some v \<Longrightarrow> length (g_urgent_terms (fst (decodeGate n st))) = length (y_content v)"
  unfolding decodeGate_def Let_def by (simp_all add: gate_fields readStrings_length)

lemma gate_bound:
  assumes "length (g_excluded_labels (fst (decodeGate n st))) \<le> 256" "length (g_suppress_categories (fst (decodeGate n st))) \<le> 256"
    "length (g_allow_domains (fst (decodeGate n st))) \<le> 256" "length (g_block_domains (fst (decodeGate n st))) \<le> 256"
    "length (g_candidate_terms (fst (decodeGate n st))) \<le> 256" "length (g_urgent_terms (fst (decodeGate n st))) \<le> 256"
  shows "walk_bound schema_gate n 2323"
proof -
  let ?fs = "case schema_gate of Mapping fs \<Rightarrow> fs"
  have "walk_bound (Mapping ?fs) n (1 + sum (\<lambda>x. 1 + 257) (set (map fst ?fs)))"
  proof (rule mapping_bound)
    fix key v s
    assume d: "distinct (map (y_value \<circ> fst) (key_values (y_content n)))" "(key, v) \<in> set (key_values (y_content n))"
      "map_of ?fs (y_value key) = Some s"
    note v = mappingValues_distinct [OF d(1,2)]
    show "walk_bound s v 257"
    proof (cases "s = Scalar")
      case True
      then show ?thesis using walk_bound_mono [OF scalar_bound, of 257 v] by simp
    next
      case False
      then have "s = Sequence Scalar \<and> length (y_content v) \<le> 256"
        using d(3) v assms decodeGate_lengths [of n v st] by (auto simp: schema_gate_def split: if_splits)
      then show ?thesis using sequence_bound [of v 256] by simp
    qed
  qed
  then show ?thesis by (simp add: schema_gate_def)
qed

lemma decodeConfig_gate:
  "mappingValues root ''gate'' = Some n \<Longrightarrow> \<exists>g ps. cf_gate (fst (decodeConfig root st)) = fst (decodeGate n (g, ps))"
  unfolding decodeConfig_def Let_def section_at_def
  by (simp add: present_own [of cf_gate] present_other [of cf_gate]) blast

lemma backfill_bound: "walk_bound schema_backfill n 40"
proof -
  let ?fs = "case schema_backfill of Mapping fs \<Rightarrow> fs"
  have "walk_bound (Mapping ?fs) n (1 + sum (\<lambda>x. 1 + (if x = ''run_window'' then 7 else 1)) (set (map fst ?fs)))"
  proof (rule mapping_bound)
    fix key v s
    assume "map_of ?fs (y_value key) = Some s"
    then show "walk_bound s v (if y_value key = ''run_window'' then 7 else 1)"
      using flat_bound [of "[(''timezone'', Scalar), (''start'', Scalar), (''end'', Scalar)]" v] scalar_bound
      by (auto simp: schema_backfill_def split: if_splits)
  qed
  then have "walk_bound schema_backfill n 19" by (simp add: schema_backfill_def)
  then show ?thesis by (rule walk_bound_mono) simp
qed

lemma other_section:
  assumes "map_of (case schema of Mapping fs \<Rightarrow> fs) key = Some s" and "key \<noteq> ''gate''"
  shows "walk_bound s v 40"
proof -
  have flat: "walk_bound (Mapping fs) v 40" if "set (map snd fs) \<subseteq> {Scalar}" "card (set (map fst fs)) \<le> 10" for fs
    by (rule walk_bound_mono [OF flat_bound [OF that(1)]]) (use that(2) in simp)
  have "walk_bound Scalar v 40" by (rule walk_bound_mono [OF scalar_bound]) simp
  moreover have "walk_bound schema_server v 40" "walk_bound schema_database v 40" "walk_bound schema_gmail v 40"
    unfolding schema_server_def schema_database_def schema_gmail_def by (intro flat; simp)+
  ultimately show ?thesis using assms backfill_bound flat by (auto simp: schema_def split: if_splits)
qed

lemma schema_bound:
  assumes "validateGate lib (cf_gate (fst (decodeConfig root st))) ps = []"
  shows "walk_bound schema root 4096"
proof -
  let ?fs = "case schema of Mapping fs \<Rightarrow> fs"
  let ?g = "cf_gate (fst (decodeConfig root st))"
  have lists: "length (g_excluded_labels ?g) \<le> 256" "length (g_suppress_categories ?g) \<le> 256" "length (g_allow_domains ?g) \<le> 256"
    "length (g_block_domains ?g) \<le> 256" "length (g_candidate_terms ?g) \<le> 256" "length (g_urgent_terms ?g) \<le> 256"
    using assms unfolding validateGate_def validateDomains_def validateSubjects_def Let_def quiet by simp_all
  have "walk_bound (Mapping ?fs) root (1 + sum (\<lambda>x. 1 + (if x = ''gate'' then 2323 else 40)) (set (map fst ?fs)))"
  proof (rule mapping_bound)
    fix key v s
    assume d: "distinct (map (y_value \<circ> fst) (key_values (y_content root)))" "(key, v) \<in> set (key_values (y_content root))"
      "map_of ?fs (y_value key) = Some s"
    note v = mappingValues_distinct [OF d(1,2)]
    show "walk_bound s v (if y_value key = ''gate'' then 2323 else 40)"
    proof (cases "y_value key = ''gate''")
      case True
      then obtain g qs where "?g = fst (decodeGate v (g, qs))" using decodeConfig_gate [of root v st] v by auto
      then have "walk_bound schema_gate v 2323" using gate_bound [of v "(g, qs)"] lists by simp
      then show ?thesis using True d(3) by (simp add: schema_def)
    next
      case False
      then have "walk_bound s v 40" using other_section [OF _ False, of s v] d(3) by simp
      then show ?thesis using False by simp
    qed
  qed
  note w = this
  have eq: "Mapping ?fs = schema" by (simp add: schema_def)
  have le: "1 + sum (\<lambda>x. 1 + (if x = ''gate'' then 2323 else 40)) (set (map fst ?fs)) \<le> (4096 :: nat)" by (simp add: schema_def)
  show ?thesis using walk_bound_mono [OF w le] unfolding eq .
qed

section \<open>A gap in the node limit\<close>

text \<open>
  Keys are counted without being compared with the limit, and a value is reported only when it is the first
  node beyond it. When a key is that node, the report never comes and everything after it is accepted
  unseen. The document below has 4091 labels, and its last value, which the schema requires to be a
  mapping, is an anchored null.
\<close>

definition leaf :: "string \<Rightarrow> string \<Rightarrow> yaml_node" where
  "leaf tag v = Node ScalarNode 0 tag v [] False [] 1 1"

definition gap_document :: yaml_node where
  "gap_document = Node MappingNode 0 ''!!map'' [] [] False
    [leaf ''!!str'' ''gate'', Node MappingNode 0 ''!!map'' [] [] False
       [leaf ''!!str'' ''excluded_labels'', Node SequenceNode 0 ''!!seq'' [] [] False (replicate 4091 (leaf ''!!str'' ''SPAM'')) 1 1] 1 1,
     leaf ''!!str'' ''server'', Node ScalarNode 0 ''!!null'' ''~'' ''a'' False [] 1 1] 1 1"

lemma leaf_plain: "containsUnicodeControl v = False \<Longrightarrow> tag \<in> {''!!str'', ''!!int'', ''!!bool''} \<Longrightarrow> plain_node (leaf tag v)"
  by (auto simp: plain_node_def leaf_def isCoreTag_def)

lemma leaf_key: "containsUnicodeControl v = False \<Longrightarrow> v \<noteq> ''<<'' \<Longrightarrow> plain_key (leaf ''!!str'' v)"
  by (simp add: plain_key_def leaf_def)

lemma ascii_no_control: "list_all (\<lambda>c. 0x20 \<le> bval c \<and> bval c < 0x7F) s \<Longrightarrow> containsUnicodeControl s = False"
proof -
  assume a: "list_all (\<lambda>c. 0x20 \<le> bval c \<and> bval c < 0x7F) s"
  then have "runes s = map bval s" by (intro runes_ascii) (auto simp: list_all_iff)
  then show ?thesis using a by (auto simp: containsUnicodeControl_def list_ex_iff list_all_iff is_control_def)
qed

lemma gap_gate:
  assumes "g = Node MappingNode 0 ''!!map'' [] [] False
    [leaf ''!!str'' ''excluded_labels'', Node SequenceNode 0 ''!!seq'' [] [] False (replicate n (leaf ''!!str'' ''SPAM'')) 1 1] 1 1"
  shows "conforms 2 schema_gate g \<and> count_node g = n + 3"
proof -
  let ?x = "leaf ''!!str'' ''SPAM''" and ?s = "Node SequenceNode 0 ''!!seq'' [] [] False (replicate n (leaf ''!!str'' ''SPAM'')) 1 1"
  have x: "conforms d Scalar ?x" "count_node ?x = 1" for d
    using leaf_plain [of "''SPAM''" "''!!str''"] ascii_no_control [of "''SPAM''"] by (simp_all add: leaf_def count_node.simps)
  have items: "count_items (replicate k ?x) = k" for k by (induction k) (simp_all add: x(2))
  have seq: "conforms 3 (Sequence Scalar) ?s" "count_node ?s = n + 1"
    using x(1) items [of n] by (simp_all add: conforms_Sequence plain_node_def isCoreTag_def MaxDepth_def count_node.simps del: conforms_Scalar)
  have key: "plain_key (leaf ''!!str'' ''excluded_labels'')" "y_value (leaf ''!!str'' ''excluded_labels'') = ''excluded_labels''"
    using leaf_key ascii_no_control [of "''excluded_labels''"] by (simp_all add: leaf_def)
  have "conforms 2 schema_gate g"
    unfolding schema_gate_def conforms_fields using seq(1) key
    by (simp add: assms fields_conform_Cons plain_node_def isCoreTag_def MaxDepth_def)
  moreover have "count_node g = n + 3" using seq(2) by (simp add: assms count_node.simps [of "Node MappingNode a b c d e f h i" for a b c d e f h i])
  ultimately show ?thesis by blast
qed

text \<open>
  C33 (node_limit_gap): The node limit has a gap. The walk counts the keys of a mapping without comparing the count with the
  limit, so a document of 4098 nodes whose 4097th node is a key is walked without a report, although the value of that
  key, which is never looked at, does not conform to the schema.
\<close>

lemma node_limit_gap:
  "walkStructure schema ''$'' 1 gap_document (0, []) = (4098, []) \<and> \<not> conforms 1 schema gap_document"
proof -
  let ?g = "Node MappingNode 0 ''!!map'' [] [] False
    [leaf ''!!str'' ''excluded_labels'', Node SequenceNode 0 ''!!seq'' [] [] False (replicate 4091 (leaf ''!!str'' ''SPAM'')) 1 1] 1 1"
  let ?x = "Node ScalarNode 0 ''!!null'' ''~'' ''a'' False [] 1 1"
  obtain fs where fs: "schema = Mapping fs" "map_of fs ''gate'' = Some schema_gate" "map_of fs ''server'' = Some schema_server"
    by (simp add: schema_def)
  have doc: "plain_node gap_document" "y_kind gap_document = MappingNode"
    "y_content gap_document = [leaf ''!!str'' ''gate'', ?g, leaf ''!!str'' ''server'', ?x]"
    by (simp_all add: gap_document_def plain_node_def isCoreTag_def)
  have e: "enter_node schema ''$'' 1 gap_document (0, []) = (True, 1, [])"
    unfolding fs(1) using enter_node_accepts [of gap_document "Mapping fs" 1 0 "''$''" "[]"] doc(1,2) by (simp add: MaxDepth_def MaxNodes_def)
  have keys: "plain_key (leaf ''!!str'' ''gate'')" "plain_key (leaf ''!!str'' ''server'')"
    "y_value (leaf ''!!str'' ''gate'') = ''gate''" "y_value (leaf ''!!str'' ''server'') = ''server''"
    using leaf_key [of "''gate''"] leaf_key [of "''server''"] ascii_no_control [of "''gate''"] ascii_no_control [of "''server''"]
    by (simp_all add: leaf_def)
  note k1 = enter_key_accepts [OF keys(1), of "[]" fs schema_gate "''$''" 1 "[]", unfolded keys, OF _ fs(2)]
  note k2 = enter_key_accepts [OF keys(2), of "[''gate'']" fs schema_server "''$''" 4096 "[]", unfolded keys, OF _ fs(3)]
  have g: "walkStructure schema_gate p 2 ?g (2, []) = (4096, [])" for p
    using walk_complete(1) [of 2 schema_gate ?g "(2, [])" p] gap_gate [OF refl, of 4091] by (simp add: MaxNodes_def)
  have x: "walkStructure schema_server p 2 ?x (4097, []) = (4098, [])" for p
    using walkStructure_enter [of schema_server p 2 ?x "(4097, [])" False "(4098, [])"] by (simp add: enter_node_def MaxNodes_def)
  have "walk_fields fs ''$'' 1 [] (y_content gap_document) (1, []) = (4098, [])"
    using k1 k2 g x by (simp add: doc(3) numeral_2_eq_2)
  then have "walkStructure schema ''$'' 1 gap_document (0, []) = (4098, [])"
    using walkStructure_enter [OF e, unfolded fs(1)] unfolding fs(1) by simp
  moreover have "\<not> conforms 1 schema gap_document"
    unfolding fs(1) conforms_fields doc(3) using keys fs(3)
    by (auto simp: fields_conform_Cons schema_server_def conforms_fields)
  ultimately show ?thesis by blast
qed

end
