(* ===== verification/Config_Effective.thy ===== *)
theory Config_Effective
  imports Config_Parse
begin

text \<open>
  \<^verbatim>\<open>internal/config/effective.go\<close>: the effective configuration with the source of every field. The
  output structures exist only to be marshalled, so they are the JSON values they become; the names of the
  members are those of the structure tags.
\<close>

section \<open>Durations in words\<close>

text \<open>\<^verbatim>\<open>time.Duration.String\<close>, writing from the right into the text that follows.\<close>

fun fmtFrac_loop :: "nat \<Rightarrow> bool \<Rightarrow> nat \<Rightarrow> string \<Rightarrow> bool \<times> nat \<times> string" where
  "fmtFrac_loop 0 pr v buf = (pr, v, buf)"
| "fmtFrac_loop (Suc i) pr v buf =
    (let digit = v mod 10; pr = (pr \<or> digit \<noteq> 0) in
     fmtFrac_loop i pr (v div 10) (if pr then char_of (digit + 48) # buf else buf))"

definition fmtFrac :: "nat \<Rightarrow> nat \<Rightarrow> string \<Rightarrow> string \<times> nat" where
  "fmtFrac v prec buf = (case fmtFrac_loop prec False v buf of (pr, v, buf) \<Rightarrow> (if pr then CHR ''.'' # buf else buf, v))"

definition Duration_String :: "duration \<Rightarrow> string" where
  "Duration_String d =
    (let u = nat \<bar>d\<bar>;
         digits =
           (if u < 1000000000 then
              if u = 0 then ''0s''
              else if u < 1000 then format_uint u @ ''ns''
              else if u < 1000000 then (case fmtFrac u 3 [CHR 0xC2, CHR 0xB5, CHR ''s''] of (buf, u) \<Rightarrow> format_uint u @ buf)
              else (case fmtFrac u 6 ''ms'' of (buf, u) \<Rightarrow> format_uint u @ buf)
            else (case fmtFrac u 9 ''s'' of (buf, u) \<Rightarrow>
              let buf = format_uint (u mod 60) @ buf; u = u div 60 in
              if u > 0 then
                let buf = format_uint (u mod 60) @ ''m'' @ buf; u = u div 60 in
                if u > 0 then format_uint u @ ''h'' @ buf else buf
              else buf))
     in if d < 0 \<and> u \<noteq> 0 then CHR ''-'' # digits else digits)"

definition json_duration :: "duration \<Rightarrow> json" where
  "json_duration d = JStr (Duration_String d)"

section \<open>The configuration as output\<close>

definition outputCapabilities :: "capabilities_config \<Rightarrow> json" where
  "outputCapabilities c = JObj
    [(''gmail.read'', JBool (cc_gmail_read c)), (''gmail.current_sync'', JBool (cc_gmail_current_sync c)),
     (''gmail.backfill'', JBool (cc_gmail_backfill c)), (''mail.review_read'', JBool (cc_mail_review_read c)),
     (''mail.review_write'', JBool (cc_mail_review_write c))]"

definition outputServer :: "server_config \<Rightarrow> json" where
  "outputServer s = JObj
    [(''listen'', JStr (sc_listen s)), (''read_header_timeout'', json_duration (sc_read_header_timeout s)),
     (''read_timeout'', json_duration (sc_read_timeout s)), (''write_timeout'', json_duration (sc_write_timeout s)),
     (''idle_timeout'', json_duration (sc_idle_timeout s)), (''max_request_bytes'', json_uint (sc_max_request_bytes s))]"

definition outputDatabase :: "database_config \<Rightarrow> json" where
  "outputDatabase d = JObj
    [(''engine'', JStr (db_engine d)), (''url_env'', JStr (db_url_env d)), (''auth_token_env'', JStr (db_auth_token_env d)),
     (''max_open_connections'', json_uint (db_max_open d)), (''max_idle_connections'', json_uint (db_max_idle d)),
     (''connection_max_lifetime'', json_duration (db_max_lifetime d))]"

definition outputGmail :: "gmail_config \<Rightarrow> json" where
  "outputGmail g = JObj
    [(''oauth_client_id_env'', JStr (gm_client_id_env g)), (''oauth_client_secret_env'', JStr (gm_client_secret_env g)),
     (''oauth_redirect_url_env'', JStr (gm_redirect_url_env g)), (''scope'', JStr (gm_scope g)),
     (''poll_interval'', json_duration (gm_poll_interval g)), (''poll_jitter'', json_duration (gm_poll_jitter g)),
     (''page_size'', json_uint (gm_page_size g)), (''max_accounts_in_flight'', json_uint (gm_max_accounts g)),
     (''body_excerpt_bytes'', json_uint (gm_excerpt_bytes g)), (''thread_max_messages'', json_uint (gm_thread_max g))]"

definition outputRunWindow :: "run_window \<Rightarrow> json" where
  "outputRunWindow w = JObj [(''timezone'', JStr (rw_timezone w)), (''start'', JStr (rw_start w)), (''end'', JStr (rw_end w))]"

definition outputBackfill :: "backfill_config \<Rightarrow> json" where
  "outputBackfill b = JObj
    [(''enabled'', JBool (bf_enabled b)), (''default_lookback_days'', json_uint (bf_default_days b)),
     (''maximum_lookback_days'', json_uint (bf_maximum_days b)), (''page_size'', json_uint (bf_page_size b)),
     (''current_mail_has_priority'', JBool (bf_current_priority b)), (''run_window'', outputRunWindow (bf_run_window b))]"

definition outputGate :: "gate_policy \<Rightarrow> json" where
  "outputGate g = JObj
    [(''version'', json_uint (g_version g)), (''excluded_labels'', json_strings (g_excluded_labels g)),
     (''suppress_gmail_categories'', json_strings (g_suppress_categories g)),
     (''direct_recipient_is_candidate'', JBool (g_direct_candidate g)), (''mailing_list_is_bulk_signal'', JBool (g_list_bulk g)),
     (''sender_allow_domains'', json_strings (g_allow_domains g)), (''sender_block_domains'', json_strings (g_block_domains g)),
     (''subject_candidate_terms'', json_strings (g_candidate_terms g)), (''subject_urgent_terms'', json_strings (g_urgent_terms g))]"

definition outputReview :: "review_config \<Rightarrow> json" where
  "outputReview r = JObj
    [(''default_page_size'', json_uint (rc_default_page_size r)), (''maximum_page_size'', json_uint (rc_maximum_page_size r)),
     (''automatic_task_creation'', JBool (rc_automatic_tasks r))]"

definition outputRetention :: "retention_config \<Rightarrow> json" where
  "outputRetention r = JObj
    [(''metadata_days'', json_uint (rt_metadata_days r)), (''excerpt_days'', json_uint (rt_excerpt_days r)),
     (''audit_days'', json_uint (rt_audit_days r))]"

definition outputMCP :: "mcp_config \<Rightarrow> json" where
  "outputMCP m = JObj
    [(''enabled'', JBool (mc_enabled m)), (''path'', JStr (mc_path m)), (''bearer_token_env'', JStr (mc_bearer_env m)),
     (''enable_review_writes'', JBool (mc_review_writes m)), (''enable_operator_tools'', JBool (mc_operator_tools m))]"

definition outputConfiguration :: "config \<Rightarrow> json" where
  "outputConfiguration c = JObj
    [(''version'', json_uint (cf_version c)),
     (''capabilities'', outputCapabilities (cf_capabilities c)),
     (''server'', outputServer (cf_server c)),
     (''database'', outputDatabase (cf_database c)),
     (''gmail'', outputGmail (cf_gmail c)),
     (''backfill'', outputBackfill (cf_backfill c)),
     (''gate'', outputGate (cf_gate c)),
     (''review'', outputReview (cf_review c)),
     (''retention'', outputRetention (cf_retention c)),
     (''mcp'', outputMCP (cf_mcp c)),
     (''encryption'', JObj [(''master_key_env'', JStr (en_master_key_env (cf_encryption c)))]),
     (''logging'', JObj [(''level'', JStr (lg_level (cf_logging c))), (''format'', JStr (lg_format (cf_logging c)))])]"

section \<open>Sources\<close>

definition sourceFile :: string where "sourceFile = ''file''"
definition sourceCompiledDefault :: string where "sourceCompiledDefault = ''compiled_default''"

type_synonym node_values = "string \<Rightarrow> yaml_node option"

definition childValues :: "node_values \<Rightarrow> string \<Rightarrow> node_values" where
  "childValues vals key = (case vals key of None \<Rightarrow> Map.empty | Some node \<Rightarrow> mappingValues node)"

definition presentSource :: "node_values \<Rightarrow> string \<Rightarrow> string" where
  "presentSource vals key = (if vals key \<noteq> None then sourceFile else sourceCompiledDefault)"

text \<open>An object that gives each of the named fields its source.\<close>

definition sources_of :: "node_values \<Rightarrow> string list \<Rightarrow> (string \<times> json) list" where
  "sources_of vals keys = map (\<lambda>k. (k, JStr (presentSource vals k))) keys"

definition collectSources :: "yaml_node \<Rightarrow> json" where
  "collectSources root =
    (let rootValues = mappingValues root; backfill = childValues rootValues ''backfill'' in JObj
    [(''version'', JStr (presentSource rootValues ''version'')),
     (''capabilities'', JObj (sources_of (childValues rootValues ''capabilities'')
        [''gmail.read'', ''gmail.current_sync'', ''gmail.backfill'', ''mail.review_read'', ''mail.review_write''])),
     (''server'', JObj (sources_of (childValues rootValues ''server'')
        [''listen'', ''read_header_timeout'', ''read_timeout'', ''write_timeout'', ''idle_timeout'', ''max_request_bytes''])),
     (''database'', JObj (sources_of (childValues rootValues ''database'')
        [''engine'', ''url_env'', ''auth_token_env'', ''max_open_connections'', ''max_idle_connections'', ''connection_max_lifetime''])),
     (''gmail'', JObj (sources_of (childValues rootValues ''gmail'')
        [''oauth_client_id_env'', ''oauth_client_secret_env'', ''oauth_redirect_url_env'', ''scope'', ''poll_interval'', ''poll_jitter'',
         ''page_size'', ''max_accounts_in_flight'', ''body_excerpt_bytes'', ''thread_max_messages''])),
     (''backfill'', JObj (sources_of backfill
        [''enabled'', ''default_lookback_days'', ''maximum_lookback_days'', ''page_size'', ''current_mail_has_priority''] @
        [(''run_window'', JObj (sources_of (childValues backfill ''run_window'') [''timezone'', ''start'', ''end'']))])),
     (''gate'', JObj (sources_of (childValues rootValues ''gate'')
        [''version'', ''excluded_labels'', ''suppress_gmail_categories'', ''direct_recipient_is_candidate'', ''mailing_list_is_bulk_signal'',
         ''sender_allow_domains'', ''sender_block_domains'', ''subject_candidate_terms'', ''subject_urgent_terms''])),
     (''review'', JObj (sources_of (childValues rootValues ''review'') [''default_page_size'', ''maximum_page_size'', ''automatic_task_creation''])),
     (''retention'', JObj (sources_of (childValues rootValues ''retention'') [''metadata_days'', ''excerpt_days'', ''audit_days''])),
     (''mcp'', JObj (sources_of (childValues rootValues ''mcp'')
        [''enabled'', ''path'', ''bearer_token_env'', ''enable_review_writes'', ''enable_operator_tools''])),
     (''encryption'', JObj (sources_of (childValues rootValues ''encryption'') [''master_key_env''])),
     (''logging'', JObj (sources_of (childValues rootValues ''logging'') [''level'', ''format'']))])"

record effective =
  ef_configuration :: config
  ef_sources :: json

definition ParseEffective :: "parselib \<Rightarrow> string \<Rightarrow> problem list + effective" where
  "ParseEffective lib data = (case parseValidated lib data of
     Inl e \<Rightarrow> Inl e
   | Inr (c, root) \<Rightarrow> Inr \<lparr>ef_configuration = c, ef_sources = collectSources root\<rparr>)"

definition LoadEffective :: "parselib \<Rightarrow> file_answers \<Rightarrow> problem list + effective" where
  "LoadEffective lib f = (case readFile f of Inl e \<Rightarrow> Inl e | Inr data \<Rightarrow> ParseEffective lib data)"

definition effective_JSON :: "effective \<Rightarrow> string \<Rightarrow> string option" where
  "effective_JSON e pathSource =
    (if pathSource \<noteq> ''flag'' \<and> pathSource \<noteq> ''environment'' \<and> pathSource \<noteq> ''default'' then None
     else Some (json_indent 0 (JObj
       [(''output_version'', json_uint 2),
        (''path_source'', JStr pathSource),
        (''configuration'', outputConfiguration (ef_configuration e)),
        (''sources'', ef_sources e)]) @ [CHR 0x0A]))"

end
