(* ===== verification/Account_Status.thy ===== *)
theory Account_Status
  imports Config_Values Store_Decisions
begin

text \<open>
  \<^verbatim>\<open>internal/accountstatus/service.go\<close> with the values of \<^verbatim>\<open>internal/accountstatusview/model.go\<close>: a bounded
  snapshot of the accounts for operators. The source is its only read; what \<^verbatim>\<open>ctx.Err()\<close> reports
  after a failed read is a second argument next to the context of the call. The fields the service always
  leaves nil are options.
\<close>

section \<open>Values\<close>

definition status_OutputVersion :: nat where "status_OutputVersion = 1"
definition CursorStatusInitialized :: string where "CursorStatusInitialized = ''initialized''"
definition CursorStatusUninitialized :: string where "CursorStatusUninitialized = ''uninitialized''"
definition AvailabilityNotAvailable :: string where "AvailabilityNotAvailable = ''not_available''"
definition PersistenceNotPersisted :: string where "PersistenceNotPersisted = ''not_persisted''"

record capability_status =
  cs_implementation :: implementation_status
  cs_configuration :: configuration_status
  cs_enabled :: bool

record status_account =
  sa_account :: string
  sa_provider :: string
  sa_state :: string
  sa_version :: int
  sa_reason :: "string option"
  sa_revocation :: string
  sa_cursor :: string
  sa_current_execution :: string
  sa_current_stale :: string
  sa_last_success :: "string option"
  sa_last_error :: "string option"
  sa_backfill_execution :: string
  sa_backfill_checkpoint :: string
  sa_backfill_progress :: "u64 option"

record status_snapshot =
  sn_accounts :: "status_account list"
  sn_current_sync :: capability_status
  sn_backfill :: capability_status

type_synonym status_source = "ctx \<Rightarrow> account_summary list res"

record status_service =
  ss_source :: status_source
  ss_current_sync :: capability_status
  ss_backfill :: capability_status

section \<open>Construction\<close>

definition exactCapability :: "capability list \<Rightarrow> capability_name \<Rightarrow> capability_status option" where
  "exactCapability registry name =
    (case filter (\<lambda>c. ca_name c = name) registry of
       [match] \<Rightarrow>
         if ca_implementation match \<noteq> ImplementationStatusNotImplemented \<or>
            ca_configuration match \<noteq> ConfigurationStatusDisabled \<or> ca_enabled match
         then None
         else Some \<lparr>cs_implementation = ca_implementation match, cs_configuration = ca_configuration match,
           cs_enabled = ca_enabled match\<rparr>
     | _ \<Rightarrow> None)"

definition NewStatusService :: "status_source option \<Rightarrow> capability list \<Rightarrow> status_service res" where
  "NewStatusService source registry = (case source of
     None \<Rightarrow> Inl ErrUnavailable
   | Some src \<Rightarrow>
       (case (exactCapability registry CapabilityGmailCurrentSync, exactCapability registry CapabilityGmailBackfill) of
          (Some currentSync, Some backfill) \<Rightarrow> Inr \<lparr>ss_source = src, ss_current_sync = currentSync, ss_backfill = backfill\<rparr>
        | _ \<Rightarrow> Inl ErrUnavailable))"

section \<open>The snapshot\<close>

definition status_validLifecycleShape :: "account_summary \<Rightarrow> bool" where
  "status_validLifecycleShape summary =
    (if sum_state summary = AccountStateReauthorizationRequired
     then sum_reason summary \<noteq> None \<and> sum_revocation summary = RevocationStatusNone
     else if sum_reason summary \<noteq> None then False
     else if sum_state summary = AccountStateRevoked
     then sum_revocation summary = RevocationStatusPending \<or> sum_revocation summary = RevocationStatusAttempting \<or>
       sum_revocation summary = RevocationStatusConfirmed \<or> sum_revocation summary = RevocationStatusManualActionRequired
     else sum_revocation summary = RevocationStatusNone)"

definition status_reason_ok :: "reauthorization_reason option \<Rightarrow> bool" where
  "status_reason_ok r = (case r of None \<Rightarrow> True | Some x \<Rightarrow> ParseReauthorizationReason (reauthorization_reason_string x) = Inr x)"

definition composeAccount :: "account_summary \<Rightarrow> status_account option" where
  "composeAccount summary =
    (if ParseAccountID (account_id_string (sum_account summary)) \<noteq> Inr (sum_account summary) \<or> sum_provider summary \<noteq> ProviderGmail \<or>
        ParseAccountState (account_state_string (sum_state summary)) \<noteq> Inr (sum_state summary) \<or>
        ParseLifecycleVersion (sum_version summary) \<noteq> Inr (sum_version summary) \<or>
        ParseRevocationStatus (revocation_status_string (sum_revocation summary)) \<noteq> Inr (sum_revocation summary) \<or>
        \<not> status_validLifecycleShape summary
     then None
     else if \<not> status_reason_ok (sum_reason summary) then None
     else Some \<lparr>sa_account = account_id_string (sum_account summary), sa_provider = sum_provider summary,
       sa_state = account_state_string (sum_state summary), sa_version = sum_version summary,
       sa_reason = map_option reauthorization_reason_string (sum_reason summary),
       sa_revocation = revocation_status_string (sum_revocation summary),
       sa_cursor = (if sum_cursor_present summary then CursorStatusInitialized else CursorStatusUninitialized),
       sa_current_execution = AvailabilityNotAvailable, sa_current_stale = PersistenceNotPersisted,
       sa_last_success = None, sa_last_error = None, sa_backfill_execution = AvailabilityNotAvailable,
       sa_backfill_checkpoint = PersistenceNotPersisted, sa_backfill_progress = None\<rparr>)"

text \<open>The loop: every summary composes, and the identifiers strictly increase.\<close>

fun compose_accounts :: "string \<Rightarrow> account_summary list \<Rightarrow> status_account list option" where
  "compose_accounts previous [] = Some []"
| "compose_accounts previous (summary # rest) = (case composeAccount summary of
     None \<Rightarrow> None
   | Some a \<Rightarrow> if previous \<noteq> [] \<and> strings_compare previous (sa_account a) \<ge> 0 then None
       else map_option ((#) a) (compose_accounts (sa_account a) rest))"

definition Snapshot :: "status_service \<Rightarrow> ctx \<Rightarrow> ctx \<Rightarrow> status_snapshot res" where
  "Snapshot service ctx after = (case ss_source service ctx of
     Inl _ \<Rightarrow> (case after of Some e \<Rightarrow> Inl (ErrJoin ErrUnavailable e) | None \<Rightarrow> Inl ErrUnavailable)
   | Inr summaries \<Rightarrow>
       if length summaries > MaximumAccountList then Inl ErrUnavailable
       else (case compose_accounts [] summaries of
         None \<Rightarrow> Inl ErrUnavailable
       | Some as \<Rightarrow> Inr \<lparr>sn_accounts = as, sn_current_sync = ss_current_sync service, sn_backfill = ss_backfill service\<rparr>))"

section \<open>On a reachable store\<close>

definition status_of :: "store \<Rightarrow> account_id \<Rightarrow> status_account" where
  "status_of s i = the (composeAccount (summary_of s i (the (fmlookup (lifecycles s) i))))"

lemma summary_composes:
  assumes "store_inv s" and "fmlookup (lifecycles s) i = Some l"
  shows "composeAccount (summary_of s i l) = Some \<lparr>sa_account = account_id_string i, sa_provider = ProviderGmail,
    sa_state = account_state_string (lc_state l), sa_version = lc_version l,
    sa_reason = map_option reauthorization_reason_string (lc_reason l), sa_revocation = revocation_status_string (lc_revocation l),
    sa_cursor = (if fmlookup (cursors s) i \<noteq> None then ''initialized'' else ''uninitialized''),
    sa_current_execution = ''not_available'', sa_current_stale = ''not_persisted'', sa_last_success = None, sa_last_error = None,
    sa_backfill_execution = ''not_available'', sa_backfill_checkpoint = ''not_persisted'', sa_backfill_progress = None\<rparr>"
proof -
  have ok: "lifecycle_ok i l" "account_id_valid i"
    using assms unfolding store_inv_def lifecycles_inv_def accounts_inv_def by (metis option.exhaust option.distinct(1))+
  have "ParseAccountState (account_state_string (lc_state l)) = Inr (lc_state l)"
    using ok(1) by (cases "lc_state l") (simp_all add: ParseAccountState_def lifecycle_ok_def)
  moreover have reason: "x \<noteq> ReauthorizationReasonZero \<Longrightarrow> ParseReauthorizationReason (reauthorization_reason_string x) = Inr x" for x
    by (cases x) (simp_all add: ParseReauthorizationReason_def)
  then have rest: "status_validLifecycleShape (summary_of s i l)" "status_reason_ok (lc_reason l)"
    "ParseRevocationStatus (revocation_status_string (lc_revocation l)) = Inr (lc_revocation l)"
    using ok(1) by (auto simp: status_validLifecycleShape_def status_reason_ok_def summary_of_def lifecycle_ok_def validLifecycleShape_def
        revoked_status_def reauthorization_reason_valid_def ParseRevocationStatus_def split: if_splits option.splits)
  ultimately show ?thesis using ok rest
    by (simp add: composeAccount_def summary_of_def lifecycle_ok_def ParseLifecycleVersion_def CursorStatusInitialized_def
        CursorStatusUninitialized_def AvailabilityNotAvailable_def PersistenceNotPersisted_def)
qed

lemma compose_sorted:
  assumes "store_inv s" and "sorted_wrt (<) ids" and "\<forall>i\<in>set ids. fmlookup (lifecycles s) i \<noteq> None"
    and "previous = [] \<or> (\<forall>i\<in>set ids. previous < account_id_string i)"
  shows "compose_accounts previous (map (\<lambda>i. summary_of s i (the (fmlookup (lifecycles s) i))) ids) = Some (map (status_of s) ids)"
  using assms(2-4)
proof (induction ids arbitrary: previous)
  case (Cons i ids)
  then obtain l where l: "fmlookup (lifecycles s) i = Some l" by auto
  note c = summary_composes [OF assms(1) l]
  have st: "status_of s i = the (composeAccount (summary_of s i l))" by (simp add: status_of_def l)
  have "compose_accounts (account_id_string i) (map (\<lambda>i. summary_of s i (the (fmlookup (lifecycles s) i))) ids) = Some (map (status_of s) ids)"
    using Cons.prems by (intro Cons.IH) (auto simp: less_account_id_def)
  moreover have "\<not> (previous \<noteq> [] \<and> strings_compare previous (account_id_string i) \<ge> 0)"
    using Cons.prems(3) by (auto simp: strings_compare_def)
  ultimately show ?case using c by (simp add: l st)
qed simp

lemma exactCapability_disabled: "exactCapability registry name = Some cap \<Longrightarrow> \<not> cs_enabled cap"
  by (auto simp: exactCapability_def split: list.splits if_splits)

lemma snapshot_reachable:
  assumes "reachable s" and "NewStatusService (Some (\<lambda>c. ListAccounts c s)) registry = Inr svc"
  shows "Snapshot svc None None = (if fcard (fmdom (accounts s)) > MaximumAccountList then Inl ErrUnavailable
    else Inr \<lparr>sn_accounts = map (status_of s) (sorted_list_of_fset (fmdom (lifecycles s))), sn_current_sync = ss_current_sync svc,
      sn_backfill = ss_backfill svc\<rparr>)"
proof -
  note inv = reachable_inv [OF assms(1)]
  let ?ids = "sorted_list_of_fset (fmdom (lifecycles s))"
  have "fmdom (accounts s) = fmdom (lifecycles s)"
    using inv unfolding store_inv_def accounts_inv_def by (intro fset_eqI) (metis fmdom_notD fmdom_notI)
  then have len: "length ?ids = fcard (fmdom (accounts s))" by (simp add: sorted_list_of_fset.rep_eq fcard.rep_eq)
  have src: "ss_source svc = (\<lambda>c. ListAccounts c s)" using assms(2) by (auto simp: NewStatusService_def split: option.splits prod.splits)
  have "compose_accounts [] (map (\<lambda>i. summary_of s i (the (fmlookup (lifecycles s) i))) ?ids) = Some (map (status_of s) ?ids)"
    by (rule compose_sorted [OF inv]) (auto simp: sorted_list_of_fset.rep_eq strict_sorted_iff fmlookup_dom_iff)
  then show ?thesis unfolding Snapshot_def src ListAccounts_def len [symmetric] by (simp add: Let_def)
qed

text \<open>
  C32 (account_snapshot_exact): The snapshot is exact. On every store a history of operations reaches, the service shows each
  account once, in increasing order of identifiers, with its state, version, reason, revocation status and
  whether it has a cursor, or answers that it is unavailable because there are more accounts than the limit;
  it never refuses a stored account as malformed. The two synchronization capabilities it shows are
  disabled, and a failed read under a cancelled context carries both errors.
\<close>

theorem account_snapshot_exact:
  assumes "reachable s" and "NewStatusService (Some (\<lambda>c. ListAccounts c s)) registry = Inr svc"
  shows "(if fcard (fmdom (accounts s)) > MaximumAccountList then Snapshot svc None None = Inl ErrUnavailable
    else \<exists>snap. Snapshot svc None None = Inr snap \<and>
      map sa_account (sn_accounts snap) = map account_id_string (sorted_list_of_fset (fmdom (accounts s))) \<and>
      (\<forall>i l. fmlookup (lifecycles s) i = Some l \<longrightarrow> (\<exists>a. a \<in> set (sn_accounts snap) \<and> sa_account a = account_id_string i \<and>
        sa_state a = account_state_string (lc_state l) \<and> sa_version a = lc_version l \<and>
        sa_reason a = map_option reauthorization_reason_string (lc_reason l) \<and>
        sa_revocation a = revocation_status_string (lc_revocation l) \<and>
        (sa_cursor a = ''initialized'' \<longleftrightarrow> fmlookup (cursors s) i \<noteq> None))) \<and>
      \<not> cs_enabled (sn_current_sync snap) \<and> \<not> cs_enabled (sn_backfill snap)) \<and>
    Snapshot svc (Some e) (Some e) = Inl (ErrJoin ErrUnavailable e)"
proof -
  note inv = reachable_inv [OF assms(1)] and snap = snapshot_reachable [OF assms]
  have dom: "fmdom (accounts s) = fmdom (lifecycles s)"
    using inv unfolding store_inv_def accounts_inv_def by (intro fset_eqI) (metis fmdom_notD fmdom_notI)
  have src: "ss_source svc = (\<lambda>c. ListAccounts c s)" and caps: "\<not> cs_enabled (ss_current_sync svc)" "\<not> cs_enabled (ss_backfill svc)"
    using assms(2) exactCapability_disabled by (auto simp: NewStatusService_def split: option.splits prod.splits)
  have status: "sa_account (status_of s i) = account_id_string i" "sa_state (status_of s i) = account_state_string (lc_state l)"
    "sa_version (status_of s i) = lc_version l" "sa_reason (status_of s i) = map_option reauthorization_reason_string (lc_reason l)"
    "sa_revocation (status_of s i) = revocation_status_string (lc_revocation l)"
    "sa_cursor (status_of s i) = ''initialized'' \<longleftrightarrow> fmlookup (cursors s) i \<noteq> None" if "fmlookup (lifecycles s) i = Some l" for i l
    using summary_composes [OF inv that] by (simp_all add: status_of_def that)
  have ids: "map sa_account (map (status_of s) (sorted_list_of_fset (fmdom (lifecycles s)))) = map account_id_string (sorted_list_of_fset (fmdom (lifecycles s)))"
    using status(1) by (auto simp: fmlookup_dom_iff)
  have "\<exists>a. a \<in> set (map (status_of s) (sorted_list_of_fset (fmdom (lifecycles s)))) \<and> a = status_of s i"
    if "fmlookup (lifecycles s) i = Some l" for i l
    using that by (auto simp: fmlookup_dom_iff)
  then have mem: "\<exists>a. a \<in> set (map (status_of s) (sorted_list_of_fset (fmdom (lifecycles s)))) \<and> sa_account a = account_id_string i \<and>
      sa_state a = account_state_string (lc_state l) \<and> sa_version a = lc_version l \<and>
      sa_reason a = map_option reauthorization_reason_string (lc_reason l) \<and> sa_revocation a = revocation_status_string (lc_revocation l) \<and>
      (sa_cursor a = ''initialized'' \<longleftrightarrow> fmlookup (cursors s) i \<noteq> None)" if "fmlookup (lifecycles s) i = Some l" for i l
    using that status [OF that] by metis
  have "Snapshot svc (Some e) (Some e) = Inl (ErrJoin ErrUnavailable e)"
    by (simp add: Snapshot_def src ListAccounts_def)
  then show ?thesis using snap caps ids mem unfolding dom by (simp split: if_splits)
qed

lemma registry_starts_status:
  assumes "\<not> cc_gmail_current_sync (cf_capabilities c)" and "\<not> cc_gmail_backfill (cf_capabilities c)"
  shows "\<exists>svc. NewStatusService (Some src) (CapabilityRegistry c) = Inr svc"
proof -
  have "exactCapability (CapabilityRegistry c) CapabilityGmailCurrentSync \<noteq> None"
    "exactCapability (CapabilityRegistry c) CapabilityGmailBackfill \<noteq> None"
    using assms by (simp_all add: exactCapability_def CapabilityRegistry_def capabilityRegistryFromDefinitions_def capabilityDefinitions_def
        configurationStatus_def capability_constants Let_def)
  then show ?thesis by (auto simp: NewStatusService_def)
qed

theorem account_snapshot_exact_witness:
  "\<exists>svc snap. NewStatusService (Some (\<lambda>c. ListAccounts c demo_active)) (CapabilityRegistry Defaults) = Inr svc \<and>
    Snapshot svc None None = Inr snap \<and> map sa_account (sn_accounts snap) = [account_id_string demo_id]"
proof -
  obtain svc where svc: "NewStatusService (Some (\<lambda>c. ListAccounts c demo_active)) (CapabilityRegistry Defaults) = Inr svc"
    using registry_starts_status [of Defaults] by (auto simp: Defaults_def)
  have "fmdom (accounts demo_active) = {|demo_id|}" by (simp add: demo_store_defs)
  moreover have "fcard {|demo_id|} \<le> MaximumAccountList" by (simp add: fcard.rep_eq MaximumAccountList_def)
  moreover have "sorted_list_of_fset {|demo_id|} = [demo_id]" by (simp add: sorted_list_of_fset.rep_eq)
  ultimately show ?thesis using svc account_snapshot_exact [OF demo_reachable svc, of Canceled] by (auto split: if_splits)
qed

end
