(* ===== verification/Gate_Eval.thy ===== *)
theory Gate_Eval
  imports Account_Manager Store_Decisions
begin

text \<open>
  \<^verbatim>\<open>internal/gateeval/evaluator.go\<close>: one evaluation of the metadata gate. It reads a message and its
  stored decision, classifies the message under the policy, commits the decision when it is not the
  stored one, and reads it back. Like the account manager it runs in a world of type \<open>'w\<close> of which it
  only sees three storage operations. The clock is the moment it reports, in milliseconds.
\<close>

section \<open>The evaluator\<close>

record 'w eval_store =
  es_GetDiscoveredMessage :: "account_id \<Rightarrow> string \<Rightarrow> ('w, message res) state"
  es_GetGateDecision :: "account_id \<Rightarrow> string \<Rightarrow> ('w, gate_decision_state res) state"
  es_CommitGateDecision :: "gate_decision_commit \<Rightarrow> ('w, go_error option) state"

record 'w evaluator =
  ev_policy :: gate_policy
  ev_store :: "'w eval_store"
  ev_now :: int

definition NewEvaluator :: "golib \<Rightarrow> gate_policy \<Rightarrow> 'w eval_store option \<Rightarrow> int option \<Rightarrow> 'w evaluator res" where
  "NewEvaluator lib policy store now =
    (if ValidatePolicy lib policy \<noteq> None then Inl ErrInvalidRequest
     else case (store, now) of
       (Some st, Some t) \<Rightarrow> Inr \<lparr>ev_policy = policy, ev_store = st, ev_now = t\<rparr>
     | _ \<Rightarrow> Inl ErrInvalidRequest)"

definition decisionMatchesClassification :: "gate_decision \<Rightarrow> classification \<Rightarrow> bool" where
  "decisionMatchesClassification d c \<longleftrightarrow> gd_version d = cl_version c \<and> gd_source_hash d = cl_source_hash c \<and>
     gd_input_hash d = cl_input_hash c \<and> gd_outcome d = cl_outcome c \<and> gd_reasons d = cl_reasons c"

text \<open>How the three kinds of storage error reach the caller.\<close>

definition message_error :: "go_error \<Rightarrow> go_error" where
  "message_error e =
    (if errors_is e (StorageErr ErrAccountNotFound) \<or> errors_is e (StorageErr ErrMessageNotFound) then ErrEvalMessageNotFound
     else if errors_is e Canceled \<or> errors_is e DeadlineExceeded then e else ErrRecoveryRequired)"

definition read_error :: "go_error \<Rightarrow> go_error" where
  "read_error e = (if errors_is e Canceled \<or> errors_is e DeadlineExceeded then e else ErrRecoveryRequired)"

definition commit_error :: "go_error \<Rightarrow> go_error" where
  "commit_error e =
    (if errors_is e (StorageErr ErrGateDecisionConflict) \<or> errors_is e (StorageErr ErrGateDecisionStaleSource) then ErrConflict
     else if errors_is e Canceled \<or> errors_is e DeadlineExceeded then e else ErrRecoveryRequired)"

text \<open>The part after the classification: commit the decision and read it back.\<close>

definition decide :: "'w evaluator \<Rightarrow> account_id \<Rightarrow> string \<Rightarrow> message \<Rightarrow> gate_decision_state option \<Rightarrow> classification \<Rightarrow>
    ('w, gate_decision res) state" where
  "decide e a g message stored classification =
    (case NewGateDecision classification (ev_now e) of
       Inl _ \<Rightarrow> State_Monad.return (Inl ErrInvalidRequest)
     | Inr next \<Rightarrow> do {
         committed \<leftarrow> es_CommitGateDecision (ev_store e) \<lparr>gc_source = message,
           gc_expected = map_option (\<lambda>st. gate_decision_revision (gs_decision st)) stored, gc_next = next\<rparr>;
         (case committed of
            Some err \<Rightarrow> State_Monad.return (Inl (commit_error err))
          | None \<Rightarrow> do {
              durable \<leftarrow> es_GetGateDecision (ev_store e) a g;
              State_Monad.return (case durable of
                  Inl err \<Rightarrow> Inl (read_error err)
                | Inr st \<Rightarrow> if \<not> gs_current st \<or> \<not> decisionMatchesClassification (gs_decision st) classification
                    then Inl ErrRecoveryRequired else Inr (gs_decision st))
            })
       })"

text \<open>The part between the two: what the message and its stored decision call for.\<close>

definition consider_decision :: "golib \<Rightarrow> 'w evaluator \<Rightarrow> account_id \<Rightarrow> string \<Rightarrow> message \<Rightarrow> gate_decision_state res \<Rightarrow>
    ('w, gate_decision res) state" where
  "consider_decision lib e a g message state =
    (case state of
       Inl err \<Rightarrow>
         if \<not> errors_is err (StorageErr ErrGateDecisionNotFound) then State_Monad.return (Inl (read_error err))
         else (case Classify lib message (ev_policy e) of
             Inl _ \<Rightarrow> State_Monad.return (Inl ErrInvalidRequest)
           | Inr classification \<Rightarrow> decide e a g message None classification)
     | Inr st \<Rightarrow>
         (case Classify lib message (ev_policy e) of
            Inl _ \<Rightarrow> State_Monad.return (Inl ErrInvalidRequest)
          | Inr classification \<Rightarrow>
              if gs_current st \<and> decisionMatchesClassification (gs_decision st) classification
              then State_Monad.return (Inr (gs_decision st))
              else decide e a g message (Some st) classification))"

definition Evaluate :: "golib \<Rightarrow> 'w evaluator \<Rightarrow> account_id \<Rightarrow> string \<Rightarrow> ('w, gate_decision res) state" where
  "Evaluate lib e a g =
    (if ParseAccountID (account_id_string a) \<noteq> Inr a \<or> ValidateGmailMessageID g \<noteq> None
     then State_Monad.return (Inl ErrInvalidRequest)
     else do {
       got \<leftarrow> es_GetDiscoveredMessage (ev_store e) a g;
       (case got of
          Inl err \<Rightarrow> State_Monad.return (Inl (message_error err))
        | Inr message \<Rightarrow> do {
            state \<leftarrow> es_GetGateDecision (ev_store e) a g;
            consider_decision lib e a g message state
          })
     })"

section \<open>On the in-memory store\<close>

definition env_eval_store :: "world eval_store" where
  "env_eval_store = \<lparr>
     es_GetDiscoveredMessage = (\<lambda>a g. storage_call (Inl (StorageErr ErrPersistenceUnknown)) (\<lambda>c s. (GetDiscoveredMessage c a g s, s))),
     es_GetGateDecision = (\<lambda>a g. storage_call (Inl (StorageErr ErrPersistenceUnknown)) (\<lambda>c s. (GetGateDecision c a g s, s))),
     es_CommitGateDecision = (\<lambda>cm. storage_call (Some (StorageErr ErrPersistenceUnknown)) (\<lambda>c. CommitGateDecision c cm))\<rparr>"

definition env_evaluator :: "gate_policy \<Rightarrow> int \<Rightarrow> world evaluator" where
  "env_evaluator policy now = \<lparr>ev_policy = policy, ev_store = env_eval_store, ev_now = now\<rparr>"

lemma Classify_source: "Classify lib m p = Inr c \<Longrightarrow> cl_source_hash c = msg_hash m"
  by (auto simp: Classify_def Let_def DecodeClassification_Inr split: if_splits sum.splits option.splits prod.splits)
lemma GetGateDecision_Inr:
  assumes "GetGateDecision c a g s = Inr st"
  shows "c = None \<and> (\<exists>m. message_at s a g = Some m \<and> gs_current st = (gd_source_hash (gs_decision st) = msg_hash m))"
  using assms by (auto simp: GetGateDecision_def split: option.splits if_splits sum.splits)

lemma GetDiscoveredMessage_Inr:
  assumes "GetDiscoveredMessage c a g s = Inr m" and "store_inv s"
  shows "\<exists>inp. Normalize (account_id_string a) inp = Inr m \<and> msg_gmail_id m = g"
proof -
  obtain m0 where m0: "message_at s a g = Some m0" "DecodeCanonical (account_id_string a) (msg_gmail_id m0) (msg_thread_id m0)
      (md_version (msg_metadata m0)) (msg_json m0) (msg_hash m0) = Inr m"
    using assms(1) by (auto simp: GetDiscoveredMessage_def split: option.splits if_splits sum.splits)
  obtain inp where "Normalize (account_id_string a) inp = Inr m" "mi_gmail_message_id inp = msg_gmail_id m0"
    using DecodeCanonical_Inr_Normalize [OF m0(2)] by blast
  then show ?thesis using Normalize_fields(3) message_at_inv(3) [OF assms(2) m0(1)] by metis
qed

text \<open>What a returned decision stands for, in the store at that moment.\<close>

definition decision_stands :: "golib \<Rightarrow> gate_policy \<Rightarrow> account_id \<Rightarrow> string \<Rightarrow> gate_decision \<Rightarrow> store \<Rightarrow> bool" where
  "decision_stands lib policy a g d s \<longleftrightarrow> GetGateDecision None a g s = Inr \<lparr>gs_decision = d, gs_current = True\<rparr> \<and>
     (\<exists>m inp c m'. Normalize (account_id_string a) inp = Inr m \<and> msg_gmail_id m = g \<and> Classify lib m policy = Inr c \<and>
       decisionMatchesClassification d c \<and> message_at s a g = Some m' \<and> msg_hash m' = msg_hash m)"

lemma decision_stands_read:
  assumes "GetGateDecision None a g s = Inr st" and "gs_current st" and "decisionMatchesClassification (gs_decision st) c"
    and "Classify lib m policy = Inr c" and "Normalize (account_id_string a) inp = Inr m" and "msg_gmail_id m = g"
  shows "decision_stands lib policy a g (gs_decision st) s"
proof -
  obtain m' where m': "message_at s a g = Some m'" "gd_source_hash (gs_decision st) = msg_hash m'"
    using GetGateDecision_Inr [OF assms(1)] assms(2) by auto
  moreover have "gd_source_hash (gs_decision st) = msg_hash m"
    using assms(3) Classify_source [OF assms(4)] by (simp add: decisionMatchesClassification_def)
  moreover have "st = \<lparr>gs_decision = gs_decision st, gs_current = True\<rparr>" using assms(2) by (cases st) simp
  ultimately show ?thesis using assms unfolding decision_stands_def by metis
qed

abbreviation eval_post :: "golib \<Rightarrow> gate_policy \<Rightarrow> account_id \<Rightarrow> string \<Rightarrow> gate_decision res \<Rightarrow> world \<Rightarrow> bool" where
  "eval_post lib policy a g r w \<equiv> \<forall>d. r = Inr d \<longrightarrow> decision_stands lib policy a g d (w_store w)"

lemma read_decision_triple:
  "triple world_good (es_GetGateDecision env_eval_store a g)
    (\<lambda>r w. world_good w \<and> (\<forall>st. r = Inr st \<longrightarrow> GetGateDecision None a g (w_store w) = Inr st))"
  unfolding triple_def
proof (intro allI impI)
  fix w assume w: "world_good w"
  obtain r w' where run: "run_state (es_GetGateDecision env_eval_store a g) w = (r, w')" by fastforce
  from run have "run_state (storage_call (Inl (StorageErr ErrPersistenceUnknown)) (\<lambda>c s. (GetGateDecision c a g s, s))) w = (r, w')"
    by (simp add: env_eval_store_def)
  note call = read_call [OF this w]
  have "GetGateDecision None a g (w_store w') = Inr st" if "r = Inr st" for st
    using call that GetGateDecision_Inr by fastforce
  then show "world_good (snd (run_state (es_GetGateDecision env_eval_store a g) w)) \<and>
      (\<forall>st. fst (run_state (es_GetGateDecision env_eval_store a g) w) = Inr st \<longrightarrow>
        GetGateDecision None a g (w_store (snd (run_state (es_GetGateDecision env_eval_store a g) w))) = Inr st)"
    using call run by simp
qed

lemma read_message_triple:
  "triple world_good (es_GetDiscoveredMessage env_eval_store a g)
    (\<lambda>r w. world_good w \<and> (\<forall>m. r = Inr m \<longrightarrow> (\<exists>inp. Normalize (account_id_string a) inp = Inr m \<and> msg_gmail_id m = g)))"
  unfolding triple_def
proof (intro allI impI)
  fix w assume w: "world_good w"
  obtain r w' where run: "run_state (es_GetDiscoveredMessage env_eval_store a g) w = (r, w')" by fastforce
  from run have "run_state (storage_call (Inl (StorageErr ErrPersistenceUnknown)) (\<lambda>c s. (GetDiscoveredMessage c a g s, s))) w = (r, w')"
    by (simp add: env_eval_store_def)
  note call = read_call [OF this w]
  have "\<exists>inp. Normalize (account_id_string a) inp = Inr m \<and> msg_gmail_id m = g" if "r = Inr m" for m
    using call that GetDiscoveredMessage_Inr [of _ a g "w_store w'" m] by (auto simp: world_good_def)
  then show "world_good (snd (run_state (es_GetDiscoveredMessage env_eval_store a g) w)) \<and>
      (\<forall>m. fst (run_state (es_GetDiscoveredMessage env_eval_store a g) w) = Inr m \<longrightarrow>
        (\<exists>inp. Normalize (account_id_string a) inp = Inr m \<and> msg_gmail_id m = g))"
    using call run by simp
qed

lemma commit_decision_triple: "triple world_good (es_CommitGateDecision env_eval_store cm) (\<lambda>r. world_good)"
  unfolding triple_def
proof (intro allI impI)
  fix w assume w: "world_good w"
  obtain r w' where run: "run_state (es_CommitGateDecision env_eval_store cm) w = (r, w')" by fastforce
  have step: "s' = s \<or> (\<exists>op q. run_op c op s = (q, s'))" if "CommitGateDecision c cm s = (q, s')" for c s q s'
    using that by (metis run_op.simps(8))
  from run have "run_state (storage_call (Some (StorageErr ErrPersistenceUnknown)) (\<lambda>c. CommitGateDecision c cm)) w = (r, w')"
    by (simp add: env_eval_store_def)
  from storage_call_cases [OF this w] step have "world_good w'" by blast
  then show "world_good (snd (run_state (es_CommitGateDecision env_eval_store cm) w))" using run by simp
qed

lemma decide_triple:
  assumes "Classify lib m policy = Inr c" and "Normalize (account_id_string a) inp = Inr m" and "msg_gmail_id m = g"
  shows "triple world_good (decide (env_evaluator policy now) a g m stored c) (eval_post lib policy a g)"
  unfolding decide_def env_evaluator_def evaluator.simps
  by (intro triple_sum triple_return triple_bind [OF commit_decision_triple] triple_option triple_bind [OF read_decision_triple])
    (auto intro: decision_stands_read [OF _ _ _ assms] split: sum.splits if_splits)

lemma Evaluate_triple: "triple world_good (Evaluate lib (env_evaluator policy now) a g) (eval_post lib policy a g)"
proof -
  let ?e = "env_evaluator policy now"
  let ?made = "\<lambda>m. \<exists>inp. Normalize (account_id_string a) inp = Inr m \<and> msg_gmail_id m = g"
  have store: "ev_store ?e = env_eval_store" "ev_policy ?e = policy" by (simp_all add: env_evaluator_def)
  have inner: "triple (\<lambda>w. world_good w \<and> (\<forall>st. state = Inr st \<longrightarrow> GetGateDecision None a g (w_store w) = Inr st))
      (consider_decision lib ?e a g m state) (eval_post lib policy a g)"
    if m: "Normalize (account_id_string a) inp = Inr m" "msg_gmail_id m = g" for state m inp
    unfolding consider_decision_def store
    by (intro triple_sum triple_if triple_return triple_weaken [OF decide_triple [OF _ m]])
      (auto intro: decision_stands_read [OF _ _ _ _ m])
  have read: "triple (\<lambda>w. world_good w \<and> (\<forall>m. got = Inr m \<longrightarrow> ?made m))
      (State_Monad.bind (es_GetGateDecision env_eval_store a g) (consider_decision lib ?e a g m)) (eval_post lib policy a g)"
    if "got = Inr m" for got :: "message res" and m
  proof (cases "?made m")
    case True
    then obtain inp where "Normalize (account_id_string a) inp = Inr m" "msg_gmail_id m = g" by blast
    from triple_bind [OF read_decision_triple inner [OF this]] show ?thesis by (rule triple_weaken) simp_all
  qed (use that in \<open>auto simp: triple_def\<close>)
  show ?thesis
    unfolding Evaluate_def store
    by (intro triple_if triple_return triple_bind [OF read_message_triple] triple_sum read) simp_all
qed

text \<open>
  C27 (gate_eval_truthful): A decision the evaluator returns stands. Whatever other processes do in between and whichever
  storage requests or answers are lost, at the moment of its return the store holds exactly that decision as
  the current one, and it is what the policy decides for a message made by the normalizer for that account and
  identifier whose metadata hash is the one of the stored message.
\<close>

theorem gate_eval_truthful:
  assumes "steps New h (w_store w)" and "run_state (Evaluate lib (env_evaluator policy now) a g) w = (Inr d, w')"
  shows "GetGateDecision None a g (w_store w') = Inr \<lparr>gs_decision = d, gs_current = True\<rparr> \<and>
    (\<exists>m inp c m'. Normalize (account_id_string a) inp = Inr m \<and> msg_gmail_id m = g \<and> Classify lib m policy = Inr c \<and>
      decisionMatchesClassification d c \<and> message_at (w_store w') a g = Some m' \<and> msg_hash m' = msg_hash m)"
proof -
  have "world_good w" using steps_inv [OF assms(1) New_inv] by (simp add: world_good_def)
  then have "eval_post lib policy a g (Inr d) w'" using Evaluate_triple assms(2) unfolding triple_def by (metis fst_conv snd_conv)
  then show ?thesis by (simp add: decision_stands_def)
qed

section \<open>An undisturbed evaluation\<close>

lemma calm_eval_store:
  assumes "w_ahead w = []"
  shows "run_state (es_GetDiscoveredMessage env_eval_store a g) w = (GetDiscoveredMessage None a g (w_store w), w)"
    "run_state (es_GetGateDecision env_eval_store a g) w = (GetGateDecision None a g (w_store w), w)"
    "run_state (es_CommitGateDecision env_eval_store cm) w =
      (fst (CommitGateDecision None cm (w_store w)), w\<lparr>w_store := snd (CommitGateDecision None cm (w_store w))\<rparr>)"
  using assms by (simp_all add: env_eval_store_def calm_call)

text \<open>The message a reader gets, and the decision the policy takes on it.\<close>

lemma stored_message:
  assumes inv: "store_inv s" and m: "message_at s a g = Some m0"
  obtains m inp where "GetDiscoveredMessage None a g s = Inr m" "Normalize (account_id_string a) inp = Inr m" "msg_gmail_id m = g"
    "message_equal m0 m" "account_id_valid a" "ValidateGmailMessageID g = None"
proof -
  note mi = message_at_inv [OF inv m]
  have g: "ValidateGmailMessageID g = None" using message_valid_gmail_id [OF mi(2)] mi(3) by simp
  obtain d where d: "GetDiscoveredMessage None a g s = Inr d" "message_equal m0 d" using GetDiscoveredMessage_stored [OF inv m g] by blast
  obtain inp where "Normalize (account_id_string a) inp = Inr d" "msg_gmail_id d = g" using GetDiscoveredMessage_Inr [OF d(1) inv] by blast
  then show thesis using that d account_valid_inv [OF inv mi(1)] g by blast
qed

lemma calm_commit_decision:
  assumes inv: "store_inv s" and m: "message_at s a g = Some m0" and n: "Normalize (account_id_string a) inp = Inr m" "msg_gmail_id m = g"
    and eq: "message_equal m0 m" and c: "Classify lib m policy = Inr c" and new: "NewGateDecision c now = Inr d"
    and old: "fmlookup (decisions s) (msg_record_id m0) = old" "ex = map_option gate_decision_revision old"
      "\<And>x. old = Some x \<Longrightarrow> \<not> decision_semantic_equal x d \<Longrightarrow> gate_decision_revision x \<noteq> gate_decision_revision d"
  shows "\<exists>s'. CommitGateDecision None \<lparr>gc_source = m, gc_expected = ex, gc_next = d\<rparr> s = (None, s')"
proof -
  have mv: "message_valid m" by (rule Normalize_valid [OF n(1)])
  note mi = message_at_inv [OF inv m]
  have acc: "msg_account m = account_id_string a" using Normalize_fields(1) [OF n(1)] .
  have a: "ParseAccountID (msg_account m) = Inr a" using account_valid_inv [OF inv mi(1)] acc by simp
  have hash: "msg_hash m0 = gd_source_hash d"
    using new Classify_source [OF c] eq by (simp add: NewGateDecision_Inr message_equal_def)
  have rev: "decision_revision_valid (gate_decision_revision x)" if "old = Some x" for x
    using inv_decision_valid [OF inv] old(1) that decision_revision_of_valid by simp
  show ?thesis
    using m n(2) eq a mv mi(1) hash old rev NewGateDecision_valid [OF new] message_valid_gmail_id [OF mv]
    by (auto simp: CommitGateDecision_def SourceAccountID_def Let_def MutableMetadataEqual_def message_equal_def
        simp del: ParseAccountID_Inr split: option.splits)
qed

lemma decide_calm:
  assumes w: "store_inv (w_store w)" "w_ahead w = []" and m: "message_at (w_store w) a g = Some m0"
    and n: "Normalize (account_id_string a) inp = Inr m" "msg_gmail_id m = g" and eq: "message_equal m0 m"
    and c: "Classify lib m policy = Inr c" and new: "NewGateDecision c now = Inr d"
    and old: "fmlookup (decisions (w_store w)) (msg_record_id m0) = old" "map_option (\<lambda>st. gate_decision_revision (gs_decision st)) stored = map_option gate_decision_revision old"
      "\<And>x. old = Some x \<Longrightarrow> \<not> decision_semantic_equal x d \<Longrightarrow> gate_decision_revision x \<noteq> gate_decision_revision d"
  shows "\<exists>x w'. run_state (decide (env_evaluator policy now) a g m stored c) w = (Inr x, w') \<and> decisionMatchesClassification x c \<and>
    (\<exists>D. w' = w\<lparr>w_store := (w_store w)\<lparr>decisions := D\<rparr>\<rparr>) \<and> GetGateDecision None a g (w_store w') = Inr \<lparr>gs_decision = x, gs_current = True\<rparr>"
proof -
  let ?cm = "\<lparr>gc_source = m, gc_expected = map_option gate_decision_revision old, gc_next = d\<rparr>"
  obtain s' where s': "CommitGateDecision None ?cm (w_store w) = (None, s')"
    using calm_commit_decision [OF w(1) m n eq c new old(1) refl old(3)] by blast
  have st: "steps (w_store w) [(None, OpCommitGateDecision ?cm)] s'" using s' by (intro steps_single) simp
  have src: "SourceAccountID ?cm = a"
    using Normalize_fields(1) [OF n(1)] account_valid_inv [OF w(1) message_at_inv(1) [OF w(1) m]] by (simp add: SourceAccountID_def)
  obtain m1 x where x: "message_at (w_store w) a g = Some m1" "msg_hash m1 = gd_source_hash d"
      "fmlookup (decisions s') (msg_record_id m1) = Some x" "decision_semantic_equal x d" "s' = (w_store w)\<lparr>decisions := decisions s'\<rparr>"
    using CommitGateDecision_None [OF s'] src n(2) by auto
  have "message_at s' a g = Some m1" by (subst x(5)) (use x(1) in \<open>simp add: message_at_def\<close>)
  from GetGateDecision_stored [OF steps_inv [OF st w(1)] this x(3)]
  have read: "GetGateDecision None a g s' = Inr \<lparr>gs_decision = x, gs_current = True\<rparr>"
    using x(2,4) by (simp add: decision_semantic_equal_def)
  have match: "decisionMatchesClassification x c"
    using x(4) new by (simp add: decisionMatchesClassification_def decision_semantic_equal_def NewGateDecision_Inr)
  have "run_state (decide (env_evaluator policy now) a g m stored c) w = (Inr x, w\<lparr>w_store := s'\<rparr>)"
    unfolding decide_def env_evaluator_def evaluator.simps new sum.case old(2)
    using w(2) s' read match by (simp add: calm_eval_store)
  then show ?thesis
    using match read arg_cong [OF x(5), of "\<lambda>s. w\<lparr>w_store := s\<rparr>"] arg_cong [OF x(5), of "GetGateDecision None a g"]
    by (intro exI [of _ x] exI [of _ "w\<lparr>w_store := s'\<rparr>"] conjI exI [of _ "decisions s'"]) simp_all
qed

lemma evaluate_settles:
  assumes "steps New h (w_store w)" and "w_ahead w = []" and "message_at (w_store w) a g = Some m0" and "ValidatePolicy lib policy = None"
    and "0 \<le> now" and "now \<le> MaximumGateEvaluationUnixMS"
    and "\<And>x. fmlookup (decisions (w_store w)) (msg_record_id m0) = Some x \<Longrightarrow>
      gd_version x \<noteq> GateVersion1 \<or> gd_input_hash x \<noteq> deriveInputHash (msg_hash m0) policy"
  shows "\<exists>d w'. run_state (Evaluate lib (env_evaluator policy now) a g) w = (Inr d, w') \<and>
    run_state (Evaluate lib (env_evaluator policy later) a g) w' = (Inr d, w')"
proof -
  have inv: "store_inv (w_store w)" using steps_inv [OF assms(1) New_inv] .
  obtain m inp where m: "GetDiscoveredMessage None a g (w_store w) = Inr m" "Normalize (account_id_string a) inp = Inr m" "msg_gmail_id m = g"
    "message_equal m0 m" "account_id_valid a" "ValidateGmailMessageID g = None"
    using stored_message [OF inv assms(3)] .
  let ?c = "gate_result lib m policy" and ?old = "fmlookup (decisions (w_store w)) (msg_record_id m0)"
  have c: "Classify lib m policy = Inr ?c" by (rule Classify_eq [OF m(2) assms(4)])
  have hash: "msg_hash m = msg_hash m0" using m(4) by (simp add: message_equal_def)
  have "validLowerHex (msg_hash m) 64" unfolding Normalize_fields(5) [OF m(2)] by (rule validLowerHex_sha256)
  then have "classification_valid ?c" by (rule DecodeClassification_valid [OF gate_result_valid])
  then obtain d where d: "NewGateDecision ?c now = Inr d" using assms(5,6) by (auto simp: NewGateDecision_Inr)
  have rev: "gate_decision_revision x \<noteq> gate_decision_revision d" "\<not> decisionMatchesClassification x ?c" if "?old = Some x" for x
    using assms(7) [OF that] d hash
    by (auto simp: gate_decision_revision_def NewGateDecision_Inr gate_result_def Let_def decisionMatchesClassification_def)
  have first: "run_state (Evaluate lib (env_evaluator policy now) a g) w =
      run_state (decide (env_evaluator policy now) a g m (map_option (\<lambda>x. \<lparr>gs_decision = x, gs_current = (gd_source_hash x = msg_hash m0)\<rparr>) ?old) ?c) w"
  proof (cases ?old)
    case None
    then have "GetGateDecision None a g (w_store w) = Inl (StorageErr ErrGateDecisionNotFound)"
      using assms(3) m(5,6) message_at_inv(1) [OF inv assms(3)] by (simp add: GetGateDecision_def)
    then show ?thesis using None m c assms(2)
      by (simp add: Evaluate_def env_evaluator_def calm_eval_store consider_decision_def)
  next
    case (Some x)
    from GetGateDecision_stored [OF inv assms(3) Some] show ?thesis using Some m c assms(2) rev(2) [OF Some]
      by (simp add: Evaluate_def env_evaluator_def calm_eval_store consider_decision_def)
  qed
  obtain x w' D where run: "run_state (Evaluate lib (env_evaluator policy now) a g) w = (Inr x, w')" "decisionMatchesClassification x ?c"
      "w' = w\<lparr>w_store := (w_store w)\<lparr>decisions := D\<rparr>\<rparr>" "GetGateDecision None a g (w_store w') = Inr \<lparr>gs_decision = x, gs_current = True\<rparr>"
    using decide_calm [OF inv assms(2,3) m(2-4) c d refl, of "map_option (\<lambda>x. \<lparr>gs_decision = x, gs_current = (gd_source_hash x = msg_hash m0)\<rparr>) ?old"] rev(1) first
    by (auto simp: option.map_comp o_def)
  have "GetDiscoveredMessage None a g ((w_store w)\<lparr>decisions := D\<rparr>) = GetDiscoveredMessage None a g (w_store w)"
    by (simp add: GetDiscoveredMessage_def message_at_def)
  then have "GetDiscoveredMessage None a g (w_store w') = Inr m" using m(1) unfolding run(3) by simp
  then have "run_state (Evaluate lib (env_evaluator policy later) a g) w' = (Inr x, w')"
    using run(2,4) m(5,6) c assms(2) run(3) by (simp add: Evaluate_def env_evaluator_def calm_eval_store consider_decision_def)
  then show ?thesis using run(1) by blast
qed

text \<open>
  C28 (gate_eval_settles): An undisturbed evaluation of a stored message settles it. Under a valid policy and a clock in
  range it returns a decision, provided no different decision is stored under the same input; evaluating
  again, at any other time, returns the same decision and changes nothing.
\<close>

theorem gate_eval_settles:
  assumes "steps New h (w_store w)" and "w_ahead w = []" and "message_at (w_store w) a g = Some m0" and "ValidatePolicy lib policy = None"
    and "0 \<le> now" and "now \<le> MaximumGateEvaluationUnixMS"
    and "\<And>x. fmlookup (decisions (w_store w)) (msg_record_id m0) = Some x \<Longrightarrow>
      gd_version x \<noteq> GateVersion1 \<or> gd_input_hash x \<noteq> deriveInputHash (msg_hash m0) policy"
  shows "\<exists>d w'. run_state (Evaluate lib (env_evaluator policy now) a g) w = (Inr d, w') \<and>
    run_state (Evaluate lib (env_evaluator policy later) a g) w' = (Inr d, w')"
  by (rule evaluate_settles) (rule assms, assumption?)+

definition demo_inbox :: world where
  "demo_inbox = \<lparr>w_store = demo_mailbox, w_ahead = [], w_replies = [], w_requests = []\<rparr>"

lemma demo_inbox_facts:
  "steps New (demo_history @ [(None, OpCommitCurrentDiscovery demo_commit)]) (w_store demo_inbox)" "w_ahead demo_inbox = []"
  "message_at (w_store demo_inbox) demo_id ''m1'' = Some demo_message" "decisions (w_store demo_inbox) = fmempty"
  using demo_mailbox_steps demo_stored demo_mailbox_frame(3) by (simp_all add: demo_inbox_def)

lemma demo_range: "0 \<le> MaximumGateEvaluationUnixMS"
  by (simp add: MaximumGateEvaluationUnixMS_def)

theorem gate_eval_truthful_witness:
  "\<exists>d s. GetGateDecision None demo_id ''m1'' s = Inr \<lparr>gs_decision = d, gs_current = True\<rparr>"
proof -
  have "\<exists>d w'. run_state (Evaluate demo_lib (env_evaluator demo_policy 0) demo_id ''m1'') demo_inbox = (Inr d, w') \<and>
      run_state (Evaluate demo_lib (env_evaluator demo_policy 0) demo_id ''m1'') w' = (Inr d, w')"
    by (rule evaluate_settles [OF demo_inbox_facts(1-3) demo_policy_valid order.refl demo_range]) (simp add: demo_inbox_facts(4))
  then obtain d w' where "run_state (Evaluate demo_lib (env_evaluator demo_policy 0) demo_id ''m1'') demo_inbox = (Inr d, w')"
    by (elim exE conjE)
  then show ?thesis using gate_eval_truthful [OF demo_inbox_facts(1)] by blast
qed

theorem gate_eval_settles_witness:
  "\<exists>d w'. run_state (Evaluate demo_lib (env_evaluator demo_policy 0) demo_id ''m1'') demo_inbox = (Inr d, w') \<and>
    run_state (Evaluate demo_lib (env_evaluator demo_policy 7) demo_id ''m1'') w' = (Inr d, w')"
  by (rule gate_eval_settles [OF demo_inbox_facts(1-3) demo_policy_valid order.refl demo_range]) (simp add: demo_inbox_facts(4))

end
