(* ===== verification/Config_Properties.thy ===== *)
theory Config_Properties
  imports Config_Structure Config_Effective Account_Status Gate_Eval
begin

text \<open>
  What an accepted configuration guarantees: the document behind it is plain and within its limits, and the
  services built from it start.
\<close>

section \<open>Accepted configurations\<close>

lemma parseValidated_Inr:
  assumes "parseValidated lib data = Inr (c, root)"
  shows "length data \<le> MaxFileBytes \<and> valid_utf8 data \<and> yaml_root lib data = Inr root \<and>
    snd (walkStructure schema ''$'' 1 root (0, [])) = [] \<and> c = fst (decodeConfig root (Defaults, [])) \<and>
    validateConfig (pl_conf lib) c (snd (decodeConfig root (Defaults, []))) = []"
  using assms unfolding parseValidated_def single_def Let_def
  by (auto split: if_splits option.splits sum.splits prod.splits)

lemma validateConfig_Nil:
  assumes "validateConfig lib c ps = []"
  shows "ps = [] \<and> cf_version c = 1 \<and> validateCapabilityDefinitions c capabilityDefinitions [] = [] \<and>
    validateServer (cf_server c) [] = [] \<and> validateDatabase (cf_database c) [] = [] \<and> validateGmail (cf_gmail c) [] = [] \<and>
    validateBackfill lib (cf_backfill c) [] = [] \<and> validateGate (cl_lib lib) (cf_gate c) [] = [] \<and> validateReview (cf_review c) [] = [] \<and>
    validateRetention (cf_retention c) [] = [] \<and> validateMCP (cf_mcp c) [] = []"
proof -
  have fold: "fold (\<lambda>d ps. if P d then ps @ [q d] else ps) ds ps = ps @ map q (filter P ds)" for P q ds and ps :: "problem list"
    by (induction ds arbitrary: ps) auto
  have cap: "validateCapabilityDefinitions c ds ps = [] \<longleftrightarrow> ps = [] \<and> validateCapabilityDefinitions c ds [] = []" for ds ps
    unfolding validateCapabilityDefinitions_def fold by auto
  have srv: "validateServer s ps = [] \<longleftrightarrow> ps = [] \<and> validateServer s [] = []" for s ps
    unfolding validateServer_def Let_def quiet by auto
  have dat: "validateDatabase s ps = [] \<longleftrightarrow> ps = [] \<and> validateDatabase s [] = []" for s ps
    unfolding validateDatabase_def Let_def quiet by auto
  have gma: "validateGmail s ps = [] \<longleftrightarrow> ps = [] \<and> validateGmail s [] = []" for s ps
    unfolding validateGmail_def Let_def quiet by auto
  have tz: "validateTimezone lib s ps = [] \<longleftrightarrow> ps = [] \<and> validateTimezone lib s [] = []" for s ps
    unfolding validateTimezone_def by (auto simp: report_def)
  have bac: "validateBackfill lib s ps = [] \<longleftrightarrow> ps = [] \<and> validateBackfill lib s [] = []" for s ps
    unfolding validateBackfill_def Let_def quiet tz [of _ "uintRange _ _ _ _ _"] by auto
  have gat: "validateGate l s ps = [] \<longleftrightarrow> ps = [] \<and> validateGate l s [] = []" for l s ps
    unfolding validateGate_def Let_def validateDomains_def validateSubjects_def quiet by auto
  have rev: "validateReview s ps = [] \<longleftrightarrow> ps = [] \<and> validateReview s [] = []" for s ps
    unfolding validateReview_def Let_def quiet by auto
  have ret: "validateRetention s ps = [] \<longleftrightarrow> ps = [] \<and> validateRetention s [] = []" for s ps
    unfolding validateRetention_def Let_def quiet by auto
  have mcp: "validateMCP s ps = [] \<longleftrightarrow> ps = [] \<and> validateMCP s [] = []" for s ps
    unfolding validateMCP_def Let_def quiet by auto
  note a = assms [unfolded validateConfig_def Let_def quiet]
  then have m: "validateMCP (cf_mcp c) (validateRetention (cf_retention c) (validateReview (cf_review c) (validateGate (cl_lib lib) (cf_gate c)
      (validateBackfill lib (cf_backfill c) (validateGmail (cf_gmail c) (validateDatabase (cf_database c) (validateServer (cf_server c)
      (validateCapabilityDefinitions c capabilityDefinitions (equalUint ''version'' (cf_version c) 1 ps))))))))) = []" by blast
  show ?thesis
    using m [unfolded mcp [of _ "validateRetention _ _"] ret [of _ "validateReview _ _"] rev [of _ "validateGate _ _ _"] gat [of _ _ "validateBackfill _ _ _"]
        bac [of _ "validateGmail _ _"] gma [of _ "validateDatabase _ _"] dat [of _ "validateServer _ _"]
        srv [of _ "validateCapabilityDefinitions _ _ _"] cap [of _ "equalUint _ _ _ _"] equalUint_quiet]
    by blast
qed

lemma accepted_valid:
  assumes "config_Parse lib data = Inr c"
  obtains root where "parseValidated lib data = Inr (c, root)" "cf_version c = 1"
    "validateCapabilityDefinitions c capabilityDefinitions [] = []" "validateGate (cl_lib (pl_conf lib)) (cf_gate c) [] = []"
    "validateReview (cf_review c) [] = []"
proof -
  obtain root where p: "parseValidated lib data = Inr (c, root)"
    using assms by (cases "parseValidated lib data") (auto simp: config_Parse_def)
  then have "validateConfig (pl_conf lib) c (snd (decodeConfig root (Defaults, []))) = []" using parseValidated_Inr by blast
  from validateConfig_Nil [OF this] p show thesis by (intro that) simp_all
qed

lemma accepted_conforms:
  assumes "parseValidated lib data = Inr (c, root)"
  shows "conforms 1 schema root \<and> count_node root \<le> MaxNodes"
proof -
  note p = parseValidated_Inr [OF assms]
  let ?w = "walkStructure schema ''$'' 1 root (0, [])"
  have w: "?w = (fst ?w, [])" using p by (simp add: prod_eq_iff)
  have "validateGate (cl_lib (pl_conf lib)) (cf_gate (fst (decodeConfig root (Defaults, [])))) [] = []"
    using validateConfig_Nil p by metis
  from schema_bound [OF this] have "fst ?w \<le> MaxNodes" using w unfolding walk_bound_def by (metis add_0 MaxNodes_def)
  then show ?thesis using walk_sound(1) [OF w] by simp
qed

text \<open>
  C29 (config_document_conforms): A configuration is accepted only from a plain document within the limits: one YAML document of
  at most 65536 valid UTF-8 bytes whose root conforms to the schema, with known and unrepeated string keys
  and without anchors, aliases, merge keys, custom tags, nulls and control characters, of at most 4096
  nodes, keys included. The walk alone does not ensure this, since it can pass the node limit silently;
  the bounds on the lists of the gate close the gap.
\<close>

theorem config_document_conforms:
  assumes "config_Parse lib data = Inr c"
  shows "\<exists>document root. YamlDecode lib data 0 = YamlNode document \<and> YamlDecode lib data 1 = YamlEOF \<and> y_content document = [root] \<and>
    conforms 1 schema root \<and> count_node root \<le> MaxNodes \<and> length data \<le> MaxFileBytes \<and> valid_utf8 data \<and> cf_version c = 1"
proof -
  obtain root where p: "parseValidated lib data = Inr (c, root)" "cf_version c = 1" using accepted_valid [OF assms] .
  note f = parseValidated_Inr [OF p(1)]
  obtain document where "YamlDecode lib data 0 = YamlNode document" "YamlDecode lib data 1 = YamlEOF" "y_content document = [root]"
    using f by (auto simp: yaml_root_def single_def split: yaml_answer.splits list.splits if_splits)
  then show ?thesis using accepted_conforms [OF p(1)] p(2) f by blast
qed

text \<open>
  C31 (structure_walk_exact): On a document within the node limit the structural walk reports no problem exactly when the
  document conforms to the schema, for every schema, path and depth; it counts every node once, and on a
  document that conforms it leaves the problems found before untouched.
\<close>

theorem structure_walk_exact:
  assumes "count_node n \<le> MaxNodes"
  shows "(snd (walkStructure e p d n (0, [])) = [] \<longleftrightarrow> conforms d e n) \<and>
    (conforms d e n \<longrightarrow> walkStructure e p d n (0, ps) = (count_node n, ps))"
  using walk_exact [OF assms] walk_complete(1) [of d e n "(0, ps)" p] assms by simp

text \<open>
  The configuration package and the gate accept the same policies. The hypothesis states what the
  documentation of \<^verbatim>\<open>unicode.SimpleFold\<close> says of its table.
\<close>

theorem config_gate_agree:
  assumes "fold_table lib"
  shows "validateGate lib g [] = [] \<longleftrightarrow> ValidatePolicy lib g = None"
  using validateGate_iff [OF assms, of g "[]"] by simp

section \<open>Starting the services\<close>

lemma validate_capabilities_Nil:
  assumes "validateCapabilityDefinitions c ds [] = []" and "d \<in> set ds" and "cn_binding d \<noteq> capabilityConfigNone"
    and "capabilityConfigured c (cn_binding d)"
  shows "cn_implementation d = ImplementationStatusImplemented"
proof -
  have fold: "fold (\<lambda>d ps. if P d then ps @ [q d] else ps) ds ps = ps @ map q (filter P ds)" for P q ds and ps :: "problem list"
    by (induction ds arbitrary: ps) auto
  show ?thesis using assms unfolding validateCapabilityDefinitions_def fold by (auto simp: filter_empty_conv)
qed

lemma unimplemented_off:
  assumes "validateCapabilityDefinitions c capabilityDefinitions [] = []"
  shows "\<not> cc_gmail_current_sync (cf_capabilities c) \<and> \<not> cc_gmail_backfill (cf_capabilities c)"
proof -
  have "\<exists>d\<in>set capabilityDefinitions. cn_binding d = b \<and> cn_implementation d = ImplementationStatusNotImplemented"
    if "b = capabilityConfigGmailCurrentSync \<or> b = capabilityConfigGmailBackfill" for b
    using that unfolding capabilityDefinitions_def by auto
  moreover have "ImplementationStatusNotImplemented \<noteq> ImplementationStatusImplemented" by (simp add: capability_constants)
  ultimately show ?thesis using validate_capabilities_Nil [OF assms]
    by (metis capabilityConfigured.simps capability_binding.distinct)
qed

lemma registry_entry:
  assumes "x \<in> set (CapabilityRegistry c)"
  obtains d where "d \<in> set capabilityDefinitions" "ca_implementation x = cn_implementation d" "ca_security x = cn_security d"
    "ca_configuration x = configurationStatus c (cn_binding d)" "ca_enabled x \<longrightarrow> cn_implementation d = ImplementationStatusImplemented"
proof -
  obtain d where "d \<in> set capabilityDefinitions" "[x] = capabilityRegistryFromDefinitions c [d]"
    using assms by (auto simp: CapabilityRegistry_def capabilityRegistryFromDefinitions_def)
  then show thesis by (intro that [of d]) (simp_all add: capabilityRegistryFromDefinitions_def Let_def)
qed

lemma implemented_allowed:
  "d \<in> set capabilityDefinitions \<Longrightarrow> cn_implementation d = ImplementationStatusImplemented \<Longrightarrow> cn_security d \<noteq> SecurityProhibited"
proof -
  have "list_all (\<lambda>d. cn_implementation d = ImplementationStatusImplemented \<longrightarrow> cn_security d \<noteq> SecurityProhibited) capabilityDefinitions"
    by code_simp
  then show "d \<in> set capabilityDefinitions \<Longrightarrow> cn_implementation d = ImplementationStatusImplemented \<Longrightarrow> cn_security d \<noteq> SecurityProhibited"
    by (simp add: list_all_iff)
qed

lemma registry_enabled:
  assumes "x \<in> set (CapabilityRegistry c)" and "validateCapabilityDefinitions c capabilityDefinitions [] = []"
  shows "(ca_enabled x \<longrightarrow> ca_implementation x = ImplementationStatusImplemented \<and> ca_security x \<noteq> SecurityProhibited) \<and>
    (ca_configuration x = ConfigurationStatusEnabled \<longrightarrow> ca_implementation x = ImplementationStatusImplemented)"
proof -
  obtain d where d: "d \<in> set capabilityDefinitions" "ca_implementation x = cn_implementation d" "ca_security x = cn_security d"
    "ca_configuration x = configurationStatus c (cn_binding d)" "ca_enabled x \<longrightarrow> cn_implementation d = ImplementationStatusImplemented"
    using registry_entry [OF assms(1)] .
  have "cn_binding d \<noteq> capabilityConfigNone \<and> capabilityConfigured c (cn_binding d)" if "ca_configuration x = ConfigurationStatusEnabled"
    using that unfolding d(4) by (simp add: configurationStatus_def ConfigurationStatusEnabled_def ConfigurationStatusNotConfigurable_def
        ConfigurationStatusDisabled_def split: if_splits)
  then show ?thesis using d implemented_allowed validate_capabilities_Nil [OF assms(2) d(1)] by metis
qed

text \<open>
  C30 (config_services_start): The services start from every accepted configuration: the gate evaluator, the review service
  for any 32-byte key, and the account status service on the registry computed from it. Whatever
  capability that registry shows as enabled is implemented, not prohibited and switched on, and a
  capability that is not implemented was not switched on.
\<close>

theorem config_services_start:
  assumes "config_Parse lib data = Inr c" and "fold_table (cl_lib (pl_conf lib))"
  shows "(\<exists>e. NewEvaluator (cl_lib (pl_conf lib)) (cf_gate c) (Some store) (Some now) = Inr e) \<and>
    (length key = cursorMACKeyBytes \<longrightarrow>
      (\<exists>svc. newWithCursorEntropy (cl_lib (pl_conf lib)) (Some source) (cf_gate c) (cf_review c) (Some (Inr key)) = Inr svc)) \<and>
    (\<exists>svc. NewStatusService (Some listing) (CapabilityRegistry c) = Inr svc) \<and>
    (\<forall>x. x \<in> set (CapabilityRegistry c) \<longrightarrow> (ca_enabled x \<longrightarrow> ca_implementation x = ImplementationStatusImplemented \<and>
        ca_security x \<noteq> SecurityProhibited) \<and>
      (ca_configuration x = ConfigurationStatusEnabled \<longrightarrow> ca_implementation x = ImplementationStatusImplemented))"
proof -
  from accepted_valid [OF assms(1)]
  have caps: "validateCapabilityDefinitions c capabilityDefinitions [] = []" and valid: "validateGate (cl_lib (pl_conf lib)) (cf_gate c) [] = []"
    and review: "validateReview (cf_review c) [] = []" by blast+
  have gate: "ValidatePolicy (cl_lib (pl_conf lib)) (cf_gate c) = None" using validateGate_iff [OF assms(2)] valid by simp
  note off = unimplemented_off [OF caps]
  have pages: "rc_default_page_size (cf_review c) \<noteq> 0" "rc_maximum_page_size (cf_review c) \<noteq> 0"
    using review unfolding validateReview_def Let_def quiet by auto
  have "\<exists>e. NewEvaluator (cl_lib (pl_conf lib)) (cf_gate c) (Some store) (Some now) = Inr e"
    using gate by (simp add: NewEvaluator_def)
  moreover have "\<exists>svc. newWithCursorEntropy (cl_lib (pl_conf lib)) (Some source) (cf_gate c) (cf_review c) (Some (Inr key)) = Inr svc"
    if "length key = cursorMACKeyBytes" using gate pages that by (simp add: newWithCursorEntropy_def newWithCursorKey_def)
  moreover have "\<exists>svc. NewStatusService (Some listing) (CapabilityRegistry c) = Inr svc" using registry_starts_status off by blast
  ultimately show ?thesis using registry_enabled [OF _ caps] by blast
qed

lemma Defaults_listen: "validListenAddress ''0.0.0.0:8080''"
proof -
  let ?v = "''0.0.0.0:8080''"
  have t: "isASCII ?v" "\<not> contains ?v ''://''" by code_simp+
  have r: "runes ?v = map bval ?v" by (rule runes_ascii) simp
  have c: "\<not> list_ex (\<lambda>r. is_control r \<or> is_space r) (map bval ?v)" by (simp add: is_control_def is_space_def)
  have s: "SplitHostPort ?v = Some (''0.0.0.0'', ''8080'')" by code_simp
  have "digits_value ''8080'' = 8080" "list_all is_digit ''8080''" by (simp_all add: digits_value_def is_digit_iff)
  then have p: "numericPort ''8080''" "parse_int64 ''8080'' = Some 8080"
    by (simp_all add: numericPort_def digit_char_def in_range_def parse_int64_def parse_uint_def has_prefix_def)
  have ip: "ParseIP ''0.0.0.0''" "parse_ipv4 ''0.0.0.0''" "\<not> has_prefix ?v ''[''" by code_simp+
  show ?thesis unfolding validListenAddress_def r using t c s p ip by simp
qed

lemma Defaults_server: "validateServer (cf_server Defaults) [] = []"
  unfolding validateServer_def Let_def quiet using Defaults_listen by (simp add: Defaults_def Second_def Minute_def)

lemma Defaults_environment:
  "list_all environmentName [''TURSO_DATABASE_URL'', ''TURSO_AUTH_TOKEN'', ''GOOGLE_OAUTH_CLIENT_ID'', ''GOOGLE_OAUTH_CLIENT_SECRET'',
     ''GOOGLE_OAUTH_REDIRECT_URL'', ''INBOXGATE_MCP_TOKEN'', ''INBOXGATE_MASTER_KEY'']"
  by code_simp

lemma Defaults_gmail: "validateDatabase (cf_database Defaults) [] = [] \<and> validateGmail (cf_gmail Defaults) [] = []"
  unfolding validateDatabase_def validateGmail_def Let_def quiet using Defaults_environment
  by (simp add: Defaults_def Second_def Minute_def Hour_def)

lemma Defaults_backfill:
  assumes "LoadLocation lib ''America/Chicago''"
  shows "validateBackfill lib (cf_backfill Defaults) [] = []"
proof -
  have "isASCII ''America/Chicago''" "\<not> has_prefix ''America/Chicago'' ''/''" "\<not> contains ''America/Chicago'' [CHR 0x5C]"
    "\<not> list_ex (\<lambda>segment. segment = [] \<or> segment = ''.'' \<or> segment = ''..'') (split_on (CHR ''/'') ''America/Chicago'')"
    "windowTime ''22:00''" "windowTime ''06:00''" by code_simp+
  then show ?thesis unfolding validateBackfill_def Let_def quiet using assms by (simp add: Defaults_def validateTimezone_def uintRange_def)
qed

lemma Defaults_gate: "validateGate lib (cf_gate Defaults) [] = []"
proof -
  have "labelName ''SPAM''" "labelName ''TRASH''" by code_simp+
  then show ?thesis unfolding validateGate_def Let_def validateDomains_def validateSubjects_def quiet
    by (simp add: Defaults_def unique_from_exact)
qed

lemma Defaults_rest: "validateReview (cf_review Defaults) [] = [] \<and> validateRetention (cf_retention Defaults) [] = []"
  unfolding validateReview_def validateRetention_def Let_def quiet by (simp add: Defaults_def)

lemma Defaults_mcp: "validateMCP (cf_mcp Defaults) [] = []"
proof -
  have "path_Clean ''/mcp'' = ''/mcp''" "has_prefix ''/mcp'' ''/''" "\<not> contains ''/mcp'' ''//''" "safeHTTPPath ''/mcp''" by code_simp+
  then show ?thesis unfolding validateMCP_def Let_def quiet using Defaults_environment by (simp add: Defaults_def del: contains.simps)
qed

lemma Defaults_capabilities: "validateCapabilityDefinitions Defaults capabilityDefinitions [] = []"
  by (simp add: validateCapabilityDefinitions_def capabilityDefinitions_def Defaults_def)

lemma Defaults_valid:
  assumes "LoadLocation lib ''America/Chicago''"
  shows "validateConfig lib Defaults [] = []"
proof -
  have ends: "en_master_key_env (cf_encryption Defaults) = ''INBOXGATE_MASTER_KEY''" "lg_level (cf_logging Defaults) = ''info''"
    "lg_format (cf_logging Defaults) = ''json''" "cf_version Defaults = 1" by (simp_all add: Defaults_def)
  have version: "equalUint ''version'' (cf_version Defaults) 1 [] = []" by (simp add: ends equalUint_def)
  have environment: "environmentName ''INBOXGATE_MASTER_KEY''" using Defaults_environment by simp
  show ?thesis unfolding validateConfig_def Let_def quiet version Defaults_server Defaults_capabilities Defaults_gmail [THEN conjunct1]
      Defaults_gmail [THEN conjunct2] Defaults_backfill [OF assms] Defaults_gate Defaults_rest [THEN conjunct1] Defaults_rest [THEN conjunct2]
      Defaults_mcp
    by (simp add: ends environment)
qed


section \<open>A smallest configuration\<close>

text \<open>
  The document \<^verbatim>\<open>version: 1\<close>, on a library that folds the ASCII letters and knows every time zone.
\<close>

definition demo_document :: yaml_node where
  "demo_document = Node MappingNode 0 ''!!map'' [] [] False [leaf ''!!str'' ''version'', leaf ''!!int'' ''1''] 1 1"

definition demo_parselib :: parselib where
  "demo_parselib = \<lparr>pl_conf = \<lparr>cl_lib = demo_lib, LoadLocation = (\<lambda>_. True)\<rparr>,
     YamlDecode = (\<lambda>_ n. if n = 0 then YamlNode (Node DocumentNode 0 [] [] [] False [demo_document] 1 1) else YamlEOF)\<rparr>"

lemma demo_orbit: "orbit demo_fold r = {r, demo_fold r}"
proof -
  have "orbit demo_fold r = (\<lambda>k. (demo_fold ^^ k) r) ` {..<2}" by (rule orbit_finite [OF demo_fold_twice]) simp
  then show ?thesis by (auto simp: lessThan_Suc numeral_2_eq_2)
qed

lemma demo_fold_table: "fold_table demo_lib"
proof -
  have above: "{x. (x = r \<or> x = demo_fold r) \<and> r < x} = (if r < demo_fold r then {demo_fold r} else {})" for r by auto
  have "rune_valid r \<Longrightarrow> rune_valid (demo_fold r)" for r by (auto simp: demo_fold_def rune_valid_def)
  moreover have "b = a \<or> b = demo_fold a \<longleftrightarrow> 65 \<le> a \<and> a \<le> 90 \<and> b = a + 32" if "a < b" for a b :: nat
    using that by (auto simp: demo_fold_def split: if_splits)
  ultimately show ?thesis unfolding fold_table_def demo_lib_def by (simp add: demo_closes demo_orbit above)
qed

lemma demo_document_conforms: "conforms 1 schema demo_document \<and> count_node demo_document = 3"
proof -
  have key: "plain_key (leaf ''!!str'' ''version'')" "y_value (leaf ''!!str'' ''version'') = ''version''"
    using leaf_key ascii_no_control [of "''version''"] by (simp_all add: leaf_def)
  have one: "conforms 2 Scalar (leaf ''!!int'' ''1'')" "count_node (leaf ''!!int'' ''1'') = 1"
    using leaf_plain [of "''1''" "''!!int''"] ascii_no_control [of "''1''"] by (simp_all add: leaf_def count_node.simps)
  obtain fs where fs: "schema = Mapping fs" "map_of fs ''version'' = Some Scalar" by (simp add: schema_def)
  have "conforms 1 schema demo_document"
    unfolding fs(1) conforms_fields using key one(1) fs(2)
    by (simp add: demo_document_def fields_conform_Cons plain_node_def isCoreTag_def MaxDepth_def numeral_2_eq_2 del: conforms_Scalar)
  moreover have "count_node demo_document = 3"
    using one(2) by (simp add: demo_document_def count_node.simps [of "Node MappingNode a b c d e f h i" for a b c d e f h i])
  ultimately show ?thesis by blast
qed

lemma section_absent: "v k = None \<Longrightarrow> section_at v k dec get upd st = st"
  by (simp add: section_at_def when_present_def)

lemma demo_decode: "decodeConfig demo_document (Defaults, []) = (Defaults, [])"
proof -
  have v: "mappingValues demo_document = [''version'' \<mapsto> leaf ''!!int'' ''1'']"
    by (rule ext) (simp add: demo_document_def leaf_def mappingValues_def)
  have "digits_value ''1'' = 1" "list_all is_digit ''1''" by (simp_all add: digits_value_def is_digit_iff)
  then have "readUint ''version'' (leaf ''!!int'' ''1'') [] = (1, [])"
    by (simp add: readUint_def leaf_def canonical_uint_def in_range_def parse_uint_def)
  then show ?thesis unfolding decodeConfig_def v by (simp add: Let_def section_absent Defaults_def)
qed

lemma demo_Parse: "config_Parse demo_parselib ''version: 1'' = Inr Defaults"
proof -
  have w: "snd (walkStructure schema ''$'' 1 demo_document (0, [])) = []"
    using walk_exact [of demo_document] demo_document_conforms by (simp add: MaxNodes_def)
  have y: "yaml_root demo_parselib ''version: 1'' = Inr demo_document"
    by (simp add: yaml_root_def demo_parselib_def demo_document_def)
  have v: "validateConfig (pl_conf demo_parselib) Defaults [] = []" by (rule Defaults_valid) (simp add: demo_parselib_def)
  have r: "runes ''version: 1'' = map bval ''version: 1''" by (rule runes_ascii) simp
  have c: "invalidCharacter ''version: 1'' = None" by (simp add: invalidCharacter_def r)
  have u: "valid_utf8 ''version: 1''" by (rule valid_utf8_ascii) simp
  have s: "trim_space ''version: 1'' \<noteq> []" by (simp add: trim_space_def chunks_ascii space_chunk_def ascii_decode is_space_def)
  have d: "directiveLine ''version: 1'' = None" "documentEndLine ''version: 1'' = None"
    by (simp_all add: directiveLine_def documentEndLine_def directive_def document_end_def strip_marks.simps has_prefix_def)
  show ?thesis unfolding config_Parse_def parseValidated_def by (simp add: s u d c w [unfolded One_nat_def] y v demo_decode Let_def MaxFileBytes_def)
qed


theorem config_document_conforms_witness:
  "config_Parse demo_parselib ''version: 1'' = Inr Defaults \<and> (\<exists>document root. YamlDecode demo_parselib ''version: 1'' 0 = YamlNode document \<and>
    y_content document = [root] \<and> conforms 1 schema root \<and> count_node root \<le> MaxNodes)"
  using config_document_conforms [OF demo_Parse] demo_Parse by blast

theorem structure_walk_exact_witness: "walkStructure schema ''$'' 1 demo_document (0, []) = (3, [])"
  using structure_walk_exact [of demo_document schema "''$''" 1 "[]"] demo_document_conforms by (simp add: MaxNodes_def)

theorem config_gate_agree_witness: "validateGate demo_lib demo_policy [] = []"
  using config_gate_agree [OF demo_fold_table, of demo_policy] demo_policy_valid by simp

theorem config_services_start_witness:
  "\<exists>e svc. NewEvaluator demo_lib (cf_gate Defaults) (Some env_eval_store) (Some 0) = Inr e \<and>
    NewStatusService (Some (\<lambda>c. ListAccounts c demo_active)) (CapabilityRegistry Defaults) = Inr svc"
proof -
  have "cl_lib (pl_conf demo_parselib) = demo_lib" by (simp add: demo_parselib_def)
  then show ?thesis using config_services_start [OF demo_Parse, of env_eval_store 0 _ _ "\<lambda>c. ListAccounts c demo_active"] demo_fold_table by auto
qed

end
