(* ===== verification/Gmail_Decode.thy ===== *)
theory Gmail_Decode
  imports Storage_Records Go_Net
begin

text \<open>
  \<^verbatim>\<open>internal/gmail/current_discovery_decode.go\<close>: the strict readers of what Gmail answers. A raw message is
  represented by the value it denotes, numbers with their literal text; the checks that the code repeats
  on the bytes of every nested value, valid Unicode and a complete JSON text, are made once where the bytes
  come in, since they hold of a part of a text when they hold of the whole. Every error of the readers is
  the same to their callers, so a failed reader returns \<open>None\<close>. The parsers of \<^verbatim>\<open>mime\<close> and
  \<^verbatim>\<open>net/mail\<close> are parameters.
\<close>

text \<open>
  Of a floating-point number only what the code asks for is kept: whether it is a number, whether it is
  finite, and its sign.
\<close>

datatype go_float = FloatNaN | FloatInf | FloatSign int

record maillib =
  ml_lib :: golib
  DecodeHeader :: "string \<Rightarrow> string option"
  ParseList :: "string \<Rightarrow> (string \<times> string) list option"
  ParseMediaType :: "string \<Rightarrow> (string \<times> (string \<times> string) list) option"
  ParseFloat :: "string \<Rightarrow> go_float option"

section \<open>Limits\<close>

definition MaximumPageTokenBytes :: nat where "MaximumPageTokenBytes = 4096"
definition MaximumMessageHeaderEntries :: nat where "MaximumMessageHeaderEntries = 256"
definition MaximumSelectedHeaderBytes :: nat where "MaximumSelectedHeaderBytes = 65536"
definition MaximumMessagePartDepth :: nat where "MaximumMessagePartDepth = 32"
definition MaximumMessageParts :: nat where "MaximumMessageParts = 1000"
definition MaximumCurrentDiscoveryPageMessages :: nat where "MaximumCurrentDiscoveryPageMessages = 500"
definition maximumAccessTokenBytes :: nat where "maximumAccessTokenBytes = 4096"
definition maximumOAuthExpirySeconds :: nat where "maximumOAuthExpirySeconds = 86400"
definition maximumMIMEFilenameBytes :: nat where "maximumMIMEFilenameBytes = 4096"
definition maximumAttachmentIDBytes :: nat where "maximumAttachmentIDBytes = 4096"

definition validBoundedText :: "string \<Rightarrow> nat \<Rightarrow> bool" where
  "validBoundedText v maximum =
    (if length v > maximum \<or> \<not> valid_utf8 v then False else \<not> list_ex is_control (runes v))"

section \<open>Strict JSON\<close>

definition decodeJSONHexQuad :: "string \<Rightarrow> nat option" where
  "decodeJSONHexQuad s = map_option fst (get_u4 s)"

text \<open>The loop of \<^verbatim>\<open>validJSONUnicode\<close>: inside a string every escaped surrogate must be part of a pair.\<close>

function json_unicode_from :: "bool \<Rightarrow> string \<Rightarrow> bool" where
  "json_unicode_from inString s =
    (case s of
       [] \<Rightarrow> True
     | c # r \<Rightarrow>
         if c = CHR 0x22 then json_unicode_from (\<not> inString) r
         else if c \<noteq> CHR 0x5C \<or> \<not> inString \<or> r = [] then json_unicode_from inString r
         else if hd r \<noteq> CHR ''u'' then json_unicode_from inString (tl r)
         else (case decodeJSONHexQuad (tl r) of
             None \<Rightarrow> False
           | Some v \<Rightarrow>
               let q = drop 5 r in
               if 0xdc00 \<le> v \<and> v \<le> 0xdfff then False
               else if v < 0xd800 \<or> v > 0xdbff then json_unicode_from inString q
               else if length q < 6 \<or> q ! 0 \<noteq> CHR 0x5C \<or> q ! 1 \<noteq> CHR ''u'' then False
               else (case decodeJSONHexQuad (drop 2 q) of
                   None \<Rightarrow> False
                 | Some low \<Rightarrow> if low < 0xdc00 \<or> low > 0xdfff then False else json_unicode_from inString (drop 6 q))))"
  by pat_completeness auto
termination by (relation "measure (\<lambda>(_, s). length s)") auto

declare json_unicode_from.simps [simp del]

definition validJSONUnicode :: "string \<Rightarrow> bool" where
  "validJSONUnicode body \<longleftrightarrow> valid_utf8 body \<and> json_unicode_from False body"

text \<open>The value of a text that passes the checks made on bytes.\<close>

definition raw_document :: "string \<Rightarrow> json option" where
  "raw_document body = (if validJSONUnicode body then json_unmarshal body else None)"

fun consumeJSONValue :: "nat \<Rightarrow> json \<Rightarrow> bool"
  and consume_members :: "nat \<Rightarrow> string list \<Rightarrow> (string \<times> json) list \<Rightarrow> bool"
  and consume_elements :: "nat \<Rightarrow> json list \<Rightarrow> bool" where
  "consumeJSONValue depth (JObj ms) = (if depth > 4 * MaximumMessagePartDepth + 16 then False else consume_members depth [] ms)"
| "consumeJSONValue depth (JArr vs) = (if depth > 4 * MaximumMessagePartDepth + 16 then False else consume_elements depth vs)"
| "consumeJSONValue depth v = (\<not> depth > 4 * MaximumMessagePartDepth + 16)"
| "consume_members depth seen [] = True"
| "consume_members depth seen ((key, v) # ms) =
    (if key \<in> set seen then False else consumeJSONValue (depth + 1) v \<and> consume_members depth (key # seen) ms)"
| "consume_elements depth [] = True"
| "consume_elements depth (v # vs) = (consumeJSONValue (depth + 1) v \<and> consume_elements depth vs)"

type_synonym raw_object = "string \<Rightarrow> json option"

definition decodeStrictRawObject :: "json \<Rightarrow> (string \<times> json) list option" where
  "decodeStrictRawObject raw =
    (if \<not> consumeJSONValue 0 raw then None else case raw of JObj ms \<Rightarrow> Some ms | _ \<Rightarrow> None)"

definition decodeExactObject :: "json \<Rightarrow> string list \<Rightarrow> raw_object option" where
  "decodeExactObject raw allowedNames =
    (case decodeStrictRawObject raw of
       None \<Rightarrow> None
     | Some ms \<Rightarrow> if list_all (\<lambda>(name, _). name \<in> set allowedNames) ms then Some (map_of ms) else None)"

definition decodeJSONArray :: "json \<Rightarrow> json list option" where
  "decodeJSONArray raw = (case raw of JArr vs \<Rightarrow> Some vs | _ \<Rightarrow> None)"

definition decodeJSONString :: "json \<Rightarrow> string option" where
  "decodeJSONString raw = (case raw of JStr s \<Rightarrow> Some s | _ \<Rightarrow> None)"

definition isJSONNull :: "json \<Rightarrow> bool" where
  "isJSONNull raw \<longleftrightarrow> raw = JNull"

definition requiredJSONString :: "raw_object \<Rightarrow> string \<Rightarrow> string option" where
  "requiredJSONString object name = (case object name of None \<Rightarrow> None | Some raw \<Rightarrow> decodeJSONString raw)"

definition optionalJSONString :: "raw_object \<Rightarrow> string \<Rightarrow> (string \<times> bool) option" where
  "optionalJSONString object name =
    (case object name of
       None \<Rightarrow> Some ([], False)
     | Some raw \<Rightarrow> if isJSONNull raw then Some ([], False) else map_option (\<lambda>v. (v, True)) (decodeJSONString raw))"

definition canonicalPositiveDecimal :: "string \<Rightarrow> bool" where
  "canonicalPositiveDecimal raw = (case raw of [] \<Rightarrow> False | c # r \<Rightarrow> in_range 49 57 c \<and> list_all is_digit r)"

text \<open>
  \<^verbatim>\<open>json.Unmarshal\<close> of a present value into a string, a list of strings, an unsigned and a signed number: null
  leaves the zero value, and a number must be written without fraction and exponent.
\<close>

definition unmarshal_string :: "json \<Rightarrow> string option" where
  "unmarshal_string raw = (case raw of JStr s \<Rightarrow> Some s | JNull \<Rightarrow> Some [] | _ \<Rightarrow> None)"

fun unmarshal_strings :: "json list \<Rightarrow> string list option" where
  "unmarshal_strings [] = Some []"
| "unmarshal_strings (v # vs) = (case unmarshal_string v of
     None \<Rightarrow> None | Some s \<Rightarrow> map_option ((#) s) (unmarshal_strings vs))"

definition unmarshal_uint32 :: "json \<Rightarrow> u32 option" where
  "unmarshal_uint32 raw = (case raw of JNum n \<Rightarrow> map_option word_of_nat (parse_uint 32 n) | _ \<Rightarrow> None)"

section \<open>Tokens\<close>

text \<open>\<^verbatim>\<open>strings.Fields\<close>: the maximal runs of characters that are not white space.\<close>

fun fields_from :: "string \<Rightarrow> string list \<Rightarrow> string list" where
  "fields_from field [] = (if field = [] then [] else [field])"
| "fields_from field (c # cs) =
    (if space_chunk c then (if field = [] then fields_from [] cs else field # fields_from [] cs)
     else fields_from (field @ c) cs)"

definition strings_Fields :: "string \<Rightarrow> string list" where
  "strings_Fields s = fields_from [] (chunks s)"

definition exactScope :: "string \<Rightarrow> bool" where
  "exactScope scope \<longleftrightarrow>
     strings_Fields scope = [''openid'', ''https://www.googleapis.com/auth/gmail.readonly''] \<or>
     strings_Fields scope = [''https://www.googleapis.com/auth/gmail.readonly'', ''openid'']"

definition expiry_valid :: "json \<Rightarrow> bool" where
  "expiry_valid raw = (case raw of
     JNum n \<Rightarrow> canonicalPositiveDecimal n \<and> (case parse_uint 32 n of None \<Rightarrow> False | Some e \<Rightarrow> e \<le> maximumOAuthExpirySeconds)
   | _ \<Rightarrow> False)"

definition validateRefreshSuccess :: "string \<Rightarrow> bool" where
  "validateRefreshSuccess body =
    (case raw_document body of None \<Rightarrow> False | Some raw \<Rightarrow>
     (case decodeStrictRawObject raw of None \<Rightarrow> False | Some ms \<Rightarrow>
      if \<not> list_all (\<lambda>(name, _). name \<in> {''access_token'', ''token_type'', ''expires_in'', ''scope''}) ms then False
      else
        let member = map_of ms; unmarshal = (\<lambda>name. Option.bind (map_of ms name) unmarshal_string) in
        (case unmarshal ''access_token'' of None \<Rightarrow> False | Some token \<Rightarrow> 1 \<le> length token \<and> length token \<le> maximumAccessTokenBytes) \<and>
        unmarshal ''token_type'' = Some ''Bearer'' \<and>
        (case member ''expires_in'' of None \<Rightarrow> False | Some expiry \<Rightarrow> expiry_valid expiry) \<and>
        (case member ''scope'' of None \<Rightarrow> True
         | Some raw \<Rightarrow> (case unmarshal_string raw of None \<Rightarrow> False | Some scope \<Rightarrow> exactScope scope))))"

datatype refresh_classification = refreshUnclassified | refreshInvalidGrant | refreshAdminPolicy

definition classifyRefreshError :: "string \<Rightarrow> refresh_classification" where
  "classifyRefreshError body =
    (case Option.bind (raw_document body) decodeStrictRawObject of
       Some [(name, raw)] \<Rightarrow>
         (case (if name = ''error'' then unmarshal_string raw else None) of
            None \<Rightarrow> refreshUnclassified
          | Some code \<Rightarrow>
              if code = ''invalid_grant'' then refreshInvalidGrant
              else if code = ''admin_policy_enforced'' then refreshAdminPolicy
              else refreshUnclassified)
     | _ \<Rightarrow> refreshUnclassified)"

section \<open>History pages\<close>

record discovered_identity =
  di_message :: string
  di_thread :: string

record history_record =
  hr_id :: history_id
  hr_identities :: "discovered_identity list"

record history_page =
  hp_records :: "history_record list"
  hp_history :: history_id
  hp_next :: string

definition validOpaquePageToken :: "string \<Rightarrow> bool" where
  "validOpaquePageToken v =
    (if length v < 1 \<or> length v > MaximumPageTokenBytes \<or> \<not> valid_utf8 v then False else \<not> list_ex is_control (runes v))"

definition decode_history_id :: "raw_object \<Rightarrow> string \<Rightarrow> history_id option" where
  "decode_history_id object name = (case requiredJSONString object name of
     None \<Rightarrow> None
   | Some t \<Rightarrow> (case ParseHistoryID t of Inl _ \<Rightarrow> None | Inr h \<Rightarrow> Some h))"

definition decode_addition :: "json \<Rightarrow> discovered_identity option" where
  "decode_addition raw =
    (case decodeExactObject raw [''message''] of None \<Rightarrow> None | Some addition \<Rightarrow>
     (case addition ''message'' of None \<Rightarrow> None | Some messageRaw \<Rightarrow>
      (case decodeExactObject messageRaw [''id'', ''threadId''] of None \<Rightarrow> None | Some message \<Rightarrow>
       (case (requiredJSONString message ''id'', requiredJSONString message ''threadId'') of
          (Some m, Some t) \<Rightarrow>
            if ValidateGmailMessageID m \<noteq> None \<or> ValidateGmailMessageID t \<noteq> None then None
            else Some \<lparr>di_message = m, di_thread = t\<rparr>
        | _ \<Rightarrow> None))))"

fun decode_additions :: "json list \<Rightarrow> discovered_identity list option" where
  "decode_additions [] = Some []"
| "decode_additions (raw # raws) = (case decode_addition raw of
     None \<Rightarrow> None | Some identity \<Rightarrow> map_option ((#) identity) (decode_additions raws))"

text \<open>One record: the number of additions counted so far with those of the record, and the record.\<close>

definition decode_record :: "nat \<Rightarrow> json \<Rightarrow> (nat \<times> history_record) option" where
  "decode_record additionCount raw =
    (case decodeExactObject raw [''id'', ''messagesAdded''] of None \<Rightarrow> None | Some object \<Rightarrow>
     (case decode_history_id object ''id'' of None \<Rightarrow> None | Some recordID \<Rightarrow>
      (case object ''messagesAdded'' of
         None \<Rightarrow> Some (additionCount, \<lparr>hr_id = recordID, hr_identities = []\<rparr>)
       | Some additionsRaw \<Rightarrow>
           (case decodeJSONArray additionsRaw of None \<Rightarrow> None | Some additions \<Rightarrow>
             if additionCount + length additions > MaximumCurrentDiscoveryPageMessages then None
             else map_option (\<lambda>identities. (additionCount + length additions, \<lparr>hr_id = recordID, hr_identities = identities\<rparr>))
               (decode_additions additions)))))"

fun decode_records :: "nat \<Rightarrow> json list \<Rightarrow> history_record list option" where
  "decode_records additionCount [] = Some []"
| "decode_records additionCount (raw # raws) = (case decode_record additionCount raw of
     None \<Rightarrow> None | Some (n, r) \<Rightarrow> map_option ((#) r) (decode_records n raws))"

definition decode_page_token :: "raw_object \<Rightarrow> string option" where
  "decode_page_token document = (case document ''nextPageToken'' of
     None \<Rightarrow> Some []
   | Some raw \<Rightarrow> (case decodeJSONString raw of None \<Rightarrow> None | Some t \<Rightarrow> if validOpaquePageToken t then Some t else None))"

definition decodeHistoryPage :: "string \<Rightarrow> history_page option" where
  "decodeHistoryPage body =
    (case Option.bind (raw_document body) (\<lambda>raw. decodeExactObject raw [''history'', ''historyId'', ''nextPageToken'']) of
       None \<Rightarrow> None
     | Some document \<Rightarrow>
       (case decode_history_id document ''historyId'' of None \<Rightarrow> None | Some historyID \<Rightarrow>
        (case decode_page_token document of None \<Rightarrow> None | Some token \<Rightarrow>
         (case document ''history'' of
            None \<Rightarrow> Some \<lparr>hp_records = [], hp_history = historyID, hp_next = token\<rparr>
          | Some historyRaw \<Rightarrow>
              (case decodeJSONArray historyRaw of None \<Rightarrow> None | Some raws \<Rightarrow>
                if length raws > MaximumCurrentDiscoveryPageMessages then None
                else map_option (\<lambda>records. \<lparr>hp_records = records, hp_history = historyID, hp_next = token\<rparr>)
                  (decode_records 0 raws))))))"

section \<open>Message metadata\<close>

definition validMIMEFilename :: "string \<Rightarrow> bool" where
  "validMIMEFilename v = validBoundedText v maximumMIMEFilenameBytes"

definition validAttachmentID :: "string \<Rightarrow> bool" where
  "validAttachmentID v =
    (if length v > maximumAttachmentIDBytes then False else list_all (\<lambda>c. \<not> (bval c < 0x21 \<or> bval c > 0x7e)) v)"

definition decodePartBody :: "json \<Rightarrow> string option" where
  "decodePartBody raw =
    (case decodeExactObject raw [''attachmentId''] of None \<Rightarrow> None
     | Some object \<Rightarrow> map_option fst (optionalJSONString object ''attachmentId''))"

text \<open>The attachment identifier of an optional body, which must be valid.\<close>

definition decode_body :: "json option \<Rightarrow> string option" where
  "decode_body raw = (case raw of
     None \<Rightarrow> Some []
   | Some bodyRaw \<Rightarrow> if isJSONNull bodyRaw then Some []
       else (case decodePartBody bodyRaw of None \<Rightarrow> None
         | Some attachmentID \<Rightarrow> if validAttachmentID attachmentID then Some attachmentID else None))"

definition decode_filename :: "raw_object \<Rightarrow> string option" where
  "decode_filename object = (case optionalJSONString object ''filename'' of
     None \<Rightarrow> None
   | Some (filename, present) \<Rightarrow> if present \<and> \<not> validMIMEFilename filename then None else Some filename)"

text \<open>What a part says of itself: whether it is an attachment, and its children.\<close>

definition open_part :: "nat \<Rightarrow> json \<Rightarrow> (bool \<times> json list) option" where
  "open_part depth raw =
    (case decodeExactObject raw [''partId'', ''filename'', ''body'', ''parts''] of None \<Rightarrow> None | Some part \<Rightarrow>
     if (case part ''partId'' of None \<Rightarrow> False | Some partID \<Rightarrow> \<not> isJSONNull partID) then None
     else (case decode_filename part of None \<Rightarrow> None | Some filename \<Rightarrow>
      (case decode_body (part ''body'') of None \<Rightarrow> None | Some attachmentID \<Rightarrow>
       let attached = (filename \<noteq> [] \<or> attachmentID \<noteq> []) in
       (case part ''parts'' of
          None \<Rightarrow> Some (attached, [])
        | Some partsRaw \<Rightarrow>
            if isJSONNull partsRaw then None
            else (case decodeJSONArray partsRaw of None \<Rightarrow> None | Some children \<Rightarrow>
              if depth = MaximumMessagePartDepth \<and> children \<noteq> [] then None else Some (attached, children))))))"

text \<open>The walk carries the number of parts and the number of attachments.\<close>

function walkMessagePart :: "nat \<Rightarrow> json \<Rightarrow> nat \<times> nat \<Rightarrow> (nat \<times> nat) option"
  and walk_parts :: "nat \<Rightarrow> json list \<Rightarrow> nat \<times> nat \<Rightarrow> (nat \<times> nat) option" where
  "walkMessagePart depth raw st =
    (if depth > MaximumMessagePartDepth then None
     else if fst st + 1 > MaximumMessageParts then None
     else (case open_part depth raw of
         None \<Rightarrow> None
       | Some (attached, children) \<Rightarrow>
           walk_parts (depth + 1) children (fst st + 1, if attached then snd st + 1 else snd st)))"
| "walk_parts depth [] st = Some st"
| "walk_parts depth (raw # raws) st = (case walkMessagePart depth raw st of
     None \<Rightarrow> None | Some st' \<Rightarrow> walk_parts depth raws st')"
  by pat_completeness auto
termination
  by (relation "inv_image (less_than <*lex*> less_than) (\<lambda>x. case x of
      Inl (d, _, _) \<Rightarrow> (Suc MaximumMessagePartDepth - d, 0) | Inr (d, raws, _) \<Rightarrow> (Suc MaximumMessagePartDepth - d, Suc (length raws)))")
    auto

declare walkMessagePart.simps [simp del]

definition decodeMessageParts :: "json option \<Rightarrow> (nat \<times> nat) option" where
  "decodeMessageParts raw = (case raw of
     None \<Rightarrow> Some (0, 0)
   | Some JNull \<Rightarrow> Some (0, 0)
   | Some (JArr raws) \<Rightarrow> walk_parts 1 raws (0, 0)
   | Some _ \<Rightarrow> None)"

definition decode_header :: "json \<Rightarrow> (string \<times> string) option" where
  "decode_header raw =
    (case decodeExactObject raw [''name'', ''value''] of None \<Rightarrow> None
     | Some object \<Rightarrow> (case (requiredJSONString object ''name'', requiredJSONString object ''value'') of
         (Some n, Some v) \<Rightarrow> Some (n, v) | _ \<Rightarrow> None))"

fun decode_headers :: "json list \<Rightarrow> (string \<times> string) list option" where
  "decode_headers [] = Some []"
| "decode_headers (raw # raws) = (case decode_header raw of
     None \<Rightarrow> None | Some h \<Rightarrow> map_option ((#) h) (decode_headers raws))"

definition decodeMessageHeaders :: "json \<Rightarrow> (string \<times> string) list option" where
  "decodeMessageHeaders raw = Option.bind (decodeJSONArray raw) decode_headers"

definition selectedHeaderNames :: "string list" where
  "selectedHeaderNames = [''message-id'', ''from'', ''to'', ''cc'', ''delivered-to'', ''subject'', ''list-id'', ''list-unsubscribe'',
     ''auto-submitted'', ''precedence'']"

fun select_from :: "nat \<Rightarrow> (string \<times> string) list \<Rightarrow> (string \<times> string) list option" where
  "select_from bytesSelected [] = Some []"
| "select_from bytesSelected ((header, v) # hs) =
    (if to_lower header \<notin> set selectedHeaderNames then select_from bytesSelected hs
     else if bytesSelected + length v > MaximumSelectedHeaderBytes then None
     else map_option ((#) (to_lower header, v)) (select_from (bytesSelected + length v) hs))"

definition selectHeaders :: "(string \<times> string) list \<Rightarrow> (string \<times> string) list option" where
  "selectHeaders headers = (if length headers > MaximumMessageHeaderEntries then None else select_from 0 headers)"

definition header_values :: "(string \<times> string) list \<Rightarrow> string \<Rightarrow> string list" where
  "header_values selected name = map snd (filter (\<lambda>h. fst h = name) selected)"

definition optionalSingleton :: "maillib \<Rightarrow> string list \<Rightarrow> nat \<Rightarrow> string" where
  "optionalSingleton lib values maximum = (case values of
     [v] \<Rightarrow> (case DecodeHeader lib v of None \<Rightarrow> [] | Some d \<Rightarrow> if validBoundedText d maximum then d else [])
   | _ \<Rightarrow> [])"

definition optionalSender :: "maillib \<Rightarrow> string list \<Rightarrow> string \<times> string" where
  "optionalSender lib values = (case values of
     [v] \<Rightarrow> (case ParseList lib v of
         Some [(display, address)] \<Rightarrow> if validBoundedText display 512 \<and> validBoundedText address 512 then (display, address) else ([], [])
       | _ \<Rightarrow> ([], []))
   | _ \<Rightarrow> ([], []))"

definition optionalAddresses :: "maillib \<Rightarrow> string list \<Rightarrow> string list" where
  "optionalAddresses lib values = concat (map (\<lambda>v. case ParseList lib v of
     None \<Rightarrow> [] | Some addresses \<Rightarrow> filter (\<lambda>a. validBoundedText a 512) (map snd addresses)) values)"

definition applySelectedHeaders :: "maillib \<Rightarrow> (string \<times> string) list \<Rightarrow> message_input \<Rightarrow> message_input" where
  "applySelectedHeaders lib headers inp = inp\<lparr>
     mi_rfc_message_id := optionalSingleton lib (header_values headers ''message-id'') 998,
     mi_subject := optionalSingleton lib (header_values headers ''subject'') 4096,
     mi_list_id := optionalSingleton lib (header_values headers ''list-id'') 512,
     mi_auto_submitted := optionalSingleton lib (header_values headers ''auto-submitted'') 128,
     mi_precedence := optionalSingleton lib (header_values headers ''precedence'') 128,
     mi_list_unsubscribe := (header_values headers ''list-unsubscribe'' \<noteq> []),
     mi_sender_display := fst (optionalSender lib (header_values headers ''from'')),
     mi_sender_address := snd (optionalSender lib (header_values headers ''from'')),
     mi_to := optionalAddresses lib (header_values headers ''to''),
     mi_cc := optionalAddresses lib (header_values headers ''cc''),
     mi_delivered_to := optionalAddresses lib (header_values headers ''delivered-to'')\<rparr>"

text \<open>The members of the document outside the payload: the date, the labels and the size.\<close>

definition decode_scalars :: "raw_object \<Rightarrow> discovered_identity \<Rightarrow> (int \<times> string list \<times> u32) option" where
  "decode_scalars document identity =
    (case (requiredJSONString document ''id'', requiredJSONString document ''threadId'', requiredJSONString document ''internalDate'') of
       (Some messageID, Some threadID, Some dateText) \<Rightarrow>
         if messageID \<noteq> di_message identity \<or> threadID \<noteq> di_thread identity then None
         else (case parse_int64 dateText of None \<Rightarrow> None | Some internalDate \<Rightarrow>
           if internalDate < 0 \<or> format_int internalDate \<noteq> dateText then None
           else (case (document ''labelIds'', document ''sizeEstimate'', document ''payload'') of
               (Some labelsRaw, Some sizeRaw, Some payloadRaw) \<Rightarrow>
                 if isJSONNull payloadRaw then None
                 else (case (Option.bind (decodeJSONArray labelsRaw) unmarshal_strings, unmarshal_uint32 sizeRaw) of
                     (Some labels, Some estimate) \<Rightarrow> Some (internalDate, labels, estimate)
                   | _ \<Rightarrow> None)
             | _ \<Rightarrow> None))
     | _ \<Rightarrow> None)"

text \<open>The payload: its selected headers and its number of attachments.\<close>

definition decode_payload :: "json \<Rightarrow> ((string \<times> string) list \<times> nat) option" where
  "decode_payload raw =
    (case decodeExactObject raw [''headers'', ''filename'', ''body'', ''parts''] of None \<Rightarrow> None | Some payload \<Rightarrow>
     (case Option.bind (Option.bind (payload ''headers'') decodeMessageHeaders) selectHeaders of None \<Rightarrow> None | Some selected \<Rightarrow>
      (case decode_filename payload of None \<Rightarrow> None | Some _ \<Rightarrow>
       (case decode_body (payload ''body'') of None \<Rightarrow> None | Some _ \<Rightarrow>
        (case decodeMessageParts (payload ''parts'') of None \<Rightarrow> None
         | Some (parts, attachments) \<Rightarrow>
             if parts > MaximumMessageParts \<or> attachments > MaximumMessageParts then None else Some (selected, attachments))))))"

definition decodeMessageMetadata :: "maillib \<Rightarrow> string \<Rightarrow> discovered_identity \<Rightarrow> message_input option" where
  "decodeMessageMetadata lib body identity =
    (case Option.bind (raw_document body) (\<lambda>raw.
        decodeExactObject raw [''id'', ''threadId'', ''labelIds'', ''internalDate'', ''sizeEstimate'', ''payload'']) of
       None \<Rightarrow> None
     | Some document \<Rightarrow>
       (case decode_scalars document identity of None \<Rightarrow> None | Some (internalDate, labels, estimate) \<Rightarrow>
        (case Option.bind (document ''payload'') decode_payload of None \<Rightarrow> None | Some (selected, attachments) \<Rightarrow>
         Some (applySelectedHeaders lib selected
           \<lparr>mi_gmail_message_id = di_message identity, mi_gmail_thread_id = di_thread identity, mi_rfc_message_id = [],
            mi_internal_date = word_of_int internalDate, mi_sender_display = [], mi_sender_address = [], mi_to = [], mi_cc = [],
            mi_delivered_to = [], mi_subject = [], mi_labels = labels, mi_size_estimate = estimate,
            mi_attachment_count = word_of_nat attachments, mi_list_id = [], mi_auto_submitted = [], mi_precedence = [],
            mi_list_unsubscribe = False\<rparr>))))"

section \<open>Error bodies\<close>

definition optional_strings :: "raw_object \<Rightarrow> string list \<Rightarrow> bool" where
  "optional_strings object names = list_all (\<lambda>name. optionalJSONString object name \<noteq> None) names"

text \<open>The reasons of the items must be one and the same text.\<close>

fun common_reason :: "string \<Rightarrow> json list \<Rightarrow> string option" where
  "common_reason reason [] = Some reason"
| "common_reason reason (raw # raws) =
    (case decodeExactObject raw [''domain'', ''message'', ''reason'', ''location'', ''locationType''] of None \<Rightarrow> None | Some item \<Rightarrow>
     if \<not> optional_strings item [''domain'', ''message'', ''location'', ''locationType''] then None
     else (case requiredJSONString item ''reason'' of None \<Rightarrow> None | Some itemReason \<Rightarrow>
       if itemReason = [] then None
       else if reason = [] then common_reason itemReason raws
       else if reason \<noteq> itemReason then None
       else common_reason reason raws))"

definition error_code_ok :: "json option \<Rightarrow> bool" where
  "error_code_ok raw = (case raw of
     None \<Rightarrow> True | Some JNull \<Rightarrow> True | Some (JNum n) \<Rightarrow> parse_int64 n \<noteq> None | Some _ \<Rightarrow> False)"

definition exactGoogleErrorReason :: "string \<Rightarrow> string option" where
  "exactGoogleErrorReason body =
    (case Option.bind (raw_document body) (\<lambda>raw. decodeExactObject raw [''error'']) of None \<Rightarrow> None | Some envelope \<Rightarrow>
     (case envelope ''error'' of None \<Rightarrow> None | Some errorRaw \<Rightarrow>
      (case decodeExactObject errorRaw [''code'', ''message'', ''status'', ''errors''] of None \<Rightarrow> None | Some errorObject \<Rightarrow>
       if \<not> optional_strings errorObject [''message'', ''status''] \<or> \<not> error_code_ok (errorObject ''code'') then None
       else (case Option.bind (errorObject ''errors'') decodeJSONArray of
           None \<Rightarrow> None
         | Some items \<Rightarrow> if items = [] then None else common_reason [] items))))"

end
