(* ===== verification/Gmail_Content.thy ===== *)
theory Gmail_Content
  imports Gmail_Decode
begin

text \<open>
  \<^verbatim>\<open>internal/gmail/candidate_content_decode.go\<close>: from the body Gmail returns for a message to the excerpt
  that is stored. It selects the first plain text part, or else the first HTML part, decodes its transfer
  encoding and character set, reduces HTML to the text it shows, and canonicalizes the result. As in the
  code, every failure is the same error, here \<open>None\<close>. \<open>to_lower\<close> is exact for the names compared with it,
  which are ASCII.
\<close>

definition MaximumCandidateContentBodyBytes :: nat where "MaximumCandidateContentBodyBytes = 1048576"
definition maximumHTMLTokenBytes :: nat where "maximumHTMLTokenBytes = 65536"
definition maximumHTMLTokens :: nat where "maximumHTMLTokens = 10000"
definition MaximumDecodedContentBytes :: nat where "MaximumDecodedContentBytes = 512 * 1024"

section \<open>Strings\<close>

function strings_ReplaceAll :: "string \<Rightarrow> string \<Rightarrow> string \<Rightarrow> string" where
  "strings_ReplaceAll old new s =
    (case s of
       [] \<Rightarrow> []
     | c # r \<Rightarrow>
         if old \<noteq> [] \<and> has_prefix s old then new @ strings_ReplaceAll old new (drop (length old) s)
         else c # strings_ReplaceAll old new r)"
  by pat_completeness auto
termination by (relation "measure (\<lambda>(_, _, s). length s)") (auto simp: length_greater_0_conv [symmetric] simp del: length_greater_0_conv)

declare strings_ReplaceAll.simps [simp del]

fun strings_Index :: "string \<Rightarrow> string \<Rightarrow> nat option" where
  "strings_Index [] p = (if p = [] then Some 0 else None)"
| "strings_Index (c # r) p = (if has_prefix (c # r) p then Some 0 else map_option Suc (strings_Index r p))"

definition strings_Cut :: "char \<Rightarrow> string \<Rightarrow> (string \<times> string) option" where
  "strings_Cut c s = map_option (\<lambda>i. (take i s, drop (i + 1) s)) (index_byte c s)"

text \<open>\<^verbatim>\<open>strconv.ParseUint(s, 16, 32)\<close>.\<close>

definition parse_hex32 :: "string \<Rightarrow> nat option" where
  "parse_hex32 s =
    (case those (map hex_val s) of
       None \<Rightarrow> None
     | Some ds \<Rightarrow> let v = foldl (\<lambda>v d. v * 16 + d) 0 ds in if s = [] \<or> v \<ge> 2 ^ 32 then None else Some v)"

section \<open>Canonical text\<close>

definition unsafeInvisibleCandidateRune :: "rune \<Rightarrow> bool" where
  "unsafeInvisibleCandidateRune v \<longleftrightarrow>
     v = 0x00ad \<or> v = 0x061c \<or> v = 0x200b \<or> v = 0x200c \<or> v = 0x200d \<or> v = 0x200e \<or> v = 0x200f \<or> v = 0x2060 \<or> v = 0xfeff \<or>
     0x202a \<le> v \<and> v \<le> 0x202e \<or> 0x2066 \<le> v \<and> v \<le> 0x2069 \<or> 0xfe00 \<le> v \<and> v \<le> 0xfe0f \<or> 0xe0100 \<le> v \<and> v \<le> 0xe01ef"

definition clean_rune :: "rune \<Rightarrow> string" where
  "clean_rune v =
    (if unsafeInvisibleCandidateRune v then []
     else if v = 0x0A \<or> v = 0x09 \<or> \<not> is_control v then encode_rune v
     else encode_rune rune_error)"

function collapse_breaks :: "string \<Rightarrow> string" where
  "collapse_breaks s =
    (if contains s [CHR 0x0A, CHR 0x0A, CHR 0x0A]
     then collapse_breaks (strings_ReplaceAll [CHR 0x0A, CHR 0x0A, CHR 0x0A] [CHR 0x0A, CHR 0x0A] s) else s)"
  by pat_completeness auto

lemma ReplaceAll_Cons: "strings_ReplaceAll old new (c # r) =
    (if old \<noteq> [] \<and> has_prefix (c # r) old then new @ strings_ReplaceAll old new (drop (length old) (c # r))
     else c # strings_ReplaceAll old new r)"
  by (simp add: strings_ReplaceAll.simps [of _ _ "c # r"])

lemma ReplaceAll_Nil [simp]: "strings_ReplaceAll old new [] = []"
  by (simp add: strings_ReplaceAll.simps)

lemma ReplaceAll_length_le: "length new \<le> length old \<Longrightarrow> length (strings_ReplaceAll old new s) \<le> length s"
proof (induction s rule: length_induct)
  case (1 s)
  show ?case
  proof (cases s)
    case (Cons c r)
    show ?thesis
    proof (cases "old \<noteq> [] \<and> has_prefix s old")
      case True
      then obtain q where q: "s = old @ q" by (auto simp: has_prefix_iff)
      then have "length (strings_ReplaceAll old new q) \<le> length q" using 1 True by simp
      moreover have "strings_ReplaceAll old new s = new @ strings_ReplaceAll old new q"
        using True q Cons by (metis ReplaceAll_Cons append_eq_conv_conj)
      ultimately show ?thesis using 1(2) q by simp
    next
      case False
      then show ?thesis using 1 Cons by (auto simp: ReplaceAll_Cons)
    qed
  qed simp
qed

lemma ReplaceAll_length_less:
  "length new < length old \<Longrightarrow> contains s old \<Longrightarrow> length (strings_ReplaceAll old new s) < length s"
proof (induction s rule: length_induct)
  case (1 s)
  obtain c r where s: "s = c # r" using 1(2,3) by (cases s) auto
  show ?case
  proof (cases "has_prefix s old")
    case True
    moreover have "old \<noteq> []" using 1(2) by auto
    ultimately obtain q where q: "s = old @ q" by (auto simp: has_prefix_iff)
    then have "strings_ReplaceAll old new s = new @ strings_ReplaceAll old new q"
      using True s \<open>old \<noteq> []\<close> by (metis ReplaceAll_Cons append_eq_conv_conj)
    then show ?thesis using q ReplaceAll_length_le [of new old q] 1(2) by simp
  next
    case False
    then have "contains r old" using 1(3) s by (auto split: if_splits)
    then show ?thesis using 1 s False by (simp add: ReplaceAll_Cons)
  qed
qed

termination collapse_breaks
  by (relation "measure length") (auto simp del: contains.simps intro!: ReplaceAll_length_less)

declare collapse_breaks.simps [simp del]

definition normalizeCandidateText :: "string \<Rightarrow> string" where
  "normalizeCandidateText input =
    (let input = strings_ReplaceAll [CHR 0x0D] [CHR 0x0A] (strings_ReplaceAll [CHR 0x0D, CHR 0x0A] [CHR 0x0A] input);
         cleaned = concat (map clean_rune (runes input));
         ls = map trim_right_blank (split_on (CHR 0x0A) cleaned)
     in collapse_breaks (trim_space (join_with (CHR 0x0A) ls)))"

text \<open>The largest boundary at or below the given one that starts a character.\<close>

fun rune_boundary :: "string \<Rightarrow> nat \<Rightarrow> nat" where
  "rune_boundary s 0 = 0"
| "rune_boundary s (Suc n) = (if \<not> rune_start (s ! Suc n) then rune_boundary s n else Suc n)"

definition canonicalizeCandidateText :: "string \<Rightarrow> nat \<Rightarrow> string \<times> bool" where
  "canonicalizeCandidateText input limit =
    (let canonical = normalizeCandidateText input in
     if length canonical \<le> limit then (canonical, False)
     else (normalizeCandidateText (take (rune_boundary canonical limit) canonical), True))"

section \<open>HTML\<close>

definition entity_names :: "(string \<times> rune) list" where
  "entity_names = [(''amp'', 0x26), (''lt'', 0x3C), (''gt'', 0x3E), (''quot'', 0x22), (''apos'', 0x27), (''nbsp'', 0x20)]"

definition decode_entity :: "string \<Rightarrow> rune option" where
  "decode_entity entity =
    (case map_of entity_names entity of
       Some r \<Rightarrow> Some r
     | None \<Rightarrow>
         (case (if has_prefix entity ''#x'' \<or> has_prefix entity ''#X'' then parse_hex32 (drop 2 entity)
                else if has_prefix entity ''#'' then parse_uint 32 (drop 1 entity)
                else None) of
            None \<Rightarrow> None
          | Some v \<Rightarrow> if v = 0 \<or> v > 0x10FFFF \<or> 0xd800 \<le> v \<and> v \<le> 0xdfff then None else Some v))"

function decodeCandidateEntities :: "string \<Rightarrow> string option" where
  "decodeCandidateEntities s =
    (case s of
       [] \<Rightarrow> Some []
     | c # r \<Rightarrow>
         if c \<noteq> CHR ''&'' then
           map_option ((@) (takeWhile (\<lambda>d. d \<noteq> CHR ''&'') s)) (decodeCandidateEntities (dropWhile (\<lambda>d. d \<noteq> CHR ''&'') s))
         else (case index_byte (CHR '';'') s of
             None \<Rightarrow> None
           | Some e \<Rightarrow>
               if e < 2 \<or> e > 16 then None
               else (case decode_entity (take (e - 1) r) of
                   None \<Rightarrow> None
                 | Some decoded \<Rightarrow> map_option ((@) (encode_rune decoded)) (decodeCandidateEntities (drop (e + 1) s)))))"
  by pat_completeness auto
termination
  by (relation "measure length") (auto simp: less_Suc_eq_le length_dropWhile_le)

declare decodeCandidateEntities.simps [simp del]

definition decodeCandidateAttributeEntities :: "string \<Rightarrow> string option" where
  "decodeCandidateAttributeEntities v = (if \<not> contains v ''&'' then Some v else decodeCandidateEntities v)"

definition candidateDiscardTag :: "string \<Rightarrow> bool" where
  "candidateDiscardTag name \<longleftrightarrow> name \<in> set [''script'', ''style'', ''template'', ''noscript'', ''svg'', ''math'', ''head'', ''form'',
     ''object'', ''embed'', ''iframe'', ''canvas'']"

definition candidateBlockTag :: "string \<Rightarrow> bool" where
  "candidateBlockTag name \<longleftrightarrow> name \<in> set [''address'', ''article'', ''aside'', ''blockquote'', ''br'', ''dd'', ''div'', ''dl'', ''dt'',
     ''fieldset'', ''figcaption'', ''figure'', ''footer'', ''h1'', ''h2'', ''h3'', ''h4'', ''h5'', ''h6'', ''header'', ''hr'', ''li'', ''main'',
     ''nav'', ''ol'', ''p'', ''pre'', ''section'', ''table'', ''tbody'', ''td'', ''tfoot'', ''th'', ''thead'', ''tr'', ''ul'']"

definition candidateVoidTag :: "string \<Rightarrow> bool" where
  "candidateVoidTag name \<longleftrightarrow> name \<in> set [''area'', ''base'', ''br'', ''col'', ''embed'', ''hr'', ''img'', ''input'', ''link'', ''meta'',
     ''param'', ''source'', ''track'', ''wbr'']"

definition candidateNameByte :: "char \<Rightarrow> bool" where
  "candidateNameByte c \<longleftrightarrow> in_range 97 122 c \<or> in_range 65 90 c \<or> in_range 48 57 c \<or> c = CHR ''-'' \<or> c = CHR '':''"

definition candidateAttributeByte :: "char \<Rightarrow> bool" where
  "candidateAttributeByte c \<longleftrightarrow> candidateNameByte c \<or> c = CHR ''_''"

definition candidateSpace :: "char \<Rightarrow> bool" where
  "candidateSpace c \<longleftrightarrow> c = CHR '' '' \<or> c = CHR 0x09 \<or> c = CHR 0x0D \<or> c = CHR 0x0A \<or> c = CHR 0x0C"

definition candidateHiddenCSSDeclaration :: "maillib \<Rightarrow> string \<Rightarrow> string \<Rightarrow> (bool \<times> bool) option" where
  "candidateHiddenCSSDeclaration lib key v =
    (if key \<noteq> ''display'' \<and> key \<noteq> ''visibility'' \<and> key \<noteq> ''opacity'' then Some (False, False)
     else
       let v = (if has_suffix v ''!important'' then take (length v - length ''!important'') v else v) in
       if v = [] \<or> contains v ''!'' then None
       else if key = ''display'' then
         (if v = ''none'' then Some (True, True)
          else if list_ex (\<lambda>c. c \<in> set ''()'') v \<or> v = ''inherit'' \<or> v = ''unset'' \<or> v = ''revert'' \<or> v = ''revert-layer'' then None
          else Some (False, True))
       else if key = ''visibility'' then
         (if v = ''hidden'' \<or> v = ''collapse'' then Some (True, True)
          else if v = ''visible'' \<or> v = ''initial'' then Some (False, True)
          else None)
       else
         (case ParseFloat lib (if has_suffix v ''%'' then butlast v else v) of
            Some (FloatSign sign) \<Rightarrow> Some (sign \<le> 0, True)
          | _ \<Rightarrow> None))"

fun style_hidden :: "maillib \<Rightarrow> string list \<Rightarrow> bool option" where
  "style_hidden lib [] = Some False"
| "style_hidden lib (declaration # ds) =
    (case strings_Cut (CHR '':'') declaration of
       None \<Rightarrow> style_hidden lib ds
     | Some (key, v) \<Rightarrow>
         (case candidateHiddenCSSDeclaration lib (to_lower (trim_space key)) (to_lower (concat (strings_Fields v))) of
            None \<Rightarrow> None
          | Some (hidden, relevant) \<Rightarrow> if relevant \<and> hidden then Some True else style_hidden lib ds))"

type_synonym attributes = "(string \<times> string) list"

definition attribute_value :: "attributes \<Rightarrow> string \<Rightarrow> string" where
  "attribute_value attrs name = (case map_of attrs name of None \<Rightarrow> [] | Some v \<Rightarrow> v)"

definition candidateHidden :: "maillib \<Rightarrow> attributes \<Rightarrow> bool option" where
  "candidateHidden lib attrs =
    (if map_of attrs ''hidden'' \<noteq> None then Some True
     else (case decodeCandidateAttributeEntities (attribute_value attrs ''aria-hidden'') of None \<Rightarrow> None | Some ariaHidden \<Rightarrow>
       if EqualFold (ml_lib lib) (trim_space ariaHidden) ''true'' then Some True
       else (case decodeCandidateAttributeEntities (attribute_value attrs ''style'') of None \<Rightarrow> None | Some style \<Rightarrow>
         if contains style ''/*'' \<or> contains style ''*/'' \<or> contains style [CHR 0x5C] then None
         else style_hidden lib (split_on (CHR '';'') style))))"

text \<open>One attribute: its name, its value and the unread text.\<close>

definition attribute_unquoted :: "string \<Rightarrow> (string \<times> string) option" where
  "attribute_unquoted s =
    (let v = takeWhile (\<lambda>c. \<not> candidateSpace c) s in
     if list_ex (\<lambda>c. c \<in> set (''<>='' @ [CHR 0x22, CHR 0x27, CHR 0x60])) v then None
     else Some (v, dropWhile (\<lambda>c. \<not> candidateSpace c) s))"

definition parse_attribute_value :: "string \<Rightarrow> (string \<times> string) option" where
  "parse_attribute_value s =
    (case s of
       c # r \<Rightarrow>
         if c = CHR ''='' then
           (case dropWhile candidateSpace r of
              [] \<Rightarrow> None
            | q # t \<Rightarrow>
                if q = CHR 0x27 \<or> q = CHR 0x22 then
                  (case dropWhile (\<lambda>c. c \<noteq> q) t of [] \<Rightarrow> None | _ # u \<Rightarrow> Some (takeWhile (\<lambda>c. c \<noteq> q) t, u))
                else attribute_unquoted (q # t))
         else Some ([], s)
     | [] \<Rightarrow> Some ([], []))"

lemma parse_attribute_value_length: "parse_attribute_value s = Some (v, u) \<Longrightarrow> length u \<le> length s"
proof -
  have d: "length (dropWhile P t) \<le> length t" for P and t :: string by (rule length_dropWhile_le)
  have t: "dropWhile P t = x # u \<Longrightarrow> length u < length t" for P x u and t :: string using d [of P t] by simp
  assume "parse_attribute_value s = Some (v, u)"
  then show ?thesis
    by (auto simp: parse_attribute_value_def attribute_unquoted_def Let_def split: list.splits if_splits dest!: t)
      (meson d le_SucI le_trans less_imp_le_nat Suc_leI)+
qed

function attributes_from :: "attributes \<Rightarrow> string \<Rightarrow> attributes option" where
  "attributes_from attrs s =
    (let s = dropWhile candidateSpace s in
     if s = [] then Some attrs
     else
       let name = to_lower (takeWhile candidateAttributeByte s) in
       if takeWhile candidateAttributeByte s = [] then None
       else if map_of attrs name \<noteq> None then None
       else (case parse_attribute_value (dropWhile candidateSpace (dropWhile candidateAttributeByte s)) of
           None \<Rightarrow> None
         | Some (v, rest) \<Rightarrow> attributes_from ((name, v) # attrs) rest))"
  by pat_completeness auto
termination
proof (relation "measure (\<lambda>(_, s). length s)", simp, clarsimp)
  fix attrs :: attributes and s v rest
  let ?s = "dropWhile candidateSpace s" and ?p = "candidateAttributeByte"
  assume p: "takeWhile ?p ?s \<noteq> []" and v: "parse_attribute_value (dropWhile candidateSpace (dropWhile ?p ?s)) = Some (v, rest)"
  have "length (takeWhile ?p ?s) + length (dropWhile ?p ?s) = length ?s"
    by (metis length_append takeWhile_dropWhile_id)
  then have "length (dropWhile ?p ?s) < length ?s" using p by (cases "takeWhile ?p ?s") auto
  then show "length rest < length s"
    using parse_attribute_value_length [OF v] length_dropWhile_le [of candidateSpace "dropWhile ?p ?s"]
      length_dropWhile_le [of candidateSpace s] by linarith
qed

declare attributes_from.simps [simp del]

definition parseCandidateAttributes :: "string \<Rightarrow> attributes option" where
  "parseCandidateAttributes input = attributes_from [] input"

record html_tag =
  tg_closing :: bool
  tg_self :: bool
  tg_name :: string
  tg_attributes :: attributes

definition parseCandidateTag :: "string \<Rightarrow> html_tag option" where
  "parseCandidateTag token =
    (let token = trim_space token in
     if token = [] \<or> hd token = CHR ''!'' \<or> hd token = CHR ''?'' then None
     else
       let closing = (hd token = CHR ''/'');
           token = (if closing then trim_space (tl token) else token);
           selfClosing = has_suffix token ''/'';
           token = (if selfClosing then trim_space (butlast token) else token);
           name = takeWhile candidateNameByte token;
           remainder = dropWhile candidateNameByte token
       in if name = [] then None
          else if closing then
            (if trim_space remainder \<noteq> [] \<or> selfClosing then None
             else Some \<lparr>tg_closing = True, tg_self = False, tg_name = to_lower name, tg_attributes = []\<rparr>)
          else map_option (\<lambda>attrs. \<lparr>tg_closing = False, tg_self = selfClosing, tg_name = to_lower name, tg_attributes = attrs\<rparr>)
            (parseCandidateAttributes remainder))"

text \<open>The number of bytes from the start to the \<^verbatim>\<open>>\<close> that ends a tag.\<close>

fun candidateTagEnd :: "char option \<Rightarrow> string \<Rightarrow> nat option" where
  "candidateTagEnd quote [] = None"
| "candidateTagEnd (Some q) (c # r) = map_option Suc (candidateTagEnd (if c = q then None else Some q) r)"
| "candidateTagEnd None (c # r) =
    (if c = CHR 0x27 \<or> c = CHR 0x22 then map_option Suc (candidateTagEnd (Some c) r)
     else if c = CHR ''<'' then None
     else if c = CHR ''>'' then Some 0
     else map_option Suc (candidateTagEnd None r))"

record html_frame =
  fr_name :: string
  fr_discard :: bool

record html_state =
  hs_output :: string
  hs_break :: bool
  hs_stack :: "html_frame list"
  hs_tokens :: nat

text \<open>The innermost open element is the head of the stack.\<close>

definition candidateHTMLDiscarded :: "html_frame list \<Rightarrow> bool" where
  "candidateHTMLDiscarded stack = (case stack of [] \<Rightarrow> False | frame # _ \<Rightarrow> fr_discard frame)"

definition write_break :: "html_state \<Rightarrow> html_state" where
  "write_break st = (if hs_output st \<noteq> [] \<and> \<not> hs_break st
     then st\<lparr>hs_output := hs_output st @ [CHR 0x0A], hs_break := True\<rparr> else st)"

definition html_text :: "string \<Rightarrow> html_state \<Rightarrow> html_state" where
  "html_text t st =
    (if candidateHTMLDiscarded (hs_stack st) then st
     else st\<lparr>hs_output := hs_output st @ t, hs_break := (if t \<noteq> [] then has_suffix t [CHR 0x0A] else hs_break st)\<rparr>)"

definition html_close :: "html_tag \<Rightarrow> html_state \<Rightarrow> html_state option" where
  "html_close tag st = (case hs_stack st of
     [] \<Rightarrow> None
   | frame # rest \<Rightarrow>
       if fr_name frame \<noteq> tg_name tag then None
       else let st = st\<lparr>hs_stack := rest\<rparr> in
         Some (if \<not> fr_discard frame \<and> candidateBlockTag (tg_name tag) then write_break st else st))"

definition html_open :: "maillib \<Rightarrow> html_tag \<Rightarrow> html_state \<Rightarrow> html_state option" where
  "html_open lib tag st =
    (let inherited = candidateHTMLDiscarded (hs_stack st) in
     case candidateHidden lib (tg_attributes tag) of
       None \<Rightarrow> None
     | Some hidden \<Rightarrow>
         let discard = (inherited \<or> candidateDiscardTag (tg_name tag) \<or> hidden);
             st = (if \<not> discard \<and> candidateBlockTag (tg_name tag) then write_break st else st)
         in if \<not> candidateVoidTag (tg_name tag) \<and> \<not> tg_self tag then
              (if length (hs_stack st) = MaximumMessagePartDepth then None
               else Some (st\<lparr>hs_stack := \<lparr>fr_name = tg_name tag, fr_discard = discard\<rparr> # hs_stack st\<rparr>))
            else Some st)"

text \<open>One round of the loop: the unread text and the state after one piece of text, comment or tag.\<close>

definition html_comment :: "string \<Rightarrow> string option" where
  "html_comment s =
    (case strings_Index (drop 4 s) ''-->'' of
       None \<Rightarrow> None
     | Some e \<Rightarrow> if e > maximumHTMLTokenBytes \<or> contains (take e (drop 4 s)) ''--'' then None else Some (drop (4 + e + 3) s))"

definition html_element :: "maillib \<Rightarrow> string \<Rightarrow> html_state \<Rightarrow> (string \<times> html_state) option" where
  "html_element lib s st =
    (case candidateTagEnd None (tl s) of
       None \<Rightarrow> None
     | Some e \<Rightarrow>
         if e + 1 > maximumHTMLTokenBytes then None
         else (case parseCandidateTag (take e (tl s)) of
             None \<Rightarrow> None
           | Some tag \<Rightarrow>
               if tg_self tag \<and> \<not> candidateVoidTag (tg_name tag) then None
               else map_option (\<lambda>st. (drop (e + 2) s, st)) (if tg_closing tag then html_close tag st else html_open lib tag st)))"

definition html_step :: "maillib \<Rightarrow> string \<Rightarrow> html_state \<Rightarrow> (string \<times> html_state) option" where
  "html_step lib s st =
    (if hd s \<noteq> CHR ''<'' then
       map_option (\<lambda>t. (dropWhile (\<lambda>c. c \<noteq> CHR ''<'') s, html_text t st)) (decodeCandidateEntities (takeWhile (\<lambda>c. c \<noteq> CHR ''<'') s))
     else
       let st = st\<lparr>hs_tokens := hs_tokens st + 1\<rparr> in
       if hs_tokens st > maximumHTMLTokens then None
       else if has_prefix s ''<!--'' then map_option (\<lambda>r. (r, st)) (html_comment s)
       else html_element lib s st)"

lemma html_step_length: "s \<noteq> [] \<Longrightarrow> html_step lib s st = Some (r, st') \<Longrightarrow> length r < length s"
proof -
  assume s: "s \<noteq> []" and step: "html_step lib s st = Some (r, st')"
  have drops: "length (drop (n + 1) s) < length s" for n using s by simp
  have shown: "length (dropWhile (\<lambda>c. c \<noteq> CHR ''<'') s) < length s" if "hd s \<noteq> CHR ''<''"
    using that s length_dropWhile_le [of "\<lambda>c. c \<noteq> CHR ''<''" "tl s"] by (cases s) auto
  have comment: "length q < length s" if "html_comment s = Some q" for q
    using that drops [of "6 + n" for n] by (auto simp: html_comment_def split: option.splits if_splits)
  have element: "length q < length s" if "html_element lib s t = Some (q, t')" for q t t'
    using that drops [of "1 + n" for n] by (auto simp: html_element_def split: option.splits if_splits)
  show ?thesis using step shown comment element unfolding html_step_def Let_def
    by (cases "hd s \<noteq> CHR ''<''"; cases "has_prefix s ''<!--''") (auto split: if_splits)
qed

function html_loop :: "maillib \<Rightarrow> string \<Rightarrow> html_state \<Rightarrow> html_state option" where
  "html_loop lib s st =
    (if s = [] then Some st
     else case html_step lib s st of None \<Rightarrow> None | Some (r, st') \<Rightarrow> html_loop lib r st')"
  by pat_completeness auto
termination by (relation "measure (\<lambda>(_, s, _). length s)") (auto dest: html_step_length)

declare html_loop.simps [simp del]

definition html_start :: html_state where
  "html_start = \<lparr>hs_output = [], hs_break = False, hs_stack = [], hs_tokens = 0\<rparr>"

definition candidateHTMLToText :: "maillib \<Rightarrow> string \<Rightarrow> string option" where
  "candidateHTMLToText lib input =
    (if \<not> valid_utf8 input \<or> length input > MaximumDecodedContentBytes then None
     else (case html_loop lib input html_start of
         None \<Rightarrow> None
       | Some st \<Rightarrow> if hs_stack st \<noteq> [] then None else Some (hs_output st)))"


section \<open>Character sets\<close>

definition validCandidateCharset :: "string \<Rightarrow> bool" where
  "validCandidateCharset v \<longleftrightarrow>
     v \<in> set [''utf-8'', ''utf8'', ''us-ascii'', ''ascii'', ''iso-8859-1'', ''windows-1252'', ''cp1252'']"

definition windows1252_table :: "(nat \<times> rune) list" where
  "windows1252_table =
    [(0x80, 0x20AC), (0x82, 0x201A), (0x83, 0x0192), (0x84, 0x201E), (0x85, 0x2026), (0x86, 0x2020), (0x87, 0x2021),
     (0x88, 0x02C6), (0x89, 0x2030), (0x8A, 0x0160), (0x8B, 0x2039), (0x8C, 0x0152), (0x8E, 0x017D), (0x91, 0x2018),
     (0x92, 0x2019), (0x93, 0x201C), (0x94, 0x201D), (0x95, 0x2022), (0x96, 0x2013), (0x97, 0x2014), (0x98, 0x02DC),
     (0x99, 0x2122), (0x9A, 0x0161), (0x9B, 0x203A), (0x9C, 0x0153), (0x9E, 0x017E), (0x9F, 0x0178)]"

definition decodeWindows1252 :: "char \<Rightarrow> rune option" where
  "decodeWindows1252 c = (if bval c < 0x80 \<or> bval c \<ge> 0xa0 then Some (bval c) else map_of windows1252_table (bval c))"

definition decodeCandidateCharset :: "string \<Rightarrow> string \<Rightarrow> string option" where
  "decodeCandidateCharset raw charset =
    (if charset = ''utf-8'' \<or> charset = ''utf8'' then (if valid_utf8 raw then Some raw else None)
     else if charset = ''us-ascii'' \<or> charset = ''ascii'' then (if list_ex (\<lambda>c. bval c > 0x7f) raw then None else Some raw)
     else if charset = ''iso-8859-1'' then Some (concat (map (\<lambda>c. encode_rune (bval c)) raw))
     else if charset = ''windows-1252'' \<or> charset = ''cp1252'' then
       map_option (\<lambda>rs. concat (map encode_rune rs)) (those (map decodeWindows1252 raw))
     else None)"

section \<open>Parts\<close>

record candidate_part =
  cp_kind :: string
  cp_charset :: string
  cp_data :: string
  cp_size :: int

record part_selection =
  ps_plain :: "candidate_part option"
  ps_html :: "candidate_part option"
  ps_nodes :: nat

text \<open>The length of \<open>n\<close> bytes in unpadded base64, \<^verbatim>\<open>base64.RawURLEncoding.EncodedLen\<close>.\<close>

definition b64_encoded_len :: "nat \<Rightarrow> nat" where
  "b64_encoded_len n = n div 3 * 4 + (n mod 3 * 8 + 5) div 6"

definition candidatePartBody :: "json option \<Rightarrow> (int \<times> string \<times> string) option" where
  "candidatePartBody raw =
    (case raw of
       None \<Rightarrow> Some (0, [], [])
     | Some raw \<Rightarrow>
         if isJSONNull raw then Some (0, [], [])
         else (case decodeExactObject raw [''size'', ''data'', ''attachmentId''] of None \<Rightarrow> None | Some body \<Rightarrow>
           (case body ''size'' of
              Some (JNum textSize) \<Rightarrow>
                (case parse_int64 textSize of None \<Rightarrow> None | Some size64 \<Rightarrow>
                  if size64 < 0 \<or> format_int size64 \<noteq> textSize then None
                  else (case (optionalJSONString body ''data'', optionalJSONString body ''attachmentId'') of
                      (Some (data, _), Some (attachmentID, _)) \<Rightarrow>
                        if length attachmentID > maximumAttachmentIDBytes \<or> list_ex is_control (runes attachmentID) then None
                        else Some (size64, data, attachmentID)
                    | _ \<Rightarrow> None))
            | _ \<Rightarrow> None)))"

text \<open>
  The loop over the headers: how often and with what last value the content type and the content
  disposition occur, and the bytes of both.
\<close>

record part_headers =
  ph_type :: string
  ph_type_count :: nat
  ph_disposition :: string
  ph_disposition_count :: nat
  ph_bytes :: nat

definition scan_header :: "maillib \<Rightarrow> json \<Rightarrow> part_headers \<Rightarrow> part_headers option" where
  "scan_header lib raw h =
    (case decode_header raw of None \<Rightarrow> None | Some (name, v) \<Rightarrow>
      if length name > 256 \<or> list_ex is_control (runes name) then None
      else
        let contentType = EqualFold (ml_lib lib) name ''Content-Type'';
            contentDisposition = EqualFold (ml_lib lib) name ''Content-Disposition''
        in if (contentType \<or> contentDisposition) \<and> (length v > maximumMIMEFilenameBytes \<or> list_ex is_control (runes v)) then None
           else
             let h = (if contentType then h\<lparr>ph_type := v, ph_type_count := ph_type_count h + 1, ph_bytes := ph_bytes h + length name + length v\<rparr>
                   else if contentDisposition
                   then h\<lparr>ph_disposition := v, ph_disposition_count := ph_disposition_count h + 1, ph_bytes := ph_bytes h + length name + length v\<rparr>
                   else h)
             in if ph_bytes h > MaximumSelectedHeaderBytes then None else Some h)"

fun scan_headers :: "maillib \<Rightarrow> json list \<Rightarrow> part_headers \<Rightarrow> part_headers option" where
  "scan_headers lib [] h = Some h"
| "scan_headers lib (raw # raws) h = (case scan_header lib raw h of None \<Rightarrow> None | Some h' \<Rightarrow> scan_headers lib raws h')"

definition disposition_excluded :: "maillib \<Rightarrow> part_headers \<Rightarrow> bool option" where
  "disposition_excluded lib h =
    (if ph_disposition_count h > 1 then None
     else if ph_disposition_count h = 0 then Some False
     else (case ParseMediaType lib (ph_disposition h) of None \<Rightarrow> None | Some (disposition, parameters) \<Rightarrow>
       if to_lower disposition = ''attachment'' then Some True
       else if to_lower disposition = ''inline'' then Some (map_of parameters ''filename'' \<noteq> None)
       else None))"

definition part_charset :: "maillib \<Rightarrow> part_headers \<Rightarrow> string \<Rightarrow> string option" where
  "part_charset lib h fieldMIMEType =
    (if ph_type_count h > 1 then None
     else if ph_type_count h = 0 then Some ''us-ascii''
     else (case ParseMediaType lib (ph_type h) of None \<Rightarrow> None | Some (mediaType, parameters) \<Rightarrow>
       if \<not> EqualFold (ml_lib lib) mediaType fieldMIMEType then None
       else (case map_of parameters ''charset'' of None \<Rightarrow> Some ''us-ascii'' | Some v \<Rightarrow> Some (to_lower (trim_space v)))))"

definition candidatePartHeaderPolicy :: "maillib \<Rightarrow> json option \<Rightarrow> string \<Rightarrow> bool \<Rightarrow> (string \<times> bool) option" where
  "candidatePartHeaderPolicy lib raw fieldMIMEType textPotential =
    (case raw of
       None \<Rightarrow> Some (''us-ascii'', False)
     | Some raw \<Rightarrow>
         if isJSONNull raw then Some (''us-ascii'', False)
         else (case decodeJSONArray raw of None \<Rightarrow> None | Some headers \<Rightarrow>
           if length headers > MaximumMessageHeaderEntries then None
           else (case scan_headers lib headers
               \<lparr>ph_type = [], ph_type_count = 0, ph_disposition = [], ph_disposition_count = 0, ph_bytes = 0\<rparr> of
               None \<Rightarrow> None
             | Some h \<Rightarrow>
                 (case disposition_excluded lib h of None \<Rightarrow> None | Some dispositionExcluded \<Rightarrow>
                   (case (if textPotential \<and> \<not> dispositionExcluded then part_charset lib h fieldMIMEType else Some ''us-ascii'') of
                      None \<Rightarrow> None
                    | Some charset \<Rightarrow> if validCandidateCharset charset then Some (charset, dispositionExcluded) else None)))))"

text \<open>The first plain text part and the first HTML part are kept.\<close>

definition select_part :: "candidate_part \<Rightarrow> part_selection \<Rightarrow> part_selection" where
  "select_part candidate sel =
    (if cp_kind candidate = CandidateSourceTextPlain \<and> ps_plain sel = None then sel\<lparr>ps_plain := Some candidate\<rparr>
     else if cp_kind candidate = CandidateSourceTextHTML \<and> ps_html sel = None then sel\<lparr>ps_html := Some candidate\<rparr>
     else sel)"

text \<open>What the walk does with one part: whether what is below it is excluded, its children, and the selection.\<close>

definition candidate_node :: "maillib \<Rightarrow> nat \<Rightarrow> bool \<Rightarrow> json \<Rightarrow> part_selection \<Rightarrow> (bool \<times> json list \<times> part_selection) option" where
  "candidate_node lib depth excludedAncestor raw sel =
    (case decodeExactObject raw [''mimeType'', ''headers'', ''filename'', ''body'', ''parts''] of None \<Rightarrow> None | Some part \<Rightarrow>
     (case requiredJSONString part ''mimeType'' of None \<Rightarrow> None | Some mimeType \<Rightarrow>
      if length mimeType = 0 \<or> length mimeType > 255 \<or> list_ex is_control (runes mimeType) then None
      else (case decode_filename part of None \<Rightarrow> None | Some filename \<Rightarrow>
       (case candidatePartBody (part ''body'') of None \<Rightarrow> None | Some (partSize, data, attachmentID) \<Rightarrow>
        let excluded = (excludedAncestor \<or> filename \<noteq> [] \<or> attachmentID \<noteq> []);
            html = EqualFold (ml_lib lib) mimeType ''text/html'';
            textPotential = (\<not> excluded \<and> data \<noteq> [] \<and> (EqualFold (ml_lib lib) mimeType ''text/plain'' \<or> html))
        in (case candidatePartHeaderPolicy lib (part ''headers'') mimeType textPotential of None \<Rightarrow> None
          | Some (charset, dispositionExcluded) \<Rightarrow>
              let eligible = (textPotential \<and> \<not> dispositionExcluded) in
              if eligible \<and> (partSize > int MaximumDecodedContentBytes \<or> length data > b64_encoded_len MaximumDecodedContentBytes) then None
              else
                let sel = (if eligible
                      then select_part \<lparr>cp_kind = (if html then CandidateSourceTextHTML else CandidateSourceTextPlain),
                        cp_charset = charset, cp_data = data, cp_size = partSize\<rparr> sel
                      else sel)
                in (case part ''parts'' of
                      None \<Rightarrow> Some (excluded \<or> dispositionExcluded, [], sel)
                    | Some partsRaw \<Rightarrow>
                        (case decodeJSONArray partsRaw of None \<Rightarrow> None | Some children \<Rightarrow>
                          if depth = MaximumMessagePartDepth \<and> children \<noteq> [] then None
                          else Some (excluded \<or> dispositionExcluded, children, sel))))))))"

function walkCandidatePart :: "maillib \<Rightarrow> nat \<Rightarrow> bool \<Rightarrow> json \<Rightarrow> part_selection \<Rightarrow> part_selection option"
  and walk_candidates :: "maillib \<Rightarrow> nat \<Rightarrow> bool \<Rightarrow> json list \<Rightarrow> part_selection \<Rightarrow> part_selection option" where
  "walkCandidatePart lib depth excludedAncestor raw sel =
    (if depth > MaximumMessagePartDepth then None
     else
       let sel = sel\<lparr>ps_nodes := ps_nodes sel + 1\<rparr> in
       if ps_nodes sel > MaximumMessageParts then None
       else (case candidate_node lib depth excludedAncestor raw sel of
           None \<Rightarrow> None
         | Some (excluded, children, sel') \<Rightarrow> walk_candidates lib (depth + 1) excluded children sel'))"
| "walk_candidates lib depth excluded [] sel = Some sel"
| "walk_candidates lib depth excluded (raw # raws) sel =
    (case walkCandidatePart lib depth excluded raw sel of
       None \<Rightarrow> None | Some sel' \<Rightarrow> walk_candidates lib depth excluded raws sel')"
  by pat_completeness auto
termination
  by (relation "inv_image (less_than <*lex*> less_than) (\<lambda>x. case x of
      Inl (_, d, _, _, _) \<Rightarrow> (Suc MaximumMessagePartDepth - d, 0)
    | Inr (_, d, _, raws, _) \<Rightarrow> (Suc MaximumMessagePartDepth - d, Suc (length raws)))")
    auto

declare walkCandidatePart.simps [simp del]

definition decodeCandidatePartData :: "candidate_part \<Rightarrow> string option" where
  "decodeCandidatePartData part =
    (case b64_decode True (cp_data part) of
       None \<Rightarrow> None
     | Some decoded \<Rightarrow>
         if int (length decoded) \<noteq> cp_size part \<or> length decoded > MaximumDecodedContentBytes \<or> b64_encode decoded \<noteq> cp_data part
         then None else Some decoded)"

text \<open>The text of the selected part.\<close>

definition candidate_text :: "maillib \<Rightarrow> candidate_part \<Rightarrow> string option" where
  "candidate_text lib selected =
    (case decodeCandidatePartData selected of None \<Rightarrow> None | Some raw \<Rightarrow>
     (case decodeCandidateCharset raw (cp_charset selected) of None \<Rightarrow> None | Some decoded \<Rightarrow>
      if length decoded > MaximumDecodedContentBytes then None
      else if cp_kind selected = CandidateSourceTextHTML then candidateHTMLToText lib decoded
      else Some decoded))"

text \<open>The part selected in a document that belongs to the message.\<close>

definition candidate_selection :: "maillib \<Rightarrow> string \<Rightarrow> string \<Rightarrow> string \<Rightarrow> candidate_part option" where
  "candidate_selection lib body messageID threadID =
    (case Option.bind (raw_document body) (\<lambda>raw. decodeExactObject raw [''id'', ''threadId'', ''payload'']) of
       None \<Rightarrow> None
     | Some document \<Rightarrow>
         if requiredJSONString document ''id'' \<noteq> Some messageID \<or> requiredJSONString document ''threadId'' \<noteq> Some threadID then None
         else (case document ''payload'' of None \<Rightarrow> None | Some payload \<Rightarrow>
           if isJSONNull payload then None
           else (case walkCandidatePart lib 1 False payload \<lparr>ps_plain = None, ps_html = None, ps_nodes = 0\<rparr> of
               None \<Rightarrow> None
             | Some sel \<Rightarrow> if ps_plain sel \<noteq> None then ps_plain sel else ps_html sel)))"

definition decodeCandidateContentResponse ::
  "maillib \<Rightarrow> string \<Rightarrow> string \<Rightarrow> string \<Rightarrow> int \<Rightarrow> (string \<times> string \<times> bool) option" where
  "decodeCandidateContentResponse lib body messageID threadID excerptLimit =
    (if excerptLimit < MinimumExcerptBytes \<or> excerptLimit > MaximumExcerptBytes \<or> length body = 0 \<or>
        length body > MaximumCandidateContentBodyBytes
     then None
     else (case candidate_selection lib body messageID threadID of None \<Rightarrow> None | Some selected \<Rightarrow>
       (case candidate_text lib selected of None \<Rightarrow> None | Some decoded \<Rightarrow>
         (case canonicalizeCandidateText decoded (nat excerptLimit) of
            (excerpt, truncated) \<Rightarrow> if excerpt = [] then None else Some (cp_kind selected, excerpt, truncated)))))"

end
