(* ===== verification/Gmail_Html.thy ===== *)
theory Gmail_Html
  imports Gmail_Content Go_Utf8 Gate_Demo
begin

text \<open>
  The reduction of HTML to text: the states of the loop, which are those reached from its start by \<open>html_step\<close>, and
  how large the text is.
\<close>

section \<open>The states of the loop\<close>

inductive html_reaches :: "maillib \<Rightarrow> string \<Rightarrow> string \<Rightarrow> html_state \<Rightarrow> bool" for lib input where
  start: "html_reaches lib input input html_start"
| step: "html_reaches lib input s st \<Longrightarrow> s \<noteq> [] \<Longrightarrow> html_step lib s st = Some (r, st') \<Longrightarrow> html_reaches lib input r st'"

lemma html_loop_reaches: "html_loop lib s st = Some st' \<Longrightarrow> html_reaches lib input s st \<Longrightarrow> html_reaches lib input [] st'"
proof (induction lib s st rule: html_loop.induct)
  case (1 lib s st)
  show ?case
  proof (cases "s = []")
    case True
    then show ?thesis using 1(2,3) by (subst (asm) html_loop.simps) simp
  next
    case False
    then obtain r st1 where r: "html_step lib s st = Some (r, st1)" "html_loop lib r st1 = Some st'"
      using 1(2) by (subst (asm) html_loop.simps) (auto split: option.splits)
    then show ?thesis using 1(1) [OF False r(1) refl r(2)] html_reaches.step [OF 1(3) False r(1)] by simp
  qed
qed

section \<open>Open elements\<close>

lemma write_break_fields [simp]: "hs_stack (write_break st) = hs_stack st" "hs_tokens (write_break st) = hs_tokens st"
  by (simp_all add: write_break_def)

lemma html_close_Some:
  assumes "html_close tag st = Some st'"
  obtains frame rest where "hs_stack st = frame # rest" "hs_stack st' = rest" "hs_tokens st' = hs_tokens st" "fr_name frame = tg_name tag"
    "hs_output st' = hs_output st \<or> hs_output st' = hs_output st @ [CHR 0x0A]" "fr_discard frame \<Longrightarrow> hs_output st' = hs_output st"
  using assms by (auto simp: html_close_def write_break_def Let_def split: list.splits if_splits)

lemma html_open_Some:
  assumes "html_open lib tag st = Some st'"
  obtains hidden where "candidateHidden lib (tg_attributes tag) = Some hidden" "hs_tokens st' = hs_tokens st"
    "hs_output st' = hs_output st \<or> hs_output st' = hs_output st @ [CHR 0x0A]"
    "candidateHTMLDiscarded (hs_stack st) \<Longrightarrow> hs_output st' = hs_output st"
    "hs_stack st' = hs_stack st \<or> hs_stack st' = \<lparr>fr_name = tg_name tag,
       fr_discard = candidateHTMLDiscarded (hs_stack st) \<or> candidateDiscardTag (tg_name tag) \<or> hidden\<rparr> # hs_stack st \<and>
       length (hs_stack st) \<noteq> MaximumMessagePartDepth"
proof -
  obtain hidden where h: "candidateHidden lib (tg_attributes tag) = Some hidden"
    using assms by (auto simp: html_open_def Let_def split: option.splits)
  show thesis
    by (rule that [OF h]; use assms h in \<open>auto simp: html_open_def write_break_def Let_def split: if_splits\<close>)
qed

text \<open>The three things one round can do.\<close>

lemma html_step_cases:
  assumes "html_step lib s st = Some (r, st')" and "s \<noteq> []"
  obtains (shown) t where "decodeCandidateEntities (takeWhile (\<lambda>c. c \<noteq> CHR ''<'') s) = Some t" "hd s \<noteq> CHR ''<''"
      "r = dropWhile (\<lambda>c. c \<noteq> CHR ''<'') s" "st' = html_text t st"
  | (comment) "has_prefix s ''<!--''" "html_comment s = Some r" "st' = st\<lparr>hs_tokens := hs_tokens st + 1\<rparr>" "hs_tokens st' \<le> maximumHTMLTokens"
  | (element) e tag where "hd s = CHR ''<''" "candidateTagEnd None (tl s) = Some e" "r = drop (e + 2) s" "hs_tokens st + 1 \<le> maximumHTMLTokens"
      "parseCandidateTag (take e (tl s)) = Some tag"
      "html_close tag (st\<lparr>hs_tokens := hs_tokens st + 1\<rparr>) = Some st' \<or> html_open lib tag (st\<lparr>hs_tokens := hs_tokens st + 1\<rparr>) = Some st'"
proof (cases "hd s = CHR ''<''")
  case False
  then show thesis using assms that(1) by (auto simp: html_step_def)
next
  case True
  let ?st = "st\<lparr>hs_tokens := hs_tokens st + 1\<rparr>"
  have tokens: "hs_tokens st + 1 \<le> maximumHTMLTokens"
    using assms(1) True by (auto simp: html_step_def Let_def split: if_splits)
  show thesis
  proof (cases "has_prefix s ''<!--''")
    case c: True
    then show thesis using assms(1) True tokens that(2) by (auto simp: html_step_def Let_def)
  next
    case False
    then have "html_element lib s ?st = Some (r, st')" using assms(1) True tokens by (auto simp: html_step_def Let_def)
    then show thesis using that(3) [OF True _ _ tokens] by (auto simp: html_element_def split: option.splits if_splits)
  qed
qed

lemma html_reaches_stack:
  assumes "html_reaches lib input s st"
  shows "length (hs_stack st) \<le> MaximumMessagePartDepth \<and> hs_tokens st \<le> maximumHTMLTokens"
  using assms
proof induction
  case start
  then show ?case by (simp add: html_start_def)
next
  case (step s st r st')
  from step(3,2) show ?case
  proof (cases rule: html_step_cases)
    case (shown t)
    then show ?thesis using step.IH by (simp add: html_text_def)
  next
    case comment
    then show ?thesis using step.IH by simp
  next
    case (element e tag)
    from element(6) show ?thesis
    proof
      assume "html_close tag (st\<lparr>hs_tokens := hs_tokens st + 1\<rparr>) = Some st'"
      then show ?thesis by (rule html_close_Some) (use step.IH element(4) in auto)
    next
      assume "html_open lib tag (st\<lparr>hs_tokens := hs_tokens st + 1\<rparr>) = Some st'"
      then show ?thesis by (rule html_open_Some) (use step.IH element(4) in auto)
    qed
  qed
qed

section \<open>The size of the text\<close>

lemma valid_takeWhile:
  assumes "valid_utf8 s" and "bval c < 0x80"
  shows "valid_utf8 (takeWhile (\<lambda>d. d \<noteq> c) s) \<and> valid_utf8 (dropWhile (\<lambda>d. d \<noteq> c) s)"
proof (cases "dropWhile (\<lambda>d. d \<noteq> c) s")
  case Nil
  then have all: "takeWhile (\<lambda>d. d \<noteq> c) s = s" by (metis append_Nil2 takeWhile_dropWhile_id)
  show ?thesis unfolding all Nil using assms by simp
next
  case (Cons d r)
  then have d: "d = c" using hd_dropWhile [of "\<lambda>d. d \<noteq> c" s] by simp
  then have s: "s = takeWhile (\<lambda>d. d \<noteq> c) s @ c # r" using takeWhile_dropWhile_id [of "\<lambda>d. d \<noteq> c" s] Cons by simp
  then have v: "valid_utf8 (takeWhile (\<lambda>d. d \<noteq> c) s)" using valid_cut [of _ c r] assms by metis
  then show ?thesis using valid_utf8_append [OF v, of "c # r"] s Cons d assms(1) by metis
qed

lemma valid_drop_after:
  assumes "valid_utf8 s" and "n < length s" and "bval (s ! n) < 0x80"
  shows "valid_utf8 (drop (Suc n) s)"
  using valid_cut [of "take n s" "s ! n" "drop (Suc n) s"] assms by (metis id_take_nth_drop)

lemma encode_rune_length: "length (encode_rune r) \<le> 4"
  by (simp add: encode_rune_def Let_def)

lemma decode_entity_bound: "decode_entity x = Some r \<Longrightarrow> rune_valid r \<and> length (encode_rune r) \<le> length x + 2"
proof -
  assume d: "decode_entity x = Some r"
  have named: "r < 0x80" if "map_of entity_names x = Some r"
    using that by (auto simp: entity_names_def split: if_splits)
  have digits: "2 \<le> length x" if "map_of entity_names x = None"
  proof -
    have "parse_hex32 [] = None" "parse_uint 32 [] = None" by (simp_all add: parse_hex32_def parse_uint_def)
    moreover have "has_prefix x ''#'' \<Longrightarrow> x \<noteq> []" by (auto simp: has_prefix_iff)
    moreover have "has_prefix x ''#x'' \<or> has_prefix x ''#X'' \<Longrightarrow> 2 \<le> length x" by (auto simp: has_prefix_iff)
    ultimately show ?thesis using d that unfolding decode_entity_def
      by (cases x; cases "tl x") (auto split: if_splits option.splits simp: has_prefix_def)
  qed
  show ?thesis
  proof (cases "map_of entity_names x")
    case None
    then have "rune_valid r" using d by (auto simp: decode_entity_def rune_valid_def split: if_splits option.splits)
    then show ?thesis using digits [OF None] encode_rune_length [of r] by linarith
  next
    case (Some q)
    then have "q = r" using d by (simp add: decode_entity_def)
    then show ?thesis using named Some by (simp add: rune_valid_def encode_rune_def)
  qed
qed

lemma entities_bound: "decodeCandidateEntities s = Some t \<Longrightarrow> length t \<le> length s \<and> (valid_utf8 s \<longrightarrow> valid_utf8 t)"
proof (induction s arbitrary: t rule: decodeCandidateEntities.induct)
  case (1 s)
  show ?case
  proof (cases s)
    case Nil
    then show ?thesis using 1(3) by (subst (asm) decodeCandidateEntities.simps) simp
  next
    case (Cons c r)
    let ?p = "\<lambda>d. d \<noteq> CHR ''&''"
    show ?thesis
    proof (cases "c = CHR ''&''")
      case False
      then obtain t' where t': "decodeCandidateEntities (dropWhile ?p s) = Some t'" "t = takeWhile ?p s @ t'"
        using 1(3) Cons by (subst (asm) decodeCandidateEntities.simps) auto
      have ih: "length t' \<le> length (dropWhile ?p s)" "valid_utf8 (dropWhile ?p s) \<Longrightarrow> valid_utf8 t'"
        using 1(1) [OF Cons False t'(1)] by blast+
      have "length s = length (takeWhile ?p s) + length (dropWhile ?p s)" by (metis length_append takeWhile_dropWhile_id)
      moreover have "valid_utf8 t" if "valid_utf8 s"
        unfolding t'(2) using valid_takeWhile [OF that, of "CHR ''&''"] ih(2) valid_utf8_append by simp
      ultimately show ?thesis using ih(1) t'(2) by simp
    next
      case True
      then obtain e d t' where e: "index_byte (CHR '';'') s = Some e" "\<not> (e < 2 \<or> e > 16)" "decode_entity (take (e - 1) r) = Some d"
        "decodeCandidateEntities (drop (e + 1) s) = Some t'" "t = encode_rune d @ t'"
        using 1(3) Cons by (subst (asm) decodeCandidateEntities.simps) (auto split: option.splits if_splits)
      have ih: "length t' \<le> length (drop (e + 1) s)" "valid_utf8 (drop (e + 1) s) \<Longrightarrow> valid_utf8 t'"
        using 1(2) [OF Cons _ e(1-4)] True by blast+
      have i: "e < length s" "s ! e = CHR '';''" using index_byte_Some [of "CHR '';''" s e] e(1) by auto
      have d: "rune_valid d" "length (encode_rune d) \<le> e + 1" using decode_entity_bound [OF e(3)] e(2) by auto
      have "valid_utf8 t" if "valid_utf8 s"
        unfolding e(5) using ih(2) valid_drop_after [OF that i(1)] i(2) encode_rune_single(3) [OF d(1)] valid_utf8_append by simp
      then show ?thesis using d(2) ih(1) i(1) e(5) by simp
    qed
  qed
qed

lemma candidateTagEnd_Some: "candidateTagEnd q s = Some e \<Longrightarrow> e < length s \<and> s ! e = CHR ''>''"
  by (induction q s arbitrary: e rule: candidateTagEnd.induct) (auto split: if_splits)

lemma strings_Index_Some: "strings_Index s p = Some i \<Longrightarrow> \<exists>u v. s = u @ p @ v \<and> length u = i"
proof (induction s arbitrary: i)
  case (Cons c r)
  show ?case
  proof (cases "has_prefix (c # r) p")
    case True
    then show ?thesis using Cons.prems by (auto simp: has_prefix_iff)
  next
    case False
    then obtain j where "strings_Index r p = Some j" "i = Suc j" using Cons.prems by auto
    then show ?thesis using Cons.IH by (metis append_Cons length_Cons)
  qed
qed (auto split: if_splits)

lemma html_comment_valid:
  assumes "html_comment s = Some r" and "valid_utf8 s"
  shows "valid_utf8 r \<and> length r \<le> length s"
proof -
  obtain e where e: "strings_Index (drop 4 s) ''-->'' = Some e" "r = drop (4 + e + 3) s"
    using assms(1) by (auto simp: html_comment_def split: option.splits if_splits)
  obtain u v where u: "drop 4 s = u @ ''-->'' @ v" "length u = e" using strings_Index_Some [OF e(1)] by blast
  have s: "s = (take 4 s @ u @ ''--'') @ CHR ''>'' # v" using u(1) by (metis append.assoc append_Cons append_Nil append_take_drop_id)
  have "4 \<le> length s" using u(1) by (cases "4 \<le> length s") simp_all
  then have "r = v" unfolding e(2) using u by (subst s) simp
  moreover have "length r \<le> length s" by (simp add: e(2))
  ultimately show ?thesis using valid_cut [of "take 4 s @ u @ ''--''" "CHR ''>''" v] s assms(2) by simp
qed

lemma html_reaches_bound:
  assumes "html_reaches lib input s st" and "valid_utf8 input"
  shows "valid_utf8 s \<and> valid_utf8 (hs_output st) \<and> length (hs_output st) + length s \<le> length input"
  using assms(1)
proof induction
  case start
  then show ?case using assms(2) by (simp add: html_start_def)
next
  case (step s st r st')
  have grown: "valid_utf8 x" "length x \<le> length (hs_output st) + 1" if "x = hs_output st \<or> x = hs_output st @ [CHR 0x0A]" for x
    using that step.IH by (auto simp: valid_utf8_append valid_utf8_ascii)
  from step(3,2) show ?case
  proof (cases rule: html_step_cases)
    case (shown t)
    let ?p = "\<lambda>c. c \<noteq> CHR ''<''"
    have v: "valid_utf8 (takeWhile ?p s)" "valid_utf8 r" using valid_takeWhile step.IH shown(3) by auto
    have t: "length t \<le> length (takeWhile ?p s)" "valid_utf8 t" using entities_bound [OF shown(1)] v(1) by auto
    have "length s = length (takeWhile ?p s) + length r" unfolding shown(3) by (metis length_append takeWhile_dropWhile_id)
    then show ?thesis using v(2) t step.IH shown(4) by (auto simp: html_text_def valid_utf8_append)
  next
    case comment
    then show ?thesis using html_comment_valid [OF comment(2)] step.IH by auto
  next
    case (element e tag)
    have i: "e + 1 < length s" "s ! (e + 1) = CHR ''>''"
      using candidateTagEnd_Some [OF element(2)] step(2) by (cases s; simp)+
    then have r: "valid_utf8 r" "length r + 2 \<le> length s"
      using valid_drop_after [of s "e + 1"] step.IH element(3) by auto
    have "hs_output st' = hs_output st \<or> hs_output st' = hs_output st @ [CHR 0x0A]"
      using element(6) by (auto elim!: html_close_Some html_open_Some)
    then show ?thesis using grown r step.IH by fastforce
  qed
qed

text \<open>
  The text of an HTML part is valid UTF-8 and no longer than the part, which is at most 524288 bytes;
  while it is computed at most 10000 tags and comments are read and at most 32 elements are open.
\<close>

theorem html_text_bounded:
  assumes "candidateHTMLToText lib input = Some output"
  shows "valid_utf8 output \<and> length output \<le> length input \<and> length input \<le> MaximumDecodedContentBytes \<and>
    (\<forall>s st. html_reaches lib input s st \<longrightarrow> hs_tokens st \<le> maximumHTMLTokens \<and> length (hs_stack st) \<le> MaximumMessagePartDepth)"
proof -
  obtain st where st: "html_loop lib input html_start = Some st" "output = hs_output st" "valid_utf8 input" "length input \<le> MaximumDecodedContentBytes"
    using assms by (auto simp: candidateHTMLToText_def split: if_splits option.splits)
  have "html_reaches lib input [] st" by (rule html_loop_reaches [OF st(1) html_reaches.start])
  then show ?thesis using html_reaches_bound [OF _ st(3)] html_reaches_stack st(2,4) by fastforce
qed


section \<open>An example\<close>

definition demo_maillib :: maillib where
  "demo_maillib = \<lparr>ml_lib = demo_lib, DecodeHeader = Some, ParseList = (\<lambda>v. Some [([], v)]),
     ParseMediaType = (\<lambda>v. Some (v, [])), ParseFloat = (\<lambda>_. None)\<rparr>"

definition demo_html :: string where
  "demo_html = ''<b hidden>x</b>ok''"

lemma demo_tags:
  "parseCandidateTag ''b hidden'' = Some \<lparr>tg_closing = False, tg_self = False, tg_name = ''b'', tg_attributes = [(''hidden'', [])]\<rparr>"
  "parseCandidateTag ''/b'' = Some \<lparr>tg_closing = True, tg_self = False, tg_name = ''b'', tg_attributes = []\<rparr>"
  by (simp_all add: parseCandidateTag_def parseCandidateAttributes_def attributes_from.simps trim_space_def chunks_ascii space_chunk_def
      ascii_decode is_space_def has_suffix_def candidateNameByte_def candidateAttributeByte_def candidateSpace_def in_range_def
      parse_attribute_value_def to_lower_def lower_chunk_def)

lemma demo_entities: "decodeCandidateEntities ''x'' = Some ''x''" "decodeCandidateEntities ''ok'' = Some ''ok''"
  by code_simp+

lemmas html_eval = html_step_def html_element_def html_close_def html_open_def html_text_def write_break_def candidateHTMLDiscarded_def
  candidateHidden_def candidateVoidTag_def candidateBlockTag_def candidateDiscardTag_def maximumHTMLTokens_def maximumHTMLTokenBytes_def
  MaximumMessagePartDepth_def has_prefix_def

lemma demo_html_steps:
  "html_step demo_maillib ''<b hidden>x</b>ok'' html_start =
    Some (''x</b>ok'', html_start\<lparr>hs_stack := [\<lparr>fr_name = ''b'', fr_discard = True\<rparr>], hs_tokens := 1\<rparr>)"
  "html_step demo_maillib ''x</b>ok'' (html_start\<lparr>hs_stack := [\<lparr>fr_name = ''b'', fr_discard = True\<rparr>], hs_tokens := 1\<rparr>) =
    Some (''</b>ok'', html_start\<lparr>hs_stack := [\<lparr>fr_name = ''b'', fr_discard = True\<rparr>], hs_tokens := 1\<rparr>)"
  "html_step demo_maillib ''</b>ok'' (html_start\<lparr>hs_stack := [\<lparr>fr_name = ''b'', fr_discard = True\<rparr>], hs_tokens := 1\<rparr>) =
    Some (''ok'', html_start\<lparr>hs_tokens := 2\<rparr>)"
  "html_step demo_maillib ''ok'' (html_start\<lparr>hs_tokens := 2\<rparr>) = Some ([], html_start\<lparr>hs_output := ''ok'', hs_tokens := 2\<rparr>)"
  by (simp_all add: html_eval html_start_def demo_tags demo_entities has_suffix_def)

lemma demo_html_text: "candidateHTMLToText demo_maillib demo_html = Some ''ok''"
proof -
  have v: "valid_utf8 demo_html" unfolding demo_html_def by (rule valid_utf8_ascii) simp
  have "html_loop demo_maillib demo_html html_start = Some (html_start\<lparr>hs_output := ''ok'', hs_tokens := 2\<rparr>)"
    unfolding demo_html_def by (simp add: html_loop.simps [of _ "_ # _"] html_loop.simps [of _ "[]"] demo_html_steps [unfolded One_nat_def])
  then show ?thesis using v by (simp add: candidateHTMLToText_def html_start_def demo_html_def MaximumDecodedContentBytes_def)
qed

theorem html_text_bounded_witness:
  "candidateHTMLToText demo_maillib demo_html = Some ''ok'' \<and> length ''ok'' \<le> length demo_html"
  using html_text_bounded [OF demo_html_text] demo_html_text by blast

end
