(* ===== verification/Gmail_Excerpt.thy ===== *)
theory Gmail_Excerpt
  imports Gmail_Html
begin

text \<open>
  The excerpt the Gmail package extracts is what the mail package accepts: canonical, within its limit, and
  valid UTF-8, whatever the part contained.
\<close>

abbreviation nl :: char where "nl \<equiv> CHR 0x0A"

abbreviation blank :: "char \<Rightarrow> bool" where "blank c \<equiv> c = CHR '' '' \<or> c = CHR 0x09"

section \<open>Clean text\<close>

definition ok_rune :: "rune \<Rightarrow> bool" where
  "ok_rune r \<longleftrightarrow> (r = 0x0A \<or> r = 0x09 \<or> \<not> is_control r) \<and> \<not> unsafeInvisibleCandidateRune r"

definition clean :: "string \<Rightarrow> bool" where
  "clean s \<longleftrightarrow> valid_utf8 s \<and> list_all ok_rune (runes s)"

lemma unsafe_same: "unsafeCandidateExcerptRune r \<longleftrightarrow> unsafeInvisibleCandidateRune r"
  by (auto simp: unsafeCandidateExcerptRune_def unsafeInvisibleCandidateRune_def)

lemma clean_Nil [simp]: "clean []"
  by (simp add: clean_def runes_def)

lemma clean_append: "clean x \<Longrightarrow> clean (x @ y) \<longleftrightarrow> clean y"
  by (auto simp: clean_def valid_utf8_append runes_append)

lemma clean_cut:
  assumes "clean (x @ c # y)" and "bval c < 0x80"
  shows "clean x \<and> clean y"
proof -
  have v: "valid_utf8 x" "valid_utf8 y" using valid_cut [of x c y] assms unfolding clean_def by blast+
  have "runes (c # y) = bval c # runes y" using assms(2) by (simp add: runes_def chunks_ascii_Cons ascii_decode)
  then have "runes (x @ c # y) = runes x @ bval c # runes y" by (simp add: runes_append [OF v(1)])
  then show ?thesis using assms v by (simp add: clean_def)
qed

lemma clean_nl: "clean [nl]"
  by (simp add: clean_def valid_utf8_ascii runes_ascii ok_rune_def unsafeInvisibleCandidateRune_def)

lemma clean_Cons_nl: "clean (nl # s) \<longleftrightarrow> clean s"
  using clean_append [OF clean_nl, of s] by simp

lemma clean_prefix: "clean (x @ y) \<Longrightarrow> list_all (\<lambda>c. bval c < 0x80) y \<Longrightarrow> clean x"
  using clean_cut [of x "hd y" "tl y"] by (cases y) simp_all

lemma clean_encode_rune: "rune_valid r \<Longrightarrow> ok_rune r \<Longrightarrow> clean (encode_rune r)"
  by (simp add: clean_def encode_rune_single)

lemma clean_cleaned: "clean (concat (map clean_rune (runes s)))"
proof -
  have bad: "clean (encode_rune rune_error)"
    by (rule clean_encode_rune) (simp_all add: ok_rune_def rune_error_def is_control_def unsafeInvisibleCandidateRune_def rune_valid_def)
  have "clean (clean_rune r)" if "rune_valid r" for r
    using clean_encode_rune [OF that] bad by (simp add: clean_rune_def ok_rune_def)
  then have "list_all rune_valid rs \<Longrightarrow> clean (concat (map clean_rune rs))" for rs
    by (induction rs) (simp_all add: clean_append)
  then show ?thesis using runes_valid by (simp add: list_all_iff)
qed

lemma clean_encode: "clean s \<Longrightarrow> concat (map clean_rune (runes s)) = s"
proof -
  assume s: "clean s"
  have "map clean_rune (runes s) = map encode_rune (runes s)"
    using s by (auto simp: clean_def clean_rune_def ok_rune_def list_all_iff)
  then show ?thesis using s encode_runes [of s] unfolding clean_def by metis
qed

lemma clean_no_cr: "clean s \<Longrightarrow> CHR 0x0D \<notin> set s"
proof
  assume s: "clean s" and "CHR 0x0D \<in> set s"
  then obtain x y where e: "s = x @ CHR 0x0D # y" by (auto dest: split_list)
  then have v: "valid_utf8 x" using valid_cut [of x "CHR 0x0D" y] s by (simp add: clean_def)
  have "0x0D \<in> set (runes s)" unfolding e runes_append [OF v] by (simp add: runes_def chunks_ascii_Cons ascii_decode)
  then show False using s by (auto simp: clean_def list_all_iff ok_rune_def is_control_def)
qed

section \<open>Lines\<close>

lemma split_on_append2: "split_on c (x @ c # y) = split_on c x @ split_on c y"
  by (induction x) (auto split: list.splits)

lemma split_on_last: "d \<noteq> c \<Longrightarrow> \<exists>l. last (split_on c (u @ [d])) = l @ [d]"
proof (induction u)
  case (Cons a u)
  then obtain l where l: "last (split_on c (u @ [d])) = l @ [d]" by blast
  obtain p ps where p: "split_on c (u @ [d]) = p # ps" by (cases "split_on c (u @ [d])") simp_all
  show ?case using l p by (cases "a = c"; cases ps) auto
qed simp

lemma split_on_line: "p \<in> set (split_on c s) \<Longrightarrow> \<exists>u v. s = u @ p @ v \<and> (v = [] \<or> hd v = c)"
proof (induction s arbitrary: p)
  case (Cons a s)
  obtain q qs where q: "split_on c s = q # qs" by (cases "split_on c s") simp_all
  have tails: "\<exists>u v. a # s = u @ p @ v \<and> (v = [] \<or> hd v = c)" if p: "p \<in> set (split_on c s)" for p
    using Cons.IH [OF p] by (metis append_Cons)
  have start: "\<exists>v. s = q @ v \<and> (v = [] \<or> hd v = c)"
    using join_split [of c s] q by (cases qs) auto
  consider "p \<in> set (split_on c s)" | "p = []" "a = c" | "p = a # q" using Cons.prems q by (auto split: if_splits)
  then show ?case
  proof cases
    case 2
    then show ?thesis by (intro exI [of _ "[]"] exI [of _ "a # s"]) simp
  next
    case 3
    obtain v where "s = q @ v" "v = [] \<or> hd v = c" using start by blast
    then show ?thesis using 3 by (intro exI [of _ "[]"] exI [of _ v]) simp
  qed (rule tails)
qed simp

text \<open>No blank stands before a line break or at the end.\<close>

definition trimmed :: "string \<Rightarrow> bool" where
  "trimmed s \<longleftrightarrow> (\<forall>u c v. s = u @ c # nl # v \<longrightarrow> \<not> blank c)"

lemma trim_right_blank_fix: "trim_right_blank l = l \<longleftrightarrow> l = [] \<or> \<not> blank (last l)"
proof (cases l rule: rev_cases)
  case (snoc u c)
  have "length (trim_right_blank (u @ [c])) \<le> length u" if "blank c"
    using that length_dropWhile_le [of blank "rev u"] by (auto simp: trim_right_blank_def)
  then have "trim_right_blank (u @ [c]) \<noteq> u @ [c]" if "blank c" using that by (metis length_append_singleton Suc_n_not_le_n)
  moreover have "trim_right_blank (u @ [c]) = u @ [c]" if "\<not> blank c" using that by (simp add: trim_right_blank_def)
  ultimately show ?thesis using snoc by auto
qed (simp add: trim_right_blank_def)

lemma trim_right_blank_split: "\<exists>b. l = trim_right_blank l @ b \<and> list_all (\<lambda>c. bval c < 0x80) b \<and>
    (trim_right_blank l = [] \<or> \<not> blank (last (trim_right_blank l)))"
proof -
  let ?r = "rev l"
  have e: "l = rev (dropWhile blank ?r) @ rev (takeWhile blank ?r)" by (metis rev_append rev_rev_ident takeWhile_dropWhile_id)
  have a: "list_all (\<lambda>c. bval c < 0x80) (rev (takeWhile blank ?r))" by (auto simp: list_all_iff dest!: set_takeWhileD)
  have n: "dropWhile blank ?r = [] \<or> \<not> blank (hd (dropWhile blank ?r))" using hd_dropWhile [of blank ?r] by blast
  have t: "trim_right_blank l = rev (dropWhile blank ?r)" unfolding trim_right_blank_def by (rule refl)
  show ?thesis
  proof (intro exI conjI)
    show "l = trim_right_blank l @ rev (takeWhile blank ?r)" unfolding t by (rule e)
    show "trim_right_blank l = [] \<or> \<not> blank (last (trim_right_blank l))" using n unfolding t by (auto simp: last_rev)
  qed (rule a)
qed

lemma trimmed_lines:
  assumes "trimmed s" and "s = [] \<or> \<not> blank (last s)"
  shows "list_all (\<lambda>line. trim_right_blank line = line) (split_on nl s)"
  unfolding list_all_iff
proof
  fix p assume p: "p \<in> set (split_on nl s)"
  obtain u v where s: "s = u @ p @ v" "v = [] \<or> hd v = nl" using split_on_line [OF p] by blast
  show "trim_right_blank p = p" unfolding trim_right_blank_fix
  proof (cases p rule: rev_cases)
    case (snoc q c)
    show "p = [] \<or> \<not> blank (last p)"
    proof (cases v)
      case Nil
      then show ?thesis using s snoc assms(2) by simp
    next
      case (Cons d w)
      then have "s = (u @ q) @ c # nl # w" using s snoc by simp
      then show ?thesis using assms(1) snoc unfolding trimmed_def by fastforce
    qed
  qed simp
qed

lemma trimmed_join:
  assumes "\<And>l. l \<in> set ls \<Longrightarrow> nl \<notin> set l \<and> (l = [] \<or> \<not> blank (last l))" and "ls \<noteq> []"
  shows "trimmed (join_with nl ls)"
  unfolding trimmed_def
proof (intro allI impI)
  fix u c v assume e: "join_with nl ls = u @ c # nl # v"
  show "\<not> blank c"
  proof (cases "c = nl")
    case False
    have "split_on nl (join_with nl ls) = ls" using split_join [of ls nl] assms by (simp add: list_all_iff)
    then have ls: "ls = split_on nl (u @ [c]) @ split_on nl v" using split_on_append2 [of nl "u @ [c]" v] e by simp
    obtain l where l: "last (split_on nl (u @ [c])) = l @ [c]" using split_on_last False by blast
    have "last (split_on nl (u @ [c])) \<in> set ls" unfolding ls using last_in_set [of "split_on nl (u @ [c])"] by simp
    from assms(1) [OF this] show ?thesis using l by simp
  qed simp
qed


section \<open>Removing line breaks\<close>

text \<open>One line break that follows another is taken out.\<close>

inductive fewer_breaks :: "string \<Rightarrow> string \<Rightarrow> bool" where
  "fewer_breaks (u @ nl # nl # v) (u @ nl # v)"

abbreviation squeezed :: "string \<Rightarrow> string \<Rightarrow> bool" where "squeezed \<equiv> fewer_breaks\<^sup>*\<^sup>*"

lemma fewer_context: "fewer_breaks s t \<Longrightarrow> fewer_breaks (p @ s) (p @ t)"
  by (metis append.assoc fewer_breaks.simps)

lemma squeezed_context: "squeezed s t \<Longrightarrow> squeezed (p @ s) (p @ t)"
  by (induction rule: rtranclp_induct) (auto intro: rtranclp.rtrancl_into_rtrancl fewer_context)

lemma ReplaceAll_squeezed: "squeezed s (strings_ReplaceAll [nl, nl, nl] [nl, nl] s)"
proof (induction s rule: length_induct)
  case (1 s)
  show ?case
  proof (cases s)
    case (Cons c r)
    show ?thesis
    proof (cases "has_prefix s [nl, nl, nl]")
      case True
      then obtain q where q: "s = nl # nl # nl # q" by (auto simp: has_prefix_iff)
      have "strings_ReplaceAll [nl, nl, nl] [nl, nl] s = [nl, nl] @ strings_ReplaceAll [nl, nl, nl] [nl, nl] q"
        using True unfolding q by (simp add: ReplaceAll_Cons numeral_3_eq_3)
      moreover have "squeezed ([nl, nl] @ q) ([nl, nl] @ strings_ReplaceAll [nl, nl, nl] [nl, nl] q)"
        using 1 q by (intro squeezed_context) simp
      moreover have "fewer_breaks s ([nl, nl] @ q)" using fewer_breaks.intros [of "[nl]" q] q by simp
      ultimately show ?thesis by simp
    next
      case False
      then have "strings_ReplaceAll [nl, nl, nl] [nl, nl] s = [c] @ strings_ReplaceAll [nl, nl, nl] [nl, nl] r"
        using Cons by (simp add: ReplaceAll_Cons)
      then show ?thesis using squeezed_context [of r "strings_ReplaceAll [nl, nl, nl] [nl, nl] r" "[c]"] 1 Cons by simp
    qed
  qed simp
qed

lemma collapse_squeezed: "squeezed s (collapse_breaks s) \<and> \<not> contains (collapse_breaks s) [nl, nl, nl]"
proof (induction s rule: collapse_breaks.induct)
  case (1 s)
  show ?case
  proof (cases "contains s [nl, nl, nl]")
    case True
    then have "collapse_breaks s = collapse_breaks (strings_ReplaceAll [nl, nl, nl] [nl, nl] s)"
      by (subst collapse_breaks.simps) simp
    then show ?thesis using 1 [OF True] ReplaceAll_squeezed [of s] by (metis rtranclp_trans)
  next
    case False
    then have "collapse_breaks s = s" by (subst collapse_breaks.simps) simp
    then show ?thesis using False by simp
  qed
qed

section \<open>Trimming\<close>

text \<open>The first and the last character are not white space.\<close>

definition tight :: "string \<Rightarrow> bool" where
  "tight s \<longleftrightarrow> s = [] \<or> \<not> space_chunk (hd (chunks s)) \<and> \<not> space_chunk (last (chunks s))"

lemma tight_trim: "tight s \<Longrightarrow> trim_space s = s"
proof (cases "s = []")
  case False
  assume t: "tight s"
  let ?cs = "chunks s"
  have "dropWhile space_chunk ?cs = ?cs" using t False unfolding tight_def by (cases ?cs) auto
  moreover have "dropWhile space_chunk (rev ?cs) = rev ?cs"
  proof (cases ?cs rule: rev_cases)
    case (snoc u c)
    then show ?thesis using t False unfolding tight_def by simp
  qed simp
  ultimately show ?thesis by (simp add: trim_space_def)
qed (simp add: trim_space_def)

lemma chunks_concat: "list_all (\<lambda>c. valid_utf8 c \<and> chunks c = [c]) cs \<Longrightarrow> chunks (concat cs) = cs"
  by (induction cs) (simp_all add: chunks_append)

lemma chunk_single: "valid_utf8 s \<Longrightarrow> c \<in> set (chunks s) \<Longrightarrow> chunks c = [c]"
proof (induction s rule: chunks.induct)
  case (2 a s)
  let ?n = "rune_size (a # s)"
  have nm: "\<not> malformed (a # s)" and v: "valid_utf8 (drop ?n (a # s))" using 2(2) by (simp_all add: valid_utf8_Cons)
  have "chunks (take ?n (a # s)) = [take ?n (a # s)]"
    using encode_rune_single(1) [OF decode_rune_valid] encode_decode_rune [OF nm] by metis
  then show ?case using 2 v by (auto simp: chunks.simps(2))
qed simp

lemma trim_space_tight:
  assumes "valid_utf8 s"
  shows "tight (trim_space s) \<and> valid_utf8 (trim_space s) \<and> (\<exists>u v. s = u @ trim_space s @ v \<and> valid_utf8 u)"
proof -
  let ?a = "takeWhile space_chunk (chunks s)" and ?m = "dropWhile space_chunk (chunks s)"
  let ?t = "rev (dropWhile space_chunk (rev ?m))" and ?b = "rev (takeWhile space_chunk (rev ?m))"
  have split: "chunks s = ?a @ ?t @ ?b" by (metis rev_append rev_rev_ident takeWhile_dropWhile_id)
  have t: "trim_space s = concat ?t" by (simp add: trim_space_def)
  have subs: "set ?t \<subseteq> set (chunks s)" "set ?a \<subseteq> set (chunks s)"
    using arg_cong [OF split, of set] unfolding set_append by blast+
  then have cs: "chunks (concat ?t) = ?t"
    using chunks_concat [of ?t] chunk_single [OF assms] valid_utf8_chunks [OF assms] unfolding list_all_iff by blast
  have valid: "valid_utf8 (concat ?t)" "valid_utf8 (concat ?a)"
    using subs valid_utf8_chunks [OF assms] by (intro valid_utf8_concat, auto simp: list_all_iff)+
  have "s = concat ?a @ concat ?t @ concat ?b" using concat_chunks [of s] split by (metis concat_append)
  moreover have "tight (concat ?t)"
  proof (cases "?t = []")
    case False
    then have "\<not> space_chunk (last ?t)" using hd_dropWhile [of space_chunk "rev ?m"] by (simp add: last_rev)
    moreover have "hd ?t = hd ?m"
      using False by (metis hd_append2 rev_append rev_rev_ident takeWhile_dropWhile_id)
    moreover have "\<not> space_chunk (hd ?m)" using hd_dropWhile [of space_chunk "chunks s"] False by fastforce
    ultimately show ?thesis unfolding tight_def cs by simp
  next
    case True
    then show ?thesis unfolding tight_def True by simp
  qed
  ultimately show ?thesis using valid unfolding t by blast
qed

lemma tight_last:
  assumes "valid_utf8 s" and "tight s"
  shows "s = [] \<or> \<not> blank (last s)"
proof (cases s rule: rev_cases)
  case (snoc u c)
  have "\<not> blank (last s)"
  proof
    assume "blank (last s)"
    then have c: "blank c" "bval c < 0x80" using snoc by auto
    have "valid_utf8 u" using valid_cut [of u c "[]"] assms(1) snoc c(2) by simp
    then have "last (chunks s) = [c]" using c(2) by (simp add: snoc chunks_append chunks_ascii_Cons)
    moreover have "space_chunk [c]" using c by (auto simp: space_chunk_def ascii_decode is_space_def)
    ultimately show False using assms(2) snoc by (auto simp: tight_def)
  qed
  then show ?thesis ..
qed simp

section \<open>Canonical text\<close>

lemma trimmed_infix: "trimmed (u @ s @ v) \<Longrightarrow> trimmed s"
proof -
  assume t: "trimmed (u @ s @ v)"
  show ?thesis unfolding trimmed_def
  proof (intro allI impI)
    fix x c y assume "s = x @ c # nl # y"
    then have "u @ s @ v = (u @ x) @ c # nl # (y @ v)" by simp
    then show "\<not> blank c" using t unfolding trimmed_def by blast
  qed
qed

lemma trimmed_fewer: "trimmed (u @ nl # nl # v) \<Longrightarrow> trimmed (u @ nl # v)"
proof -
  assume t: "trimmed (u @ nl # nl # v)"
  then have ok: "\<not> blank c" if "u @ nl # nl # v = x @ c # nl # y" for x c y using that unfolding trimmed_def by blast
  show ?thesis unfolding trimmed_def
  proof (intro allI impI)
    fix x c y assume e: "u @ nl # v = x @ c # nl # y"
    then consider (before) w where "u = x @ w" "w @ nl # v = c # nl # y" | (after) w where "x = u @ w" "nl # v = w @ c # nl # y"
      by (auto simp: append_eq_append_conv2)
    then show "\<not> blank c"
    proof cases
      case before
      show ?thesis
      proof (cases w)
        case (Cons d w')
        then have "u @ nl # nl # v = x @ c # nl # (tl (w' @ [nl]) @ nl # v)" using before by (cases w') auto
        then show ?thesis by (rule ok)
      qed (use before in auto)
    next
      case after
      then have "u @ nl # nl # v = (u @ nl # w) @ c # nl # y" by simp
      then show ?thesis by (rule ok)
    qed
  qed
qed

definition settled :: "string \<Rightarrow> bool" where
  "settled s \<longleftrightarrow> clean s \<and> trimmed s \<and> tight s"

lemma settled_fewer: "fewer_breaks s t \<Longrightarrow> settled s \<Longrightarrow> settled t \<and> length t < length s"
proof (induction rule: fewer_breaks.induct)
  case (1 u v)
  then have all: "clean (u @ nl # nl # v)" "trimmed (u @ nl # nl # v)" "tight (u @ nl # nl # v)" by (simp_all add: settled_def)
  have c: "clean u" "clean v" using clean_cut [OF all(1)] by (simp_all add: clean_Cons_nl)
  then have vu: "valid_utf8 u" by (simp add: clean_def)
  have cs: "chunks (u @ nl # w) = chunks u @ [nl] # chunks w" for w by (simp add: chunks_append [OF vu] chunks_ascii_Cons)
  have sp: "space_chunk [nl]" by (simp add: space_chunk_def ascii_decode is_space_def)
  have "u \<noteq> []" using all(3) sp unfolding tight_def by (auto simp: chunks_ascii_Cons)
  moreover have "v \<noteq> []" using all(3) sp unfolding tight_def cs by (auto simp: chunks_ascii_Cons)
  ultimately have "tight (u @ nl # v)" using all(3) unfolding tight_def cs by (simp add: chunks_ascii_Cons)
  moreover have "clean (u @ nl # v)" using c by (simp add: clean_append clean_Cons_nl)
  ultimately show ?case using trimmed_fewer [OF all(2)] by (simp add: settled_def)
qed

lemma settled_squeezed: "squeezed s t \<Longrightarrow> settled s \<Longrightarrow> settled t \<and> length t \<le> length s"
  by (induction rule: rtranclp_induct) (auto dest: settled_fewer)

lemma settled_canonical:
  assumes "settled s" and "\<not> contains s [nl, nl, nl]" and "s \<noteq> []"
  shows "canonicalCandidateExcerpt s"
proof -
  have v: "valid_utf8 s" and r: "list_all ok_rune (runes s)" using assms(1) by (simp_all add: settled_def clean_def)
  have t: "trim_space s = s" using tight_trim assms(1) by (simp add: settled_def)
  have l: "list_all (\<lambda>line. trim_right_blank line = line) (split_on nl s)"
    using trimmed_lines tight_last [OF v] assms(1) by (simp add: settled_def)
  have "list_all (\<lambda>r. \<not> (r \<noteq> 0x0A \<and> r \<noteq> 0x09 \<and> is_control r \<or> unsafeCandidateExcerptRune r)) (runes s)"
    using r by (auto simp: list_all_iff ok_rune_def unsafe_same)
  then show ?thesis unfolding canonicalCandidateExcerpt_def using v t l assms(2,3) by (simp del: contains.simps)
qed

text \<open>The text after the lines are trimmed, before breaks are collapsed.\<close>

lemma clean_join: "list_all clean ls \<Longrightarrow> clean (join_with nl ls)"
  by (induction nl ls rule: join_with.induct) (simp_all add: clean_append clean_Cons_nl)

lemma clean_lines: "clean s \<Longrightarrow> list_all clean (split_on nl s)"
proof (induction "split_on nl s" arbitrary: s rule: list.induct)
  case (Cons p ps)
  note split = Cons.hyps(2) [symmetric]
  show ?case
  proof (cases ps)
    case Nil
    then have "s = p" using join_split [of nl s] unfolding split by simp
    then show ?thesis unfolding split using Cons.prems Nil by simp
  next
    case ps: (Cons q qs)
    then have s: "s = p @ nl # join_with nl ps" using join_split [of nl s] unfolding split by simp
    have "list_all (\<lambda>l. nl \<notin> set l) ps" using split_on_no_sep [of _ nl s] unfolding split list_all_iff by simp
    then have "split_on nl (join_with nl ps) = ps" using split_join [of ps nl] ps by simp
    moreover have "clean p" "clean (join_with nl ps)" using clean_cut [of p nl "join_with nl ps"] Cons.prems s by simp_all
    ultimately show ?thesis unfolding split using Cons.hyps(1) [of "join_with nl ps"] by simp
  qed
qed simp

lemma trimmed_text:
  assumes "clean s"
  shows "settled (trim_space (join_with nl (map trim_right_blank (split_on nl s))))"
proof -
  let ?ls = "map trim_right_blank (split_on nl s)"
  let ?j = "join_with nl ?ls"
  have line: "clean (trim_right_blank l) \<and> nl \<notin> set (trim_right_blank l) \<and> (trim_right_blank l = [] \<or> \<not> blank (last (trim_right_blank l)))"
    if l: "l \<in> set (split_on nl s)" for l
  proof -
    obtain b where b: "l = trim_right_blank l @ b" "list_all (\<lambda>c. bval c < 0x80) b" "trim_right_blank l = [] \<or> \<not> blank (last (trim_right_blank l))"
      using trim_right_blank_split [of l] by blast
    have "clean l" using clean_lines [OF assms] l by (simp add: list_all_iff)
    then have "clean (trim_right_blank l)" using clean_prefix b(1,2) by metis
    moreover have "nl \<notin> set (trim_right_blank l)" using split_on_no_sep [OF l] b(1) by (metis Un_iff set_append)
    ultimately show ?thesis using b(3) by blast
  qed
  have j: "clean ?j" using line by (intro clean_join) (auto simp: list_all_iff)
  have t: "trimmed ?j" using line by (intro trimmed_join) auto
  have v: "valid_utf8 ?j" using j by (simp add: clean_def)
  obtain u w where uw: "?j = u @ trim_space ?j @ w" "valid_utf8 u" "valid_utf8 (trim_space ?j)" "tight (trim_space ?j)"
    using trim_space_tight [OF v] by blast
  have "runes ?j = runes u @ runes (trim_space ?j) @ runes w"
    using arg_cong [OF uw(1), of runes] by (simp add: runes_append [OF uw(2)] runes_append [OF uw(3)])
  then have "clean (trim_space ?j)" using j uw(3) by (simp add: clean_def)
  moreover have "trimmed (trim_space ?j)" using t uw(1) trimmed_infix by metis
  ultimately show ?thesis using uw(4) by (simp add: settled_def)
qed

lemma normalize_settled: "settled (normalizeCandidateText s) \<and> \<not> contains (normalizeCandidateText s) [nl, nl, nl]"
proof -
  let ?c = "concat (map clean_rune (runes (strings_ReplaceAll [CHR 0x0D] [nl] (strings_ReplaceAll [CHR 0x0D, nl] [nl] s))))"
  let ?t = "trim_space (join_with nl (map trim_right_blank (split_on nl ?c)))"
  have n: "normalizeCandidateText s = collapse_breaks ?t" by (simp add: normalizeCandidateText_def Let_def)
  have "settled ?t" by (rule trimmed_text [OF clean_cleaned])
  then show ?thesis unfolding n using collapse_squeezed [of ?t] settled_squeezed by blast
qed


section \<open>Lengths\<close>

lemma ReplaceAll_absent: "a \<notin> set s \<Longrightarrow> strings_ReplaceAll (a # old) new s = s"
proof (induction s)
  case (Cons c r)
  then have "\<not> has_prefix (c # r) (a # old)" by (auto simp: has_prefix_iff)
  then show ?case using Cons by (simp add: ReplaceAll_Cons)
qed simp

lemma join_shorter: "(\<And>l. l \<in> set ls \<Longrightarrow> length (f l) \<le> length l) \<Longrightarrow> length (join_with c (map f ls)) \<le> length (join_with c ls)"
  by (induction c ls rule: join_with.induct) (auto intro: add_mono)

lemma normalize_shorter:
  assumes "clean s"
  shows "length (normalizeCandidateText s) \<le> length s"
proof -
  let ?t = "trim_space (join_with nl (map trim_right_blank (split_on nl s)))"
  have "CHR 0x0D \<notin> set s" by (rule clean_no_cr [OF assms])
  then have n: "normalizeCandidateText s = collapse_breaks ?t"
    using clean_encode [OF assms] by (simp add: normalizeCandidateText_def Let_def ReplaceAll_absent)
  have "length (trim_right_blank l) \<le> length l" for l
    using trim_right_blank_split [of l] by (metis length_append le_add1)
  then have "length (join_with nl (map trim_right_blank (split_on nl s))) \<le> length s"
    using join_shorter [of "split_on nl s" trim_right_blank nl] join_split [of nl s] by simp
  moreover have "length (trim_space x) \<le> length x" if "valid_utf8 x" for x
    using trim_space_tight [OF that] by (metis length_append le_add1 le_add2 le_trans)
  moreover have "valid_utf8 (join_with nl (map trim_right_blank (split_on nl s)))"
  proof -
    have "clean (trim_right_blank l)" if "l \<in> set (split_on nl s)" for l
      using clean_prefix trim_right_blank_split [of l] clean_lines [OF assms] that unfolding list_all_iff by metis
    then have "clean (join_with nl (map trim_right_blank (split_on nl s)))" by (intro clean_join) (simp add: list_all_iff)
    then show ?thesis by (simp add: clean_def)
  qed
  moreover have "length (collapse_breaks ?t) \<le> length ?t"
    using collapse_squeezed [of ?t] settled_squeezed trimmed_text [OF assms] by blast
  ultimately show ?thesis unfolding n by (meson le_trans)
qed

lemma valid_boundary: "valid_utf8 s \<Longrightarrow> b < length s \<Longrightarrow> rune_start (s ! b) \<Longrightarrow> valid_utf8 (take b s)"
proof (induction s arbitrary: b rule: chunks.induct)
  case (2 a s)
  let ?n = "rune_size (a # s)"
  have nm: "\<not> malformed (a # s)" and v: "valid_utf8 (drop ?n (a # s))" using 2(2) by (simp_all add: valid_utf8_Cons)
  show ?case
  proof (cases "b < ?n")
    case True
    have "b = 0"
    proof (rule ccontr)
      assume b: "b \<noteq> 0"
      from nm show False
      proof (cases rule: not_malformed_cases)
        case ascii
        then show ?thesis using True b by (simp add: rune_size_def)
      next
        case (multi l)
        then have "list_all cont (take (fst l) s)" by (auto simp: tail_ok_def split: prod.splits)
        moreover have "b - 1 < fst l" "b - 1 < length s" using True multi 2(3) b by (auto simp: rune_size_def)
        ultimately have "cont (s ! (b - 1))" by (metis list_all_length length_take min_less_iff_conj nth_take)
        then show ?thesis using 2(4) b by (simp add: rune_start_def nth_Cons')
      qed
    qed
    then show ?thesis by simp
  next
    case False
    have "valid_utf8 (take (b - ?n) (drop ?n (a # s)))"
    proof (rule 2(1) [OF v])
      show "b - ?n < length (drop ?n (a # s))" using 2(3) False by simp
      have "drop ?n (a # s) ! (b - ?n) = (a # s) ! b" using 2(3) False by (simp add: nth_drop)
      then show "rune_start (drop ?n (a # s) ! (b - ?n))" using 2(4) by simp
    qed
    moreover have "valid_utf8 (take ?n (a # s))"
      using encode_rune_single(3) [OF decode_rune_valid] encode_decode_rune [OF nm] by metis
    moreover have "take b (a # s) = take ?n (a # s) @ take (b - ?n) (drop ?n (a # s))"
      using False by (metis append_take_drop_id le_add_diff_inverse not_less take_add)
    ultimately show ?thesis using valid_utf8_append by metis
  qed
qed simp

lemma rune_boundary_le: "rune_boundary s n \<le> n \<and> (rune_boundary s n = 0 \<or> rune_start (s ! rune_boundary s n))"
  by (induction n) (auto simp: le_Suc_eq)

lemma canonicalize_within:
  assumes "canonicalizeCandidateText input limit = (excerpt, truncated)" and "excerpt \<noteq> []"
  shows "canonicalCandidateExcerpt excerpt \<and> length excerpt \<le> limit"
proof -
  let ?c = "normalizeCandidateText input"
  have settle: "canonicalCandidateExcerpt (normalizeCandidateText x)" if "normalizeCandidateText x \<noteq> []" for x
    using settled_canonical normalize_settled that by blast
  show ?thesis
  proof (cases "length ?c \<le> limit")
    case True
    then show ?thesis using assms settle [of input] by (auto simp: canonicalizeCandidateText_def Let_def)
  next
    case False
    let ?b = "rune_boundary ?c limit"
    let ?p = "take ?b ?c"
    have e: "excerpt = normalizeCandidateText ?p" using assms(1) False by (simp add: canonicalizeCandidateText_def Let_def)
    have c: "clean ?c" using normalize_settled by (simp add: settled_def)
    note b = rune_boundary_le [of ?c limit]
    have p: "valid_utf8 ?p"
      using valid_boundary [of ?c ?b] c b False by (cases "?b = 0") (simp_all add: clean_def)
    have "runes ?c = runes ?p @ runes (drop ?b ?c)" using runes_append [OF p, of "drop ?b ?c"] by simp
    then have "clean ?p" using c p by (simp add: clean_def)
    then have "length excerpt \<le> length ?p" unfolding e by (rule normalize_shorter)
    then show ?thesis using settle e assms(2) b by fastforce
  qed
qed


section \<open>What is extracted can be stored\<close>

definition kinds_valid :: "part_selection \<Rightarrow> bool" where
  "kinds_valid sel \<longleftrightarrow> (\<forall>p. ps_plain sel = Some p \<or> ps_html sel = Some p \<longrightarrow> source_kind_valid (cp_kind p))"

lemma kinds_select: "kinds_valid sel \<Longrightarrow> source_kind_valid (cp_kind c) \<Longrightarrow> kinds_valid (select_part c sel)"
  by (auto simp: kinds_valid_def select_part_def split: if_splits)

lemma candidate_node_kinds:
  assumes "candidate_node lib d ex raw sel = Some (e, cs, sel')" and "kinds_valid sel"
  shows "kinds_valid sel'"
proof -
  have "source_kind_valid CandidateSourceTextHTML" "source_kind_valid CandidateSourceTextPlain" by (simp_all add: source_kind_valid_def)
  then show ?thesis using assms unfolding candidate_node_def Let_def
    by (auto split: option.splits if_splits prod.splits intro!: kinds_select)
qed

lemma walk_kinds:
  "walkCandidatePart lib d ex raw sel = Some sel' \<Longrightarrow> kinds_valid sel \<Longrightarrow> kinds_valid sel'"
  "walk_candidates lib d ex raws sel = Some sel' \<Longrightarrow> kinds_valid sel \<Longrightarrow> kinds_valid sel'"
proof (induction lib d ex raw sel and lib d ex raws sel arbitrary: sel' and sel' rule: walkCandidatePart_walk_candidates.induct)
  case (1 lib depth ex raw sel)
  let ?s = "sel\<lparr>ps_nodes := ps_nodes sel + 1\<rparr>"
  obtain e cs s where n: "candidate_node lib depth ex raw ?s = Some (e, cs, s)" "walk_candidates lib (depth + 1) e cs s = Some sel'"
    "\<not> depth > MaximumMessagePartDepth" "\<not> ps_nodes ?s > MaximumMessageParts"
    using 1(2) by (subst (asm) walkCandidatePart.simps) (auto simp: Let_def split: if_splits option.splits)
  have "kinds_valid ?s" using 1(3) by (simp add: kinds_valid_def)
  then have "kinds_valid s" by (rule candidate_node_kinds [OF n(1)])
  then show ?case using 1(1) [OF n(3) refl n(4,1) refl refl n(2)] by simp
qed (auto split: option.splits)

lemma selected_kind: "candidate_selection lib body m t = Some part \<Longrightarrow> source_kind_valid (cp_kind part)"
proof -
  assume "candidate_selection lib body m t = Some part"
  then obtain payload sel where w: "walkCandidatePart lib 1 False payload \<lparr>ps_plain = None, ps_html = None, ps_nodes = 0\<rparr> = Some sel"
    "ps_plain sel = Some part \<or> ps_html sel = Some part"
    unfolding candidate_selection_def by (auto split: option.splits if_splits)
  have "kinds_valid sel" by (rule walk_kinds(1) [OF w(1)]) (simp add: kinds_valid_def)
  then show ?thesis using w(2) by (auto simp: kinds_valid_def)
qed

text \<open>
  C37 (excerpt_storable): Whatever the provider answers, an excerpt the decoder returns is one the storage layer accepts:
  with valid identifiers and a legal time the constructor of stored content succeeds on it, for the limit
  it was decoded with. The excerpt is canonical UTF-8 without control and invisible characters.
\<close>

theorem excerpt_storable:
  assumes "decodeCandidateContentResponse lib body m t limit = Some (kind, excerpt, truncated)"
    and "validLowerHex record 64" and "validLowerHex source 64" and "version > 0" and "validLowerHex input 64"
    and "0 \<le> at" and "at \<le> MaximumContentFetchedAtUnixMS"
  shows "\<exists>c. NewCandidateContent \<lparr>ci_record_id = record, ci_source_hash = source, ci_gate_version = version,
      ci_gate_input_hash = input, ci_source_kind = kind, ci_excerpt = excerpt, ci_excerpt_limit = limit,
      ci_truncated = truncated, ci_fetched_at = at\<rparr> = Inr c \<and> cc_excerpt c = excerpt \<and> content_valid c"
proof -
  obtain part decoded where p: "candidate_selection lib body m t = Some part" "kind = cp_kind part"
    "canonicalizeCandidateText decoded (nat limit) = (excerpt, truncated)" "excerpt \<noteq> []"
    "MinimumExcerptBytes \<le> limit" "limit \<le> MaximumExcerptBytes"
    using assms(1) unfolding decodeCandidateContentResponse_def by (auto split: if_splits option.splits prod.splits)
  let ?i = "\<lparr>ci_record_id = record, ci_source_hash = source, ci_gate_version = version,
      ci_gate_input_hash = input, ci_source_kind = kind, ci_excerpt = excerpt, ci_excerpt_limit = limit,
      ci_truncated = truncated, ci_fetched_at = at\<rparr>"
  have "canonicalCandidateExcerpt excerpt" "length excerpt \<le> nat limit" using canonicalize_within [OF p(3,4)] by blast+
  then have v: "validCandidateContentInput ?i"
    using assms(2-7) p selected_kind [OF p(1)] by (simp add: validCandidateContentInput_def MinimumExcerptBytes_def)
  then obtain c where c: "NewCandidateContent ?i = Inr c" "cc_excerpt c = excerpt" by (simp add: NewCandidateContent_def)
  then have "content_valid c" using redecode_new [OF c(1)] by (simp add: content_valid_def content_equal_def)
  then show ?thesis using c by blast
qed


section \<open>An example\<close>

definition demo_payload :: json where
  "demo_payload = JObj [(''mimeType'', JStr ''text/plain''), (''body'', JObj [(''size'', JNum ''2''), (''data'', JStr ''SGk'')])]"

definition demo_answer :: string where
  "demo_answer = json_print False (JObj [(''id'', JStr ''m1''), (''threadId'', JStr ''t1''), (''payload'', demo_payload)])"

lemma demo_answer_document: "raw_document demo_answer = Some (JObj [(''id'', JStr ''m1''), (''threadId'', JStr ''t1''), (''payload'', demo_payload)])"
proof -
  let ?v = "JObj [(''id'', JStr ''m1''), (''threadId'', JStr ''t1''), (''payload'', demo_payload)]"
  have n: "''2'' = format_uint (digits_value ''2'')" by code_simp
  have w: "json_wf ?v" unfolding demo_payload_def using n by (simp add: valid_utf8_ascii del: format_uint.simps)
  have p: "demo_answer = json_print False ?v" by (simp add: demo_answer_def)
  have "json_unicode_from False demo_answer"
    unfolding demo_answer_def demo_payload_def
    by (simp add: json_quote_def chunks_ascii escape_chunk_def Let_def ascii_decode malformed_def rune_error_def
        json_unicode_from.simps [of _ "_ # _"] json_unicode_from.simps [of _ "[]"])
  then show ?thesis using json_unmarshal_print [OF w] json_print_utf8(1) [OF w] by (simp add: raw_document_def validJSONUnicode_def p)
qed

lemma demo_selection:
  "candidate_selection demo_maillib demo_answer ''m1'' ''t1'' =
    Some \<lparr>cp_kind = CandidateSourceTextPlain, cp_charset = ''us-ascii'', cp_data = ''SGk'', cp_size = 2\<rparr>"
proof -
  have plain: "EqualFold demo_lib ''text/plain'' ''text/plain''" "\<not> EqualFold demo_lib ''text/plain'' ''text/html''"
    by (simp_all add: EqualFold_def runes_ascii equal_fold_rune_def)
  have two: "parse_int64 ''2'' = Some 2"
    by (simp add: parse_int64_def parse_uint_def has_prefix_def is_digit_iff digits_value_def)
  have text_two: "format_int 2 = ''2''" by code_simp
  show ?thesis
    unfolding candidate_selection_def demo_answer_document
    by (simp add: decodeExactObject_def decodeStrictRawObject_def MaximumMessagePartDepth_def demo_payload_def requiredJSONString_def
        decodeJSONString_def isJSONNull_def walkCandidatePart.simps MaximumMessageParts_def candidate_node_def decode_filename_def
        optionalJSONString_def candidatePartBody_def two text_two maximumAttachmentIDBytes_def runes_def Let_def candidatePartHeaderPolicy_def
        plain [unfolded EqualFold_def runes_def] demo_maillib_def EqualFold_def equal_fold_rune_def is_control_def runes_ascii [unfolded runes_def]
        b64_encoded_len_def MaximumDecodedContentBytes_def select_part_def CandidateSourceTextPlain_def)
qed

lemma demo_response: "decodeCandidateContentResponse demo_maillib demo_answer ''m1'' ''t1'' 1024 = Some (CandidateSourceTextPlain, ''Hi'', False)"
proof -
  have d: "b64_decode True ''SGk'' = Some ''Hi''" "b64_encode ''Hi'' = ''SGk''" by code_simp+
  have c: "concat (map clean_rune (runes ''Hi'')) = ''Hi''"
    by (rule clean_encode) (simp add: clean_def valid_utf8_ascii runes_ascii ok_rune_def unsafeInvisibleCandidateRune_def is_control_def)
  have e: "collapse_breaks ''Hi'' = ''Hi''" by (subst collapse_breaks.simps) (simp add: has_prefix_def)
  have t: "trim_space ''Hi'' = ''Hi''" by (simp add: trim_space_def chunks_ascii space_chunk_def ascii_decode is_space_def)
  have b: "map trim_right_blank (split_on nl ''Hi'') = [''Hi'']" by (simp add: trim_right_blank_def)
  have r: "strings_ReplaceAll [CHR 0x0D] [nl] (strings_ReplaceAll [CHR 0x0D, nl] [nl] ''Hi'') = ''Hi''" by (simp add: ReplaceAll_absent)
  have n: "normalizeCandidateText ''Hi'' = ''Hi''" unfolding normalizeCandidateText_def Let_def r c b by (simp add: t e)
  have l: "length demo_answer \<noteq> 0" "length demo_answer \<le> MaximumCandidateContentBodyBytes"
    unfolding MaximumCandidateContentBodyBytes_def demo_answer_def demo_payload_def
    by (simp_all add: json_quote_def chunks_ascii escape_chunk_def Let_def ascii_decode malformed_def rune_error_def)
  show ?thesis unfolding decodeCandidateContentResponse_def demo_selection using l d n
    by (simp add: candidate_text_def decodeCandidatePartData_def decodeCandidateCharset_def canonicalizeCandidateText_def
        MaximumDecodedContentBytes_def MinimumExcerptBytes_def MaximumExcerptBytes_def CandidateSourceTextPlain_def CandidateSourceTextHTML_def)
qed

theorem excerpt_storable_witness:
  "\<exists>c. NewCandidateContent \<lparr>ci_record_id = replicate 64 (CHR ''0''), ci_source_hash = replicate 64 (CHR ''1''), ci_gate_version = 1,
      ci_gate_input_hash = replicate 64 (CHR ''2''), ci_source_kind = CandidateSourceTextPlain, ci_excerpt = ''Hi'', ci_excerpt_limit = 1024,
      ci_truncated = False, ci_fetched_at = 0\<rparr> = Inr c \<and> cc_excerpt c = ''Hi''"
proof -
  have h: "validLowerHex (replicate 64 (CHR ''0'')) 64" "validLowerHex (replicate 64 (CHR ''1'')) 64" "validLowerHex (replicate 64 (CHR ''2'')) 64"
    by code_simp+
  show ?thesis using excerpt_storable [OF demo_response h(1,2) _ h(3), of 1 0] by (auto simp: MaximumContentFetchedAtUnixMS_def)
qed

end
