(* ===== verification/Gmail_Forest.thy ===== *)
theory Gmail_Forest
  imports Gmail_Html
begin

text \<open>
  The document an HTML part stands for, and its visible text. A scanner without any state cuts the input into words,
  comments and tags; a forest of nested elements is written as such a list. The loop of \<open>candidateHTMLToText\<close> with its
  stack of open elements, its break flag and its counters returns exactly the visible text of the forest.
\<close>

section \<open>The scanner\<close>

datatype html_token =
    Words string
  | Comment
  | OpenTag html_tag
  | CloseTag string

definition scan_tag :: "string \<Rightarrow> (html_token \<times> string) option" where
  "scan_tag s =
    (case candidateTagEnd None (tl s) of
       None \<Rightarrow> None
     | Some e \<Rightarrow>
         if e + 1 > maximumHTMLTokenBytes then None
         else (case parseCandidateTag (take e (tl s)) of
             None \<Rightarrow> None
           | Some tag \<Rightarrow>
               if tg_self tag \<and> \<not> candidateVoidTag (tg_name tag) then None
               else Some (if tg_closing tag then CloseTag (tg_name tag) else OpenTag tag, drop (e + 2) s)))"

definition scan_token :: "string \<Rightarrow> (html_token \<times> string) option" where
  "scan_token s =
    (if hd s \<noteq> CHR ''<'' then
       map_option (\<lambda>t. (Words t, dropWhile (\<lambda>c. c \<noteq> CHR ''<'') s)) (decodeCandidateEntities (takeWhile (\<lambda>c. c \<noteq> CHR ''<'') s))
     else if has_prefix s ''<!--'' then map_option (Pair Comment) (html_comment s)
     else scan_tag s)"

lemma scan_token_length: "s \<noteq> [] \<Longrightarrow> scan_token s = Some (t, r) \<Longrightarrow> length r < length s"
proof -
  assume s: "s \<noteq> []" and t: "scan_token s = Some (t, r)"
  have shown: "length (dropWhile (\<lambda>c. c \<noteq> CHR ''<'') s) < length s" if "hd s \<noteq> CHR ''<''"
    using that s length_dropWhile_le [of "\<lambda>c. c \<noteq> CHR ''<''" "tl s"] by (cases s) auto
  have "length q < length s" if "html_comment s = Some q" for q
    using that s by (auto simp: html_comment_def split: option.splits if_splits)
  moreover have "length q < length s" if "scan_tag s = Some (x, q)" for x q
    using that s by (auto simp: scan_tag_def split: option.splits if_splits)
  ultimately show ?thesis using t shown by (auto simp: scan_token_def split: if_splits)
qed

function html_tokens :: "string \<Rightarrow> html_token list option" where
  "html_tokens s =
    (if s = [] then Some []
     else case scan_token s of None \<Rightarrow> None | Some (t, r) \<Rightarrow> map_option ((#) t) (html_tokens r))"
  by pat_completeness auto
termination by (relation "measure length") (auto dest: scan_token_length)

declare html_tokens.simps [simp del]

section \<open>Documents\<close>

datatype html_node =
    Text string
  | Remark
  | Leaf html_tag
  | Element html_tag "html_node list"

fun written :: "html_node \<Rightarrow> html_token list" and all_written :: "html_node list \<Rightarrow> html_token list" where
  "written (Text t) = [Words t]"
| "written Remark = [Comment]"
| "written (Leaf tag) = [OpenTag tag]"
| "written (Element tag ns) = OpenTag tag # all_written ns @ [CloseTag (tg_name tag)]"
| "all_written [] = []"
| "all_written (n # ns) = written n @ all_written ns"

text \<open>An element has no end tag exactly when it is void or closes itself.\<close>

definition childless :: "html_tag \<Rightarrow> bool" where
  "childless tag \<longleftrightarrow> candidateVoidTag (tg_name tag) \<or> tg_self tag"

text \<open>An element is invisible when its tag is on the list of discarded tags or its attributes hide it.\<close>

definition invisible :: "maillib \<Rightarrow> html_tag \<Rightarrow> bool" where
  "invisible lib tag \<longleftrightarrow> candidateDiscardTag (tg_name tag) \<or> candidateHidden lib (tg_attributes tag) = Some True"

fun proper :: "maillib \<Rightarrow> html_node \<Rightarrow> bool" and all_proper :: "maillib \<Rightarrow> html_node list \<Rightarrow> bool" where
  "proper lib (Text t) = True"
| "proper lib Remark = True"
| "proper lib (Leaf tag) = (childless tag \<and> candidateHidden lib (tg_attributes tag) \<noteq> None)"
| "proper lib (Element tag ns) = (\<not> childless tag \<and> candidateHidden lib (tg_attributes tag) \<noteq> None \<and> all_proper lib ns)"
| "all_proper lib [] = True"
| "all_proper lib (n # ns) = (proper lib n \<and> all_proper lib ns)"

fun depth :: "html_node \<Rightarrow> nat" and all_depth :: "html_node list \<Rightarrow> nat" where
  "depth (Text t) = 0"
| "depth Remark = 0"
| "depth (Leaf tag) = 0"
| "depth (Element tag ns) = all_depth ns + 1"
| "all_depth [] = 0"
| "all_depth (n # ns) = max (depth n) (all_depth ns)"

text \<open>A line break is written after text that does not end with one.\<close>

definition broken :: "string \<Rightarrow> string" where
  "broken text = (if text \<noteq> [] \<and> \<not> has_suffix text [CHR 0x0A] then text @ [CHR 0x0A] else text)"

definition block_break :: "html_tag \<Rightarrow> string \<Rightarrow> string" where
  "block_break tag text = (if candidateBlockTag (tg_name tag) then broken text else text)"

text \<open>The text followed by what a document shows. Nothing below an invisible element is looked at.\<close>

fun visible :: "maillib \<Rightarrow> html_node \<Rightarrow> string \<Rightarrow> string" and all_visible :: "maillib \<Rightarrow> html_node list \<Rightarrow> string \<Rightarrow> string" where
  "visible lib (Text t) text = text @ t"
| "visible lib Remark text = text"
| "visible lib (Leaf tag) text = (if invisible lib tag then text else block_break tag text)"
| "visible lib (Element tag ns) text =
    (if invisible lib tag then text else block_break tag (all_visible lib ns (block_break tag text)))"
| "all_visible lib [] text = text"
| "all_visible lib (n # ns) text = all_visible lib ns (visible lib n text)"

section \<open>The loop on tokens\<close>

definition counted_token :: "(html_state \<Rightarrow> html_state option) \<Rightarrow> html_state \<Rightarrow> html_state option" where
  "counted_token f st = (if hs_tokens st + 1 > maximumHTMLTokens then None else f (st\<lparr>hs_tokens := hs_tokens st + 1\<rparr>))"

fun act :: "maillib \<Rightarrow> html_token \<Rightarrow> html_state \<Rightarrow> html_state option" where
  "act lib (Words t) st = Some (html_text t st)"
| "act lib Comment st = counted_token Some st"
| "act lib (OpenTag tag) st = counted_token (html_open lib tag) st"
| "act lib (CloseTag name) st = counted_token (html_close \<lparr>tg_closing = True, tg_self = False, tg_name = name, tg_attributes = []\<rparr>) st"

fun acts :: "maillib \<Rightarrow> html_token list \<Rightarrow> html_state \<Rightarrow> html_state option" where
  "acts lib [] st = Some st"
| "acts lib (t # ts) st = (case act lib t st of None \<Rightarrow> None | Some st \<Rightarrow> acts lib ts st)"

lemma acts_append: "acts lib (ts @ us) st = (case acts lib ts st of None \<Rightarrow> None | Some st \<Rightarrow> acts lib us st)"
  by (induction ts arbitrary: st) (auto split: option.splits)

lemma html_close_name: "html_close tag st = html_close \<lparr>tg_closing = True, tg_self = False, tg_name = tg_name tag, tg_attributes = []\<rparr> st"
  by (simp add: html_close_def split: list.splits)

lemma html_step_act: "html_step lib s st = (case scan_token s of None \<Rightarrow> None | Some (t, r) \<Rightarrow> map_option (Pair r) (act lib t st))"
  using html_close_name
  by (auto simp: html_step_def scan_token_def scan_tag_def html_element_def counted_token_def Let_def option.map_comp o_def
      split: option.splits)

lemma html_loop_acts: "html_loop lib s st = (case html_tokens s of None \<Rightarrow> None | Some ts \<Rightarrow> acts lib ts st)"
proof (induction lib s st rule: html_loop.induct)
  case (1 lib s st)
  show ?case
  proof (cases "s = []")
    case True
    then show ?thesis by (simp add: html_loop.simps [of _ "[]"] html_tokens.simps [of "[]"])
  next
    case False
    then show ?thesis
      using 1 by (subst html_loop.simps, subst html_tokens.simps) (auto simp: html_step_act split: option.splits prod.splits)
  qed
qed

section \<open>Every accepted list of tokens is a forest\<close>

text \<open>Forests with the end tags of the open elements between them.\<close>

fun closing :: "string list \<Rightarrow> html_node list list \<Rightarrow> html_token list" where
  "closing (name # names) (ns # nss) = all_written ns @ CloseTag name # closing names nss"
| "closing _ (ns # nss) = all_written ns"
| "closing _ [] = []"

lemma closing_Cons: "closing names ((n # ns) # nss) = written n @ closing names (ns # nss)"
  by (cases names) simp_all

lemma act_stack:
  assumes "act lib t st = Some st'"
  shows "(case t of Words _ \<Rightarrow> hs_stack st' = hs_stack st | Comment \<Rightarrow> hs_stack st' = hs_stack st
    | OpenTag tag \<Rightarrow> (if childless tag then hs_stack st' = hs_stack st
        else \<exists>discard. hs_stack st' = \<lparr>fr_name = tg_name tag, fr_discard = discard\<rparr> # hs_stack st)
    | CloseTag name \<Rightarrow> \<exists>frame. hs_stack st = frame # hs_stack st' \<and> fr_name frame = name)"
  using assms
  by (cases t) (auto simp: counted_token_def html_text_def html_open_def html_close_def childless_def Let_def
      split: if_splits option.splits list.splits)

lemma acts_forest:
  assumes "acts lib ts st = Some st'" and "hs_stack st' = []"
  shows "\<exists>ns nss. length nss = length (hs_stack st) \<and> ts = closing (map fr_name (hs_stack st)) (ns # nss) \<and>
    list_all (all_proper lib) (ns # nss)"
  using assms
proof (induction ts arbitrary: st)
  case Nil
  then show ?case by (intro exI [of _ "[]"]) simp
next
  case (Cons t ts)
  then obtain st1 where st1: "act lib t st = Some st1" "acts lib ts st1 = Some st'" by (auto split: option.splits)
  obtain ns nss where ih: "length nss = length (hs_stack st1)" "ts = closing (map fr_name (hs_stack st1)) (ns # nss)"
      "list_all (all_proper lib) (ns # nss)"
    using Cons.IH [OF st1(2) Cons.prems(2)] by blast
  have same: ?case if "hs_stack st1 = hs_stack st" "written n = [t]" "proper lib n" for n
    using ih that closing_Cons [of _ n ns nss] by (intro exI [of _ "n # ns"] exI [of _ nss]) simp
  note stack = act_stack [OF st1(1)]
  show ?case
  proof (cases t)
    case (Words x)
    then show ?thesis using same [of "Text x"] stack by simp
  next
    case Comment
    then show ?thesis using same [of Remark] stack by simp
  next
    case (OpenTag tag)
    then have known: "candidateHidden lib (tg_attributes tag) \<noteq> None"
      using st1(1) by (auto simp: counted_token_def html_open_def split: if_splits option.splits)
    show ?thesis
    proof (cases "childless tag")
      case True
      then show ?thesis using same [of "Leaf tag"] stack OpenTag known by simp
    next
      case False
      then obtain discard where f: "hs_stack st1 = \<lparr>fr_name = tg_name tag, fr_discard = discard\<rparr> # hs_stack st"
        using stack OpenTag by auto
      then obtain ms mss where nss: "nss = ms # mss" using ih(1) by (cases nss) auto
      have "t # ts = closing (map fr_name (hs_stack st)) ((Element tag ns # ms) # mss)"
        unfolding closing_Cons using ih(2) f OpenTag nss by simp
      moreover have "proper lib (Element tag ns)" using False known ih(3) by simp
      ultimately show ?thesis using ih(1,3) f nss by (intro exI [of _ "Element tag ns # ms"] exI [of _ mss]) simp
    qed
  next
    case (CloseTag name)
    then obtain frame where f: "hs_stack st = frame # hs_stack st1" "fr_name frame = name" using stack by auto
    then have "t # ts = closing (map fr_name (hs_stack st)) ([] # ns # nss)" using ih(2) CloseTag by simp
    then show ?thesis using ih(1,3) f(1) by (intro exI [of _ "[]"] exI [of _ "ns # nss"]) simp
  qed
qed

section \<open>The loop on a forest\<close>

abbreviation ends_broken :: "string \<Rightarrow> bool" where "ends_broken text \<equiv> has_suffix text [CHR 0x0A]"

text \<open>The break flag is redundant: it tells whether the text ends with a line break.\<close>

definition state_ok :: "html_state \<Rightarrow> bool" where
  "state_ok st \<longleftrightarrow> hs_break st = ends_broken (hs_output st) \<and> hs_tokens st \<le> maximumHTMLTokens \<and>
     length (hs_stack st) \<le> MaximumMessagePartDepth"

definition tags_in :: "html_token list \<Rightarrow> nat" where
  "tags_in ts = length (filter (\<lambda>t. \<forall>x. t \<noteq> Words x) ts)"

definition after_text :: "html_state \<Rightarrow> (string \<Rightarrow> string) \<Rightarrow> nat \<Rightarrow> html_state" where
  "after_text st f k = (let text = (if candidateHTMLDiscarded (hs_stack st) then hs_output st else f (hs_output st))
     in st\<lparr>hs_output := text, hs_break := ends_broken text, hs_tokens := hs_tokens st + k\<rparr>)"

lemma tags_in_simps [simp]:
  "tags_in [] = 0" "tags_in (Words t # ts) = tags_in ts" "tags_in (Comment # ts) = tags_in ts + 1"
  "tags_in (OpenTag tag # ts) = tags_in ts + 1" "tags_in (CloseTag name # ts) = tags_in ts + 1"
  "tags_in (ts @ us) = tags_in ts + tags_in us"
  by (simp_all add: tags_in_def)

lemma ends_broken_iff: "ends_broken t \<longleftrightarrow> t \<noteq> [] \<and> last t = CHR 0x0A"
  by (cases t rule: rev_cases) (auto simp: has_suffix_def)

lemma ends_broken_append [simp]: "ends_broken (text @ t) = (if t = [] then ends_broken text else ends_broken t)"
  by (simp add: ends_broken_iff)

lemma after_text_fields [simp]:
  "hs_stack (after_text st f k) = hs_stack st" "hs_tokens (after_text st f k) = hs_tokens st + k"
  by (simp_all add: after_text_def Let_def)

lemma after_text_ok: "state_ok st \<Longrightarrow> hs_tokens st + k \<le> maximumHTMLTokens \<Longrightarrow> state_ok (after_text st f k)"
  by (simp add: state_ok_def after_text_def Let_def)

lemma after_text_comp: "after_text (after_text st f k) g j = after_text st (\<lambda>t. g (f t)) (k + j)"
  by (simp add: after_text_def Let_def)

lemma act_words: "state_ok st \<Longrightarrow> html_text t st = after_text st (\<lambda>text. text @ t) 0"
  by (cases st) (auto simp: state_ok_def html_text_def after_text_def Let_def)

abbreviation tag_break :: "maillib \<Rightarrow> html_tag \<Rightarrow> string \<Rightarrow> string" where
  "tag_break lib tag text \<equiv> if invisible lib tag then text else block_break tag text"

definition entered :: "maillib \<Rightarrow> html_tag \<Rightarrow> html_state \<Rightarrow> html_state" where
  "entered lib tag st = st\<lparr>hs_stack := \<lparr>fr_name = tg_name tag,
     fr_discard = candidateHTMLDiscarded (hs_stack st) \<or> invisible lib tag\<rparr> # hs_stack st\<rparr>"

lemma act_open:
  assumes "state_ok st" and "candidateHidden lib (tg_attributes tag) \<noteq> None"
  shows "act lib (OpenTag tag) st =
    (if hs_tokens st + 1 \<le> maximumHTMLTokens \<and> (childless tag \<or> length (hs_stack st) < MaximumMessagePartDepth)
     then Some (let st' = after_text st (tag_break lib tag) 1 in if childless tag then st' else entered lib tag st') else None)"
  using assms
  by (cases st) (auto simp: counted_token_def html_open_def state_ok_def after_text_def entered_def invisible_def childless_def Let_def
      block_break_def broken_def write_break_def ends_broken_iff)

lemma act_close:
  assumes "state_ok st" and "hs_stack st = frame # rest" and "fr_name frame = tg_name tag"
  shows "act lib (CloseTag (tg_name tag)) st =
    (if hs_tokens st + 1 \<le> maximumHTMLTokens then Some ((after_text st (block_break tag) 1)\<lparr>hs_stack := rest\<rparr>) else None)"
  using assms
  by (cases st) (auto simp: counted_token_def html_close_def state_ok_def after_text_def Let_def candidateHTMLDiscarded_def
      block_break_def broken_def write_break_def ends_broken_iff)

definition fits :: "html_state \<Rightarrow> nat \<Rightarrow> nat \<Rightarrow> bool" where
  "fits st levels tags \<longleftrightarrow> length (hs_stack st) + levels \<le> MaximumMessagePartDepth \<and> hs_tokens st + tags \<le> maximumHTMLTokens"

lemma entered_ok: "state_ok st \<Longrightarrow> length (hs_stack st) < MaximumMessagePartDepth \<Longrightarrow> state_ok (entered lib tag st)"
  by (simp add: state_ok_def entered_def)

lemma after_element:
  assumes "state_ok st"
  shows "(after_text (after_text (entered lib tag (after_text st (tag_break lib tag) 1)) (all_visible lib ns) k) (block_break tag) 1)
      \<lparr>hs_stack := hs_stack st\<rparr> = after_text st (visible lib (Element tag ns)) (k + 2)"
  using assms by (cases st) (auto simp: after_text_def entered_def candidateHTMLDiscarded_def Let_def state_ok_def)

lemma visible_fun:
  "visible lib (Text t) = (\<lambda>x. x @ t)" "visible lib Remark = (\<lambda>x. x)" "visible lib (Leaf tag) = tag_break lib tag"
  "all_visible lib [] = (\<lambda>x. x)" "all_visible lib (n # ns) = (\<lambda>x. all_visible lib ns (visible lib n x))"
  by (simp_all add: fun_eq_iff)

lemma acts_written:
  "proper lib n \<Longrightarrow> state_ok st \<Longrightarrow> acts lib (written n) st =
    (if fits st (depth n) (tags_in (written n)) then Some (after_text st (visible lib n) (tags_in (written n))) else None)"
  "all_proper lib ns \<Longrightarrow> state_ok st \<Longrightarrow> acts lib (all_written ns) st =
    (if fits st (all_depth ns) (tags_in (all_written ns)) then Some (after_text st (all_visible lib ns) (tags_in (all_written ns))) else None)"
proof (induction n and ns arbitrary: st and st rule: written_all_written.induct)
  case (1 t)
  then show ?case by (simp add: act_words fits_def visible_fun) (simp add: state_ok_def)
next
  case 2
  then show ?case by (cases st) (auto simp: counted_token_def fits_def state_ok_def after_text_def Let_def)
next
  case (3 tag)
  then show ?case by (auto simp: act_open fits_def Let_def visible_fun simp del: act.simps visible.simps) (simp_all add: state_ok_def)
next
  case (4 tag ns)
  let ?st = "after_text st (tag_break lib tag) 1" and ?k = "tags_in (all_written ns)"
  have known: "\<not> childless tag" "candidateHidden lib (tg_attributes tag) \<noteq> None" "all_proper lib ns" using 4 by auto
  show ?case
  proof (cases "hs_tokens st + 1 \<le> maximumHTMLTokens \<and> length (hs_stack st) < MaximumMessagePartDepth")
    case False
    then show ?thesis using known 4(3) by (auto simp: act_open fits_def Let_def simp del: act.simps)
  next
    case True
    let ?in = "entered lib tag ?st"
    have ok: "state_ok ?in" using 4(3) True by (intro entered_ok after_text_ok) simp_all
    have run: "acts lib (written (Element tag ns)) st = (case acts lib (all_written ns) ?in of
        None \<Rightarrow> None | Some u \<Rightarrow> act lib (CloseTag (tg_name tag)) u)"
      using True known 4(3) by (simp add: act_open acts_append Let_def split: option.splits del: act.simps)
    have inside: "fits ?in (all_depth ns) ?k \<longleftrightarrow> length (hs_stack st) + depth (Element tag ns) \<le> MaximumMessagePartDepth \<and>
        hs_tokens st + 1 + ?k \<le> maximumHTMLTokens"
      by (simp add: fits_def entered_def)
    show ?thesis
    proof (cases "fits ?in (all_depth ns) ?k")
      case False
      then have "acts lib (all_written ns) ?in = None" using "4.IH" [OF known(3) ok] by simp
      moreover have "\<not> fits st (depth (Element tag ns)) (tags_in (written (Element tag ns)))" using inside False by (auto simp: fits_def)
      ultimately show ?thesis unfolding run by simp
    next
      case fit: True
      let ?out = "after_text ?in (all_visible lib ns) ?k"
      have "state_ok ?out" using fit by (intro after_text_ok ok) (simp add: fits_def)
      moreover have "hs_stack ?out = hd (hs_stack ?in) # hs_stack st" "fr_name (hd (hs_stack ?in)) = tg_name tag"
        "hs_tokens ?out = hs_tokens st + 1 + ?k" by (simp_all add: entered_def)
      ultimately have "act lib (CloseTag (tg_name tag)) ?out = (if hs_tokens st + 1 + ?k + 1 \<le> maximumHTMLTokens
          then Some (after_text st (visible lib (Element tag ns)) (?k + 2)) else None)"
        using act_close [of ?out] after_element [OF 4(3)] by simp
      moreover have "acts lib (all_written ns) ?in = Some ?out" using "4.IH" [OF known(3) ok] fit by simp
      moreover have "fits st (depth (Element tag ns)) (tags_in (written (Element tag ns))) \<longleftrightarrow> hs_tokens st + 1 + ?k + 1 \<le> maximumHTMLTokens"
        using inside fit by (auto simp: fits_def)
      ultimately show ?thesis unfolding run by (simp del: visible.simps)
    qed
  qed
next
  case 5
  then show ?case by (cases st) (auto simp: fits_def state_ok_def after_text_def visible_fun Let_def)
next
  case (6 n ns)
  show ?case
  proof (cases "fits st (depth n) (tags_in (written n))")
    case False
    then show ?thesis using 6 by (auto simp: acts_append fits_def)
  next
    case True
    have "state_ok (after_text st (visible lib n) (tags_in (written n)))" using True 6(4) by (intro after_text_ok) (simp_all add: fits_def)
    then show ?thesis using 6 True by (auto simp: acts_append fits_def after_text_comp visible_fun)
  qed
qed

section \<open>The conversion\<close>

text \<open>
  C38 (hidden_text_dropped): The conversion of an HTML part to text returns exactly the visible text of the document the part stands for, and
  fails exactly when there is none within the limits. The input, cut into words, comments and tags, must be the
  text of a forest of properly nested elements in which void and self-closing elements have no content, with at most 32 levels
  and 10000 tags and comments. Its visible text leaves out everything inside an element whose tag
  is discarded or whose attributes hide it, all nested elements included, and nothing else but
  comments; the elements of a block stand on lines of their own.
\<close>

theorem hidden_text_dropped:
  "candidateHTMLToText lib input = Some output \<longleftrightarrow>
    valid_utf8 input \<and> length input \<le> MaximumDecodedContentBytes \<and>
    (\<exists>doc. html_tokens input = Some (all_written doc) \<and> all_proper lib doc \<and> all_depth doc \<le> MaximumMessagePartDepth \<and>
      tags_in (all_written doc) \<le> maximumHTMLTokens \<and> output = all_visible lib doc [])"
proof -
  have start: "state_ok html_start" "hs_stack html_start = []" "hs_output html_start = []" "hs_tokens html_start = 0"
    by (simp_all add: state_ok_def html_start_def has_suffix_def)
  have run: "acts lib (all_written doc) html_start = (if all_depth doc \<le> MaximumMessagePartDepth \<and> tags_in (all_written doc) \<le> maximumHTMLTokens
      then Some (after_text html_start (all_visible lib doc) (tags_in (all_written doc))) else None)" if "all_proper lib doc" for doc
    using acts_written(2) [OF that start(1)] by (simp add: fits_def start)
  have out: "hs_output (after_text html_start f k) = f []" for f k
    by (simp add: after_text_def Let_def start candidateHTMLDiscarded_def)
  have "(\<exists>st. html_loop lib input html_start = Some st \<and> hs_stack st = [] \<and> hs_output st = output) \<longleftrightarrow>
      (\<exists>doc. html_tokens input = Some (all_written doc) \<and> all_proper lib doc \<and> all_depth doc \<le> MaximumMessagePartDepth \<and>
        tags_in (all_written doc) \<le> maximumHTMLTokens \<and> output = all_visible lib doc [])" (is "?l \<longleftrightarrow> ?r")
  proof
    assume ?l
    then obtain ts st where st: "html_tokens input = Some ts" "acts lib ts html_start = Some st" "hs_stack st = []" "hs_output st = output"
      by (auto simp: html_loop_acts split: option.splits)
    obtain doc where doc: "ts = all_written doc" "all_proper lib doc" using acts_forest [OF st(2,3)] by (auto simp: start)
    then show ?r using st run [OF doc(2)] out by (auto split: if_splits)
  next
    assume ?r
    then show ?l using run out by (auto simp: html_loop_acts start)
  qed
  then show ?thesis by (auto simp: candidateHTMLToText_def split: option.splits if_splits)
qed

theorem hidden_text_dropped_witness:
  "\<exists>doc. html_tokens demo_html = Some (all_written doc) \<and> all_proper demo_maillib doc \<and> all_visible demo_maillib doc [] = ''ok''"
  using hidden_text_dropped [of demo_maillib demo_html "''ok''"] demo_html_text by auto

end
