(* ===== verification/Gmail_Discovery.thy ===== *)
theory Gmail_Discovery
  imports Account_Manager Gmail_Decode
begin

text \<open>
  \<^verbatim>\<open>internal/gmail/current_discovery.go\<close>: one run of the discovery of new messages. It reconciles an
  interrupted run, checks the account, refreshes the access token, reads the history pages and the metadata of
  every message they announce, and commits all of it together with the new history cursor. It runs in a world of
  type \<open>'w\<close> of which it sees the storage handle, the HTTP exchanges, the clock and the random source. The OAuth
  library and the parsers of URLs and addresses are parameters. Overwriting secrets after use and the settings of the
  production transport are not modelled.
\<close>

section \<open>Errors and collaborators\<close>

datatype discovery_error =
    ErrCurrentDiscoveryInvalidRequest
  | ErrCurrentDiscoveryInactiveAccount
  | ErrCurrentDiscoveryRefreshFailed
  | ErrCurrentDiscoveryReauthorizationRequired
  | ErrCurrentDiscoveryHistoryCursorStale
  | ErrCurrentDiscoveryBoundedBacklog
  | ErrCurrentDiscoveryRetryExhausted
  | ErrCurrentDiscoveryInvalidProviderResponse
  | ErrCurrentDiscoveryConflicting
  | ErrCurrentDiscoveryRecoveryRequired
  | DiscoveryJoin discovery_error go_error

record 'w discovery_store =
  ds_ReconcileCurrentDiscovery :: "account_id \<Rightarrow> ('w, go_error option) state"
  ds_GetAccountLifecycle :: "context_name \<Rightarrow> account_id \<Rightarrow> ('w, account_lifecycle res) state"
  ds_GetSynchronizationCursor :: "account_id \<Rightarrow> ('w, synchronization_cursor res) state"
  ds_GetProviderCredential :: "account_id \<Rightarrow> ('w, provider_credential res) state"
  ds_GetDiscoveredMessage :: "account_id \<Rightarrow> string \<Rightarrow> ('w, message res) state"
  ds_CommitCurrentDiscovery :: "current_discovery_commit \<Rightarrow> ('w, go_error option) state"
  ds_CommitAccountLifecycle :: "context_name \<Rightarrow> lifecycle_commit \<Rightarrow> ('w, go_error option) state"

text \<open>
  What one GET or one token request comes to. The last component of the failures and of a response is what the
  caller's context reports afterwards; a response carries its status, content type, retry header and body,
  and whether reading or closing the body failed.
\<close>

record provider_response =
  pr_status :: int
  pr_content_type :: string
  pr_retry_after :: string
  pr_body :: string
  pr_failed :: bool
  pr_context :: ctx

datatype provider_reply =
    RequestRejected
  | Redirected
  | NoResponse ctx
  | Answer provider_response

text \<open>
  The OAuth library turns the response that the validating transport lets through, or its absence, into a token
  with its type, or into an error.
\<close>

record 'w discovery =
  d_clientID :: string
  d_clientSecret :: string
  d_pageSize :: int
  d_store :: "'w discovery_store"
  d_keyring :: keyring
  d_token :: string
  d_history :: string
  d_message :: string
  d_get :: "string \<Rightarrow> string \<Rightarrow> ('w, provider_reply) state"
  d_post :: "string \<Rightarrow> string \<Rightarrow> ('w, provider_reply) state"
  d_oauth :: "(int \<times> string) option \<Rightarrow> (string \<times> string) option"
  d_jitter :: "('w, nat option) state"
  d_sleep :: "int \<Rightarrow> ('w, go_error option \<times> ctx) state"

section \<open>Constants\<close>

definition productionTokenEndpoint :: string where
  "productionTokenEndpoint = ''https://oauth2.googleapis.com/token''"
definition productionGmailHistoryEndpoint :: string where
  "productionGmailHistoryEndpoint = ''https://gmail.googleapis.com/gmail/v1/users/me/history''"
definition productionGmailMessageEndpoint :: string where
  "productionGmailMessageEndpoint = ''https://gmail.googleapis.com/gmail/v1/users/me/messages/''"

definition MaximumHistoryPageBodyBytes :: nat where "MaximumHistoryPageBodyBytes = 1048576"
definition MaximumMessageMetadataBodyBytes :: nat where "MaximumMessageMetadataBodyBytes = 262144"
definition MaximumProviderErrorBodyBytes :: nat where "MaximumProviderErrorBodyBytes = 16384"
definition MaximumProviderAttempts :: nat where "MaximumProviderAttempts = 4"
definition MaximumProviderRequestAttempts :: nat where "MaximumProviderRequestAttempts = 20041"
definition MaximumCurrentDiscoveryPages :: nat where "MaximumCurrentDiscoveryPages = 10"
definition MaximumRetryJitter :: duration where "MaximumRetryJitter = 250 * 1000000"
definition MaximumRetryAfter :: duration where "MaximumRetryAfter = 30 * Second"

definition retryBaseDelays :: "duration list" where
  "retryBaseDelays = [Second, 2 * Second, 4 * Second]"

record discovery_result =
  dr_pages :: u16
  dr_additions :: u16
  dr_committed :: u16
  dr_vanished :: u16
  dr_advanced :: bool

section \<open>Construction\<close>

definition validVisible :: "string \<Rightarrow> bool" where
  "validVisible v = list_all (\<lambda>c. \<not> (bval c < 0x21 \<or> bval c > 0x7e)) v"

text \<open>
  What the check of the endpoints sees of a URL that \<^verbatim>\<open>url.Parse\<close> accepts, and what \<^verbatim>\<open>net.ParseIP\<close> and \<^verbatim>\<open>IsLoopback\<close> say of a host
  name, \<open>None\<close> when it is no address. Both are parameters.
\<close>

record parsed_url =
  pu_scheme :: string
  pu_user :: bool
  pu_raw_query :: string
  pu_fragment :: string
  pu_hostname :: string

record netlib =
  url_Parse :: "string \<Rightarrow> parsed_url option"
  ip_IsLoopback :: "string \<Rightarrow> bool option"

definition loopback_endpoint :: "netlib \<Rightarrow> string \<Rightarrow> bool" where
  "loopback_endpoint net v =
    (case url_Parse net v of
       None \<Rightarrow> False
     | Some parsed \<Rightarrow>
         if pu_scheme parsed \<noteq> ''http'' \<or> pu_user parsed \<or> pu_raw_query parsed \<noteq> [] \<or> pu_fragment parsed \<noteq> [] \<or> pu_hostname parsed = []
         then False
         else (case ip_IsLoopback net (pu_hostname parsed) of None \<Rightarrow> False | Some loopback \<Rightarrow> loopback))"

definition validCurrentDiscoveryEndpoints :: "netlib \<Rightarrow> string \<Rightarrow> string \<Rightarrow> string \<Rightarrow> bool" where
  "validCurrentDiscoveryEndpoints net token history message =
    (if token = productionTokenEndpoint \<and> history = productionGmailHistoryEndpoint \<and> message = productionGmailMessageEndpoint then True
     else list_all (loopback_endpoint net) [token, history, message])"

text \<open>The store and the keyring are never nil here.\<close>

definition newCurrentDiscovery :: "netlib \<Rightarrow> 'w discovery \<Rightarrow> discovery_error + 'w discovery" where
  "newCurrentDiscovery net d =
    (if length (d_clientID d) < 1 \<or> length (d_clientID d) > 512 \<or> length (d_clientSecret d) < 1 \<or> length (d_clientSecret d) > 512 \<or>
        \<not> validVisible (d_clientID d) \<or> \<not> validVisible (d_clientSecret d) \<or> d_pageSize d < 1 \<or>
        d_pageSize d > int MaximumCurrentDiscoveryPageMessages
     then Inl ErrCurrentDiscoveryInvalidRequest
     else
       let d = (if d_token d = [] \<and> d_history d = [] \<and> d_message d = []
             then d\<lparr>d_token := productionTokenEndpoint, d_history := productionGmailHistoryEndpoint, d_message := productionGmailMessageEndpoint\<rparr>
             else d)
       in if \<not> validCurrentDiscoveryEndpoints net (d_token d) (d_history d) (d_message d) then Inl ErrCurrentDiscoveryInvalidRequest
          else Inr d)"

definition discovery_Close :: "'w discovery \<Rightarrow> 'w discovery" where
  "discovery_Close d = d\<lparr>d_clientID := [], d_clientSecret := []\<rparr>"

section \<open>Storage errors and lifecycles\<close>

text \<open>\<open>None\<close> is the nil error that a mismatch passes on.\<close>

definition fixedCurrentDiscoveryStorageError :: "go_error option \<Rightarrow> discovery_error" where
  "fixedCurrentDiscoveryStorageError err =
    (case err of
       None \<Rightarrow> ErrCurrentDiscoveryRecoveryRequired
     | Some e \<Rightarrow>
         if errors_is e Canceled \<or> errors_is e DeadlineExceeded then DiscoveryJoin ErrCurrentDiscoveryRecoveryRequired e
         else if errors_is e (StorageErr ErrLifecycleConflict) then ErrCurrentDiscoveryInactiveAccount
         else if errors_is e (StorageErr ErrCurrentDiscoveryConflict) \<or> errors_is e (StorageErr ErrCursorConflict)
         then ErrCurrentDiscoveryConflicting
         else ErrCurrentDiscoveryRecoveryRequired)"

definition inactiveLifecycle :: "account_lifecycle \<Rightarrow> bool" where
  "inactiveLifecycle l \<longleftrightarrow> lc_state l = AccountStatePaused \<or> lc_state l = AccountStateReauthorizationRequired \<or> lc_state l = AccountStateRevoked"

definition validActiveLifecycle :: "account_lifecycle \<Rightarrow> account_id \<Rightarrow> bool" where
  "validActiveLifecycle l a \<longleftrightarrow> lc_account l = a \<and> lc_state l = AccountStateActive \<and> lc_version l \<ge> 1 \<and> lc_reason l = None \<and>
     lc_revocation l = RevocationStatusNone"

definition sameLifecycle :: "account_lifecycle \<Rightarrow> account_lifecycle \<Rightarrow> bool" where
  "sameLifecycle l r \<longleftrightarrow> lc_account l = lc_account r \<and> lc_state l = lc_state r \<and> lc_version l = lc_version r \<and>
     lc_revocation l = lc_revocation r \<and> lc_reason l = lc_reason r"

definition markReauthorization :: "'w discovery \<Rightarrow> account_id \<Rightarrow> account_lifecycle \<Rightarrow> reauthorization_reason \<Rightarrow> ('w, discovery_error) state" where
  "markReauthorization d a expected reason =
    (let commit = \<lparr>cm_account = a, cm_expected_state = AccountStateActive, cm_expected_version = lc_version expected,
           cm_expected_revocation = RevocationStatusNone, cm_next_state = AccountStateReauthorizationRequired, cm_reason = Some reason,
           cm_revocation = RevocationStatusNone\<rparr>
     in do {
       committed \<leftarrow> ds_CommitAccountLifecycle (d_store d) CleanupContext commit;
       (case committed of
          None \<Rightarrow> State_Monad.return ErrCurrentDiscoveryReauthorizationRequired
        | Some _ \<Rightarrow> do {
            verified \<leftarrow> ds_GetAccountLifecycle (d_store d) CleanupContext a;
            State_Monad.return (case verified of
                Inl _ \<Rightarrow> ErrCurrentDiscoveryRecoveryRequired
              | Inr v \<Rightarrow> if LifecycleMatchesCommit v commit then ErrCurrentDiscoveryReauthorizationRequired
                         else ErrCurrentDiscoveryRecoveryRequired)
          })
     })"

record discovery_preflight =
  pf_lifecycle :: account_lifecycle
  pf_cursor :: synchronization_cursor
  pf_refresh :: string

text \<open>The second look at the lifecycle, after the credential was read.\<close>

definition verify_preflight :: "account_lifecycle \<Rightarrow> account_id \<Rightarrow> synchronization_cursor \<Rightarrow> string \<Rightarrow> account_lifecycle res \<Rightarrow>
    discovery_error + discovery_preflight" where
  "verify_preflight l a cursor refresh verified =
    (case verified of
       Inl e \<Rightarrow> Inl (fixedCurrentDiscoveryStorageError (Some e))
     | Inr v \<Rightarrow>
         if inactiveLifecycle v then Inl ErrCurrentDiscoveryInactiveAccount
         else if \<not> sameLifecycle l v \<or> \<not> validActiveLifecycle v a then Inl ErrCurrentDiscoveryRecoveryRequired
         else Inr \<lparr>pf_lifecycle = l, pf_cursor = cursor, pf_refresh = refresh\<rparr>)"

definition read_credential :: "'w discovery \<Rightarrow> account_id \<Rightarrow> account_lifecycle \<Rightarrow> synchronization_cursor \<Rightarrow>
    ('w, discovery_error + discovery_preflight) state" where
  "read_credential d a l cursor = do {
     credential \<leftarrow> ds_GetProviderCredential (d_store d) a;
     (case credential of
        Inl e \<Rightarrow> State_Monad.return (Inl (fixedCurrentDiscoveryStorageError (Some e)))
      | Inr c \<Rightarrow>
          if cred_account c \<noteq> a \<or> cred_key_id c \<noteq> env_key_id (cred_envelope c)
          then State_Monad.return (Inl (fixedCurrentDiscoveryStorageError None))
          else (case DecryptRefreshToken (account_id_string a) (env_text (cred_envelope c)) (d_keyring d) of
              Inl _ \<Rightarrow> State_Monad.return (Inl ErrCurrentDiscoveryRecoveryRequired)
            | Inr refresh \<Rightarrow>
                if length refresh < 1 \<or> length refresh > MaximumCredentialPlaintextBytes
                then State_Monad.return (Inl ErrCurrentDiscoveryRecoveryRequired)
                else do {
                  verified \<leftarrow> ds_GetAccountLifecycle (d_store d) CallerContext a;
                  State_Monad.return (verify_preflight l a cursor refresh verified)
                }))
   }"

definition preflight :: "'w discovery \<Rightarrow> account_id \<Rightarrow> ('w, discovery_error + discovery_preflight) state" where
  "preflight d a = do {
     reconciled \<leftarrow> ds_ReconcileCurrentDiscovery (d_store d) a;
     (case reconciled of
        Some e \<Rightarrow> State_Monad.return (Inl (if errors_is e (StorageErr ErrLifecycleConflict) then ErrCurrentDiscoveryInactiveAccount
            else fixedCurrentDiscoveryStorageError (Some e)))
      | None \<Rightarrow> do {
          lifecycle \<leftarrow> ds_GetAccountLifecycle (d_store d) CallerContext a;
          (case lifecycle of
             Inl e \<Rightarrow> State_Monad.return (Inl (fixedCurrentDiscoveryStorageError (Some e)))
           | Inr l \<Rightarrow>
               if inactiveLifecycle l then State_Monad.return (Inl ErrCurrentDiscoveryInactiveAccount)
               else if \<not> validActiveLifecycle l a \<or> lc_version l = MaxInt64
               then State_Monad.return (Inl ErrCurrentDiscoveryRecoveryRequired)
               else do {
                 cursor \<leftarrow> ds_GetSynchronizationCursor (d_store d) a;
                 (case cursor of
                    Inl e \<Rightarrow> State_Monad.return (Inl (fixedCurrentDiscoveryStorageError (Some e)))
                  | Inr c \<Rightarrow>
                      if sc_account c \<noteq> a then State_Monad.return (Inl (fixedCurrentDiscoveryStorageError None))
                      else read_credential d a l c)
               })
        })
   }"

section \<open>The access token\<close>

definition jsonContentType :: "string \<Rightarrow> bool" where
  "jsonContentType v \<longleftrightarrow> trim_space (hd (split_on (CHR '';'') v)) = ''application/json''"

text \<open>
  The validating transport after the exchange: the classification it records, and the response it lets
  through. Its checks of the request that the OAuth library builds are not modelled.
\<close>

definition validate_refresh :: "provider_reply \<Rightarrow> refresh_classification \<times> (int \<times> string) option" where
  "validate_refresh reply =
    (case reply of
       Answer r \<Rightarrow>
         let body = take (MaximumProviderErrorBodyBytes + 1) (pr_body r) in
         if pr_failed r \<or> length body > MaximumProviderErrorBodyBytes then (refreshUnclassified, None)
         else if \<not> jsonContentType (pr_content_type r) then (refreshUnclassified, None)
         else if pr_status r = 200 then
           (if \<not> validateRefreshSuccess body then (refreshUnclassified, None) else (refreshUnclassified, Some (200, body)))
         else if pr_status r = 400 then (classifyRefreshError body, Some (400, body))
         else if pr_status r \<ge> 200 \<and> pr_status r < 300 then (refreshUnclassified, None)
         else (refreshUnclassified, Some (pr_status r, body))
     | _ \<Rightarrow> (refreshUnclassified, None))"

definition reply_context :: "provider_reply \<Rightarrow> ctx" where
  "reply_context reply = (case reply of NoResponse c \<Rightarrow> c | Answer r \<Rightarrow> pr_context r | _ \<Rightarrow> None)"

definition refreshAccessToken :: "'w discovery \<Rightarrow> string \<Rightarrow> ('w, refresh_classification \<times> (discovery_error + string)) state" where
  "refreshAccessToken d refresh = do {
     reply \<leftarrow> d_post d (d_token d) refresh;
     State_Monad.return (case validate_refresh reply of
       (classification, passed) \<Rightarrow>
         (case d_oauth d passed of
            None \<Rightarrow> (classification, Inl (case reply_context reply of
                Some e \<Rightarrow> DiscoveryJoin ErrCurrentDiscoveryRefreshFailed e | None \<Rightarrow> ErrCurrentDiscoveryRefreshFailed))
          | Some (tokenType, access) \<Rightarrow>
              if tokenType \<noteq> ''Bearer'' \<or> length access < 1 \<or> length access > maximumAccessTokenBytes
              then (classification, Inl ErrCurrentDiscoveryRefreshFailed)
              else (refreshUnclassified, Inr access)))
   }"

section \<open>One request with retries\<close>

definition parseRetryAfter :: "string \<Rightarrow> duration" where
  "parseRetryAfter t =
    (if t = [] \<or> length t > 2 \<or> hd t = CHR ''0'' then 0
     else case parse_int64 t of
       None \<Rightarrow> 0
     | Some seconds \<Rightarrow> if seconds < 1 \<or> seconds > MaximumRetryAfter div Second \<or> format_int seconds \<noteq> t then 0 else seconds * Second)"

definition retry_delay :: "nat \<Rightarrow> nat \<Rightarrow> string \<Rightarrow> duration" where
  "retry_delay retryIndex jitter retryAfterText =
    (let delay = retryBaseDelays ! retryIndex + int jitter * 1000000;
         delay = (if parseRetryAfter retryAfterText > delay then parseRetryAfter retryAfterText else delay)
     in if delay > MaximumRetryAfter then MaximumRetryAfter else delay)"

definition waitForRetry :: "'w discovery \<Rightarrow> nat \<Rightarrow> string \<Rightarrow> ('w, discovery_error option) state" where
  "waitForRetry d retryIndex retryAfterText = do {
     jitter \<leftarrow> d_jitter d;
     (case jitter of
        None \<Rightarrow> State_Monad.return (Some ErrCurrentDiscoveryRetryExhausted)
      | Some j \<Rightarrow> do {
          slept \<leftarrow> d_sleep d (retry_delay retryIndex j retryAfterText);
          State_Monad.return (case slept of
              (None, _) \<Rightarrow> None
            | (Some _, Some c) \<Rightarrow> Some (DiscoveryJoin ErrCurrentDiscoveryRetryExhausted c)
            | (Some e, None) \<Rightarrow> Some (if errors_is e Canceled \<or> errors_is e DeadlineExceeded
                then DiscoveryJoin ErrCurrentDiscoveryRetryExhausted e else ErrCurrentDiscoveryRetryExhausted))
        })
   }"

definition retryableGmailResponse :: "int \<Rightarrow> string \<Rightarrow> bool" where
  "retryableGmailResponse status body =
    (if status = 429 \<or> status = 500 \<or> status = 502 \<or> status = 503 \<or> status = 504 then True
     else if status = 403 then
       exactGoogleErrorReason body = Some ''rateLimitExceeded'' \<or> exactGoogleErrorReason body = Some ''userRateLimitExceeded''
     else False)"

text \<open>What one exchange calls for: an error, an answer, or another try with the given retry header.\<close>

datatype attempt_outcome =
    Failed discovery_error
  | Answered int string
  | TryAgain string

definition retry_outcome :: "ctx \<Rightarrow> attempt_outcome" where
  "retry_outcome c = (case c of Some e \<Rightarrow> Failed (DiscoveryJoin ErrCurrentDiscoveryRetryExhausted e) | None \<Rightarrow> TryAgain [])"

definition judge_reply :: "nat \<Rightarrow> provider_reply \<Rightarrow> attempt_outcome" where
  "judge_reply successLimit reply =
    (case reply of
       RequestRejected \<Rightarrow> Failed ErrCurrentDiscoveryInvalidRequest
     | Redirected \<Rightarrow> Failed ErrCurrentDiscoveryInvalidProviderResponse
     | NoResponse c \<Rightarrow> retry_outcome c
     | Answer r \<Rightarrow>
         let limit = (if pr_status r = 200 then successLimit else MaximumProviderErrorBodyBytes);
             body = take (limit + 1) (pr_body r)
         in if length body > limit then Failed ErrCurrentDiscoveryInvalidProviderResponse
            else if pr_failed r then retry_outcome (pr_context r)
            else if pr_status r = 200 \<and> \<not> jsonContentType (pr_content_type r) then Failed ErrCurrentDiscoveryInvalidProviderResponse
            else if retryableGmailResponse (pr_status r) body then TryAgain (pr_retry_after r)
            else Answered (pr_status r) body)"

text \<open>The loop over the attempts; the argument is the number of attempts left.\<close>

fun gmail_attempts :: "'w discovery \<Rightarrow> string \<Rightarrow> string \<Rightarrow> nat \<Rightarrow> nat \<Rightarrow> ('w, discovery_error + (int \<times> string)) state" where
  "gmail_attempts d url access successLimit 0 = State_Monad.return (Inl ErrCurrentDiscoveryRetryExhausted)"
| "gmail_attempts d url access successLimit (Suc left) = do {
     reply \<leftarrow> d_get d url access;
     (case judge_reply successLimit reply of
        Failed e \<Rightarrow> State_Monad.return (Inl e)
      | Answered status body \<Rightarrow> State_Monad.return (Inr (status, body))
      | TryAgain retryAfter \<Rightarrow>
          if left = 0 then State_Monad.return (Inl ErrCurrentDiscoveryRetryExhausted)
          else do {
            waited \<leftarrow> waitForRetry d (MaximumProviderAttempts - Suc left) retryAfter;
            (case waited of
               Some e \<Rightarrow> State_Monad.return (Inl e)
             | None \<Rightarrow> gmail_attempts d url access successLimit left)
          })
   }"

definition gmailGET :: "'w discovery \<Rightarrow> string \<Rightarrow> string \<Rightarrow> nat \<Rightarrow> ('w, discovery_error + (int \<times> string)) state" where
  "gmailGET d url access successLimit = gmail_attempts d url access successLimit MaximumProviderAttempts"

section \<open>Addresses\<close>

text \<open>\<^verbatim>\<open>url.Values.Encode\<close> for keys given in order, and \<^verbatim>\<open>url.PathEscape\<close>.\<close>

definition query_encode :: "(string \<times> string) list \<Rightarrow> string" where
  "query_encode vs = join_with (CHR ''&'') (map (\<lambda>(k, v). concat (map query_escape_char k) @ ''='' @ concat (map query_escape_char v)) vs)"

definition path_escape_char :: "char \<Rightarrow> string" where
  "path_escape_char c = (if c \<in> set ''$&+=:@'' then [c] else if c = CHR '' '' then ''%20'' else query_escape_char c)"

definition messageMetadataFields :: string where
  "messageMetadataFields =
    ''id,threadId,labelIds,internalDate,sizeEstimate,payload(headers(name,value),filename,body(attachmentId),parts('' @
    ((\<lambda>part. ''filename,body(attachmentId),parts('' @ part @ '')'') ^^ (MaximumMessagePartDepth - 1)) ''filename,body(attachmentId),parts(partId)'' @
    ''))''"

definition historyURL :: "'w discovery \<Rightarrow> string \<Rightarrow> string \<Rightarrow> string" where
  "historyURL d cursor pageToken = d_history d @ ''?'' @ query_encode
    ([(''fields'', ''history(id,messagesAdded(message(id,threadId))),historyId,nextPageToken''), (''historyTypes'', ''messageAdded''),
      (''maxResults'', format_int (d_pageSize d))] @
     (if pageToken \<noteq> [] then [(''pageToken'', pageToken)] else []) @ [(''startHistoryId'', cursor)])"

definition messageURL :: "'w discovery \<Rightarrow> string \<Rightarrow> string option" where
  "messageURL d messageID =
    (if ValidateGmailMessageID messageID \<noteq> None then None
     else Some ((if has_suffix (d_message d) ''/'' then butlast (d_message d) else d_message d) @ ''/'' @
       concat (map path_escape_char messageID) @ ''?'' @ query_encode [(''fields'', messageMetadataFields), (''format'', ''FULL'')]))"

section \<open>History\<close>

record history_progress =
  hg_identities :: "discovered_identity list"
  hg_tokens :: "string list"
  hg_record :: "history_id option"
  hg_history :: "history_id option"

definition known_thread :: "discovered_identity list \<Rightarrow> string \<Rightarrow> string option" where
  "known_thread ids m = map_of (map (\<lambda>i. (di_message i, di_thread i)) ids) m"

fun add_identities :: "discovered_identity list \<Rightarrow> discovered_identity list \<Rightarrow> discovery_error + discovered_identity list" where
  "add_identities ids [] = Inr ids"
| "add_identities ids (i # is) =
    (case known_thread ids (di_message i) of
       Some thread \<Rightarrow> if thread \<noteq> di_thread i then Inl ErrCurrentDiscoveryConflicting else add_identities ids is
     | None \<Rightarrow>
         if length ids = MaximumCurrentDiscoveryMessages then Inl ErrCurrentDiscoveryBoundedBacklog
         else add_identities (ids @ [i]) is)"

fun add_records :: "history_progress \<Rightarrow> history_record list \<Rightarrow> discovery_error + history_progress" where
  "add_records g [] = Inr g"
| "add_records g (r # rs) =
    (if (case hg_record g of None \<Rightarrow> False | Some previous \<Rightarrow> history_id_compare (hr_id r) previous \<le> 0)
     then Inl ErrCurrentDiscoveryInvalidProviderResponse
     else case add_identities (hg_identities g) (hr_identities r) of
       Inl e \<Rightarrow> Inl e
     | Inr ids \<Rightarrow> add_records (g\<lparr>hg_record := Some (hr_id r), hg_identities := ids\<rparr>) rs)"

definition behind :: "history_id \<Rightarrow> history_id option \<Rightarrow> bool" where
  "behind h other = (case other of None \<Rightarrow> False | Some o' \<Rightarrow> history_id_compare h o' < 0)"

text \<open>One decoded page: an error, or the progress after it.\<close>

definition add_page :: "history_id \<Rightarrow> history_progress \<Rightarrow> history_page \<Rightarrow> discovery_error + history_progress" where
  "add_page cursor g page =
    (case add_records g (hp_records page) of
       Inl e \<Rightarrow> Inl e
     | Inr g \<Rightarrow>
         if history_id_compare (hp_history page) cursor < 0 \<or> behind (hp_history page) (hg_record g) \<or> behind (hp_history page) (hg_history g)
         then Inl ErrCurrentDiscoveryInvalidProviderResponse
         else Inr (g\<lparr>hg_history := Some (hp_history page)\<rparr>))"

text \<open>
  The statuses other than 200, which readers of pages and of messages treat alike: what is returned for an
  answer that is not a document.
\<close>

definition refused :: "'w discovery \<Rightarrow> account_id \<Rightarrow> account_lifecycle \<Rightarrow> int \<Rightarrow> string \<Rightarrow> ('w, discovery_error) state option" where
  "refused d a l status body =
    (if status = 401 then Some (markReauthorization d a l ReauthorizationReasonGmailUnauthorizedAfterRefresh)
     else if status = 403 then
       Some (if exactGoogleErrorReason body = Some ''domainPolicy'' then markReauthorization d a l ReauthorizationReasonGmailDomainPolicy
             else State_Monad.return ErrCurrentDiscoveryInvalidProviderResponse)
     else if status = 404 \<or> status = 200 then None
     else Some (State_Monad.return ErrCurrentDiscoveryInvalidProviderResponse))"

type_synonym history_reading = "discovered_identity list \<times> history_id \<times> nat"

text \<open>The loop over the pages; the last but one argument is the number of pages left.\<close>

fun read_pages :: "'w discovery \<Rightarrow> account_id \<Rightarrow> account_lifecycle \<Rightarrow> history_id \<Rightarrow> string \<Rightarrow> string \<Rightarrow> nat \<Rightarrow> history_progress \<Rightarrow>
    ('w, discovery_error + history_reading) state" where
  "read_pages d a l cursor access pageToken 0 g = State_Monad.return (Inl ErrCurrentDiscoveryBoundedBacklog)"
| "read_pages d a l cursor access pageToken (Suc left) g = do {
     got \<leftarrow> gmailGET d (historyURL d (hid_text cursor) pageToken) access MaximumHistoryPageBodyBytes;
     (case got of
        Inl e \<Rightarrow> State_Monad.return (Inl e)
      | Inr (status, body) \<Rightarrow>
          (case refused d a l status body of
             Some m \<Rightarrow> do { e \<leftarrow> m; State_Monad.return (Inl e) }
           | None \<Rightarrow>
               if status = 404 then State_Monad.return (Inl ErrCurrentDiscoveryHistoryCursorStale)
               else (case decodeHistoryPage body of
                   None \<Rightarrow> State_Monad.return (Inl ErrCurrentDiscoveryInvalidProviderResponse)
                 | Some page \<Rightarrow>
                     (case add_page cursor g page of
                        Inl e \<Rightarrow> State_Monad.return (Inl e)
                      | Inr g \<Rightarrow>
                          if hp_next page = [] then
                            State_Monad.return (Inr (hg_identities g, hp_history page, MaximumCurrentDiscoveryPages - left))
                          else if hp_next page \<in> set (hg_tokens g) then
                            State_Monad.return (Inl ErrCurrentDiscoveryInvalidProviderResponse)
                          else if left = 0 then State_Monad.return (Inl ErrCurrentDiscoveryBoundedBacklog)
                          else read_pages d a l cursor access (hp_next page) left (g\<lparr>hg_tokens := hp_next page # hg_tokens g\<rparr>)))))
   }"

definition readHistory :: "'w discovery \<Rightarrow> account_id \<Rightarrow> account_lifecycle \<Rightarrow> history_id \<Rightarrow> string \<Rightarrow>
    ('w, discovery_error + history_reading) state" where
  "readHistory d a l cursor access = read_pages d a l cursor access [] MaximumCurrentDiscoveryPages
     \<lparr>hg_identities = [], hg_tokens = [], hg_record = None, hg_history = None\<rparr>"

section \<open>Messages\<close>

text \<open>The result is \<open>None\<close> for a message that has vanished.\<close>

definition readMessage :: "maillib \<Rightarrow> 'w discovery \<Rightarrow> account_id \<Rightarrow> account_lifecycle \<Rightarrow> discovered_identity \<Rightarrow> string \<Rightarrow>
    ('w, discovery_error + message option) state" where
  "readMessage lib d a l identity access =
    (case messageURL d (di_message identity) of
       None \<Rightarrow> State_Monad.return (Inl ErrCurrentDiscoveryInvalidRequest)
     | Some url \<Rightarrow> do {
         got \<leftarrow> gmailGET d url access MaximumMessageMetadataBodyBytes;
         (case got of
            Inl e \<Rightarrow> State_Monad.return (Inl e)
          | Inr (status, body) \<Rightarrow>
              (case refused d a l status body of
                 Some m \<Rightarrow> do { e \<leftarrow> m; State_Monad.return (Inl e) }
               | None \<Rightarrow>
                   State_Monad.return
                     (if status = 404 then Inr None
                      else case decodeMessageMetadata lib body identity of
                        None \<Rightarrow> Inl ErrCurrentDiscoveryInvalidProviderResponse
                      | Some inp \<Rightarrow>
                          (case Normalize (account_id_string a) inp of
                             Inl _ \<Rightarrow> Inl ErrCurrentDiscoveryInvalidProviderResponse
                           | Inr message \<Rightarrow> Inr (Some message)))))
       })"

fun read_messages :: "maillib \<Rightarrow> 'w discovery \<Rightarrow> account_id \<Rightarrow> account_lifecycle \<Rightarrow> string \<Rightarrow> discovered_identity list \<Rightarrow>
    ('w, discovery_error + message option list) state" where
  "read_messages lib d a l access [] = State_Monad.return (Inr [])"
| "read_messages lib d a l access (i # is) = do {
     message \<leftarrow> readMessage lib d a l i access;
     (case message of
        Inl e \<Rightarrow> State_Monad.return (Inl e)
      | Inr m \<Rightarrow> do {
          rest \<leftarrow> read_messages lib d a l access is;
          State_Monad.return (case rest of Inl e \<Rightarrow> Inl e | Inr ms \<Rightarrow> Inr (m # ms))
        })
   }"

fun alreadyDurable :: "'w discovery \<Rightarrow> account_id \<Rightarrow> discovered_identity list \<Rightarrow> ('w, bool) state" where
  "alreadyDurable d a [] = State_Monad.return True"
| "alreadyDurable d a (i # is) = do {
     got \<leftarrow> ds_GetDiscoveredMessage (d_store d) a (di_message i);
     (case got of
        Inl _ \<Rightarrow> State_Monad.return False
      | Inr m \<Rightarrow> if msg_thread_id m \<noteq> di_thread i then State_Monad.return False else alreadyDurable d a is)
   }"

section \<open>The run\<close>

definition commit_discovery :: "'w discovery \<Rightarrow> current_discovery_commit \<Rightarrow> discovery_result \<Rightarrow> ('w, discovery_error + discovery_result) state" where
  "commit_discovery d commit result =
    (case PrepareCurrentDiscoveryCommit commit of
       Inl e \<Rightarrow> State_Monad.return (Inl (if errors_is e (StorageErr ErrCurrentDiscoveryConflict)
           then ErrCurrentDiscoveryConflicting else ErrCurrentDiscoveryInvalidProviderResponse))
     | Inr _ \<Rightarrow> do {
         committed \<leftarrow> ds_CommitCurrentDiscovery (d_store d) commit;
         State_Monad.return (case committed of
             Some e \<Rightarrow> Inl (fixedCurrentDiscoveryStorageError (Some e))
           | None \<Rightarrow> Inr (result\<lparr>dr_committed := word_of_nat (length (dc_messages commit)), dr_advanced := True\<rparr>))
       })"

text \<open>The part after the history was read.\<close>

definition settle_history :: "maillib \<Rightarrow> 'w discovery \<Rightarrow> account_id \<Rightarrow> discovery_preflight \<Rightarrow> string \<Rightarrow> history_reading \<Rightarrow>
    ('w, discovery_error + discovery_result) state" where
  "settle_history lib d a pre access reading =
    (case reading of (identities, nextCursor, pages) \<Rightarrow>
     let result = \<lparr>dr_pages = word_of_nat pages, dr_additions = word_of_nat (length identities), dr_committed = 0, dr_vanished = 0,
           dr_advanced = False\<rparr>;
         expected = sc_history (pf_cursor pre);
         comparison = history_id_compare nextCursor expected
     in if comparison < 0 then State_Monad.return (Inl ErrCurrentDiscoveryInvalidProviderResponse)
        else if comparison = 0 then
          (if identities = [] then State_Monad.return (Inr result)
           else do {
             durable \<leftarrow> alreadyDurable d a identities;
             State_Monad.return (if durable then Inr result else Inl ErrCurrentDiscoveryInvalidProviderResponse)
           })
        else do {
          fetched \<leftarrow> read_messages lib d a (pf_lifecycle pre) access identities;
          (case fetched of
             Inl e \<Rightarrow> State_Monad.return (Inl e)
           | Inr ms \<Rightarrow> commit_discovery d
               \<lparr>dc_account = a, dc_expected = expected, dc_next = nextCursor, dc_messages = List.map_filter id ms\<rparr>
               (result\<lparr>dr_vanished := word_of_nat (length (filter (\<lambda>m. m = None) ms))\<rparr>))
        })"

definition Discover :: "maillib \<Rightarrow> 'w discovery \<Rightarrow> account_id \<Rightarrow> ('w, discovery_error + discovery_result) state" where
  "Discover lib d a =
    (if d_clientID d = [] \<or> d_clientSecret d = [] \<or> d_pageSize d < 1 \<or> d_pageSize d > int MaximumCurrentDiscoveryPageMessages \<or>
        ParseAccountID (account_id_string a) \<noteq> Inr a
     then State_Monad.return (Inl ErrCurrentDiscoveryInvalidRequest)
     else do {
       ready \<leftarrow> preflight d a;
       (case ready of
          Inl e \<Rightarrow> State_Monad.return (Inl e)
        | Inr pre \<Rightarrow> do {
            token \<leftarrow> refreshAccessToken d (pf_refresh pre);
            (case token of
               (refreshInvalidGrant, Inl _) \<Rightarrow> do {
                 e \<leftarrow> markReauthorization d a (pf_lifecycle pre) ReauthorizationReasonRefreshInvalidGrant; State_Monad.return (Inl e) }
             | (refreshAdminPolicy, Inl _) \<Rightarrow> do {
                 e \<leftarrow> markReauthorization d a (pf_lifecycle pre) ReauthorizationReasonRefreshAdminPolicyEnforced; State_Monad.return (Inl e) }
             | (refreshUnclassified, Inl e) \<Rightarrow> State_Monad.return (Inl e)
             | (_, Inr access) \<Rightarrow> do {
                 reading \<leftarrow> readHistory d a (pf_lifecycle pre) (sc_history (pf_cursor pre)) access;
                 (case reading of
                    Inl e \<Rightarrow> State_Monad.return (Inl e)
                  | Inr r \<Rightarrow> settle_history lib d a pre access r)
               })
          })
     })"

end
