(* ===== verification/Gmail_Extract.thy ===== *)
theory Gmail_Extract
  imports Gmail_Discovery Gmail_Content
begin

text \<open>
  \<^verbatim>\<open>internal/gmail/candidate_content.go\<close>: the extraction of one excerpt. It checks that the account is active and the
  message a current candidate, answers from the store when it can, and otherwise refreshes the access token, checks
  again, fetches the message, decodes it and commits the excerpt. The token, the retries and the lifecycle
  transition are those of the discovery client it owns, whose storage handle is the extractor's.
\<close>

section \<open>Errors and collaborators\<close>

text \<open>The last two are \<^verbatim>\<open>errors.Join\<close> of an unavailable provider and of a recovery with their causes.\<close>

datatype content_error =
    ErrCandidateContentInvalidRequest
  | ErrCandidateContentIneligible
  | ErrCandidateContentInactiveAccount
  | ErrCandidateContentUnavailable
  | ErrCandidateContentVanished
  | ErrCandidateContentReauthorizationRequired
  | ErrCandidateContentConflict
  | ErrCandidateContentRecoveryRequired
  | UnavailableJoin discovery_error
  | RecoveryJoin go_error

record 'w content_store =
  xs_GetGateDecision :: "account_id \<Rightarrow> string \<Rightarrow> ('w, gate_decision_state res) state"
  xs_GetCandidateContent :: "account_id \<Rightarrow> string \<Rightarrow> int \<Rightarrow> ('w, candidate_content_state res) state"
  xs_CommitCandidateContent :: "candidate_content_commit \<Rightarrow> ('w, go_error option) state"

record 'w extractor =
  ex_store :: "'w content_store"
  ex_auth :: "'w discovery"
  ex_now :: "('w, int) state"
  ex_closed :: bool

text \<open>
  Construction, over a discovery client that holds the credentials and the given endpoints (empty ones stand for
  the production endpoints).
\<close>

definition newCandidateContentExtractor :: "netlib \<Rightarrow> 'w content_store \<Rightarrow> 'w discovery \<Rightarrow> ('w, int) state \<Rightarrow>
    content_error + 'w extractor" where
  "newCandidateContentExtractor net store d now =
    (let (token, message) = (if d_token d = [] \<and> d_message d = [] then (productionTokenEndpoint, productionGmailMessageEndpoint)
           else (d_token d, d_message d))
     in if \<not> validCurrentDiscoveryEndpoints net token message message then Inl ErrCandidateContentInvalidRequest
        else case newCurrentDiscovery net (d\<lparr>d_pageSize := 1, d_token := token, d_history := message, d_message := message\<rparr>) of
            Inl _ \<Rightarrow> Inl ErrCandidateContentInvalidRequest
          | Inr auth \<Rightarrow> Inr \<lparr>ex_store = store, ex_auth = auth, ex_now = now, ex_closed = False\<rparr>)"

definition extractor_Close :: "'w extractor \<Rightarrow> 'w extractor" where
  "extractor_Close x = (if ex_closed x then x else x\<lparr>ex_closed := True, ex_auth := discovery_Close (ex_auth x)\<rparr>)"

section \<open>Errors\<close>

text \<open>\<^verbatim>\<open>errors.Is\<close> of a discovery error for a sentinel of another package.\<close>

definition discovery_error_is :: "discovery_error \<Rightarrow> go_error \<Rightarrow> bool" where
  "discovery_error_is e t = (case e of DiscoveryJoin _ c \<Rightarrow> errors_is c t | _ \<Rightarrow> False)"

definition fixedCandidateContentProviderError :: "discovery_error \<Rightarrow> content_error" where
  "fixedCandidateContentProviderError e =
    (if discovery_error_is e Canceled \<or> discovery_error_is e DeadlineExceeded then UnavailableJoin e else ErrCandidateContentUnavailable)"

definition fixedCandidateContentStorageError :: "go_error option \<Rightarrow> content_error" where
  "fixedCandidateContentStorageError err =
    (case err of
       None \<Rightarrow> ErrCandidateContentRecoveryRequired
     | Some e \<Rightarrow>
         if errors_is e Canceled \<or> errors_is e DeadlineExceeded then RecoveryJoin e
         else if errors_is e (StorageErr ErrLifecycleConflict) then ErrCandidateContentInactiveAccount
         else if errors_is e (StorageErr storage_error.ErrCandidateContentConflict) \<or>
                 errors_is e (StorageErr ErrCandidateContentStaleSource)
         then ErrCandidateContentConflict
         else if errors_is e (StorageErr storage_error.ErrCandidateContentIneligible) \<or> errors_is e (StorageErr ErrGateDecisionNotFound)
         then ErrCandidateContentIneligible
         else ErrCandidateContentRecoveryRequired)"

definition fixedCandidateContentCommitError :: "go_error \<Rightarrow> content_error" where
  "fixedCandidateContentCommitError e =
    (if errors_is e Canceled \<or> errors_is e DeadlineExceeded then RecoveryJoin e
     else if errors_is e (StorageErr ErrLifecycleConflict) then ErrCandidateContentInactiveAccount
     else if errors_is e (StorageErr storage_error.ErrCandidateContentConflict) \<or> errors_is e (StorageErr ErrCandidateContentStaleSource) \<or>
             errors_is e (StorageErr storage_error.ErrCandidateContentIneligible) \<or> errors_is e (StorageErr ErrGateDecisionNotFound)
     then ErrCandidateContentConflict
     else ErrCandidateContentRecoveryRequired)"

definition extractor_markReauthorization :: "'w extractor \<Rightarrow> account_id \<Rightarrow> account_lifecycle \<Rightarrow> reauthorization_reason \<Rightarrow>
    ('w, content_error + 'a) state" where
  "extractor_markReauthorization x a l reason = do {
     e \<leftarrow> markReauthorization (ex_auth x) a l reason;
     State_Monad.return (Inl (if e = ErrCurrentDiscoveryReauthorizationRequired then ErrCandidateContentReauthorizationRequired
       else ErrCandidateContentRecoveryRequired))
   }"

section \<open>Preflight\<close>

text \<open>There is no refresh token when the store already has the excerpt.\<close>

record content_preflight =
  cpf_lifecycle :: account_lifecycle
  cpf_message :: message
  cpf_decision :: gate_decision
  cpf_refresh :: "string option"

definition content_credential :: "'w extractor \<Rightarrow> account_id \<Rightarrow> content_preflight \<Rightarrow> ('w, content_error + content_preflight) state" where
  "content_credential x a pre = do {
     credential \<leftarrow> ds_GetProviderCredential (d_store (ex_auth x)) a;
     State_Monad.return (case credential of
         Inl e \<Rightarrow> Inl (fixedCandidateContentStorageError (Some e))
       | Inr c \<Rightarrow>
           if cred_account c \<noteq> a \<or> cred_key_id c \<noteq> env_key_id (cred_envelope c) then Inl (fixedCandidateContentStorageError None)
           else (case DecryptRefreshToken (account_id_string a) (env_text (cred_envelope c)) (d_keyring (ex_auth x)) of
               Inl _ \<Rightarrow> Inl ErrCandidateContentRecoveryRequired
             | Inr refresh \<Rightarrow>
                 if length refresh < 1 \<or> length refresh > MaximumCredentialPlaintextBytes then Inl ErrCandidateContentRecoveryRequired
                 else Inr (pre\<lparr>cpf_refresh := Some refresh\<rparr>)))
   }"

text \<open>The part after the lifecycle was found active.\<close>

definition content_eligibility :: "'w extractor \<Rightarrow> account_id \<Rightarrow> string \<Rightarrow> int \<Rightarrow> account_lifecycle \<Rightarrow>
    ('w, content_error + content_preflight) state" where
  "content_eligibility x a g limit l = do {
     message \<leftarrow> ds_GetDiscoveredMessage (d_store (ex_auth x)) a g;
     (case message of
        Inl e \<Rightarrow> State_Monad.return (Inl (fixedCandidateContentStorageError (Some e)))
      | Inr m \<Rightarrow> do {
          decision \<leftarrow> xs_GetGateDecision (ex_store x) a g;
          (case decision of
             Inl e \<Rightarrow> State_Monad.return (Inl (fixedCandidateContentStorageError (Some e)))
           | Inr st \<Rightarrow>
               if \<not> gs_current st \<or> gd_source_hash (gs_decision st) \<noteq> msg_hash m \<or> \<not> CandidateOutcome (gd_outcome (gs_decision st))
               then State_Monad.return (Inl ErrCandidateContentIneligible)
               else
                 let pre = \<lparr>cpf_lifecycle = l, cpf_message = m, cpf_decision = gs_decision st, cpf_refresh = None\<rparr> in do {
                   content \<leftarrow> xs_GetCandidateContent (ex_store x) a g limit;
                   (case content of
                      Inr cs \<Rightarrow> if cs_current cs then State_Monad.return (Inr pre) else content_credential x a pre
                    | Inl e \<Rightarrow>
                        if \<not> errors_is e (StorageErr ErrCandidateContentNotFound)
                        then State_Monad.return (Inl (fixedCandidateContentStorageError (Some e)))
                        else content_credential x a pre)
                 })
        })
   }"

definition extractor_preflight :: "'w extractor \<Rightarrow> account_id \<Rightarrow> string \<Rightarrow> int \<Rightarrow> ('w, content_error + content_preflight) state" where
  "extractor_preflight x a g limit = do {
     lifecycle \<leftarrow> ds_GetAccountLifecycle (d_store (ex_auth x)) CallerContext a;
     (case lifecycle of
        Inl e \<Rightarrow> State_Monad.return (Inl (fixedCandidateContentStorageError (Some e)))
      | Inr l \<Rightarrow>
          if inactiveLifecycle l then State_Monad.return (Inl ErrCandidateContentInactiveAccount)
          else if \<not> validActiveLifecycle l a \<or> lc_version l = MaxInt64
          then State_Monad.return (Inl ErrCandidateContentRecoveryRequired)
          else content_eligibility x a g limit l)
   }"

text \<open>The second look before the fetch; \<open>None\<close> is success.\<close>

definition compare_preflight :: "content_preflight \<Rightarrow> account_lifecycle \<Rightarrow> message res \<Rightarrow> gate_decision_state res \<Rightarrow> content_error option" where
  "compare_preflight expected l message decision =
    (case (message, decision) of
       (Inl e, Inl f) \<Rightarrow> Some (fixedCandidateContentStorageError (Some (ErrJoin e f)))
     | (Inl e, Inr _) \<Rightarrow> Some (fixedCandidateContentStorageError (Some e))
     | (Inr _, Inl f) \<Rightarrow> Some (fixedCandidateContentStorageError (Some f))
     | (Inr m, Inr st) \<Rightarrow>
         if \<not> sameLifecycle l (cpf_lifecycle expected) \<or> \<not> message_equal m (cpf_message expected) \<or> \<not> gs_current st \<or>
            \<not> decision_equal (gs_decision st) (cpf_decision expected) \<or> \<not> CandidateOutcome (gd_outcome (gs_decision st))
         then Some ErrCandidateContentConflict else None)"

definition verifyPreflight :: "'w extractor \<Rightarrow> account_id \<Rightarrow> string \<Rightarrow> content_preflight \<Rightarrow> ('w, content_error option) state" where
  "verifyPreflight x a g expected = do {
     lifecycle \<leftarrow> ds_GetAccountLifecycle (d_store (ex_auth x)) CallerContext a;
     (case lifecycle of
        Inl e \<Rightarrow> State_Monad.return (Some (fixedCandidateContentStorageError (Some e)))
      | Inr l \<Rightarrow>
          if inactiveLifecycle l then State_Monad.return (Some ErrCandidateContentInactiveAccount)
          else do {
            message \<leftarrow> ds_GetDiscoveredMessage (d_store (ex_auth x)) a g;
            decision \<leftarrow> xs_GetGateDecision (ex_store x) a g;
            State_Monad.return (compare_preflight expected l message decision)
          })
   }"

section \<open>Fetch and commit\<close>

definition candidateContentFields :: string where
  "candidateContentFields =
    (let fields = ''mimeType,headers(name,value),filename,body(size,data,attachmentId)'' in
     ''id,threadId,payload('' @ fields @ '',parts('' @
     ((\<lambda>part. fields @ '',parts('' @ part @ '')'') ^^ (MaximumMessagePartDepth - 2)) fields @ ''))'')"

definition contentURL :: "'w extractor \<Rightarrow> string \<Rightarrow> string option" where
  "contentURL x messageID =
    (if ValidateGmailMessageID messageID \<noteq> None then None
     else Some ((let base = d_message (ex_auth x) in if has_suffix base ''/'' then butlast base else base) @ ''/'' @
       concat (map path_escape_char messageID) @ ''?'' @ query_encode [(''fields'', candidateContentFields), (''format'', ''FULL'')]))"

definition commit_content :: "'w extractor \<Rightarrow> account_id \<Rightarrow> string \<Rightarrow> int \<Rightarrow> candidate_content_commit \<Rightarrow>
    ('w, content_error + candidate_content) state" where
  "commit_content x a g limit commit = do {
     committed \<leftarrow> xs_CommitCandidateContent (ex_store x) commit;
     (case committed of
        Some e \<Rightarrow> State_Monad.return (Inl (fixedCandidateContentCommitError e))
      | None \<Rightarrow> do {
          durable \<leftarrow> xs_GetCandidateContent (ex_store x) a g limit;
          State_Monad.return (case durable of
              Inl e \<Rightarrow> Inl (fixedCandidateContentStorageError (Some e))
            | Inr cs \<Rightarrow> if \<not> cs_current cs \<or> \<not> content_semantic_equal (cs_content cs) (ccm_next commit)
                then Inl (fixedCandidateContentStorageError None) else Inr (cs_content cs))
        })
   }"

text \<open>The part after the excerpt was decoded.\<close>

definition store_content :: "'w extractor \<Rightarrow> account_id \<Rightarrow> string \<Rightarrow> int \<Rightarrow> content_preflight \<Rightarrow> candidate_content \<Rightarrow>
    ('w, content_error + candidate_content) state" where
  "store_content x a g limit pre next =
    (let commit = \<lparr>ccm_source = cpf_message pre, ccm_gate = cpf_decision pre, ccm_version = lc_version (cpf_lifecycle pre),
           ccm_expected = None, ccm_next = next\<rparr>
     in do {
       prior \<leftarrow> xs_GetCandidateContent (ex_store x) a g limit;
       (case prior of
          Inr cs \<Rightarrow>
            if cs_current cs \<and> content_semantic_equal (cs_content cs) next then State_Monad.return (Inr (cs_content cs))
            else commit_content x a g limit (commit\<lparr>ccm_expected := Some (content_revision (cs_content cs))\<rparr>)
        | Inl e \<Rightarrow>
            if \<not> errors_is e (StorageErr ErrCandidateContentNotFound)
            then State_Monad.return (Inl (fixedCandidateContentStorageError (Some e)))
            else commit_content x a g limit commit)
     })"

definition decode_content :: "maillib \<Rightarrow> 'w extractor \<Rightarrow> account_id \<Rightarrow> string \<Rightarrow> int \<Rightarrow> content_preflight \<Rightarrow> string \<Rightarrow>
    ('w, content_error + candidate_content) state" where
  "decode_content lib x a g limit pre body =
    (case decodeCandidateContentResponse lib body (msg_gmail_id (cpf_message pre)) (msg_thread_id (cpf_message pre)) limit of
       None \<Rightarrow> State_Monad.return (Inl ErrCandidateContentUnavailable)
     | Some (kind, excerpt, truncated) \<Rightarrow> do {
         timestamp \<leftarrow> ex_now x;
         (case NewCandidateContent \<lparr>ci_record_id = msg_record_id (cpf_message pre), ci_source_hash = msg_hash (cpf_message pre),
             ci_gate_version = gd_version (cpf_decision pre), ci_gate_input_hash = gd_input_hash (cpf_decision pre),
             ci_source_kind = kind, ci_excerpt = excerpt, ci_excerpt_limit = limit, ci_truncated = truncated,
             ci_fetched_at = timestamp\<rparr> of
            Inl _ \<Rightarrow> State_Monad.return (Inl ErrCandidateContentUnavailable)
          | Inr next \<Rightarrow> store_content x a g limit pre next)
       })"

definition fetch_content :: "maillib \<Rightarrow> 'w extractor \<Rightarrow> account_id \<Rightarrow> string \<Rightarrow> int \<Rightarrow> content_preflight \<Rightarrow> string \<Rightarrow>
    ('w, content_error + candidate_content) state" where
  "fetch_content lib x a g limit pre access =
    (case contentURL x g of
       None \<Rightarrow> State_Monad.return (Inl ErrCandidateContentInvalidRequest)
     | Some url \<Rightarrow> do {
         got \<leftarrow> gmailGET (ex_auth x) url access MaximumCandidateContentBodyBytes;
         (case got of
            Inl e \<Rightarrow> State_Monad.return (Inl (fixedCandidateContentProviderError e))
          | Inr (status, body) \<Rightarrow>
              if status = 401 then extractor_markReauthorization x a (cpf_lifecycle pre) ReauthorizationReasonGmailUnauthorizedAfterRefresh
              else if status = 403 then
                (if exactGoogleErrorReason body = Some ''domainPolicy''
                 then extractor_markReauthorization x a (cpf_lifecycle pre) ReauthorizationReasonGmailDomainPolicy
                 else State_Monad.return (Inl ErrCandidateContentUnavailable))
              else if status = 404 then State_Monad.return (Inl ErrCandidateContentVanished)
              else if status \<noteq> 200 then State_Monad.return (Inl ErrCandidateContentUnavailable)
              else decode_content lib x a g limit pre body)
       })"

definition refresh_and_fetch :: "maillib \<Rightarrow> 'w extractor \<Rightarrow> account_id \<Rightarrow> string \<Rightarrow> int \<Rightarrow> content_preflight \<Rightarrow> string \<Rightarrow>
    ('w, content_error + candidate_content) state" where
  "refresh_and_fetch lib x a g limit pre refresh = do {
     token \<leftarrow> refreshAccessToken (ex_auth x) refresh;
     (case token of
        (refreshInvalidGrant, Inl _) \<Rightarrow> extractor_markReauthorization x a (cpf_lifecycle pre) ReauthorizationReasonRefreshInvalidGrant
      | (refreshAdminPolicy, Inl _) \<Rightarrow> extractor_markReauthorization x a (cpf_lifecycle pre) ReauthorizationReasonRefreshAdminPolicyEnforced
      | (refreshUnclassified, Inl e) \<Rightarrow> State_Monad.return (Inl (fixedCandidateContentProviderError e))
      | (_, Inr access) \<Rightarrow> do {
          verified \<leftarrow> verifyPreflight x a g pre;
          (case verified of
             Some e \<Rightarrow> State_Monad.return (Inl e)
           | None \<Rightarrow> fetch_content lib x a g limit pre access)
        })
   }"

definition Extract :: "maillib \<Rightarrow> 'w extractor \<Rightarrow> account_id \<Rightarrow> string \<Rightarrow> int \<Rightarrow> ('w, content_error + candidate_content) state" where
  "Extract lib x a g limit =
    (if ex_closed x \<or> limit < MinimumExcerptBytes \<or> limit > MaximumExcerptBytes
     then State_Monad.return (Inl ErrCandidateContentInvalidRequest)
     else if ParseAccountID (account_id_string a) \<noteq> Inr a \<or> ValidateGmailMessageID g \<noteq> None
     then State_Monad.return (Inl ErrCandidateContentInvalidRequest)
     else do {
       ready \<leftarrow> extractor_preflight x a g limit;
       (case ready of
          Inl e \<Rightarrow> State_Monad.return (Inl e)
        | Inr pre \<Rightarrow>
            (case cpf_refresh pre of
               None \<Rightarrow> do {
                 state \<leftarrow> xs_GetCandidateContent (ex_store x) a g limit;
                 State_Monad.return (case state of
                     Inr cs \<Rightarrow> if cs_current cs then Inr (cs_content cs) else Inl ErrCandidateContentRecoveryRequired
                   | Inl _ \<Rightarrow> Inl ErrCandidateContentRecoveryRequired)
               }
             | Some refresh \<Rightarrow> refresh_and_fetch lib x a g limit pre refresh))
     })"

end
