(* ===== verification/Gmail_Runs.thy ===== *)
theory Gmail_Runs
  imports Gmail_Discovery
begin

text \<open>
  How much a discovery run asks of the provider. Any collaborators can be wrapped so that the world counts the
  provider requests; the wrapped run is the original one beside a counter, and the counter stays within the
  documented bound.
\<close>

section \<open>Counting requests\<close>

definition uncounted :: "('w, 'a) state \<Rightarrow> ('w \<times> nat, 'a) state" where
  "uncounted m = State (\<lambda>(w, n). case run_state m w of (r, w') \<Rightarrow> (r, (w', n)))"

definition counted_once :: "('w, 'a) state \<Rightarrow> ('w \<times> nat, 'a) state" where
  "counted_once m = State (\<lambda>(w, n). case run_state m w of (r, w') \<Rightarrow> (r, (w', n + 1)))"

definition counted_store :: "'w discovery_store \<Rightarrow> ('w \<times> nat) discovery_store" where
  "counted_store st = \<lparr>
     ds_ReconcileCurrentDiscovery = (\<lambda>a. uncounted (ds_ReconcileCurrentDiscovery st a)),
     ds_GetAccountLifecycle = (\<lambda>c a. uncounted (ds_GetAccountLifecycle st c a)),
     ds_GetSynchronizationCursor = (\<lambda>a. uncounted (ds_GetSynchronizationCursor st a)),
     ds_GetProviderCredential = (\<lambda>a. uncounted (ds_GetProviderCredential st a)),
     ds_GetDiscoveredMessage = (\<lambda>a g. uncounted (ds_GetDiscoveredMessage st a g)),
     ds_CommitCurrentDiscovery = (\<lambda>c. uncounted (ds_CommitCurrentDiscovery st c)),
     ds_CommitAccountLifecycle = (\<lambda>x c. uncounted (ds_CommitAccountLifecycle st x c))\<rparr>"

definition counted :: "'w discovery \<Rightarrow> ('w \<times> nat) discovery" where
  "counted d = \<lparr>d_clientID = d_clientID d, d_clientSecret = d_clientSecret d, d_pageSize = d_pageSize d,
     d_store = counted_store (d_store d), d_keyring = d_keyring d, d_token = d_token d, d_history = d_history d,
     d_message = d_message d, d_get = (\<lambda>url access. counted_once (d_get d url access)),
     d_post = (\<lambda>url refresh. counted_once (d_post d url refresh)), d_oauth = d_oauth d,
     d_jitter = uncounted (d_jitter d), d_sleep = (\<lambda>t. uncounted (d_sleep d t))\<rparr>"

lemma counted_fields [simp]:
  "d_clientID (counted d) = d_clientID d" "d_clientSecret (counted d) = d_clientSecret d" "d_pageSize (counted d) = d_pageSize d"
  "d_keyring (counted d) = d_keyring d" "d_token (counted d) = d_token d" "d_oauth (counted d) = d_oauth d"
  "historyURL (counted d) = historyURL d" "messageURL (counted d) = messageURL d"
  by (simp_all add: counted_def historyURL_def messageURL_def fun_eq_iff)

text \<open>
  The counted transformer \<open>m'\<close> does what \<open>m\<close> does, adds at most \<open>k\<close> to the counter, and the result satisfies \<open>Q\<close>.
\<close>

definition costs :: "('w, 'a) state \<Rightarrow> ('w \<times> nat, 'a) state \<Rightarrow> nat \<Rightarrow> ('a \<Rightarrow> bool) \<Rightarrow> bool" where
  "costs m m' k Q \<longleftrightarrow> (\<forall>w n. Q (fst (run_state m w)) \<and>
     (\<exists>n' \<le> n + k. run_state m' (w, n) = (fst (run_state m w), (snd (run_state m w), n'))))"

lemma costs_return: "Q x \<Longrightarrow> costs (State_Monad.return x) (State_Monad.return x) k Q"
  by (auto simp: costs_def)

lemma costs_bind:
  assumes "costs m m' k R" and "\<And>r. R r \<Longrightarrow> costs (f r) (f' r) j Q"
  shows "costs (State_Monad.bind m f) (State_Monad.bind m' f') (k + j) Q"
  unfolding costs_def
proof (intro allI)
  fix w n
  obtain r w1 where r: "run_state m w = (r, w1)" by fastforce
  have m: "R (fst (run_state m w)) \<and> (\<exists>n' \<le> n + k. run_state m' (w, n) = (fst (run_state m w), (snd (run_state m w), n')))"
    using assms(1) unfolding costs_def by blast
  then obtain n1 where n1: "n1 \<le> n + k" "run_state m' (w, n) = (r, (w1, n1))" and R: "R r" using r by auto
  have f: "Q (fst (run_state (f r) w1)) \<and> (\<exists>n' \<le> n1 + j. run_state (f' r) (w1, n1) = (fst (run_state (f r) w1), (snd (run_state (f r) w1), n')))"
    using assms(2) [OF R] unfolding costs_def by blast
  then obtain n2 where "n2 \<le> n1 + j" "run_state (f' r) (w1, n1) = (fst (run_state (f r) w1), (snd (run_state (f r) w1), n2))" by blast
  with n1 f r show "Q (fst (run_state (State_Monad.bind m f) w)) \<and>
      (\<exists>n' \<le> n + (k + j). run_state (State_Monad.bind m' f') (w, n) =
        (fst (run_state (State_Monad.bind m f) w), (snd (run_state (State_Monad.bind m f) w), n')))"
    by (auto intro!: exI [of _ n2])
qed

lemma costs_weaken: "costs m m' k R \<Longrightarrow> k \<le> j \<Longrightarrow> (\<And>r. R r \<Longrightarrow> Q r) \<Longrightarrow> costs m m' j Q"
  unfolding costs_def by (meson add_left_mono order_trans)

lemma costs_if: "(b \<Longrightarrow> costs m m' k Q) \<Longrightarrow> (\<not> b \<Longrightarrow> costs n n' k Q) \<Longrightarrow> costs (if b then m else n) (if b then m' else n') k Q"
  by simp

lemma costs_option: "(x = None \<Longrightarrow> costs m m' k Q) \<Longrightarrow> (\<And>y. x = Some y \<Longrightarrow> costs (f y) (f' y) k Q) \<Longrightarrow>
    costs (case x of None \<Rightarrow> m | Some y \<Rightarrow> f y) (case x of None \<Rightarrow> m' | Some y \<Rightarrow> f' y) k Q"
  by (cases x) simp_all

lemma costs_sum: "(\<And>e. x = Inl e \<Longrightarrow> costs (f e) (f' e) k Q) \<Longrightarrow> (\<And>y. x = Inr y \<Longrightarrow> costs (g y) (g' y) k Q) \<Longrightarrow>
    costs (case x of Inl e \<Rightarrow> f e | Inr y \<Rightarrow> g y) (case x of Inl e \<Rightarrow> f' e | Inr y \<Rightarrow> g' y) k Q"
  by (cases x) simp_all

lemma costs_prod: "(\<And>y z. x = (y, z) \<Longrightarrow> costs (f y z) (f' y z) k Q) \<Longrightarrow>
    costs (case x of (y, z) \<Rightarrow> f y z) (case x of (y, z) \<Rightarrow> f' y z) k Q"
  by (cases x) simp_all

lemma costs_free: "costs m m' 0 R \<Longrightarrow> (\<And>r. R r \<Longrightarrow> costs (f r) (f' r) k Q) \<Longrightarrow>
    costs (State_Monad.bind m f) (State_Monad.bind m' f') k Q"
  using costs_bind [of m m' 0 R f f' k Q] by simp

lemma costs_uncounted: "costs m (uncounted m) 0 (\<lambda>_. True)"
  by (simp add: costs_def uncounted_def split_beta)

lemma costs_counted: "costs m (counted_once m) 1 (\<lambda>_. True)"
  by (simp add: costs_def counted_once_def split_beta)

lemma counted_calls:
  "costs (ds_ReconcileCurrentDiscovery (d_store d) a) (ds_ReconcileCurrentDiscovery (d_store (counted d)) a) 0 (\<lambda>_. True)"
  "costs (ds_GetAccountLifecycle (d_store d) c a) (ds_GetAccountLifecycle (d_store (counted d)) c a) 0 (\<lambda>_. True)"
  "costs (ds_GetSynchronizationCursor (d_store d) a) (ds_GetSynchronizationCursor (d_store (counted d)) a) 0 (\<lambda>_. True)"
  "costs (ds_GetProviderCredential (d_store d) a) (ds_GetProviderCredential (d_store (counted d)) a) 0 (\<lambda>_. True)"
  "costs (ds_GetDiscoveredMessage (d_store d) a g) (ds_GetDiscoveredMessage (d_store (counted d)) a g) 0 (\<lambda>_. True)"
  "costs (ds_CommitCurrentDiscovery (d_store d) dc) (ds_CommitCurrentDiscovery (d_store (counted d)) dc) 0 (\<lambda>_. True)"
  "costs (ds_CommitAccountLifecycle (d_store d) c cm) (ds_CommitAccountLifecycle (d_store (counted d)) c cm) 0 (\<lambda>_. True)"
  "costs (d_jitter d) (d_jitter (counted d)) 0 (\<lambda>_. True)" "costs (d_sleep d t) (d_sleep (counted d) t) 0 (\<lambda>_. True)"
  "costs (d_get d url access) (d_get (counted d) url access) 1 (\<lambda>_. True)"
  "costs (d_post d url access) (d_post (counted d) url access) 1 (\<lambda>_. True)"
  by (simp_all add: counted_def counted_store_def costs_uncounted costs_counted [simplified])

lemmas costs_free_call = counted_calls(1-9) [THEN costs_free]
lemmas costs_case = costs_if costs_option costs_sum costs_prod

section \<open>The steps of a run\<close>

lemma mark_costs: "costs (markReauthorization d a l reason) (markReauthorization (counted d) a l reason) 0 (\<lambda>_. True)"
  unfolding markReauthorization_def Let_def
  by (intro costs_free_call costs_case costs_return TrueI)

lemma preflight_costs: "costs (preflight d a) (preflight (counted d) a) 0 (\<lambda>_. True)"
  unfolding preflight_def read_credential_def counted_fields
  by (intro costs_free_call costs_case costs_return TrueI)

lemma refresh_costs: "costs (refreshAccessToken d t) (refreshAccessToken (counted d) t) 1 (\<lambda>_. True)"
  unfolding refreshAccessToken_def counted_fields
  using costs_bind [OF counted_calls(11) costs_return, of "\<lambda>_. True", where j = 0] by (simp add: costs_def)

lemma wait_costs: "costs (waitForRetry d i t) (waitForRetry (counted d) i t) 0 (\<lambda>_. True)"
  unfolding waitForRetry_def
  by (intro costs_free_call costs_case costs_return TrueI)

lemma attempts_costs: "costs (gmail_attempts d url access limit left) (gmail_attempts (counted d) url access limit left) left (\<lambda>_. True)"
proof (induction left)
  case (Suc left)
  have "costs (case judge_reply limit reply of Failed e \<Rightarrow> State_Monad.return (Inl e)
        | Answered status body \<Rightarrow> State_Monad.return (Inr (status, body))
        | TryAgain retryAfter \<Rightarrow> if left = 0 then State_Monad.return (Inl ErrCurrentDiscoveryRetryExhausted)
            else State_Monad.bind (waitForRetry d (MaximumProviderAttempts - Suc left) retryAfter) (\<lambda>waited.
              case waited of None \<Rightarrow> gmail_attempts d url access limit left | Some e \<Rightarrow> State_Monad.return (Inl e)))
      (case judge_reply limit reply of Failed e \<Rightarrow> State_Monad.return (Inl e)
        | Answered status body \<Rightarrow> State_Monad.return (Inr (status, body))
        | TryAgain retryAfter \<Rightarrow> if left = 0 then State_Monad.return (Inl ErrCurrentDiscoveryRetryExhausted)
            else State_Monad.bind (waitForRetry (counted d) (MaximumProviderAttempts - Suc left) retryAfter) (\<lambda>waited.
              case waited of None \<Rightarrow> gmail_attempts (counted d) url access limit left | Some e \<Rightarrow> State_Monad.return (Inl e)))
      left (\<lambda>_. True)" for reply
    by (cases "judge_reply limit reply") (auto intro!: costs_free [OF wait_costs] costs_case costs_return Suc)
  from costs_bind [OF counted_calls(10) this] show ?case by simp
qed (simp add: costs_return)

lemma get_costs: "costs (gmailGET d url access limit) (gmailGET (counted d) url access limit) MaximumProviderAttempts (\<lambda>_. True)"
  unfolding gmailGET_def by (rule attempts_costs)

text \<open>A refused request costs nothing more.\<close>

lemma refused_costs:
  "case refused d a l status body of
     None \<Rightarrow> refused (counted d) a l status body = None \<and> (status = 404 \<or> status = 200)
   | Some m \<Rightarrow> \<exists>m'. refused (counted d) a l status body = Some m' \<and> costs m m' 0 (\<lambda>_. True)"
  by (auto simp: refused_def mark_costs costs_return)

lemma refused_case:
  assumes "refused d a l status body = None \<Longrightarrow> costs m m' k Q" and "\<And>e. Q (Inl e)"
  shows "costs (case refused d a l status body of Some x \<Rightarrow> State_Monad.bind x (\<lambda>e. State_Monad.return (Inl e)) | None \<Rightarrow> m)
    (case refused (counted d) a l status body of Some x \<Rightarrow> State_Monad.bind x (\<lambda>e. State_Monad.return (Inl e)) | None \<Rightarrow> m') k Q"
  using refused_costs [of d a l status body] assms
  by (auto split: option.splits intro!: costs_free costs_return)

lemma add_identities_bound:
  "add_identities ids is = Inr ids' \<Longrightarrow> length ids \<le> MaximumCurrentDiscoveryMessages \<Longrightarrow> length ids' \<le> MaximumCurrentDiscoveryMessages"
  by (induction ids "is" rule: add_identities.induct) (auto split: option.splits if_splits)

lemma add_records_bound:
  "add_records g rs = Inr g' \<Longrightarrow> length (hg_identities g) \<le> MaximumCurrentDiscoveryMessages \<Longrightarrow>
    length (hg_identities g') \<le> MaximumCurrentDiscoveryMessages"
proof (induction g rs rule: add_records.induct)
  case (2 g r rs)
  then obtain ids where "add_identities (hg_identities g) (hr_identities r) = Inr ids"
      "add_records (g\<lparr>hg_record := Some (hr_id r), hg_identities := ids\<rparr>) rs = Inr g'"
    and skip: "\<not> (case hg_record g of None \<Rightarrow> False | Some previous \<Rightarrow> history_id_compare (hr_id r) previous \<le> 0)"
    by (auto split: sum.splits if_splits)
  then show ?case using 2(1) [OF skip] add_identities_bound 2(3) by simp
qed simp

lemma add_page_bound:
  "add_page c g page = Inr g' \<Longrightarrow> length (hg_identities g) \<le> MaximumCurrentDiscoveryMessages \<Longrightarrow>
    length (hg_identities g') \<le> MaximumCurrentDiscoveryMessages"
  using add_records_bound by (auto simp: add_page_def split: sum.splits if_splits)

abbreviation reading_bounded :: "discovery_error + history_reading \<Rightarrow> bool" where
  "reading_bounded r \<equiv> case r of Inl _ \<Rightarrow> True
     | Inr (ids, _, pages) \<Rightarrow> length ids \<le> MaximumCurrentDiscoveryMessages \<and> pages \<le> MaximumCurrentDiscoveryPages"

lemma read_pages_costs:
  "length (hg_identities g) \<le> MaximumCurrentDiscoveryMessages \<Longrightarrow>
    costs (read_pages d a l cursor access token left g) (read_pages (counted d) a l cursor access token left g)
      (MaximumProviderAttempts * left) reading_bounded"
proof (induction left arbitrary: token g)
  case (Suc left)
  note step = costs_bind [OF get_costs, where j = "MaximumProviderAttempts * left"]
  note next_page = add_page_bound [OF _ Suc.prems]
  show ?case
    unfolding read_pages.simps counted_fields mult_Suc_right
    by (rule step, intro costs_case refused_case costs_return Suc.IH) (auto dest: next_page)
qed (simp add: costs_return)

lemma readHistory_costs:
  "costs (readHistory d a l cursor access) (readHistory (counted d) a l cursor access)
    (MaximumProviderAttempts * MaximumCurrentDiscoveryPages) reading_bounded"
  unfolding readHistory_def by (rule read_pages_costs) simp

lemma readMessage_costs:
  "costs (readMessage lib d a l i access) (readMessage lib (counted d) a l i access) MaximumProviderAttempts (\<lambda>_. True)"
  unfolding readMessage_def counted_fields
  by (intro costs_case costs_return TrueI, rule costs_bind [OF get_costs, where j = 0, simplified], intro costs_case refused_case costs_return TrueI)

lemma read_messages_costs:
  "costs (read_messages lib d a l access ids) (read_messages lib (counted d) a l access ids) (MaximumProviderAttempts * length ids)
    (\<lambda>r. case r of Inl _ \<Rightarrow> True | Inr ms \<Rightarrow> length ms = length ids)"
proof (induction ids)
  case (Cons i ids)
  have rest: "costs (State_Monad.bind (read_messages lib d a l access ids) (\<lambda>rest. State_Monad.return (case rest of Inl e \<Rightarrow> Inl e | Inr ms \<Rightarrow> Inr (m # ms))))
      (State_Monad.bind (read_messages lib (counted d) a l access ids) (\<lambda>rest. State_Monad.return (case rest of Inl e \<Rightarrow> Inl e | Inr ms \<Rightarrow> Inr (m # ms))))
      (MaximumProviderAttempts * length ids) (\<lambda>r. case r of Inl _ \<Rightarrow> True | Inr ms \<Rightarrow> length ms = length (i # ids))" for m
    by (rule costs_bind [OF Cons.IH, where j = 0, simplified]) (auto intro!: costs_return split: sum.splits)
  have k: "MaximumProviderAttempts * length (i # ids) = MaximumProviderAttempts + MaximumProviderAttempts * length ids" by simp
  show ?case
    unfolding read_messages.simps k
    by (rule costs_bind [OF readMessage_costs], intro costs_sum costs_return rest) simp
qed (simp add: costs_return)

lemma durable_costs: "costs (alreadyDurable d a ids) (alreadyDurable (counted d) a ids) 0 (\<lambda>_. True)"
proof (induction ids)
  case (Cons i ids)
  show ?case unfolding alreadyDurable.simps by (intro costs_free_call costs_case costs_return TrueI Cons.IH)
qed (simp add: costs_return)

text \<open>What the counters of a result say of one another.\<close>

definition result_exact :: "discovery_result \<Rightarrow> bool" where
  "result_exact r \<longleftrightarrow> unat (dr_pages r) \<le> MaximumCurrentDiscoveryPages \<and> unat (dr_additions r) \<le> MaximumCurrentDiscoveryMessages \<and>
     (if dr_advanced r then unat (dr_committed r) + unat (dr_vanished r) = unat (dr_additions r)
      else dr_committed r = 0 \<and> dr_vanished r = 0)"

lemma map_filter_partition:
  "length (List.map_filter id ms) + length (filter (\<lambda>m. m = None) ms) = length ms"
  by (induction ms) (auto simp: map_filter_simps split: option.splits)

lemma small_u16: "n \<le> MaximumCurrentDiscoveryMessages \<Longrightarrow> unat (word_of_nat n :: u16) = n"
  by (simp add: unat_of_nat MaximumCurrentDiscoveryMessages_def)

lemma small_pages: "n \<le> MaximumCurrentDiscoveryPages \<Longrightarrow> unat (word_of_nat n :: u16) = n"
  by (simp add: unat_of_nat MaximumCurrentDiscoveryPages_def)

abbreviation outcome_exact :: "discovery_error + discovery_result \<Rightarrow> bool" where
  "outcome_exact r \<equiv> case r of Inl _ \<Rightarrow> True | Inr x \<Rightarrow> result_exact x"

lemma commit_costs:
  assumes "length ms \<le> MaximumCurrentDiscoveryMessages" and "unat (dr_pages result) \<le> MaximumCurrentDiscoveryPages"
    and "dr_additions result = word_of_nat (length ms)" and "dr_vanished result = word_of_nat (length (filter (\<lambda>m. m = None) ms))"
    and "dc_messages commit = List.map_filter id ms"
  shows "costs (commit_discovery d commit result) (commit_discovery (counted d) commit result) 0 outcome_exact"
proof -
  have part: "length (List.map_filter id ms) \<le> MaximumCurrentDiscoveryMessages"
      "length (filter (\<lambda>m. m = None) ms) \<le> MaximumCurrentDiscoveryMessages"
    using map_filter_partition [of ms] assms(1) by simp_all
  have "result_exact (result\<lparr>dr_committed := word_of_nat (length (dc_messages commit)), dr_advanced := True\<rparr>)"
    using map_filter_partition [of ms] assms(1,2)
    by (simp add: result_exact_def assms(3-5) small_u16 [OF part(1)] small_u16 [OF part(2)] small_u16 [OF assms(1)])
  then show ?thesis
    unfolding commit_discovery_def
    by (intro costs_case costs_return costs_free_call) (auto split: option.splits)
qed

lemma settle_costs:
  assumes "length ids \<le> MaximumCurrentDiscoveryMessages" and "pages \<le> MaximumCurrentDiscoveryPages"
  shows "costs (settle_history lib d a pre access (ids, h, pages)) (settle_history lib (counted d) a pre access (ids, h, pages))
    (MaximumProviderAttempts * MaximumCurrentDiscoveryMessages) outcome_exact"
proof -
  note bounds = small_u16 [OF assms(1)] small_pages [OF assms(2)]
  have idle: "outcome_exact (Inr \<lparr>dr_pages = word_of_nat pages, dr_additions = word_of_nat (length ids), dr_committed = 0, dr_vanished = 0,
      dr_advanced = False\<rparr>)"
    using assms by (simp add: result_exact_def bounds)
  have ids: "MaximumProviderAttempts * length ids \<le> MaximumProviderAttempts * MaximumCurrentDiscoveryMessages" using assms(1) by simp
  have fetch: "costs (State_Monad.bind (read_messages lib d a (pf_lifecycle pre) access ids) f)
      (State_Monad.bind (read_messages lib (counted d) a (pf_lifecycle pre) access ids) f')
      (MaximumProviderAttempts * MaximumCurrentDiscoveryMessages) outcome_exact"
    if "\<And>r. (case r of Inl _ \<Rightarrow> True | Inr ms \<Rightarrow> length ms = length ids) \<Longrightarrow> costs (f r) (f' r) 0 outcome_exact" for f f'
    by (rule costs_weaken [OF costs_bind [OF read_messages_costs that]]) (use ids in simp_all)
  show ?thesis
    unfolding settle_history_def prod.case Let_def
    by (intro costs_if costs_free [OF durable_costs] costs_return fetch costs_sum commit_costs)
      (use idle assms bounds in auto)
qed

lemma Discover_costs:
  "costs (Discover lib d a) (Discover lib (counted d) a) MaximumProviderRequestAttempts outcome_exact"
proof -
  let ?K = "MaximumProviderAttempts * MaximumCurrentDiscoveryPages + MaximumProviderAttempts * MaximumCurrentDiscoveryMessages"
  have total: "1 + ?K = MaximumProviderRequestAttempts"
    by (simp add: MaximumProviderAttempts_def MaximumCurrentDiscoveryPages_def MaximumCurrentDiscoveryMessages_def MaximumProviderRequestAttempts_def)
  have settle: "costs (settle_history lib d a pre access r) (settle_history lib (counted d) a pre access r)
      (MaximumProviderAttempts * MaximumCurrentDiscoveryMessages) outcome_exact" if "reading_bounded (Inr r)" for pre access r
    using settle_costs that by (cases r) auto
  have history: "costs (State_Monad.bind (readHistory d a (pf_lifecycle pre) h access)
        (\<lambda>reading. case reading of Inl e \<Rightarrow> State_Monad.return (Inl e) | Inr r \<Rightarrow> settle_history lib d a pre access r))
      (State_Monad.bind (readHistory (counted d) a (pf_lifecycle pre) h access)
        (\<lambda>reading. case reading of Inl e \<Rightarrow> State_Monad.return (Inl e) | Inr r \<Rightarrow> settle_history lib (counted d) a pre access r))
      ?K outcome_exact" for pre h access
    by (rule costs_bind [OF readHistory_costs]) (intro costs_sum costs_return settle, auto)
  have mark: "costs (State_Monad.bind (markReauthorization d a l reason) (\<lambda>e. State_Monad.return (Inl e)))
      (State_Monad.bind (markReauthorization (counted d) a l reason) (\<lambda>e. State_Monad.return (Inl e))) ?K outcome_exact" for l reason
    by (rule costs_free [OF mark_costs]) (simp add: costs_return)
  show ?thesis
    unfolding Discover_def counted_fields total [symmetric]
    by (intro costs_if costs_return costs_free [OF preflight_costs] costs_sum costs_bind [OF refresh_costs])
      (auto intro!: mark history costs_return split: prod.splits sum.splits refresh_classification.splits)
qed

text \<open>
  C35 (discovery_requests_bounded): A discovery run ends after a bounded number of provider requests, whatever the storage, the provider, the
  clock and the random source do. The run over collaborators that count the requests is the run over the
  original ones beside a counter, and the counter ends at no more than the documented
  \<^verbatim>\<open>MaximumProviderRequestAttempts\<close>: one refresh, four attempts for each of ten pages and for each of 5000
  messages.
\<close>

theorem discovery_requests_bounded:
  "\<exists>n \<le> MaximumProviderRequestAttempts. run_state (Discover lib (counted d) a) (w, 0) =
    (fst (run_state (Discover lib d a) w), (snd (run_state (Discover lib d a) w), n))"
  using Discover_costs [of lib d a] unfolding costs_def by (metis add_0)

end
