(* ===== verification/Gmail_Trail.thy ===== *)
theory Gmail_Trail
  imports Gmail_Discovery
begin

text \<open>
  What a discovery run asks and what it is answered. The world of a run records the exchanges with the provider; the trail of
  a step is the list of exchanges it adds. A reading of the history and of the messages is described by its trail
  alone: which addresses were asked in which order, with which token, and what the answers say.
\<close>

section \<open>Trails\<close>

text \<open>An exchange is the address, the token that was presented and the reply.\<close>

type_synonym exchange = "string \<times> string \<times> provider_reply"

definition asks :: "('w \<Rightarrow> exchange list) \<Rightarrow> ('w, 'a) state \<Rightarrow> ('a \<Rightarrow> exchange list \<Rightarrow> bool) \<Rightarrow> bool" where
  "asks log m P \<longleftrightarrow> (\<forall>w. \<exists>trail. log (snd (run_state m w)) = log w @ trail \<and> P (fst (run_state m w)) trail)"

abbreviation silent :: "('w \<Rightarrow> exchange list) \<Rightarrow> ('w, 'a) state \<Rightarrow> bool" where
  "silent log m \<equiv> asks log m (\<lambda>_ trail. trail = [])"

lemma asks_return: "P x [] \<Longrightarrow> asks log (State_Monad.return x) P"
  by (simp add: asks_def)

lemma asks_bind:
  assumes "asks log m P" and "\<And>x trail. P x trail \<Longrightarrow> asks log (f x) (\<lambda>y more. Q y (trail @ more))"
  shows "asks log (State_Monad.bind m f) Q"
  unfolding asks_def
proof
  fix w
  obtain x w1 where m: "run_state m w = (x, w1)" by fastforce
  then obtain trail where t: "log w1 = log w @ trail" "P x trail" using assms(1) unfolding asks_def by (metis fst_conv snd_conv)
  obtain more where "log (snd (run_state (f x) w1)) = log w1 @ more" "Q (fst (run_state (f x) w1)) (trail @ more)"
    using assms(2) [OF t(2)] unfolding asks_def by blast
  then show "\<exists>trail. log (snd (run_state (State_Monad.bind m f) w)) = log w @ trail \<and> Q (fst (run_state (State_Monad.bind m f) w)) trail"
    using m t by (intro exI [of _ "trail @ more"]) simp
qed

lemma asks_silent: "silent log m \<Longrightarrow> (\<And>x. asks log (f x) Q) \<Longrightarrow> asks log (State_Monad.bind m f) Q"
  by (erule asks_bind) simp

lemma asks_weaken: "asks log m P \<Longrightarrow> (\<And>x trail. P x trail \<Longrightarrow> Q x trail) \<Longrightarrow> asks log m Q"
  unfolding asks_def by blast

lemma asks_run: "asks log m P \<Longrightarrow> run_state m w = (x, w') \<Longrightarrow> \<exists>trail. log w' = log w @ trail \<and> P x trail"
  unfolding asks_def by (metis fst_conv snd_conv)

lemma asks_if: "(b \<Longrightarrow> asks log m P) \<Longrightarrow> (\<not> b \<Longrightarrow> asks log n P) \<Longrightarrow> asks log (if b then m else n) P"
  by simp

lemma asks_option: "(x = None \<Longrightarrow> asks log m P) \<Longrightarrow> (\<And>y. x = Some y \<Longrightarrow> asks log (f y) P) \<Longrightarrow>
    asks log (case x of None \<Rightarrow> m | Some y \<Rightarrow> f y) P"
  by (cases x) simp_all

lemma asks_sum: "(\<And>e. x = Inl e \<Longrightarrow> asks log (f e) P) \<Longrightarrow> (\<And>y. x = Inr y \<Longrightarrow> asks log (g y) P) \<Longrightarrow>
    asks log (case x of Inl e \<Rightarrow> f e | Inr y \<Rightarrow> g y) P"
  by (cases x) simp_all

lemmas asks_case = asks_if asks_option asks_sum

section \<open>What a trail says\<close>

text \<open>One address was asked, again after every reply that calls for another try, until it was answered.\<close>

definition answered_by :: "nat \<Rightarrow> string \<Rightarrow> string \<Rightarrow> exchange list \<Rightarrow> int \<Rightarrow> string \<Rightarrow> bool" where
  "answered_by limit url access trail status body \<longleftrightarrow> (\<exists>tries reply. trail = map (\<lambda>r. (url, access, r)) tries @ [(url, access, reply)] \<and>
     (\<forall>r \<in> set tries. \<exists>t. judge_reply limit r = TryAgain t) \<and> judge_reply limit reply = Answered status body)"

text \<open>The refresh token was presented once, and the library took the access token from the reply.\<close>

definition token_trail :: "'w discovery \<Rightarrow> string \<Rightarrow> string \<Rightarrow> exchange list \<Rightarrow> bool" where
  "token_trail d refresh access trail \<longleftrightarrow> (\<exists>reply. trail = [(d_token d, refresh, reply)] \<and>
     d_oauth d (snd (validate_refresh reply)) = Some (''Bearer'', access))"

text \<open>
  The pages of the history after a cursor: the first is asked for without a page token, every later one with the token of the one
  before, and the last one names no further page.
\<close>

fun page_trail :: "'w discovery \<Rightarrow> history_id \<Rightarrow> string \<Rightarrow> string \<Rightarrow> history_page list \<Rightarrow> exchange list \<Rightarrow> bool" where
  "page_trail d cursor access token [] trail = False"
| "page_trail d cursor access token (p # ps) trail = (\<exists>first rest body. trail = first @ rest \<and>
     answered_by MaximumHistoryPageBodyBytes (historyURL d (hid_text cursor) token) access first 200 body \<and> decodeHistoryPage body = Some p \<and>
     (if ps = [] then hp_next p = [] \<and> rest = [] else hp_next p \<noteq> [] \<and> page_trail d cursor access (hp_next p) ps rest))"

definition page_identities :: "history_page list \<Rightarrow> discovered_identity set" where
  "page_identities pages = (\<Union>p \<in> set pages. \<Union>r \<in> set (hp_records p). set (hr_identities r))"

text \<open>A message has vanished, or its metadata were decoded and normalized.\<close>

definition message_met :: "maillib \<Rightarrow> account_id \<Rightarrow> discovered_identity \<Rightarrow> int \<Rightarrow> string \<Rightarrow> message option \<Rightarrow> bool" where
  "message_met lib a i status body m \<longleftrightarrow> status = 404 \<and> m = None \<or>
     status = 200 \<and> (\<exists>inp x. decodeMessageMetadata lib body i = Some inp \<and> Normalize (account_id_string a) inp = Inr x \<and> m = Some x)"

text \<open>Every identity was asked for in turn.\<close>

fun message_trail :: "maillib \<Rightarrow> 'w discovery \<Rightarrow> account_id \<Rightarrow> string \<Rightarrow> discovered_identity list \<Rightarrow> message option list \<Rightarrow> exchange list \<Rightarrow> bool" where
  "message_trail lib d a access [] [] trail = (trail = [])"
| "message_trail lib d a access (i # is) (m # ms) trail = (\<exists>first rest url status body. trail = first @ rest \<and>
     messageURL d (di_message i) = Some url \<and> answered_by MaximumMessageMetadataBodyBytes url access first status body \<and>
     message_met lib a i status body m \<and> message_trail lib d a access is ms rest)"
| "message_trail lib d a access _ _ trail = False"

lemma message_trail_length: "message_trail lib d a access is ms trail \<Longrightarrow> length is = length ms"
  by (induction lib d a access "is" ms trail rule: message_trail.induct) auto

section \<open>The identities of a page\<close>

lemma add_identities_set:
  "add_identities ids xs = Inr ids' \<Longrightarrow> set ids' = set ids \<union> set xs \<and>
    (distinct (map di_message ids) \<longrightarrow> distinct (map di_message ids'))"
proof (induction ids xs rule: add_identities.induct)
  case (2 ids i "is")
  show ?case
  proof (cases "known_thread ids (di_message i)")
    case None
    then have "di_message i \<notin> di_message ` set ids" by (simp add: known_thread_def map_of_eq_None_iff image_image)
    then show ?thesis using 2 None by (auto split: if_splits)
  next
    case (Some thread)
    then have t: "thread = di_thread i" using 2(3) by (auto split: if_splits)
    then obtain j where "j \<in> set ids" "di_message j = di_message i" "di_thread j = di_thread i"
      using Some by (auto simp: known_thread_def dest!: map_of_SomeD)
    then have "i \<in> set ids" by (metis discovered_identity.surjective old.unit.exhaust)
    then show ?thesis using 2 Some t by auto
  qed
qed auto

lemma add_records_set:
  "add_records g rs = Inr g' \<Longrightarrow> set (hg_identities g') = set (hg_identities g) \<union> (\<Union>r \<in> set rs. set (hr_identities r)) \<and>
    (distinct (map di_message (hg_identities g)) \<longrightarrow> distinct (map di_message (hg_identities g')))"
proof (induction g rs rule: add_records.induct)
  case (2 g r rs)
  then obtain ids where ids: "add_identities (hg_identities g) (hr_identities r) = Inr ids"
      "add_records (g\<lparr>hg_record := Some (hr_id r), hg_identities := ids\<rparr>) rs = Inr g'"
    and ord: "\<not> (case hg_record g of None \<Rightarrow> False | Some previous \<Rightarrow> history_id_compare (hr_id r) previous \<le> 0)"
    by (auto split: sum.splits if_splits)
  from 2(1) [OF ord ids(1,2)] show ?case using add_identities_set [OF ids(1)] by auto
qed simp

lemma add_page_set:
  "add_page c g p = Inr g' \<Longrightarrow> set (hg_identities g') = set (hg_identities g) \<union> page_identities [p] \<and>
    (distinct (map di_message (hg_identities g)) \<longrightarrow> distinct (map di_message (hg_identities g')))"
  by (auto simp: add_page_def page_identities_def dest!: add_records_set split: sum.splits if_splits)

text \<open>
  A reading that started with the progress \<open>g\<close> and \<open>left\<close> pages to go: what it returns is what the pages on its trail say.
\<close>

definition pages_read :: "'w discovery \<Rightarrow> history_id \<Rightarrow> string \<Rightarrow> string \<Rightarrow> nat \<Rightarrow> history_progress \<Rightarrow> discovery_error + history_reading \<Rightarrow>
    exchange list \<Rightarrow> bool" where
  "pages_read d cursor access token left g r trail \<longleftrightarrow> (\<forall>ids h k. r = Inr (ids, h, k) \<longrightarrow>
     (\<exists>pages. page_trail d cursor access token pages trail \<and> h = hp_history (last pages) \<and> length pages \<le> left \<and>
       k = MaximumCurrentDiscoveryPages - (left - length pages) \<and> set ids = set (hg_identities g) \<union> page_identities pages \<and>
       (distinct (map di_message (hg_identities g)) \<longrightarrow> distinct (map di_message ids))))"

lemma pages_read_Inl [simp]: "pages_read d cursor access token left g (Inl e) trail"
  by (simp add: pages_read_def)

lemma pages_read_last:
  assumes "answered_by MaximumHistoryPageBodyBytes (historyURL d (hid_text cursor) token) access trail 200 body"
    and "decodeHistoryPage body = Some page" and "hp_next page = []" and "add_page cursor g page = Inr g'"
  shows "pages_read d cursor access token (Suc left) g (Inr (hg_identities g', hp_history page, MaximumCurrentDiscoveryPages - left)) trail"
  unfolding pages_read_def using assms add_page_set [OF assms(4)] by (intro allI impI exI [of _ "[page]"]) auto

lemma pages_read_more:
  assumes first: "answered_by MaximumHistoryPageBodyBytes (historyURL d (hid_text cursor) token) access first 200 body"
    and page: "decodeHistoryPage body = Some page" "hp_next page \<noteq> []" "add_page cursor g page = Inr g'"
    and rest: "pages_read d cursor access (hp_next page) left (g'\<lparr>hg_tokens := ts\<rparr>) r rest"
  shows "pages_read d cursor access token (Suc left) g r (first @ rest)"
  unfolding pages_read_def
proof (intro allI impI)
  fix ids h k assume r: "r = Inr (ids, h, k)"
  from rest r obtain pages where pages: "page_trail d cursor access (hp_next page) pages rest" "h = hp_history (last pages)" "length pages \<le> left"
      "k = MaximumCurrentDiscoveryPages - (left - length pages)" "set ids = set (hg_identities g') \<union> page_identities pages"
      "distinct (map di_message (hg_identities g')) \<longrightarrow> distinct (map di_message ids)"
    by (auto simp: pages_read_def)
  have "pages \<noteq> []" using pages(1) by auto
  then show "\<exists>pages. page_trail d cursor access token pages (first @ rest) \<and> h = hp_history (last pages) \<and> length pages \<le> Suc left \<and>
      k = MaximumCurrentDiscoveryPages - (Suc left - length pages) \<and> set ids = set (hg_identities g) \<union> page_identities pages \<and>
      (distinct (map di_message (hg_identities g)) \<longrightarrow> distinct (map di_message ids))"
    using first page add_page_set [OF page(3)] pages by (intro exI [of _ "page # pages"]) (auto simp: page_identities_def)
qed

section \<open>A provider whose exchanges are recorded\<close>

locale recorded_provider =
  fixes d :: "'w discovery" and log :: "'w \<Rightarrow> exchange list"
  assumes get_asks: "asks log (d_get d url access) (\<lambda>r trail. trail = [(url, access, r)])"
    and post_asks: "asks log (d_post d url refresh) (\<lambda>r trail. trail = [(url, refresh, r)])"
    and jitter_silent: "silent log (d_jitter d)"
    and sleep_silent: "silent log (d_sleep d t)"
    and storage_silent:
      "silent log (ds_ReconcileCurrentDiscovery (d_store d) a)" "silent log (ds_GetAccountLifecycle (d_store d) c a)"
      "silent log (ds_GetSynchronizationCursor (d_store d) a)" "silent log (ds_GetProviderCredential (d_store d) a)"
      "silent log (ds_GetDiscoveredMessage (d_store d) a g)" "silent log (ds_CommitCurrentDiscovery (d_store d) dc)"
      "silent log (ds_CommitAccountLifecycle (d_store d) c cm)"
begin

lemma wait_silent: "silent log (waitForRetry d i t)"
  unfolding waitForRetry_def
  by (intro asks_silent [OF jitter_silent] asks_silent [OF sleep_silent] asks_option asks_return) (auto split: prod.splits)

lemma attempts_asks:
  "asks log (gmail_attempts d url access limit left)
    (\<lambda>r trail. \<forall>status body. r = Inr (status, body) \<longrightarrow> answered_by limit url access trail status body)"
proof (induction left)
  case (Suc left)
  have again: "asks log (gmail_attempts d url access limit left)
      (\<lambda>y more. \<forall>status body. y = Inr (status, body) \<longrightarrow> answered_by limit url access ([(url, access, r)] @ more) status body)"
    if "judge_reply limit r = TryAgain t" for r t
  proof (rule asks_weaken [OF Suc], intro allI impI)
    fix x :: "discovery_error + int \<times> string" and trail status body
    assume "\<forall>status body. x = Inr (status, body) \<longrightarrow> answered_by limit url access trail status body" "x = Inr (status, body)"
    then obtain tries reply where "trail = map (\<lambda>r. (url, access, r)) tries @ [(url, access, reply)]"
        "\<forall>r \<in> set tries. \<exists>t. judge_reply limit r = TryAgain t" "judge_reply limit reply = Answered status body"
      by (auto simp: answered_by_def)
    then show "answered_by limit url access ([(url, access, r)] @ trail) status body"
      unfolding answered_by_def using that by (intro exI [of _ "r # tries"] exI [of _ reply]) auto
  qed
  have once: "answered_by limit url access [(url, access, r)] status body" if "judge_reply limit r = Answered status body" for r status body
    using that by (simp add: answered_by_def exI [of _ "[]"])
  show ?case
    unfolding gmail_attempts.simps
  proof (rule asks_bind [OF get_asks])
    fix r :: provider_reply and trail assume t: "trail = [(url, access, r)]"
    show "asks log (case judge_reply limit r of Failed e \<Rightarrow> State_Monad.return (Inl e)
        | Answered status body \<Rightarrow> State_Monad.return (Inr (status, body))
        | TryAgain retryAfter \<Rightarrow> if left = 0 then State_Monad.return (Inl ErrCurrentDiscoveryRetryExhausted)
            else State_Monad.bind (waitForRetry d (MaximumProviderAttempts - Suc left) retryAfter) (\<lambda>waited.
              case waited of Some e \<Rightarrow> State_Monad.return (Inl e) | None \<Rightarrow> gmail_attempts d url access limit left))
        (\<lambda>y more. \<forall>status body. y = Inr (status, body) \<longrightarrow> answered_by limit url access (trail @ more) status body)"
      unfolding t
      by (cases "judge_reply limit r") (auto intro!: asks_return once asks_silent [OF wait_silent] asks_option again [simplified])
  qed
qed (simp add: asks_return)

lemmas asks_storage = storage_silent [THEN asks_silent]

lemma get_asks': "asks log (gmailGET d url access limit)
    (\<lambda>r trail. \<forall>status body. r = Inr (status, body) \<longrightarrow> answered_by limit url access trail status body)"
  unfolding gmailGET_def by (rule attempts_asks)

lemma mark_silent: "silent log (markReauthorization d a l reason)"
  unfolding markReauthorization_def Let_def by (intro asks_storage asks_option asks_return refl)

lemma preflight_silent: "silent log (preflight d a)"
  unfolding preflight_def read_credential_def by (intro asks_storage asks_case asks_return refl)

lemma refresh_asks: "asks log (refreshAccessToken d refresh) (\<lambda>r trail. \<forall>access. snd r = Inr access \<longrightarrow> token_trail d refresh access trail)"
  unfolding refreshAccessToken_def
  by (rule asks_bind [OF post_asks], rule asks_return)
    (auto simp: token_trail_def split: prod.splits option.splits if_splits)

text \<open>After an answer that is no document the step ends with an error.\<close>

lemma request_asks:
  assumes ok: "\<And>status body trail. answered_by limit url access trail status body \<Longrightarrow> refused d a l status body = None \<Longrightarrow>
      asks log (f status body) (\<lambda>r more. Q r (trail @ more))"
    and err: "\<And>e trail. Q (Inl e) trail"
  shows "asks log (State_Monad.bind (gmailGET d url access limit) (\<lambda>got. case got of
      Inl e \<Rightarrow> State_Monad.return (Inl e)
    | Inr (status, body) \<Rightarrow> (case refused d a l status body of
        Some m \<Rightarrow> State_Monad.bind m (\<lambda>e. State_Monad.return (Inl e))
      | None \<Rightarrow> f status body))) Q"
proof (rule asks_bind [OF get_asks'])
  fix got :: "discovery_error + int \<times> string" and trail
  assume got: "\<forall>status body. got = Inr (status, body) \<longrightarrow> answered_by limit url access trail status body"
  have stop: "asks log (State_Monad.bind m (\<lambda>e. State_Monad.return (Inl e))) (\<lambda>r more. Q r (trail @ more))"
    if "refused d a l status body = Some m" for status body m
    using that by (auto simp: refused_def intro!: asks_silent [OF mark_silent] asks_return err split: if_splits)
  show "asks log (case got of Inl e \<Rightarrow> State_Monad.return (Inl e) | Inr (status, body) \<Rightarrow> (case refused d a l status body of
      Some m \<Rightarrow> State_Monad.bind m (\<lambda>e. State_Monad.return (Inl e)) | None \<Rightarrow> f status body)) (\<lambda>r more. Q r (trail @ more))"
    using got by (cases got) (auto intro!: asks_return err asks_option stop ok split: prod.splits)
qed

lemma read_pages_asks:
  "asks log (read_pages d a l cursor access token left g) (pages_read d cursor access token left g)"
proof (induction left arbitrary: token g)
  case (Suc left)
  show ?case
    unfolding read_pages.simps
    by (rule request_asks, intro asks_case asks_return asks_weaken [OF Suc.IH])
      (auto simp: refused_def intro: pages_read_last pages_read_more split: if_splits)
qed (simp add: asks_return)

lemma readHistory_asks:
  "asks log (readHistory d a l cursor access) (\<lambda>r trail. \<forall>ids h k. r = Inr (ids, h, k) \<longrightarrow>
    (\<exists>pages. page_trail d cursor access [] pages trail \<and> h = hp_history (last pages) \<and> k = length pages \<and>
      set ids = page_identities pages \<and> distinct (map di_message ids)))"
  unfolding readHistory_def
  by (rule asks_weaken [OF read_pages_asks]) (fastforce simp: pages_read_def)

lemma readMessage_asks:
  "asks log (readMessage lib d a l i access) (\<lambda>r trail. \<forall>m. r = Inr m \<longrightarrow> (\<exists>url status body. messageURL d (di_message i) = Some url \<and>
    answered_by MaximumMessageMetadataBodyBytes url access trail status body \<and> message_met lib a i status body m))"
  unfolding readMessage_def
  by (intro asks_option asks_return request_asks)
    (auto simp: message_met_def refused_def split: option.splits sum.splits if_splits)

lemma read_messages_asks:
  "asks log (read_messages lib d a l access ids) (\<lambda>r trail. \<forall>ms. r = Inr ms \<longrightarrow> message_trail lib d a access ids ms trail)"
proof (induction ids)
  case (Cons i ids)
  show ?case
    unfolding read_messages.simps
    by (rule asks_bind [OF readMessage_asks], intro asks_sum asks_return asks_bind [OF Cons])
      (fastforce split: sum.splits)+
qed (simp add: asks_return)

lemma durable_silent: "silent log (alreadyDurable d a ids)"
proof (induction ids)
  case (Cons i ids)
  then show ?case unfolding alreadyDurable.simps by (intro asks_storage asks_case asks_return refl)
qed (simp add: asks_return)

end

end
