(* ===== verification/Gmail_Truth.thy ===== *)
theory Gmail_Truth
  imports Gmail_Runs Gmail_Trail Account_Properties Gmail_Html
begin

text \<open>
  What the answer of a discovery run says about the store. The storage operations, the provider, the clock and the
  random source are an interface of which the run relies on a few laws; the in-memory store keeps them although
  other processes work on it in between and requests and answers are lost.
\<close>

section \<open>What a successful commit means\<close>

lemma CommitCurrentDiscovery_success:
  assumes c: "CommitCurrentDiscovery None c s = (None, s')" and inv: "store_inv s"
  shows "\<exists>p q. PrepareCurrentDiscoveryCommit c = Inr p \<and> pd_account q = dc_account c \<and> pd_attempt_id q = pd_attempt_id p \<and>
    currentDiscoveryDurable s' q"
proof -
  have ai: "attempts_inv (attempts s) (cursors s) (lifecycles s)" using inv by (simp add: store_inv_def)
  obtain p where p: "PrepareCurrentDiscoveryCommit c = Inr p" using c by (auto simp: CommitCurrentDiscovery_def split: sum.splits)
  note pp = Prepare_Inr [OF p]
  show ?thesis
  proof (cases "currentDiscoveryDurable s p \<or> fmlookup (attempts s) (dc_account c) = None")
    case True
    then have "currentDiscoveryDurable s' p"
      using CommitCurrentDiscovery_fresh [OF c] c p commit_prepared_durable [OF pp(1)] by (auto simp: CommitCurrentDiscovery_def)
    then show ?thesis using p pp(2) by blast
  next
    case False
    then obtain t where t: "fmlookup (attempts s) (dc_account c) = Some t" by blast
    then have "at_state t = ''sealed''" "pd_account (at_prepared t) = dc_account c" using ai by (auto simp: attempts_inv_def)
    then have "pd_attempt_id (at_prepared t) = pd_attempt_id p" and f: "finalizeCurrentDiscovery (at_prepared t) s = (None, s')"
      using c p t False pp(2) by (auto simp: CommitCurrentDiscovery_def Let_def split: if_splits option.splits)
    moreover from finalize_sealed [OF f t ai] have "currentDiscoveryDurable s' (at_prepared t)"
      using commit_prepared_durable by (auto simp: can_promote_def)
    ultimately show ?thesis using p \<open>pd_account (at_prepared t) = dc_account c\<close> by blast
  qed
qed

section \<open>The interface of a run\<close>

definition has_messages :: "store \<Rightarrow> account_id \<Rightarrow> discovered_identity set \<Rightarrow> bool" where
  "has_messages s a S \<longleftrightarrow> (\<forall>i \<in> S. \<exists>m. message_at s a (di_message i) = Some m \<and> msg_thread_id m = di_thread i)"

locale discovery_world =
  fixes d :: "'w discovery" and good :: "'w \<Rightarrow> bool" and store_of :: "'w \<Rightarrow> store"
  assumes reconcile: "triple good (ds_ReconcileCurrentDiscovery (d_store d) a) (\<lambda>_. good)"
    and lifecycle: "triple good (ds_GetAccountLifecycle (d_store d) c a)
      (\<lambda>r w. good w \<and> (\<forall>l. r = Inr l \<longrightarrow> fmlookup (lifecycles (store_of w)) a = Some l))"
    and cursor: "triple good (ds_GetSynchronizationCursor (d_store d) a)
      (\<lambda>r w. good w \<and> (\<forall>c. r = Inr c \<longrightarrow> fmlookup (cursors (store_of w)) a = Some (sc_history c)))"
    and credential: "triple good (ds_GetProviderCredential (d_store d) a)
      (\<lambda>r w. good w \<and> (\<forall>k. r = Inr k \<longrightarrow> fmlookup (credentials (store_of w)) a = Some k))"
    and message: "triple (\<lambda>w. good w \<and> has_messages (store_of w) a S) (ds_GetDiscoveredMessage (d_store d) a g)
      (\<lambda>r w. good w \<and> has_messages (store_of w) a S \<and>
        (\<forall>m. r = Inr m \<longrightarrow> (\<exists>m'. message_at (store_of w) a g = Some m' \<and> msg_thread_id m' = msg_thread_id m)))"
    and commit: "triple good (ds_CommitCurrentDiscovery (d_store d) dc)
      (\<lambda>r w. good w \<and> (r = None \<longrightarrow> (\<exists>s. store_inv s \<and> CommitCurrentDiscovery None dc s = (None, store_of w))))"
    and transition: "triple good (ds_CommitAccountLifecycle (d_store d) c cm)
      (\<lambda>r w. good w \<and> (r = None \<longrightarrow> (\<exists>s. CommitAccountLifecycle None cm s = (None, store_of w))))"
    and get: "triple good (d_get d url access) (\<lambda>_. good)"
    and post: "triple good (d_post d url refresh) (\<lambda>_. good)"
    and jitter: "triple good (d_jitter d) (\<lambda>_. good)"
    and sleep: "triple good (d_sleep d t) (\<lambda>_. good)"
begin

definition needs_reauthorization :: "account_id \<Rightarrow> 'w \<Rightarrow> bool" where
  "needs_reauthorization a w \<longleftrightarrow> (\<exists>l. fmlookup (lifecycles (store_of w)) a = Some l \<and> lc_state l = AccountStateReauthorizationRequired)"

text \<open>An error is only reported as a need for new consent when the store says so.\<close>

definition honest :: "account_id \<Rightarrow> discovery_error + 'a \<Rightarrow> 'w \<Rightarrow> bool" where
  "honest a r w \<longleftrightarrow> good w \<and> (r = Inl ErrCurrentDiscoveryReauthorizationRequired \<longrightarrow> needs_reauthorization a w)"

lemma honest_simps [simp]:
  "honest a (Inr x) w \<longleftrightarrow> good w"
  "honest a (Inl e) w \<longleftrightarrow> good w \<and> (e = ErrCurrentDiscoveryReauthorizationRequired \<longrightarrow> needs_reauthorization a w)"
  by (simp_all add: honest_def)

lemma storage_error_other [simp]: "fixedCurrentDiscoveryStorageError e \<noteq> ErrCurrentDiscoveryReauthorizationRequired"
  by (simp add: fixedCurrentDiscoveryStorageError_def split: option.splits)

lemma mark_triple:
  "triple good (markReauthorization d a l reason)
    (\<lambda>e w. good w \<and> (e = ErrCurrentDiscoveryReauthorizationRequired \<longrightarrow> needs_reauthorization a w))"
proof -
  let ?Q = "\<lambda>e w. good w \<and> (e = ErrCurrentDiscoveryReauthorizationRequired \<longrightarrow> needs_reauthorization a w)"
  have verify: "triple good (State_Monad.bind (ds_GetAccountLifecycle (d_store d) CleanupContext a) (\<lambda>verified.
      State_Monad.return (case verified of Inl _ \<Rightarrow> ErrCurrentDiscoveryRecoveryRequired
        | Inr v \<Rightarrow> if LifecycleMatchesCommit v cm then ErrCurrentDiscoveryReauthorizationRequired
                   else ErrCurrentDiscoveryRecoveryRequired))) ?Q"
    if "cm_next_state cm = AccountStateReauthorizationRequired" for cm
    using that by (intro triple_bind [OF lifecycle] triple_return)
      (auto simp: needs_reauthorization_def LifecycleMatchesCommit_iff split: sum.splits if_splits)
  show ?thesis
    unfolding markReauthorization_def Let_def
    by (rule triple_bind [OF transition], intro triple_option triple_return triple_weaken [OF verify])
      (auto dest!: CommitAccountLifecycle_success simp: needs_reauthorization_def)
qed

lemma lifecycle_quiet: "triple good (ds_GetAccountLifecycle (d_store d) c a) (\<lambda>_. good)"
  by (rule triple_weaken [OF lifecycle]) auto

lemma cursor_quiet: "triple good (ds_GetSynchronizationCursor (d_store d) a) (\<lambda>_. good)"
  by (rule triple_weaken [OF cursor]) auto

lemma credential_quiet: "triple good (ds_GetProviderCredential (d_store d) a) (\<lambda>_. good)"
  by (rule triple_weaken [OF credential]) auto

lemma commit_quiet: "triple good (ds_CommitCurrentDiscovery (d_store d) dc) (\<lambda>_. good)"
  by (rule triple_weaken [OF commit]) auto

lemma preflight_triple: "triple good (preflight d a) (honest a)"
  unfolding preflight_def read_credential_def verify_preflight_def
  by (intro triple_bind [OF reconcile] triple_bind [OF lifecycle_quiet] triple_bind [OF cursor_quiet] triple_bind [OF credential_quiet]
      triple_if triple_option triple_sum triple_return)
    (auto split: sum.splits if_splits)

lemma refresh_triple:
  "triple good (refreshAccessToken d t) (\<lambda>r w. honest a (snd r) w)"
  unfolding refreshAccessToken_def
  by (rule triple_bind [OF post]) (auto intro!: triple_return split: prod.splits option.splits if_splits)

lemma wait_triple: "triple good (waitForRetry d i t) (\<lambda>r w. good w \<and> r \<noteq> Some ErrCurrentDiscoveryReauthorizationRequired)"
  unfolding waitForRetry_def
  by (intro triple_bind [OF jitter] triple_bind [OF sleep] triple_option triple_return) (auto split: prod.splits option.splits)

lemma judge_other: "judge_reply limit reply \<noteq> Failed ErrCurrentDiscoveryReauthorizationRequired"
  by (auto simp: judge_reply_def retry_outcome_def Let_def split: provider_reply.splits option.splits)

lemma attempts_triple: "triple good (gmail_attempts d url access limit left) (honest a)"
proof (induction left)
  case (Suc left)
  have again: "triple good (State_Monad.bind (waitForRetry d i t) (\<lambda>waited. case waited of
      Some e \<Rightarrow> State_Monad.return (Inl e) | None \<Rightarrow> gmail_attempts d url access limit left)) (honest a)" for i t
    by (rule triple_bind [OF wait_triple], intro triple_option triple_return triple_weaken [OF Suc]) auto
  have "triple good (case judge_reply limit reply of Failed e \<Rightarrow> State_Monad.return (Inl e)
      | Answered status body \<Rightarrow> State_Monad.return (Inr (status, body))
      | TryAgain retryAfter \<Rightarrow> if left = 0 then State_Monad.return (Inl ErrCurrentDiscoveryRetryExhausted)
          else State_Monad.bind (waitForRetry d (MaximumProviderAttempts - Suc left) retryAfter) (\<lambda>waited.
            case waited of Some e \<Rightarrow> State_Monad.return (Inl e) | None \<Rightarrow> gmail_attempts d url access limit left)) (honest a)" for reply
    using judge_other [of limit reply] by (cases "judge_reply limit reply") (auto intro!: triple_return again)
  from triple_bind [OF get this] show ?case by simp
qed (simp add: triple_return)

lemma get_triple: "triple good (gmailGET d url access limit) (honest a)"
  unfolding gmailGET_def by (rule attempts_triple)

lemma refused_triple:
  assumes "refused d a l status body = Some m"
  shows "triple good (State_Monad.bind m (\<lambda>e. State_Monad.return (Inl e))) (\<lambda>r w. \<exists>e. r = Inl e \<and> honest a r w)"
proof -
  have stop: "triple good (State_Monad.bind (markReauthorization d a l reason) (\<lambda>e. State_Monad.return (Inl e)))
      (\<lambda>r w. \<exists>e. r = Inl e \<and> honest a r w)" for reason
    by (rule triple_bind [OF mark_triple]) (rule triple_return, simp)
  show ?thesis using assms stop by (auto simp: refused_def triple_return split: if_splits)
qed

text \<open>After a request the run goes on with a status and a body, or ends honestly.\<close>

lemma request_triple:
  assumes "\<And>status body. refused d a l status body = None \<Longrightarrow> triple good (f status body) Q"
    and "\<And>e w. honest a (Inl e :: discovery_error + 'a) w \<Longrightarrow> Q (Inl e) w"
  shows "triple good (State_Monad.bind (gmailGET d url access limit) (\<lambda>got. case got of
      Inl e \<Rightarrow> State_Monad.return (Inl e)
    | Inr (status, body) \<Rightarrow> (case refused d a l status body of
        Some m \<Rightarrow> State_Monad.bind m (\<lambda>e. State_Monad.return (Inl e))
      | None \<Rightarrow> f status body))) (Q :: discovery_error + 'a \<Rightarrow> 'w \<Rightarrow> bool)"
proof (rule triple_bind [OF get_triple [of _ _ _ a]], rule triple_sum)
  fix got :: "discovery_error + int \<times> string" and e
  assume "got = Inl e"
  then show "triple (honest a got) (State_Monad.return (Inl e)) Q" using assms(2) by (intro triple_return) simp
next
  fix got :: "discovery_error + int \<times> string" and x
  assume got: "got = Inr x"
  obtain status body where x: "x = (status, body)" by fastforce
  have refuse: "triple good (State_Monad.bind m (\<lambda>e. State_Monad.return (Inl e))) Q" if "refused d a l status body = Some m" for m
    by (rule triple_weaken [OF refused_triple [OF that]]) (use assms(2) in auto)
  have "triple good (case refused d a l status body of Some m \<Rightarrow> State_Monad.bind m (\<lambda>e. State_Monad.return (Inl e)) | None \<Rightarrow> f status body) Q"
    by (rule triple_option) (use assms(1) refuse in auto)
  then show "triple (honest a got) (case x of (status, body) \<Rightarrow> case refused d a l status body of
      Some m \<Rightarrow> State_Monad.bind m (\<lambda>e. State_Monad.return (Inl e)) | None \<Rightarrow> f status body) Q"
    unfolding x prod.case by (rule triple_weaken) (simp_all add: got)
qed

lemma add_identities_other: "add_identities ids xs \<noteq> Inl ErrCurrentDiscoveryReauthorizationRequired"
  by (induction ids xs rule: add_identities.induct) (auto split: option.splits)

lemma add_records_other: "add_records g rs \<noteq> Inl ErrCurrentDiscoveryReauthorizationRequired"
proof (induction g rs rule: add_records.induct)
  case (2 g r rs)
  then show ?case using add_identities_other [of "hg_identities g" "hr_identities r"] by (auto split: sum.splits)
qed simp

lemma add_page_other: "add_page c g page = Inl e \<Longrightarrow> e \<noteq> ErrCurrentDiscoveryReauthorizationRequired"
  using add_records_other [of g "hp_records page"] by (auto simp: add_page_def split: sum.splits if_splits)

lemma read_pages_triple: "triple good (read_pages d a l c access token left g) (honest a)"
proof (induction left arbitrary: token g)
  case (Suc left)
  show ?case
    unfolding read_pages.simps
    by (rule request_triple, intro triple_if triple_option triple_sum triple_return Suc.IH)
      (auto dest: add_page_other)
qed (simp add: triple_return)

lemma readHistory_triple: "triple good (readHistory d a l c access) (honest a)"
  unfolding readHistory_def by (rule read_pages_triple)

lemma readMessage_triple: "triple good (readMessage lib d a l i access) (honest a)"
  unfolding readMessage_def
  by (intro triple_option triple_return request_triple) (auto split: option.splits sum.splits)

lemma read_messages_triple: "triple good (read_messages lib d a l access ids) (honest a)"
proof (induction ids)
  case (Cons i ids)
  have rest: "triple good (State_Monad.bind (read_messages lib d a l access ids)
      (\<lambda>rest. State_Monad.return (case rest of Inl e \<Rightarrow> Inl e | Inr ms \<Rightarrow> Inr (m # ms)))) (honest a)" for m
    by (rule triple_bind [OF Cons], rule triple_return) (auto split: sum.splits)
  show ?case
    unfolding read_messages.simps
    by (intro triple_bind [OF readMessage_triple] triple_sum triple_return triple_weaken [OF rest]) auto
qed (simp add: triple_return)

lemma durable_triple:
  "triple (\<lambda>w. good w \<and> has_messages (store_of w) a S) (alreadyDurable d a ids)
    (\<lambda>r w. good w \<and> (r \<longrightarrow> has_messages (store_of w) a (S \<union> set ids)))"
proof (induction ids arbitrary: S)
  case (Cons i ids)
  show ?case
    unfolding alreadyDurable.simps
    by (rule triple_bind [OF message], intro triple_sum triple_if triple_return triple_weaken [OF Cons.IH [of "insert i S"]])
      (auto simp: has_messages_def)
qed (simp add: triple_return)

lemma commit_triple: "triple good (commit_discovery d c result) (honest a)"
  unfolding commit_discovery_def
  by (intro triple_sum triple_return triple_bind [OF commit_quiet]) (auto split: option.splits)

lemma durable_quiet: "triple good (alreadyDurable d a ids) (\<lambda>r w. good w \<and> (r \<longrightarrow> has_messages (store_of w) a (set ids)))"
  by (rule triple_weaken [OF durable_triple [of a "{}"]]) (auto simp: has_messages_def)

lemma settle_triple: "triple good (settle_history lib d a pre access reading) (honest a)"
proof -
  have commit: "triple (honest a got) (commit_discovery d c x) (honest a)" for c x and got :: "discovery_error + message option list"
    by (rule triple_weaken [OF commit_triple]) (auto simp: honest_def)
  obtain ids h pages where reading: "reading = (ids, h, pages)" by (cases reading)
  show ?thesis
    unfolding settle_history_def reading prod.case Let_def
    by (intro triple_if triple_return triple_bind [OF durable_quiet] triple_bind [OF read_messages_triple] triple_sum commit) auto
qed

theorem run_honest: "triple good (Discover lib d a) (honest a)"
proof -
  have mark: "triple good (State_Monad.bind (markReauthorization d a l reason) (\<lambda>e. State_Monad.return (Inl e))) (honest a)" for l reason
    by (rule triple_bind [OF mark_triple]) (simp add: triple_return)
  have settle: "triple (honest a got) (settle_history lib d a pre access r) (honest a)" for got :: "discovery_error + history_reading" and pre access r
    by (rule triple_weaken [OF settle_triple]) (auto simp: honest_def)
  have history: "triple good (State_Monad.bind (readHistory d a l h access) (\<lambda>reading. case reading of
      Inl e \<Rightarrow> State_Monad.return (Inl e) | Inr r \<Rightarrow> settle_history lib d a pre access r)) (honest a)" for l h access pre
    by (rule triple_bind [OF readHistory_triple], intro triple_sum triple_return settle) auto
  have refreshed: "triple (\<lambda>w. honest a (snd token) w) (case token of
      (refreshInvalidGrant, Inl _) \<Rightarrow> State_Monad.bind (markReauthorization d a l r1) (\<lambda>e. State_Monad.return (Inl e))
    | (refreshAdminPolicy, Inl _) \<Rightarrow> State_Monad.bind (markReauthorization d a l r2) (\<lambda>e. State_Monad.return (Inl e))
    | (refreshUnclassified, Inl e) \<Rightarrow> State_Monad.return (Inl e)
    | (_, Inr access) \<Rightarrow> State_Monad.bind (readHistory d a l h access) (\<lambda>reading. case reading of
        Inl e \<Rightarrow> State_Monad.return (Inl e) | Inr r \<Rightarrow> settle_history lib d a pre access r)) (honest a)"
    for token :: "refresh_classification \<times> (discovery_error + string)" and l h pre r1 r2
  proof (cases token)
    case (Pair c x)
    then show ?thesis
      by (cases c; cases x) (auto intro!: triple_weaken [OF mark] triple_weaken [OF history] triple_return)
  qed
  show ?thesis
    unfolding Discover_def
    by (intro triple_if triple_return triple_bind [OF preflight_triple] triple_sum triple_bind [OF triple_weaken [OF refresh_triple] refreshed])
      auto
qed

end

section \<open>A run on the in-memory store\<close>

text \<open>
  The world of a run: the store with the processes around it, the replies of the provider, the random numbers and
  the outcomes of the waits still to come, and the exchanges with the provider so far. When the lists end, the provider
  stays silent and the rest goes well.
\<close>

record mailroom =
  mr_world :: world
  mr_replies :: "provider_reply list"
  mr_jitter :: "nat option list"
  mr_sleeps :: "(go_error option \<times> ctx) list"
  mr_exchanges :: "exchange list"

definition on_world :: "(world, 'a) state \<Rightarrow> (mailroom, 'a) state" where
  "on_world m = State (\<lambda>w. case run_state m (mr_world w) of (r, v) \<Rightarrow> (r, w\<lparr>mr_world := v\<rparr>))"

definition next_reply :: "mailroom \<Rightarrow> provider_reply" where
  "next_reply w = (case mr_replies w of [] \<Rightarrow> NoResponse (Some DeadlineExceeded) | x # _ \<Rightarrow> x)"

definition env_exchange :: "string \<Rightarrow> string \<Rightarrow> (mailroom, provider_reply) state" where
  "env_exchange url token = State (\<lambda>w. (next_reply w,
     w\<lparr>mr_replies := tl (mr_replies w), mr_exchanges := mr_exchanges w @ [(url, token, next_reply w)]\<rparr>))"

abbreviation unknown_read :: "'a res" where "unknown_read \<equiv> Inl (StorageErr ErrPersistenceUnknown)"
abbreviation unknown_write :: "go_error option" where "unknown_write \<equiv> Some (StorageErr ErrPersistenceUnknown)"

definition env_discovery_store :: "mailroom discovery_store" where
  "env_discovery_store = \<lparr>
     ds_ReconcileCurrentDiscovery = (\<lambda>a. on_world (storage_call unknown_write (\<lambda>c. ReconcileCurrentDiscovery c a))),
     ds_GetAccountLifecycle = (\<lambda>_ a. on_world (storage_call unknown_read (\<lambda>c s. (GetAccountLifecycle c a s, s)))),
     ds_GetSynchronizationCursor = (\<lambda>a. on_world (storage_call unknown_read (\<lambda>c s. (GetSynchronizationCursor c a s, s)))),
     ds_GetProviderCredential = (\<lambda>a. on_world (storage_call unknown_read (\<lambda>c s. (GetProviderCredential c a s, s)))),
     ds_GetDiscoveredMessage = (\<lambda>a g. on_world (storage_call unknown_read (\<lambda>c s. (GetDiscoveredMessage c a g s, s)))),
     ds_CommitCurrentDiscovery = (\<lambda>dc. on_world (storage_call unknown_write (\<lambda>c. CommitCurrentDiscovery c dc))),
     ds_CommitAccountLifecycle = (\<lambda>_ cm. on_world (storage_call unknown_write (\<lambda>c. CommitAccountLifecycle c cm)))\<rparr>"

definition env_discovery :: "string \<Rightarrow> string \<Rightarrow> int \<Rightarrow> keyring \<Rightarrow> ((int \<times> string) option \<Rightarrow> (string \<times> string) option) \<Rightarrow> mailroom discovery" where
  "env_discovery client secret pageSize ring oauth = \<lparr>d_clientID = client, d_clientSecret = secret, d_pageSize = pageSize,
     d_store = env_discovery_store, d_keyring = ring, d_token = productionTokenEndpoint, d_history = productionGmailHistoryEndpoint,
     d_message = productionGmailMessageEndpoint, d_get = env_exchange, d_post = env_exchange, d_oauth = oauth,
     d_jitter = State (\<lambda>w. (case mr_jitter w of [] \<Rightarrow> Some 0 | x # _ \<Rightarrow> x, w\<lparr>mr_jitter := tl (mr_jitter w)\<rparr>)),
     d_sleep = (\<lambda>_. State (\<lambda>w. (case mr_sleeps w of [] \<Rightarrow> (None, None) | x # _ \<Rightarrow> x, w\<lparr>mr_sleeps := tl (mr_sleeps w)\<rparr>)))\<rparr>"

abbreviation mr_good :: "mailroom \<Rightarrow> bool" where "mr_good w \<equiv> world_good (mr_world w)"
abbreviation mr_store :: "mailroom \<Rightarrow> store" where "mr_store w \<equiv> w_store (mr_world w)"

lemma call_triple:
  assumes "\<And>c s r s'. f c s = (r, s') \<Longrightarrow> s' = s \<or> (\<exists>op q. run_op c op s = (q, s'))"
    and keep: "\<And>u v. world_good u \<Longrightarrow> world_later u v \<Longrightarrow> P u \<Longrightarrow> P v"
    and Q: "\<And>c s t r. store_inv s \<Longrightarrow> store_inv t \<Longrightarrow> f c s = (r, t) \<Longrightarrow> Q r t" and lost: "\<And>t. Q lost t"
  shows "triple (\<lambda>w. mr_good w \<and> P (mr_world w)) (on_world (storage_call lost f))
    (\<lambda>r w. mr_good w \<and> P (mr_world w) \<and> Q r (mr_store w))"
  unfolding triple_def
proof (intro allI impI)
  fix w assume w: "mr_good w \<and> P (mr_world w)"
  obtain r v where run: "run_state (storage_call lost f) (mr_world w) = (r, v)" by fastforce
  have "world_good v \<and> world_later (mr_world w) v \<and> w_requests v = w_requests (mr_world w) \<and>
      (r = lost \<or> (\<exists>c s h. (c = None \<or> c = Some Canceled \<or> c = Some DeadlineExceeded) \<and> steps (w_store (mr_world w)) h s \<and> store_inv s \<and>
        f c s = (r, w_store v)))"
    by (rule storage_call_cases [OF run]) (use w assms(1) in auto)
  then have "world_good v \<and> P v \<and> Q r (w_store v)" using w keep Q lost unfolding world_good_def by blast
  then show "mr_good (snd (run_state (on_world (storage_call lost f)) w)) \<and> P (mr_world (snd (run_state (on_world (storage_call lost f)) w))) \<and>
      Q (fst (run_state (on_world (storage_call lost f)) w)) (mr_store (snd (run_state (on_world (storage_call lost f)) w)))"
    using run by (simp add: on_world_def)
qed

lemmas plain_call = call_triple [where P = "\<lambda>_. True", simplified]

lemma has_messages_later: "world_good u \<Longrightarrow> world_later u v \<Longrightarrow> has_messages (w_store u) a S \<Longrightarrow> has_messages (w_store v) a S"
  unfolding world_later_def world_good_def has_messages_def
  using steps_le by (fastforce simp: store_le_def messages_le_def)

lemma GetDiscoveredMessage_thread:
  assumes "GetDiscoveredMessage c a g s = Inr m"
  shows "\<exists>m'. message_at s a g = Some m' \<and> msg_thread_id m' = msg_thread_id m"
proof -
  obtain m0 where m0: "message_at s a g = Some m0" "DecodeCanonical (account_id_string a) (msg_gmail_id m0) (msg_thread_id m0)
      (md_version (msg_metadata m0)) (msg_json m0) (msg_hash m0) = Inr m"
    using assms by (auto simp: GetDiscoveredMessage_def split: option.splits if_splits sum.splits)
  then show ?thesis using DecodeCanonical_Inr_Normalize [OF m0(2)] Normalize_fields by metis
qed

text \<open>A commit only succeeds while its context is live.\<close>

lemma commit_live:
  "CommitCurrentDiscovery c dc s = (None, t) \<Longrightarrow> CommitCurrentDiscovery None dc s = (None, t)"
  "CommitAccountLifecycle c cm s = (None, t) \<Longrightarrow> CommitAccountLifecycle None cm s = (None, t)"
proof -
  show "CommitCurrentDiscovery None dc s = (None, t)" if "CommitCurrentDiscovery c dc s = (None, t)"
    using that by (cases c) (simp_all add: CommitCurrentDiscovery_def)
  show "CommitAccountLifecycle None cm s = (None, t)" if "CommitAccountLifecycle c cm s = (None, t)"
    using that by (cases c) (simp_all add: CommitAccountLifecycle_def)
qed

text \<open>The laws hold beside any property of the world that later worlds keep.\<close>

definition lasting :: "(world \<Rightarrow> bool) \<Rightarrow> bool" where
  "lasting P \<longleftrightarrow> (\<forall>u v. world_good u \<longrightarrow> world_later u v \<longrightarrow> P u \<longrightarrow> P v)"

lemma lasting_call:
  assumes "lasting P"
    and "\<And>c s r s'. f c s = (r, s') \<Longrightarrow> s' = s \<or> (\<exists>op q. run_op c op s = (q, s'))"
    and "\<And>c s t r. store_inv s \<Longrightarrow> store_inv t \<Longrightarrow> f c s = (r, t) \<Longrightarrow> Q r t" and "\<And>t. Q lost t"
  shows "triple (\<lambda>w. mr_good w \<and> P (mr_world w)) (on_world (storage_call lost f))
    (\<lambda>r w. (mr_good w \<and> P (mr_world w)) \<and> Q r (mr_store w))"
  by (rule triple_weaken [OF call_triple [where P = P and Q = Q]]) (use assms in \<open>auto simp: lasting_def\<close>)

lemma env_discovery_world:
  assumes "lasting P"
  shows "discovery_world (env_discovery client secret pageSize ring oauth) (\<lambda>w. mr_good w \<and> P (mr_world w)) mr_store"
proof
  let ?d = "env_discovery client secret pageSize ring oauth" and ?good = "\<lambda>w. mr_good w \<and> P (mr_world w)"
  have st: "d_store ?d = env_discovery_store" by (simp add: env_discovery_def)
  note defs = st env_discovery_store_def discovery_store.simps and known = lasting_call [OF assms]
  note quiet = known [where Q = "\<lambda>_ _. True", simplified]
  show "triple ?good (ds_ReconcileCurrentDiscovery (d_store ?d) a) (\<lambda>_. ?good)" for a
    unfolding defs by (rule quiet) (metis run_op.simps(7))
  show "triple ?good (ds_GetAccountLifecycle (d_store ?d) c a)
      (\<lambda>r w. ?good w \<and> (\<forall>l. r = Inr l \<longrightarrow> fmlookup (lifecycles (mr_store w)) a = Some l))" for c a
    unfolding defs
    by (rule known [where Q = "\<lambda>r s. \<forall>l. r = Inr l \<longrightarrow> fmlookup (lifecycles s) a = Some l"])
      (auto simp: GetAccountLifecycle_def split: option.splits if_splits)
  show "triple ?good (ds_GetSynchronizationCursor (d_store ?d) a)
      (\<lambda>r w. ?good w \<and> (\<forall>c. r = Inr c \<longrightarrow> fmlookup (cursors (mr_store w)) a = Some (sc_history c)))" for a
    unfolding defs
    by (rule known [where Q = "\<lambda>r s. \<forall>c. r = Inr c \<longrightarrow> fmlookup (cursors s) a = Some (sc_history c)"])
      (auto simp: GetSynchronizationCursor_def split: option.splits if_splits)
  show "triple ?good (ds_GetProviderCredential (d_store ?d) a)
      (\<lambda>r w. ?good w \<and> (\<forall>k. r = Inr k \<longrightarrow> fmlookup (credentials (mr_store w)) a = Some k))" for a
    unfolding defs
    by (rule known [where Q = "\<lambda>r s. \<forall>k. r = Inr k \<longrightarrow> fmlookup (credentials s) a = Some k"])
      (auto simp: GetProviderCredential_def split: option.splits if_splits)
  show "triple (\<lambda>w. ?good w \<and> has_messages (mr_store w) a S) (ds_GetDiscoveredMessage (d_store ?d) a g)
      (\<lambda>r w. ?good w \<and> has_messages (mr_store w) a S \<and>
        (\<forall>m. r = Inr m \<longrightarrow> (\<exists>m'. message_at (mr_store w) a g = Some m' \<and> msg_thread_id m' = msg_thread_id m)))" for a S g
    unfolding defs
    by (rule triple_weaken [OF lasting_call [where P = "\<lambda>w. P w \<and> has_messages (w_store w) a S" and
        Q = "\<lambda>r s. \<forall>m. r = Inr m \<longrightarrow> (\<exists>m'. message_at s a g = Some m' \<and> msg_thread_id m' = msg_thread_id m)"]])
      (use assms in \<open>auto simp: lasting_def intro: has_messages_later dest: GetDiscoveredMessage_thread\<close>)
  show "triple ?good (ds_CommitCurrentDiscovery (d_store ?d) dc)
      (\<lambda>r w. ?good w \<and> (r = None \<longrightarrow> (\<exists>s. store_inv s \<and> CommitCurrentDiscovery None dc s = (None, mr_store w))))" for dc
    unfolding defs
    by (rule known [where Q = "\<lambda>r t. r = None \<longrightarrow> (\<exists>s. store_inv s \<and> CommitCurrentDiscovery None dc s = (None, t))"])
      (metis run_op.simps(6), auto dest: commit_live)
  show "triple ?good (ds_CommitAccountLifecycle (d_store ?d) c cm)
      (\<lambda>r w. ?good w \<and> (r = None \<longrightarrow> (\<exists>s. CommitAccountLifecycle None cm s = (None, mr_store w))))" for c cm
    unfolding defs
    by (rule known [where Q = "\<lambda>r t. r = None \<longrightarrow> (\<exists>s. CommitAccountLifecycle None cm s = (None, t))"])
      (metis run_op.simps(4), auto dest: commit_live)
qed (simp_all add: env_discovery_def env_exchange_def triple_def)

interpretation mr: discovery_world "env_discovery client secret pageSize ring oauth" mr_good mr_store
  using env_discovery_world [where P = "\<lambda>_. True"] by (simp add: lasting_def)

interpretation rec: recorded_provider "env_discovery client secret pageSize ring oauth" mr_exchanges
  by unfold_locales (simp_all add: asks_def env_discovery_def env_discovery_store_def env_exchange_def on_world_def split_beta)

end
