(* ===== verification/Gmail_Success.thy ===== *)
theory Gmail_Success
  imports Gmail_Truth
begin

text \<open>
  What a successful discovery run has done: which history it read, from which cursor and with which credential, what it was
  answered, and what became of the messages. The interface of a run is extended by the record of its exchanges and by
  the law that the store only moves along store operations.
\<close>

section \<open>The parts of a run\<close>

lemma preflight_Inr:
  assumes "run_state (preflight d a) w = (Inr pre, w')"
  obtains w1 l w2 w3 k w4 v where "run_state (ds_ReconcileCurrentDiscovery (d_store d) a) w = (None, w1)"
    "run_state (ds_GetAccountLifecycle (d_store d) CallerContext a) w1 = (Inr l, w2)"
    "run_state (ds_GetSynchronizationCursor (d_store d) a) w2 = (Inr (pf_cursor pre), w3)"
    "run_state (ds_GetProviderCredential (d_store d) a) w3 = (Inr k, w4)"
    "DecryptRefreshToken (account_id_string a) (env_text (cred_envelope k)) (d_keyring d) = Inr (pf_refresh pre)"
    "run_state (ds_GetAccountLifecycle (d_store d) CallerContext a) w4 = (Inr v, w')" "lc_state v = AccountStateActive"
proof -
  note step = assms [unfolded preflight_def]
  obtain x w1 where 1: "run_state (ds_ReconcileCurrentDiscovery (d_store d) a) w = (x, w1)" by fastforce
  then have x: "x = None" using step by (auto split: option.splits)
  obtain y w2 where 2: "run_state (ds_GetAccountLifecycle (d_store d) CallerContext a) w1 = (y, w2)" by fastforce
  then obtain l where y: "y = Inr l" using step 1 x by (cases y) auto
  obtain z w3 where 3: "run_state (ds_GetSynchronizationCursor (d_store d) a) w2 = (z, w3)" by fastforce
  then obtain c where z: "z = Inr c" using step 1 2 x y by (cases z) (auto split: if_splits)
  have "run_state (read_credential d a l c) w3 = (Inr pre, w')" using step 1 2 3 x y z by (auto split: if_splits)
  note step = this [unfolded read_credential_def]
  obtain q w4 where 4: "run_state (ds_GetProviderCredential (d_store d) a) w3 = (q, w4)" by fastforce
  then obtain k where q: "q = Inr k" using step by (cases q) auto
  obtain r w5 where 5: "run_state (ds_GetAccountLifecycle (d_store d) CallerContext a) w4 = (r, w5)" by fastforce
  obtain t where t: "DecryptRefreshToken (account_id_string a) (env_text (cred_envelope k)) (d_keyring d) = Inr t"
    using step 4 q by (auto split: if_splits sum.splits)
  have "verify_preflight l a c t r = Inr pre" "w5 = w'" using step 4 5 q t by (auto split: if_splits)
  then show thesis using that [OF 1 [unfolded x] 2 [unfolded y] _ 4 [unfolded q]] 3 z t 5
    by (auto simp: verify_preflight_def validActiveLifecycle_def split: sum.splits if_splits)
qed

lemma Discover_Inr:
  assumes "run_state (Discover lib d a) w = (Inr x, w')"
  obtains pre w1 c access w2 reading w3 where "run_state (preflight d a) w = (Inr pre, w1)"
    "run_state (refreshAccessToken d (pf_refresh pre)) w1 = ((c, Inr access), w2)"
    "run_state (readHistory d a (pf_lifecycle pre) (sc_history (pf_cursor pre)) access) w2 = (Inr reading, w3)"
    "run_state (settle_history lib d a pre access reading) w3 = (Inr x, w')"
proof -
  note step = assms [unfolded Discover_def]
  obtain p w1 where 1: "run_state (preflight d a) w = (p, w1)" by fastforce
  then obtain pre where p: "p = Inr pre" using step by (cases p) (auto split: if_splits)
  obtain c t w2 where 2: "run_state (refreshAccessToken d (pf_refresh pre)) w1 = ((c, t), w2)" by (metis prod.exhaust)
  then obtain access where t: "t = Inr access" using step 1 p by (cases t; cases c) (auto split: if_splits prod.splits)
  obtain r w3 where 3: "run_state (readHistory d a (pf_lifecycle pre) (sc_history (pf_cursor pre)) access) w2 = (r, w3)" by fastforce
  then obtain reading where r: "r = Inr reading" using step 1 2 p t by (cases r; cases c) (auto split: if_splits)
  have "run_state (settle_history lib d a pre access reading) w3 = (Inr x, w')"
    using step 1 2 3 p t r by (cases c) (auto split: if_splits)
  then show thesis using that 1 2 3 p t r by blast
qed

lemma settle_Inr:
  assumes "run_state (settle_history lib d a pre access (ids, h, k)) w = (Inr x, w')"
  shows "x = \<lparr>dr_pages = word_of_nat k, dr_additions = word_of_nat (length ids), dr_committed = 0, dr_vanished = 0, dr_advanced = False\<rparr> \<and>
      history_id_compare h (sc_history (pf_cursor pre)) = 0 \<and> (ids = [] \<and> w' = w \<or> run_state (alreadyDurable d a ids) w = (True, w')) \<or>
    (\<exists>ms w1 p. run_state (read_messages lib d a (pf_lifecycle pre) access ids) w = (Inr ms, w1) \<and>
      PrepareCurrentDiscoveryCommit \<lparr>dc_account = a, dc_expected = sc_history (pf_cursor pre), dc_next = h, dc_messages = List.map_filter id ms\<rparr> = Inr p \<and>
      run_state (ds_CommitCurrentDiscovery (d_store d)
        \<lparr>dc_account = a, dc_expected = sc_history (pf_cursor pre), dc_next = h, dc_messages = List.map_filter id ms\<rparr>) w1 = (None, w') \<and>
      x = \<lparr>dr_pages = word_of_nat k, dr_additions = word_of_nat (length ids), dr_committed = word_of_nat (length (List.map_filter id ms)),
        dr_vanished = word_of_nat (length (filter (\<lambda>m. m = None) ms)), dr_advanced = True\<rparr>)"
proof -
  let ?cmp = "history_id_compare h (sc_history (pf_cursor pre))"
  note step = assms [unfolded settle_history_def Let_def prod.case]
  consider "?cmp < 0" | "?cmp = 0" | "?cmp > 0" by linarith
  then show ?thesis
  proof cases
    case 1
    then show ?thesis using step by simp
  next
    case 2
    then show ?thesis using step by (cases "run_state (alreadyDurable d a ids) w") (auto split: if_splits)
  next
    case 3
    obtain f w1 where f: "run_state (read_messages lib d a (pf_lifecycle pre) access ids) w = (f, w1)" by fastforce
    then obtain ms where ms: "f = Inr ms" using step 3 by (cases f) auto
    let ?c = "\<lparr>dc_account = a, dc_expected = sc_history (pf_cursor pre), dc_next = h, dc_messages = List.map_filter id ms\<rparr>"
    have commit: "run_state (commit_discovery d ?c \<lparr>dr_pages = word_of_nat k, dr_additions = word_of_nat (length ids), dr_committed = 0,
        dr_vanished = word_of_nat (length (filter (\<lambda>m. m = None) ms)), dr_advanced = False\<rparr>) w1 = (Inr x, w')"
      using step 3 f ms by simp
    then obtain p where p: "PrepareCurrentDiscoveryCommit ?c = Inr p" by (auto simp: commit_discovery_def split: sum.splits)
    then show ?thesis using commit f ms
      by (cases "run_state (ds_CommitCurrentDiscovery (d_store d) ?c) w1") (auto simp: commit_discovery_def split: option.splits)
  qed
qed

section \<open>What a successful run has done\<close>

definition reaches :: "store \<Rightarrow> store \<Rightarrow> bool" where
  "reaches s t \<longleftrightarrow> (\<exists>h. steps s h t)"

lemma reaches_refl [simp]: "reaches s s"
  by (auto simp: reaches_def intro: steps_Nil)

lemma reaches_trans: "reaches s t \<Longrightarrow> reaches t u \<Longrightarrow> reaches s u"
  unfolding reaches_def using steps_append by blast

text \<open>A property of the store held at some moment between two others.\<close>

definition sometime :: "store \<Rightarrow> (store \<Rightarrow> bool) \<Rightarrow> store \<Rightarrow> bool" where
  "sometime s P u \<longleftrightarrow> (\<exists>t. reaches s t \<and> P t \<and> reaches t u)"

lemma sometime_later: "sometime s P t \<Longrightarrow> reaches t u \<Longrightarrow> sometime s P u"
  unfolding sometime_def using reaches_trans by blast

text \<open>
  The history a run read between the stores \<open>s\<close> and \<open>t\<close>. The account was active, its cursor and its credential were stored at
  some moment of the run. The refresh token in the credential was exchanged for an access token, and with it the history after
  that cursor was read page by page; the identities are those the pages name, each message once.
\<close>

definition history_read :: "'w discovery \<Rightarrow> account_id \<Rightarrow> store \<Rightarrow> store \<Rightarrow> history_id \<Rightarrow> string \<Rightarrow> history_page list \<Rightarrow> discovered_identity list \<Rightarrow>
    exchange list \<Rightarrow> bool" where
  "history_read d a s t cursor access pages ids trail \<longleftrightarrow> (\<exists>k refresh first rest.
     sometime s (\<lambda>u. \<exists>l. fmlookup (lifecycles u) a = Some l \<and> lc_state l = AccountStateActive) t \<and>
     sometime s (\<lambda>u. fmlookup (cursors u) a = Some cursor) t \<and> sometime s (\<lambda>u. fmlookup (credentials u) a = Some k) t \<and>
     DecryptRefreshToken (account_id_string a) (env_text (cred_envelope k)) (d_keyring d) = Inr refresh \<and>
     trail = first @ rest \<and> token_trail d refresh access first \<and> page_trail d cursor access [] pages rest \<and>
     set ids = page_identities pages \<and> distinct (map di_message ids))"

text \<open>
  What became of the messages. When the cursor advanced, every identity was asked for, and the messages that had not vanished were
  committed from the cursor that was read to the one of the last page: the store holds that batch, or one with the same attempt
  identifier that an interrupted run had left. Otherwise the history ends where it began and every message is stored already.
\<close>

definition messages_settled :: "maillib \<Rightarrow> 'w discovery \<Rightarrow> account_id \<Rightarrow> history_id \<Rightarrow> string \<Rightarrow> history_page list \<Rightarrow> discovered_identity list \<Rightarrow>
    exchange list \<Rightarrow> store \<Rightarrow> discovery_result \<Rightarrow> bool" where
  "messages_settled lib d a cursor access pages ids trail t x \<longleftrightarrow>
    (if dr_advanced x then
       (\<exists>ms p q. message_trail lib d a access ids ms trail \<and>
          PrepareCurrentDiscoveryCommit \<lparr>dc_account = a, dc_expected = cursor, dc_next = hp_history (last pages),
            dc_messages = List.map_filter id ms\<rparr> = Inr p \<and>
          unat (dr_committed x) = length (List.map_filter id ms) \<and> unat (dr_vanished x) = length (filter (\<lambda>m. m = None) ms) \<and>
          pd_account q = a \<and> pd_attempt_id q = pd_attempt_id p \<and> currentDiscoveryDurable t q)
     else trail = [] \<and> history_id_compare (hp_history (last pages)) cursor = 0 \<and> dr_committed x = 0 \<and> dr_vanished x = 0 \<and>
       has_messages t a (set ids))"

locale discovery_run = discovery_world d good store_of + recorded_provider d log
  for d :: "'w discovery" and good :: "'w \<Rightarrow> bool" and store_of :: "'w \<Rightarrow> store" and log :: "'w \<Rightarrow> exchange list" +
  assumes since: "discovery_world d (\<lambda>w. good w \<and> reaches s (store_of w)) store_of"
begin

lemma run_triple: "triple P m Q \<Longrightarrow> run_state m w = (r, w') \<Longrightarrow> P w \<Longrightarrow> Q r w'"
  unfolding triple_def by (metis fst_conv snd_conv)

text \<open>What a step of the run is known to do also moves the store forward.\<close>

lemma moves:
  assumes "\<And>s. triple (\<lambda>w. good w \<and> reaches s (store_of w)) m (\<lambda>r w. (good w \<and> reaches s (store_of w)) \<and> Q s r w)"
    and "run_state m w = (r, w')" and "good w"
  shows "good w' \<and> reaches (store_of w) (store_of w') \<and> Q (store_of w) r w'"
  using run_triple [OF assms(1) assms(2), of "store_of w"] assms(3) by simp

lemmas quiet_moves = moves [where Q = "\<lambda>_ _ _. True", simplified]

lemma preflight_read:
  assumes w: "good w" and run: "run_state (preflight d a) w = (Inr pre, w')"
  shows "good w' \<and> reaches (store_of w) (store_of w') \<and>
    sometime (store_of w) (\<lambda>u. \<exists>l. fmlookup (lifecycles u) a = Some l \<and> lc_state l = AccountStateActive) (store_of w') \<and>
    sometime (store_of w) (\<lambda>u. fmlookup (cursors u) a = Some (sc_history (pf_cursor pre))) (store_of w') \<and>
    (\<exists>k. sometime (store_of w) (\<lambda>u. fmlookup (credentials u) a = Some k) (store_of w') \<and>
      DecryptRefreshToken (account_id_string a) (env_text (cred_envelope k)) (d_keyring d) = Inr (pf_refresh pre))"
proof -
  from run obtain w1 l w2 w3 k w4 v where s: "run_state (ds_ReconcileCurrentDiscovery (d_store d) a) w = (None, w1)"
    "run_state (ds_GetAccountLifecycle (d_store d) CallerContext a) w1 = (Inr l, w2)"
    "run_state (ds_GetSynchronizationCursor (d_store d) a) w2 = (Inr (pf_cursor pre), w3)"
    "run_state (ds_GetProviderCredential (d_store d) a) w3 = (Inr k, w4)"
    "DecryptRefreshToken (account_id_string a) (env_text (cred_envelope k)) (d_keyring d) = Inr (pf_refresh pre)"
    "run_state (ds_GetAccountLifecycle (d_store d) CallerContext a) w4 = (Inr v, w')" "lc_state v = AccountStateActive"
    by (rule preflight_Inr)
  have 1: "good w1" "reaches (store_of w) (store_of w1)" using quiet_moves [OF discovery_world.reconcile [OF since] s(1) w] by auto
  have 2: "good w2" "reaches (store_of w1) (store_of w2)" using quiet_moves [OF discovery_world.lifecycle_quiet [OF since] s(2) 1(1)] by auto
  have 3: "good w3" "reaches (store_of w2) (store_of w3)" "fmlookup (cursors (store_of w3)) a = Some (sc_history (pf_cursor pre))"
    using moves [OF discovery_world.cursor [OF since] s(3) 2(1)] by auto
  have 4: "good w4" "reaches (store_of w3) (store_of w4)" "fmlookup (credentials (store_of w4)) a = Some k"
    using moves [OF discovery_world.credential [OF since] s(4) 3(1)] by auto
  have 5: "good w'" "reaches (store_of w4) (store_of w')" "fmlookup (lifecycles (store_of w')) a = Some v"
    using moves [OF discovery_world.lifecycle [OF since] s(6) 4(1)] by auto
  have r: "reaches (store_of w) (store_of w3)" "reaches (store_of w) (store_of w4)" "reaches (store_of w) (store_of w')"
      "reaches (store_of w3) (store_of w')"
    using 1(2) 2(2) 3(2) 4(2) 5(2) reaches_trans by blast+
  show ?thesis unfolding sometime_def using r 3(3) 4(3) 5 s(5,7) reaches_refl by blast
qed

lemma honest_moves:
  assumes "\<And>s. triple (\<lambda>w. good w \<and> reaches s (store_of w)) m (discovery_world.honest (\<lambda>w. good w \<and> reaches s (store_of w)) store_of a)"
    and "run_state m w = (Inr r, w')" and "good w"
  shows "good w' \<and> reaches (store_of w) (store_of w')"
  using run_triple [OF assms(1) assms(2), of "store_of w"] assms(3) by (simp add: discovery_world.honest_def [OF since])

lemma refresh_moves:
  assumes "run_state (refreshAccessToken d t) w = ((c, Inr access), w')" and "good w"
  shows "good w' \<and> reaches (store_of w) (store_of w')"
  using run_triple [OF discovery_world.refresh_triple [OF since] assms(1), of "store_of w"] assms(2)
  by (simp add: discovery_world.honest_def [OF since])

lemma commit_durable:
  assumes "run_state (ds_CommitCurrentDiscovery (d_store d) c) w = (None, w')" and "good w" and "PrepareCurrentDiscoveryCommit c = Inr p"
  shows "reaches (store_of w) (store_of w') \<and>
    (\<exists>q. pd_account q = dc_account c \<and> pd_attempt_id q = pd_attempt_id p \<and> currentDiscoveryDurable (store_of w') q)"
proof -
  have "reaches (store_of w) (store_of w') \<and> (\<exists>s. store_inv s \<and> CommitCurrentDiscovery None c s = (None, store_of w'))"
    using moves [OF discovery_world.commit [OF since] assms(1,2)] by auto
  then show ?thesis using CommitCurrentDiscovery_success assms(3) by fastforce
qed

lemma settle_done:
  assumes run: "run_state (settle_history lib d a pre access (ids, hp_history (last pages), length pages)) w = (Inr x, w')" and w: "good w"
    and ids: "length ids \<le> MaximumCurrentDiscoveryMessages" "length pages \<le> MaximumCurrentDiscoveryPages"
  shows "unat (dr_pages x) = length pages \<and> unat (dr_additions x) = length ids \<and> reaches (store_of w) (store_of w') \<and>
    (\<exists>trail. log w' = log w @ trail \<and>
      messages_settled lib d a (sc_history (pf_cursor pre)) access pages ids trail (store_of w') x)"
proof -
  note sizes = small_u16 [OF ids(1)] small_pages [OF ids(2)]
  from settle_Inr [OF run] show ?thesis
  proof (elim disjE exE conjE)
    assume x: "x = \<lparr>dr_pages = word_of_nat (length pages), dr_additions = word_of_nat (length ids), dr_committed = 0, dr_vanished = 0,
        dr_advanced = False\<rparr>" and same: "history_id_compare (hp_history (last pages)) (sc_history (pf_cursor pre)) = 0"
    {
      assume "ids = []" "w' = w"
      then show ?thesis using x same sizes by (auto simp: messages_settled_def has_messages_def)
    next
      assume durable: "run_state (alreadyDurable d a ids) w = (True, w')"
      have "good w' \<and> reaches (store_of w) (store_of w') \<and> has_messages (store_of w') a (set ids)"
        using run_triple [OF discovery_world.durable_quiet [OF since] durable, of "store_of w"] w by simp
      moreover have "log w' = log w" using asks_run [OF durable_silent durable] by simp
      ultimately show ?thesis using x same sizes by (auto simp: messages_settled_def)
    }
  next
    fix ms w1 p
    let ?c = "\<lparr>dc_account = a, dc_expected = sc_history (pf_cursor pre), dc_next = hp_history (last pages), dc_messages = List.map_filter id ms\<rparr>"
    assume read: "run_state (read_messages lib d a (pf_lifecycle pre) access ids) w = (Inr ms, w1)"
      and p: "PrepareCurrentDiscoveryCommit ?c = Inr p" and commit: "run_state (ds_CommitCurrentDiscovery (d_store d) ?c) w1 = (None, w')"
      and x: "x = \<lparr>dr_pages = word_of_nat (length pages), dr_additions = word_of_nat (length ids),
        dr_committed = word_of_nat (length (List.map_filter id ms)), dr_vanished = word_of_nat (length (filter (\<lambda>m. m = None) ms)),
        dr_advanced = True\<rparr>"
    have w1: "good w1" "reaches (store_of w) (store_of w1)"
      using honest_moves [OF discovery_world.read_messages_triple [OF since] read w] by auto
    obtain trail where trail: "log w1 = log w @ trail" "message_trail lib d a access ids ms trail"
      using asks_run [OF read_messages_asks read] by blast
    have log: "log w' = log w1" using asks_run [OF storage_silent(6) commit] by simp
    obtain q where q: "reaches (store_of w1) (store_of w')" "pd_account q = a" "pd_attempt_id q = pd_attempt_id p"
        "currentDiscoveryDurable (store_of w') q"
      using commit_durable [OF commit w1(1) p] by auto
    have parts: "length (List.map_filter id ms) \<le> MaximumCurrentDiscoveryMessages" "length (filter (\<lambda>m. m = None) ms) \<le> MaximumCurrentDiscoveryMessages"
      using map_filter_partition [of ms] message_trail_length [OF trail(2)] ids(1) by simp_all
    have "messages_settled lib d a (sc_history (pf_cursor pre)) access pages ids trail (store_of w') x"
      using x q(2-4) trail(2) p small_u16 [OF parts(1)] small_u16 [OF parts(2)] by (simp add: messages_settled_def) blast
    then show ?thesis using x sizes trail(1) log reaches_trans [OF w1(2) q(1)] by auto
  qed
qed

theorem Discover_done:
  assumes w: "good w" and run: "run_state (Discover lib d a) w = (Inr x, w')"
  shows "\<exists>cursor access pages ids read rest. log w' = log w @ read @ rest \<and>
    history_read d a (store_of w) (store_of w') cursor access pages ids read \<and>
    unat (dr_pages x) = length pages \<and> unat (dr_additions x) = length ids \<and>
    messages_settled lib d a cursor access pages ids rest (store_of w') x"
proof -
  from run obtain pre w1 c access w2 reading w3 where s: "run_state (preflight d a) w = (Inr pre, w1)"
    "run_state (refreshAccessToken d (pf_refresh pre)) w1 = ((c, Inr access), w2)"
    "run_state (readHistory d a (pf_lifecycle pre) (sc_history (pf_cursor pre)) access) w2 = (Inr reading, w3)"
    "run_state (settle_history lib d a pre access reading) w3 = (Inr x, w')"
    by (rule Discover_Inr)
  obtain ids h k where reading: "reading = (ids, h, k)" by (cases reading)
  note pre = preflight_read [OF w s(1)]
  have w2: "good w2" "reaches (store_of w1) (store_of w2)" using refresh_moves [OF s(2)] pre by auto
  have w3: "good w3" "reaches (store_of w2) (store_of w3)" using honest_moves [OF discovery_world.readHistory_triple [OF since] s(3) w2(1)] by auto
  have l1: "log w1 = log w" using asks_run [OF preflight_silent s(1)] by simp
  obtain first where first: "log w2 = log w1 @ first" "token_trail d (pf_refresh pre) access first"
    using asks_run [OF refresh_asks s(2)] by auto
  obtain more pages where pages: "log w3 = log w2 @ more" "page_trail d (sc_history (pf_cursor pre)) access [] pages more"
      "h = hp_history (last pages)" "k = length pages" "set ids = page_identities pages" "distinct (map di_message ids)"
    using asks_run [OF readHistory_asks s(3)] reading by blast
  have "reading_bounded (Inr reading)"
    using readHistory_costs [of d a "pf_lifecycle pre" "sc_history (pf_cursor pre)" access] s(3) unfolding costs_def by (metis fst_conv)
  then have "length ids \<le> MaximumCurrentDiscoveryMessages" "length pages \<le> MaximumCurrentDiscoveryPages" using reading pages(4) by simp_all
  note settled = settle_done [OF s(4) [unfolded reading pages(3,4)] w3(1) this]
  have later: "reaches (store_of w1) (store_of w')" using settled w2(2) w3(2) reaches_trans by blast
  then have "history_read d a (store_of w) (store_of w') (sc_history (pf_cursor pre)) access pages ids (first @ more)"
    unfolding history_read_def using pre first(2) pages(2,5,6) sometime_later [OF _ later] by blast
  moreover obtain rest where "log w' = log w3 @ rest" "messages_settled lib d a (sc_history (pf_cursor pre)) access pages ids rest (store_of w') x"
    using settled by blast
  ultimately show ?thesis using settled l1 first(1) pages(1) by (metis append.assoc)
qed

end

section \<open>On the in-memory store\<close>

lemma lasting_reaches: "lasting (\<lambda>w. reaches s (w_store w))"
  unfolding lasting_def world_later_def reaches_def using steps_append by blast

interpretation run: discovery_run "env_discovery client secret pageSize ring oauth" mr_good mr_store mr_exchanges
  using env_discovery_world [OF lasting_reaches]
  by (intro discovery_run.intro discovery_run_axioms.intro mr.discovery_world_axioms rec.recorded_provider_axioms)

end
