(* ===== verification/Gmail_Properties.thy ===== *)
theory Gmail_Properties
  imports Gmail_Success
begin

text \<open>
  The properties of a discovery run on the in-memory store, and a demonstration account on which one run succeeds
  and another one is refused by the token endpoint.
\<close>

section \<open>A demonstration account\<close>

definition demo_credential :: credential_envelope where
  "demo_credential = \<lparr>env_text = demo_old_envelope, env_key_id = CredentialKeyID ''k1''\<rparr>"

definition demo_mail :: store where
  "demo_mail = demo_active\<lparr>credentials := fmupd demo_id \<lparr>cred_account = demo_id, cred_key_id = CredentialKeyID ''k1'',
     cred_envelope = demo_credential\<rparr> (credentials demo_active)\<rparr>"

lemma demo_credential_valid: "credential_envelope_valid demo_credential"
  using demo_old_key parse_envelopes [of demo_old_envelope "''k1''"] by (simp add: credential_envelope_valid_def demo_credential_def)

lemma demo_replace: "run_op None (OpCommitProviderCredential
    \<lparr>pcc_account = demo_id, pcc_expected = Some demo_envelope, pcc_next = demo_credential\<rparr>) demo_active = (None, demo_mail)"
proof -
  have "demo_credential \<noteq> demo_envelope" by (simp add: demo_credential_def demo_envelope_def)
  then show ?thesis using demo_credential_valid
    by (simp add: CommitProviderCredential_def ValidateProviderCredentialCommit_def Let_def demo_mail_def demo_store_defs)
      (simp add: demo_credential_def)
qed

lemma demo_mail_steps: "steps New (demo_history @ [(None, OpCommitProviderCredential
    \<lparr>pcc_account = demo_id, pcc_expected = Some demo_envelope, pcc_next = demo_credential\<rparr>)]) demo_mail"
  by (rule steps_append [OF demo_steps steps_single [OF demo_replace]])

lemma demo_mail_decrypts: "DecryptRefreshToken (account_id_string demo_id) (env_text demo_credential) demo_ring = Inr ''token''"
  using demo_old_decrypts by (simp add: demo_credential_def demo_id_def demo_account_text_def)

definition demo_lifecycle :: account_lifecycle where
  "demo_lifecycle = \<lparr>lc_account = demo_id, lc_state = AccountStateActive, lc_version = 2, lc_reason = None, lc_revocation = RevocationStatusNone\<rparr>"

lemma demo_mail_reads:
  "ReconcileCurrentDiscovery None demo_id demo_mail = (None, demo_mail)"
  "GetAccountLifecycle None demo_id demo_mail = Inr demo_lifecycle"
  "GetSynchronizationCursor None demo_id demo_mail = Inr \<lparr>sc_account = demo_id, sc_history = demo_cursor\<rparr>"
  "GetProviderCredential None demo_id demo_mail = Inr \<lparr>cred_account = demo_id, cred_key_id = CredentialKeyID ''k1'', cred_envelope = demo_credential\<rparr>"
  by (simp_all add: ReconcileCurrentDiscovery_def GetAccountLifecycle_def GetSynchronizationCursor_def GetProviderCredential_def
      demo_mail_def demo_store_defs demo_lifecycle_def)

definition demo_room :: "provider_reply list \<Rightarrow> exchange list \<Rightarrow> mailroom" where
  "demo_room replies log = \<lparr>mr_world = demo_world demo_mail, mr_replies = replies, mr_jitter = [], mr_sleeps = [], mr_exchanges = log\<rparr>"

text \<open>A token library that passes on the token of every accepted response.\<close>

definition demo_oauth :: "(int \<times> string) option \<Rightarrow> (string \<times> string) option" where
  "demo_oauth passed = (case passed of Some (status, _) \<Rightarrow> if status = 200 then Some (''Bearer'', ''access'') else None | None \<Rightarrow> None)"

definition demo_run :: "mailroom discovery" where
  "demo_run = env_discovery ''client'' ''secret'' 100 demo_ring demo_oauth"

lemma calm_on_world:
  "w_ahead (mr_world w) = [] \<Longrightarrow> run_state (on_world (storage_call lost f)) w =
    (fst (f None (mr_store w)), w\<lparr>mr_world := (mr_world w)\<lparr>w_store := snd (f None (mr_store w))\<rparr>\<rparr>)"
  by (simp add: on_world_def calm_call)

lemma demo_preflight:
  "run_state (preflight demo_run demo_id) (demo_room replies log) =
    (Inr \<lparr>pf_lifecycle = demo_lifecycle, pf_cursor = \<lparr>sc_account = demo_id, sc_history = demo_cursor\<rparr>, pf_refresh = ''token''\<rparr>,
     demo_room replies log)"
proof -
  have l: "\<not> inactiveLifecycle demo_lifecycle" "validActiveLifecycle demo_lifecycle demo_id" "lc_version demo_lifecycle \<noteq> MaxInt64"
      "sameLifecycle demo_lifecycle demo_lifecycle"
    by (simp_all add: inactiveLifecycle_def validActiveLifecycle_def sameLifecycle_def demo_lifecycle_def MaxInt64_def)
  have k: "env_key_id demo_credential = CredentialKeyID ''k1''" by (simp add: demo_credential_def)
  show ?thesis
    unfolding preflight_def read_credential_def demo_run_def env_discovery_def env_discovery_store_def demo_room_def demo_world_def
    by (simp add: calm_on_world demo_mail_reads l k demo_mail_decrypts verify_preflight_def MaximumCredentialPlaintextBytes_def)
qed

section \<open>Answers of the provider\<close>

lemma document_print: "json_wf v \<Longrightarrow> json_unicode_from False (json_print False v) \<Longrightarrow> raw_document (json_print False v) = Some v"
  using json_unmarshal_print json_print_utf8(1) by (simp add: raw_document_def validJSONUnicode_def)

lemmas document_eval = json_quote_def chunks_ascii escape_chunk_def Let_def ascii_decode malformed_def rune_error_def
  json_unicode_from.simps [of _ "_ # _"] json_unicode_from.simps [of _ "[]"]

definition demo_reply :: "int \<Rightarrow> string \<Rightarrow> provider_reply" where
  "demo_reply status body = Answer \<lparr>pr_status = status, pr_content_type = ''application/json'', pr_retry_after = [], pr_body = body,
     pr_failed = False, pr_context = None\<rparr>"

definition demo_token_json :: json where
  "demo_token_json = JObj [(''access_token'', JStr ''access''), (''token_type'', JStr ''Bearer''), (''expires_in'', JNum ''3599'')]"

definition demo_grant_json :: json where
  "demo_grant_json = JObj [(''error'', JStr ''invalid_grant'')]"

definition demo_page_json :: json where
  "demo_page_json = JObj [(''history'', JArr [JObj [(''id'', JStr ''9''), (''messagesAdded'', JArr [JObj [(''message'',
     JObj [(''id'', JStr ''m1''), (''threadId'', JStr ''t1'')])]])]]), (''historyId'', JStr ''9'')]"

lemma demo_documents:
  "raw_document (json_print False demo_token_json) = Some demo_token_json"
  "raw_document (json_print False demo_grant_json) = Some demo_grant_json"
  "raw_document (json_print False demo_page_json) = Some demo_page_json"
proof -
  have n: "''3599'' = format_uint (digits_value ''3599'')" by code_simp
  show "raw_document (json_print False demo_token_json) = Some demo_token_json"
  proof (rule document_print)
    show "json_wf demo_token_json" unfolding demo_token_json_def using n by (simp add: valid_utf8_ascii del: format_uint.simps)
    show "json_unicode_from False (json_print False demo_token_json)" unfolding demo_token_json_def by (simp add: document_eval)
  qed
  show "raw_document (json_print False demo_grant_json) = Some demo_grant_json"
    by (rule document_print) (simp_all add: demo_grant_json_def valid_utf8_ascii document_eval)
  show "raw_document (json_print False demo_page_json) = Some demo_page_json"
    by (rule document_print) (simp_all add: demo_page_json_def valid_utf8_ascii document_eval)
qed

lemma demo_grant: "classifyRefreshError (json_print False demo_grant_json) = refreshInvalidGrant"
  unfolding classifyRefreshError_def demo_documents
  by (simp add: decodeStrictRawObject_def demo_grant_json_def unmarshal_string_def MaximumMessagePartDepth_def)

lemma demo_token: "validateRefreshSuccess (json_print False demo_token_json)"
proof -
  have "parse_uint 32 ''3599'' = Some 3599"
    by (simp add: parse_uint_def is_digit_iff digits_value_def)
  moreover have "canonicalPositiveDecimal ''3599''" by code_simp
  ultimately show ?thesis
    unfolding validateRefreshSuccess_def demo_documents
    by (simp add: decodeStrictRawObject_def demo_token_json_def unmarshal_string_def MaximumMessagePartDepth_def maximumAccessTokenBytes_def
        expiry_valid_def maximumOAuthExpirySeconds_def)
qed

lemma demo_ids: "ValidateGmailMessageID ''m1'' = None" "ValidateGmailMessageID ''t1'' = None"
  "ParseHistoryID ''9'' = Inr demo_cursor_next"
proof -
  show "ParseHistoryID ''9'' = Inr demo_cursor_next" using demo_cursor_valid(2) by (simp add: history_id_valid_iff) (simp add: demo_cursor_next_def)
qed (code_simp)+

lemma demo_page: "decodeHistoryPage (json_print False demo_page_json) = Some \<lparr>hp_records =
    [\<lparr>hr_id = demo_cursor_next, hr_identities = [\<lparr>di_message = ''m1'', di_thread = ''t1''\<rparr>]\<rparr>], hp_history = demo_cursor_next, hp_next = []\<rparr>"
  unfolding decodeHistoryPage_def demo_documents
  by (simp add: decodeExactObject_def decodeStrictRawObject_def demo_page_json_def MaximumMessagePartDepth_def decode_history_id_def
      requiredJSONString_def decodeJSONString_def demo_ids decode_page_token_def decodeJSONArray_def MaximumCurrentDiscoveryPageMessages_def
      decode_record_def decode_addition_def)

section \<open>A run tells the truth\<close>


text \<open>
  C36 (reauthorization_truthful): A discovery that reports that the owner has to consent again has recorded it: at that moment the stored
  lifecycle of the account is the one that requires new consent, whatever other processes do in between and
  whichever storage requests or answers are lost.
\<close>

theorem reauthorization_truthful:
  assumes "steps New h (mr_store w)"
    and "run_state (Discover lib (env_discovery client secret pageSize ring oauth) a) w = (Inl ErrCurrentDiscoveryReauthorizationRequired, w')"
  shows "\<exists>l. fmlookup (lifecycles (mr_store w')) a = Some l \<and> lc_state l = AccountStateReauthorizationRequired"
proof -
  have "mr_good w" using steps_inv [OF assms(1) New_inv] by (simp add: world_good_def)
  then show ?thesis using run.run_triple [OF mr.run_honest assms(2)] by (simp add: mr.needs_reauthorization_def)
qed

section \<open>The demonstration runs\<close>

lemma demo_client: "d_clientID demo_run = ''client''" "d_clientSecret demo_run = ''secret''" "d_pageSize demo_run = 100"
  by (simp_all add: demo_run_def env_discovery_def)

lemma demo_post:
  "run_state (d_post demo_run url refresh) (demo_room (x # replies) log) = (x, demo_room replies (log @ [(url, refresh, x)]))"
  "run_state (d_get demo_run url access) (demo_room (x # replies) log) = (x, demo_room replies (log @ [(url, access, x)]))"
  by (simp_all add: demo_run_def env_discovery_def env_exchange_def next_reply_def demo_room_def)

lemma demo_json_type: "jsonContentType ''application/json''"
  by (simp add: jsonContentType_def trim_space_def chunks_ascii space_chunk_def ascii_decode is_space_def)

lemma demo_lengths:
  "length (json_print False demo_grant_json) \<le> MaximumProviderErrorBodyBytes" "length (json_print False demo_token_json) \<le> MaximumProviderErrorBodyBytes"
  "length (json_print False demo_page_json) \<le> MaximumHistoryPageBodyBytes"
  by (simp_all add: demo_grant_json_def demo_token_json_def demo_page_json_def document_eval MaximumProviderErrorBodyBytes_def MaximumHistoryPageBodyBytes_def)

lemma demo_refused_refresh:
  "run_state (refreshAccessToken demo_run ''token'') (demo_room [demo_reply 400 (json_print False demo_grant_json)] log) =
    ((refreshInvalidGrant, Inl ErrCurrentDiscoveryRefreshFailed),
     demo_room [] (log @ [(d_token demo_run, ''token'', demo_reply 400 (json_print False demo_grant_json))]))"
proof -
  have "validate_refresh (demo_reply 400 (json_print False demo_grant_json)) = (refreshInvalidGrant, Some (400, json_print False demo_grant_json))"
    using demo_lengths(1) by (simp add: validate_refresh_def demo_reply_def demo_json_type demo_grant)
  moreover have "d_oauth demo_run = demo_oauth" by (simp add: demo_run_def env_discovery_def)
  ultimately show ?thesis
    by (simp add: refreshAccessToken_def demo_post demo_oauth_def reply_context_def) (simp add: demo_reply_def)
qed


lemma calm_mark:
  assumes "w_ahead (mr_world w) = []" and "CommitAccountLifecycle None \<lparr>cm_account = a, cm_expected_state = AccountStateActive,
      cm_expected_version = lc_version l, cm_expected_revocation = RevocationStatusNone,
      cm_next_state = AccountStateReauthorizationRequired, cm_reason = Some reason, cm_revocation = RevocationStatusNone\<rparr> (mr_store w) = (None, s)"
  shows "run_state (markReauthorization demo_run a l reason) w =
    (ErrCurrentDiscoveryReauthorizationRequired, w\<lparr>mr_world := (mr_world w)\<lparr>w_store := s\<rparr>\<rparr>)"
  using assms by (simp add: markReauthorization_def Let_def demo_run_def env_discovery_def env_discovery_store_def calm_on_world)

definition demo_consent :: lifecycle_commit where
  "demo_consent = \<lparr>cm_account = demo_id, cm_expected_state = AccountStateActive,
      cm_expected_version = lc_version demo_lifecycle, cm_expected_revocation = RevocationStatusNone,
      cm_next_state = AccountStateReauthorizationRequired, cm_reason = Some ReauthorizationReasonRefreshInvalidGrant,
      cm_revocation = RevocationStatusNone\<rparr>"

lemma demo_consent_valid: "ValidateLifecycleCommit demo_consent = None"
  by (simp add: ValidateLifecycleCommit_None demo_consent_def demo_lifecycle_def validExpectedLifecycleShape_def validLifecycleShape_def
      validLifecycleTransition_def MaxInt64_def reauthorization_reason_valid_def)

lemma demo_mark:
  "\<exists>w. run_state (markReauthorization demo_run demo_id demo_lifecycle ReauthorizationReasonRefreshInvalidGrant) (demo_room [] log) =
    (ErrCurrentDiscoveryReauthorizationRequired, w)"
proof -
  have "\<exists>s. CommitAccountLifecycle None demo_consent demo_mail = (None, s)"
    unfolding CommitAccountLifecycle_def demo_consent_valid option.case
    by (simp add: demo_consent_def demo_lifecycle_def demo_mail_def demo_store_defs LifecycleMatchesCommit_iff Let_def
        ParseLifecycleVersion_def int64_add_def)
  then show ?thesis using calm_mark [of "demo_room [] log"] by (auto simp: demo_room_def demo_world_def demo_consent_def)
qed

theorem reauthorization_truthful_witness:
  "\<exists>w' l. run_state (Discover demo_maillib demo_run demo_id) (demo_room [demo_reply 400 (json_print False demo_grant_json)] []) =
      (Inl ErrCurrentDiscoveryReauthorizationRequired, w') \<and>
    fmlookup (lifecycles (mr_store w')) demo_id = Some l \<and> lc_state l = AccountStateReauthorizationRequired"
proof -
  obtain w' where run: "run_state (Discover demo_maillib demo_run demo_id) (demo_room [demo_reply 400 (json_print False demo_grant_json)] []) =
      (Inl ErrCurrentDiscoveryReauthorizationRequired, w')"
    using demo_mark [of "[(d_token demo_run, ''token'', demo_reply 400 (json_print False demo_grant_json))]"]
    by (auto simp: Discover_def demo_client demo_preflight demo_refused_refresh MaximumCurrentDiscoveryPageMessages_def)
  have "mr_store (demo_room replies log) = demo_mail" for replies log by (simp add: demo_room_def demo_world_def)
  then have "\<exists>h. steps New h (mr_store (demo_room replies log))" for replies log using demo_mail_steps by auto
  then show ?thesis using run reauthorization_truthful run [unfolded demo_run_def] by blast
qed

lemma demo_refresh:
  "run_state (refreshAccessToken demo_run ''token'') (demo_room (demo_reply 200 (json_print False demo_token_json) # replies) log) =
    ((refreshUnclassified, Inr ''access''), demo_room replies (log @ [(d_token demo_run, ''token'', demo_reply 200 (json_print False demo_token_json))]))"
proof -
  have "validate_refresh (demo_reply 200 (json_print False demo_token_json)) = (refreshUnclassified, Some (200, json_print False demo_token_json))"
    using demo_lengths(2) by (simp add: validate_refresh_def demo_reply_def demo_json_type demo_token)
  moreover have "d_oauth demo_run = demo_oauth" by (simp add: demo_run_def env_discovery_def)
  ultimately show ?thesis by (simp add: refreshAccessToken_def demo_post demo_oauth_def maximumAccessTokenBytes_def)
qed

lemma demo_answered:
  assumes "judge_reply limit reply = Answered status body"
  shows "run_state (gmailGET demo_run url access limit) (demo_room (reply # replies) log) =
    (Inr (status, body), demo_room replies (log @ [(url, access, reply)]))"
proof -
  have four: "MaximumProviderAttempts = Suc 3" by (simp add: MaximumProviderAttempts_def)
  show ?thesis unfolding gmailGET_def four gmail_attempts.simps by (simp add: demo_post assms)
qed

lemma demo_history_read:
  "run_state (readHistory demo_run demo_id l demo_cursor access) (demo_room (demo_reply 200 (json_print False demo_page_json) # replies) log) =
    (Inr ([\<lparr>di_message = ''m1'', di_thread = ''t1''\<rparr>], demo_cursor_next, 1),
     demo_room replies (log @ [(historyURL demo_run (hid_text demo_cursor) [], access, demo_reply 200 (json_print False demo_page_json))]))"
proof -
  have j: "judge_reply MaximumHistoryPageBodyBytes (demo_reply 200 (json_print False demo_page_json)) = Answered 200 (json_print False demo_page_json)"
    using demo_lengths(3) by (simp add: judge_reply_def demo_reply_def demo_json_type retryableGmailResponse_def)
  have p: "MaximumCurrentDiscoveryPages = Suc 9" by (simp add: MaximumCurrentDiscoveryPages_def)
  have c: "history_id_compare demo_cursor_next demo_cursor = 1" "history_id_compare demo_cursor_next demo_cursor_next = 0"
    by (simp_all add: history_id_compare_def demo_cursor_def demo_cursor_next_def)
  show ?thesis
    unfolding readHistory_def p read_pages.simps
    by (simp add: demo_answered [OF j] refused_def demo_page add_page_def c behind_def known_thread_def MaximumCurrentDiscoveryMessages_def p)
qed

definition demo_batch :: current_discovery_commit where
  "demo_batch = \<lparr>dc_account = demo_id, dc_expected = demo_cursor, dc_next = demo_cursor_next, dc_messages = []\<rparr>"

lemma demo_batch_prepared: "\<exists>p. PrepareCurrentDiscoveryCommit demo_batch = Inr p"
  by (simp add: PrepareCurrentDiscoveryCommit_def demo_batch_def history_id_compare_def demo_cursor_def [symmetric]
      demo_cursor_next_def [symmetric]) (simp add: demo_cursor_def demo_cursor_next_def)

lemma demo_batch_commits: "\<exists>s. CommitCurrentDiscovery None demo_batch demo_mail = (None, s)"
proof -
  obtain p where p: "PrepareCurrentDiscoveryCommit demo_batch = Inr p" using demo_batch_prepared by blast
  note pp = Prepare_Inr [OF p]
  have can: "can_promote p demo_mail" using pp by (simp add: can_promote_def demo_batch_def demo_mail_def demo_store_defs)
  obtain r s where c: "CommitCurrentDiscovery None demo_batch demo_mail = (r, s)" by fastforce
  have free: "fmlookup (attempts demo_mail) demo_id = None" by (simp add: demo_mail_def demo_store_defs)
  have "staged_conflict demo_mail a ms = None" for a ms by (induction ms) (simp_all add: demo_mail_def demo_store_defs message_at_def)
  then have "r = None"
    using c can free pp(2) finalize_fresh [OF _ can, of r s] p
    by (auto simp: CommitCurrentDiscovery_def can_promote_def Let_def sealed_attempt_def demo_batch_def split: if_splits)
  then show ?thesis using c by blast
qed

lemma demo_settled:
  "\<exists>x w'. run_state (settle_history demo_maillib demo_run demo_id \<lparr>pf_lifecycle = demo_lifecycle,
      pf_cursor = \<lparr>sc_account = demo_id, sc_history = demo_cursor\<rparr>, pf_refresh = ''token''\<rparr> ''access''
      ([\<lparr>di_message = ''m1'', di_thread = ''t1''\<rparr>], demo_cursor_next, 1)) (demo_room [demo_reply 404 []] log) = (Inr x, w') \<and>
    dr_advanced x \<and> dr_additions x = 1 \<and> dr_vanished x = 1"
proof -
  have j: "judge_reply MaximumMessageMetadataBodyBytes (demo_reply 404 []) = Answered 404 []"
    by (simp add: judge_reply_def demo_reply_def retryableGmailResponse_def)
  have c: "history_id_compare demo_cursor_next demo_cursor = 1" by (simp add: history_id_compare_def demo_cursor_def demo_cursor_next_def)
  obtain url where url: "messageURL demo_run ''m1'' = Some url" by (simp add: messageURL_def demo_ids)
  have none: "List.map_filter id [None] = ([] :: message list)" by (simp add: map_filter_simps)
  obtain p where p: "PrepareCurrentDiscoveryCommit \<lparr>dc_account = demo_id, dc_expected = demo_cursor, dc_next = demo_cursor_next, dc_messages = []\<rparr> = Inr p"
    using demo_batch_prepared by (auto simp: demo_batch_def)
  obtain s where s: "CommitCurrentDiscovery None \<lparr>dc_account = demo_id, dc_expected = demo_cursor, dc_next = demo_cursor_next, dc_messages = []\<rparr> demo_mail = (None, s)"
    using demo_batch_commits by (auto simp: demo_batch_def)
  have commit: "run_state (ds_CommitCurrentDiscovery (d_store demo_run)
      \<lparr>dc_account = demo_id, dc_expected = demo_cursor, dc_next = demo_cursor_next, dc_messages = []\<rparr>) (demo_room [] log) =
      (None, (demo_room [] log)\<lparr>mr_world := (mr_world (demo_room [] log))\<lparr>w_store := s\<rparr>\<rparr>)" for log
    using s by (simp add: demo_run_def env_discovery_def env_discovery_store_def calm_on_world demo_room_def demo_world_def)
  show ?thesis
    by (simp add: settle_history_def Let_def c readMessage_def url demo_answered [OF j] refused_def commit_discovery_def none p commit)
qed


end
