(* ===== verification/Gmail_Extraction.thy ===== *)
theory Gmail_Extraction
  imports Gmail_Extract Gmail_Properties Store_Decisions
begin

text \<open>
  What an extraction guarantees: the excerpt it returns is the current one of the store, and a need for new consent it
  reports is recorded. The proofs rest on the interface of a discovery run and three more storage operations. The last
  section shows that the extractor cannot be constructed with the production endpoints.
\<close>

section \<open>The interface\<close>

locale extraction_world = discovery_world "ex_auth x" good store_of
  for x :: "'w extractor" and good :: "'w \<Rightarrow> bool" and store_of :: "'w \<Rightarrow> store" +
  assumes decision: "triple good (xs_GetGateDecision (ex_store x) a g) (\<lambda>_. good)"
    and content: "triple good (xs_GetCandidateContent (ex_store x) a g limit)
      (\<lambda>r w. good w \<and> (\<forall>cs. r = Inr cs \<longrightarrow> GetCandidateContent None a g limit (store_of w) = Inr cs))"
    and commit_content: "triple good (xs_CommitCandidateContent (ex_store x) c) (\<lambda>_. good)"
    and now: "triple good (ex_now x) (\<lambda>_. good)"
begin

definition extracted :: "account_id \<Rightarrow> string \<Rightarrow> int \<Rightarrow> content_error + candidate_content \<Rightarrow> 'w \<Rightarrow> bool" where
  "extracted a g limit r w \<longleftrightarrow> good w \<and>
     (\<forall>c. r = Inr c \<longrightarrow> GetCandidateContent None a g limit (store_of w) = Inr \<lparr>cs_content = c, cs_current = True\<rparr>) \<and>
     (r = Inl ErrCandidateContentReauthorizationRequired \<longrightarrow> needs_reauthorization a w)"

lemma extracted_current:
  "good w \<Longrightarrow> GetCandidateContent None a g limit (store_of w) = Inr cs \<Longrightarrow> cs_current cs \<Longrightarrow> extracted a g limit (Inr (cs_content cs)) w"
  by (cases cs) (simp add: extracted_def)

lemma extracted_error: "good w \<Longrightarrow> e \<noteq> ErrCandidateContentReauthorizationRequired \<Longrightarrow> extracted a g limit (Inl e) w"
  by (simp add: extracted_def)

lemma content_errors [simp]:
  "fixedCandidateContentStorageError e \<noteq> ErrCandidateContentReauthorizationRequired"
  "fixedCandidateContentCommitError e' \<noteq> ErrCandidateContentReauthorizationRequired"
  "fixedCandidateContentProviderError e'' \<noteq> ErrCandidateContentReauthorizationRequired"
  by (auto simp: fixedCandidateContentStorageError_def fixedCandidateContentCommitError_def fixedCandidateContentProviderError_def
      split: option.splits)

lemma message_quiet: "triple good (ds_GetDiscoveredMessage (d_store (ex_auth x)) a g) (\<lambda>_. good)"
  by (rule triple_weaken [OF message [of a "{}"]]) (simp_all add: has_messages_def)

lemma content_quiet: "triple good (xs_GetCandidateContent (ex_store x) a g limit) (\<lambda>_. good)"
  by (rule triple_weaken [OF content]) simp_all

lemma mark_extracted: "triple good (extractor_markReauthorization x a l reason) (extracted a g limit)"
  unfolding extractor_markReauthorization_def
  by (rule triple_bind [OF mark_triple], rule triple_return) (auto simp: extracted_def)

definition checked :: "content_error + 'a \<Rightarrow> 'w \<Rightarrow> bool" where
  "checked r w \<longleftrightarrow> good w \<and> r \<noteq> Inl ErrCandidateContentReauthorizationRequired"

lemma preflight_checked: "triple good (extractor_preflight x a g limit) checked"
  unfolding extractor_preflight_def content_eligibility_def content_credential_def Let_def
  by (intro triple_bind [OF lifecycle_quiet] triple_bind [OF message_quiet] triple_bind [OF decision] triple_bind [OF content_quiet]
      triple_bind [OF credential_quiet] triple_if triple_sum triple_return)
    (auto simp: checked_def split: sum.splits if_splits)

lemma verify_checked: "triple good (verifyPreflight x a g pre) (\<lambda>r w. good w \<and> r \<noteq> Some ErrCandidateContentReauthorizationRequired)"
  unfolding verifyPreflight_def
  by (intro triple_bind [OF lifecycle_quiet] triple_bind [OF message_quiet] triple_bind [OF decision] triple_if triple_sum triple_return)
    (auto simp: compare_preflight_def split: sum.splits)

lemma commit_extracted: "triple good (Gmail_Extract.commit_content x a g limit c) (extracted a g limit)"
  unfolding commit_content_def
  by (intro triple_bind [OF commit_content] triple_bind [OF content] triple_option triple_return)
    (auto intro: extracted_current extracted_error split: sum.splits)

lemma store_extracted: "triple good (store_content x a g limit pre c) (extracted a g limit)"
  unfolding store_content_def Let_def
  by (rule triple_bind [OF content], intro triple_sum triple_if triple_return triple_weaken [OF commit_extracted])
    (auto intro: extracted_current extracted_error)

lemma decode_extracted: "triple good (decode_content lib x a g limit pre body) (extracted a g limit)"
  unfolding decode_content_def
  by (intro triple_option triple_return) (auto intro!: triple_bind [OF now] triple_sum triple_return store_extracted extracted_error)

lemma fetch_extracted: "triple good (fetch_content lib x a g limit pre access) (extracted a g limit)"
proof -
  have answer: "triple good (if status = 401 then extractor_markReauthorization x a l r1
      else if status = 403 then (if exactGoogleErrorReason body = Some ''domainPolicy'' then extractor_markReauthorization x a l r2
        else State_Monad.return (Inl ErrCandidateContentUnavailable))
      else if status = 404 then State_Monad.return (Inl ErrCandidateContentVanished)
      else if status \<noteq> 200 then State_Monad.return (Inl ErrCandidateContentUnavailable)
      else decode_content lib x a g limit pre body) (extracted a g limit)" for status :: int and body l r1 r2
    by (intro triple_if triple_return mark_extracted decode_extracted) (auto intro: extracted_error)
  have got: "triple (honest a got) (case got of Inl e \<Rightarrow> State_Monad.return (Inl (fixedCandidateContentProviderError e))
      | Inr (status, body) \<Rightarrow> if status = 401 then extractor_markReauthorization x a l r1
          else if status = 403 then (if exactGoogleErrorReason body = Some ''domainPolicy'' then extractor_markReauthorization x a l r2
            else State_Monad.return (Inl ErrCandidateContentUnavailable))
          else if status = 404 then State_Monad.return (Inl ErrCandidateContentVanished)
          else if status \<noteq> 200 then State_Monad.return (Inl ErrCandidateContentUnavailable)
          else decode_content lib x a g limit pre body) (extracted a g limit)" for got :: "discovery_error + int \<times> string" and l r1 r2
    using answer by (cases got) (auto intro!: triple_return triple_weaken [OF answer] extracted_error)
  show ?thesis unfolding fetch_content_def
    by (intro triple_option triple_return triple_bind [OF get_triple [of _ _ _ a] got]) (auto intro: extracted_error)
qed

lemma refresh_quiet: "triple good (refreshAccessToken (ex_auth x) t) (\<lambda>_. good)"
  by (rule triple_weaken [OF refresh_triple [of t undefined]]) (simp_all add: honest_def)

lemma refreshed_extracted: "triple good (refresh_and_fetch lib x a g limit pre refresh) (extracted a g limit)"
proof -
  have go: "triple good (State_Monad.bind (verifyPreflight x a g pre) (\<lambda>verified. case verified of
      Some e \<Rightarrow> State_Monad.return (Inl e) | None \<Rightarrow> fetch_content lib x a g limit pre access)) (extracted a g limit)" for access
    by (rule triple_bind [OF verify_checked], intro triple_option triple_return triple_weaken [OF fetch_extracted]) (auto intro: extracted_error)
  have "triple good (case token of
      (refreshInvalidGrant, Inl _) \<Rightarrow> extractor_markReauthorization x a l r1
    | (refreshAdminPolicy, Inl _) \<Rightarrow> extractor_markReauthorization x a l r2
    | (refreshUnclassified, Inl e) \<Rightarrow> State_Monad.return (Inl (fixedCandidateContentProviderError e))
    | (_, Inr access) \<Rightarrow> State_Monad.bind (verifyPreflight x a g pre) (\<lambda>verified. case verified of
        Some e \<Rightarrow> State_Monad.return (Inl e) | None \<Rightarrow> fetch_content lib x a g limit pre access)) (extracted a g limit)"
    for token :: "refresh_classification \<times> (discovery_error + string)" and l r1 r2
    by (cases token; cases "fst token"; cases "snd token") (auto intro!: mark_extracted go triple_return extracted_error)
  then show ?thesis unfolding refresh_and_fetch_def by (rule triple_bind [OF refresh_quiet])
qed

theorem extract_outcome: "triple good (Extract lib x a g limit) (extracted a g limit)"
proof -
  have stored: "triple good (State_Monad.bind (xs_GetCandidateContent (ex_store x) a g limit) (\<lambda>state. State_Monad.return (case state of
      Inr cs \<Rightarrow> if cs_current cs then Inr (cs_content cs) else Inl ErrCandidateContentRecoveryRequired
    | Inl _ \<Rightarrow> Inl ErrCandidateContentRecoveryRequired))) (extracted a g limit)"
    by (intro triple_bind [OF content] triple_return) (auto intro: extracted_error extracted_current split: sum.splits)
  show ?thesis
    unfolding Extract_def
    by (intro triple_if triple_return triple_bind [OF preflight_checked] triple_sum triple_option triple_weaken [OF stored]
        triple_weaken [OF refreshed_extracted])
      (auto simp: checked_def intro: extracted_error)
qed

end

section \<open>On the in-memory store\<close>

definition env_content_store :: "mailroom content_store" where
  "env_content_store = \<lparr>
     xs_GetGateDecision = (\<lambda>a g. on_world (storage_call unknown_read (\<lambda>c s. (GetGateDecision c a g s, s)))),
     xs_GetCandidateContent = (\<lambda>a g limit. on_world (storage_call unknown_read (\<lambda>c s. (GetCandidateContent c a g limit s, s)))),
     xs_CommitCandidateContent = (\<lambda>cm. on_world (storage_call unknown_write (\<lambda>c. CommitCandidateContent c cm)))\<rparr>"

definition env_extractor :: "string \<Rightarrow> string \<Rightarrow> keyring \<Rightarrow> ((int \<times> string) option \<Rightarrow> (string \<times> string) option) \<Rightarrow> (mailroom \<Rightarrow> int) \<Rightarrow>
    mailroom extractor" where
  "env_extractor client secret ring oauth clock = \<lparr>ex_store = env_content_store,
     ex_auth = (env_discovery client secret 1 ring oauth)\<lparr>d_history := productionGmailMessageEndpoint\<rparr>, ex_now = State (\<lambda>w. (clock w, w)), ex_closed = False\<rparr>"

lemma GetCandidateContent_live: "GetCandidateContent c a g limit s = Inr cs \<Longrightarrow> GetCandidateContent None a g limit s = Inr cs"
  by (cases c) (simp_all add: GetCandidateContent_def)

lemma env_extractor_auth: "discovery_world (ex_auth (env_extractor client secret ring oauth clock)) mr_good mr_store"
  using mr.discovery_world_axioms [of client secret 1 ring oauth] by (simp add: env_extractor_def discovery_world_def)

interpretation ex: extraction_world "env_extractor client secret ring oauth clock" mr_good mr_store
proof (intro extraction_world.intro extraction_world_axioms.intro)
  let ?x = "env_extractor client secret ring oauth clock"
  show "discovery_world (ex_auth ?x) mr_good mr_store" by (rule env_extractor_auth)
  have st: "ex_store ?x = env_content_store" by (simp add: env_extractor_def)
  note defs = st env_content_store_def content_store.simps
  show "triple mr_good (xs_GetGateDecision (ex_store ?x) a g) (\<lambda>_. mr_good)" for a g
    unfolding defs by (rule plain_call [where Q = "\<lambda>_ _. True", simplified], simp)
  show "triple mr_good (xs_GetCandidateContent (ex_store ?x) a g limit)
      (\<lambda>r w. mr_good w \<and> (\<forall>cs. r = Inr cs \<longrightarrow> GetCandidateContent None a g limit (mr_store w) = Inr cs))" for a g limit
    unfolding defs by (rule plain_call) (auto dest: GetCandidateContent_live)
  show "triple mr_good (xs_CommitCandidateContent (ex_store ?x) c) (\<lambda>_. mr_good)" for c
    unfolding defs by (rule plain_call [where Q = "\<lambda>_ _. True", simplified]) (metis run_op.simps(9))
  show "triple mr_good (ex_now ?x) (\<lambda>_. mr_good)" by (simp add: env_extractor_def triple_def)
qed

lemma GetCandidateContent_current:
  assumes "GetCandidateContent None a g limit s = Inr \<lparr>cs_content = c, cs_current = True\<rparr>" and "store_inv s"
  shows "\<exists>l m d. fmlookup (lifecycles s) a = Some l \<and> lc_state l = AccountStateActive \<and> message_at s a g = Some m \<and>
    fmlookup (decisions s) (msg_record_id m) = Some d \<and> CandidateOutcome (gd_outcome d) \<and> gd_source_hash d = msg_hash m \<and>
    cc_source_hash c = msg_hash m \<and> cc_gate_input_hash c = gd_input_hash d \<and> cc_excerpt_limit c = limit \<and>
    int (length (cc_excerpt c)) \<le> limit"
proof -
  obtain m where m: "message_at s a g = Some m"
    using assms(1) by (auto simp: GetCandidateContent_def split: if_splits option.splits)
  obtain c0 where c0: "fmlookup (contents s) (msg_record_id m) = Some c0" "redecode_content c0 = Inr c" "content_equal c c0"
    using assms(1) m by (auto simp: GetCandidateContent_def split: if_splits option.splits sum.splits)
  have same: "cc_source_hash c = cc_source_hash c0" "cc_gate_input_hash c = cc_gate_input_hash c0" "cc_excerpt_limit c = cc_excerpt_limit c0"
      "cc_excerpt c = cc_excerpt c0"
    using c0(3) by (simp_all add: content_equal_def)
  have "int (length (cc_excerpt c0)) \<le> cc_excerpt_limit c0"
    using content_valid_new [OF inv_content_valid [OF assms(2) c0(1), THEN conjunct1]]
    by (auto simp: NewCandidateContent_def validCandidateContentInput_def split: if_splits)
  then show ?thesis using assms(1) m c0 same by (auto simp: GetCandidateContent_def split: if_splits option.splits)
qed

text \<open>
  C39 (excerpt_truthful): An excerpt that the extractor returns is the current excerpt of the message at that moment, whatever other processes
  do in between, whichever storage requests or answers are lost and whatever the provider answers: reading
  the store returns it as current, the account is active, the stored decision on the stored message makes it a
  candidate, the excerpt was made from that message under that decision, and it keeps the requested limit.
\<close>

theorem excerpt_truthful:
  assumes "steps New h (mr_store w)" and "run_state (Extract lib (env_extractor client secret ring oauth clock) a g limit) w = (Inr c, w')"
  shows "GetCandidateContent None a g limit (mr_store w') = Inr \<lparr>cs_content = c, cs_current = True\<rparr> \<and>
    (\<exists>l m d. fmlookup (lifecycles (mr_store w')) a = Some l \<and> lc_state l = AccountStateActive \<and> message_at (mr_store w') a g = Some m \<and>
      fmlookup (decisions (mr_store w')) (msg_record_id m) = Some d \<and> CandidateOutcome (gd_outcome d) \<and> gd_source_hash d = msg_hash m \<and>
      cc_source_hash c = msg_hash m \<and> cc_gate_input_hash c = gd_input_hash d \<and> cc_excerpt_limit c = limit \<and>
      int (length (cc_excerpt c)) \<le> limit)"
proof -
  have "mr_good w" using steps_inv [OF assms(1) New_inv] by (simp add: world_good_def)
  then have "ex.extracted a g limit (Inr c) w'" using ex.extract_outcome assms(2) unfolding triple_def by (metis fst_conv snd_conv)
  then have read: "GetCandidateContent None a g limit (mr_store w') = Inr \<lparr>cs_content = c, cs_current = True\<rparr>" and "store_inv (mr_store w')"
    unfolding ex.extracted_def by (simp_all add: world_good_def)
  then show ?thesis using GetCandidateContent_current by blast
qed

section \<open>The production endpoints\<close>

text \<open>
  C40 (extractor_production_refused): The extractor cannot be constructed for production. Without explicit endpoints it takes the production token and
  message endpoints, but presents the message endpoint as the history endpoint too. The validation then sees neither
  the production endpoints nor plain loopback addresses, and construction fails, whatever the credentials, as long
  as \<^verbatim>\<open>url.Parse\<close> reports the scheme of the production token endpoint as \<^verbatim>\<open>https\<close>.
\<close>

theorem extractor_production_refused:
  assumes "\<And>u. url_Parse net productionTokenEndpoint = Some u \<Longrightarrow> pu_scheme u = ''https''"
  shows "newCandidateContentExtractor net st (d\<lparr>d_token := [], d_message := []\<rparr>) now = Inl ErrCandidateContentInvalidRequest"
proof -
  have "productionGmailMessageEndpoint \<noteq> productionGmailHistoryEndpoint"
    by (simp add: productionGmailMessageEndpoint_def productionGmailHistoryEndpoint_def)
  moreover have "\<not> loopback_endpoint net productionTokenEndpoint" using assms by (auto simp: loopback_endpoint_def split: option.splits)
  ultimately show ?thesis by (simp add: newCandidateContentExtractor_def validCurrentDiscoveryEndpoints_def)
qed

text \<open>A simple URL parser: the scheme before the first colon, the rest the host name.\<close>

definition demo_net :: netlib where
  "demo_net = \<lparr>url_Parse = (\<lambda>v. Some \<lparr>pu_scheme = takeWhile (\<lambda>c. c \<noteq> CHR '':'') v, pu_user = False, pu_raw_query = [], pu_fragment = [],
     pu_hostname = drop 3 (dropWhile (\<lambda>c. c \<noteq> CHR '':'') v)\<rparr>), ip_IsLoopback = (\<lambda>h. Some (h = ''127.0.0.1''))\<rparr>"

theorem extractor_production_refused_witness:
  "newCandidateContentExtractor demo_net env_content_store (demo_run\<lparr>d_token := [], d_message := []\<rparr>)
    (State (\<lambda>w. (0, w))) = Inl ErrCandidateContentInvalidRequest"
  by (rule extractor_production_refused) (simp add: demo_net_def productionTokenEndpoint_def)

section \<open>A stored excerpt\<close>

lemma calm_extract:
  assumes w: "w_ahead (mr_world w) = []" and l: "GetAccountLifecycle None a (mr_store w) = Inr l" "\<not> inactiveLifecycle l" "validActiveLifecycle l a"
      "lc_version l \<noteq> MaxInt64"
    and m: "GetDiscoveredMessage None a g (mr_store w) = Inr m" "ParseAccountID (account_id_string a) = Inr a" "ValidateGmailMessageID g = None"
    and d: "GetGateDecision None a g (mr_store w) = Inr \<lparr>gs_decision = d, gs_current = True\<rparr>" "gd_source_hash d = msg_hash m" "CandidateOutcome (gd_outcome d)"
    and c: "GetCandidateContent None a g limit (mr_store w) = Inr \<lparr>cs_content = c, cs_current = True\<rparr>" "MinimumExcerptBytes \<le> limit" "limit \<le> MaximumExcerptBytes"
  shows "run_state (Extract lib (env_extractor client secret ring oauth clock) a g limit) w = (Inr c, w)"
  using assms
  by (simp add: Extract_def extractor_preflight_def content_eligibility_def env_extractor_def env_content_store_def env_discovery_def
      env_discovery_store_def calm_on_world Let_def del: ParseAccountID_Inr)

definition demo_excerpt_room :: mailroom where
  "demo_excerpt_room = \<lparr>mr_world = demo_world (snd (CommitCandidateContent None demo_content_commit demo_decided)), mr_replies = [],
     mr_jitter = [], mr_sleeps = [], mr_exchanges = []\<rparr>"

theorem excerpt_truthful_witness:
  "\<exists>c w'. run_state (Extract demo_maillib (env_extractor ''client'' ''secret'' demo_ring demo_oauth (\<lambda>_. 0)) demo_id ''m1'' MaximumExcerptBytes)
      demo_excerpt_room = (Inr c, w') \<and>
    GetCandidateContent None demo_id ''m1'' MaximumExcerptBytes (mr_store w') = Inr \<lparr>cs_content = c, cs_current = True\<rparr>"
proof -
  obtain s where s: "CommitCandidateContent None demo_content_commit demo_decided = (None, s)" using demo_excerpt by (metis prod.collapse)
  have a: "ParseAccountID (msg_account (ccm_source demo_content_commit)) = Inr demo_id"
    using demo_id_valid by (simp add: demo_content_commit_def demo_message_valid(2) del: ParseAccountID_Inr)
  note cm = CommitCandidateContent_None [OF s a]
  obtain h0 where "steps New h0 demo_decided" using demo_decided_reachable by (auto simp: reachable_def)
  from steps_append [OF this steps_single [of None "OpCommitCandidateContent demo_content_commit" demo_decided None s]] s
  obtain h where h: "steps New h s" by auto
  note inv = steps_inv [OF h New_inv]
  have room: "mr_store demo_excerpt_room = s" "w_ahead (mr_world demo_excerpt_room) = []"
    by (simp_all add: demo_excerpt_room_def demo_world_def s)
  have frame: "lifecycles s = lifecycles demo_decided" "decisions s = decisions demo_decided" "messages s = messages demo_decided"
    by (subst cm(9); simp)+
  have msg: "message_at s demo_id ''m1'' = Some demo_message" using demo_stored frame(3) by (simp add: demo_decided_def message_at_def)
  have dec: "fmlookup (decisions s) (msg_record_id demo_message) = Some demo_decision"
    unfolding frame(2) by (simp add: demo_decided_def demo_mailbox_frame)
  have life: "fmlookup (lifecycles s) demo_id = Some demo_lifecycle"
    unfolding frame(1) demo_lifecycle_def by (simp add: demo_decided_def demo_mailbox_frame) (simp add: demo_store_defs)
  have limit: "cc_excerpt_limit demo_content = MaximumExcerptBytes"
    using NewCandidateContent_Inr [OF demo_new_content] by (simp add: demo_content_def NewCandidateContent_def) (simp add: demo_content_input_def)
  obtain c where c: "GetCandidateContent None demo_id ''m1'' MaximumExcerptBytes s = Inr \<lparr>cs_content = c, cs_current = True\<rparr>"
    using content_read_back [OF demo_decided_reachable s a] demo_message_valid(3) limit by (auto simp: demo_content_commit_def)
  obtain m where m: "GetDiscoveredMessage None demo_id ''m1'' s = Inr m" "message_equal demo_message m"
    using GetDiscoveredMessage_stored [OF inv msg demo_ids(1)] by blast
  have d: "GetGateDecision None demo_id ''m1'' s = Inr \<lparr>gs_decision = demo_decision, gs_current = True\<rparr>"
    using GetGateDecision_stored [OF inv msg dec] demo_decision by simp
  have l: "GetAccountLifecycle None demo_id s = Inr demo_lifecycle" using life by (simp add: GetAccountLifecycle_def)
  have "run_state (Extract demo_maillib (env_extractor ''client'' ''secret'' demo_ring demo_oauth (\<lambda>_. 0)) demo_id ''m1'' MaximumExcerptBytes)
      demo_excerpt_room = (Inr c, demo_excerpt_room)"
    by (rule calm_extract [where l = demo_lifecycle and m = m and d = demo_decision])
      (use room l m d c demo_decision demo_ids(1) demo_id_valid(2) in
        \<open>simp_all add: inactiveLifecycle_def validActiveLifecycle_def demo_lifecycle_def MaxInt64_def message_equal_def
          MinimumExcerptBytes_def MaximumExcerptBytes_def CandidateOutcome_def del: ParseAccountID_Inr\<close>)
  with excerpt_truthful [of h demo_excerpt_room] h room(1) show ?thesis by metis
qed

end
