(* ===== verification/Spec2Isabelle.thy ===== *)
theory Spec2Isabelle
  imports Value_Properties Cryptobox Account_Properties Review_Pages Config_Properties Gmail_Excerpt Gmail_Forest Gmail_Extraction
begin

text \<open>
  \<^bold>\<open>The program.\<close> InboxGate (Go, \<^verbatim>\<open>src/internal\<close>) keeps a queue of Gmail messages that deserve their
  owner's attention. An enrolled account has a refresh token, kept encrypted, and a history cursor. A discovery run
  reads the Gmail history since the cursor, fetches the metadata of the new messages and commits them together
  with the next cursor. The metadata gate classifies stored messages under the owner's policy; excerpts are
  fetched for candidates only; the review service pages through current candidates; the account manager pauses,
  resumes and revokes accounts. All of them meet in the storage handle, whose reference implementation is the
  in-memory store \<^verbatim>\<open>storage/fake/fake.go\<close>.

  \<^bold>\<open>Conventions.\<close> A Go string or byte slice is a \<^typ>\<open>string\<close>; fixed-width integers are words, or \<^typ>\<open>int\<close>
  with the wrap-around written out (\<open>int64_add\<close>); structs are records, sentinel errors a datatype with
  \<open>errors_is\<close>; a function that can fail returns a sum with the error on the left, or an option where the
  code has one error. Code with side effects is a state transformer over a world type of which it sees only
  the operations it calls. Defensive copies are the identity and overwriting of secrets is not modelled.

  \<^bold>\<open>Theories and sources.\<close>
  \<^item> \<open>Prelude\<close>: errors, results, the codec locales and list facts.
  \<^item> \<open>Go_Strings\<close>, \<open>Go_Utf8\<close>, \<open>Go_Encoding\<close>, \<open>Go_Json\<close>, \<open>Go_Crypto\<close>, \<open>Go_Aead\<close>, \<open>Go_Net\<close>: what the code uses of
    the standard library, executable, with the facts the components need (canonical encodings as interpretations of
    the codec locales, SHA-256 and HMAC, AES-256-GCM).
  \<^item> \<open>Storage_Values\<close>, \<open>Storage_Records\<close>: \<^verbatim>\<open>storage/account.go, lifecycle.go, credential.go, gate_decision.go,
    current_discovery.go, review_inspection.go, candidate_content.go\<close>.
  \<^item> \<open>Mail_Message\<close>, \<open>Mail_Content\<close>: \<^verbatim>\<open>mail/message.go, gate_projection.go, candidate_content.go\<close>.
  \<^item> \<open>Gate_Classifier\<close>, \<open>Gate_Eval\<close>: \<^verbatim>\<open>gate/classifier.go\<close>, \<^verbatim>\<open>gateeval/evaluator.go\<close>.
  \<^item> \<open>Fake_Store\<close>: \<^verbatim>\<open>storage/fake/fake.go\<close>, one definition per operation on the record \<open>store\<close>;
    \<open>Store_Invariant\<close>, \<open>Store_Histories\<close>, \<open>Store_Review\<close>, \<open>Store_Properties\<close>, \<open>Store_Decisions\<close> hold what is proved of it.
  \<^item> \<open>Cryptobox\<close>: \<^verbatim>\<open>cryptobox/cryptobox.go\<close>.
  \<^item> \<open>Account_Manager\<close>, \<open>Account_Properties\<close>: \<^verbatim>\<open>account/lifecycle.go\<close>; \<open>Account_Status\<close>: \<^verbatim>\<open>accountstatus/service.go\<close>
    and \<^verbatim>\<open>accountstatusview/model.go\<close>.
  \<^item> \<open>Review_Inspect\<close>, \<open>Review_Pages\<close>: \<^verbatim>\<open>reviewinspect/service.go\<close> and \<^verbatim>\<open>reviewinspectview/types.go\<close>.
  \<^item> \<open>Config_Values\<close>, \<open>Config_Parse\<close>, \<open>Config_Validate\<close>, \<open>Config_Effective\<close>: the files of \<^verbatim>\<open>config\<close>;
    \<open>Config_Structure\<close>, \<open>Config_Gate\<close>, \<open>Config_Properties\<close> hold what is proved of them.
  \<^item> \<open>Gmail_Decode\<close>, \<open>Gmail_Discovery\<close>: \<^verbatim>\<open>gmail/current_discovery_decode.go\<close> and \<^verbatim>\<open>current_discovery.go\<close>;
    \<open>Gmail_Runs\<close>, \<open>Gmail_Trail\<close>, \<open>Gmail_Truth\<close>, \<open>Gmail_Success\<close>, \<open>Gmail_Properties\<close> hold what is proved of a run.
  \<^item> \<open>Gmail_Content\<close>, \<open>Gmail_Extract\<close>: \<^verbatim>\<open>gmail/candidate_content_decode.go\<close> and \<^verbatim>\<open>candidate_content.go\<close>;
    \<open>Gmail_Html\<close>, \<open>Gmail_Forest\<close>, \<open>Gmail_Excerpt\<close> and \<open>Gmail_Extraction\<close> hold what is proved of them.
  \<^item> \<open>Store_Demo\<close>, \<open>Gate_Demo\<close>: the account, message and policy of the witnesses.

  \<^bold>\<open>Interfaces.\<close> \<open>codec\<close>, \<open>canonical_codec\<close> and \<open>prefix_codec\<close> state round trips once for all encodings.
  \<open>revocation_handle\<close> and \<open>revocation_world\<close> state what the account manager relies on, \<open>discovery_world\<close> what a
  discovery run relies on, extended by \<open>extraction_world\<close> for an extraction; \<open>recorded_provider\<close> adds the record of the exchanges with the
  provider, and \<open>discovery_run\<close> joins the two. Each is interpreted on the in-memory store inside a world in which other processes run
  operations before every storage call, contexts are cancelled, and requests and answers are lost.

  \<^bold>\<open>What is shown.\<close>
  \<^item> Store: every history of operations keeps the integrity invariant, so no reader finds corrupt data; a discovery
    commit is atomic and can be replayed; reconciliation finishes what was sealed; errors change nothing but the sealed attempt of a conflicting batch; identities
    never change and cursors only advance; the lifecycle refines a state machine in which revocation is final and
    claimed once; competing decisions do not overwrite each other.
  \<^item> Values: the readers of stored metadata, cursors, excerpts and keyrings accept exactly what the writers
    produce; hashed texts determine what they identify; the gate computes its loop-free specification.
  \<^item> Encryption: tokens decrypt to themselves, and nothing else decrypts.
  \<^item> Account manager: the provider is contacted at most once for a revocation, an answer is true of the store, and
    an undisturbed revocation finishes with the account revoked, its credential deleted and the answer that the provider's reply
    determines. The status snapshot shows every account.
  \<^item> Gate evaluation and review: returned decisions stand; following the cursors of the list shows every candidate once
    and ends; a cursor is accepted exactly when the service wrote it.
  \<^item> Configuration: an accepted document conforms to the schema within its limits and the services start from it;
    the structural walk is exact up to the node limit, and has a gap at it.
  \<^item> Discovery: a successful run has asked the provider for the history after the stored cursor and for the messages it names, has
    counted what the answers say and has stored the batch they yield; a reported need for new consent is recorded; a run
    makes a bounded number of provider requests.
  \<^item> Excerpts: a decoded excerpt is always storable, the text of an HTML part is the visible text of its document, and a returned excerpt is the current one of the
    store. The extractor cannot be constructed with its production endpoints.

  \<^bold>\<open>Bounds and fuel.\<close> The retry and page loops recurse on the number of attempts (4) and pages (10) left, as
  the code counts them. Case folding searches an orbit with fuel 0x110000, the number of runes, which suffices
  because an orbit has no more elements. Following review pages has a fuel argument, and the theorem shows that the
  number of rows is enough. The other loops terminate by measures on the text that is left.

  \<^bold>\<open>Parameters.\<close> \<^verbatim>\<open>unicode.SimpleFold\<close>, \<^verbatim>\<open>net/mail\<close> and \<^verbatim>\<open>mime\<close> parsing, \<^verbatim>\<open>strconv.ParseFloat\<close>, the YAML decoder, \<^verbatim>\<open>url.Parse\<close>, the time
  zone database, the file system, the OAuth library, HTTP exchanges, clocks and random bytes are arguments of the
  definitions that use them.

  \<^bold>\<open>Not modelled.\<close> The Turso adapter and the migrations are SQL text for a remote database. The MCP endpoint, the
  HTTP server, the commands, the browser part of the enrolment and the transport settings are protocol and process glue over the modelled services. The release builder runs
  external programs.
\<close>

end
